(* ===== verification/Prelude.thy ===== *)
theory Prelude
  imports Main "HOL-Library.Word" "HOL-Library.List_Lexorder" "HOL-Library.Char_ord"
    "HOL-Library.Product_Lexorder"
begin

text \<open>
  Shared vocabulary of the development: Python's exceptions as values, the result monad
  every fallible function returns, the string predicates behind the repository's regular
  expressions, decimal printing, and the two lemma collections the component theories use
  (\<open>res_simps\<close> for results, \<open>chk\<close> for the check functions of a component).

  A Python \<open>str\<close> is the list of its UTF-8 bytes. The code orders strings by code point,
  which is the order of their UTF-8 bytes, so \<open>List_Lexorder\<close> on byte lists is Python's
  string order.
\<close>

named_theorems res_simps "rewriting of the result monad"
named_theorems chk "characterisations of check functions"

section \<open>Exceptions and results\<close>

datatype py_exc =
    ValueError string
  | TypeError string
  | KeyError string
  | RuntimeError string
  | StopIteration
  | PsycopgError string

type_synonym 'a py = "py_exc + 'a"

definition bindE :: "'e + 'a \<Rightarrow> ('a \<Rightarrow> 'e + 'b) \<Rightarrow> 'e + 'b" where
  "bindE m f = (case m of Inl e \<Rightarrow> Inl e | Inr x \<Rightarrow> f x)"

definition raise_if :: "bool \<Rightarrow> 'e \<Rightarrow> 'e + unit" where
  "raise_if b e = (if b then Inl e else Inr ())"

fun mapE :: "('a \<Rightarrow> 'e + 'b) \<Rightarrow> 'a list \<Rightarrow> 'e + 'b list" where
  "mapE f [] = Inr []"
| "mapE f (x # xs) = bindE (f x) (\<lambda>y. bindE (mapE f xs) (\<lambda>ys. Inr (y # ys)))"

fun eachE :: "('a \<Rightarrow> 'e + unit) \<Rightarrow> 'a list \<Rightarrow> 'e + unit" where
  "eachE f [] = Inr ()"
| "eachE f (x # xs) = bindE (f x) (\<lambda>_. eachE f xs)"

definition is_ok :: "'e + 'a \<Rightarrow> bool" where
  "is_ok r = (case r of Inl _ \<Rightarrow> False | Inr _ \<Rightarrow> True)"

lemma bindE_simps [simp, res_simps]:
  "bindE (Inl e) f = Inl e" "bindE (Inr x) f = f x"
  by (simp_all add: bindE_def)

lemma bindE_Inr_iff [res_simps]: "bindE m f = Inr y \<longleftrightarrow> (\<exists>x. m = Inr x \<and> f x = Inr y)"
  by (cases m) auto

lemma bindE_Inl_iff: "bindE m f = Inl e \<longleftrightarrow> m = Inl e \<or> (\<exists>x. m = Inr x \<and> f x = Inl e)"
  by (cases m) auto

lemma raise_if_Inr_iff [simp, res_simps]: "raise_if b e = Inr u \<longleftrightarrow> \<not> b"
  by (simp add: raise_if_def)

lemma raise_if_Inl_iff [simp, res_simps]: "raise_if b e = Inl e' \<longleftrightarrow> b \<and> e' = e"
  by (auto simp: raise_if_def)

lemma raise_if_simps [simp]: "raise_if False e = Inr ()" "raise_if True e = Inl e"
  by (simp_all add: raise_if_def)

lemma is_ok_simps [simp, res_simps]: "is_ok (Inl e) = False" "is_ok (Inr x) = True"
  by (simp_all add: is_ok_def)

lemma is_ok_bindE [res_simps]: "is_ok (bindE m f) \<longleftrightarrow> (\<exists>x. m = Inr x \<and> is_ok (f x))"
  by (cases m) auto

lemma is_ok_iff: "is_ok m \<longleftrightarrow> (\<exists>x. m = Inr x)"
  by (cases m) auto

lemma is_ok_raise_if [simp, res_simps]: "is_ok (raise_if b e) \<longleftrightarrow> \<not> b"
  by (simp add: raise_if_def)

lemma eachE_Inr_iff [res_simps]: "eachE f xs = Inr u \<longleftrightarrow> (\<forall>x \<in> set xs. f x = Inr ())"
  by (induction xs) (auto simp: bindE_Inr_iff)

lemma mapE_Inr_length: "mapE f xs = Inr ys \<Longrightarrow> length ys = length xs"
  by (induction xs arbitrary: ys) (auto simp: bindE_Inr_iff)

lemma mapE_Inr_iff: "mapE f xs = Inr ys \<longleftrightarrow> list_all2 (\<lambda>x y. f x = Inr y) xs ys"
proof (induction xs arbitrary: ys)
  case Nil
  then show ?case by auto
next
  case (Cons x xs)
  then show ?case by (auto simp: bindE_Inr_iff list_all2_Cons1)
qed

lemma mapE_Inr_map: "(\<And>x. x \<in> set xs \<Longrightarrow> f x = Inr (g x)) \<Longrightarrow> mapE f xs = Inr (map g xs)"
  by (induction xs) auto

lemma mapE_set: "mapE f xs = Inr ys \<Longrightarrow> y \<in> set ys \<Longrightarrow> \<exists>x \<in> set xs. f x = Inr y"
  by (induction xs arbitrary: ys) (auto simp: bindE_Inr_iff)

lemma mapE_list_all: "mapE f xs = Inr ys \<Longrightarrow> (\<And>x y. f x = Inr y \<Longrightarrow> P y) \<Longrightarrow> list_all P ys"
  by (induction xs arbitrary: ys) (auto simp: bindE_Inr_iff)

lemma mapE_all: "mapE f xs = Inr ys \<Longrightarrow> x \<in> set xs \<Longrightarrow> \<exists>y \<in> set ys. f x = Inr y"
  by (induction xs arbitrary: ys) (auto simp: bindE_Inr_iff)

lemma mapE_map_eq:
  "mapE f xs = Inr ys \<Longrightarrow> (\<And>x y. x \<in> set xs \<Longrightarrow> f x = Inr y \<Longrightarrow> h y = g x) \<Longrightarrow> map h ys = map g xs"
  by (induction xs arbitrary: ys) (auto simp: bindE_Inr_iff)

section \<open>First match, as Python's \<open>next(..., None)\<close>\<close>

lemma find_Some_set: "find P xs = Some x \<Longrightarrow> x \<in> set xs \<and> P x"
  by (auto simp: find_Some_iff in_set_conv_nth)

lemma find_distinct:
  assumes "distinct (map f xs)" and "x \<in> set xs"
  shows "find (\<lambda>y. f y = f x) xs = Some x"
  using assms by (induction xs) (auto simp: rev_image_eqI)

text \<open>The first refusal of a sequence of refusal checks: \<open>next((r for r in checks if r), None)\<close>.\<close>

fun first_some :: "'a option list \<Rightarrow> 'a option" where
  "first_some [] = None"
| "first_some (x # xs) = (case x of Some y \<Rightarrow> Some y | None \<Rightarrow> first_some xs)"

lemma first_some_None [simp]: "first_some xs = None \<longleftrightarrow> (\<forall>x \<in> set xs. x = None)"
  by (induction xs) (auto split: option.splits)

lemma first_some_Some: "first_some xs = Some y \<Longrightarrow> Some y \<in> set xs"
  by (induction xs) (auto split: option.splits)

section \<open>Association lists in the order of a Python dict\<close>

text \<open>\<open>d[k] = v\<close> keeps the position of a present key and appends an absent one.\<close>

fun dict_set :: "'k \<Rightarrow> 'v \<Rightarrow> ('k \<times> 'v) list \<Rightarrow> ('k \<times> 'v) list" where
  "dict_set k v [] = [(k, v)]"
| "dict_set k v ((k', v') # d) = (if k = k' then (k, v) # d else (k', v') # dict_set k v d)"

definition dict_of :: "('k \<times> 'v) list \<Rightarrow> ('k \<times> 'v) list" where
  "dict_of xs = foldl (\<lambda>d (k, v). dict_set k v d) [] xs"

lemma map_of_dict_set: "map_of (dict_set k v d) = (map_of d)(k \<mapsto> v)"
  by (induction k v d rule: dict_set.induct) auto

lemma keys_dict_set: "fst ` set (dict_set k v d) = insert k (fst ` set d)"
  by (induction k v d rule: dict_set.induct) auto

lemma distinct_dict_set: "distinct (map fst d) \<Longrightarrow> distinct (map fst (dict_set k v d))"
proof (induction d)
  case Nil
  then show ?case by simp
next
  case (Cons p d)
  then show ?case using keys_dict_set [of k v d] by (cases p) auto
qed

lemma dict_set_fresh: "k \<notin> fst ` set d \<Longrightarrow> dict_set k v d = d @ [(k, v)]"
  by (induction k v d rule: dict_set.induct) auto

lemma dict_of_distinct_aux:
  "distinct (map fst (acc @ xs)) \<Longrightarrow> foldl (\<lambda>d (k, v). dict_set k v d) acc xs = acc @ xs"
proof (induction xs arbitrary: acc)
  case Nil
  then show ?case by simp
next
  case (Cons p xs)
  obtain k v where p: "p = (k, v)" by (cases p)
  with Cons.prems have "k \<notin> fst ` set acc" by (auto simp: rev_image_eqI)
  with Cons.prems Cons.IH [of "acc @ [p]"] show ?case by (simp add: p dict_set_fresh)
qed

lemma dict_of_distinct: "distinct (map fst xs) \<Longrightarrow> dict_of xs = xs"
  using dict_of_distinct_aux [of "[]" xs] by (simp add: dict_of_def)

lemma map_of_foldl_dict_set:
  "map_of (foldl (\<lambda>d (k, v). dict_set k v d) acc xs) k =
     (case map_of (rev xs) k of None \<Rightarrow> map_of acc k | Some v \<Rightarrow> Some v)"
proof (induction xs arbitrary: acc)
  case Nil
  then show ?case by simp
next
  case (Cons p xs)
  obtain k' v' where p: "p = (k', v')" by (cases p)
  show ?case
    by (simp add: p Cons.IH map_of_dict_set map_add_def split: option.splits)
qed

section \<open>The repository's string shapes\<close>

definition is_lower :: "char \<Rightarrow> bool" where
  "is_lower c \<longleftrightarrow> 97 \<le> (of_char c :: nat) \<and> (of_char c :: nat) \<le> 122"

definition is_digit :: "char \<Rightarrow> bool" where
  "is_digit c \<longleftrightarrow> 48 \<le> (of_char c :: nat) \<and> (of_char c :: nat) \<le> 57"

definition is_hex_lower :: "char \<Rightarrow> bool" where
  "is_hex_lower c \<longleftrightarrow> is_digit c \<or> (97 \<le> (of_char c :: nat) \<and> (of_char c :: nat) \<le> 102)"

text \<open>\<open>[a-z0-9._-]\<close>\<close>

definition key_char :: "char \<Rightarrow> bool" where
  "key_char c \<longleftrightarrow> is_lower c \<or> is_digit c \<or> c = CHR ''.'' \<or> c = CHR ''_'' \<or> c = CHR ''-''"

text \<open>\<open>^[a-z][a-z0-9._-]*$\<close>\<close>

definition stable_key :: "string \<Rightarrow> bool" where
  "stable_key s = (case s of [] \<Rightarrow> False | c # cs \<Rightarrow> is_lower c \<and> list_all key_char cs)"

text \<open>\<open>[1-9][0-9]*\<close>\<close>

definition positive_decimal :: "string \<Rightarrow> bool" where
  "positive_decimal s =
     (case s of [] \<Rightarrow> False | c # cs \<Rightarrow> is_digit c \<and> c \<noteq> CHR ''0'' \<and> list_all is_digit cs)"

text \<open>\<open>^[a-z][a-z0-9._-]*@[1-9][0-9]*$\<close>: the key stops at the first \<open>@\<close>, which no key holds.\<close>

definition versioned_reference :: "string \<Rightarrow> bool" where
  "versioned_reference s =
     (case dropWhile (\<lambda>c. c \<noteq> CHR ''@'') s of
        [] \<Rightarrow> False
      | _ # revision \<Rightarrow>
          stable_key (takeWhile (\<lambda>c. c \<noteq> CHR ''@'') s) \<and> positive_decimal revision)"

text \<open>\<open>^sha256:[0-9a-f]{64}$\<close>\<close>

definition sha256_reference :: "string \<Rightarrow> bool" where
  "sha256_reference s \<longleftrightarrow>
     take 7 s = ''sha256:'' \<and> length s = 71 \<and> list_all is_hex_lower (drop 7 s)"

lemma key_char_not_at: "key_char c \<Longrightarrow> c \<noteq> CHR ''@''"
  by (auto simp: key_char_def is_lower_def is_digit_def)

lemma is_lower_not_at: "is_lower c \<Longrightarrow> c \<noteq> CHR ''@''"
  by (auto simp: is_lower_def)

lemma stable_key_no_at: "stable_key s \<Longrightarrow> CHR ''@'' \<notin> set s"
  by (auto simp: stable_key_def list_all_iff dest: key_char_not_at is_lower_not_at
      split: list.splits)

lemma stable_key_nonempty: "stable_key s \<Longrightarrow> s \<noteq> []"
  by (auto simp: stable_key_def)

section \<open>Decimal printing: \<open>str(n)\<close>\<close>

definition digit_char :: "nat \<Rightarrow> char" where
  "digit_char d = char_of (48 + d)"

fun str_nat :: "nat \<Rightarrow> string" where
  "str_nat n = (if n < 10 then [digit_char n] else str_nat (n div 10) @ [digit_char (n mod 10)])"

declare str_nat.simps [simp del]

definition str_int :: "int \<Rightarrow> string" where
  "str_int i = (if i < 0 then CHR ''-'' # str_nat (nat (- i)) else str_nat (nat i))"

definition digit_value :: "char \<Rightarrow> nat" where
  "digit_value c = of_char c - 48"

definition read_nat :: "string \<Rightarrow> nat" where
  "read_nat s = foldl (\<lambda>n c. 10 * n + digit_value c) 0 s"

lemma of_char_digit_char: "d < 10 \<Longrightarrow> (of_char (digit_char d) :: nat) = 48 + d"
  by (simp add: digit_char_def)

lemma digit_value_char [simp]: "d < 10 \<Longrightarrow> digit_value (digit_char d) = d"
  by (simp add: digit_value_def of_char_digit_char)

lemma is_digit_char [simp]: "d < 10 \<Longrightarrow> is_digit (digit_char d)"
  by (simp add: is_digit_def of_char_digit_char)

lemma str_nat_digits: "list_all is_digit (str_nat n)"
proof (induction n rule: str_nat.induct)
  case (1 n)
  then show ?case by (subst str_nat.simps) auto
qed

lemma str_nat_nonempty: "str_nat n \<noteq> []"
  by (subst str_nat.simps) simp

lemma read_str_nat [simp]: "read_nat (str_nat n) = n"
proof (induction n rule: str_nat.induct)
  case (1 n)
  show ?case
  proof (cases "n < 10")
    case True
    then show ?thesis by (subst str_nat.simps) (simp add: read_nat_def)
  next
    case False
    with 1 show ?thesis by (subst str_nat.simps) (simp add: read_nat_def)
  qed
qed

lemma str_nat_inj [simp]: "str_nat m = str_nat n \<longleftrightarrow> m = n"
  by (metis read_str_nat)

lemma str_int_inj: "str_int i = str_int j \<Longrightarrow> i = j"
proof -
  have neg: "CHR ''-'' # s \<noteq> str_nat n" for s n
    using str_nat_digits [of n] by (auto simp: is_digit_def dest!: sym [of "CHR ''-'' # s"])
  assume "str_int i = str_int j"
  then show "i = j"
    using neg neg [symmetric] by (auto simp: str_int_def split: if_splits)
qed

lemma str_nat_positive: "0 < n \<Longrightarrow> positive_decimal (str_nat n)"
proof (induction n rule: str_nat.induct)
  case (1 n)
  show ?case
  proof (cases "n < 10")
    case True
    then have "(of_char (digit_char n) :: nat) \<noteq> of_char (CHR ''0'')"
      using 1 by (simp add: of_char_digit_char)
    then have "digit_char n \<noteq> CHR ''0''" by metis
    with True show ?thesis
      by (subst str_nat.simps) (simp add: positive_decimal_def)
  next
    case False
    with 1 have "positive_decimal (str_nat (n div 10))" by simp
    with False show ?thesis
      by (subst str_nat.simps) (auto simp: positive_decimal_def split: list.splits)
  qed
qed

text \<open>\<open>key@revision\<close>, and what its reader sees.\<close>

definition component_reference :: "string \<Rightarrow> int \<Rightarrow> string" where
  "component_reference key revision = key @ ''@'' @ str_int revision"

lemma takeWhile_component_reference:
  "CHR ''@'' \<notin> set k \<Longrightarrow>
     takeWhile (\<lambda>c. c \<noteq> CHR ''@'') (component_reference k r) = k \<and>
     dropWhile (\<lambda>c. c \<noteq> CHR ''@'') (component_reference k r) = ''@'' @ str_int r"
  by (induction k) (auto simp: component_reference_def)

lemma component_reference_versioned:
  "stable_key k \<Longrightarrow> 1 \<le> r \<Longrightarrow> versioned_reference (component_reference k r)"
  using takeWhile_component_reference [OF stable_key_no_at, of k r]
  by (simp add: versioned_reference_def str_int_def str_nat_positive)

lemma component_reference_inj:
  assumes "CHR ''@'' \<notin> set k" and "CHR ''@'' \<notin> set k'"
    and "component_reference k r = component_reference k' r'"
  shows "k = k' \<and> r = r'"
proof -
  have "k = k'" and "str_int r = str_int r'"
    using takeWhile_component_reference [OF assms(1), of r]
      takeWhile_component_reference [OF assms(2), of r'] assms(3) by auto
  then show ?thesis by (simp add: str_int_inj)
qed

section \<open>Joining and quoting\<close>

fun join :: "string \<Rightarrow> string list \<Rightarrow> string" where
  "join sep [] = []"
| "join sep [x] = x"
| "join sep (x # y # ys) = x @ sep @ join sep (y # ys)"

definition hex_char :: "nat \<Rightarrow> char" where
  "hex_char d = (if d < 10 then char_of (48 + d) else char_of (87 + d))"

text \<open>
  \<open>repr(s)\<close>: single quotes unless the text holds a single quote and no double quote;
  backslash and the chosen quote escaped, control characters as escapes. Bytes above 127
  (parts of non-ASCII characters) are copied, which is \<open>repr\<close> on printable text.
\<close>

definition repr_char :: "char \<Rightarrow> char \<Rightarrow> string" where
  "repr_char q c =
     (let n = of_char c :: nat in
      if c = q \<or> n = 92 then [CHR 92, c]
      else if n = 9 then [CHR 92, CHR ''t'']
      else if n = 10 then [CHR 92, CHR ''n'']
      else if n = 13 then [CHR 92, CHR ''r'']
      else if n < 32 \<or> n = 127 then [CHR 92, CHR ''x'', hex_char (n div 16), hex_char (n mod 16)]
      else [c])"

definition repr_str :: "string \<Rightarrow> string" where
  "repr_str s =
     (let q = (if CHR 39 \<in> set s \<and> CHR 34 \<notin> set s then CHR 34 else CHR 39)
      in [q] @ concat (map (repr_char q) s) @ [q])"

section \<open>Maxima of sequence columns\<close>

text \<open>SQL's \<open>COALESCE(max(sequence), 0) + 1\<close>.\<close>

definition next_sequence :: "nat list \<Rightarrow> nat" where
  "next_sequence xs = Suc (foldr max xs 0)"

lemma foldr_max_upto: "foldr max [1..<Suc n] 0 = n"
proof -
  have "foldr max [1..<Suc n] k = max n k" for k
    by (induction n arbitrary: k) (auto simp: max.assoc)
  then show ?thesis by simp
qed

lemma next_sequence_upto [simp]: "next_sequence [1..<Suc n] = Suc n"
  unfolding next_sequence_def using foldr_max_upto [of n] by simp

section \<open>Code points\<close>

text \<open>\<open>len(text)\<close> counts code points: the bytes that do not continue a UTF-8 sequence.\<close>

definition code_points :: "string \<Rightarrow> nat" where
  "code_points s = length (filter (\<lambda>c. (of_char c :: nat) div 64 \<noteq> 2) s)"

end
