(* ===== verification/PyJson.thy ===== *)
theory PyJson
  imports Prelude
begin

text \<open>
  Decoded JSON documents and \<open>json.dumps(value, ensure_ascii=False, separators=(",", ":"),
  sort_keys=True)\<close>, the canonical text every digest of the repository is taken over. An object
  is the association list of its members in dict order. Floats are left out: no field of an
  authored contract is one and no modelled encoder emits one.

  The main fact is that the canonical text determines the document up to the order of members
  (\<open>json_text_inj\<close>, \<open>json_dumps_inj\<close>): the digests of the component theories can differ only in
  what they hash, never in how it is framed.
\<close>

datatype json =
    JNull
  | JBool bool
  | JInt int
  | JStr string
  | JList "json list"
  | JObj "(string \<times> json) list"

type_synonym members = "(string \<times> json) list"

definition json_escape :: "char \<Rightarrow> string" where
  "json_escape c =
     (let n = of_char c :: nat in
      if n = 34 \<or> n = 92 then [CHR 92, c]
      else if n = 8 then [CHR 92, CHR ''b'']
      else if n = 12 then [CHR 92, CHR ''f'']
      else if n = 10 then [CHR 92, CHR ''n'']
      else if n = 13 then [CHR 92, CHR ''r'']
      else if n = 9 then [CHR 92, CHR ''t'']
      else if n < 32 then [CHR 92, CHR ''u'', CHR ''0'', CHR ''0'', hex_char (n div 16), hex_char (n mod 16)]
      else [c])"

definition json_string :: "string \<Rightarrow> string" where
  "json_string s = [CHR 34] @ concat (map json_escape s) @ [CHR 34]"

fun json_text :: "json \<Rightarrow> string"
  and json_items :: "json list \<Rightarrow> string"
  and json_members :: "members \<Rightarrow> string" where
  "json_text JNull = ''null''"
| "json_text (JBool b) = (if b then ''true'' else ''false'')"
| "json_text (JInt i) = str_int i"
| "json_text (JStr s) = json_string s"
| "json_text (JList vs) = ''['' @ json_items vs @ '']''"
| "json_text (JObj ms) = ''{'' @ json_members ms @ ''}''"
| "json_items [] = []"
| "json_items (v # vs) = json_text v @ (if vs = [] then [] else '','' @ json_items vs)"
| "json_members [] = []"
| "json_members ((k, v) # ms) =
     json_string k @ '':'' @ json_text v @ (if ms = [] then [] else '','' @ json_members ms)"

fun json_canon :: "json \<Rightarrow> json"
  and json_canon_items :: "json list \<Rightarrow> json list"
  and json_canon_members :: "members \<Rightarrow> members" where
  "json_canon (JList vs) = JList (json_canon_items vs)"
| "json_canon (JObj ms) = JObj (sort_key fst (json_canon_members ms))"
| "json_canon v = v"
| "json_canon_items [] = []"
| "json_canon_items (v # vs) = json_canon v # json_canon_items vs"
| "json_canon_members [] = []"
| "json_canon_members ((k, v) # ms) = (k, json_canon v) # json_canon_members ms"

definition json_dumps :: "json \<Rightarrow> string" where
  "json_dumps v = json_text (json_canon v)"

section \<open>Escaped strings are uniquely readable\<close>

definition hex_value :: "char \<Rightarrow> nat" where
  "hex_value c = (let n = of_char c :: nat in if n < 58 then n - 48 else n - 87)"

lemma hex_value_char [simp]: "d < 16 \<Longrightarrow> hex_value (hex_char d) = d"
  by (auto simp: hex_value_def hex_char_def Let_def)

fun json_unescape :: "string \<Rightarrow> (char \<times> string) option" where
  "json_unescape [] = None"
| "json_unescape (c # cs) =
     (if c \<noteq> CHR 92 then Some (c, cs)
      else (case cs of
        [] \<Rightarrow> None
      | d # ds \<Rightarrow>
          if d = CHR ''b'' then Some (char_of (8::nat), ds)
          else if d = CHR ''f'' then Some (char_of (12::nat), ds)
          else if d = CHR ''n'' then Some (char_of (10::nat), ds)
          else if d = CHR ''r'' then Some (char_of (13::nat), ds)
          else if d = CHR ''t'' then Some (char_of (9::nat), ds)
          else if d = CHR ''u'' then
            Some (char_of (16 * hex_value (ds ! 2) + hex_value (ds ! 3)), drop 4 ds)
          else Some (d, ds)))"

lemma char_eq_of_nat: "(of_char c :: nat) = n \<Longrightarrow> c = char_of n"
  by (metis char_of_char)

lemma quoted_chars: "char_of (34::nat) = CHR 34" "char_of (92::nat) = CHR 92"
  by code_simp+

lemma json_unescape_escape: "json_unescape (json_escape c @ x) = Some (c, x)"
proof -
  have u: "(of_char c :: nat) < 32 \<Longrightarrow> of_char c div 16 < (16::nat)" by simp
  consider "(of_char c :: nat) \<in> {34, 92, 8, 12, 10, 13, 9}"
    | "(of_char c :: nat) < 32" "(of_char c :: nat) \<notin> {34, 92, 8, 12, 10, 13, 9}"
    | "(of_char c :: nat) \<ge> 32" "(of_char c :: nat) \<notin> {34, 92, 8, 12, 10, 13, 9}"
    by linarith
  then show ?thesis
  proof cases
    case 1
    then show ?thesis by (auto dest!: char_eq_of_nat simp: json_escape_def quoted_chars)
  next
    case 2
    then show ?thesis by (simp add: json_escape_def Let_def)
  next
    case 3
    then have "c \<noteq> CHR 92" by auto
    with 3 show ?thesis by (simp add: json_escape_def)
  qed
qed

lemma json_escape_quote: "json_escape c @ x \<noteq> CHR 34 # y"
  by (auto simp: json_escape_def Let_def)

lemma json_escape_prefix:
  "json_escape c @ x = json_escape c' @ x' \<Longrightarrow> c = c' \<and> x = x'"
  by (metis json_unescape_escape option.inject prod.inject)

lemma json_string_body_inj:
  "concat (map json_escape s) @ CHR 34 # r = concat (map json_escape s') @ CHR 34 # r'
   \<Longrightarrow> s = s' \<and> r = r'"
proof (induction s arbitrary: s')
  case Nil
  then show ?case
    by (cases s') (auto dest: sym simp: json_escape_quote [symmetric] json_escape_quote)
next
  case (Cons c s)
  show ?case
  proof (cases s')
    case Nil
    with Cons.prems show ?thesis by (simp add: json_escape_quote)
  next
    case (Cons c' t')
    with Cons.prems have "c = c'"
      and "concat (map json_escape s) @ CHR 34 # r = concat (map json_escape t') @ CHR 34 # r'"
      by (auto dest: json_escape_prefix)
    with Cons.IH Cons show ?thesis by auto
  qed
qed

lemma json_string_inj: "json_string s @ r = json_string s' @ r' \<Longrightarrow> s = s' \<and> r = r'"
  using json_string_body_inj [of s r s' r'] by (simp add: json_string_def)

section \<open>The text determines the document\<close>

definition json_delim :: "string \<Rightarrow> bool" where
  "json_delim r \<longleftrightarrow> r = [] \<or> hd r \<in> {CHR '','', CHR '']'', CHR ''}''}"

definition number_char :: "char \<Rightarrow> bool" where
  "number_char c \<longleftrightarrow> is_digit c \<or> c = CHR ''-''"

lemma str_int_number: "list_all number_char (str_int i)"
  using str_nat_digits by (auto simp: str_int_def number_char_def list_all_iff)

lemma str_int_Cons: "\<exists>c s. str_int i = c # s \<and> number_char c"
  using str_int_number [of i] str_nat_nonempty
  by (cases "str_int i") (auto simp: str_int_def split: if_splits)

lemma takeWhile_str_int: "json_delim r \<Longrightarrow> takeWhile number_char (str_int i @ r) = str_int i"
proof -
  assume "json_delim r"
  then have "takeWhile number_char r = []"
    by (cases r) (auto simp: json_delim_def number_char_def is_digit_def)
  then show ?thesis
    using str_int_number [of i] by (simp add: takeWhile_append list_all_iff)
qed

lemma str_int_read:
  assumes "str_int i @ r = str_int j @ r'" and "json_delim r" and "json_delim r'"
  shows "i = j \<and> r = r'"
proof -
  have "str_int i = str_int j"
    using takeWhile_str_int [OF assms(2), of i] takeWhile_str_int [OF assms(3), of j] assms(1)
    by simp
  with assms(1) show ?thesis by (auto dest: str_int_inj)
qed

lemma json_text_head:
  "\<exists>c s. json_text v = c # s \<and>
     (case v of JNull \<Rightarrow> c = CHR ''n'' | JBool b \<Rightarrow> c = (if b then CHR ''t'' else CHR ''f'')
      | JInt _ \<Rightarrow> number_char c | JStr _ \<Rightarrow> c = CHR 34 | JList _ \<Rightarrow> c = CHR ''['' | JObj _ \<Rightarrow> c = CHR ''{'')"
  using str_int_Cons by (cases v) (auto simp: json_string_def)

definition json_ctor :: "json \<Rightarrow> nat" where
  "json_ctor v =
     (case v of JNull \<Rightarrow> 0 | JBool b \<Rightarrow> (if b then 1 else 2) | JInt _ \<Rightarrow> 3 | JStr _ \<Rightarrow> 4
      | JList _ \<Rightarrow> 5 | JObj _ \<Rightarrow> 6)"

lemma json_text_ctor: "json_text v @ r = json_text v' @ r' \<Longrightarrow> json_ctor v = json_ctor v'"
  using json_text_head [of v] json_text_head [of v']
  by (cases v; cases v') (auto simp: json_ctor_def number_char_def is_digit_def split: if_splits)

lemma json_text_not_close: "json_text v @ r \<noteq> CHR '']'' # r'"
  using json_text_head [of v] by (cases v) (auto simp: number_char_def is_digit_def split: if_splits)

lemma json_ctor_inv:
  "json_ctor v = 0 \<Longrightarrow> v = JNull" "json_ctor v = 1 \<Longrightarrow> v = JBool True"
  "json_ctor v = 2 \<Longrightarrow> v = JBool False" "json_ctor v = 3 \<Longrightarrow> \<exists>i. v = JInt i"
  "json_ctor v = 4 \<Longrightarrow> \<exists>s. v = JStr s" "json_ctor v = 5 \<Longrightarrow> \<exists>vs. v = JList vs"
  "json_ctor v = 6 \<Longrightarrow> \<exists>ms. v = JObj ms"
  by (auto simp: json_ctor_def split: json.splits if_splits)

lemma json_ctor_same [simp]:
  "json_ctor JNull = 0" "json_ctor (JBool b) = (if b then 1 else 2)" "json_ctor (JInt i) = 3"
  "json_ctor (JStr s) = 4" "json_ctor (JList vs) = 5" "json_ctor (JObj ms) = 6"
  by (simp_all add: json_ctor_def)

lemma json_text_read:
  "json_text v @ r = json_text v' @ r' \<Longrightarrow> json_delim r \<Longrightarrow> json_delim r' \<Longrightarrow> v = v' \<and> r = r'"
  "json_items vs @ CHR '']'' # r = json_items vs' @ CHR '']'' # r' \<Longrightarrow> vs = vs' \<and> r = r'"
  "json_members ms @ CHR ''}'' # r = json_members ms' @ CHR ''}'' # r' \<Longrightarrow> ms = ms' \<and> r = r'"
proof (induction v and vs and ms arbitrary: v' r r' and vs' r r' and ms' r r'
    rule: json_text_json_items_json_members.induct)
  case (3 i)
  then obtain i' where v': "v' = JInt i'"
    using json_text_ctor [OF "3.prems"(1)] json_ctor_inv(4) [of v'] by auto
  with "3.prems" show ?case
    by (auto dest!: str_int_read)
next
  case (4 s)
  then obtain s' where v': "v' = JStr s'"
    using json_text_ctor [OF "4.prems"(1)] json_ctor_inv(5) [of v'] by auto
  with "4.prems" show ?case
    by (auto dest!: json_string_inj)
next
  case (5 vs)
  then obtain vs' where v': "v' = JList vs'"
    using json_text_ctor [OF "5.prems"(1)] json_ctor_inv(6) [of v'] by auto
  with "5.prems" show ?case
    by (auto dest!: "5.IH")
next
  case (6 ms)
  then obtain ms' where v': "v' = JObj ms'"
    using json_text_ctor [OF "6.prems"(1)] json_ctor_inv(7) [of v'] by auto
  with "6.prems" show ?case
    by (auto dest!: "6.IH")
next
  case 7
  then show ?case
    by (cases vs') (auto simp: json_text_not_close dest: sym)
next
  case (8 v vs)
  show ?case
  proof (cases vs')
    case Nil
    with "8.prems" show ?thesis by (simp add: json_text_not_close)
  next
    case (Cons w ws)
    let ?rest = "\<lambda>us q. (if us = [] then [] else '','' @ json_items us) @ CHR '']'' # q"
    have "json_text v @ ?rest vs r = json_text w @ ?rest ws r'"
      using "8.prems" Cons by simp
    moreover have "json_delim (?rest us q)" for us q by (simp add: json_delim_def)
    ultimately have "v = w" and "?rest vs r = ?rest ws r'"
      using "8.IH"(1) by blast+
    then have "vs = ws \<and> r = r'"
      using "8.IH"(2) [of r ws r'] by (cases "vs = []"; cases "ws = []") auto
    with \<open>v = w\<close> Cons show ?thesis by simp
  qed
next
  case 9
  then show ?case
    by (cases ms') (auto simp: json_string_def split: prod.splits)
next
  case (10 k v ms)
  show ?case
  proof (cases ms')
    case Nil
    with "10.prems" show ?thesis by (simp add: json_string_def)
  next
    case (Cons m ws)
    obtain k' w where m: "m = (k', w)" by (cases m)
    let ?rest = "\<lambda>us q. (if us = [] then [] else '','' @ json_members us) @ CHR ''}'' # q"
    have "json_string k @ '':'' @ json_text v @ ?rest ms r
        = json_string k' @ '':'' @ json_text w @ ?rest ws r'"
      using "10.prems" Cons m by simp
    then have k: "k = k'" and "json_text v @ ?rest ms r = json_text w @ ?rest ws r'"
      by (auto dest: json_string_inj)
    moreover have "json_delim (?rest us q)" for us q by (simp add: json_delim_def)
    ultimately have "v = w" and "?rest ms r = ?rest ws r'"
      using "10.IH"(1) by blast+
    then have "ms = ws \<and> r = r'"
      using "10.IH"(2) [of r ws r'] by (cases "ms = []"; cases "ws = []") auto
    with \<open>v = w\<close> Cons m k show ?thesis by simp
  qed
next
  case 1
  then have "v' = JNull" using json_text_ctor [OF "1.prems"(1)] json_ctor_inv(1) by simp
  with "1.prems" show ?case by simp
next
  case (2 b)
  have "json_ctor v' = (if b then 1 else 2)"
    using json_text_ctor [OF "2.prems"(1)] by simp
  then have "v' = JBool b" using json_ctor_inv(2,3) [of v'] by (cases b) simp_all
  with "2.prems"(1) show ?case by (simp del: append.simps)
qed

lemma json_text_inj: "json_text v = json_text v' \<longleftrightarrow> v = v'"
  using json_text_read(1) [of v "[]" v' "[]"] by (auto simp: json_delim_def)

lemma json_dumps_inj: "json_dumps v = json_dumps v' \<longleftrightarrow> json_canon v = json_canon v'"
  by (simp add: json_dumps_def json_text_inj)

section \<open>Canonical objects with a fixed set of members\<close>

lemma json_canon_members_map: "json_canon_members ms = map (map_prod id json_canon) ms"
  by (induction ms) auto

lemma json_canon_items_map: "json_canon_items vs = map json_canon vs"
  by (induction vs) auto

lemma json_canon_strings: "json_canon_items (map JStr ss) = map JStr ss"
  by (induction ss) auto

lemma canon_obj_set:
  assumes "json_canon (JObj ms) = json_canon (JObj ms')"
  shows "set (map (map_prod id json_canon) ms) = set (map (map_prod id json_canon) ms')"
proof -
  have "sort_key fst (map (map_prod id json_canon) ms) = sort_key fst (map (map_prod id json_canon) ms')"
    using assms by (simp add: json_canon_members_map)
  then have "set (sort_key fst (map (map_prod id json_canon) ms))
      = set (sort_key fst (map (map_prod id json_canon) ms'))"
    by (rule arg_cong)
  then show ?thesis by (simp only: set_sort)
qed

lemma canon_obj_member:
  assumes "json_canon (JObj ms) = json_canon (JObj ms')"
    and "distinct (map fst ms)" and "distinct (map fst ms')"
    and "map_of ms k = Some v" and "map_of ms' k = Some v'"
  shows "json_canon v = json_canon v'"
proof -
  have "(k, json_canon v) \<in> set (map (map_prod id json_canon) ms)"
    using map_of_SomeD [OF assms(4)] by force
  then have "(k, json_canon v) \<in> set (map (map_prod id json_canon) ms')"
    by (simp only: canon_obj_set [OF assms(1)])
  then obtain w where "(k, w) \<in> set ms'" and "json_canon w = json_canon v" by auto
  moreover have "w = v'"
    using map_of_is_SomeI [OF assms(3) \<open>(k, w) \<in> set ms'\<close>] assms(5) by simp
  ultimately show ?thesis by simp
qed

lemma canon_obj_keys:
  assumes "json_canon (JObj ms) = json_canon (JObj ms')"
  shows "fst ` set ms = fst ` set ms'"
proof -
  have "fst ` set (map (map_prod id json_canon) ms) = fst ` set (map (map_prod id json_canon) ms')"
    by (simp only: canon_obj_set [OF assms])
  then show ?thesis by (simp add: image_image)
qed

section \<open>Reading a decoded document\<close>

text \<open>\<open>payload[key]\<close> and the type guards \<open>_string\<close>, \<open>_integer\<close>, \<open>_object\<close>, \<open>_objects\<close>.\<close>

definition member :: "members \<Rightarrow> string \<Rightarrow> json py" where
  "member ms k = (case map_of ms k of Some v \<Rightarrow> Inr v | None \<Rightarrow> Inl (KeyError k))"

lemma member_Inr_iff [simp]: "member ms k = Inr v \<longleftrightarrow> map_of ms k = Some v"
  by (simp add: member_def split: option.split)

end
