(* ===== verification/Sha256.thy ===== *)
theory Sha256
  imports Prelude
begin

unbundle bit_operations_syntax

text \<open>
  \<open>hashlib.sha256\<close> (FIPS 180-4) over the UTF-8 bytes of a text, as the digests of the
  repository use it. The component theories never unfold it: where a property speaks of two
  digests it either holds whatever the hash function is, or names the absence of a collision
  as a hypothesis.
\<close>

definition sha_k :: "32 word list" where
  "sha_k =
    [1116352408, 1899447441, 3049323471, 3921009573, 961987163, 1508970993,
     2453635748, 2870763221, 3624381080, 310598401, 607225278, 1426881987,
     1925078388, 2162078206, 2614888103, 3248222580, 3835390401, 4022224774,
     264347078, 604807628, 770255983, 1249150122, 1555081692, 1996064986,
     2554220882, 2821834349, 2952996808, 3210313671, 3336571891, 3584528711,
     113926993, 338241895, 666307205, 773529912, 1294757372, 1396182291,
     1695183700, 1986661051, 2177026350, 2456956037, 2730485921, 2820302411,
     3259730800, 3345764771, 3516065817, 3600352804, 4094571909, 275423344,
     430227734, 506948616, 659060556, 883997877, 958139571, 1322822218,
     1537002063, 1747873779, 1955562222, 2024104815, 2227730452, 2361852424,
     2428436474, 2756734187, 3204031479, 3329325298]"

type_synonym sha_state = "32 word \<times> 32 word \<times> 32 word \<times> 32 word \<times> 32 word \<times> 32 word \<times> 32 word \<times> 32 word"

definition sha_init :: sha_state where
  "sha_init = (1779033703, 3144134277, 1013904242, 2773480762, 1359893119, 2600822924, 528734635, 1541459225)"

definition big_endian :: "nat \<Rightarrow> nat \<Rightarrow> 8 word list" where
  "big_endian n v = map (\<lambda>i. of_nat (v div 256 ^ (n - Suc i) mod 256)) [0..<n]"

definition sha_pad :: "8 word list \<Rightarrow> 8 word list" where
  "sha_pad bs =
     bs @ [0x80] @ replicate ((119 - length bs mod 64) mod 64) 0 @ big_endian 8 (8 * length bs)"

definition word_of_bytes :: "8 word list \<Rightarrow> 32 word" where
  "word_of_bytes bs = foldl (\<lambda>w b. push_bit 8 w OR ucast b) 0 bs"

fun chunks :: "nat \<Rightarrow> 'a list \<Rightarrow> 'a list list" where
  "chunks n xs = (if n = 0 \<or> xs = [] then [] else take n xs # chunks n (drop n xs))"

declare chunks.simps [simp del]

definition sha_extend :: "32 word list \<Rightarrow> 32 word list" where
  "sha_extend ws =
     (let t = length ws; w15 = ws ! (t - 15); w2 = ws ! (t - 2);
          s0 = word_rotr 7 w15 XOR word_rotr 18 w15 XOR drop_bit 3 w15;
          s1 = word_rotr 17 w2 XOR word_rotr 19 w2 XOR drop_bit 10 w2
      in ws @ [ws ! (t - 16) + s0 + ws ! (t - 7) + s1])"

definition sha_round :: "sha_state \<Rightarrow> 32 word \<times> 32 word \<Rightarrow> sha_state" where
  "sha_round s kw =
     (case (s, kw) of ((a, b, c, d, e, f, g, h), (k, w)) \<Rightarrow>
        let s1 = word_rotr 6 e XOR word_rotr 11 e XOR word_rotr 25 e;
            ch = (e AND f) XOR (NOT e AND g);
            t1 = h + s1 + ch + k + w;
            s0 = word_rotr 2 a XOR word_rotr 13 a XOR word_rotr 22 a;
            maj = (a AND b) XOR (a AND c) XOR (b AND c)
        in (t1 + s0 + maj, a, b, c, d + t1, e, f, g))"

definition sha_block :: "sha_state \<Rightarrow> 8 word list \<Rightarrow> sha_state" where
  "sha_block s bs =
     (let ws = (sha_extend ^^ 48) (map word_of_bytes (chunks 4 bs)) in
      case (s, foldl sha_round s (zip sha_k ws)) of
        ((a, b, c, d, e, f, g, h), (a', b', c', d', e', f', g', h')) \<Rightarrow>
          (a + a', b + b', c + c', d + d', e + e', f + f', g + g', h + h'))"

definition hex_word :: "32 word \<Rightarrow> string" where
  "hex_word w = map (\<lambda>i. hex_char (unat (drop_bit (4 * (7 - i)) w AND 15))) [0..<8]"

definition utf8_bytes :: "string \<Rightarrow> 8 word list" where
  "utf8_bytes s = map (\<lambda>c. of_nat (of_char c)) s"

text \<open>\<open>hashlib.sha256(text.encode("utf-8")).hexdigest()\<close>\<close>

definition sha256_hex :: "string \<Rightarrow> string" where
  "sha256_hex s =
     (case foldl sha_block sha_init (chunks 64 (sha_pad (utf8_bytes s))) of
        (a, b, c, d, e, f, g, h) \<Rightarrow> concat (map hex_word [a, b, c, d, e, f, g, h]))"

lemma hex_char_is_hex: "d < 16 \<Longrightarrow> is_hex_lower (hex_char d)"
  by (auto simp: hex_char_def is_hex_lower_def is_digit_def)

lemma length_hex_word [simp]: "length (hex_word w) = 8"
  by (simp add: hex_word_def)

lemma nibble_bound: "unat (w AND 15 :: 32 word) < 16"
proof -
  have "unat (w AND 15) \<le> unat (15 :: 32 word)"
    by (rule word_and_le1 [THEN word_le_nat_alt [THEN iffD1]])
  then show ?thesis by simp
qed

lemma hex_word_is_hex: "list_all is_hex_lower (hex_word w)"
  by (auto simp: hex_word_def list_all_iff intro!: hex_char_is_hex nibble_bound)

lemma sha256_hex_shape: "length (sha256_hex s) = 64 \<and> list_all is_hex_lower (sha256_hex s)"
  using hex_word_is_hex by (simp add: sha256_hex_def split: prod.split)

text \<open>A digest the code renders is of the shape its own pins demand.\<close>

lemma sha256_reference_hex: "sha256_reference (''sha256:'' @ sha256_hex s)"
  using sha256_hex_shape [of s] by (simp add: sha256_reference_def)

end
