(* ===== verification/WorkflowGraph.thy ===== *)
theory WorkflowGraph
  imports PyJson Sha256
begin

text \<open>
  \<open>ctower_kernel/workflow/_graph.py\<close>: the authored Workflow graph, its parser and its identity.
  A value of the class \<open>WorkflowGraph\<close> exists only if its \<open>__post_init__\<close> accepted it; here that
  check is \<open>make_graph\<close>, and \<open>graph_wf\<close> states what it enforces. The parser \<open>from_mapping\<close> is
  modelled branch by branch, its \<open>ValueError\<close> and \<open>TypeError\<close> exits included. The lemmas show that
  the parser yields only well-formed graphs, accepts every well-formed one it is given, and that
  the digest pins every field of a parsed graph.
\<close>

section \<open>Values\<close>

datatype activity_class = WorkActivity | VerificationActivity

datatype entry_effect = ReviewCrewDispatch

record stage =
  st_key :: string
  st_activity :: activity_class
  st_effects :: "entry_effect list"

record transition =
  tr_source :: string
  tr_destination :: string
  tr_predicate :: string

record workflow_graph =
  wg_key :: string
  wg_revision :: int
  wg_initial :: string
  wg_stages :: "stage list"
  wg_transitions :: "transition list"
  wg_execution :: "string option"
  wg_gates :: "string option"
  wg_schema :: string

definition activity_value :: "activity_class \<Rightarrow> string" where
  "activity_value a = (case a of WorkActivity \<Rightarrow> ''work'' | VerificationActivity \<Rightarrow> ''verification'')"

definition activity_of_value :: "string \<Rightarrow> activity_class py" where
  "activity_of_value s =
     (if s = ''work'' then Inr WorkActivity
      else if s = ''verification'' then Inr VerificationActivity
      else Inl (ValueError (repr_str s @ '' is not a valid ActivityClass'')))"

definition effect_value :: "entry_effect \<Rightarrow> string" where
  "effect_value e = (case e of ReviewCrewDispatch \<Rightarrow> ''review_crew_dispatch'')"

definition effect_of_value :: "string \<Rightarrow> entry_effect py" where
  "effect_of_value s =
     (if s = ''review_crew_dispatch'' then Inr ReviewCrewDispatch
      else Inl (ValueError (repr_str s @ '' is not a valid WorkflowEntryEffect'')))"

section \<open>The construction checks\<close>

definition make_stage :: "string \<Rightarrow> activity_class \<Rightarrow> entry_effect list \<Rightarrow> stage py" where
  "make_stage key activity effects =
     bindE (raise_if (\<not> stable_key key) (ValueError ''stage key must be stable'')) (\<lambda>_.
     bindE (raise_if (\<not> distinct effects) (ValueError ''stage entry effects must be unique'')) (\<lambda>_.
     Inr \<lparr>st_key = key, st_activity = activity, st_effects = effects\<rparr>))"

definition make_transition :: "string \<Rightarrow> string \<Rightarrow> string \<Rightarrow> transition py" where
  "make_transition src dst predicate =
     bindE (raise_if (\<not> stable_key src) (ValueError ''transition source must be stable'')) (\<lambda>_.
     bindE (raise_if (\<not> stable_key dst) (ValueError ''transition destination must be stable'')) (\<lambda>_.
     bindE (raise_if (\<not> versioned_reference predicate)
       (ValueError ''transition predicate must be versioned'')) (\<lambda>_.
     Inr \<lparr>tr_source = src, tr_destination = dst, tr_predicate = predicate\<rparr>)))"

definition stage_keys :: "workflow_graph \<Rightarrow> string set" where
  "stage_keys g = st_key ` set (wg_stages g)"

definition edge_of :: "transition \<Rightarrow> string \<times> string" where
  "edge_of t = (tr_source t, tr_destination t)"

definition optional_versioned :: "string option \<Rightarrow> bool" where
  "optional_versioned r = (case r of None \<Rightarrow> True | Some s \<Rightarrow> versioned_reference s)"

definition validate_graph :: "workflow_graph \<Rightarrow> unit py" where
  "validate_graph g =
     bindE (raise_if (wg_stages g = [] \<or> \<not> distinct (map st_key (wg_stages g)))
       (ValueError ''workflow stages must be nonempty and unique'')) (\<lambda>_.
     bindE (raise_if (wg_initial g \<notin> stage_keys g)
       (ValueError ''workflow initial stage must reference one declared stage'')) (\<lambda>_.
     bindE (raise_if (\<not> distinct (map edge_of (wg_transitions g)))
       (ValueError ''workflow edges must be unique'')) (\<lambda>_.
     bindE (raise_if
       (list_ex (\<lambda>t. tr_source t \<notin> stage_keys g \<or> tr_destination t \<notin> stage_keys g)
          (wg_transitions g))
       (ValueError ''workflow edges must reference declared stages'')) (\<lambda>_.
     eachE (\<lambda>r. raise_if (\<not> optional_versioned r)
       (ValueError ''workflow policy references must be versioned''))
       [wg_execution g, wg_gates g]))))"

definition make_graph :: "workflow_graph \<Rightarrow> workflow_graph py" where
  "make_graph g =
     bindE (raise_if (\<not> stable_key (wg_key g)) (ValueError ''workflow key must be stable'')) (\<lambda>_.
     bindE (raise_if (wg_revision g < 1) (ValueError ''workflow revision must be positive'')) (\<lambda>_.
     bindE (validate_graph g) (\<lambda>_. Inr g)))"

section \<open>Identity\<close>

definition graph_reference :: "workflow_graph \<Rightarrow> string" where
  "graph_reference g = component_reference (wg_key g) (wg_revision g)"

definition opt_json :: "string option \<Rightarrow> json" where
  "opt_json r = (case r of None \<Rightarrow> JNull | Some s \<Rightarrow> JStr s)"

definition stage_payload :: "workflow_graph \<Rightarrow> stage \<Rightarrow> json" where
  "stage_payload g s = JObj (
     [(''activity_class'', JStr (activity_value (st_activity s))), (''key'', JStr (st_key s))] @
     (if wg_schema g = ''ctower.workflow/v2''
      then [(''entry_effects'', JList (map (\<lambda>e. JStr (effect_value e)) (st_effects s)))] else []))"

definition edge_payload :: "transition \<Rightarrow> json" where
  "edge_payload t = JObj
     [(''from'', JStr (tr_source t)), (''predicate_ref'', JStr (tr_predicate t)),
      (''to'', JStr (tr_destination t))]"

definition graph_payload :: "workflow_graph \<Rightarrow> json" where
  "graph_payload g = JObj
     [(''initial_stage'', JStr (wg_initial g)),
      (''policy_refs'', JObj [(''execution'', opt_json (wg_execution g)), (''gates'', opt_json (wg_gates g))]),
      (''reference'', JStr (graph_reference g)),
      (''stages'', JList (map (stage_payload g) (wg_stages g))),
      (''transitions'', JList (map edge_payload (wg_transitions g)))]"

definition graph_text :: "workflow_graph \<Rightarrow> string" where
  "graph_text g = json_dumps (graph_payload g)"

definition graph_digest :: "workflow_graph \<Rightarrow> string" where
  "graph_digest g = ''sha256:'' @ sha256_hex (graph_text g)"

section \<open>The parser\<close>

definition as_string :: "json \<Rightarrow> string \<Rightarrow> string py" where
  "as_string v label =
     (case v of JStr s \<Rightarrow> Inr s | _ \<Rightarrow> Inl (TypeError (label @ '' must be a string'')))"

definition as_integer :: "json \<Rightarrow> string \<Rightarrow> int py" where
  "as_integer v label =
     (case v of JInt i \<Rightarrow> Inr i | _ \<Rightarrow> Inl (TypeError (label @ '' must be an integer'')))"

definition as_object :: "json \<Rightarrow> string \<Rightarrow> members py" where
  "as_object v label =
     (case v of JObj ms \<Rightarrow> Inr ms | _ \<Rightarrow> Inl (TypeError (label @ '' must be an object'')))"

definition is_object :: "json \<Rightarrow> bool" where
  "is_object v = (case v of JObj _ \<Rightarrow> True | _ \<Rightarrow> False)"

definition as_objects :: "json \<Rightarrow> string \<Rightarrow> members list py" where
  "as_objects v label =
     (case v of
        JList vs \<Rightarrow>
          (if list_all is_object vs then mapE (\<lambda>x. as_object x label) vs
           else Inl (TypeError (label @ '' must be an array of objects'')))
      | _ \<Rightarrow> Inl (TypeError (label @ '' must be an array of objects'')))"

definition require_keys :: "members \<Rightarrow> string list \<Rightarrow> unit py" where
  "require_keys ms expected =
     raise_if (fst ` set ms \<noteq> set expected)
       (ValueError ''workflow payload fields do not match the authored contract'')"

text \<open>\<open>payload[key]\<close> read as a string under a label.\<close>

definition string_member :: "members \<Rightarrow> string \<Rightarrow> string \<Rightarrow> string py" where
  "string_member ms k label = bindE (member ms k) (\<lambda>v. as_string v label)"

text \<open>\<open>value not in {"draft", ...}\<close>; an unhashable operand raises.\<close>

definition status_check :: "json \<Rightarrow> unit py" where
  "status_check v =
     (case v of
        JStr s \<Rightarrow> raise_if (s \<notin> {''draft'', ''staged'', ''published'', ''superseded'', ''revoked''})
                   (ValueError ''workflow status is unsupported'')
      | JList _ \<Rightarrow> Inl (TypeError ''unhashable type: list'')
      | JObj _ \<Rightarrow> Inl (TypeError ''unhashable type: dict'')
      | _ \<Rightarrow> Inl (ValueError ''workflow status is unsupported''))"

definition validate_failure_route :: "members \<Rightarrow> unit py" where
  "validate_failure_route ms =
     bindE (require_keys ms [''from'', ''failure_class_ref'', ''to'']) (\<lambda>_.
     bindE (eachE (\<lambda>field. bindE (string_member ms field (''failure_route.'' @ field)) (\<lambda>s.
         raise_if (\<not> stable_key s) (ValueError ''failure route stages must be stable'')))
       [''from'', ''to'']) (\<lambda>_.
     bindE (string_member ms ''failure_class_ref'' ''failure_route.failure_class_ref'') (\<lambda>s.
     raise_if (\<not> versioned_reference s) (ValueError ''failure route class must be versioned''))))"

definition validate_metadata :: "members \<Rightarrow> string py" where
  "validate_metadata ms =
     bindE (string_member ms ''schema'' ''schema'') (\<lambda>schema.
     bindE (raise_if (schema \<notin> {''ctower.workflow/v1'', ''ctower.workflow/v2''})
       (ValueError ''workflow schema is unsupported'')) (\<lambda>_.
     bindE (bindE (member ms ''status'') status_check) (\<lambda>_.
     bindE (eachE (\<lambda>field. bindE (string_member ms field field) (\<lambda>s.
         raise_if (\<not> stable_key s) (ValueError (field @ '' must be stable''))))
       [''input_contract'', ''terminal_contract'']) (\<lambda>_.
     bindE (bindE (string_member ms ''note'' ''note'') (\<lambda>s.
         raise_if (s = []) (ValueError ''note must be nonempty''))) (\<lambda>_.
     bindE (bindE (member ms ''policy_refs'') (\<lambda>v. as_object v ''policy_refs'')) (\<lambda>refs.
     bindE (require_keys refs [''execution'', ''gates'']) (\<lambda>_.
     bindE (eachE (\<lambda>(k, v). bindE (as_string v k) (\<lambda>s.
         raise_if (\<not> versioned_reference s)
           (ValueError ''workflow policy references must be versioned''))) refs) (\<lambda>_.
     bindE (bindE (bindE (member ms ''failure_routes'') (\<lambda>v. as_objects v ''failure_routes''))
         (eachE validate_failure_route)) (\<lambda>_.
     Inr schema)))))))))"

definition parse_entry_effect :: "members \<Rightarrow> entry_effect py" where
  "parse_entry_effect ms =
     bindE (require_keys ms [''kind'']) (\<lambda>_.
     bindE (string_member ms ''kind'' ''entry_effect.kind'') effect_of_value)"

definition parse_stage :: "string \<Rightarrow> members \<Rightarrow> stage py" where
  "parse_stage schema ms =
     bindE (require_keys ms
       (if schema = ''ctower.workflow/v2'' then [''key'', ''activity_class'', ''entry_effects'']
        else [''key'', ''activity_class''])) (\<lambda>_.
     bindE (if schema = ''ctower.workflow/v2''
       then bindE (bindE (member ms ''entry_effects'') (\<lambda>v. as_objects v ''entry_effects''))
              (mapE parse_entry_effect)
       else Inr []) (\<lambda>effects.
     bindE (string_member ms ''key'' ''stage.key'') (\<lambda>key.
     bindE (bindE (string_member ms ''activity_class'' ''activity_class'') activity_of_value) (\<lambda>activity.
     make_stage key activity effects))))"

definition parse_transition :: "members \<Rightarrow> transition py" where
  "parse_transition ms =
     bindE (require_keys ms [''from'', ''to'', ''predicate_ref'']) (\<lambda>_.
     bindE (string_member ms ''from'' ''transition.from'') (\<lambda>src.
     bindE (string_member ms ''to'' ''transition.to'') (\<lambda>dst.
     bindE (string_member ms ''predicate_ref'' ''transition.predicate_ref'') (\<lambda>predicate.
     make_transition src dst predicate))))"

definition workflow_fields :: "string list" where
  "workflow_fields =
     [''schema'', ''status'', ''key'', ''revision'', ''initial_stage'', ''input_contract'',
      ''terminal_contract'', ''policy_refs'', ''stages'', ''transitions'', ''failure_routes'', ''note'']"

definition from_mapping :: "members \<Rightarrow> workflow_graph py" where
  "from_mapping ms =
     bindE (require_keys ms workflow_fields) (\<lambda>_.
     bindE (validate_metadata ms) (\<lambda>schema.
     bindE (bindE (member ms ''policy_refs'') (\<lambda>v. as_object v ''policy_refs'')) (\<lambda>refs.
     bindE (string_member ms ''key'' ''key'') (\<lambda>key.
     bindE (bindE (member ms ''revision'') (\<lambda>v. as_integer v ''revision'')) (\<lambda>revision.
     bindE (string_member ms ''initial_stage'' ''initial_stage'') (\<lambda>initial.
     bindE (bindE (bindE (member ms ''stages'') (\<lambda>v. as_objects v ''stages''))
       (mapE (parse_stage schema))) (\<lambda>stages.
     bindE (bindE (bindE (member ms ''transitions'') (\<lambda>v. as_objects v ''transitions''))
       (mapE parse_transition)) (\<lambda>transitions.
     bindE (string_member refs ''execution'' ''execution'') (\<lambda>execution.
     bindE (string_member refs ''gates'' ''gates'') (\<lambda>gates.
     make_graph \<lparr>wg_key = key, wg_revision = revision, wg_initial = initial, wg_stages = stages,
       wg_transitions = transitions, wg_execution = Some execution, wg_gates = Some gates,
       wg_schema = schema\<rparr>))))))))))"

section \<open>What the construction checks enforce\<close>

definition stage_wf :: "stage \<Rightarrow> bool" where
  "stage_wf s \<longleftrightarrow> stable_key (st_key s) \<and> distinct (st_effects s)"

definition transition_wf :: "transition \<Rightarrow> bool" where
  "transition_wf t \<longleftrightarrow>
     stable_key (tr_source t) \<and> stable_key (tr_destination t) \<and> versioned_reference (tr_predicate t)"

definition graph_checked :: "workflow_graph \<Rightarrow> bool" where
  "graph_checked g \<longleftrightarrow>
     stable_key (wg_key g) \<and> 1 \<le> wg_revision g \<and>
     wg_stages g \<noteq> [] \<and> distinct (map st_key (wg_stages g)) \<and>
     wg_initial g \<in> stage_keys g \<and> distinct (map edge_of (wg_transitions g)) \<and>
     list_all (\<lambda>t. tr_source t \<in> stage_keys g \<and> tr_destination t \<in> stage_keys g) (wg_transitions g) \<and>
     optional_versioned (wg_execution g) \<and> optional_versioned (wg_gates g)"

definition graph_wf :: "workflow_graph \<Rightarrow> bool" where
  "graph_wf g \<longleftrightarrow>
     graph_checked g \<and> list_all stage_wf (wg_stages g) \<and> list_all transition_wf (wg_transitions g)"

lemma make_stage_Inr_iff [chk]:
  "make_stage k a es = Inr s \<longleftrightarrow> s = \<lparr>st_key = k, st_activity = a, st_effects = es\<rparr> \<and> stage_wf s"
  by (auto simp: make_stage_def stage_wf_def bindE_Inr_iff)

lemma make_transition_Inr_iff [chk]:
  "make_transition a b r = Inr t \<longleftrightarrow>
     t = \<lparr>tr_source = a, tr_destination = b, tr_predicate = r\<rparr> \<and> transition_wf t"
  by (auto simp: make_transition_def transition_wf_def bindE_Inr_iff)

lemma make_graph_Inr_iff [chk]: "make_graph g = Inr g' \<longleftrightarrow> g' = g \<and> graph_checked g"
  by (auto simp: make_graph_def validate_graph_def graph_checked_def bindE_Inr_iff list_ex_iff
      list_all_iff)

section \<open>Reading guarded values\<close>

lemma as_string_Inr_iff [chk, simp]: "as_string v l = Inr s \<longleftrightarrow> v = JStr s"
  by (auto simp: as_string_def split: json.splits)

lemma as_integer_Inr_iff [chk, simp]: "as_integer v l = Inr i \<longleftrightarrow> v = JInt i"
  by (auto simp: as_integer_def split: json.splits)

lemma as_object_Inr_iff [chk, simp]: "as_object v l = Inr ms \<longleftrightarrow> v = JObj ms"
  by (auto simp: as_object_def split: json.splits)

lemma mapE_as_object: "mapE (\<lambda>x. as_object x l) vs = Inr mss \<longleftrightarrow> vs = map JObj mss"
  by (induction vs arbitrary: mss) (auto simp: bindE_Inr_iff)

lemma as_objects_Inr_iff [chk, simp]: "as_objects v l = Inr mss \<longleftrightarrow> v = JList (map JObj mss)"
  by (auto simp: as_objects_def mapE_as_object is_object_def list_all_iff split: json.splits)

lemma require_keys_Inr_iff [chk, simp]: "require_keys ms ks = Inr u \<longleftrightarrow> fst ` set ms = set ks"
  by (simp add: require_keys_def)

lemma string_member_Inr_iff [chk, simp]: "string_member ms k l = Inr s \<longleftrightarrow> map_of ms k = Some (JStr s)"
  by (auto simp: string_member_def bindE_Inr_iff)

lemmas parse_simps = chk bindE_Inr_iff eachE_Inr_iff

section \<open>The parser yields well-formed graphs\<close>

lemma parse_stage_wf: "parse_stage schema ms = Inr s \<Longrightarrow> stage_wf s"
  by (auto simp: parse_stage_def parse_simps)

lemma parse_stage_v1: "parse_stage ''ctower.workflow/v1'' ms = Inr s \<Longrightarrow> st_effects s = []"
proof -
  assume "parse_stage ''ctower.workflow/v1'' ms = Inr s"
  then have "\<exists>k a. make_stage k a [] = Inr s"
    unfolding parse_stage_def by (simp only: bindE_Inr_iff) force
  then show ?thesis by (auto simp: make_stage_Inr_iff)
qed

lemma parse_transition_wf: "parse_transition ms = Inr t \<Longrightarrow> transition_wf t"
  by (auto simp: parse_transition_def parse_simps)

lemma validate_metadata_schema:
  "validate_metadata ms = Inr schema \<Longrightarrow>
     schema = ''ctower.workflow/v1'' \<or> schema = ''ctower.workflow/v2''"
  unfolding validate_metadata_def by (simp only: bindE_Inr_iff raise_if_Inr_iff) blast

lemma from_mapping_parts:
  assumes "from_mapping ms = Inr g"
  obtains stages transitions where
    "graph_checked g"
    and "validate_metadata ms = Inr (wg_schema g)"
    and "map_of ms ''stages'' = Some (JList (map JObj stages))"
    and "mapE (parse_stage (wg_schema g)) stages = Inr (wg_stages g)"
    and "map_of ms ''transitions'' = Some (JList (map JObj transitions))"
    and "mapE parse_transition transitions = Inr (wg_transitions g)"
  using assms by (auto simp: from_mapping_def bindE_Inr_iff chk)

lemma from_mapping_graph_wf: "from_mapping ms = Inr g \<Longrightarrow> graph_wf g"
  by (erule from_mapping_parts)
    (auto simp: graph_wf_def elim!: mapE_list_all dest: parse_stage_wf parse_transition_wf)

section \<open>The digest pins the graph\<close>

text \<open>What the parser guarantees beyond \<open>graph_wf\<close>: a known schema, no effects under version 1.\<close>

definition schema_ok :: "workflow_graph \<Rightarrow> bool" where
  "schema_ok g \<longleftrightarrow>
     wg_schema g = ''ctower.workflow/v2'' \<or>
     wg_schema g = ''ctower.workflow/v1'' \<and> list_all (\<lambda>s. st_effects s = []) (wg_stages g)"

lemma from_mapping_schema_ok: "from_mapping ms = Inr g \<Longrightarrow> schema_ok g"
proof (erule from_mapping_parts)
  fix stages transitions
  assume m: "validate_metadata ms = Inr (wg_schema g)"
    and s: "mapE (parse_stage (wg_schema g)) stages = Inr (wg_stages g)"
  show "schema_ok g"
  proof (cases "wg_schema g = ''ctower.workflow/v2''")
    case False
    then have v1: "wg_schema g = ''ctower.workflow/v1''"
      using validate_metadata_schema [OF m] by simp
    then have "\<forall>x \<in> set (wg_stages g). st_effects x = []"
      using mapE_set [OF s [unfolded v1]] parse_stage_v1 by blast
    with v1 show ?thesis by (simp add: schema_ok_def list_all_iff)
  qed (simp add: schema_ok_def)
qed

lemma activity_value_inj: "activity_value a = activity_value b \<longleftrightarrow> a = b"
  by (simp add: activity_value_def split: activity_class.splits)

lemma effect_value_inj: "effect_value a = effect_value b \<longleftrightarrow> a = b"
  by (cases a; cases b) simp

lemma opt_json_canon [simp]: "json_canon (opt_json r) = opt_json r"
  by (simp add: opt_json_def split: option.split)

lemma opt_json_inj: "opt_json r = opt_json r' \<longleftrightarrow> r = r'"
  by (simp add: opt_json_def split: option.split)

lemma edge_payload_canon: "json_canon (edge_payload t) = edge_payload t"
  by (simp add: edge_payload_def)

lemma effects_canon: "json_canon_items (map (\<lambda>e. JStr (effect_value e)) es) = map (\<lambda>e. JStr (effect_value e)) es"
  by (induction es) auto

lemma stage_payload_canon:
  "json_canon (stage_payload g s) = JObj (
     (''activity_class'', JStr (activity_value (st_activity s))) #
     (if wg_schema g = ''ctower.workflow/v2''
      then [(''entry_effects'', JList (map (\<lambda>e. JStr (effect_value e)) (st_effects s)))] else []) @
     [(''key'', JStr (st_key s))])"
  by (simp add: stage_payload_def effects_canon)

lemma graph_payload_canon:
  "json_canon (graph_payload g) = JObj
     [(''initial_stage'', JStr (wg_initial g)),
      (''policy_refs'', JObj [(''execution'', opt_json (wg_execution g)), (''gates'', opt_json (wg_gates g))]),
      (''reference'', JStr (graph_reference g)),
      (''stages'', JList (map (\<lambda>s. json_canon (stage_payload g s)) (wg_stages g))),
      (''transitions'', JList (map edge_payload (wg_transitions g)))]"
  by (simp add: graph_payload_def json_canon_items_map edge_payload_canon o_def)


lemma effects_inj:
  "map (\<lambda>e. JStr (effect_value e)) es = map (\<lambda>e. JStr (effect_value e)) es' \<longleftrightarrow> es = es'"
  by (rule inj_map_eq_map) (auto intro!: injI simp: effect_value_inj)

lemma stage_payload_inj:
  assumes "json_canon (stage_payload g s) = json_canon (stage_payload g' s')"
  shows "(wg_schema g = ''ctower.workflow/v2'') = (wg_schema g' = ''ctower.workflow/v2'')"
    and "st_key s = st_key s'" and "st_activity s = st_activity s'"
    and "wg_schema g = ''ctower.workflow/v2'' \<Longrightarrow> st_effects s = st_effects s'"
  using assms
  by (simp_all only: stage_payload_canon json.inject, simp_all add: activity_value_inj effects_inj split: if_splits)

lemma edge_payload_inj: "edge_payload t = edge_payload t' \<longleftrightarrow> t = t'"
  by (cases t; cases t') (auto simp: edge_payload_def)

lemma stages_payload_inj:
  assumes eq: "map (\<lambda>s. json_canon (stage_payload g s)) ss = map (\<lambda>s. json_canon (stage_payload g' s)) ss'"
    and eff: "wg_schema g \<noteq> ''ctower.workflow/v2'' \<Longrightarrow> list_all (\<lambda>s. st_effects s = []) ss"
    and eff': "wg_schema g' \<noteq> ''ctower.workflow/v2'' \<Longrightarrow> list_all (\<lambda>s. st_effects s = []) ss'"
  shows "ss = ss'"
  using assms
proof (induction ss arbitrary: ss')
  case Nil
  then show ?case by simp
next
  case (Cons s ss)
  then obtain t ts where ss': "ss' = t # ts" by (cases ss') auto
  with Cons.prems(1) have eq: "json_canon (stage_payload g s) = json_canon (stage_payload g' t)" by simp
  have "st_effects s = st_effects t"
    using stage_payload_inj(1,4) [OF eq] Cons.prems(2,3) ss' by (cases "wg_schema g = ''ctower.workflow/v2''") simp_all
  then have "s = t"
    using stage_payload_inj(2,3) [OF eq] by simp
  moreover have "ss = ts"
    using Cons.prems ss' by (intro Cons.IH) auto
  ultimately show ?case using ss' by simp
qed

lemma graph_reference_inj:
  assumes "graph_reference g = graph_reference g'" and "graph_wf g" and "graph_wf g'"
  shows "wg_key g = wg_key g' \<and> wg_revision g = wg_revision g'"
  using assms component_reference_inj [OF stable_key_no_at stable_key_no_at]
  by (auto simp: graph_reference_def graph_wf_def graph_checked_def)

lemma graph_text_inj:
  assumes same: "graph_text g = graph_text g'"
    and wf: "graph_wf g" "schema_ok g" and wf': "graph_wf g'" "schema_ok g'"
  shows "g = g'"
proof -
  have canon: "json_canon (graph_payload g) = json_canon (graph_payload g')"
    using same by (simp add: graph_text_def json_dumps_inj)
  have stages: "map (\<lambda>s. json_canon (stage_payload g s)) (wg_stages g)
      = map (\<lambda>s. json_canon (stage_payload g' s)) (wg_stages g')"
    and refs: "graph_reference g = graph_reference g'"
    and rest: "wg_initial g = wg_initial g'" "wg_execution g = wg_execution g'"
      "wg_gates g = wg_gates g'"
    and edges: "map edge_payload (wg_transitions g) = map edge_payload (wg_transitions g')"
    using canon by (simp_all add: graph_payload_canon opt_json_inj)
  have stages_eq: "wg_stages g = wg_stages g'"
    using stages_payload_inj [OF stages] wf(2) wf'(2) by (auto simp: schema_ok_def)
  obtain s ss where ss: "wg_stages g = s # ss"
    using wf(1) by (cases "wg_stages g") (auto simp: graph_wf_def graph_checked_def)
  have "(wg_schema g = ''ctower.workflow/v2'') = (wg_schema g' = ''ctower.workflow/v2'')"
    using stages ss stages_eq by (intro stage_payload_inj(1) [of g s g' s]) simp
  then have "wg_schema g = wg_schema g'"
    using wf(2) wf'(2) unfolding schema_ok_def by metis
  moreover have "wg_transitions g = wg_transitions g'"
    using edges by (rule map_injective) (simp add: inj_def edge_payload_inj)
  ultimately show ?thesis
    using stages_eq rest graph_reference_inj [OF refs wf(1) wf'(1)] by simp
qed

section \<open>Properties\<close>

text \<open>An authored document, with a note of one's choice.\<close>

definition example_document :: "string \<Rightarrow> members" where
  "example_document note =
     [(''schema'', JStr ''ctower.workflow/v2''), (''status'', JStr ''published''),
      (''key'', JStr ''repair''), (''revision'', JInt 3), (''initial_stage'', JStr ''plan''),
      (''input_contract'', JStr ''ticket''), (''terminal_contract'', JStr ''closed''),
      (''policy_refs'', JObj [(''execution'', JStr ''exec@1''), (''gates'', JStr ''gates@2'')]),
      (''stages'', JList
        [JObj [(''key'', JStr ''plan''), (''activity_class'', JStr ''work''),
               (''entry_effects'', JList [])],
         JObj [(''key'', JStr ''review''), (''activity_class'', JStr ''verification''),
               (''entry_effects'', JList [JObj [(''kind'', JStr ''review_crew_dispatch'')]])]]),
      (''transitions'', JList
        [JObj [(''from'', JStr ''plan''), (''to'', JStr ''review''),
               (''predicate_ref'', JStr ''ready@1'')]]),
      (''failure_routes'', JList []), (''note'', JStr note)]"

definition example_graph :: workflow_graph where
  "example_graph =
     \<lparr>wg_key = ''repair'', wg_revision = 3, wg_initial = ''plan'',
      wg_stages =
        [\<lparr>st_key = ''plan'', st_activity = WorkActivity, st_effects = []\<rparr>,
         \<lparr>st_key = ''review'', st_activity = VerificationActivity, st_effects = [ReviewCrewDispatch]\<rparr>],
      wg_transitions =
        [\<lparr>tr_source = ''plan'', tr_destination = ''review'', tr_predicate = ''ready@1''\<rparr>],
      wg_execution = Some ''exec@1'', wg_gates = Some ''gates@2'',
      wg_schema = ''ctower.workflow/v2''\<rparr>"

lemma example_parses:
  "from_mapping (example_document ''first'') = Inr example_graph"
  "from_mapping (example_document ''second'') = Inr example_graph"
  by code_simp+

text \<open>
  C1. Whatever document the strict parser accepts, the graph it returns satisfies every
  structural rule of the class: a stable key and a positive revision, at least one stage, unique
  stable stage keys with unique effects, a declared initial stage, unique edges between declared
  stages with versioned predicates, and versioned policy references.
\<close>

theorem from_mapping_well_formed: "from_mapping ms = Inr g \<Longrightarrow> graph_wf g"
  by (rule from_mapping_graph_wf)

lemma from_mapping_well_formed_witness:
  "from_mapping (example_document ''first'') = Inr example_graph \<and> graph_wf example_graph"
  using from_mapping_well_formed [OF example_parses(1)] example_parses(1) by simp

text \<open>
  C2. Two parsed graphs with one digest are the same graph in every field (stages, effects,
  activity classes, edges, predicates, policies and schema), unless the two canonical texts are
  an explicit SHA-256 collision. The document's note, status and contracts are not part of the
  identity.
\<close>

theorem graph_digest_identifies:
  assumes "from_mapping ms = Inr g" and "from_mapping ms' = Inr g'"
    and "graph_digest g = graph_digest g'"
  shows "g = g' \<or> graph_text g \<noteq> graph_text g' \<and> sha256_hex (graph_text g) = sha256_hex (graph_text g')"
  using assms graph_text_inj from_mapping_graph_wf from_mapping_schema_ok
  by (auto simp: graph_digest_def)

lemma graph_digest_identifies_witness:
  "from_mapping (example_document ''first'') = Inr example_graph \<and>
   from_mapping (example_document ''second'') = Inr example_graph"
  using graph_digest_identifies [OF example_parses] example_parses by simp

end
