(* ===== verification/PyTime.thy ===== *)
theory PyTime
  imports Prelude
begin

unbundle bit_operations_syntax

text \<open>
  Timezone-aware UTC datetimes and UUIDs. A \<open>datetime\<close> is its instant in microseconds since
  1970-01-01T00:00Z (Python's resolution), so comparison and \<open>timedelta\<close> arithmetic are integer
  comparison and arithmetic; \<open>isoformat\<close> prints the proleptic Gregorian date of that instant
  in UTC. A \<open>UUID\<close> is its 128-bit integer, \<open>str\<close> its canonical text.
\<close>

type_synonym datetime = int
type_synonym uuid = "128 word"

definition second :: int where
  "second = 1000000"

definition timedelta_seconds :: "int \<Rightarrow> int" where
  "timedelta_seconds n = n * second"

definition pad_left :: "nat \<Rightarrow> string \<Rightarrow> string" where
  "pad_left n s = replicate (n - length s) (CHR ''0'') @ s"

definition pad_int :: "nat \<Rightarrow> int \<Rightarrow> string" where
  "pad_int n i = pad_left n (str_int i)"

text \<open>Year, month, day of a day number counted from 1970-01-01.\<close>

definition civil_of_days :: "int \<Rightarrow> int \<times> int \<times> int" where
  "civil_of_days days =
     (let z = days + 719468; era = z div 146097; doe = z mod 146097;
          yoe = (doe - doe div 1460 + doe div 36524 - doe div 146096) div 365;
          doy = doe - (365 * yoe + yoe div 4 - yoe div 100);
          mp = (5 * doy + 2) div 153;
          d = doy - (153 * mp + 2) div 5 + 1;
          m = (if mp < 10 then mp + 3 else mp - 9)
      in (yoe + era * 400 + (if m \<le> 2 then 1 else 0), m, d))"

definition isoformat :: "datetime \<Rightarrow> string" where
  "isoformat t =
     (let micro = t mod second; s = (t div second) mod 86400;
          (y, m, d) = civil_of_days (t div second div 86400)
      in pad_int 4 y @ ''-'' @ pad_int 2 m @ ''-'' @ pad_int 2 d @ ''T'' @
         pad_int 2 (s div 3600) @ '':'' @ pad_int 2 (s div 60 mod 60) @ '':'' @ pad_int 2 (s mod 60) @
         (if micro = 0 then [] else ''.'' @ pad_int 6 micro) @ ''+00:00'')"

definition uuid_hex :: "uuid \<Rightarrow> string" where
  "uuid_hex u = map (\<lambda>i. hex_char (unat (drop_bit (4 * (31 - i)) u AND 15))) [0..<32]"

definition uuid_str :: "uuid \<Rightarrow> string" where
  "uuid_str u =
     (let h = uuid_hex u
      in take 8 h @ ''-'' @ take 4 (drop 8 h) @ ''-'' @ take 4 (drop 12 h) @ ''-'' @
         take 4 (drop 16 h) @ ''-'' @ drop 20 h)"

section \<open>A UUID is determined by its text\<close>

lemma hex_char_inj: "hex_char a = hex_char b \<Longrightarrow> a < 16 \<Longrightarrow> b < 16 \<Longrightarrow> a = b"
proof -
  assume "hex_char a = hex_char b" "a < 16" "b < 16"
  then have "(of_char (hex_char a) :: nat) = of_char (hex_char b)" by simp
  with \<open>a < 16\<close> \<open>b < 16\<close> show "a = b" by (auto simp: hex_char_def split: if_splits)
qed

lemma nibble_take_bit: "drop_bit n (u :: uuid) AND 15 = take_bit 4 (drop_bit n u)"
  by (simp add: take_bit_eq_mask mask_eq_exp_minus_1)

lemma nibble_less: "unat (drop_bit n (u :: uuid) AND 15) < 16"
  using take_bit_nat_less_exp [of 4 "unat (drop_bit n u)"]
  by (simp add: nibble_take_bit unsigned_take_bit_eq)

lemma nibble_bit: "m < 4 \<Longrightarrow> bit (drop_bit n (u :: uuid) AND 15) m = bit u (n + m)"
  by (simp add: nibble_take_bit bit_simps)

lemma uuid_hex_inj: "uuid_hex u = uuid_hex v \<longleftrightarrow> u = v"
proof
  assume eq: "uuid_hex u = uuid_hex v"
  have nib: "drop_bit (4 * j) u AND 15 = drop_bit (4 * j) v AND 15" if "j < 32" for j
  proof -
    have "uuid_hex u ! (31 - j) = uuid_hex v ! (31 - j)" by (simp only: eq)
    moreover have "[0..<32] ! (31 - j) = 31 - j" using nth_upt [of 0 "31 - j" 32] that by simp
    ultimately have "hex_char (unat (drop_bit (4 * j) u AND 15)) = hex_char (unat (drop_bit (4 * j) v AND 15))"
      using that by (simp add: uuid_hex_def)
    then have "unat (drop_bit (4 * j) u AND 15) = unat (drop_bit (4 * j) v AND 15)"
      by (rule hex_char_inj) (rule nibble_less)+
    then show ?thesis by (rule unsigned_word_eqI)
  qed
  show "u = v"
  proof (rule bit_word_eqI)
    fix n
    assume "n < LENGTH(128)"
    then have n: "n div 4 < 32" by simp
    have "bit u (4 * (n div 4) + n mod 4) = bit v (4 * (n div 4) + n mod 4)"
      using nibble_bit [of "n mod 4" "4 * (n div 4)" u] nibble_bit [of "n mod 4" "4 * (n div 4)" v] nib [OF n]
      by simp
    then show "bit u n = bit v n" by simp
  qed
qed simp

lemma uuid_hex_length [simp]: "length (uuid_hex u) = 32"
  by (simp add: uuid_hex_def)

lemma uuid_str_inj [simp]: "uuid_str u = uuid_str v \<longleftrightarrow> u = v"
proof
  assume "uuid_str u = uuid_str v"
  then have parts: "take 8 (uuid_hex u) = take 8 (uuid_hex v)"
    "take 4 (drop 8 (uuid_hex u)) = take 4 (drop 8 (uuid_hex v))"
    "take 4 (drop 12 (uuid_hex u)) = take 4 (drop 12 (uuid_hex v))"
    "take 4 (drop 16 (uuid_hex u)) = take 4 (drop 16 (uuid_hex v))"
    "drop 20 (uuid_hex u) = drop 20 (uuid_hex v)"
    by (simp_all add: uuid_str_def Let_def)
  have step: "take 4 (drop n h) @ drop (4 + n) h = drop n h" for n and h :: string
    using append_take_drop_id [of 4 "drop n h"] by (simp only: drop_drop)
  have glue: "take 8 h @ take 4 (drop 8 h) @ take 4 (drop 12 h) @ take 4 (drop 16 h) @ drop 20 h = h"
    for h :: string
    using step [of 8 h] step [of 12 h] step [of 16 h] append_take_drop_id [of 8 h]
    by (simp only: numeral_plus_numeral add_num_simps)
  have "uuid_hex u = uuid_hex v"
    by (subst (1 2) glue [symmetric]) (simp only: parts)
  then show "u = v" by (simp add: uuid_hex_inj)
qed simp

end
