(* ===== verification/WorkflowEval.thy ===== *)
theory WorkflowEval
  imports WorkflowGraph PyTime
begin

text \<open>
  \<open>ctower_kernel/workflow/interface.py\<close>: the commands and receipts of Workflow, their idempotency
  digests, and the class \<open>Workflow\<close> without its persistence writer: construction, graph lookup,
  start validation, evaluation of one requested movement, the terminal test and the check of
  persisted pins. The component resolver is a protocol; it is the record \<open>resolver\<close> of its two
  functions. The lemmas show that \<open>evaluate\<close> is total on well-formed graphs and accepts exactly
  the declared, satisfied edges, that a run never leaves the declared graph, and that a start
  which validates keeps matching its pins.
\<close>

section \<open>Commands\<close>

record snapshot =
  sn_workflow :: string
  sn_stage :: string
  sn_satisfied :: "string set"
  sn_started :: bool
  sn_tenant :: "uuid option"
  sn_digest :: "string option"

record decision =
  dc_accepted :: bool
  dc_reason :: string
  dc_activity :: "activity_class option"
  dc_predicate :: "string option"
  dc_initial :: "string option"
  dc_effects :: "entry_effect list"

definition rejected :: "string \<Rightarrow> decision" where
  "rejected reason =
     \<lparr>dc_accepted = False, dc_reason = reason, dc_activity = None, dc_predicate = None,
      dc_initial = None, dc_effects = []\<rparr>"

record workflow_mutation =
  wm_command :: uuid
  wm_ticket :: uuid
  wm_workflow :: string
  wm_expected :: int
  wm_source :: string
  wm_destination :: string

record workflow_start =
  ws_command :: uuid
  ws_ticket :: uuid
  ws_workflow :: string
  ws_digest :: string
  ws_execution :: string
  ws_execution_digest :: string
  ws_gate :: string
  ws_gate_digest :: string
  ws_evidence :: string
  ws_evidence_digest :: string

record resolve_close =
  rc_command :: uuid
  rc_ticket :: uuid
  rc_workflow :: "string option"
  rc_expected :: int

definition mutation_payload :: "workflow_mutation \<Rightarrow> json" where
  "mutation_payload m = JObj
     [(''destination_stage'', JStr (wm_destination m)), (''expected_version'', JInt (wm_expected m)),
      (''source_stage'', JStr (wm_source m)), (''ticket_id'', JStr (uuid_str (wm_ticket m))),
      (''workflow_ref'', JStr (wm_workflow m))]"

definition start_payload :: "workflow_start \<Rightarrow> json" where
  "start_payload c = JObj
     [(''evidence_policy_digest'', JStr (ws_evidence_digest c)),
      (''evidence_policy_ref'', JStr (ws_evidence c)),
      (''execution_policy_digest'', JStr (ws_execution_digest c)),
      (''execution_policy_ref'', JStr (ws_execution c)),
      (''gate_policy_digest'', JStr (ws_gate_digest c)),
      (''gate_policy_ref'', JStr (ws_gate c)),
      (''ticket_id'', JStr (uuid_str (ws_ticket c))),
      (''workflow_digest'', JStr (ws_digest c)),
      (''workflow_ref'', JStr (ws_workflow c))]"

definition close_payload :: "resolve_close \<Rightarrow> json" where
  "close_payload c = JObj
     [(''expected_version'', JInt (rc_expected c)), (''ticket_id'', JStr (uuid_str (rc_ticket c))),
      (''workflow_ref'', opt_json (rc_workflow c))]"

text \<open>\<open>_digest\<close>, as the hexadecimal text of its bytes.\<close>

definition request_digest :: "json \<Rightarrow> string" where
  "request_digest payload = sha256_hex (json_dumps payload)"

section \<open>Receipts\<close>

record workflow_receipt =
  wr_command :: uuid
  wr_events :: "uuid list"
  wr_run :: uuid
  wr_ticket :: uuid
  wr_workflow :: string
  wr_stage :: string
  wr_activity :: activity_class
  wr_version :: int
  wr_facts :: "string list"

definition receipt_payload :: "workflow_receipt \<Rightarrow> json" where
  "receipt_payload r = JObj
     [(''activity_class'', JStr (activity_value (wr_activity r))),
      (''command_id'', JStr (uuid_str (wr_command r))),
      (''durability_state'', JStr ''durability_pending''),
      (''event_ids'', JList (map (\<lambda>u. JStr (uuid_str u)) (wr_events r))),
      (''lifecycle_facts'', JList (map JStr (wr_facts r))),
      (''stage'', JStr (wr_stage r)),
      (''ticket_id'', JStr (uuid_str (wr_ticket r))),
      (''version'', JInt (wr_version r)),
      (''workflow_ref'', JStr (wr_workflow r)),
      (''workflow_run_id'', JStr (uuid_str (wr_run r)))]"

record dispatch_consumption =
  rd_reviewer :: uuid
  rd_author_family :: string
  rd_model :: string
  rd_family :: string
  rd_crew :: string
  rd_consumed_by :: uuid
  rd_consumed_at :: datetime

definition consumption_payload :: "dispatch_consumption \<Rightarrow> json" where
  "consumption_payload c = JObj
     [(''author_family'', JStr (rd_author_family c)),
      (''consumed_at'', JStr (isoformat (rd_consumed_at c))),
      (''consumed_by'', JStr (uuid_str (rd_consumed_by c))),
      (''crew_name'', JStr (rd_crew c)),
      (''reviewer_model_ref'', JStr (rd_model c)),
      (''reviewer_family'', JStr (rd_family c)),
      (''reviewer_principal_id'', JStr (uuid_str (rd_reviewer c)))]"

record dispatch_effect =
  de_effect :: uuid
  de_run :: uuid
  de_ticket :: uuid
  de_version :: int
  de_destination :: string
  de_candidate :: string
  de_author :: uuid
  de_author_model :: string
  de_author_family :: string
  de_repository :: string
  de_change :: string
  de_pr :: string
  de_routing :: string
  de_rule :: string
  de_lenses :: "string list"
  de_emitted_at :: datetime
  de_consumption :: "dispatch_consumption option"
  de_verdicts :: "uuid list"

definition dispatch_status :: "dispatch_effect \<Rightarrow> string" where
  "dispatch_status e =
     (if de_verdicts e \<noteq> [] then ''verdict_linked''
      else if de_consumption e \<noteq> None then ''consumed'' else ''emitted'')"

definition dispatch_payload :: "dispatch_effect \<Rightarrow> json" where
  "dispatch_payload e = JObj
     [(''author_model_ref'', JStr (de_author_model e)),
      (''author_family'', JStr (de_author_family e)),
      (''author_principal_id'', JStr (uuid_str (de_author e))),
      (''candidate_digest'', JStr (de_candidate e)),
      (''change_identity'', JStr (de_change e)),
      (''consumption'', (case de_consumption e of None \<Rightarrow> JNull | Some c \<Rightarrow> consumption_payload c)),
      (''destination_stage'', JStr (de_destination e)),
      (''effect_id'', JStr (uuid_str (de_effect e))),
      (''emitted_at'', JStr (isoformat (de_emitted_at e))),
      (''lenses'', JList (map JStr (de_lenses e))),
      (''pr_reference'', JStr (de_pr e)),
      (''repository'', JStr (de_repository e)),
      (''reviewer_family_rule'', JStr (de_rule e)),
      (''routing_policy_ref'', JStr (de_routing e)),
      (''status'', JStr (dispatch_status e)),
      (''ticket_id'', JStr (uuid_str (de_ticket e))),
      (''verdict_ids'', JList (map (\<lambda>u. JStr (uuid_str u)) (de_verdicts e))),
      (''workflow_run_id'', JStr (uuid_str (de_run e))),
      (''workflow_version'', JInt (de_version e))]"

section \<open>The evaluator\<close>

record resolver =
  rs_graph :: "uuid \<Rightarrow> string \<Rightarrow> string \<Rightarrow> workflow_graph option"
  rs_policy :: "uuid \<Rightarrow> string \<Rightarrow> string \<Rightarrow> string \<Rightarrow> bool"

record workflow =
  wf_graphs :: "(string \<times> workflow_graph) list"
  wf_policies :: "(string \<times> string) list"
  wf_resolver :: "resolver option"

definition workflow_init ::
  "workflow_graph list \<Rightarrow> (string \<times> string) list \<Rightarrow> resolver option \<Rightarrow> workflow py" where
  "workflow_init graphs policies res =
     (let ds = dict_of (map (\<lambda>g. (graph_reference g, g)) graphs) in
      bindE (raise_if (length ds \<noteq> length graphs)
        (ValueError ''workflow graph references must be unique'')) (\<lambda>_.
      Inr \<lparr>wf_graphs = ds, wf_policies = policies, wf_resolver = res\<rparr>))"

definition lookup_graph ::
  "workflow \<Rightarrow> string \<Rightarrow> uuid option \<Rightarrow> string option \<Rightarrow> workflow_graph option" where
  "lookup_graph w ref tenant digest =
     (let resolved = (case (wf_resolver w, tenant, digest) of
          (Some r, Some t, Some d) \<Rightarrow> rs_graph r t ref d
        | _ \<Rightarrow> None) in
      case map_of (wf_graphs w) ref of
        Some g \<Rightarrow>
          (if digest = None \<or> digest = Some (graph_digest g) then Some g else resolved)
      | None \<Rightarrow> resolved)"

definition policy_matches ::
  "workflow \<Rightarrow> uuid option \<Rightarrow> string \<Rightarrow> string \<Rightarrow> string \<Rightarrow> bool" where
  "policy_matches w tenant kind ref digest \<longleftrightarrow>
     map_of (wf_policies w) ref = Some digest \<or>
     (case (wf_resolver w, tenant) of (Some r, Some t) \<Rightarrow> rs_policy r t kind ref digest | _ \<Rightarrow> False)"

text \<open>\<open>next(stage for stage in graph.stages if stage.key == key)\<close>\<close>

definition stage_named :: "workflow_graph \<Rightarrow> string \<Rightarrow> stage py" where
  "stage_named g key =
     (case find (\<lambda>s. st_key s = key) (wg_stages g) of Some s \<Rightarrow> Inr s | None \<Rightarrow> Inl StopIteration)"

definition policy_kinds :: "string list" where
  "policy_kinds = [''execution_policy'', ''gate_policy'', ''evidence_policy'']"

definition start_refs :: "workflow_start \<Rightarrow> string list" where
  "start_refs c = [ws_execution c, ws_gate c, ws_evidence c]"

definition start_digests :: "workflow_start \<Rightarrow> string list" where
  "start_digests c = [ws_digest c, ws_execution_digest c, ws_gate_digest c, ws_evidence_digest c]"

definition validate_start :: "workflow \<Rightarrow> workflow_start \<Rightarrow> uuid option \<Rightarrow> decision py" where
  "validate_start w c tenant =
     (let found = (case map_of (wf_graphs w) (ws_workflow c) of
          Some g \<Rightarrow> Some g
        | None \<Rightarrow> lookup_graph w (ws_workflow c) tenant (Some (ws_digest c))) in
      case found of
        None \<Rightarrow> Inr (rejected ''workflow-version-unknown'')
      | Some g \<Rightarrow>
          let exact_refs =
                (wg_execution g = Some (ws_execution c) \<and> wg_gates g = Some (ws_gate c));
              exact_policies =
                list_all (\<lambda>(kind, ref, digest). policy_matches w tenant kind ref digest)
                  (zip policy_kinds (zip (start_refs c) (tl (start_digests c))))
          in if ws_digest c \<noteq> graph_digest g \<or> \<not> exact_refs \<or> \<not> exact_policies \<or>
                list_ex (\<lambda>r. \<not> versioned_reference r) (start_refs c) \<or>
                list_ex (\<lambda>d. \<not> sha256_reference d) (start_digests c)
             then Inr (rejected ''workflow-pin-mismatch'')
             else bindE (stage_named g (wg_initial g)) (\<lambda>s.
               Inr \<lparr>dc_accepted = True, dc_reason = ''accepted'', dc_activity = Some (st_activity s),
                    dc_predicate = None, dc_initial = Some (wg_initial g), dc_effects = []\<rparr>))"

definition evaluate :: "workflow \<Rightarrow> snapshot \<Rightarrow> string \<Rightarrow> decision py" where
  "evaluate w sn destination =
     (case lookup_graph w (sn_workflow sn) (sn_tenant sn) (sn_digest sn) of
        None \<Rightarrow> Inr (rejected ''workflow-version-unknown'')
      | Some g \<Rightarrow>
          if \<not> sn_started sn then Inr (rejected ''run-not-started'')
          else (case find (\<lambda>t. tr_source t = sn_stage sn \<and> tr_destination t = destination)
                  (wg_transitions g) of
            None \<Rightarrow> Inr (rejected ''transition-not-declared'')
          | Some edge \<Rightarrow>
              if tr_predicate edge \<notin> sn_satisfied sn
              then Inr ((rejected ''predicate-unsatisfied'')\<lparr>dc_predicate := Some (tr_predicate edge)\<rparr>)
              else bindE (stage_named g destination) (\<lambda>s.
                Inr \<lparr>dc_accepted = True, dc_reason = ''accepted'', dc_activity = Some (st_activity s),
                     dc_predicate = Some (tr_predicate edge), dc_initial = Some (wg_initial g),
                     dc_effects = st_effects s\<rparr>)))"

definition is_terminal :: "workflow \<Rightarrow> string \<Rightarrow> string \<Rightarrow> uuid option \<Rightarrow> string option \<Rightarrow> bool" where
  "is_terminal w ref key tenant digest =
     (case lookup_graph w ref tenant digest of
        None \<Rightarrow> False
      | Some g \<Rightarrow>
          if \<not> list_ex (\<lambda>s. st_key s = key) (wg_stages g) then False
          else \<not> list_ex (\<lambda>t. tr_source t = key) (wg_transitions g))"

text \<open>
  \<open>all(... for kind, (reference, digest) in zip(kinds, pins, strict=True))\<close>: the length mismatch
  raises only when the generator reaches it.
\<close>

fun pins_loop ::
  "workflow \<Rightarrow> uuid option \<Rightarrow> string list \<Rightarrow> (string \<times> string) list \<Rightarrow> bool py" where
  "pins_loop w tenant [] [] = Inr True"
| "pins_loop w tenant [] (_ # _) = Inl (ValueError ''zip() argument 2 is longer than argument 1'')"
| "pins_loop w tenant (_ # _) [] = Inl (ValueError ''zip() argument 2 is shorter than argument 1'')"
| "pins_loop w tenant (kind # ks) ((ref, digest) # ps) =
     (if policy_matches w tenant kind ref digest then pins_loop w tenant ks ps else Inr False)"

definition pins_match ::
  "workflow \<Rightarrow> string \<Rightarrow> string \<Rightarrow> (string \<times> string) list \<Rightarrow> uuid option \<Rightarrow> bool py" where
  "pins_match w ref digest pins tenant =
     (case lookup_graph w ref tenant (Some digest) of
        None \<Rightarrow> Inr False
      | Some g \<Rightarrow>
          if graph_digest g \<noteq> digest then Inr False else pins_loop w tenant policy_kinds pins)"

section \<open>Totality and exactness of evaluation\<close>

text \<open>
  What construction guarantees about every graph an evaluator can meet: the composed ones and,
  because \<open>WorkflowGraph\<close> checks itself, the resolved ones. References are the dictionary keys.
\<close>

definition resolver_wf :: "resolver option \<Rightarrow> bool" where
  "resolver_wf r \<longleftrightarrow> (\<forall>x. r = Some x \<longrightarrow> (\<forall>t k d g. rs_graph x t k d = Some g \<longrightarrow> graph_wf g))"

definition evaluator_wf :: "workflow \<Rightarrow> bool" where
  "evaluator_wf w \<longleftrightarrow> list_all (\<lambda>(_, g). graph_wf g) (wf_graphs w) \<and> resolver_wf (wf_resolver w)"

lemma workflow_init_Inr_iff [chk]:
  "workflow_init gs ps r = Inr w \<longleftrightarrow>
     length (dict_of (map (\<lambda>g. (graph_reference g, g)) gs)) = length gs \<and>
     w = \<lparr>wf_graphs = dict_of (map (\<lambda>g. (graph_reference g, g)) gs), wf_policies = ps, wf_resolver = r\<rparr>"
  by (auto simp: workflow_init_def Let_def bindE_Inr_iff)

lemma lookup_graph_wf: "evaluator_wf w \<Longrightarrow> lookup_graph w r t d = Some g \<Longrightarrow> graph_wf g"
  by (auto simp: lookup_graph_def evaluator_wf_def resolver_wf_def list_all_iff Let_def
      split: option.splits if_splits dest!: map_of_SomeD)

lemma stage_named_in: "key \<in> stage_keys g \<Longrightarrow> \<exists>s. stage_named g key = Inr s \<and> s \<in> set (wg_stages g) \<and> st_key s = key"
proof -
  assume "key \<in> stage_keys g"
  then obtain s0 where "s0 \<in> set (wg_stages g)" "st_key s0 = key" by (auto simp: stage_keys_def)
  then obtain s where f: "find (\<lambda>s. st_key s = key) (wg_stages g) = Some s"
    by (cases "find (\<lambda>s. st_key s = key) (wg_stages g)") (auto simp: find_None_iff)
  then show ?thesis using find_Some_set [OF f] by (auto simp: stage_named_def)
qed

lemma stage_named_Inr: "stage_named g key = Inr s \<Longrightarrow> s \<in> set (wg_stages g) \<and> st_key s = key"
  by (auto simp: stage_named_def split: option.splits dest: find_Some_set)

lemma edge_declared:
  assumes "graph_wf g" and "t \<in> set (wg_transitions g)"
  shows "tr_source t \<in> stage_keys g" and "tr_destination t \<in> stage_keys g"
  using assms by (auto simp: graph_wf_def graph_checked_def list_all_iff)

lemma find_edge:
  assumes "graph_wf g"
  shows "find (\<lambda>t. tr_source t = a \<and> tr_destination t = b) (wg_transitions g) = Some t \<longleftrightarrow>
    t \<in> set (wg_transitions g) \<and> edge_of t = (a, b)" (is "?f = Some t \<longleftrightarrow> ?r")
proof
  show "?f = Some t \<Longrightarrow> ?r" by (drule find_Some_set) (simp add: edge_of_def)
  have dist: "distinct (map edge_of (wg_transitions g))"
    using assms by (simp add: graph_wf_def graph_checked_def)
  assume r: ?r
  have "find (\<lambda>t'. edge_of t' = edge_of t) (wg_transitions g) = Some t"
    using dist r by (intro find_distinct) auto
  then show "?f = Some t" using r by (simp add: edge_of_def)
qed

text \<open>The legal movements of a graph: its declared edges whose predicate is satisfied.\<close>

definition legal_move :: "workflow_graph \<Rightarrow> string set \<Rightarrow> string \<Rightarrow> string \<Rightarrow> bool" where
  "legal_move g satisfied src dst \<longleftrightarrow>
     list_ex (\<lambda>t. edge_of t = (src, dst) \<and> tr_predicate t \<in> satisfied) (wg_transitions g)"

lemma evaluate_cases:
  assumes "evaluator_wf w"
  obtains
    (unknown) "lookup_graph w (sn_workflow sn) (sn_tenant sn) (sn_digest sn) = None"
      "evaluate w sn dst = Inr (rejected ''workflow-version-unknown'')"
  | (unstarted) g where "lookup_graph w (sn_workflow sn) (sn_tenant sn) (sn_digest sn) = Some g"
      "\<not> sn_started sn" "evaluate w sn dst = Inr (rejected ''run-not-started'')"
  | (undeclared) g where "lookup_graph w (sn_workflow sn) (sn_tenant sn) (sn_digest sn) = Some g"
      "sn_started sn" "(sn_stage sn, dst) \<notin> edge_of ` set (wg_transitions g)"
      "evaluate w sn dst = Inr (rejected ''transition-not-declared'')"
  | (unsatisfied) g t where "lookup_graph w (sn_workflow sn) (sn_tenant sn) (sn_digest sn) = Some g"
      "sn_started sn" "t \<in> set (wg_transitions g)" "edge_of t = (sn_stage sn, dst)"
      "tr_predicate t \<notin> sn_satisfied sn"
      "evaluate w sn dst = Inr ((rejected ''predicate-unsatisfied'')\<lparr>dc_predicate := Some (tr_predicate t)\<rparr>)"
  | (accepted) g t s where "lookup_graph w (sn_workflow sn) (sn_tenant sn) (sn_digest sn) = Some g"
      "sn_started sn" "t \<in> set (wg_transitions g)" "edge_of t = (sn_stage sn, dst)"
      "tr_predicate t \<in> sn_satisfied sn" "s \<in> set (wg_stages g)" "st_key s = dst"
      "evaluate w sn dst = Inr \<lparr>dc_accepted = True, dc_reason = ''accepted'',
         dc_activity = Some (st_activity s), dc_predicate = Some (tr_predicate t),
         dc_initial = Some (wg_initial g), dc_effects = st_effects s\<rparr>"
proof (cases "lookup_graph w (sn_workflow sn) (sn_tenant sn) (sn_digest sn)")
  case None
  then show ?thesis by (intro unknown) (simp_all add: evaluate_def)
next
  case (Some g)
  note wf = lookup_graph_wf [OF assms Some]
  let ?f = "find (\<lambda>t. tr_source t = sn_stage sn \<and> tr_destination t = dst) (wg_transitions g)"
  show ?thesis
  proof (cases "sn_started sn")
    case False
    with Some show ?thesis by (intro unstarted) (simp_all add: evaluate_def)
  next
    case started: True
    show ?thesis
    proof (cases ?f)
      case None
      then have "evaluate w sn dst = Inr (rejected ''transition-not-declared'')"
        using Some started by (simp add: evaluate_def)
      moreover have "(sn_stage sn, dst) \<notin> edge_of ` set (wg_transitions g)"
        using None by (auto simp: find_None_iff edge_of_def)
      ultimately show ?thesis using Some started by (intro undeclared)
    next
      case edge: (Some t)
      then have t: "t \<in> set (wg_transitions g)" "edge_of t = (sn_stage sn, dst)"
        using find_edge [OF wf] by blast+
      obtain s where s: "stage_named g dst = Inr s" "s \<in> set (wg_stages g)" "st_key s = dst"
        using stage_named_in [OF edge_declared(2) [OF wf t(1)]] t(2) by (auto simp: edge_of_def)
      show ?thesis
      proof (cases "tr_predicate t \<in> sn_satisfied sn")
        case False
        with Some started edge t show ?thesis by (intro unsatisfied) (simp_all add: evaluate_def)
      next
        case True
        with Some started edge t s show ?thesis by (intro accepted) (simp_all add: evaluate_def)
      qed
    qed
  qed
qed


lemma legal_move_unique:
  assumes "graph_wf g" and "t \<in> set (wg_transitions g)" and "edge_of t = (a, b)"
  shows "legal_move g sat a b \<longleftrightarrow> tr_predicate t \<in> sat"
proof -
  have "u = t" if "u \<in> set (wg_transitions g)" "edge_of u = (a, b)" for u
    using find_edge [OF assms(1), of a b u] find_edge [OF assms(1), of a b t] assms(2,3) that by simp
  then show ?thesis using assms(2,3) unfolding legal_move_def list_ex_iff by blast
qed

lemma rejected_not_accepted [simp]:
  "dc_accepted (rejected r) = False" "dc_predicate (rejected r) = None"
  "dc_reason (rejected r) = r"
  by (simp_all add: rejected_def)

lemma evaluate_accepted:
  assumes "evaluator_wf w" and "evaluate w sn dst = Inr d" and "dc_accepted d"
    and "lookup_graph w (sn_workflow sn) (sn_tenant sn) (sn_digest sn) = Some g"
  shows "\<exists>t \<in> set (wg_transitions g). edge_of t = (sn_stage sn, dst) \<and> tr_predicate t \<in> sn_satisfied sn"
  using assms by (cases rule: evaluate_cases [OF assms(1), of sn dst]) auto

lemma evaluate_legal:
  assumes "evaluator_wf w" and "lookup_graph w (sn_workflow sn) (sn_tenant sn) (sn_digest sn) = Some g"
  shows "\<exists>d. evaluate w sn dst = Inr d \<and>
    (dc_accepted d \<longleftrightarrow> sn_started sn \<and> legal_move g (sn_satisfied sn) (sn_stage sn) dst)"
proof (cases rule: evaluate_cases [OF assms(1), of sn dst,
    case_names unknown unstarted undeclared unsatisfied accepted])
  case (unsatisfied g' t)
  with assms(2) show ?thesis
    using legal_move_unique [OF lookup_graph_wf [OF assms]] by simp
qed (use assms(2) in \<open>auto simp: legal_move_def list_ex_iff image_iff\<close>)

section \<open>Starting and pinning\<close>

lemma validate_start_accepted:
  assumes "validate_start w c tenant = Inr d" and "dc_accepted d"
  obtains g where "lookup_graph w (ws_workflow c) tenant (Some (ws_digest c)) = Some g"
    and "graph_digest g = ws_digest c" and "dc_initial d = Some (wg_initial g)"
    and "wg_execution g = Some (ws_execution c)" and "wg_gates g = Some (ws_gate c)"
    and "list_all (\<lambda>(kind, ref, digest). policy_matches w tenant kind ref digest)
          (zip policy_kinds (zip (start_refs c) (tl (start_digests c))))"
proof -
  let ?found = "case map_of (wf_graphs w) (ws_workflow c) of Some g \<Rightarrow> Some g
      | None \<Rightarrow> lookup_graph w (ws_workflow c) tenant (Some (ws_digest c))"
  show ?thesis
  proof (cases ?found)
    case None
    with assms have False by (auto simp: validate_start_def rejected_def)
    then show ?thesis ..
  next
    case (Some g)
    with assms have "graph_digest g = ws_digest c" "dc_initial d = Some (wg_initial g)"
      "wg_execution g = Some (ws_execution c)" "wg_gates g = Some (ws_gate c)"
      "list_all (\<lambda>(kind, ref, digest). policy_matches w tenant kind ref digest)
          (zip policy_kinds (zip (start_refs c) (tl (start_digests c))))"
      by (auto simp: validate_start_def rejected_def bindE_Inr_iff split: if_splits)
    moreover from this(1) Some have "lookup_graph w (ws_workflow c) tenant (Some (ws_digest c)) = Some g"
      by (cases "map_of (wf_graphs w) (ws_workflow c)") (auto simp: lookup_graph_def)
    ultimately show ?thesis using that by blast
  qed
qed

lemma validate_start_ok:
  assumes "map_of (wf_graphs w) (ws_workflow c) = Some g" and "ws_digest c = graph_digest g"
    and "wg_execution g = Some (ws_execution c)" and "wg_gates g = Some (ws_gate c)"
    and "policy_matches w t ''execution_policy'' (ws_execution c) (ws_execution_digest c)"
    and "policy_matches w t ''gate_policy'' (ws_gate c) (ws_gate_digest c)"
    and "policy_matches w t ''evidence_policy'' (ws_evidence c) (ws_evidence_digest c)"
    and "list_all versioned_reference (start_refs c)" and "list_all sha256_reference (start_digests c)"
    and "stage_named g (wg_initial g) = Inr s"
  shows "validate_start w c t =
    Inr \<lparr>dc_accepted = True, dc_reason = ''accepted'', dc_activity = Some (st_activity s),
         dc_predicate = None, dc_initial = Some (wg_initial g), dc_effects = []\<rparr>"
  using assms
  by (simp add: validate_start_def policy_kinds_def start_refs_def start_digests_def)

text \<open>The stages a run pinned by one accepted start can be in, movement by movement.\<close>

inductive run_reaches :: "workflow \<Rightarrow> workflow_start \<Rightarrow> uuid option \<Rightarrow> string \<Rightarrow> bool"
  for w :: workflow and c :: workflow_start and tenant :: "uuid option" where
  started: "validate_start w c tenant = Inr d \<Longrightarrow> dc_accepted d \<Longrightarrow> dc_initial d = Some s \<Longrightarrow>
     run_reaches w c tenant s"
| moved: "run_reaches w c tenant s \<Longrightarrow>
     evaluate w \<lparr>sn_workflow = ws_workflow c, sn_stage = s, sn_satisfied = sat, sn_started = True,
       sn_tenant = tenant, sn_digest = Some (ws_digest c)\<rparr> dst = Inr d \<Longrightarrow>
     dc_accepted d \<Longrightarrow> run_reaches w c tenant dst"

lemma run_reaches_declared:
  assumes wf: "evaluator_wf w" and run: "run_reaches w c tenant s"
  shows "\<exists>g. lookup_graph w (ws_workflow c) tenant (Some (ws_digest c)) = Some g \<and>
    graph_digest g = ws_digest c \<and> s \<in> stage_keys g \<and>
    (wg_initial g, s) \<in> (edge_of ` set (wg_transitions g))\<^sup>*"
  using run
proof induction
  case (started d s)
  then obtain g where g: "lookup_graph w (ws_workflow c) tenant (Some (ws_digest c)) = Some g"
      "graph_digest g = ws_digest c" "s = wg_initial g"
    by (auto elim: validate_start_accepted)
  then show ?case
    using lookup_graph_wf [OF wf g(1)] by (auto simp: graph_wf_def graph_checked_def)
next
  case (moved s sat dst d)
  then obtain g where g: "lookup_graph w (ws_workflow c) tenant (Some (ws_digest c)) = Some g"
      "graph_digest g = ws_digest c" "(wg_initial g, s) \<in> (edge_of ` set (wg_transitions g))\<^sup>*"
    by blast
  obtain t where t: "t \<in> set (wg_transitions g)" "edge_of t = (s, dst)"
    using evaluate_accepted [OF wf moved(2,3)] g(1) by auto
  have "dst \<in> stage_keys g"
    using edge_declared(2) [OF lookup_graph_wf [OF wf g(1)] t(1)] t(2) by (simp add: edge_of_def)
  moreover have "(wg_initial g, dst) \<in> (edge_of ` set (wg_transitions g))\<^sup>*"
    using g(3) t by (metis imageI rtrancl.rtrancl_into_rtrancl)
  ultimately show ?case using g by blast
qed


lemma pins_loop_total:
  "length ks = length ps \<Longrightarrow> pins_loop w tenant ks ps =
     Inr (list_all (\<lambda>(kind, ref, digest). policy_matches w tenant kind ref digest) (zip ks ps))"
  by (induction ks ps rule: list_induct2) auto

section \<open>Properties\<close>

definition example_evaluator :: workflow where
  "example_evaluator =
     \<lparr>wf_graphs = [(''repair@3'', example_graph)],
      wf_policies = map (\<lambda>r. (r, ''sha256:'' @ sha256_hex r)) [''exec@1'', ''gates@2'', ''evidence@1''],
      wf_resolver = None\<rparr>"

definition example_start :: workflow_start where
  "example_start =
     \<lparr>ws_command = 1, ws_ticket = 2, ws_workflow = ''repair@3'', ws_digest = graph_digest example_graph,
      ws_execution = ''exec@1'', ws_execution_digest = ''sha256:'' @ sha256_hex ''exec@1'',
      ws_gate = ''gates@2'', ws_gate_digest = ''sha256:'' @ sha256_hex ''gates@2'',
      ws_evidence = ''evidence@1'', ws_evidence_digest = ''sha256:'' @ sha256_hex ''evidence@1''\<rparr>"

definition example_snapshot :: snapshot where
  "example_snapshot =
     \<lparr>sn_workflow = ''repair@3'', sn_stage = ''plan'', sn_satisfied = {''ready@1''}, sn_started = True,
      sn_tenant = None, sn_digest = None\<rparr>"

lemma example_evaluator_wf: "evaluator_wf example_evaluator"
  using from_mapping_graph_wf [OF example_parses(1)]
  by (simp add: evaluator_wf_def resolver_wf_def example_evaluator_def)

lemma example_lookup: "lookup_graph example_evaluator ''repair@3'' t None = Some example_graph"
  by (simp add: lookup_graph_def example_evaluator_def)

lemma example_starts:
  "\<exists>d. validate_start example_evaluator example_start t = Inr d \<and> dc_accepted d \<and>
     dc_initial d = Some ''plan''"
proof -
  have "list_all versioned_reference [''exec@1'', ''gates@2'', ''evidence@1'']" by code_simp
  then have "validate_start example_evaluator example_start t =
      Inr \<lparr>dc_accepted = True, dc_reason = ''accepted'', dc_activity = Some WorkActivity,
           dc_predicate = None, dc_initial = Some ''plan'', dc_effects = []\<rparr>"
    using sha256_reference_hex [of "''exec@1''"] sha256_reference_hex [of "''gates@2''"]
      sha256_reference_hex [of "''evidence@1''"] sha256_reference_hex [of "graph_text example_graph"]
    by (subst validate_start_ok [where g = example_graph
          and s = "\<lparr>st_key = ''plan'', st_activity = WorkActivity, st_effects = []\<rparr>"])
      (simp_all only: example_start_def example_evaluator_def start_refs_def start_digests_def
        graph_digest_def workflow_start.simps workflow.simps list.pred_inject list.sel,
       simp_all add: policy_matches_def example_graph_def stage_named_def)
  then show ?thesis by simp
qed

text \<open>
  C3. Evaluation of a movement is total: on graphs the class accepts it never raises, and it
  accepts exactly when the pinned graph is found, the run has started, and the graph declares an
  edge from the current stage to the requested one whose predicate is among the satisfied ones.
  An accepted decision carries the effects of the destination stage.
\<close>

theorem evaluate_exact:
  assumes "evaluator_wf w"
  shows "\<exists>d. evaluate w sn dst = Inr d \<and>
    (dc_accepted d \<longleftrightarrow> (\<exists>g. lookup_graph w (sn_workflow sn) (sn_tenant sn) (sn_digest sn) = Some g \<and>
       sn_started sn \<and> legal_move g (sn_satisfied sn) (sn_stage sn) dst)) \<and>
    (dc_accepted d \<longrightarrow> (\<exists>g. lookup_graph w (sn_workflow sn) (sn_tenant sn) (sn_digest sn) = Some g \<and>
       (\<exists>s \<in> set (wg_stages g). st_key s = dst \<and> dc_effects d = st_effects s)))"
proof (cases rule: evaluate_cases [OF assms, of sn dst,
    case_names unknown unstarted undeclared unsatisfied accepted])
  case (unsatisfied g t)
  then show ?thesis
    using legal_move_unique [OF lookup_graph_wf [OF assms unsatisfied(1)]] by simp
qed (auto simp: legal_move_def list_ex_iff image_iff)

lemma evaluate_exact_witness:
  "evaluator_wf example_evaluator \<and>
   (\<exists>d. evaluate example_evaluator example_snapshot ''review'' = Inr d \<and> dc_accepted d)"
proof -
  have "legal_move example_graph {''ready@1''} ''plan'' ''review''"
    by (simp add: legal_move_def example_graph_def edge_of_def)
  then show ?thesis
    using evaluate_exact [OF example_evaluator_wf, of example_snapshot "''review''"]
      example_evaluator_wf example_lookup by (auto simp: example_snapshot_def)
qed

text \<open>
  For a declared stage of a known graph, \<open>is_terminal\<close> answers true exactly when the run is
  stuck there: no satisfied predicates and no requested destination make \<open>evaluate\<close> accept.
\<close>

theorem is_terminal_iff_stuck:
  assumes "evaluator_wf w" and "lookup_graph w ref tenant digest = Some g" and "key \<in> stage_keys g"
  shows "is_terminal w ref key tenant digest \<longleftrightarrow>
    (\<forall>satisfied dst d. evaluate w \<lparr>sn_workflow = ref, sn_stage = key, sn_satisfied = satisfied,
        sn_started = True, sn_tenant = tenant, sn_digest = digest\<rparr> dst = Inr d \<longrightarrow> \<not> dc_accepted d)"
    (is "_ \<longleftrightarrow> (\<forall>satisfied dst d. evaluate w (?sn satisfied) dst = Inr d \<longrightarrow> _)")
proof -
  have out: "is_terminal w ref key tenant digest \<longleftrightarrow> (\<forall>t \<in> set (wg_transitions g). tr_source t \<noteq> key)"
    using assms(2,3) by (auto simp: is_terminal_def list_ex_iff stage_keys_def)
  have exact: "\<exists>d. evaluate w (?sn sat) dst = Inr d \<and> (dc_accepted d \<longleftrightarrow> legal_move g sat key dst)" for sat dst
    using evaluate_legal [OF assms(1), where sn = "?sn sat" and dst = dst] assms(2) by auto
  show ?thesis unfolding out
  proof (intro iffI allI impI notI ballI)
    fix sat dst d
    assume "\<forall>t \<in> set (wg_transitions g). tr_source t \<noteq> key"
      and "evaluate w (?sn sat) dst = Inr d" and "dc_accepted d"
    with exact [of sat dst] show False by (auto simp: legal_move_def list_ex_iff edge_of_def)
  next
    fix t
    assume stuck: "\<forall>sat dst d. evaluate w (?sn sat) dst = Inr d \<longrightarrow> \<not> dc_accepted d"
      and t: "t \<in> set (wg_transitions g)" "tr_source t = key"
    then have "legal_move g {tr_predicate t} key (tr_destination t)"
      by (auto simp: legal_move_def list_ex_iff edge_of_def)
    with exact [of "{tr_predicate t}" "tr_destination t"] stuck show False by blast
  qed
qed

lemma is_terminal_iff_stuck_witness:
  "evaluator_wf example_evaluator \<and> ''review'' \<in> stage_keys example_graph \<and>
   is_terminal example_evaluator ''repair@3'' ''review'' None None"
proof -
  have k: "''review'' \<in> stage_keys example_graph" by (simp add: stage_keys_def example_graph_def)
  have "is_terminal example_evaluator ''repair@3'' ''review'' None None"
    by (simp add: is_terminal_def example_lookup) (simp add: example_graph_def)
  then show ?thesis
    using is_terminal_iff_stuck [OF example_evaluator_wf example_lookup [of None] k] k example_evaluator_wf
    by blast
qed

text \<open>
  C4. A run never leaves its pinned graph: every stage it can be in, by an accepted start and any
  sequence of accepted movements, is a declared stage of the one graph whose digest the start
  pinned, and is connected to that graph's initial stage by declared edges.
\<close>

theorem run_stays_in_pinned_graph:
  assumes "evaluator_wf w" and "run_reaches w c tenant s"
  shows "\<exists>g. lookup_graph w (ws_workflow c) tenant (Some (ws_digest c)) = Some g \<and>
    graph_digest g = ws_digest c \<and> s \<in> stage_keys g \<and>
    (wg_initial g, s) \<in> (edge_of ` set (wg_transitions g))\<^sup>*"
  using run_reaches_declared [OF assms] .

lemma run_stays_in_pinned_graph_witness:
  "run_reaches example_evaluator example_start None ''plan'' \<and> ''plan'' \<in> stage_keys example_graph"
proof -
  have run: "run_reaches example_evaluator example_start None ''plan''"
    using example_starts [of None] by (auto intro: run_reaches.started)
  then show ?thesis
    using run_stays_in_pinned_graph [OF example_evaluator_wf run]
    by (auto simp: lookup_graph_def example_start_def example_evaluator_def)
qed

text \<open>
  Pins never drift from the start that wrote them: when a start validates, the later check of
  its persisted pins (workflow reference and digest, and the three policy references and digests)
  returns true on the same evaluator, without raising.
\<close>

theorem validated_start_pins_match:
  assumes "validate_start w c tenant = Inr d" and "dc_accepted d"
  shows "pins_match w (ws_workflow c) (ws_digest c) (zip (start_refs c) (tl (start_digests c))) tenant
    = Inr True"
  using assms
proof (rule validate_start_accepted)
  fix g
  assume g: "lookup_graph w (ws_workflow c) tenant (Some (ws_digest c)) = Some g"
      "graph_digest g = ws_digest c"
    and policies: "list_all (\<lambda>(kind, ref, digest). policy_matches w tenant kind ref digest)
      (zip policy_kinds (zip (start_refs c) (tl (start_digests c))))"
  have "length policy_kinds = length (zip (start_refs c) (tl (start_digests c)))"
    by (simp add: policy_kinds_def start_refs_def start_digests_def)
  from pins_loop_total [OF this] g policies show ?thesis by (simp add: pins_match_def)
qed

lemma validated_start_pins_match_witness:
  "\<exists>d. validate_start example_evaluator example_start None = Inr d \<and> dc_accepted d \<and>
     pins_match example_evaluator (ws_workflow example_start) (ws_digest example_start)
       (zip (start_refs example_start) (tl (start_digests example_start))) None = Inr True"
  using example_starts [of None] validated_start_pins_match by blast

definition digests_collide :: "json \<Rightarrow> json \<Rightarrow> bool" where
  "digests_collide a b \<longleftrightarrow>
     json_dumps a \<noteq> json_dumps b \<and> sha256_hex (json_dumps a) = sha256_hex (json_dumps b)"

text \<open>
  An idempotency digest binds its request: two movements with the same digest ask for the same
  ticket, Workflow, expected version and edge (the client command id is deliberately not part of
  it), two starts the same ticket and the same eight pins, two closes the same ticket, Workflow
  and version, unless the two texts are an explicit SHA-256 collision.
\<close>

theorem request_digest_binds:
  "(request_digest (mutation_payload m) = request_digest (mutation_payload m') \<longleftrightarrow>
     m\<lparr>wm_command := 0\<rparr> = m'\<lparr>wm_command := 0\<rparr> \<or> digests_collide (mutation_payload m) (mutation_payload m')) \<and>
   (request_digest (start_payload c) = request_digest (start_payload c') \<longleftrightarrow>
     c\<lparr>ws_command := 0\<rparr> = c'\<lparr>ws_command := 0\<rparr> \<or> digests_collide (start_payload c) (start_payload c')) \<and>
   (request_digest (close_payload r) = request_digest (close_payload r') \<longleftrightarrow>
     r\<lparr>rc_command := 0\<rparr> = r'\<lparr>rc_command := 0\<rparr> \<or> digests_collide (close_payload r) (close_payload r'))"
proof -
  have split: "sha256_hex (json_dumps a) = sha256_hex (json_dumps b) \<longleftrightarrow>
      json_canon a = json_canon b \<or> digests_collide a b" for a b
    by (auto simp: digests_collide_def json_dumps_inj) (simp add: json_dumps_def)
  have "request_digest (mutation_payload m) = request_digest (mutation_payload m') \<longleftrightarrow>
     m\<lparr>wm_command := 0\<rparr> = m'\<lparr>wm_command := 0\<rparr> \<or> digests_collide (mutation_payload m) (mutation_payload m')"
    unfolding request_digest_def split by (cases m; cases m') (auto simp: mutation_payload_def)
  moreover have "request_digest (start_payload c) = request_digest (start_payload c') \<longleftrightarrow>
     c\<lparr>ws_command := 0\<rparr> = c'\<lparr>ws_command := 0\<rparr> \<or> digests_collide (start_payload c) (start_payload c')"
    unfolding request_digest_def split by (cases c; cases c') (auto simp: start_payload_def)
  moreover have "request_digest (close_payload r) = request_digest (close_payload r') \<longleftrightarrow>
     r\<lparr>rc_command := 0\<rparr> = r'\<lparr>rc_command := 0\<rparr> \<or> digests_collide (close_payload r) (close_payload r')"
    unfolding request_digest_def split
    by (cases r; cases r') (auto simp: close_payload_def opt_json_inj)
  ultimately show ?thesis by blast
qed

end
