(* ===== verification/Reach.thy ===== *)
theory Reach
  imports Main
begin

text \<open>
  The contract of a search over a finite edge relation, shared by the graph walk of the definition
  planner, which takes one pending node at a time, and the recursive query of the relation store,
  which takes the whole working table at a time. A client provides its loop and one step of it;
  the contract gives that the loop returns exactly the nodes connected to its start.
\<close>

locale search =
  fixes edges :: "('n \<times> 'n) set"
    and batch :: "'n list \<Rightarrow> 'n set"
    and rest :: "'n list \<Rightarrow> 'n list"
    and step :: "'n set \<Rightarrow> 'n list \<Rightarrow> 'n set \<times> 'n list"
    and loop :: "'n set \<Rightarrow> 'n list \<Rightarrow> 'n set"
  assumes finite_edges: "finite edges"
    and batch_rest: "p \<noteq> [] \<Longrightarrow> set p = batch p \<union> set (rest p)"
    and rest_shorter: "p \<noteq> [] \<Longrightarrow> length (rest p) < length p"
    and step_reached: "p \<noteq> [] \<Longrightarrow> fst (step r p) = r \<union> edges `` batch p"
    and step_pending: "p \<noteq> [] \<Longrightarrow> set (snd (step r p)) = set (rest p) \<union> (edges `` batch p - r)"
    and step_idle: "p \<noteq> [] \<Longrightarrow> edges `` batch p \<subseteq> r \<Longrightarrow> snd (step r p) = rest p"
    and loop_done: "loop r [] = r"
    and loop_step: "p \<noteq> [] \<Longrightarrow> loop r p = loop (fst (step r p)) (snd (step r p))"
begin

definition measure_of :: "'n set \<Rightarrow> 'n list \<Rightarrow> nat \<times> nat" where
  "measure_of r p = (card (Range edges - r), length p)"

lemma measure_decreases:
  assumes "p \<noteq> []" and "step r p = (r', p')"
  shows "(measure_of r' p', measure_of r p) \<in> less_than <*lex*> less_than"
proof -
  have r': "r' = r \<union> edges `` batch p"
    using step_reached [OF assms(1), of r] assms(2) by simp
  have fin: "finite (Range edges - r)" using finite_edges by (simp add: Range_snd)
  show ?thesis
  proof (cases "edges `` batch p \<subseteq> r")
    case True
    then have "r' = r" "p' = rest p"
      using r' step_idle [OF assms(1), of r] assms(2) by auto
    then show ?thesis using rest_shorter [OF assms(1)] by (simp add: measure_of_def)
  next
    case False
    then have "Range edges - r' \<subset> Range edges - r" using r' by auto
    then have "card (Range edges - r') < card (Range edges - r)" by (rule psubset_card_mono [OF fin])
    then show ?thesis by (simp add: measure_of_def)
  qed
qed

lemma loop_invariant:
  assumes "set p \<subseteq> r" and "s \<in> r" and "r \<subseteq> edges\<^sup>* `` {s}"
    and "\<And>x. x \<in> r - set p \<Longrightarrow> edges `` {x} \<subseteq> r"
  shows "loop r p = edges\<^sup>* `` {s}"
  using assms
proof (induction "measure_of r p" arbitrary: r p rule: wf_induct [OF wf_lex_prod [OF wf_less_than wf_less_than]])
  case (1 r p)
  show ?case
  proof (cases "p = []")
    case True
    have "y \<in> r" if "(s, y) \<in> edges\<^sup>*" for y
      using that by induction (use "1.prems" True in auto)
    with "1.prems"(3) True show ?thesis by (auto simp: loop_done)
  next
    case False
    obtain r' p' where v: "step r p = (r', p')" by fastforce
    have r': "r' = r \<union> edges `` batch p" and p': "set p' = set (rest p) \<union> (edges `` batch p - r)"
      using step_reached [OF False, of r] step_pending [OF False, of r] v by auto
    have batch: "batch p \<subseteq> r" using batch_rest [OF False] "1.prems"(1) by auto
    have "loop r' p' = edges\<^sup>* `` {s}"
    proof (rule "1.hyps" [rule_format, OF measure_decreases [OF False v] refl])
      show "set p' \<subseteq> r'" using r' p' batch_rest [OF False] "1.prems"(1) by auto
      show "s \<in> r'" using r' "1.prems"(2) by simp
      show "r' \<subseteq> edges\<^sup>* `` {s}"
        using r' batch "1.prems"(3) by (auto intro: rtrancl_into_rtrancl)
      fix x
      assume x: "x \<in> r' - set p'"
      show "edges `` {x} \<subseteq> r'"
      proof (cases "x \<in> batch p")
        case True
        then show ?thesis using r' by auto
      next
        case False
        then show ?thesis
          using x r' p' batch_rest [OF \<open>p \<noteq> []\<close>] "1.prems"(4) [of x] by auto
      qed
    qed
    then show ?thesis using loop_step [OF False, of r] v by simp
  qed
qed

lemma loop_reachable: "loop {s} [s] = edges\<^sup>* `` {s}"
  by (rule loop_invariant) auto

end

end
