(* ===== verification/WorkflowDefinition.thy ===== *)
theory WorkflowDefinition
  imports WorkflowGraph Reach
begin

text \<open>
  \<open>ctower_kernel/workflow/_definition_model.py\<close> and \<open>_definition_plan.py\<close>: the authored definition,
  the application of one project overlay, the derivation of the graph (gate 2) and the rendering
  of the normalized payload (gate 3), every refusal with its rule, name and stage. The lemmas give
  the exact condition under which a definition resolves, where reachability is the reflexive
  transitive closure of the declared edges, and show that a rendered payload is one the strict
  graph parser reads back.
\<close>

section \<open>The authored model\<close>

datatype assertion_value = AText string | AFlag bool | AInts "int list"

record evidence_slot =
  es_key :: string
  es_assertions :: "(string \<times> assertion_value) list"

record skip_set =
  sk_predicate :: string
  sk_evidence :: "evidence_slot list"
  sk_signs :: "string option"

record stage_definition =
  sd_name :: string
  sd_owner :: string
  sd_evidence :: "evidence_slot list"
  sd_group :: "string option"
  sd_signs :: "string option"
  sd_gate :: "string option"
  sd_skip :: "skip_set option"
  sd_routes :: "(string \<times> string) list"

definition slot_keys :: "stage_definition \<Rightarrow> string list" where
  "slot_keys s = map es_key (sd_evidence s)"

record transition_definition =
  td_source :: string
  td_destination :: string
  td_requires :: "string list"

record project_overlay =
  po_project :: string
  po_stages :: "(string \<times> evidence_slot list) list"

record workflow_definition =
  wd_name :: string
  wd_company :: string
  wd_revision :: int
  wd_signed_by :: string
  wd_groups :: "string list"
  wd_stages :: "stage_definition list"
  wd_transitions :: "transition_definition list"
  wd_overlays :: "project_overlay list"

definition definition_reference :: "workflow_definition \<Rightarrow> string" where
  "definition_reference d = component_reference (wd_name d) (wd_revision d)"

definition definition_overlay :: "workflow_definition \<Rightarrow> string \<Rightarrow> project_overlay option" where
  "definition_overlay d project = find (\<lambda>ov. po_project ov = project) (wd_overlays d)"

text \<open>\<open>WorkflowDefinitionRefusedError\<close>: the rule, the offending name and the stage.\<close>

datatype def_refusal = Refused (rf_rule: string) (rf_name: string) (rf_stage: "string option")

definition refusal_text :: "def_refusal \<Rightarrow> string" where
  "refusal_text r =
     rf_rule r @ '' refuses '' @ rf_name r @
     (case rf_stage r of None \<Rightarrow> [] | Some s \<Rightarrow> '' in stage '' @ s)"

section \<open>Resolution\<close>

record resolved_stage =
  rs_name :: string
  rs_owner :: string
  rs_group :: "string option"
  rs_slots :: "evidence_slot list"
  rs_signing :: "string option"
  rs_gate :: "string option"
  rs_skip :: "skip_set option"
  rs_routes :: "(string \<times> string) list"
  rs_terminal :: bool

record resolved_workflow =
  rw_key :: string
  rw_revision :: int
  rw_project :: "string option"
  rw_groups :: "string list"
  rw_initial :: string
  rw_stages :: "resolved_stage list"
  rw_transitions :: "transition_definition list"

definition resolved_stage_named :: "resolved_workflow \<Rightarrow> string \<Rightarrow> resolved_stage option" where
  "resolved_stage_named r name = find (\<lambda>s. rs_name s = name) (rw_stages r)"

record workflow_resolution =
  wz_activities :: "(string \<times> activity_class) list"
  wz_predicates :: "((string \<times> string) \<times> string) list"
  wz_failures :: "(string \<times> string) list"
  wz_input :: string
  wz_terminal :: string
  wz_execution :: string
  wz_gate :: string
  wz_status :: string
  wz_note :: string

definition edge_pair :: "transition_definition \<Rightarrow> string \<times> string" where
  "edge_pair e = (td_source e, td_destination e)"

definition overlay_slots :: "project_overlay \<Rightarrow> string \<Rightarrow> evidence_slot list" where
  "overlay_slots ov name =
     (case find (\<lambda>(stage, _). stage = name) (po_stages ov) of Some (_, slots) \<Rightarrow> slots | None \<Rightarrow> [])"

definition resolved_stage_of ::
  "project_overlay option \<Rightarrow> string set \<Rightarrow> stage_definition \<Rightarrow> resolved_stage" where
  "resolved_stage_of ov outgoing s =
     \<lparr>rs_name = sd_name s, rs_owner = sd_owner s, rs_group = sd_group s,
      rs_slots = sd_evidence s @ (case ov of None \<Rightarrow> [] | Some x \<Rightarrow> overlay_slots x (sd_name s)),
      rs_signing = sd_signs s, rs_gate = sd_gate s, rs_skip = sd_skip s, rs_routes = sd_routes s,
      rs_terminal = (sd_name s \<notin> outgoing)\<rparr>"

definition declared_slots :: "workflow_definition \<Rightarrow> (string \<times> string list) list" where
  "declared_slots d = dict_of (map (\<lambda>s. (sd_name s, slot_keys s)) (wd_stages d))"

definition check_overlay :: "workflow_definition \<Rightarrow> project_overlay option \<Rightarrow> def_refusal + unit" where
  "check_overlay d ov =
     (case ov of
        None \<Rightarrow> Inr ()
      | Some x \<Rightarrow> eachE (\<lambda>(stage, slots).
          case map_of (declared_slots d) stage of
            None \<Rightarrow> Inl (Refused ''overlay.unknown-stage'' stage None)
          | Some declared \<Rightarrow> eachE (\<lambda>slot.
              raise_if (es_key slot \<in> set declared)
                (Refused ''overlay.slot-collision'' (es_key slot) (Some stage))) slots)
          (po_stages x))"

fun check_edges_from ::
  "(string \<times> string list) list \<Rightarrow> (string \<times> string) list \<Rightarrow> transition_definition list \<Rightarrow> def_refusal + unit"
  where
  "check_edges_from slots seen [] = Inr ()"
| "check_edges_from slots seen (e # es) =
     bindE (eachE (\<lambda>name. raise_if (map_of slots name = None) (Refused ''graph.unknown-stage'' name None))
       [td_source e, td_destination e]) (\<lambda>_.
     bindE (raise_if (edge_pair e \<in> set seen)
       (Refused ''graph.duplicate-edge'' (td_destination e) (Some (td_source e)))) (\<lambda>_.
     bindE (raise_if (map_of slots (td_source e) \<noteq> Some (td_requires e))
       (Refused ''transition.divergent-requires'' (td_destination e) (Some (td_source e)))) (\<lambda>_.
     check_edges_from slots (edge_pair e # seen) es)))"

definition check_edges :: "workflow_definition \<Rightarrow> def_refusal + unit" where
  "check_edges d = check_edges_from (declared_slots d) [] (wd_transitions d)"

definition check_routes :: "workflow_definition \<Rightarrow> resolved_stage list \<Rightarrow> def_refusal + unit" where
  "check_routes d stages =
     eachE (\<lambda>s. eachE (\<lambda>(reason, target).
         raise_if (target \<notin> rs_name ` set stages)
           (Refused ''graph.unknown-route-target'' reason (Some (sd_name s)))) (sd_routes s))
       (wd_stages d)"

definition check_endpoints :: "workflow_definition \<Rightarrow> resolved_stage list \<Rightarrow> def_refusal + unit" where
  "check_endpoints d stages =
     raise_if (\<not> list_ex rs_terminal stages) (Refused ''graph.no-terminal-stage'' (wd_name d) None)"

definition entry_stages :: "workflow_definition \<Rightarrow> resolved_stage list \<Rightarrow> string list" where
  "entry_stages d stages =
     filter (\<lambda>n. n \<notin> td_destination ` set (wd_transitions d)) (map rs_name stages)"

definition initial_stage :: "workflow_definition \<Rightarrow> resolved_stage list \<Rightarrow> def_refusal + string" where
  "initial_stage d stages =
     (let entries = entry_stages d stages;
          shown = (if join '','' entries = [] then ''none'' else join '','' entries)
      in bindE (raise_if (length entries \<noteq> 1) (Refused ''graph.entry-stage'' shown None)) (\<lambda>_.
         Inr (hd entries)))"

definition visit_edges ::
  "transition_definition list \<Rightarrow> string \<Rightarrow> string set \<times> string list \<Rightarrow> string set \<times> string list" where
  "visit_edges es current =
     (\<lambda>state. foldl (\<lambda>(reached, pending) e.
        if td_source e = current \<and> td_destination e \<notin> reached
        then (insert (td_destination e) reached, pending @ [td_destination e])
        else (reached, pending)) state es)"

fun fresh_destinations :: "transition_definition list \<Rightarrow> string \<Rightarrow> string set \<Rightarrow> string list" where
  "fresh_destinations [] n r = []"
| "fresh_destinations (e # es) n r =
     (if td_source e = n \<and> td_destination e \<notin> r
      then td_destination e # fresh_destinations es n (insert (td_destination e) r)
      else fresh_destinations es n r)"

lemma visit_edges_fresh:
  "visit_edges es n (r, p) = (r \<union> set (fresh_destinations es n r), p @ fresh_destinations es n r)"
proof (induction es arbitrary: r p)
  case Nil
  then show ?case by (simp add: visit_edges_def)
next
  case (Cons e es)
  have "visit_edges (e # es) n (r, p) =
      visit_edges es n (if td_source e = n \<and> td_destination e \<notin> r
        then (insert (td_destination e) r, p @ [td_destination e]) else (r, p))"
    by (simp add: visit_edges_def)
  then show ?case using Cons by auto
qed

lemma fresh_destinations_set:
  "set (fresh_destinations es n r) = (edge_pair ` set es) `` {n} - r"
  by (induction es n r rule: fresh_destinations.induct) (auto simp: edge_pair_def)

lemma fresh_destinations_idle: "(edge_pair ` set es) `` {n} \<subseteq> r \<Longrightarrow> fresh_destinations es n r = []"
  using fresh_destinations_set [of es n r] by (metis Diff_eq_empty_iff set_empty)

lemma finite_pairs_remaining: "finite (td_destination ` set es - r)"
  by simp

function reach_loop :: "transition_definition list \<Rightarrow> string set \<Rightarrow> string list \<Rightarrow> string set" where
  "reach_loop es reached pending =
     (if pending = [] then reached
      else let (r, p) = visit_edges es (last pending) (reached, butlast pending)
           in reach_loop es r p)"
  by pat_completeness auto
termination
proof (relation "measures [\<lambda>(es, r, p). card (td_destination ` set es - r), \<lambda>(es, r, p). length p]")
  fix es reached and pending :: "string list" and x r p
  assume ne: "pending \<noteq> []" and x: "x = visit_edges es (last pending) (reached, butlast pending)"
    and rp: "(r, p) = x"
  let ?f = "fresh_destinations es (last pending) reached"
  have r: "r = reached \<union> set ?f" and p: "p = butlast pending @ ?f"
    using rp x by (simp_all add: visit_edges_fresh)
  show "((es, r, p), es, reached, pending) \<in>
      measures [\<lambda>(es, r, p). card (td_destination ` set es - r), \<lambda>(es, r, p). length p]"
  proof (cases "?f = []")
    case True
    then show ?thesis using r p ne by simp
  next
    case False
    then obtain d where "d \<in> set ?f" by (cases ?f) auto
    then have "d \<in> td_destination ` set es - reached"
      by (auto simp: fresh_destinations_set edge_pair_def)
    then have "td_destination ` set es - r \<subset> td_destination ` set es - reached"
      using r \<open>d \<in> set ?f\<close> by auto
    then have "card (td_destination ` set es - r) < card (td_destination ` set es - reached)"
      by (rule psubset_card_mono [OF finite_pairs_remaining])
    then show ?thesis by simp
  qed
qed simp

declare reach_loop.simps [simp del]

interpretation plan_reach: search "edge_pair ` set es" "\<lambda>p. {last p}" butlast
  "\<lambda>r p. visit_edges es (last p) (r, butlast p)" "reach_loop es"
  for es
proof
  fix r :: "string set" and p :: "string list"
  show "p \<noteq> [] \<Longrightarrow> set p = {last p} \<union> set (butlast p)"
    by (metis append_butlast_last_id empty_set list.simps(15) set_append sup_commute)
  show "p \<noteq> [] \<Longrightarrow> reach_loop es r p =
      reach_loop es (fst (visit_edges es (last p) (r, butlast p))) (snd (visit_edges es (last p) (r, butlast p)))"
    by (subst reach_loop.simps) (simp add: case_prod_beta)
  show "reach_loop es r [] = r" by (subst reach_loop.simps) simp
qed (auto simp: visit_edges_fresh fresh_destinations_set fresh_destinations_idle)

definition check_reachable ::
  "workflow_definition \<Rightarrow> resolved_stage list \<Rightarrow> string \<Rightarrow> def_refusal + unit" where
  "check_reachable d stages initial =
     (let reached = reach_loop (wd_transitions d) {initial} [initial]
      in eachE (\<lambda>s. raise_if (rs_name s \<notin> reached) (Refused ''graph.unreachable-stage'' (rs_name s) None))
           stages)"

definition resolve_definition ::
  "workflow_definition \<Rightarrow> string option \<Rightarrow> def_refusal + resolved_workflow" where
  "resolve_definition d project =
     (let ov = (case project of None \<Rightarrow> None | Some p \<Rightarrow> definition_overlay d p) in
      bindE (check_overlay d ov) (\<lambda>_.
      let outgoing = td_source ` set (wd_transitions d);
          stages = map (resolved_stage_of ov outgoing) (wd_stages d)
      in bindE (check_edges d) (\<lambda>_.
         bindE (check_routes d stages) (\<lambda>_.
         bindE (check_endpoints d stages) (\<lambda>_.
         bindE (initial_stage d stages) (\<lambda>initial.
         bindE (check_reachable d stages initial) (\<lambda>_.
         Inr \<lparr>rw_key = wd_name d, rw_revision = wd_revision d, rw_project = project,
              rw_groups = wd_groups d, rw_initial = initial, rw_stages = stages,
              rw_transitions = wd_transitions d\<rparr>)))))))"

section \<open>The normalized payload\<close>

definition normalized_stage :: "workflow_resolution \<Rightarrow> resolved_stage \<Rightarrow> def_refusal + json" where
  "normalized_stage z s =
     (case map_of (wz_activities z) (rs_name s) of
        None \<Rightarrow> Inl (Refused ''payload.activity-class'' (rs_name s) (Some (rs_name s)))
      | Some a \<Rightarrow>
          bindE (raise_if (rs_signing s = None)
            (Refused ''payload.signing-slot'' (rs_name s) (Some (rs_name s)))) (\<lambda>_.
          Inr (JObj [(''key'', JStr (rs_name s)), (''activity_class'', JStr (activity_value a))])))"

definition normalized_edge :: "workflow_resolution \<Rightarrow> transition_definition \<Rightarrow> def_refusal + json" where
  "normalized_edge z e =
     (case map_of (wz_predicates z) (edge_pair e) of
        None \<Rightarrow> Inl (Refused ''payload.transition-predicate'' (td_destination e) (Some (td_source e)))
      | Some p \<Rightarrow> Inr (JObj [(''from'', JStr (td_source e)), (''to'', JStr (td_destination e)),
                              (''predicate_ref'', JStr p)]))"

definition normalized_routes :: "workflow_resolution \<Rightarrow> resolved_stage \<Rightarrow> def_refusal + json list" where
  "normalized_routes z s =
     mapE (\<lambda>(reason, target).
       case map_of (wz_failures z) reason of
         None \<Rightarrow> Inl (Refused ''payload.failure-class'' reason (Some (rs_name s)))
       | Some c \<Rightarrow> Inr (JObj [(''from'', JStr (rs_name s)), (''failure_class_ref'', JStr c),
                               (''to'', JStr target)])) (rs_routes s)"

definition normalized_payload ::
  "resolved_workflow \<Rightarrow> workflow_resolution \<Rightarrow> def_refusal + members" where
  "normalized_payload r z =
     bindE (mapE (normalized_stage z) (rw_stages r)) (\<lambda>stages.
     bindE (mapE (normalized_edge z) (rw_transitions r)) (\<lambda>transitions.
     bindE (mapE (normalized_routes z) (rw_stages r)) (\<lambda>routes.
     Inr [(''schema'', JStr ''ctower.workflow/v1''), (''status'', JStr (wz_status z)),
          (''key'', JStr (rw_key r)), (''revision'', JInt (rw_revision r)),
          (''initial_stage'', JStr (rw_initial r)), (''input_contract'', JStr (wz_input z)),
          (''terminal_contract'', JStr (wz_terminal z)),
          (''policy_refs'', JObj [(''execution'', JStr (wz_execution z)), (''gates'', JStr (wz_gate z))]),
          (''stages'', JList stages), (''transitions'', JList transitions),
          (''failure_routes'', JList (concat routes)), (''note'', JStr (wz_note z))])))"

section \<open>When a definition resolves\<close>

lemma check_edges_from_Inr_iff:
  "check_edges_from slots seen es = Inr u \<longleftrightarrow>
     (\<forall>e \<in> set es. map_of slots (td_source e) = Some (td_requires e) \<and>
        map_of slots (td_destination e) \<noteq> None) \<and>
     distinct (map edge_pair es) \<and> edge_pair ` set es \<inter> set seen = {}"
  by (induction slots seen es rule: check_edges_from.induct) (auto simp: bindE_Inr_iff)

lemma check_overlay_Inr_iff:
  "check_overlay d ov = Inr u \<longleftrightarrow>
     (case ov of None \<Rightarrow> True | Some x \<Rightarrow> \<forall>(stage, slots) \<in> set (po_stages x).
        \<exists>declared. map_of (declared_slots d) stage = Some declared \<and>
          es_key ` set slots \<inter> set declared = {})"
proof (cases ov)
  case (Some x)
  have one: "(case map_of (declared_slots d) stage of
            None \<Rightarrow> Inl (Refused ''overlay.unknown-stage'' stage None)
          | Some declared \<Rightarrow> eachE (\<lambda>slot.
              raise_if (es_key slot \<in> set declared)
                (Refused ''overlay.slot-collision'' (es_key slot) (Some stage))) slots) = Inr ()
      \<longleftrightarrow> (\<exists>declared. map_of (declared_slots d) stage = Some declared \<and>
          es_key ` set slots \<inter> set declared = {})" for stage slots
    by (cases "map_of (declared_slots d) stage") (auto simp: eachE_Inr_iff)
  show ?thesis
    unfolding check_overlay_def Some option.case eachE_Inr_iff case_prod_beta one ..
qed (simp add: check_overlay_def)

lemma check_routes_Inr_iff:
  "check_routes d stages = Inr u \<longleftrightarrow>
     (\<forall>s \<in> set (wd_stages d). snd ` set (sd_routes s) \<subseteq> rs_name ` set stages)"
  by (simp add: check_routes_def eachE_Inr_iff case_prod_beta image_subset_iff)

lemma initial_stage_Inr_iff: "initial_stage d stages = Inr i \<longleftrightarrow> entry_stages d stages = [i]"
  by (cases "entry_stages d stages") (auto simp: initial_stage_def Let_def bindE_Inr_iff)

lemma check_reachable_Inr_iff:
  "check_reachable d stages i = Inr u \<longleftrightarrow>
     (\<forall>s \<in> set stages. (i, rs_name s) \<in> (edge_pair ` set (wd_transitions d))\<^sup>*)"
  by (auto simp: check_reachable_def Let_def eachE_Inr_iff plan_reach.loop_reachable)

text \<open>What gate 2 asks of a definition and one overlay, without the order of its checks.\<close>

definition overlay_for :: "workflow_definition \<Rightarrow> string option \<Rightarrow> project_overlay option" where
  "overlay_for d project = (case project of None \<Rightarrow> None | Some p \<Rightarrow> definition_overlay d p)"

definition overlay_extends :: "workflow_definition \<Rightarrow> project_overlay \<Rightarrow> bool" where
  "overlay_extends d ov \<longleftrightarrow> (\<forall>(stage, slots) \<in> set (po_stages ov).
     \<exists>declared. map_of (declared_slots d) stage = Some declared \<and> es_key ` set slots \<inter> set declared = {})"

definition edges_restate :: "workflow_definition \<Rightarrow> bool" where
  "edges_restate d \<longleftrightarrow> distinct (map edge_pair (wd_transitions d)) \<and>
     (\<forall>e \<in> set (wd_transitions d). map_of (declared_slots d) (td_source e) = Some (td_requires e) \<and>
        map_of (declared_slots d) (td_destination e) \<noteq> None)"

definition plan_graph_ok :: "workflow_definition \<Rightarrow> string \<Rightarrow> bool" where
  "plan_graph_ok d initial \<longleftrightarrow>
     filter (\<lambda>n. n \<notin> td_destination ` set (wd_transitions d)) (map sd_name (wd_stages d)) = [initial] \<and>
     (\<exists>s \<in> set (wd_stages d). sd_name s \<notin> td_source ` set (wd_transitions d)) \<and>
     (\<forall>s \<in> set (wd_stages d). snd ` set (sd_routes s) \<subseteq> sd_name ` set (wd_stages d)) \<and>
     (\<forall>s \<in> set (wd_stages d). (initial, sd_name s) \<in> (edge_pair ` set (wd_transitions d))\<^sup>*)"

lemma resolved_stage_of_simps [simp]:
  "rs_name (resolved_stage_of ov out s) = sd_name s"
  "rs_signing (resolved_stage_of ov out s) = sd_signs s"
  "rs_routes (resolved_stage_of ov out s) = sd_routes s"
  "rs_terminal (resolved_stage_of ov out s) \<longleftrightarrow> sd_name s \<notin> out"
  by (simp_all add: resolved_stage_of_def)

lemma map_rs_name: "map rs_name (map (resolved_stage_of ov out) ss) = map sd_name ss"
  by simp

lemma resolve_definition_Inr_iff:
  "resolve_definition d project = Inr r \<longleftrightarrow>
     (case overlay_for d project of None \<Rightarrow> True | Some ov \<Rightarrow> overlay_extends d ov) \<and>
     edges_restate d \<and> (\<exists>i. plan_graph_ok d i \<and>
     r = \<lparr>rw_key = wd_name d, rw_revision = wd_revision d, rw_project = project,
          rw_groups = wd_groups d, rw_initial = i,
          rw_stages = map (resolved_stage_of (overlay_for d project) (td_source ` set (wd_transitions d)))
            (wd_stages d),
          rw_transitions = wd_transitions d\<rparr>)"
proof -
  let ?stages = "map (resolved_stage_of (overlay_for d project) (td_source ` set (wd_transitions d))) (wd_stages d)"
  have graph: "entry_stages d ?stages = [i] \<and> list_ex rs_terminal ?stages \<and>
      (\<forall>s \<in> set (wd_stages d). snd ` set (sd_routes s) \<subseteq> rs_name ` set ?stages) \<and>
      (\<forall>s \<in> set ?stages. (i, rs_name s) \<in> (edge_pair ` set (wd_transitions d))\<^sup>*)
      \<longleftrightarrow> plan_graph_ok d i" for i
    unfolding plan_graph_ok_def entry_stages_def map_rs_name
    by (auto simp: list_ex_iff image_image)
  show ?thesis
    unfolding resolve_definition_def overlay_for_def [symmetric] Let_def bindE_Inr_iff
      check_overlay_Inr_iff check_edges_def check_edges_from_Inr_iff check_routes_Inr_iff
      check_endpoints_def raise_if_Inr_iff initial_stage_Inr_iff check_reachable_Inr_iff
      graph [symmetric] edges_restate_def overlay_extends_def not_not
    by (auto split: option.splits)
qed

section \<open>The strict parser reads what gate 3 renders\<close>

definition resolution_ok :: "workflow_resolution \<Rightarrow> bool" where
  "resolution_ok z \<longleftrightarrow>
     wz_status z \<in> {''draft'', ''staged'', ''published'', ''superseded'', ''revoked''} \<and>
     stable_key (wz_input z) \<and> stable_key (wz_terminal z) \<and>
     versioned_reference (wz_execution z) \<and> versioned_reference (wz_gate z) \<and> wz_note z \<noteq> [] \<and>
     list_all (\<lambda>(_, p). versioned_reference p) (wz_predicates z) \<and>
     list_all (\<lambda>(_, c). versioned_reference c) (wz_failures z)"

text \<open>The part of the authored contract's key classes the graph depends on.\<close>

definition definition_keys_ok :: "workflow_definition \<Rightarrow> bool" where
  "definition_keys_ok d \<longleftrightarrow>
     stable_key (wd_name d) \<and> 1 \<le> wd_revision d \<and>
     list_all (\<lambda>s. stable_key (sd_name s)) (wd_stages d) \<and> distinct (map sd_name (wd_stages d))"

lemma activity_of_value_value [simp]: "activity_of_value (activity_value a) = Inr a"
  by (simp add: activity_of_value_def activity_value_def split: activity_class.split)

lemmas member_eval = string_member_def member_def as_string_def require_keys_def

lemma parse_stage_eval:
  "stable_key k \<Longrightarrow>
     parse_stage ''ctower.workflow/v1'' [(''key'', JStr k), (''activity_class'', JStr (activity_value a))]
     = Inr \<lparr>st_key = k, st_activity = a, st_effects = []\<rparr>"
  by (simp add: parse_stage_def member_eval make_stage_def)

lemma parse_transition_eval:
  "stable_key a \<Longrightarrow> stable_key b \<Longrightarrow> versioned_reference p \<Longrightarrow>
     parse_transition [(''from'', JStr a), (''to'', JStr b), (''predicate_ref'', JStr p)]
     = Inr \<lparr>tr_source = a, tr_destination = b, tr_predicate = p\<rparr>"
  by (simp add: parse_transition_def member_eval make_transition_def)

lemma validate_failure_route_eval:
  "stable_key a \<Longrightarrow> stable_key b \<Longrightarrow> versioned_reference c \<Longrightarrow>
     validate_failure_route [(''from'', JStr a), (''failure_class_ref'', JStr c), (''to'', JStr b)] = Inr ()"
  by (simp add: validate_failure_route_def member_eval)

text \<open>The stage and the edge that a resolution gives to a stage name and to a declared edge.\<close>

definition parsed_stage :: "workflow_resolution \<Rightarrow> string \<Rightarrow> stage" where
  "parsed_stage z n = \<lparr>st_key = n, st_activity = the (map_of (wz_activities z) n), st_effects = []\<rparr>"

definition parsed_edge :: "workflow_resolution \<Rightarrow> transition_definition \<Rightarrow> transition" where
  "parsed_edge z e = \<lparr>tr_source = td_source e, tr_destination = td_destination e,
     tr_predicate = the (map_of (wz_predicates z) (edge_pair e))\<rparr>"

lemma normalized_stage_parses:
  assumes "normalized_stage z s = Inr j" and "stable_key (rs_name s)"
  shows "\<exists>ms. j = JObj ms \<and> parse_stage ''ctower.workflow/v1'' ms = Inr (parsed_stage z (rs_name s)) \<and>
     rs_name s \<in> dom (map_of (wz_activities z))"
proof -
  obtain a where "map_of (wz_activities z) (rs_name s) = Some a"
      "j = JObj [(''key'', JStr (rs_name s)), (''activity_class'', JStr (activity_value a))]"
    using assms(1) by (auto simp: normalized_stage_def bindE_Inr_iff split: option.splits)
  with parse_stage_eval [OF assms(2), of a] show ?thesis by (simp add: parsed_stage_def dom_def)
qed

lemma normalized_stages_parse:
  assumes "mapE (normalized_stage z) ss = Inr js" and "list_all (\<lambda>s. stable_key (rs_name s)) ss"
  shows "\<exists>mss gs. js = map JObj mss \<and> mapE (parse_stage ''ctower.workflow/v1'') mss = Inr gs \<and>
     gs = map (\<lambda>s. parsed_stage z (rs_name s)) ss \<and>
     list_all (\<lambda>s. rs_name s \<in> dom (map_of (wz_activities z))) ss"
  using assms
proof (induction ss arbitrary: js)
  case Nil
  then show ?case by simp
next
  case (Cons s ss)
  from Cons.prems(1) obtain j js' where j: "normalized_stage z s = Inr j" "mapE (normalized_stage z) ss = Inr js'"
      "js = j # js'"
    by (auto simp: bindE_Inr_iff)
  obtain mss gs where ih: "js' = map JObj mss" "mapE (parse_stage ''ctower.workflow/v1'') mss = Inr gs"
      "gs = map (\<lambda>s. parsed_stage z (rs_name s)) ss" "list_all (\<lambda>s. rs_name s \<in> dom (map_of (wz_activities z))) ss"
    using Cons.IH [OF j(2)] Cons.prems(2) by auto
  obtain ms where "j = JObj ms" "parse_stage ''ctower.workflow/v1'' ms = Inr (parsed_stage z (rs_name s))"
      "rs_name s \<in> dom (map_of (wz_activities z))"
    using normalized_stage_parses [OF j(1)] Cons.prems(2) by auto
  with ih j(3) show ?case
    by (intro exI [of _ "ms # mss"] exI [of _ "parsed_stage z (rs_name s) # gs"]) simp
qed

lemma normalized_edge_parses:
  assumes "normalized_edge z e = Inr j" and "stable_key (td_source e)" and "stable_key (td_destination e)"
    and "list_all (\<lambda>(_, p). versioned_reference p) (wz_predicates z)"
  shows "\<exists>ms. j = JObj ms \<and> parse_transition ms = Inr (parsed_edge z e) \<and>
     edge_pair e \<in> dom (map_of (wz_predicates z))"
proof -
  obtain p where p: "map_of (wz_predicates z) (edge_pair e) = Some p"
      "j = JObj [(''from'', JStr (td_source e)), (''to'', JStr (td_destination e)), (''predicate_ref'', JStr p)]"
    using assms(1) by (auto simp: normalized_edge_def split: option.splits)
  have "versioned_reference p"
    using assms(4) map_of_SomeD [OF p(1)] by (auto simp: list_all_iff)
  from parse_transition_eval [OF assms(2,3) this] p show ?thesis by (simp add: parsed_edge_def dom_def)
qed

lemma normalized_edges_parse:
  assumes "mapE (normalized_edge z) es = Inr js"
    and "list_all (\<lambda>e. stable_key (td_source e) \<and> stable_key (td_destination e)) es"
    and "list_all (\<lambda>(_, p). versioned_reference p) (wz_predicates z)"
  shows "\<exists>mss ts. js = map JObj mss \<and> mapE parse_transition mss = Inr ts \<and>
     ts = map (parsed_edge z) es \<and> list_all (\<lambda>e. edge_pair e \<in> dom (map_of (wz_predicates z))) es"
  using assms(1,2)
proof (induction es arbitrary: js)
  case Nil
  then show ?case by simp
next
  case (Cons e es)
  from Cons.prems(1) obtain j js' where j: "normalized_edge z e = Inr j" "mapE (normalized_edge z) es = Inr js'"
      "js = j # js'"
    by (auto simp: bindE_Inr_iff)
  obtain mss ts where ih: "js' = map JObj mss" "mapE parse_transition mss = Inr ts"
      "ts = map (parsed_edge z) es" "list_all (\<lambda>e. edge_pair e \<in> dom (map_of (wz_predicates z))) es"
    using Cons.IH [OF j(2)] Cons.prems(2) by auto
  obtain ms where "j = JObj ms" "parse_transition ms = Inr (parsed_edge z e)"
      "edge_pair e \<in> dom (map_of (wz_predicates z))"
    using normalized_edge_parses [OF j(1) _ _ assms(3)] Cons.prems(2) by auto
  with ih j(3) show ?case
    by (intro exI [of _ "ms # mss"] exI [of _ "parsed_edge z e # ts"]) simp
qed

lemma normalized_route_ok:
  assumes "normalized_routes z s = Inr js" and "stable_key (rs_name s)"
    and "list_all (\<lambda>(_, target). stable_key target) (rs_routes s)"
    and "list_all (\<lambda>(_, c). versioned_reference c) (wz_failures z)"
  shows "\<exists>mss. js = map JObj mss \<and> list_all (\<lambda>ms. validate_failure_route ms = Inr ()) mss"
proof -
  let ?row = "\<lambda>(reason, target). case map_of (wz_failures z) reason of
         None \<Rightarrow> Inl (Refused ''payload.failure-class'' reason (Some (rs_name s)))
       | Some c \<Rightarrow> Inr (JObj [(''from'', JStr (rs_name s)), (''failure_class_ref'', JStr c),
                               (''to'', JStr target)])"
  have row: "\<exists>ms. j = JObj ms \<and> validate_failure_route ms = Inr ()"
    if row: "?row rt = Inr j" and key: "stable_key (snd rt)" for rt j
  proof -
    obtain c where c: "map_of (wz_failures z) (fst rt) = Some c"
        "j = JObj [(''from'', JStr (rs_name s)), (''failure_class_ref'', JStr c), (''to'', JStr (snd rt))]"
      using row by (cases "map_of (wz_failures z) (fst rt)") (simp_all add: case_prod_beta)
    have "versioned_reference c"
      using assms(4) map_of_SomeD [OF c(1)] by (auto simp: list_all_iff)
    from validate_failure_route_eval [OF assms(2) key this] c(2) show ?thesis by simp
  qed
  have "mapE ?row rts = Inr js \<Longrightarrow> list_all (\<lambda>(_, target). stable_key target) rts \<Longrightarrow>
      \<exists>mss. js = map JObj mss \<and> list_all (\<lambda>ms. validate_failure_route ms = Inr ()) mss" for rts
  proof (induction rts arbitrary: js)
    case Nil
    then show ?case by simp
  next
    case (Cons rt rts)
    obtain j js' where j: "?row rt = Inr j" "mapE ?row rts = Inr js'" "js = j # js'"
      using Cons.prems(1) unfolding mapE.simps bindE_Inr_iff by auto
    obtain mss where "js' = map JObj mss" "list_all (\<lambda>ms. validate_failure_route ms = Inr ()) mss"
      using Cons.IH [OF j(2)] Cons.prems(2) by auto
    moreover obtain ms where "j = JObj ms" "validate_failure_route ms = Inr ()"
      using row [OF j(1)] Cons.prems(2) by (auto split: prod.splits)
    ultimately show ?case using j(3) by (intro exI [of _ "ms # mss"]) simp
  qed
  from this [of "rs_routes s"] assms(1,3) show ?thesis by (simp add: normalized_routes_def)
qed

lemma normalized_all_routes_ok:
  assumes "mapE (normalized_routes z) ss = Inr jss" and "list_all (\<lambda>s. stable_key (rs_name s)) ss"
    and "list_all (\<lambda>s. list_all (\<lambda>(_, target). stable_key target) (rs_routes s)) ss"
    and "list_all (\<lambda>(_, c). versioned_reference c) (wz_failures z)"
  shows "\<exists>mss. concat jss = map JObj mss \<and> list_all (\<lambda>ms. validate_failure_route ms = Inr ()) mss"
  using assms(1-3)
proof (induction ss arbitrary: jss)
  case Nil
  then show ?case by simp
next
  case (Cons s ss)
  obtain js jss' where j: "normalized_routes z s = Inr js" "mapE (normalized_routes z) ss = Inr jss'"
      "jss = js # jss'"
    using Cons.prems(1) by (auto simp: bindE_Inr_iff)
  obtain mss where "js = map JObj mss" "list_all (\<lambda>ms. validate_failure_route ms = Inr ()) mss"
    using normalized_route_ok [OF j(1) _ _ assms(4)] Cons.prems(2,3) by auto
  moreover obtain mss' where "concat jss' = map JObj mss'" "list_all (\<lambda>ms. validate_failure_route ms = Inr ()) mss'"
    using Cons.IH [OF j(2)] Cons.prems(2,3) by auto
  ultimately show ?case using j(3) by (intro exI [of _ "mss @ mss'"]) simp
qed

definition rendered ::
  "resolved_workflow \<Rightarrow> workflow_resolution \<Rightarrow> json list \<Rightarrow> json list \<Rightarrow> json list \<Rightarrow> members" where
  "rendered r z stages transitions routes =
     [(''schema'', JStr ''ctower.workflow/v1''), (''status'', JStr (wz_status z)),
      (''key'', JStr (rw_key r)), (''revision'', JInt (rw_revision r)),
      (''initial_stage'', JStr (rw_initial r)), (''input_contract'', JStr (wz_input z)),
      (''terminal_contract'', JStr (wz_terminal z)),
      (''policy_refs'', JObj [(''execution'', JStr (wz_execution z)), (''gates'', JStr (wz_gate z))]),
      (''stages'', JList stages), (''transitions'', JList transitions),
      (''failure_routes'', JList routes), (''note'', JStr (wz_note z))]"

lemma normalized_payload_Inr_iff:
  "normalized_payload r z = Inr p \<longleftrightarrow>
     (\<exists>stages transitions routes. mapE (normalized_stage z) (rw_stages r) = Inr stages \<and>
        mapE (normalized_edge z) (rw_transitions r) = Inr transitions \<and>
        mapE (normalized_routes z) (rw_stages r) = Inr routes \<and>
        p = rendered r z stages transitions (concat routes))"
  by (auto simp: normalized_payload_def bindE_Inr_iff rendered_def)

lemma as_objects_eval [simp]: "as_objects (JList (map JObj mss)) l = Inr mss"
  by simp

lemma rendered_members [simp]:
  "map_of (rendered r z ss ts rs) ''schema'' = Some (JStr ''ctower.workflow/v1'')"
  "map_of (rendered r z ss ts rs) ''status'' = Some (JStr (wz_status z))"
  "map_of (rendered r z ss ts rs) ''key'' = Some (JStr (rw_key r))"
  "map_of (rendered r z ss ts rs) ''revision'' = Some (JInt (rw_revision r))"
  "map_of (rendered r z ss ts rs) ''initial_stage'' = Some (JStr (rw_initial r))"
  "map_of (rendered r z ss ts rs) ''input_contract'' = Some (JStr (wz_input z))"
  "map_of (rendered r z ss ts rs) ''terminal_contract'' = Some (JStr (wz_terminal z))"
  "map_of (rendered r z ss ts rs) ''policy_refs'' =
     Some (JObj [(''execution'', JStr (wz_execution z)), (''gates'', JStr (wz_gate z))])"
  "map_of (rendered r z ss ts rs) ''stages'' = Some (JList ss)"
  "map_of (rendered r z ss ts rs) ''transitions'' = Some (JList ts)"
  "map_of (rendered r z ss ts rs) ''failure_routes'' = Some (JList rs)"
  "map_of (rendered r z ss ts rs) ''note'' = Some (JStr (wz_note z))"
  by (simp_all add: rendered_def)

lemma rendered_keys: "require_keys (rendered r z ss ts rs) workflow_fields = Inr ()"
  by (simp add: rendered_def workflow_fields_def)

lemma rendered_metadata:
  assumes "resolution_ok z" and "list_all (\<lambda>ms. validate_failure_route ms = Inr ()) mss"
  shows "validate_metadata (rendered r z ss ts (map JObj mss)) = Inr ''ctower.workflow/v1''"
proof -
  have "eachE validate_failure_route mss = Inr ()"
    using assms(2) by (simp add: eachE_Inr_iff list_all_iff)
  then show ?thesis
    using assms(1)
    by (simp add: validate_metadata_def string_member_def member_def as_string_def as_object_def
        status_check_def resolution_ok_def require_keys_def)
qed

lemma rendered_parses:
  assumes "resolution_ok z"
    and routes: "list_all (\<lambda>ms. validate_failure_route ms = Inr ()) rss"
    and stages: "mapE (parse_stage ''ctower.workflow/v1'') mss = Inr gs"
    and edges: "mapE parse_transition nss = Inr ts"
    and checked: "graph_checked g"
    and g: "g = \<lparr>wg_key = rw_key r, wg_revision = rw_revision r, wg_initial = rw_initial r,
      wg_stages = gs, wg_transitions = ts, wg_execution = Some (wz_execution z),
      wg_gates = Some (wz_gate z), wg_schema = ''ctower.workflow/v1''\<rparr>"
  shows "from_mapping (rendered r z (map JObj mss) (map JObj nss) (map JObj rss)) = Inr g"
proof -
  have "make_graph g = Inr g" using checked by (simp add: make_graph_Inr_iff)
  then show ?thesis
    unfolding from_mapping_def rendered_keys bindE_simps rendered_metadata [OF assms(1) routes]
    using stages edges
    by (simp add: member_def string_member_def as_string_def as_object_def as_integer_def g)
qed

lemma declared_slots_distinct:
  "distinct (map sd_name (wd_stages d)) \<Longrightarrow>
     declared_slots d = map (\<lambda>s. (sd_name s, slot_keys s)) (wd_stages d)"
  by (simp add: declared_slots_def dict_of_distinct o_def)

lemma declared_name:
  "distinct (map sd_name (wd_stages d)) \<Longrightarrow> map_of (declared_slots d) n \<noteq> None \<longleftrightarrow> n \<in> sd_name ` set (wd_stages d)"
  by (simp add: declared_slots_distinct map_of_eq_None_iff image_image)

lemma plan_initial: "plan_graph_ok d i \<Longrightarrow> i \<in> sd_name ` set (wd_stages d)"
  by (auto simp: plan_graph_ok_def dest!: arg_cong [of _ _ set])

lemma resolved_graph_checked:
  assumes "edges_restate d" and "plan_graph_ok d i" and "definition_keys_ok d" and "resolution_ok z"
    and "map st_key gs = map sd_name (wd_stages d)" and "map edge_of ts = map edge_pair (wd_transitions d)"
  shows "graph_checked \<lparr>wg_key = wd_name d, wg_revision = wd_revision d, wg_initial = i,
      wg_stages = gs, wg_transitions = ts, wg_execution = Some (wz_execution z),
      wg_gates = Some (wz_gate z), wg_schema = ''ctower.workflow/v1''\<rparr>" (is "graph_checked ?g")
proof -
  have dist: "distinct (map sd_name (wd_stages d))" using assms(3) by (simp add: definition_keys_ok_def)
  have keys: "stage_keys ?g = sd_name ` set (wd_stages d)"
    using assms(5) by (simp add: stage_keys_def) (metis image_set)
  have "gs \<noteq> []" using plan_initial [OF assms(2)] assms(5) by auto
  moreover have "tr_source t \<in> stage_keys ?g \<and> tr_destination t \<in> stage_keys ?g" if "t \<in> set ts" for t
  proof -
    have "edge_of t \<in> edge_pair ` set (wd_transitions d)"
      using that assms(6) by (metis image_eqI image_set)
    then obtain e where e: "e \<in> set (wd_transitions d)" "edge_of t = edge_pair e" by auto
    then have "map_of (declared_slots d) (tr_source t) \<noteq> None" "map_of (declared_slots d) (tr_destination t) \<noteq> None"
      using assms(1) by (auto simp: edges_restate_def edge_of_def edge_pair_def)
    then show ?thesis unfolding keys declared_name [OF dist] ..
  qed
  ultimately show ?thesis
    using assms dist plan_initial [OF assms(2)] keys
    by (auto simp: graph_checked_def definition_keys_ok_def resolution_ok_def edges_restate_def
        optional_versioned_def list_all_iff)
qed

text \<open>The graph a definition, its initial stage and a resolution stand for, field by field.\<close>

definition resolved_graph :: "workflow_definition \<Rightarrow> string \<Rightarrow> workflow_resolution \<Rightarrow> workflow_graph" where
  "resolved_graph d i z =
     \<lparr>wg_key = wd_name d, wg_revision = wd_revision d, wg_initial = i,
      wg_stages = map (\<lambda>s. parsed_stage z (sd_name s)) (wd_stages d),
      wg_transitions = map (parsed_edge z) (wd_transitions d),
      wg_execution = Some (wz_execution z), wg_gates = Some (wz_gate z), wg_schema = ''ctower.workflow/v1''\<rparr>"

lemma resolved_payload_graph:
  assumes resolve: "resolve_definition d project = Inr r" and render: "normalized_payload r z = Inr payload"
    and keys: "definition_keys_ok d" and z: "resolution_ok z"
  shows "from_mapping payload = Inr (resolved_graph d (rw_initial r) z) \<and>
    graph_reference (resolved_graph d (rw_initial r) z) = definition_reference d \<and>
    (\<forall>s \<in> set (wd_stages d). sd_name s \<in> dom (map_of (wz_activities z))) \<and>
    (\<forall>e \<in> set (wd_transitions d). edge_pair e \<in> dom (map_of (wz_predicates z)))"
proof -
  obtain i where restate: "edges_restate d" and plan: "plan_graph_ok d i"
    and r: "rw_key r = wd_name d" "rw_revision r = wd_revision d" "rw_initial r = i"
      "rw_transitions r = wd_transitions d"
      "rw_stages r = map (resolved_stage_of (overlay_for d project) (td_source ` set (wd_transitions d))) (wd_stages d)"
    using resolve by (auto simp: resolve_definition_Inr_iff)
  obtain stages edges routes where p:
      "mapE (normalized_stage z) (rw_stages r) = Inr stages"
      "mapE (normalized_edge z) (rw_transitions r) = Inr edges"
      "mapE (normalized_routes z) (rw_stages r) = Inr routes"
      "payload = rendered r z stages edges (concat routes)"
    using render by (auto simp: normalized_payload_Inr_iff)
  have stable: "stable_key n" if "n \<in> sd_name ` set (wd_stages d)" for n
    using keys that by (auto simp: definition_keys_ok_def list_all_iff)
  have ends: "td_source e \<in> sd_name ` set (wd_stages d) \<and> td_destination e \<in> sd_name ` set (wd_stages d)"
    if "e \<in> set (wd_transitions d)" for e
    using restate keys that declared_name [of d "td_source e"] declared_name [of d "td_destination e"]
    by (auto simp: edges_restate_def definition_keys_ok_def)
  obtain mss gs where s: "stages = map JObj mss" "mapE (parse_stage ''ctower.workflow/v1'') mss = Inr gs"
      "gs = map (\<lambda>s. parsed_stage z (sd_name s)) (wd_stages d)"
      "\<forall>s \<in> set (wd_stages d). sd_name s \<in> dom (map_of (wz_activities z))"
    using normalized_stages_parse [OF p(1)] stable by (auto simp: r(5) list_all_iff o_def)
  obtain nss ts where e: "edges = map JObj nss" "mapE parse_transition nss = Inr ts"
      "ts = map (parsed_edge z) (wd_transitions d)"
      "\<forall>e \<in> set (wd_transitions d). edge_pair e \<in> dom (map_of (wz_predicates z))"
    using normalized_edges_parse [OF p(2)] ends stable z
    by (auto simp: r(4) list_all_iff resolution_ok_def)
  have targets: "snd ` set (sd_routes s) \<subseteq> sd_name ` set (wd_stages d)" if "s \<in> set (wd_stages d)" for s
    using plan that by (auto simp: plan_graph_ok_def)
  have route_keys: "list_all (\<lambda>s. list_all (\<lambda>(_, target). stable_key target) (rs_routes s)) (rw_stages r)"
    unfolding list_all_iff r(5) using targets stable by (fastforce simp: image_subset_iff)
  obtain rss where t: "concat routes = map JObj rss" "list_all (\<lambda>ms. validate_failure_route ms = Inr ()) rss"
    using normalized_all_routes_ok [OF p(3) _ route_keys] z stable
    by (auto simp: r(5) list_all_iff resolution_ok_def)
  have names: "map st_key gs = map sd_name (wd_stages d)" "map edge_of ts = map edge_pair (wd_transitions d)"
    by (simp_all add: s(3) e(3) parsed_stage_def parsed_edge_def edge_of_def edge_pair_def)
  show ?thesis
    using rendered_parses [OF z t(2) s(2) e(2) resolved_graph_checked [OF restate plan keys z names]] s(4) e(4)
    unfolding p(4) s(1) e(1) t(1)
    by (simp add: r s(3) e(3) resolved_graph_def graph_reference_def definition_reference_def)
qed

section \<open>Properties\<close>

definition example_slot :: "string \<Rightarrow> evidence_slot" where
  "example_slot k = \<lparr>es_key = k, es_assertions = [(''exists'', AFlag True)]\<rparr>"

definition example_stage :: "string \<Rightarrow> string list \<Rightarrow> (string \<times> string) list \<Rightarrow> stage_definition" where
  "example_stage name keys routes =
     \<lparr>sd_name = name, sd_owner = ''lead'', sd_evidence = map example_slot keys, sd_group = None,
      sd_signs = Some (hd keys), sd_gate = None, sd_skip = None, sd_routes = routes\<rparr>"

definition example_definition :: workflow_definition where
  "example_definition =
     \<lparr>wd_name = ''repair'', wd_company = ''acme'', wd_revision = 1, wd_signed_by = ''owner'', wd_groups = [],
      wd_stages = [example_stage ''plan'' [''brief''] [], example_stage ''review'' [''verdict''] [(''rejected'', ''plan'')]],
      wd_transitions = [\<lparr>td_source = ''plan'', td_destination = ''review'', td_requires = [''brief'']\<rparr>],
      wd_overlays = [\<lparr>po_project = ''site'', po_stages = [(''review'', [example_slot ''audit''])]\<rparr>]\<rparr>"

definition example_resolution :: workflow_resolution where
  "example_resolution =
     \<lparr>wz_activities = [(''plan'', WorkActivity), (''review'', VerificationActivity)],
      wz_predicates = [((''plan'', ''review''), ''ready@1'')], wz_failures = [(''rejected'', ''rework@1'')],
      wz_input = ''ticket'', wz_terminal = ''closed'', wz_execution = ''exec@1'', wz_gate = ''gates@1'',
      wz_status = ''draft'', wz_note = ''n''\<rparr>"

text \<open>
  C5. Gate 2 accepts a definition for a project exactly when the matching overlay only adds new
  slots to declared stages, every edge joins declared stages, is unique and restates its source
  stage's base slots, every failure route targets a declared stage, some stage is terminal, exactly
  one stage has no incoming edge, and every stage is connected to that one by the declared edges;
  the resolved graph is then the definition's own, its terminal flags and slot lists included.
\<close>

theorem resolve_definition_exact:
  "resolve_definition d project = Inr r \<longleftrightarrow>
     (overlay_for d project = None \<or> overlay_extends d (the (overlay_for d project))) \<and>
     edges_restate d \<and> (\<exists>i. plan_graph_ok d i \<and>
     r = \<lparr>rw_key = wd_name d, rw_revision = wd_revision d, rw_project = project,
          rw_groups = wd_groups d, rw_initial = i,
          rw_stages = map (resolved_stage_of (overlay_for d project) (td_source ` set (wd_transitions d)))
            (wd_stages d),
          rw_transitions = wd_transitions d\<rparr>)"
  unfolding resolve_definition_Inr_iff by (cases "overlay_for d project") simp_all

text \<open>
  C6. Gate 3 renders only what the strict parser reads back: when a definition with stable keys
  resolves and its resolution supplies well-shaped facts, the rendered payload parses, under the
  reference of the definition, to exactly the graph that definition and resolution stand for: its
  key and revision, its initial stage, its stages in order with the activity class the resolution
  gives each, its edges in order with the predicate the resolution gives each, the execution and
  the gate policy each in its own place, and the schema. Every stage and every edge has such an
  activity and such a predicate.
\<close>

theorem rendered_payload_parses:
  assumes "resolve_definition d project = Inr r" and "normalized_payload r z = Inr payload"
    and "definition_keys_ok d" and "resolution_ok z"
  shows "from_mapping payload = Inr (resolved_graph d (rw_initial r) z) \<and>
    graph_reference (resolved_graph d (rw_initial r) z) = definition_reference d \<and>
    (\<forall>s \<in> set (wd_stages d). sd_name s \<in> dom (map_of (wz_activities z))) \<and>
    (\<forall>e \<in> set (wd_transitions d). edge_pair e \<in> dom (map_of (wz_predicates z)))"
  by (rule resolved_payload_graph [OF assms])

lemma example_resolves:
  "is_ok (resolve_definition example_definition (Some ''site''))"
  "is_ok (bindE (resolve_definition example_definition (Some ''site''))
     (\<lambda>r. normalized_payload r example_resolution))"
  "definition_keys_ok example_definition" "resolution_ok example_resolution"
  by code_simp+

lemma example_initial:
  "(case resolve_definition example_definition (Some ''site'') of Inr r \<Rightarrow> rw_initial r = ''plan'' | Inl _ \<Rightarrow> False)"
  by code_simp

lemma rendered_payload_parses_witness:
  "\<exists>r payload. resolve_definition example_definition (Some ''site'') = Inr r \<and>
     normalized_payload r example_resolution = Inr payload \<and>
     from_mapping payload = Inr
       \<lparr>wg_key = ''repair'', wg_revision = 1, wg_initial = ''plan'',
        wg_stages = [\<lparr>st_key = ''plan'', st_activity = WorkActivity, st_effects = []\<rparr>,
          \<lparr>st_key = ''review'', st_activity = VerificationActivity, st_effects = []\<rparr>],
        wg_transitions = [\<lparr>tr_source = ''plan'', tr_destination = ''review'', tr_predicate = ''ready@1''\<rparr>],
        wg_execution = Some ''exec@1'', wg_gates = Some ''gates@1'', wg_schema = ''ctower.workflow/v1''\<rparr>"
proof -
  obtain r payload where r: "resolve_definition example_definition (Some ''site'') = Inr r"
      and p: "normalized_payload r example_resolution = Inr payload"
    using example_resolves(2) by (auto simp: is_ok_iff bindE_Inr_iff)
  have "rw_initial r = ''plan''"
    using r example_initial by (simp add: is_ok_iff)
  with rendered_payload_parses [OF r p example_resolves(3,4), THEN conjunct1] r p show ?thesis
    by (intro exI [of _ r] exI [of _ payload])
      (simp add: resolved_graph_def parsed_stage_def parsed_edge_def edge_pair_def example_definition_def
        example_resolution_def example_stage_def)
qed

end
