(* ===== verification/WorkflowSource.thy ===== *)
theory WorkflowSource
  imports WorkflowDefinition
begin

text \<open>
  \<open>ctower_kernel/workflow/_definition_source.py\<close> and \<open>_definition_export.py\<close>: the walk over the
  YAML event stream that bounds a document and refuses unsafe constructs, the typing of a decoded
  document, the source rules the schema cannot state, and the canonical export. The YAML reader
  and the JSON-schema validator are parameters. The lemmas give the exact condition of each check
  and show that an exported definition reads back as itself.
\<close>

section \<open>The event walk\<close>

datatype event_kind = CollectionStart | CollectionEnd | OtherEvent

record yaml_event =
  ye_kind :: event_kind
  ye_alias :: bool
  ye_anchor :: "string option"
  ye_tag :: "string option"
  ye_value :: "string option"

definition max_source_nodes :: nat where "max_source_nodes = 20000"
definition max_source_depth :: int where "max_source_depth = 32"
definition max_source_bytes :: nat where "max_source_bytes = 256 * 1024"

definition reject_unsafe :: "yaml_event \<Rightarrow> def_refusal + unit" where
  "reject_unsafe ev =
     bindE (raise_if (ye_alias ev \<or> ye_anchor ev \<noteq> None)
       (Refused ''source.anchor'' ''alias-or-anchor'' None)) (\<lambda>_.
     bindE (raise_if (ye_tag ev \<noteq> None) (Refused ''source.tag'' ''custom-tag'' None)) (\<lambda>_.
     raise_if (ye_value ev = Some ''<<'') (Refused ''source.merge-key'' ''<<'' None)))"

definition depth_delta :: "yaml_event \<Rightarrow> int" where
  "depth_delta ev = (case ye_kind ev of CollectionStart \<Rightarrow> 1 | CollectionEnd \<Rightarrow> - 1 | OtherEvent \<Rightarrow> 0)"

fun inspect_from :: "nat \<Rightarrow> int \<Rightarrow> yaml_event list \<Rightarrow> def_refusal + unit" where
  "inspect_from count depth [] = Inr ()"
| "inspect_from count depth (ev # evs) =
     bindE (raise_if (Suc count > max_source_nodes) (Refused ''source.bounds'' ''document-nodes'' None)) (\<lambda>_.
     bindE (reject_unsafe ev) (\<lambda>_.
     bindE (raise_if (depth + depth_delta ev > max_source_depth)
       (Refused ''source.bounds'' ''document-depth'' None)) (\<lambda>_.
     inspect_from (Suc count) (depth + depth_delta ev) evs)))"

definition inspect_events :: "yaml_event list \<Rightarrow> def_refusal + unit" where
  "inspect_events evs = inspect_from 0 0 evs"

definition safe_event :: "yaml_event \<Rightarrow> bool" where
  "safe_event ev \<longleftrightarrow> \<not> ye_alias ev \<and> ye_anchor ev = None \<and> ye_tag ev = None \<and> ye_value ev \<noteq> Some ''<<''"

lemma reject_unsafe_Inr_iff [chk]: "reject_unsafe ev = Inr u \<longleftrightarrow> safe_event ev"
  by (auto simp: reject_unsafe_def safe_event_def bindE_Inr_iff)

lemma inspect_from_Inr_iff:
  "inspect_from count depth evs = Inr u \<longleftrightarrow>
     (evs = [] \<or> count + length evs \<le> max_source_nodes) \<and> list_all safe_event evs \<and>
     (\<forall>n \<in> {1..length evs}. depth + sum_list (map depth_delta (take n evs)) \<le> max_source_depth)"
proof (induction count depth evs rule: inspect_from.induct)
  case (1 count depth)
  then show ?case by simp
next
  case (2 count depth ev evs)
  let ?d = "depth + depth_delta ev"
  have prefix: "(\<forall>n \<in> {1..length (ev # evs)}. depth + sum_list (map depth_delta (take n (ev # evs))) \<le> max_source_depth)
      \<longleftrightarrow> ?d \<le> max_source_depth \<and>
        (\<forall>n \<in> {1..length evs}. ?d + sum_list (map depth_delta (take n evs)) \<le> max_source_depth)" (is "?l \<longleftrightarrow> ?r")
  proof
    assume l: ?l
    have "?d + sum_list (map depth_delta (take n evs)) \<le> max_source_depth" if "n \<le> length evs" for n
      using bspec [OF l, of "Suc n"] that by (simp add: add.assoc)
    from this [of 0] this show ?r by simp
  next
    assume r: ?r
    show ?l
    proof
      fix n
      assume "n \<in> {1..length (ev # evs)}"
      then obtain m where "n = Suc m" "m \<le> length evs" by (cases n) auto
      with r show "depth + sum_list (map depth_delta (take n (ev # evs))) \<le> max_source_depth"
        by (cases m) (auto simp: add.assoc)
    qed
  qed
  show ?case unfolding prefix
    using "2.IH" by (auto simp: bindE_Inr_iff chk not_less Suc_le_eq)
qed

section \<open>Typing a decoded document\<close>

text \<open>
  The readers are casts: they rely on the schema the document has passed. The model is undefined
  (\<open>None\<close>) where a member the schema requires is missing or of another type.
\<close>

definition traverse :: "('a \<Rightarrow> 'b option) \<Rightarrow> 'a list \<Rightarrow> 'b list option" where
  "traverse f xs = those (map f xs)"

fun read_text :: "json \<Rightarrow> string option" where
  "read_text (JStr s) = Some s" | "read_text _ = None"

fun read_int :: "json \<Rightarrow> int option" where
  "read_int (JInt i) = Some i" | "read_int _ = None"

fun read_mapping :: "json \<Rightarrow> members option" where
  "read_mapping (JObj ms) = Some ms" | "read_mapping _ = None"

fun read_sequence :: "json \<Rightarrow> json list option" where
  "read_sequence (JList vs) = Some vs" | "read_sequence _ = None"

definition read_member :: "(json \<Rightarrow> 'a option) \<Rightarrow> members \<Rightarrow> string \<Rightarrow> 'a option" where
  "read_member f ms k = Option.bind (map_of ms k) f"

definition read_optional :: "members \<Rightarrow> string \<Rightarrow> string option option" where
  "read_optional ms k =
     (case map_of ms k of None \<Rightarrow> Some None | Some JNull \<Rightarrow> Some None
      | Some v \<Rightarrow> map_option Some (read_text v))"

fun read_assertion :: "json \<Rightarrow> assertion_value option" where
  "read_assertion (JList vs) = map_option AInts (traverse read_int vs)"
| "read_assertion (JStr s) = Some (AText s)"
| "read_assertion (JBool b) = Some (AFlag b)"
| "read_assertion _ = None"

definition read_slot :: "json \<Rightarrow> evidence_slot option" where
  "read_slot v =
     Option.bind (read_mapping v) (\<lambda>ms.
     Option.bind (read_member read_text ms ''key'') (\<lambda>key.
     Option.bind (traverse (\<lambda>(n, x). map_option (Pair n) (read_assertion x))
         (filter (\<lambda>(n, _). n \<noteq> ''key'') ms)) (\<lambda>assertions.
     Some \<lparr>es_key = key, es_assertions = assertions\<rparr>)))"

definition read_evidence :: "json \<Rightarrow> evidence_slot list option" where
  "read_evidence v = Option.bind (read_sequence v) (traverse read_slot)"

definition read_skip :: "json \<Rightarrow> skip_set option" where
  "read_skip v =
     Option.bind (read_mapping v) (\<lambda>ms.
     Option.bind (read_member read_text ms ''predicate'') (\<lambda>predicate.
     Option.bind (read_member read_evidence ms ''evidence'') (\<lambda>evidence.
     Option.bind (read_optional ms ''signs'') (\<lambda>signs.
     Some \<lparr>sk_predicate = predicate, sk_evidence = evidence, sk_signs = signs\<rparr>))))"

definition read_pairs :: "(json \<Rightarrow> 'a option) \<Rightarrow> members \<Rightarrow> (string \<times> 'a) list option" where
  "read_pairs f ms = traverse (\<lambda>(k, v). map_option (Pair k) (f v)) ms"

definition read_stage :: "json \<Rightarrow> stage_definition option" where
  "read_stage v =
     Option.bind (read_mapping v) (\<lambda>ms.
     Option.bind (case map_of ms ''failure_routes'' of None \<Rightarrow> Some [] | Some r \<Rightarrow> read_mapping r) (\<lambda>routes.
     Option.bind (read_member read_text ms ''name'') (\<lambda>name.
     Option.bind (read_member read_text ms ''owner'') (\<lambda>owner.
     Option.bind (read_member read_evidence ms ''evidence'') (\<lambda>evidence.
     Option.bind (read_optional ms ''group'') (\<lambda>group.
     Option.bind (read_optional ms ''signs'') (\<lambda>signs.
     Option.bind (read_optional ms ''gate'') (\<lambda>gate.
     Option.bind (case map_of ms ''skip'' of None \<Rightarrow> Some None | Some JNull \<Rightarrow> Some None
         | Some s \<Rightarrow> map_option Some (read_skip s)) (\<lambda>skip.
     Option.bind (read_pairs read_text routes) (\<lambda>pairs.
     Some \<lparr>sd_name = name, sd_owner = owner, sd_evidence = evidence, sd_group = group,
       sd_signs = signs, sd_gate = gate, sd_skip = skip, sd_routes = pairs\<rparr>))))))))))"

definition read_transition :: "json \<Rightarrow> transition_definition option" where
  "read_transition v =
     Option.bind (read_mapping v) (\<lambda>ms.
     Option.bind (read_member read_text ms ''from'') (\<lambda>src.
     Option.bind (read_member read_text ms ''to'') (\<lambda>dst.
     Option.bind (Option.bind (read_member read_sequence ms ''requires'') (traverse read_text)) (\<lambda>requires.
     Some \<lparr>td_source = src, td_destination = dst, td_requires = requires\<rparr>))))"

definition read_overlay :: "string \<times> json \<Rightarrow> project_overlay option" where
  "read_overlay = (\<lambda>(project, payload).
     Option.bind (read_mapping payload) (\<lambda>ms.
     Option.bind (read_pairs read_evidence ms) (\<lambda>stages.
     Some \<lparr>po_project = project, po_stages = stages\<rparr>)))"

definition read_definition :: "members \<Rightarrow> workflow_definition option" where
  "read_definition doc =
     Option.bind (read_member read_mapping doc ''metadata'') (\<lambda>metadata.
     Option.bind (read_member read_mapping doc ''spec'') (\<lambda>spec.
     Option.bind (read_member read_text metadata ''name'') (\<lambda>name.
     Option.bind (read_member read_text metadata ''company'') (\<lambda>company.
     Option.bind (read_member read_int metadata ''revision'') (\<lambda>revision.
     Option.bind (read_member read_text metadata ''signed_by'') (\<lambda>signed_by.
     Option.bind (case map_of spec ''stage_groups'' of None \<Rightarrow> Some []
         | Some v \<Rightarrow> Option.bind (read_sequence v) (traverse read_text)) (\<lambda>groups.
     Option.bind (Option.bind (read_member read_sequence spec ''stages'') (traverse read_stage)) (\<lambda>stages.
     Option.bind (Option.bind (read_member read_sequence spec ''transitions'') (traverse read_transition))
       (\<lambda>transitions.
     Option.bind (Option.bind (case map_of doc ''overlays'' of None \<Rightarrow> Some [] | Some v \<Rightarrow> read_mapping v)
         (traverse read_overlay)) (\<lambda>overlays.
     Some \<lparr>wd_name = name, wd_company = company, wd_revision = revision, wd_signed_by = signed_by,
       wd_groups = groups, wd_stages = stages, wd_transitions = transitions,
       wd_overlays = overlays\<rparr>))))))))))"

section \<open>The canonical export\<close>

definition assertion_document :: "assertion_value \<Rightarrow> json" where
  "assertion_document a =
     (case a of AText s \<Rightarrow> JStr s | AFlag b \<Rightarrow> JBool b | AInts is \<Rightarrow> JList (map JInt is))"

definition slot_document :: "evidence_slot \<Rightarrow> json" where
  "slot_document slot = JObj
     (foldl (\<lambda>d (n, a). dict_set n (assertion_document a) d) [(''key'', JStr (es_key slot))]
        (es_assertions slot))"

definition optional_member :: "string \<Rightarrow> json option \<Rightarrow> members" where
  "optional_member k v = (case v of None \<Rightarrow> [] | Some x \<Rightarrow> [(k, x)])"

definition skip_document :: "skip_set \<Rightarrow> json" where
  "skip_document s = JObj
     ([(''predicate'', JStr (sk_predicate s)), (''evidence'', JList (map slot_document (sk_evidence s)))] @
      optional_member ''signs'' (map_option JStr (sk_signs s)))"

definition stage_document :: "stage_definition \<Rightarrow> json" where
  "stage_document s = JObj
     ([(''name'', JStr (sd_name s)), (''owner'', JStr (sd_owner s))] @
      optional_member ''group'' (map_option JStr (sd_group s)) @
      [(''evidence'', JList (map slot_document (sd_evidence s)))] @
      optional_member ''signs'' (map_option JStr (sd_signs s)) @
      optional_member ''gate'' (map_option JStr (sd_gate s)) @
      optional_member ''skip'' (map_option skip_document (sd_skip s)) @
      (if sd_routes s = [] then []
       else [(''failure_routes'', JObj (dict_of (map (\<lambda>(r, t). (r, JStr t)) (sd_routes s))))]))"

definition transition_document :: "transition_definition \<Rightarrow> json" where
  "transition_document e = JObj
     [(''from'', JStr (td_source e)), (''to'', JStr (td_destination e)),
      (''requires'', JList (map JStr (td_requires e))), (''on_missing'', JStr ''refuse'')]"

definition overlay_document :: "project_overlay \<Rightarrow> json" where
  "overlay_document ov = JObj
     (dict_of (map (\<lambda>(stage, slots). (stage, JList (map slot_document slots))) (po_stages ov)))"

definition canonical_document :: "workflow_definition \<Rightarrow> members" where
  "canonical_document d =
     [(''apiVersion'', JStr ''ctower/v1''), (''kind'', JStr ''Workflow''),
      (''metadata'', JObj
        [(''name'', JStr (wd_name d)), (''company'', JStr (wd_company d)),
         (''revision'', JInt (wd_revision d)), (''signed_by'', JStr (wd_signed_by d))]),
      (''spec'', JObj
        ((if wd_groups d = [] then [] else [(''stage_groups'', JList (map JStr (wd_groups d)))]) @
         [(''stages'', JList (map stage_document (wd_stages d))),
          (''transitions'', JList (map transition_document (wd_transitions d)))]))] @
     (if wd_overlays d = [] then []
      else [(''overlays'', JObj (dict_of (map (\<lambda>ov. (po_project ov, overlay_document ov)) (wd_overlays d))))])"

section \<open>Reading back an export\<close>

lemma traverse_Cons: "traverse f (x # xs) =
    Option.bind (f x) (\<lambda>y. map_option ((#) y) (traverse f xs))"
  by (cases "f x") (simp_all add: traverse_def map_option_case)

lemma traverse_Nil [simp]: "traverse f [] = Some []"
  by (simp add: traverse_def)

lemma traverse_map: "(\<And>x. x \<in> set xs \<Longrightarrow> f (g x) = Some (h x)) \<Longrightarrow> traverse f (map g xs) = Some (map h xs)"
  by (induction xs) (auto simp: traverse_Cons)

lemma traverse_map_id: "(\<And>x. x \<in> set xs \<Longrightarrow> f (g x) = Some x) \<Longrightarrow> traverse f (map g xs) = Some xs"
  using traverse_map [of xs f g id] by simp

lemma traverse_Some_iff: "traverse f xs = Some ys \<longleftrightarrow> list_all2 (\<lambda>x y. f x = Some y) xs ys"
proof (induction xs arbitrary: ys)
  case Nil
  then show ?case by auto
next
  case (Cons x xs)
  then show ?case by (auto simp: traverse_Cons list_all2_Cons1 bind_eq_Some_conv)
qed

lemma traverse_set: "traverse f xs = Some ys \<Longrightarrow> y \<in> set ys \<Longrightarrow> \<exists>x \<in> set xs. f x = Some y"
  by (induction xs arbitrary: ys) (auto simp: traverse_Cons bind_eq_Some_conv)

text \<open>What decoding yields: names that are keys of one JSON object do not repeat.\<close>

definition slot_names_ok :: "evidence_slot \<Rightarrow> bool" where
  "slot_names_ok s \<longleftrightarrow> distinct (map fst (es_assertions s)) \<and> ''key'' \<notin> fst ` set (es_assertions s)"

definition stage_names_ok :: "stage_definition \<Rightarrow> bool" where
  "stage_names_ok s \<longleftrightarrow>
     list_all slot_names_ok (sd_evidence s) \<and> distinct (map fst (sd_routes s)) \<and>
     (\<forall>k. sd_skip s = Some k \<longrightarrow> list_all slot_names_ok (sk_evidence k))"

definition overlay_names_ok :: "project_overlay \<Rightarrow> bool" where
  "overlay_names_ok ov \<longleftrightarrow>
     distinct (map fst (po_stages ov)) \<and> list_all (\<lambda>(_, slots). list_all slot_names_ok slots) (po_stages ov)"

definition definition_names_ok :: "workflow_definition \<Rightarrow> bool" where
  "definition_names_ok d \<longleftrightarrow>
     list_all stage_names_ok (wd_stages d) \<and> list_all overlay_names_ok (wd_overlays d) \<and>
     distinct (map po_project (wd_overlays d))"

lemma read_assertion_document [simp]: "read_assertion (assertion_document a) = Some a"
  by (simp add: assertion_document_def traverse_map_id split: assertion_value.split)

lemma read_slot_document: "slot_names_ok s \<Longrightarrow> read_slot (slot_document s) = Some s"
proof -
  assume ok: "slot_names_ok s"
  let ?as = "map (\<lambda>(n, a). (n, assertion_document a)) (es_assertions s)"
  have names: "map fst ?as = map fst (es_assertions s)" by (simp add: case_prod_beta o_def)
  then have keys: "fst ` set ?as = fst ` set (es_assertions s)" by (metis image_set)
  have fold: "foldl (\<lambda>d (n, a). dict_set n (assertion_document a) d) acc xs =
      foldl (\<lambda>d (n, v). dict_set n v d) acc (map (\<lambda>(n, a). (n, assertion_document a)) xs)" for acc xs
    by (induction xs arbitrary: acc) auto
  have "distinct (map fst ([(''key'', JStr (es_key s))] @ ?as))"
    using ok unfolding map_append names slot_names_ok_def by simp
  then have doc: "slot_document s = JObj ((''key'', JStr (es_key s)) # ?as)"
    unfolding slot_document_def fold by (subst dict_of_distinct_aux) simp_all
  have "filter (\<lambda>(n, _). n \<noteq> ''key'') ?as = ?as"
    using ok by (intro filter_True) (auto simp: slot_names_ok_def rev_image_eqI)
  moreover have "traverse (\<lambda>(n, x). map_option (Pair n) (read_assertion x)) ?as = Some (es_assertions s)"
    by (rule traverse_map_id) auto
  ultimately show ?thesis
    unfolding doc by (simp add: read_slot_def read_member_def)
qed

lemma read_evidence_document:
  "list_all slot_names_ok ss \<Longrightarrow> read_evidence (JList (map slot_document ss)) = Some ss"
  by (simp add: read_evidence_def traverse_map_id read_slot_document list_all_iff)

lemma read_skip_document:
  "list_all slot_names_ok (sk_evidence s) \<Longrightarrow> read_skip (skip_document s) = Some s"
  by (cases "sk_signs s")
    (simp_all add: read_skip_def skip_document_def optional_member_def read_member_def
      read_optional_def read_evidence_document)


lemma read_pairs_document:
  "distinct (map fst xs) \<Longrightarrow> (\<And>k v. (k, v) \<in> set xs \<Longrightarrow> f (g v) = Some v) \<Longrightarrow>
     read_pairs f (dict_of (map (\<lambda>(k, v). (k, g v)) xs)) = Some xs"
proof -
  assume dist: "distinct (map fst xs)" and inv: "\<And>k v. (k, v) \<in> set xs \<Longrightarrow> f (g v) = Some v"
  have "map fst (map (\<lambda>(k, v). (k, g v)) xs) = map fst xs" by (simp add: case_prod_beta o_def)
  then have "distinct (map fst (map (\<lambda>(k, v). (k, g v)) xs))" using dist by (simp only:)
  then have "dict_of (map (\<lambda>(k, v). (k, g v)) xs) = map (\<lambda>(k, v). (k, g v)) xs"
    by (rule dict_of_distinct)
  then show ?thesis
    unfolding read_pairs_def using inv by (auto intro!: traverse_map_id)
qed

lemma read_stage_document:
  assumes "stage_names_ok s"
  shows "read_stage (stage_document s) = Some s"
proof -
  have pairs: "read_pairs read_text (dict_of (map (\<lambda>(r, t). (r, JStr t)) (sd_routes s))) = Some (sd_routes s)"
    using assms by (intro read_pairs_document) (auto simp: stage_names_ok_def)
  have none: "read_pairs read_text [] = Some []" by (simp add: read_pairs_def)
  have evidence: "read_evidence (JList (map slot_document (sd_evidence s))) = Some (sd_evidence s)"
    using assms by (intro read_evidence_document) (simp add: stage_names_ok_def)
  have skip: "sd_skip s = Some k \<Longrightarrow> read_skip (skip_document k) = Some k \<and> (\<exists>ms. skip_document k = JObj ms)" for k
    using assms read_skip_document by (auto simp: stage_names_ok_def skip_document_def)
  show ?thesis
    using pairs none evidence skip
    by (cases "sd_group s"; cases "sd_signs s"; cases "sd_gate s"; cases "sd_skip s"; cases "sd_routes s = []")
      (simp_all add: read_stage_def stage_document_def optional_member_def read_member_def read_optional_def,
       auto)
qed


lemma read_transition_document: "read_transition (transition_document e) = Some e"
  by (simp add: read_transition_def transition_document_def read_member_def traverse_map_id)

lemma read_overlay_document:
  "overlay_names_ok ov \<Longrightarrow> read_overlay (po_project ov, overlay_document ov) = Some ov"
proof -
  assume ok: "overlay_names_ok ov"
  have "read_pairs read_evidence (dict_of (map (\<lambda>(stage, slots). (stage, JList (map slot_document slots))) (po_stages ov)))
      = Some (po_stages ov)"
    using ok by (intro read_pairs_document read_evidence_document)
      (auto simp: overlay_names_ok_def list_all_iff)
  then show ?thesis by (simp add: read_overlay_def overlay_document_def)
qed

lemma read_canonical:
  assumes "definition_names_ok d"
  shows "read_definition (canonical_document d) = Some d"
proof -
  have stages: "traverse read_stage (map stage_document (wd_stages d)) = Some (wd_stages d)"
    using assms by (intro traverse_map_id read_stage_document) (simp add: definition_names_ok_def list_all_iff)
  have edges: "traverse read_transition (map transition_document (wd_transitions d)) = Some (wd_transitions d)"
    by (intro traverse_map_id read_transition_document)
  have "distinct (map fst (map (\<lambda>ov. (po_project ov, overlay_document ov)) (wd_overlays d)))"
    using assms by (simp add: definition_names_ok_def o_def)
  then have "dict_of (map (\<lambda>ov. (po_project ov, overlay_document ov)) (wd_overlays d))
      = map (\<lambda>ov. (po_project ov, overlay_document ov)) (wd_overlays d)"
    by (rule dict_of_distinct)
  then have overlays: "traverse read_overlay (dict_of (map (\<lambda>ov. (po_project ov, overlay_document ov)) (wd_overlays d)))
      = Some (wd_overlays d)"
    using assms by (auto intro!: traverse_map_id read_overlay_document simp: definition_names_ok_def list_all_iff)
  have texts: "traverse read_text (map JStr ss) = Some ss" for ss
    by (rule traverse_map_id) simp
  show ?thesis
    using stages edges overlays texts
    by (cases "wd_groups d = []"; cases "wd_overlays d = []")
      (simp_all add: read_definition_def canonical_document_def read_member_def)
qed

section \<open>Decoding yields exportable definitions\<close>

fun keys_distinct :: "json \<Rightarrow> bool" where
  "keys_distinct (JList vs) \<longleftrightarrow> list_all keys_distinct vs"
| "keys_distinct (JObj ms) \<longleftrightarrow> distinct (map fst ms) \<and> list_all (\<lambda>(_, v). keys_distinct v) ms"
| "keys_distinct _ \<longleftrightarrow> True"

lemma keys_distinct_member: "keys_distinct (JObj ms) \<Longrightarrow> map_of ms k = Some v \<Longrightarrow> keys_distinct v"
  by (auto simp: list_all_iff dest!: map_of_SomeD)

lemma traverse_pairs_keys:
  "traverse (\<lambda>(k, v). map_option (Pair k) (f v)) ms = Some ps \<Longrightarrow> map fst ps = map fst ms"
  by (induction ms arbitrary: ps) (auto simp: traverse_Cons bind_eq_Some_conv)

lemma read_mapping_Some [simp]: "read_mapping v = Some ms \<longleftrightarrow> v = JObj ms"
  by (cases v) auto

lemma read_sequence_Some [simp]: "read_sequence v = Some vs \<longleftrightarrow> v = JList vs"
  by (cases v) auto

lemma read_slot_names: "read_slot v = Some s \<Longrightarrow> keys_distinct v \<Longrightarrow> slot_names_ok s"
proof -
  assume r: "read_slot v = Some s" and v: "keys_distinct v"
  obtain ms where ms: "v = JObj ms"
      "traverse (\<lambda>(n, x). map_option (Pair n) (read_assertion x)) (filter (\<lambda>(n, _). n \<noteq> ''key'') ms)
       = Some (es_assertions s)"
    using r by (auto simp: read_slot_def bind_eq_Some_conv)
  from traverse_pairs_keys [OF ms(2)]
  have names: "map fst (es_assertions s) = map fst (filter (\<lambda>(n, _). n \<noteq> ''key'') ms)" .
  have "fst ` set (es_assertions s) = fst ` set (filter (\<lambda>(n, _). n \<noteq> ''key'') ms)"
    using names by (metis image_set)
  then show ?thesis
    using v ms(1) unfolding slot_names_ok_def names by (auto simp: distinct_map_filter)
qed

lemma read_evidence_names:
  "read_evidence v = Some ss \<Longrightarrow> keys_distinct v \<Longrightarrow> list_all slot_names_ok ss"
  by (auto simp: read_evidence_def bind_eq_Some_conv list_all_iff dest!: traverse_set intro: read_slot_names)

lemma read_pairs_keys: "read_pairs f ms = Some ps \<Longrightarrow> map fst ps = map fst ms"
  unfolding read_pairs_def by (rule traverse_pairs_keys)

lemma read_member_keys:
  assumes "read_member f ms k = Some x" and "keys_distinct (JObj ms)"
  obtains v where "f v = Some x" and "keys_distinct v"
  using assms keys_distinct_member [OF assms(2)] by (auto simp: read_member_def bind_eq_Some_conv)

lemma read_skip_names:
  "read_skip v = Some k \<Longrightarrow> keys_distinct v \<Longrightarrow> list_all slot_names_ok (sk_evidence k)"
  by (auto simp: read_skip_def bind_eq_Some_conv simp del: keys_distinct.simps
      elim!: read_member_keys [where f = read_evidence] intro: read_evidence_names)

lemma read_stage_names:
  assumes "read_stage v = Some s" and "keys_distinct v"
  shows "stage_names_ok s"
proof -
  obtain ms routes where ms: "v = JObj ms" and ev: "read_member read_evidence ms ''evidence'' = Some (sd_evidence s)"
    and routes: "(case map_of ms ''failure_routes'' of None \<Rightarrow> Some [] | Some r \<Rightarrow> read_mapping r) = Some routes"
    and skip: "(case map_of ms ''skip'' of None \<Rightarrow> Some None | Some JNull \<Rightarrow> Some None
         | Some s \<Rightarrow> map_option Some (read_skip s)) = Some (sd_skip s)"
    and pairs: "read_pairs read_text routes = Some (sd_routes s)"
    using assms(1) by (auto simp: read_stage_def bind_eq_Some_conv)
  have v: "keys_distinct (JObj ms)" using assms(2) ms by (simp only:)
  obtain e where "read_evidence e = Some (sd_evidence s)" "keys_distinct e"
    using read_member_keys [OF ev v] .
  then have "list_all slot_names_ok (sd_evidence s)" by (rule read_evidence_names)
  moreover have "distinct (map fst routes)"
    using routes keys_distinct_member [OF v] by (cases "map_of ms ''failure_routes''") fastforce+
  then have "distinct (map fst (sd_routes s))" unfolding read_pairs_keys [OF pairs] .
  moreover have "list_all slot_names_ok (sk_evidence k)" if "sd_skip s = Some k" for k
    using skip that keys_distinct_member [OF v, of "''skip''"] read_skip_names
    by (auto split: option.splits json.splits)
  ultimately show ?thesis by (simp add: stage_names_ok_def)
qed

lemma read_overlay_names:
  assumes "read_overlay (p, v) = Some ov" and "keys_distinct v"
  shows "overlay_names_ok ov \<and> po_project ov = p"
proof -
  obtain ms where ms: "v = JObj ms" and pairs: "read_pairs read_evidence ms = Some (po_stages ov)"
    and p: "po_project ov = p"
    using assms(1) by (auto simp: read_overlay_def bind_eq_Some_conv)
  have "list_all slot_names_ok slots" if mem: "(stage, slots) \<in> set (po_stages ov)" for stage slots
  proof -
    obtain w where "(stage, w) \<in> set ms" "read_evidence w = Some slots"
      using pairs mem unfolding read_pairs_def by (auto dest!: traverse_set)
    then show ?thesis using assms(2) ms read_evidence_names by (fastforce simp: list_all_iff)
  qed
  moreover have "distinct (map fst (po_stages ov))"
    unfolding read_pairs_keys [OF pairs] using assms(2) ms by simp
  ultimately show ?thesis using p by (auto simp: overlay_names_ok_def list_all_iff)
qed

lemma traverse_overlay_projects:
  "traverse read_overlay ms = Some ovs \<Longrightarrow> map po_project ovs = map fst ms"
  by (induction ms arbitrary: ovs)
    (auto simp: traverse_Cons bind_eq_Some_conv read_overlay_def split: prod.splits)

lemma read_definition_names:
  assumes "read_definition doc = Some d" and "keys_distinct (JObj doc)"
  shows "definition_names_ok d"
proof -
  obtain spec stages ovs where spec: "read_member read_mapping doc ''spec'' = Some spec"
    and stages: "read_member read_sequence spec ''stages'' = Some stages"
      "traverse read_stage stages = Some (wd_stages d)"
    and ovs: "(case map_of doc ''overlays'' of None \<Rightarrow> Some [] | Some v \<Rightarrow> read_mapping v) = Some ovs"
      "traverse read_overlay ovs = Some (wd_overlays d)"
    using assms(1) by (auto simp: read_definition_def bind_eq_Some_conv)
  have "keys_distinct (JObj spec)" by (rule read_member_keys [OF spec assms(2)]) auto
  then have "keys_distinct (JList stages)" by (rule read_member_keys [OF stages(1)]) auto
  then have "list_all stage_names_ok (wd_stages d)"
    using traverse_set [OF stages(2)] read_stage_names by (fastforce simp: list_all_iff)
  moreover have o: "keys_distinct (JObj ovs)"
    using ovs(1) keys_distinct_member [OF assms(2)] by (cases "map_of doc ''overlays''") fastforce+
  then have "list_all overlay_names_ok (wd_overlays d)"
    using traverse_set [OF ovs(2)] read_overlay_names by (fastforce simp: list_all_iff)
  moreover have "distinct (map po_project (wd_overlays d))"
    unfolding traverse_overlay_projects [OF ovs(2)] using o by simp
  ultimately show ?thesis by (simp add: definition_names_ok_def)
qed


section \<open>Source rules\<close>

fun check_unique_from :: "string list \<Rightarrow> string list \<Rightarrow> string \<Rightarrow> string option \<Rightarrow> def_refusal + unit" where
  "check_unique_from seen [] rule stage = Inr ()"
| "check_unique_from seen (v # vs) rule stage =
     bindE (raise_if (v \<in> set seen) (Refused rule v stage)) (\<lambda>_. check_unique_from (v # seen) vs rule stage)"

definition check_unique :: "string list \<Rightarrow> string \<Rightarrow> string option \<Rightarrow> def_refusal + unit" where
  "check_unique vs rule stage = check_unique_from [] vs rule stage"

definition check_signing :: "string option \<Rightarrow> string list \<Rightarrow> string \<Rightarrow> def_refusal + unit" where
  "check_signing signs keys stage =
     (case signs of None \<Rightarrow> Inr ()
      | Some s \<Rightarrow> raise_if (s \<notin> set keys) (Refused ''source.unknown-signing-slot'' s (Some stage)))"

definition check_group :: "stage_definition \<Rightarrow> string list \<Rightarrow> def_refusal + unit" where
  "check_group s groups =
     (if groups = []
      then (case sd_group s of None \<Rightarrow> Inr ()
            | Some g \<Rightarrow> Inl (Refused ''source.undeclared-group'' g (Some (sd_name s))))
      else (case sd_group s of
              None \<Rightarrow> Inl (Refused ''source.missing-group'' (sd_name s) (Some (sd_name s)))
            | Some g \<Rightarrow> raise_if (g \<notin> set groups)
                (Refused ''source.undeclared-group'' g (Some (sd_name s)))))"

definition check_stage :: "stage_definition \<Rightarrow> string list \<Rightarrow> def_refusal + unit" where
  "check_stage s groups =
     bindE (check_unique (slot_keys s) ''source.duplicate-slot'' (Some (sd_name s))) (\<lambda>_.
     bindE (check_signing (sd_signs s) (slot_keys s) (sd_name s)) (\<lambda>_.
     bindE (case sd_skip s of None \<Rightarrow> Inr ()
       | Some k \<Rightarrow>
           let keys = map es_key (sk_evidence k) in
           bindE (check_unique keys ''source.duplicate-skip-slot'' (Some (sd_name s))) (\<lambda>_.
           check_signing (sk_signs k) keys (sd_name s))) (\<lambda>_.
     check_group s groups)))"

definition check_declared_groups :: "workflow_definition \<Rightarrow> def_refusal + unit" where
  "check_declared_groups d =
     eachE (\<lambda>g. raise_if (Some g \<notin> sd_group ` set (wd_stages d)) (Refused ''source.empty-group'' g None))
       (wd_groups d)"

definition check_source_rules :: "workflow_definition \<Rightarrow> def_refusal + unit" where
  "check_source_rules d =
     bindE (check_unique (map sd_name (wd_stages d)) ''source.duplicate-stage'' None) (\<lambda>_.
     bindE (eachE (\<lambda>s. check_stage s (wd_groups d)) (wd_stages d)) (\<lambda>_.
     bindE (check_declared_groups d) (\<lambda>_.
     eachE (\<lambda>ov. eachE (\<lambda>(stage, slots). check_unique (map es_key slots) ''source.duplicate-slot'' (Some stage))
       (po_stages ov)) (wd_overlays d))))"

lemma check_unique_from_Inr_iff:
  "check_unique_from seen vs rule stage = Inr u \<longleftrightarrow> distinct vs \<and> set vs \<inter> set seen = {}"
  by (induction seen vs rule stage rule: check_unique_from.induct) (auto simp: bindE_Inr_iff)

lemma check_unique_Inr_iff [chk]: "check_unique vs rule stage = Inr u \<longleftrightarrow> distinct vs"
  by (simp add: check_unique_def check_unique_from_Inr_iff)

lemma check_signing_Inr_iff [chk]:
  "check_signing signs keys stage = Inr u \<longleftrightarrow> (\<forall>s. signs = Some s \<longrightarrow> s \<in> set keys)"
  by (auto simp: check_signing_def split: option.split)

lemma check_group_Inr_iff [chk]:
  "check_group s groups = Inr u \<longleftrightarrow>
     (if groups = [] then sd_group s = None else \<exists>g \<in> set groups. sd_group s = Some g)"
  by (auto simp: check_group_def split: option.split)

definition stage_rules :: "string list \<Rightarrow> stage_definition \<Rightarrow> bool" where
  "stage_rules groups s \<longleftrightarrow>
     distinct (slot_keys s) \<and> (\<forall>k. sd_signs s = Some k \<longrightarrow> k \<in> set (slot_keys s)) \<and>
     (\<forall>k. sd_skip s = Some k \<longrightarrow> distinct (map es_key (sk_evidence k)) \<and>
        (\<forall>x. sk_signs k = Some x \<longrightarrow> x \<in> es_key ` set (sk_evidence k))) \<and>
     (if groups = [] then sd_group s = None else \<exists>g \<in> set groups. sd_group s = Some g)"

lemma check_stage_Inr_iff [chk]: "check_stage s groups = Inr u \<longleftrightarrow> stage_rules groups s"
  by (cases "sd_skip s") (auto simp: check_stage_def stage_rules_def bindE_Inr_iff chk Let_def)

definition source_rules :: "workflow_definition \<Rightarrow> bool" where
  "source_rules d \<longleftrightarrow>
     distinct (map sd_name (wd_stages d)) \<and> list_all (stage_rules (wd_groups d)) (wd_stages d) \<and>
     Some ` set (wd_groups d) \<subseteq> sd_group ` set (wd_stages d) \<and>
     list_all (\<lambda>ov. list_all (\<lambda>(_, slots). distinct (map es_key slots)) (po_stages ov)) (wd_overlays d)"

lemma check_source_rules_Inr_iff [chk]: "check_source_rules d = Inr u \<longleftrightarrow> source_rules d"
  unfolding check_source_rules_def source_rules_def check_declared_groups_def bindE_Inr_iff
    eachE_Inr_iff raise_if_Inr_iff chk list_all_iff case_prod_beta
  by (auto simp: image_subset_iff)

section \<open>Gate 1\<close>

text \<open>
  \<open>load_definition\<close>, with the YAML reader and the schema validator as parameters: the reader gives
  the events and the decoded mapping of a text or its refusal, the validator the name of the best
  error of a document.
\<close>

record source_reader =
  sr_events :: "string \<Rightarrow> def_refusal + yaml_event list"
  sr_document :: "string \<Rightarrow> def_refusal + members"
  sr_violation :: "members \<Rightarrow> string option"

definition decode_source :: "source_reader \<Rightarrow> string \<Rightarrow> def_refusal + members" where
  "decode_source sr txt =
     bindE (raise_if (length txt > max_source_bytes) (Refused ''source.bounds'' ''document-bytes'' None)) (\<lambda>_.
     bindE (bindE (sr_events sr txt) inspect_events) (\<lambda>_.
     sr_document sr txt))"

definition validate_source :: "source_reader \<Rightarrow> members \<Rightarrow> def_refusal + unit" where
  "validate_source sr doc =
     (case sr_violation sr doc of None \<Rightarrow> Inr () | Some name \<Rightarrow> Inl (Refused ''source.schema'' name None))"

definition load_definition :: "source_reader \<Rightarrow> string \<Rightarrow> (def_refusal + workflow_definition) option" where
  "load_definition sr txt =
     (case bindE (decode_source sr txt) (\<lambda>doc. bindE (validate_source sr doc) (\<lambda>_. Inr doc)) of
        Inl r \<Rightarrow> Some (Inl r)
      | Inr doc \<Rightarrow> map_option (\<lambda>d. bindE (check_source_rules d) (\<lambda>_. Inr d)) (read_definition doc))"


lemma decode_source_Inr_iff:
  "decode_source sr txt = Inr doc \<longleftrightarrow>
     length txt \<le> max_source_bytes \<and> (\<exists>evs. sr_events sr txt = Inr evs \<and> inspect_events evs = Inr ()) \<and>
     sr_document sr txt = Inr doc"
  by (auto simp: decode_source_def bindE_Inr_iff not_less)

lemma load_definition_Inr_iff:
  "load_definition sr txt = Some (Inr d) \<longleftrightarrow>
     (\<exists>doc. decode_source sr txt = Inr doc \<and> sr_violation sr doc = None \<and>
        read_definition doc = Some d \<and> source_rules d)"
  by (auto simp: load_definition_def validate_source_def bindE_Inr_iff chk split: sum.splits option.splits)

section \<open>Properties\<close>

definition example_reader :: source_reader where
  "example_reader =
     \<lparr>sr_events = (\<lambda>_. Inr [\<lparr>ye_kind = OtherEvent, ye_alias = False, ye_anchor = None, ye_tag = None, ye_value = Some ''x''\<rparr>]),
      sr_document = (\<lambda>_. Inr (canonical_document example_definition)), sr_violation = (\<lambda>_. None)\<rparr>"

lemma example_definition_names: "definition_names_ok example_definition"
  by (simp add: definition_names_ok_def example_definition_def stage_names_ok_def overlay_names_ok_def
      example_stage_def example_slot_def slot_names_ok_def)

lemma example_loads: "load_definition example_reader ''text'' = Some (Inr example_definition)"
proof -
  have "check_source_rules example_definition = Inr ()" by code_simp
  then have "source_rules example_definition" by (simp only: chk)
  moreover have "decode_source example_reader ''text'' = Inr (canonical_document example_definition)"
    by (simp add: decode_source_def example_reader_def inspect_events_def max_source_bytes_def
        max_source_nodes_def max_source_depth_def reject_unsafe_def depth_delta_def)
  moreover have "sr_violation example_reader (canonical_document example_definition) = None"
    by (simp add: example_reader_def)
  ultimately show ?thesis
    using read_canonical [OF example_definition_names] unfolding load_definition_Inr_iff by blast
qed

text \<open>
  C7. Gate 1 loads a definition exactly when the text is at most 256 KiB, its event stream has at
  most 20,000 events, no alias, anchor, tag or merge key and never more than 32 open collections,
  the schema validator finds no violation, and the typed definition obeys the source rules: unique
  stage names and slot keys, signing slots among the declared ones in the ordinary and the skip
  set, and stage groups that are declared, owned and assigned to every stage when there are any.
\<close>

theorem load_definition_exact:
  "load_definition sr txt = Some (Inr d) \<longleftrightarrow>
     length txt \<le> 262144 \<and>
     (\<exists>evs doc. sr_events sr txt = Inr evs \<and> length evs \<le> 20000 \<and> list_all safe_event evs \<and>
        list_all (\<lambda>n. sum_list (map depth_delta (take n evs)) \<le> 32) [0..<Suc (length evs)] \<and>
        sr_document sr txt = Inr doc \<and> sr_violation sr doc = None \<and> read_definition doc = Some d) \<and>
     source_rules d"
proof -
  have upto: "P 0 \<Longrightarrow> (\<forall>n \<in> {1..l}. P n) \<longleftrightarrow> (\<forall>n \<in> set [0..<Suc l]. P n)" for P and l :: nat
    unfolding set_upt Ball_def atLeastAtMost_iff atLeastLessThan_iff less_Suc_eq_le
    by (metis One_nat_def Suc_leI le0 neq0_conv)
  have walk: "inspect_events evs = Inr () \<longleftrightarrow> length evs \<le> 20000 \<and> list_all safe_event evs \<and>
      list_all (\<lambda>n. sum_list (map depth_delta (take n evs)) \<le> 32) [0..<Suc (length evs)]" for evs
    using upto [of "\<lambda>n. sum_list (map depth_delta (take n evs)) \<le> 32" "length evs"]
    unfolding inspect_events_def inspect_from_Inr_iff max_source_nodes_def max_source_depth_def list_all_iff
    by (cases "evs = []") (simp_all del: upt_Suc)
  show ?thesis
    unfolding load_definition_Inr_iff decode_source_Inr_iff walk max_source_bytes_def by auto
qed

text \<open>
  C8. The canonical export preserves meaning: whatever a document with unrepeated keys loads as,
  its canonical export types back to the identical definition, every stage, slot, assertion, skip
  set, route, edge and overlay in authored order.
\<close>

theorem canonical_export_round_trip:
  assumes "load_definition sr txt = Some (Inr d)"
    and "\<And>doc. sr_document sr txt = Inr doc \<Longrightarrow> keys_distinct (JObj doc)"
  shows "read_definition (canonical_document d) = Some d"
proof -
  obtain doc where "sr_document sr txt = Inr doc" "read_definition doc = Some d"
    using assms(1) by (auto simp: load_definition_Inr_iff decode_source_Inr_iff)
  then show ?thesis using read_canonical read_definition_names assms(2) by blast
qed

lemma canonical_export_round_trip_witness:
  "load_definition example_reader ''text'' = Some (Inr example_definition) \<and>
   read_definition (canonical_document example_definition) = Some example_definition"
proof -
  have "keys_distinct (JObj (canonical_document example_definition))" by code_simp
  then have "sr_document example_reader ''text'' = Inr doc \<Longrightarrow> keys_distinct (JObj doc)" for doc
    by (simp add: example_reader_def del: keys_distinct.simps)
  from canonical_export_round_trip [OF example_loads this] example_loads show ?thesis by simp
qed

end
