(* ===== verification/Scheduling.thy ===== *)
theory Scheduling
  imports PyTime "HOL-Library.Multiset" "HOL-Library.Sublist"
begin

text \<open>
  \<open>ctower_kernel/work/_scheduling.py\<close> and \<open>Work.schedule\<close>: the dispatch order of tickets, with hard
  eligibility, bounded priority aging and a total tie break. The lemmas show that the decision is a
  function of the set of candidates, that it is sorted by its key and loses nobody, and that aging
  bounds how long anything can be overtaken.
\<close>

text \<open>A Python datetime with or without a timezone.\<close>

datatype clock_time = Aware (instant: datetime) | Naive (instant: datetime)

definition is_aware :: "clock_time \<Rightarrow> bool" where
  "is_aware t = (case t of Aware _ \<Rightarrow> True | Naive _ \<Rightarrow> False)"

record scheduling_candidate =
  sc_ticket :: uuid
  sc_priority :: string
  sc_since :: clock_time
  sc_unmet :: "string list"
  sc_verified :: bool

record scheduling_decision =
  sx_ordered :: "uuid list"
  sx_excluded :: "uuid list"
  sx_preemptible :: "uuid list"

definition aging_step_seconds :: int where "aging_step_seconds = 86400"
definition maximum_boost_levels :: int where "maximum_boost_levels = 2"

definition priority_rank :: "string \<Rightarrow> int option" where
  "priority_rank p = map_of [(''P0'', 0), (''P1'', 1), (''P2'', 2)] p"

text \<open>\<open>int(delta.total_seconds())\<close> cut at zero is the whole seconds of the delta.\<close>

definition age_seconds :: "datetime \<Rightarrow> scheduling_candidate \<Rightarrow> int" where
  "age_seconds now c = max 0 ((now - instant (sc_since c)) div second)"

definition effective_rank :: "datetime \<Rightarrow> scheduling_candidate \<Rightarrow> int" where
  "effective_rank now c =
     max 0 (the (priority_rank (sc_priority c))
       - min maximum_boost_levels (age_seconds now c div aging_step_seconds))"

definition schedule_key :: "datetime \<Rightarrow> scheduling_candidate \<Rightarrow> int \<times> datetime \<times> int" where
  "schedule_key now c = (effective_rank now c, instant (sc_since c), uint (sc_ticket c))"

definition ordered_candidates :: "datetime \<Rightarrow> scheduling_candidate list \<Rightarrow> scheduling_candidate list" where
  "ordered_candidates now cs = sort_key (schedule_key now) (filter (\<lambda>c. sc_unmet c = []) cs)"

definition schedule :: "scheduling_candidate list \<Rightarrow> clock_time \<Rightarrow> scheduling_decision py" where
  "schedule cs now =
     bindE (raise_if (\<not> is_aware now) (ValueError ''scheduling clock must be timezone-aware'')) (\<lambda>_.
     bindE (raise_if (\<not> distinct (map sc_ticket cs))
       (ValueError ''scheduling candidates must be unique'')) (\<lambda>_.
     bindE (raise_if (list_ex (\<lambda>c. priority_rank (sc_priority c) = None) cs)
       (ValueError ''scheduling priority must be P0, P1, or P2'')) (\<lambda>_.
     bindE (raise_if (list_ex (\<lambda>c. \<not> is_aware (sc_since c)) cs)
       (ValueError ''eligible_since must be timezone-aware'')) (\<lambda>_.
     let ordered = ordered_candidates (instant now) cs;
         excluded = filter (\<lambda>c. sc_unmet c \<noteq> []) cs
     in Inr \<lparr>sx_ordered = map sc_ticket ordered,
             sx_excluded = map sc_ticket (sort_key (\<lambda>c. uint (sc_ticket c)) excluded),
             sx_preemptible = map sc_ticket (filter sc_verified ordered)\<rparr>))))"

section \<open>Lemmas\<close>

definition candidates_ok :: "scheduling_candidate list \<Rightarrow> clock_time \<Rightarrow> bool" where
  "candidates_ok cs now \<longleftrightarrow>
     is_aware now \<and> distinct (map sc_ticket cs) \<and>
     (\<forall>c \<in> set cs. priority_rank (sc_priority c) \<noteq> None \<and> is_aware (sc_since c))"

lemma schedule_Inr_iff:
  "schedule cs now = Inr x \<longleftrightarrow> candidates_ok cs now \<and>
     x = \<lparr>sx_ordered = map sc_ticket (ordered_candidates (instant now) cs),
          sx_excluded = map sc_ticket (sort_key (\<lambda>c. uint (sc_ticket c)) (filter (\<lambda>c. sc_unmet c \<noteq> []) cs)),
          sx_preemptible = map sc_ticket (filter sc_verified (ordered_candidates (instant now) cs))\<rparr>"
  unfolding schedule_def candidates_ok_def by (auto simp: bindE_Inr_iff Let_def list_ex_iff)

lemma priority_rank_known: "priority_rank p \<noteq> None \<longleftrightarrow> p \<in> {''P0'', ''P1'', ''P2''}"
  by (simp add: priority_rank_def)

lemma schedule_succeeds:
  "(\<exists>y. schedule cs now = Inr y) \<longleftrightarrow>
     is_aware now \<and> distinct (map sc_ticket cs) \<and>
     (\<forall>c \<in> set cs. sc_priority c \<in> {''P0'', ''P1'', ''P2''} \<and> is_aware (sc_since c))"
  by (simp only: schedule_Inr_iff candidates_ok_def priority_rank_known) simp

lemma sort_key_mset_cong:
  assumes "inj_on k (set xs)" and "mset xs = mset ys"
  shows "sort_key k xs = sort_key k ys"
proof (rule properties_for_sort_key)
  show "mset (sort_key k ys) = mset xs" using assms(2) by simp
  show "sorted (map k (sort_key k ys))" by simp
  fix x
  assume x: "x \<in> set (sort_key k ys)"
  then have "set ys = set xs" using assms(2) by (metis set_mset_mset)
  then have "filter (\<lambda>y. k x = k y) (sort_key k ys) = filter (\<lambda>y. x = y) (sort_key k ys)"
    and "filter (\<lambda>y. k x = k y) xs = filter (\<lambda>y. x = y) xs"
    using assms(1) x by (auto intro!: filter_cong simp: inj_on_def)
  moreover have "filter (\<lambda>y. x = y) zs = replicate (count (mset zs) x) x" for zs
    by (induction zs) auto
  ultimately show "filter (\<lambda>y. k x = k y) (sort_key k ys) = filter (\<lambda>y. k x = k y) xs"
    using assms(2) by simp
qed

lemma ticket_inj: "distinct (map sc_ticket cs) \<Longrightarrow> inj_on sc_ticket (set cs)"
  by (simp add: distinct_map)

lemma key_inj:
  assumes "distinct (map sc_ticket cs)"
  shows "inj_on (schedule_key now) (set cs)" and "inj_on (\<lambda>c. uint (sc_ticket c)) (set cs)"
  using ticket_inj [OF assms] unfolding inj_on_def schedule_key_def
  by (blast dest: unsigned_word_eqI)+

lemma ordered_candidates_set: "set (ordered_candidates now cs) = {c \<in> set cs. sc_unmet c = []}"
  by (auto simp: ordered_candidates_def)

lemma ordered_candidates_sorted: "sorted (map (schedule_key now) (ordered_candidates now cs))"
  by (simp add: ordered_candidates_def)

lemma mset_partition_unmet:
  "image_mset sc_ticket (filter_mset (\<lambda>c. sc_unmet c = []) (mset cs)) +
   image_mset sc_ticket (filter_mset (\<lambda>c. sc_unmet c \<noteq> []) (mset cs)) = image_mset sc_ticket (mset cs)"
  by (metis image_mset_union multiset_partition)

lemma aged_rank_zero:
  assumes "priority_rank (sc_priority c) \<noteq> None" and "instant (sc_since c) + 2 * 86400 * second \<le> now"
  shows "effective_rank now c = 0"
proof -
  have "the (priority_rank (sc_priority c)) \<le> 2"
    using assms(1) by (auto simp: priority_rank_def split: if_splits)
  moreover have "2 * 86400 \<le> (now - instant (sc_since c)) div second"
    using assms(2) by (simp add: second_def)
  then have "2 \<le> age_seconds now c div aging_step_seconds"
    by (simp add: age_seconds_def aging_step_seconds_def)
  ultimately show ?thesis by (simp add: effective_rank_def maximum_boost_levels_def)
qed

lemma effective_rank_nonneg: "0 \<le> effective_rank now c"
  by (simp add: effective_rank_def)

section \<open>Properties\<close>

text \<open>
  C9. Scheduling is total on valid input: it gives a decision exactly when the clock is aware, no ticket
  occurs twice, and every candidate has priority P0, P1 or P2 and an aware eligibility instant;
  otherwise it raises. The decision depends on the set of candidates and the clock only: any two
  orders of the same candidates give the same decision, or both raise. When it is given, the
  dispatch order is sorted by effective rank, eligibility instant and ticket identity, and every
  candidate is in exactly one of the two lists: the eligible ones in the dispatch order, the others
  in the excluded list; the preemptible list is the checkpointed part of the dispatch order, in that order.
\<close>

theorem schedule_deterministic_partition:
  "((\<exists>y. schedule cs now = Inr y) \<longleftrightarrow>
      is_aware now \<and> distinct (map sc_ticket cs) \<and>
      (\<forall>c \<in> set cs. sc_priority c \<in> {''P0'', ''P1'', ''P2''} \<and> is_aware (sc_since c))) \<and>
   (mset cs = mset cs' \<longrightarrow> is_ok (schedule cs now) = is_ok (schedule cs' now) \<and>
      (is_ok (schedule cs now) \<longrightarrow> schedule cs now = schedule cs' now)) \<and>
   (schedule cs now = Inr x \<longrightarrow>
      sorted (map (schedule_key (instant now)) (ordered_candidates (instant now) cs)) \<and>
      sx_ordered x = map sc_ticket (ordered_candidates (instant now) cs) \<and>
      mset (sx_ordered x) + mset (sx_excluded x) = mset (map sc_ticket cs) \<and>
      set (sx_ordered x) = sc_ticket ` {c \<in> set cs. sc_unmet c = []} \<and>
      set (sx_preemptible x) = sc_ticket ` {c \<in> set cs. sc_unmet c = [] \<and> sc_verified c} \<and>
      subseq (sx_preemptible x) (sx_ordered x))"
  (is "?total \<and> _")
proof (intro conjI impI)
  show ?total by (simp only: schedule_succeeds)
next
  assume same: "mset cs = mset cs'"
  then have sets: "set cs = set cs'" by (metis set_mset_mset)
  have "distinct (map sc_ticket cs) = distinct (map sc_ticket cs')"
    using same by (metis mset_map mset_eq_imp_distinct_iff)
  then have ok: "candidates_ok cs now = candidates_ok cs' now"
    using sets by (simp add: candidates_ok_def)
  have iff: "is_ok (schedule zs now) = candidates_ok zs now" for zs
    by (simp add: is_ok_iff schedule_Inr_iff)
  then show "is_ok (schedule cs now) = is_ok (schedule cs' now)" using ok by simp
  assume "is_ok (schedule cs now)"
  then have good: "candidates_ok cs now" by (simp add: iff)
  then have dist: "distinct (map sc_ticket cs)" by (simp add: candidates_ok_def)
  have "ordered_candidates (instant now) cs = ordered_candidates (instant now) cs'"
    unfolding ordered_candidates_def
    by (rule sort_key_mset_cong) (use key_inj(1) [OF dist] same in \<open>auto simp: inj_on_def\<close>)
  moreover have "sort_key (\<lambda>c. uint (sc_ticket c)) (filter (\<lambda>c. sc_unmet c \<noteq> []) cs)
      = sort_key (\<lambda>c. uint (sc_ticket c)) (filter (\<lambda>c. sc_unmet c \<noteq> []) cs')"
    by (rule sort_key_mset_cong) (use key_inj(2) [OF dist] same in \<open>auto simp: inj_on_def\<close>)
  ultimately show "schedule cs now = schedule cs' now"
    using good ok by (simp add: schedule_Inr_iff [THEN iffD2])
next
  assume x: "schedule cs now = Inr x"
  then show "sx_ordered x = map sc_ticket (ordered_candidates (instant now) cs)"
    by (simp add: schedule_Inr_iff)
  show "sorted (map (schedule_key (instant now)) (ordered_candidates (instant now) cs))"
    by (rule ordered_candidates_sorted)
  show "mset (sx_ordered x) + mset (sx_excluded x) = mset (map sc_ticket cs)"
    using x by (simp add: schedule_Inr_iff ordered_candidates_def mset_partition_unmet)
  show "set (sx_ordered x) = sc_ticket ` {c \<in> set cs. sc_unmet c = []}"
    using x by (simp add: schedule_Inr_iff ordered_candidates_set)
  show "set (sx_preemptible x) = sc_ticket ` {c \<in> set cs. sc_unmet c = [] \<and> sc_verified c}"
    using x by (auto simp: schedule_Inr_iff ordered_candidates_set)
  show "subseq (sx_preemptible x) (sx_ordered x)"
    using x by (simp add: schedule_Inr_iff subseq_filter_left subseq_map)
qed

definition example_candidates :: "scheduling_candidate list" where
  "example_candidates =
     [\<lparr>sc_ticket = 7, sc_priority = ''P0'', sc_since = Aware (3 * 86400 * second), sc_unmet = [], sc_verified = False\<rparr>,
      \<lparr>sc_ticket = 5, sc_priority = ''P2'', sc_since = Aware (86400 * second), sc_unmet = [], sc_verified = True\<rparr>,
      \<lparr>sc_ticket = 3, sc_priority = ''P1'', sc_since = Aware 0, sc_unmet = [''work.admitted@1''], sc_verified = False\<rparr>]"

definition example_clock :: clock_time where
  "example_clock = Aware (5 * 86400 * second)"

lemma example_schedule:
  "schedule example_candidates example_clock =
     Inr \<lparr>sx_ordered = [5, 7], sx_excluded = [3], sx_preemptible = [5]\<rparr>"
  by code_simp

lemma schedule_deterministic_partition_witness:
  "(\<exists>y. schedule example_candidates example_clock = Inr y) \<and>
   schedule (rev example_candidates) example_clock =
     Inr \<lparr>sx_ordered = [5, 7], sx_excluded = [3], sx_preemptible = [5]\<rparr>"
proof
  have "is_aware example_clock \<and> distinct (map sc_ticket example_candidates) \<and>
      (\<forall>c \<in> set example_candidates. sc_priority c \<in> {''P0'', ''P1'', ''P2''} \<and> is_aware (sc_since c))"
    by (simp add: example_candidates_def example_clock_def is_aware_def)
  then show "\<exists>y. schedule example_candidates example_clock = Inr y"
    using schedule_deterministic_partition by blast
  have "mset example_candidates = mset (rev example_candidates)" by simp
  then have "schedule example_candidates example_clock = schedule (rev example_candidates) example_clock"
    using schedule_deterministic_partition [THEN conjunct2, THEN conjunct1, rule_format, THEN conjunct2, rule_format]
      example_schedule
    by (metis is_ok_simps(2))
  then show "schedule (rev example_candidates) example_clock =
      Inr \<lparr>sx_ordered = [5, 7], sx_excluded = [3], sx_preemptible = [5]\<rparr>"
    by (simp only: example_schedule)
qed

text \<open>
  C10. No starvation: once an eligible candidate has waited two days, nothing that became eligible
  later than it is dispatched before it, whatever the priorities.
\<close>

theorem aged_candidate_not_overtaken:
  assumes "schedule cs now = Inr x" and "c \<in> set cs" and "sc_unmet c = []"
    and "instant (sc_since c) + 2 * 86400 * second \<le> instant now"
    and "sx_ordered x = before @ sc_ticket c # after" and "d \<in> set cs" and "sc_ticket d \<in> set before"
  shows "instant (sc_since d) \<le> instant (sc_since c)"
proof -
  have ok: "candidates_ok cs now" and ord: "sx_ordered x = map sc_ticket (ordered_candidates (instant now) cs)"
    using assms(1) by (simp_all add: schedule_Inr_iff)
  have inj: "\<And>a b. a \<in> set cs \<Longrightarrow> b \<in> set cs \<Longrightarrow> sc_ticket a = sc_ticket b \<Longrightarrow> a = b"
    using ok ticket_inj by (auto simp: candidates_ok_def inj_on_def)
  obtain A c' B where split: "ordered_candidates (instant now) cs = A @ c' # B" "map sc_ticket A = before"
      "sc_ticket c' = sc_ticket c"
    using assms(5) ord by (auto simp: map_eq_append_conv map_eq_Cons_conv)
  have sub: "set (A @ c' # B) \<subseteq> set cs"
    using ordered_candidates_set [of "instant now" cs] split(1) by auto
  have c': "c' = c" using inj [of c' c] sub assms(2) split(3) by simp
  obtain d' where d': "d' \<in> set A" "sc_ticket d' = sc_ticket d"
    using assms(7) split(2) by auto
  then have "d' = d" using sub assms(6) by (intro inj) auto
  with d'(1) have "d \<in> set A" by simp
  then have "schedule_key (instant now) d \<le> schedule_key (instant now) c"
    using ordered_candidates_sorted [of "instant now" cs] c' by (auto simp: split(1) sorted_append)
  moreover have "effective_rank (instant now) c = 0"
    using ok assms(2,4) by (intro aged_rank_zero) (auto simp: candidates_ok_def)
  ultimately show ?thesis
    using effective_rank_nonneg [of "instant now" d]
    by (auto simp: schedule_key_def less_eq_prod_def)
qed

lemma aged_candidate_not_overtaken_witness:
  "schedule example_candidates example_clock =
     Inr \<lparr>sx_ordered = [5, 7], sx_excluded = [3], sx_preemptible = [5]\<rparr> \<and>
   instant (sc_since (example_candidates ! 1)) \<le> instant (sc_since (example_candidates ! 0))"
proof
  show "schedule example_candidates example_clock =
     Inr \<lparr>sx_ordered = [5, 7], sx_excluded = [3], sx_preemptible = [5]\<rparr>" by (rule example_schedule)
  show "instant (sc_since (example_candidates ! 1)) \<le> instant (sc_since (example_candidates ! 0))"
    by (rule aged_candidate_not_overtaken [OF example_schedule, where before = "[5]" and after = "[]"])
      (simp_all add: example_candidates_def example_clock_def second_def)
qed

end
