(* ===== verification/WorkCommands.thy ===== *)
theory WorkCommands
  imports PyJson PyTime Sha256
begin

text \<open>
  The authority facts of \<open>ctower_kernel/record/interface.py\<close> that Work relies on, and the command
  vocabulary and policy of \<open>ctower_kernel/work/interface.py\<close> and \<open>_custody_policy.py\<close>: the typed
  mutations with their idempotency payloads, and the refusals decided before persistence, in the
  order the code decides them. The lemmas state exactly who may issue what.
\<close>

section \<open>Actors and problems\<close>

datatype principal_kind = Operator | Commander | MigrationImporter | FenceObserver | Viewer

definition principal_value :: "principal_kind \<Rightarrow> string" where
  "principal_value k =
     (case k of Operator \<Rightarrow> ''operator'' | Commander \<Rightarrow> ''commander''
      | MigrationImporter \<Rightarrow> ''migration_importer'' | FenceObserver \<Rightarrow> ''fence_observer''
      | Viewer \<Rightarrow> ''viewer'')"

datatype credential_scope = ScopeCapture | ScopeTransition | ScopeEvidence

definition scope_value :: "credential_scope \<Rightarrow> string" where
  "scope_value s =
     (case s of ScopeCapture \<Rightarrow> ''capture'' | ScopeTransition \<Rightarrow> ''transition'' | ScopeEvidence \<Rightarrow> ''evidence'')"

record actor =
  ac_principal :: uuid
  ac_tenant :: uuid
  ac_kind :: principal_kind
  ac_projects :: "string set"
  ac_scopes :: "credential_scope set"
  ac_seat :: "uuid option"
  ac_binding :: "uuid option"
  ac_session :: "uuid option"

record record_problem =
  rp_code :: string
  rp_detail :: string
  rp_status :: int
  rp_title :: string
  rp_command :: "uuid option"
  rp_version :: "int option"
  rp_unmet :: "string list"
  rp_prohibited :: "string list"

definition problem_payload :: "record_problem \<Rightarrow> json" where
  "problem_payload p = JObj
     ([(''code'', JStr (rp_code p)), (''detail'', JStr (rp_detail p)), (''status'', JInt (rp_status p)),
       (''title'', JStr (rp_title p)), (''type'', JStr (''https://ctower.dev/problems/'' @ rp_code p))] @
      (case rp_command p of None \<Rightarrow> [] | Some c \<Rightarrow> [(''command_id'', JStr (uuid_str c))]) @
      (case rp_version p of None \<Rightarrow> [] | Some v \<Rightarrow> [(''current_version'', JInt v)]) @
      (if rp_unmet p = [] then [] else [(''unmet_facts'', JList (map JStr (rp_unmet p)))]) @
      (if rp_prohibited p = [] then [] else [(''prohibited_classes'', JList (map JStr (rp_prohibited p)))]))"

definition problem :: "string \<Rightarrow> string \<Rightarrow> int \<Rightarrow> string \<Rightarrow> uuid option \<Rightarrow> record_problem" where
  "problem code detail status title command =
     \<lparr>rp_code = code, rp_detail = detail, rp_status = status, rp_title = title, rp_command = command,
      rp_version = None, rp_unmet = [], rp_prohibited = []\<rparr>"

definition credential_scope_refusal ::
  "actor \<Rightarrow> credential_scope \<Rightarrow> uuid option \<Rightarrow> record_problem option" where
  "credential_scope_refusal a scope command =
     (if ac_seat a = None \<or> scope \<in> ac_scopes a then None
      else Some (problem ''credential-scope-denied''
        (''The project-seat credential does not grant the '' @ scope_value scope @ '' scope.'')
        403 ''Credential scope denied'' command))"

section \<open>Work commands\<close>

datatype assignment_kind =
  TicketCustodian | CurrentAssignee | StageOwner | ReviewerAssignment | RunnerLeaseOwner

definition assignment_value :: "assignment_kind \<Rightarrow> string" where
  "assignment_value k =
     (case k of TicketCustodian \<Rightarrow> ''ticket_custodian'' | CurrentAssignee \<Rightarrow> ''current_assignee''
      | StageOwner \<Rightarrow> ''stage_owner'' | ReviewerAssignment \<Rightarrow> ''reviewer_assignment''
      | RunnerLeaseOwner \<Rightarrow> ''runner_lease_owner'')"

datatype relation_kind = ParentOf | DependsOn | Blocks | Duplicates | RelatesTo | CausedBy

definition relation_value :: "relation_kind \<Rightarrow> string" where
  "relation_value k =
     (case k of ParentOf \<Rightarrow> ''parent_of'' | DependsOn \<Rightarrow> ''depends_on'' | Blocks \<Rightarrow> ''blocks''
      | Duplicates \<Rightarrow> ''duplicates'' | RelatesTo \<Rightarrow> ''relates_to'' | CausedBy \<Rightarrow> ''caused_by'')"

record block_facts =
  bl_blocker :: uuid
  bl_kind :: string
  bl_class :: string
  bl_owner :: uuid
  bl_source :: string
  bl_stage :: "string option"
  bl_condition :: string
  bl_next_check :: "datetime option"
  bl_dependency :: "string option"
  bl_board :: bool

datatype work_action =
    ChangePriority string "string option"
  | ChangeAssignment assignment_kind uuid "string option"
  | ConsumeReviewDispatch uuid string
  | Admit
  | Defer datetime
  | Block block_facts
  | Unblock uuid string
  | Reopen string
  | AddRelation relation_kind uuid

text \<open>\<open>WorkMutation\<close> and its subclasses: the common fields and the action.\<close>

record work_command =
  wc_command :: uuid
  wc_ticket :: uuid
  wc_expected :: int
  wc_reason :: string
  wc_action :: work_action

definition common_payload :: "work_command \<Rightarrow> string \<Rightarrow> members" where
  "common_payload c kind =
     [(''expected_version'', JInt (wc_expected c)), (''kind'', JStr kind),
      (''reason'', JStr (wc_reason c)), (''ticket_id'', JStr (uuid_str (wc_ticket c)))]"

definition opt_str :: "string option \<Rightarrow> json" where
  "opt_str s = (case s of None \<Rightarrow> JNull | Some x \<Rightarrow> JStr x)"

definition opt_time :: "datetime option \<Rightarrow> json" where
  "opt_time t = (case t of None \<Rightarrow> JNull | Some x \<Rightarrow> JStr (isoformat x))"

definition block_members :: "block_facts \<Rightarrow> members" where
  "block_members b =
     [(''blocker_id'', JStr (uuid_str (bl_blocker b))), (''blocker_kind'', JStr (bl_kind b)),
      (''reason_class'', JStr (bl_class b)), (''owner_principal_id'', JStr (uuid_str (bl_owner b))),
      (''source_ref'', JStr (bl_source b)), (''affected_stage'', opt_str (bl_stage b)),
      (''resolution_condition'', JStr (bl_condition b)), (''next_check_at'', opt_time (bl_next_check b)),
      (''dependency_ref'', opt_str (bl_dependency b)), (''board_impact'', JBool (bl_board b))]"

definition work_payload :: "work_command \<Rightarrow> json" where
  "work_payload c = JObj
     (case wc_action c of
        ChangePriority p e \<Rightarrow> common_payload c ''change_priority'' @
          [(''priority'', JStr p), (''urgent_evidence_ref'', opt_str e)]
      | ChangeAssignment k p s \<Rightarrow> common_payload c ''change_assignment'' @
          [(''assignment_kind'', JStr (assignment_value k)), (''scope_ref'', opt_str s),
           (''to_principal_id'', JStr (uuid_str p))]
      | ConsumeReviewDispatch e n \<Rightarrow> common_payload c ''consume_review_dispatch'' @
          [(''crew_name'', JStr n), (''effect_id'', JStr (uuid_str e))]
      | Admit \<Rightarrow> common_payload c ''admit''
      | Defer t \<Rightarrow> common_payload c ''defer'' @ [(''review_after'', JStr (isoformat t))]
      | Block b \<Rightarrow> block_members b @ common_payload c ''block''
      | Unblock b e \<Rightarrow> common_payload c ''unblock'' @
          [(''blocker_id'', JStr (uuid_str b)), (''resolution_evidence_ref'', JStr e)]
      | Reopen p \<Rightarrow> common_payload c ''reopen'' @ [(''priority_policy'', JStr p)]
      | AddRelation k t \<Rightarrow> common_payload c ''add_relation'' @
          [(''relation_kind'', JStr (relation_value k)), (''target_ticket_id'', JStr (uuid_str t))])"

definition work_digest :: "work_command \<Rightarrow> string" where
  "work_digest c = sha256_hex (json_dumps (work_payload c))"

section \<open>Refusals before persistence\<close>

definition work_problem :: "work_command \<Rightarrow> string \<Rightarrow> int \<Rightarrow> string \<Rightarrow> record_problem" where
  "work_problem c code status title = problem code title status title (Some (wc_command c))"

definition importer_refusal :: "uuid option \<Rightarrow> record_problem" where
  "importer_refusal command =
     problem ''migration-capability-denied'' ''The migration importer has no general Work authority.''
       403 ''Migration capability denied'' command"

definition work_authority_refusal :: "actor \<Rightarrow> uuid \<Rightarrow> record_problem option" where
  "work_authority_refusal a command =
     (if ac_kind a = MigrationImporter then Some (importer_refusal (Some command))
      else credential_scope_refusal a ScopeTransition (Some command))"

definition priorities :: "string list" where
  "priorities = [''P0'', ''P1'', ''P2'']"

definition priority_refusal :: "actor \<Rightarrow> work_command \<Rightarrow> string \<Rightarrow> record_problem option" where
  "priority_refusal a c p =
     (if p \<notin> set priorities then Some (work_problem c ''validation-error'' 422 ''Invalid priority'')
      else if ac_kind a \<noteq> Commander \<and> ac_kind a \<noteq> Operator
      then Some (work_problem c ''unauthorized'' 403 ''Priority change requires task authority'')
      else if p = ''P0'' \<and> ac_kind a \<noteq> Operator
      then Some (work_problem c ''unauthorized'' 403 ''P0 requires operator authority'')
      else None)"

definition assignment_refusal ::
  "work_command \<Rightarrow> assignment_kind \<Rightarrow> string option \<Rightarrow> record_problem option" where
  "assignment_refusal c k scope =
     (if k = TicketCustodian \<or> k = RunnerLeaseOwner
      then Some (work_problem c ''work-assignment-kind-refused'' 409
        ''Protected assignment kind requires its owning Interface'')
      else if k = CurrentAssignee \<and> scope \<noteq> None
      then Some (work_problem c ''validation-error'' 422 ''Current assignee is ticket-scoped'')
      else None)"

text \<open>\<open>^[a-z][a-z0-9._-]{1,95}$\<close>\<close>

definition stable_family :: "string \<Rightarrow> bool" where
  "stable_family s \<longleftrightarrow> stable_key s \<and> 2 \<le> length s \<and> length s \<le> 96"

definition typed_command_refusal :: "actor \<Rightarrow> work_command \<Rightarrow> record_problem option" where
  "typed_command_refusal a c =
     (case wc_action c of
        ChangePriority p _ \<Rightarrow> priority_refusal a c p
      | ChangeAssignment k _ scope \<Rightarrow> assignment_refusal c k scope
      | ConsumeReviewDispatch _ crew \<Rightarrow>
          (if \<not> stable_family crew
           then Some (work_problem c ''validation-error'' 422 ''Invalid review routing facts'') else None)
      | _ \<Rightarrow> None)"

definition max_reason_length :: nat where
  "max_reason_length = 500"

definition work_refusal :: "actor \<Rightarrow> work_command \<Rightarrow> record_problem option" where
  "work_refusal a c =
     first_some
       [work_authority_refusal a (wc_command c),
        (if wc_expected c < 1 \<or> wc_reason c = [] \<or> code_points (wc_reason c) > max_reason_length
         then Some (work_problem c ''validation-error'' 422 ''Invalid Work command'') else None),
        typed_command_refusal a c,
        (case wc_action c of
           Reopen policy \<Rightarrow>
             (if policy \<noteq> ''carry_forward''
              then Some (work_problem c ''validation-error'' 422 ''Unsupported priority policy'') else None)
         | _ \<Rightarrow> None)]"

section \<open>Creating tickets and transferring custody\<close>

record ticket_command =
  tc_command :: uuid
  tc_custodian :: uuid
  tc_priority :: string
  tc_project :: "string option"
  tc_source_kind :: string
  tc_source_ref :: string
  tc_title :: string

definition ticket_payload :: "ticket_command \<Rightarrow> json" where
  "ticket_payload c = JObj
     ([(''initial_custodian_id'', JStr (uuid_str (tc_custodian c))), (''priority'', JStr (tc_priority c)),
       (''source'', JObj [(''kind'', JStr (tc_source_kind c)), (''ref'', JStr (tc_source_ref c))]),
       (''title'', JStr (tc_title c))] @
      (case tc_project c of None \<Rightarrow> [] | Some p \<Rightarrow> [(''project_key'', JStr p)]))"

record custody_command =
  cc_command :: uuid
  cc_expected :: int
  cc_from :: uuid
  cc_protected :: bool
  cc_reason :: string
  cc_ticket :: uuid
  cc_to :: uuid

definition custody_payload :: "custody_command \<Rightarrow> json" where
  "custody_payload c = JObj
     [(''expected_version'', JInt (cc_expected c)), (''from_custodian_id'', JStr (uuid_str (cc_from c))),
      (''protected_transfer'', JBool (cc_protected c)), (''reason'', JStr (cc_reason c)),
      (''ticket_id'', JStr (uuid_str (cc_ticket c))), (''to_custodian_id'', JStr (uuid_str (cc_to c)))]"

definition initial_custody_refusal :: "actor \<Rightarrow> uuid \<Rightarrow> uuid \<Rightarrow> record_problem option" where
  "initial_custody_refusal a command custodian =
     (if ac_kind a = Commander \<and> custodian = ac_principal a \<or>
         ac_kind a = Operator \<and> custodian \<noteq> ac_principal a
      then None
      else Some (problem ''unauthorized''
        (''Initial custody requires Commander self-custody or an operator placing '' @
         ''custody with an eligible Commander.'')
        403 ''Initial custody refused'' (Some command)))"

text \<open>\<open>^[a-z][a-z0-9-]{2,63}$\<close>\<close>

definition project_key_ok :: "string \<Rightarrow> bool" where
  "project_key_ok s =
     (case s of [] \<Rightarrow> False
      | c # cs \<Rightarrow> is_lower c \<and> 2 \<le> length cs \<and> length cs \<le> 63 \<and>
          list_all (\<lambda>x. is_lower x \<or> is_digit x \<or> x = CHR ''-'') cs)"

definition ticket_refusal :: "ticket_command \<Rightarrow> string \<Rightarrow> record_problem" where
  "ticket_refusal c detail =
     problem ''unauthorized'' detail 403 ''Ticket command refused'' (Some (tc_command c))"

definition ticket_validation_refusal :: "ticket_command \<Rightarrow> record_problem option" where
  "ticket_validation_refusal c =
     (if tc_priority c \<notin> set priorities
      then Some (ticket_refusal c ''Ticket priority is outside P0/P1/P2.'')
      else case tc_project c of
        None \<Rightarrow> None
      | Some p \<Rightarrow> if project_key_ok p then None
          else Some (problem ''validation-error'' ''Ticket project key is invalid.'' 422
            ''Invalid ticket command'' (Some (tc_command c))))"

text \<open>
  What Work hands to Record: nothing (the refusal is immediate), or the command with its digest and
  possibly a policy refusal Record must persist instead of the ticket.
\<close>

datatype 'c handoff = Immediate record_problem | Handoff 'c string "record_problem option"

definition create_ticket :: "actor \<Rightarrow> ticket_command \<Rightarrow> ticket_command handoff" where
  "create_ticket a c =
     (let digest = sha256_hex (json_dumps (ticket_payload c)) in
      if ac_kind a = MigrationImporter then Immediate (importer_refusal (Some (tc_command c)))
      else case credential_scope_refusal a ScopeCapture (Some (tc_command c)) of
        Some p \<Rightarrow> Immediate p
      | None \<Rightarrow>
        (case initial_custody_refusal a (tc_command c) (tc_custodian c) of
           Some p \<Rightarrow> Handoff c digest (Some p)
         | None \<Rightarrow>
           (case ticket_validation_refusal c of
              Some p \<Rightarrow> Immediate p
            | None \<Rightarrow>
                if tc_priority c = ''P0'' \<and> ac_kind a \<noteq> Operator
                then Immediate (ticket_refusal c ''Only an operator may create a P0 ticket.'')
                else Handoff c digest None)))"

definition transfer_custody :: "actor \<Rightarrow> custody_command \<Rightarrow> custody_command handoff" where
  "transfer_custody a c =
     (let digest = sha256_hex (json_dumps (custody_payload c));
          refusal = problem ''unauthorized'' ''Custody transfer requires protected operator authority.''
            403 ''Custody transfer refused'' (Some (cc_command c)) in
      if ac_kind a = MigrationImporter then Immediate (importer_refusal (Some (cc_command c)))
      else case credential_scope_refusal a ScopeTransition (Some (cc_command c)) of
        Some p \<Rightarrow> Immediate p
      | None \<Rightarrow>
          if ac_kind a \<noteq> Operator \<or> \<not> cc_protected c
          then (if ac_seat a = None then Immediate refusal else Handoff c digest (Some refusal))
          else Handoff c digest None)"

end
