(* ===== verification/WorkStore.thy ===== *)
theory WorkStore
  imports WorkCommands Reach
begin

text \<open>
  The Work tables and the statements of \<open>ctower_kernel/work/_assignments.py\<close>, \<open>_intents.py\<close>,
  \<open>_blockers.py\<close>, \<open>_priority.py\<close>, \<open>_relations.py\<close> and \<open>_review_dispatch.py\<close>. A table is the list
  of its rows in insertion order; every statement of a handler is a read or an update of those
  lists, in the order the handler issues them. Fresh row identifiers and the clock are arguments.
  \<open>ON CONFLICT DO NOTHING\<close> is modelled with the unique keys of the migrations; the constraints that abort
  a statement are the subject of \<open>WorkChecks\<close>.
\<close>

section \<open>Tables\<close>

record principal_row =
  pr_tenant :: uuid
  pr_id :: uuid
  pr_kind :: string
  pr_disabled :: bool

record ticket_row =
  tk_tenant :: uuid
  tk_id :: uuid
  tk_version :: int
  tk_priority :: string
  tk_episode :: nat
  tk_custodian :: uuid

datatype lifecycle_state = StOpen | StActive | StWaiting | StResolved | StClosed | StCancelled

record episode_row =
  ep_tenant :: uuid
  ep_ticket :: uuid
  ep_number :: nat
  ep_state :: lifecycle_state
  ep_opened :: datetime
  ep_closed :: "datetime option"

record interval_row =
  iv_tenant :: uuid
  iv_ticket :: uuid
  iv_kind :: assignment_kind
  iv_scope :: "string option"
  iv_sequence :: nat
  iv_principal :: uuid
  iv_assigned :: datetime
  iv_released :: "datetime option"
  iv_changed_by :: uuid
  iv_reason :: string
  iv_command :: uuid
  iv_episode :: nat

record admission_row =
  ad_id :: uuid
  ad_tenant :: uuid
  ad_ticket :: uuid
  ad_episode :: nat
  ad_sequence :: nat
  ad_admitted :: bool
  ad_review_after :: "datetime option"
  ad_reason :: string
  ad_actor :: uuid
  ad_command :: uuid
  ad_recorded :: datetime

record lifecycle_row =
  lf_id :: uuid
  lf_tenant :: uuid
  lf_ticket :: uuid
  lf_episode :: nat
  lf_sequence :: nat
  lf_state :: string
  lf_actor :: uuid
  lf_command :: uuid
  lf_recorded :: datetime
  lf_reason :: string

record priority_row =
  pf_tenant :: uuid
  pf_ticket :: uuid
  pf_sequence :: nat
  pf_priority :: string
  pf_changed_by :: uuid
  pf_reason :: string
  pf_command :: uuid
  pf_recorded :: datetime
  pf_episode :: nat
  pf_operation :: string
  pf_previous :: "string option"
  pf_authority :: string
  pf_policy :: string
  pf_evidence :: "string option"

record blocker_row =
  bk_tenant :: uuid
  bk_ticket :: uuid
  bk_reason :: string
  bk_facts :: block_facts
  bk_opened :: datetime
  bk_resolved :: "datetime option"
  bk_evidence :: "string option"

record blocker_fact_row =
  bf_id :: uuid
  bf_blocker :: uuid
  bf_tenant :: uuid
  bf_sequence :: nat
  bf_operation :: string
  bf_actor :: uuid
  bf_command :: uuid
  bf_reason :: string
  bf_evidence :: "string option"
  bf_recorded :: datetime

record relation_row =
  rl_id :: uuid
  rl_tenant :: uuid
  rl_source :: uuid
  rl_target :: uuid
  rl_kind :: relation_kind
  rl_actor :: uuid
  rl_reason :: string
  rl_command :: uuid
  rl_recorded :: datetime

record effect_row =
  ef_id :: uuid
  ef_tenant :: uuid
  ef_ticket :: uuid
  ef_author :: uuid
  ef_author_family :: string
  ef_rule :: string
  ef_candidate :: string

record binding_row =
  mb_tenant :: uuid
  mb_principal :: uuid
  mb_model :: string
  mb_family :: string

record consumption_row =
  cs_effect :: uuid
  cs_tenant :: uuid
  cs_reviewer :: uuid
  cs_author_family :: string
  cs_model :: string
  cs_family :: string
  cs_crew :: string
  cs_consumed_by :: uuid
  cs_consumed_at :: datetime

text \<open>A verdict of a proof bundle of a ticket, joined with its bundle.\<close>

record verdict_row =
  vd_id :: uuid
  vd_tenant :: uuid
  vd_ticket :: uuid
  vd_criterion :: string
  vd_candidate :: string
  vd_reviewer :: uuid

record link_row =
  lk_effect :: uuid
  lk_verdict :: uuid
  lk_tenant :: uuid
  lk_linked :: datetime

record work_store =
  ws_principals :: "principal_row list"
  ws_tickets :: "ticket_row list"
  ws_episodes :: "episode_row list"
  ws_intervals :: "interval_row list"
  ws_admissions :: "admission_row list"
  ws_lifecycle :: "lifecycle_row list"
  ws_priorities :: "priority_row list"
  ws_blockers :: "blocker_row list"
  ws_blocker_facts :: "blocker_fact_row list"
  ws_relations :: "relation_row list"
  ws_effects :: "effect_row list"
  ws_lenses :: "(uuid \<times> uuid \<times> string) list"
  ws_bindings :: "binding_row list"
  ws_consumptions :: "consumption_row list"
  ws_verdicts :: "verdict_row list"
  ws_links :: "link_row list"

text \<open>\<open>UPDATE ... WHERE\<close>\<close>

definition update_where :: "('r \<Rightarrow> bool) \<Rightarrow> ('r \<Rightarrow> 'r) \<Rightarrow> 'r list \<Rightarrow> 'r list" where
  "update_where P f rows = map (\<lambda>r. if P r then f r else r) rows"

text \<open>A handler returns the event data and the store, or a problem that leaves nothing behind.\<close>

type_synonym handled = "record_problem + members \<times> work_store"

definition ticket_is :: "actor \<Rightarrow> uuid \<Rightarrow> ticket_row \<Rightarrow> bool" where
  "ticket_is a t r \<longleftrightarrow> tk_tenant r = ac_tenant a \<and> tk_id r = t"

definition find_ticket :: "actor \<Rightarrow> uuid \<Rightarrow> work_store \<Rightarrow> ticket_row option" where
  "find_ticket a t s = find (ticket_is a t) (ws_tickets s)"

text \<open>\<open>SELECT current_episode FROM tickets\<close> of a ticket the transaction has locked.\<close>

definition current_episode :: "actor \<Rightarrow> uuid \<Rightarrow> work_store \<Rightarrow> nat" where
  "current_episode a t s = (case find_ticket a t s of Some r \<Rightarrow> tk_episode r | None \<Rightarrow> 0)"

definition principal_of :: "actor \<Rightarrow> uuid \<Rightarrow> work_store \<Rightarrow> principal_row option" where
  "principal_of a p s =
     find (\<lambda>r. pr_tenant r = ac_tenant a \<and> pr_id r = p \<and> \<not> pr_disabled r) (ws_principals s)"

section \<open>Assignments\<close>

definition assignable_kinds :: "assignment_kind \<Rightarrow> string list" where
  "assignable_kinds k =
     (case k of
        CurrentAssignee \<Rightarrow> [''agent'', ''commander'', ''operator'']
      | StageOwner \<Rightarrow> [''agent'', ''commander'']
      | ReviewerAssignment \<Rightarrow> [''reviewer'', ''operator'']
      | _ \<Rightarrow> [])"

definition eligible :: "actor \<Rightarrow> assignment_kind \<Rightarrow> uuid \<Rightarrow> work_store \<Rightarrow> bool" where
  "eligible a k p s =
     (case principal_of a p s of Some r \<Rightarrow> pr_kind r \<in> set (assignable_kinds k) | None \<Rightarrow> False)"

definition same_lane :: "actor \<Rightarrow> uuid \<Rightarrow> assignment_kind \<Rightarrow> interval_row \<Rightarrow> bool" where
  "same_lane a t k r \<longleftrightarrow> iv_tenant r = ac_tenant a \<and> iv_ticket r = t \<and> iv_kind r = k"

definition open_in_scope ::
  "actor \<Rightarrow> uuid \<Rightarrow> assignment_kind \<Rightarrow> string option \<Rightarrow> interval_row \<Rightarrow> bool" where
  "open_in_scope a t k scope r \<longleftrightarrow> same_lane a t k r \<and> iv_scope r = scope \<and> iv_released r = None"

definition work_conflict :: "work_command \<Rightarrow> string \<Rightarrow> string \<Rightarrow> record_problem" where
  "work_conflict c code title = work_problem c code 409 title"

definition change_assignment ::
  "actor \<Rightarrow> work_command \<Rightarrow> assignment_kind \<Rightarrow> uuid \<Rightarrow> string option \<Rightarrow> datetime \<Rightarrow> work_store \<Rightarrow> handled"
  where
  "change_assignment a c k p scope now s =
     (if \<not> eligible a k p s
      then Inl (work_conflict c ''work-assignment-target-ineligible'' ''Assignment target unavailable'')
      else
        let t = wc_ticket c;
            previous = map_option iv_principal (find (open_in_scope a t k scope) (ws_intervals s)) in
        if previous = Some p
        then Inl (work_conflict c ''work-assignment-unchanged'' ''Assignment target is already current'')
        else
          let released = (if previous \<noteq> None
                then update_where (open_in_scope a t k scope) (iv_released_update (\<lambda>_. Some now)) (ws_intervals s)
                else ws_intervals s);
              row = \<lparr>iv_tenant = ac_tenant a, iv_ticket = t, iv_kind = k, iv_scope = scope,
                iv_sequence = next_sequence (map iv_sequence (filter (same_lane a t k) released)),
                iv_principal = p, iv_assigned = now, iv_released = None, iv_changed_by = ac_principal a,
                iv_reason = wc_reason c, iv_command = wc_command c,
                iv_episode = current_episode a t s\<rparr>
          in Inr ([(''assignment_kind'', JStr (assignment_value k)),
                   (''from_principal_id'', opt_str (map_option uuid_str previous)),
                   (''reason'', JStr (wc_reason c)), (''scope_ref'', opt_str scope),
                   (''to_principal_id'', JStr (uuid_str p))],
                  s\<lparr>ws_intervals := released @ [row]\<rparr>))"

section \<open>Review dispatch\<close>

definition dispatch_scope :: "uuid \<Rightarrow> string" where
  "dispatch_scope e = ''review-dispatch:'' @ uuid_str e"

definition verdict_links :: "actor \<Rightarrow> effect_row \<Rightarrow> datetime \<Rightarrow> work_store \<Rightarrow> link_row list" where
  "verdict_links a e now s =
     map (\<lambda>v. \<lparr>lk_effect = ef_id e, lk_verdict = vd_id v, lk_tenant = ef_tenant e, lk_linked = now\<rparr>)
       (filter (\<lambda>v. vd_tenant v = ef_tenant e \<and> vd_ticket v = ef_ticket e \<and>
            (ef_id e, ef_tenant e, vd_criterion v) \<in> set (ws_lenses s) \<and>
            vd_candidate v = ef_candidate e \<and> vd_reviewer v = ac_principal a) (ws_verdicts s))"

text \<open>\<open>INSERT ... ON CONFLICT (verdict_id) DO NOTHING\<close>, row by row.\<close>

fun insert_links :: "link_row list \<Rightarrow> link_row list \<Rightarrow> link_row list" where
  "insert_links rows [] = rows"
| "insert_links rows (l # ls) =
     (if lk_verdict l \<in> lk_verdict ` set rows then insert_links rows ls else insert_links (rows @ [l]) ls)"

definition record_consumption ::
  "actor \<Rightarrow> effect_row \<Rightarrow> binding_row \<Rightarrow> string \<Rightarrow> datetime \<Rightarrow> work_store \<Rightarrow> work_store" where
  "record_consumption a e b crew now s =
     (let row = \<lparr>cs_effect = ef_id e, cs_tenant = ac_tenant a, cs_reviewer = ac_principal a,
            cs_author_family = ef_author_family e, cs_model = mb_model b, cs_family = mb_family b,
            cs_crew = crew, cs_consumed_by = ac_principal a, cs_consumed_at = now\<rparr>
      in s\<lparr>ws_consumptions := ws_consumptions s @ [row],
           ws_links := insert_links (ws_links s) (verdict_links a e now s)\<rparr>)"

definition consume_review_dispatch ::
  "actor \<Rightarrow> work_command \<Rightarrow> uuid \<Rightarrow> string \<Rightarrow> datetime \<Rightarrow> work_store \<Rightarrow> handled" where
  "consume_review_dispatch a c effect crew now s =
     (case find (\<lambda>e. ef_id e = effect \<and> ef_tenant e = ac_tenant a \<and> ef_ticket e = wc_ticket c) (ws_effects s) of
        None \<Rightarrow> Inl (work_problem c ''review-dispatch-unavailable'' 404 ''Review dispatch unavailable'')
      | Some e \<Rightarrow>
        if list_ex (\<lambda>r. cs_effect r = effect \<and> cs_tenant r = ac_tenant a) (ws_consumptions s)
        then Inl (work_conflict c ''review-dispatch-already-consumed'' ''Review dispatch already consumed'')
        else if ac_principal a = ef_author e
        then Inl (work_conflict c ''review-dispatch-self-review'' ''Review author cannot review'')
        else (case find (\<lambda>b. mb_tenant b = ac_tenant a \<and> mb_principal b = ac_principal a) (ws_bindings s) of
            None \<Rightarrow> Inl (work_conflict c ''review-dispatch-model-unbound''
              ''Authenticated reviewer has no registered model family'')
          | Some b \<Rightarrow>
            if ef_rule e = ''different_from_author'' \<and> ef_author_family e = mb_family b
            then Inl (work_conflict c ''review-dispatch-family-conflict''
              ''Reviewer model family must differ from author family'')
            else bindE (change_assignment a c ReviewerAssignment (ac_principal a)
                (Some (dispatch_scope effect)) now s) (\<lambda>(data, s').
              Inr (data, record_consumption a e b crew now s'))))"

section \<open>Lifecycle intents\<close>

definition state_value :: "lifecycle_state \<Rightarrow> string" where
  "state_value st =
     (case st of StOpen \<Rightarrow> ''open'' | StActive \<Rightarrow> ''active'' | StWaiting \<Rightarrow> ''waiting''
      | StResolved \<Rightarrow> ''resolved'' | StClosed \<Rightarrow> ''closed'' | StCancelled \<Rightarrow> ''cancelled'')"

definition episode_is :: "actor \<Rightarrow> uuid \<Rightarrow> nat \<Rightarrow> episode_row \<Rightarrow> bool" where
  "episode_is a t n r \<longleftrightarrow> ep_tenant r = ac_tenant a \<and> ep_ticket r = t \<and> ep_number r = n"

definition episode_state :: "actor \<Rightarrow> uuid \<Rightarrow> nat \<Rightarrow> work_store \<Rightarrow> lifecycle_state option" where
  "episode_state a t n s = map_option ep_state (find (episode_is a t n) (ws_episodes s))"

definition set_episode :: "actor \<Rightarrow> uuid \<Rightarrow> nat \<Rightarrow> lifecycle_state \<Rightarrow> work_store \<Rightarrow> work_store" where
  "set_episode a t n st s =
     s\<lparr>ws_episodes := update_where (episode_is a t n) (ep_state_update (\<lambda>_. st)) (ws_episodes s)\<rparr>"

definition admission_fact ::
  "actor \<Rightarrow> work_command \<Rightarrow> uuid \<Rightarrow> nat \<Rightarrow> bool \<Rightarrow> datetime option \<Rightarrow> datetime \<Rightarrow> work_store \<Rightarrow> work_store"
  where
  "admission_fact a c fid n admitted review now s =
     (let mine = filter (\<lambda>r. ad_tenant r = ac_tenant a \<and> ad_ticket r = wc_ticket c \<and> ad_episode r = n)
            (ws_admissions s);
          row = \<lparr>ad_id = fid, ad_tenant = ac_tenant a, ad_ticket = wc_ticket c, ad_episode = n,
            ad_sequence = next_sequence (map ad_sequence mine), ad_admitted = admitted,
            ad_review_after = review, ad_reason = wc_reason c, ad_actor = ac_principal a,
            ad_command = wc_command c, ad_recorded = now\<rparr>
      in s\<lparr>ws_admissions := ws_admissions s @ [row]\<rparr>)"

definition lifecycle_fact ::
  "actor \<Rightarrow> work_command \<Rightarrow> uuid \<Rightarrow> nat \<Rightarrow> string \<Rightarrow> datetime \<Rightarrow> work_store \<Rightarrow> work_store" where
  "lifecycle_fact a c fid n st now s =
     (let mine = filter (\<lambda>r. lf_tenant r = ac_tenant a \<and> lf_ticket r = wc_ticket c \<and> lf_episode r = n)
            (ws_lifecycle s);
          row = \<lparr>lf_id = fid, lf_tenant = ac_tenant a, lf_ticket = wc_ticket c, lf_episode = n,
            lf_sequence = next_sequence (map lf_sequence mine), lf_state = st, lf_actor = ac_principal a,
            lf_command = wc_command c, lf_recorded = now, lf_reason = wc_reason c\<rparr>
      in s\<lparr>ws_lifecycle := ws_lifecycle s @ [row]\<rparr>)"

definition intent_problem :: "work_command \<Rightarrow> string \<Rightarrow> string \<Rightarrow> string \<Rightarrow> record_problem" where
  "intent_problem c code title unmet = (work_conflict c code title)\<lparr>rp_unmet := [unmet]\<rparr>"

definition admit_ticket ::
  "actor \<Rightarrow> work_command \<Rightarrow> uuid \<Rightarrow> uuid \<Rightarrow> nat \<Rightarrow> datetime \<Rightarrow> work_store \<Rightarrow> handled" where
  "admit_ticket a c fid lifecycle n now s =
     (if episode_state a (wc_ticket c) n s \<notin> {Some StOpen, Some StWaiting}
      then Inl (intent_problem c ''work-intent-unmet'' ''Open or waiting episode required''
        ''lifecycle.open-or-waiting@1'')
      else
        let s = admission_fact a c fid n True None now s;
            s = lifecycle_fact a c lifecycle n ''active'' now s
        in Inr ([(''episode_number'', JInt (int n)), (''reason'', JStr (wc_reason c))],
                set_episode a (wc_ticket c) n StActive s))"

definition defer_ticket ::
  "actor \<Rightarrow> work_command \<Rightarrow> datetime \<Rightarrow> uuid \<Rightarrow> uuid \<Rightarrow> nat \<Rightarrow> datetime \<Rightarrow> work_store \<Rightarrow> handled" where
  "defer_ticket a c review fid lifecycle n now s =
     (if episode_state a (wc_ticket c) n s \<notin> {Some StOpen, Some StActive, Some StWaiting}
      then Inl (intent_problem c ''work-intent-unmet'' ''Actionable episode required''
        ''lifecycle.actionable@1'')
      else
        let s = admission_fact a c fid n False (Some review) now s;
            s = lifecycle_fact a c lifecycle n ''waiting'' now s
        in Inr ([(''episode_number'', JInt (int n)), (''reason'', JStr (wc_reason c)),
                 (''review_after'', JStr (isoformat review))],
                set_episode a (wc_ticket c) n StWaiting s))"

definition eligible_custodian :: "actor \<Rightarrow> uuid \<Rightarrow> work_store \<Rightarrow> bool" where
  "eligible_custodian a p s =
     (case principal_of a p s of Some r \<Rightarrow> pr_kind r \<in> {''commander'', ''operator''} | None \<Rightarrow> False)"

definition carry_reason :: "work_command \<Rightarrow> string" where
  "carry_reason c = ''reopen carry-forward: '' @ wc_reason c"

definition reopen_custody ::
  "actor \<Rightarrow> work_command \<Rightarrow> uuid \<Rightarrow> nat \<Rightarrow> datetime \<Rightarrow> work_store \<Rightarrow> work_store" where
  "reopen_custody a c custodian n now s =
     (let row = \<lparr>iv_tenant = ac_tenant a, iv_ticket = wc_ticket c, iv_kind = TicketCustodian, iv_scope = None,
            iv_sequence = next_sequence (map iv_sequence
              (filter (same_lane a (wc_ticket c) TicketCustodian) (ws_intervals s))),
            iv_principal = custodian, iv_assigned = now, iv_released = None, iv_changed_by = ac_principal a,
            iv_reason = carry_reason c, iv_command = wc_command c, iv_episode = n\<rparr>
      in s\<lparr>ws_intervals := ws_intervals s @ [row]\<rparr>)"

definition priority_fact ::
  "actor \<Rightarrow> work_command \<Rightarrow> string \<Rightarrow> string \<Rightarrow> nat \<Rightarrow> string \<Rightarrow> string option \<Rightarrow> string \<Rightarrow> string \<Rightarrow>
   string option \<Rightarrow> datetime \<Rightarrow> work_store \<Rightarrow> work_store" where
  "priority_fact a c p reason n operation previous authority policy evidence now s =
     (let mine = filter (\<lambda>r. pf_tenant r = ac_tenant a \<and> pf_ticket r = wc_ticket c) (ws_priorities s);
          row = \<lparr>pf_tenant = ac_tenant a, pf_ticket = wc_ticket c,
            pf_sequence = next_sequence (map pf_sequence mine), pf_priority = p,
            pf_changed_by = ac_principal a, pf_reason = reason, pf_command = wc_command c,
            pf_recorded = now, pf_episode = n, pf_operation = operation, pf_previous = previous,
            pf_authority = authority, pf_policy = policy, pf_evidence = evidence\<rparr>
      in s\<lparr>ws_priorities := ws_priorities s @ [row]\<rparr>)"

definition reopen_ticket ::
  "actor \<Rightarrow> work_command \<Rightarrow> uuid \<Rightarrow> nat \<Rightarrow> uuid \<Rightarrow> string \<Rightarrow> datetime \<Rightarrow> work_store \<Rightarrow> handled" where
  "reopen_ticket a c lifecycle n custodian priority now s =
     (if episode_state a (wc_ticket c) n s \<notin> {Some StResolved, Some StClosed}
      then Inl (intent_problem c ''work-reopen-unmet'' ''Resolved or closed episode required''
        ''lifecycle.resolved-or-closed@1'')
      else if \<not> eligible_custodian a custodian s
      then Inl (intent_problem c ''work-assignment-target-ineligible''
        ''Eligible custodian required for reopened episode'' ''custody.eligible-current@1'')
      else
        let s = s\<lparr>ws_episodes := ws_episodes s @
              [\<lparr>ep_tenant = ac_tenant a, ep_ticket = wc_ticket c, ep_number = Suc n, ep_state = StOpen,
                ep_opened = now, ep_closed = None\<rparr>]\<rparr>;
            s = s\<lparr>ws_tickets := update_where (ticket_is a (wc_ticket c)) (tk_episode_update (\<lambda>_. Suc n))
              (ws_tickets s)\<rparr>;
            s = reopen_custody a c custodian (Suc n) now s;
            s = lifecycle_fact a c lifecycle (Suc n) ''reopened'' now s;
            s = priority_fact a c priority (carry_reason c) (Suc n) ''initial'' None ''reopen-policy''
              ''ctower.reopen-carry-forward@1'' None now s
        in Inr ([(''episode_number'', JInt (int (Suc n))), (''priority'', JStr priority),
                 (''reason'', JStr (wc_reason c))], s))"

section \<open>Priority\<close>

definition change_priority ::
  "actor \<Rightarrow> work_command \<Rightarrow> string \<Rightarrow> string option \<Rightarrow> string \<Rightarrow> nat \<Rightarrow> datetime \<Rightarrow> work_store \<Rightarrow>
   members \<times> work_store" where
  "change_priority a c p evidence previous n now s =
     (let s = priority_fact a c p (wc_reason c) n ''change'' (Some previous) (principal_value (ac_kind a))
            ''ctower.priority-authority@1'' evidence now s;
          s = s\<lparr>ws_tickets := update_where (ticket_is a (wc_ticket c)) (tk_priority_update (\<lambda>_. p)) (ws_tickets s)\<rparr>
      in ([(''authority'', JStr (principal_value (ac_kind a))), (''from_priority'', JStr previous),
           (''policy_ref'', JStr ''ctower.priority-authority@1''), (''reason'', JStr (wc_reason c)),
           (''to_priority'', JStr p), (''urgent_evidence_ref'', opt_str evidence)], s))"

section \<open>Blockers\<close>

definition blocker_fact ::
  "actor \<Rightarrow> work_command \<Rightarrow> uuid \<Rightarrow> uuid \<Rightarrow> string \<Rightarrow> string option \<Rightarrow> datetime \<Rightarrow> work_store \<Rightarrow> work_store"
  where
  "blocker_fact a c fid blocker operation evidence now s =
     (let mine = filter (\<lambda>r. bf_blocker r = blocker) (ws_blocker_facts s);
          row = \<lparr>bf_id = fid, bf_blocker = blocker, bf_tenant = ac_tenant a,
            bf_sequence = next_sequence (map bf_sequence mine), bf_operation = operation,
            bf_actor = ac_principal a, bf_command = wc_command c, bf_reason = wc_reason c,
            bf_evidence = evidence, bf_recorded = now\<rparr>
      in s\<lparr>ws_blocker_facts := ws_blocker_facts s @ [row]\<rparr>)"

definition blocker_id :: "blocker_row \<Rightarrow> uuid" where
  "blocker_id r = bl_blocker (bk_facts r)"

definition opened_head :: "actor \<Rightarrow> work_command \<Rightarrow> block_facts \<Rightarrow> datetime \<Rightarrow> blocker_row" where
  "opened_head a c b now =
     \<lparr>bk_tenant = ac_tenant a, bk_ticket = wc_ticket c, bk_reason = wc_reason c, bk_facts = b,
      bk_opened = now, bk_resolved = None, bk_evidence = None\<rparr>"

definition open_blocker ::
  "actor \<Rightarrow> work_command \<Rightarrow> block_facts \<Rightarrow> uuid \<Rightarrow> datetime \<Rightarrow> work_store \<Rightarrow> handled" where
  "open_blocker a c b fid now s =
     (if principal_of a (bl_owner b) s = None
      then Inl (work_conflict c ''work-blocker-owner-ineligible'' ''Blocker owner unavailable'')
      else if bl_blocker b \<in> blocker_id ` set (ws_blockers s)
      then Inl (work_conflict c ''work-blocker-id-conflict'' ''Blocker identifier already exists'')
      else
        let s = s\<lparr>ws_blockers := ws_blockers s @ [opened_head a c b now]\<rparr>;
            s = blocker_fact a c fid (bl_blocker b) ''opened'' None now s
        in Inr ([(''blocker_id'', JStr (uuid_str (bl_blocker b))), (''board_impact'', JBool (bl_board b)),
                 (''reason'', JStr (wc_reason c))], s))"

definition resolve_blocker ::
  "actor \<Rightarrow> work_command \<Rightarrow> uuid \<Rightarrow> string \<Rightarrow> uuid \<Rightarrow> datetime \<Rightarrow> work_store \<Rightarrow> handled" where
  "resolve_blocker a c blocker evidence fid now s =
     (case find (\<lambda>r. bk_tenant r = ac_tenant a \<and> bk_ticket r = wc_ticket c \<and> blocker_id r = blocker)
        (ws_blockers s) of
        None \<Rightarrow> Inl (work_conflict c ''work-blocker-unknown'' ''Effective blocker not found'')
      | Some r \<Rightarrow>
        if bk_resolved r \<noteq> None
        then Inl (work_conflict c ''work-blocker-already-resolved'' ''Blocker is already resolved'')
        else
          let s = s\<lparr>ws_blockers := update_where (\<lambda>r. bk_tenant r = ac_tenant a \<and> blocker_id r = blocker)
                (\<lambda>r. r\<lparr>bk_resolved := Some now, bk_evidence := Some evidence\<rparr>) (ws_blockers s)\<rparr>;
              s = blocker_fact a c fid blocker ''resolved'' (Some evidence) now s
          in Inr ([(''blocker_id'', JStr (uuid_str blocker)), (''reason'', JStr (wc_reason c)),
                   (''resolution_evidence_ref'', JStr evidence)], s))"

section \<open>Relations\<close>

text \<open>
  \<open>WITH RECURSIVE ... UNION\<close>: each round joins the working table of the previous one with the
  relation rows and keeps the rows that are new; the query ends when a round adds none.
\<close>

definition relation_edges :: "uuid \<Rightarrow> relation_kind \<Rightarrow> relation_row list \<Rightarrow> (uuid \<times> uuid) list" where
  "relation_edges tenant k rows =
     map (\<lambda>r. (rl_source r, rl_target r)) (filter (\<lambda>r. rl_tenant r = tenant \<and> rl_kind r = k) rows)"

definition cte_round :: "(uuid \<times> uuid) list \<Rightarrow> uuid set \<Rightarrow> uuid list \<Rightarrow> uuid list" where
  "cte_round es reached working =
     filter (\<lambda>t. t \<notin> reached) (remdups (map snd (filter (\<lambda>e. fst e \<in> set working) es)))"

definition cte_step :: "(uuid \<times> uuid) list \<Rightarrow> uuid set \<Rightarrow> uuid list \<Rightarrow> uuid set \<times> uuid list" where
  "cte_step es reached working =
     (let new = cte_round es reached working in (reached \<union> set new, new))"

lemma cte_round_set: "set (cte_round es reached working) = set es `` set working - reached"
  by (force simp: cte_round_def)

function cte_loop :: "(uuid \<times> uuid) list \<Rightarrow> uuid set \<Rightarrow> uuid list \<Rightarrow> uuid set" where
  "cte_loop es reached working =
     (if working = [] then reached
      else let (r, w) = cte_step es reached working in cte_loop es r w)"
  by pat_completeness auto
termination
proof (relation "measures [\<lambda>(es, r, w). card (snd ` set es - r), \<lambda>(es, r, w). length w]")
  fix es reached and working :: "uuid list" and x r w
  assume ne: "working \<noteq> []" and x: "x = cte_step es reached working" and rw: "(r, w) = x"
  have r: "r = reached \<union> set w" and w: "w = cte_round es reached working"
    using rw x by (simp_all add: cte_step_def Let_def)
  show "((es, r, w), es, reached, working) \<in>
      measures [\<lambda>(es, r, w). card (snd ` set es - r), \<lambda>(es, r, w). length w]"
  proof (cases "w = []")
    case True
    then show ?thesis using r ne by simp
  next
    case False
    then obtain d where d: "d \<in> set w" by (cases w) auto
    then have "d \<in> snd ` set es - reached"
      unfolding w cte_round_set by (auto simp: rev_image_eqI)
    then have "snd ` set es - r \<subset> snd ` set es - reached" using r d by auto
    then have "card (snd ` set es - r) < card (snd ` set es - reached)"
      by (rule psubset_card_mono [rotated]) simp
    then show ?thesis by simp
  qed
qed simp

declare cte_loop.simps [simp del]

interpretation cte_reach: search "set es" set "\<lambda>_. []" "cte_step es" "cte_loop es" for es
proof
  fix r :: "uuid set" and p :: "uuid list"
  show "cte_loop es r [] = r" by (subst cte_loop.simps) simp
  show "p \<noteq> [] \<Longrightarrow> cte_loop es r p = cte_loop es (fst (cte_step es r p)) (snd (cte_step es r p))"
    by (subst cte_loop.simps) (simp add: case_prod_beta)
  show "snd (cte_step es r p) = []" if "set es `` set p \<subseteq> r"
  proof -
    have "set (cte_round es r p) = {}" using that by (auto simp: cte_round_set)
    then show ?thesis by (simp add: cte_step_def Let_def)
  qed
qed (auto simp: cte_step_def Let_def cte_round_set)

definition reaches_source :: "actor \<Rightarrow> work_command \<Rightarrow> relation_kind \<Rightarrow> uuid \<Rightarrow> work_store \<Rightarrow> bool" where
  "reaches_source a c k target s \<longleftrightarrow>
     wc_ticket c \<in> cte_loop (relation_edges (ac_tenant a) k (ws_relations s)) {target} [target]"

definition same_relation :: "relation_row \<Rightarrow> relation_row \<Rightarrow> bool" where
  "same_relation r q \<longleftrightarrow>
     rl_id r = rl_id q \<or>
     rl_tenant r = rl_tenant q \<and> rl_source r = rl_source q \<and> rl_target r = rl_target q \<and> rl_kind r = rl_kind q"

definition added_relation ::
  "actor \<Rightarrow> work_command \<Rightarrow> relation_kind \<Rightarrow> uuid \<Rightarrow> uuid \<Rightarrow> datetime \<Rightarrow> relation_row" where
  "added_relation a c k target relation now =
     \<lparr>rl_id = relation, rl_tenant = ac_tenant a, rl_source = wc_ticket c, rl_target = target,
      rl_kind = k, rl_actor = ac_principal a, rl_reason = wc_reason c, rl_command = wc_command c,
      rl_recorded = now\<rparr>"

definition add_relation ::
  "actor \<Rightarrow> work_command \<Rightarrow> relation_kind \<Rightarrow> uuid \<Rightarrow> uuid \<Rightarrow> datetime \<Rightarrow> work_store \<Rightarrow> handled" where
  "add_relation a c k target relation now s =
     (if find_ticket a target s = None
      then Inl (work_problem c ''tenant-scope-denied'' 404 ''Target ticket unavailable'')
      else if wc_ticket c = target
      then Inl (work_conflict c ''work-relation-cycle'' ''Relation cycle refused'')
      else if k \<in> {ParentOf, DependsOn, Blocks} \<and> reaches_source a c k target s
      then Inl (work_conflict c ''work-relation-cycle'' ''Relation cycle refused'')
      else
        let row = added_relation a c k target relation now
        in if list_ex (same_relation row) (ws_relations s)
           then Inl (work_conflict c ''work-relation-exists'' ''Relation already exists'')
           else Inr ([(''relation_kind'', JStr (relation_value k)), (''reason'', JStr (wc_reason c)),
                      (''target_ticket_id'', JStr (uuid_str target))],
                     s\<lparr>ws_relations := ws_relations s @ [row]\<rparr>))"

end
