(* ===== verification/WorkChecks.thy ===== *)
theory WorkChecks
  imports WorkStore
begin

text \<open>
  The constraints of the Work tables, from the migrations under \<open>packages/ctower-kernel/migrations\<close>: the CHECKs of
  the columns, the keys and unique indexes, the foreign keys and the overlap trigger. PostgreSQL checks them
  at every statement. The statements of one Work transaction insert rows and release an interval, resolve a
  blocker or move a ticket, and none of them mends what another broke, so a transaction on tables that
  satisfy the constraints passes exactly when the tables it ends with satisfy them. A statement that breaks one
  raises a \<open>psycopg.Error\<close>, which rolls the transaction back. Texts are UTF-8 bytes, whose length is counted
  in code points; a text with a NUL is refused by the driver. The foreign keys to \<open>tenants\<close> and the constraints of
  tables that Work only reads are not modelled.
\<close>

section \<open>Columns\<close>

definition constraint_error :: py_exc where
  "constraint_error = PsycopgError ''constraint''"

definition text_between :: "nat \<Rightarrow> nat \<Rightarrow> string \<Rightarrow> bool" where
  "text_between lo hi s \<longleftrightarrow> lo \<le> code_points s \<and> code_points s \<le> hi \<and> CHR 0x00 \<notin> set s"

definition opt_between :: "nat \<Rightarrow> nat \<Rightarrow> string option \<Rightarrow> bool" where
  "opt_between lo hi x = (case x of None \<Rightarrow> True | Some s \<Rightarrow> text_between lo hi s)"

text \<open>An \<open>integer\<close> column with \<open>CHECK (x >= 1)\<close>.\<close>

definition positive_int4 :: "int \<Rightarrow> bool" where
  "positive_int4 i \<longleftrightarrow> 1 \<le> i \<and> i \<le> 2147483647"

definition ticket_checks :: "ticket_row \<Rightarrow> bool" where
  "ticket_checks r \<longleftrightarrow>
     tk_priority r \<in> {''P0'', ''P1'', ''P2''} \<and> positive_int4 (tk_version r) \<and> positive_int4 (int (tk_episode r))"

definition interval_checks :: "interval_row \<Rightarrow> bool" where
  "interval_checks r \<longleftrightarrow>
     text_between 1 500 (iv_reason r) \<and> opt_between 1 256 (iv_scope r) \<and> positive_int4 (int (iv_sequence r)) \<and>
     positive_int4 (int (iv_episode r)) \<and> (case iv_released r of None \<Rightarrow> True | Some e \<Rightarrow> iv_assigned r \<le> e)"

definition priority_checks :: "priority_row \<Rightarrow> bool" where
  "priority_checks r \<longleftrightarrow>
     pf_priority r \<in> {''P0'', ''P1'', ''P2''} \<and> text_between 1 500 (pf_reason r) \<and>
     positive_int4 (int (pf_sequence r)) \<and> positive_int4 (int (pf_episode r)) \<and>
     (pf_operation r = ''initial'' \<and> pf_previous r = None \<or>
      pf_operation r = ''change'' \<and>
        (case pf_previous r of None \<Rightarrow> False | Some q \<Rightarrow> q \<in> {''P0'', ''P1'', ''P2''})) \<and>
     pf_authority r \<in> {''ticket-create'', ''commander'', ''operator'', ''reopen-policy''} \<and>
     versioned_reference (pf_policy r) \<and> opt_between 1 256 (pf_evidence r)"

definition admission_checks :: "admission_row \<Rightarrow> bool" where
  "admission_checks r \<longleftrightarrow>
     text_between 1 500 (ad_reason r) \<and> positive_int4 (int (ad_episode r)) \<and> positive_int4 (int (ad_sequence r))"

definition lifecycle_checks :: "lifecycle_row \<Rightarrow> bool" where
  "lifecycle_checks r \<longleftrightarrow>
     lf_state r \<in> {''open'', ''active'', ''waiting'', ''resolved'', ''closed'', ''cancelled'', ''reopened''} \<and>
     text_between 1 500 (lf_reason r) \<and> positive_int4 (int (lf_episode r)) \<and> positive_int4 (int (lf_sequence r))"

text \<open>A resolved head has its evidence; \<open>dependency_ref\<close> may be empty.\<close>

definition blocker_checks :: "blocker_row \<Rightarrow> bool" where
  "blocker_checks r \<longleftrightarrow>
     bl_kind (bk_facts r) \<in> {''dependency'', ''operator_action'', ''policy'', ''resource'', ''technical''} \<and>
     text_between 1 64 (bl_class (bk_facts r)) \<and> text_between 1 500 (bk_reason r) \<and>
     text_between 1 256 (bl_source (bk_facts r)) \<and>
     (case bl_stage (bk_facts r) of None \<Rightarrow> True | Some k \<Rightarrow> stable_key k) \<and>
     text_between 1 500 (bl_condition (bk_facts r)) \<and> opt_between 0 256 (bl_dependency (bk_facts r)) \<and>
     (case bk_resolved r of None \<Rightarrow> bk_evidence r = None | Some _ \<Rightarrow> opt_between 1 256 (bk_evidence r))"

definition blocker_fact_checks :: "blocker_fact_row \<Rightarrow> bool" where
  "blocker_fact_checks r \<longleftrightarrow>
     positive_int4 (int (bf_sequence r)) \<and> bf_operation r \<in> {''opened'', ''resolved''} \<and>
     text_between 1 500 (bf_reason r) \<and> (case bf_evidence r of None \<Rightarrow> True | Some e \<Rightarrow> CHR 0x00 \<notin> set e)"

definition relation_checks :: "relation_row \<Rightarrow> bool" where
  "relation_checks r \<longleftrightarrow> text_between 1 500 (rl_reason r) \<and> rl_source r \<noteq> rl_target r"

definition consumption_checks :: "consumption_row \<Rightarrow> bool" where
  "consumption_checks r \<longleftrightarrow>
     stable_key (cs_author_family r) \<and> text_between 1 128 (cs_model r) \<and> stable_key (cs_family r) \<and>
     stable_family (cs_crew r) \<and> cs_author_family r \<noteq> cs_family r"

section \<open>Keys\<close>

definition interval_keys :: "interval_row list \<Rightarrow> bool" where
  "interval_keys rows \<longleftrightarrow>
     (let current = filter (\<lambda>r. iv_released r = None) rows in
      distinct (map (\<lambda>r. (iv_ticket r, iv_kind r, iv_sequence r)) rows) \<and>
      distinct (map (\<lambda>r. (iv_ticket r, iv_kind r, case iv_scope r of None \<Rightarrow> [] | Some k \<Rightarrow> k)) current) \<and>
      distinct (map iv_ticket (filter (\<lambda>r. iv_kind r = CurrentAssignee) current)) \<and>
      distinct (map iv_ticket (filter (\<lambda>r. iv_kind r = TicketCustodian) current)))"

text \<open>\<open>tstzrange(a, b, '[)') && tstzrange(c, d, '[)')\<close>: an absent bound is infinite, an empty range overlaps nothing.\<close>

definition before_end :: "datetime \<Rightarrow> datetime option \<Rightarrow> bool" where
  "before_end t e = (case e of None \<Rightarrow> True | Some u \<Rightarrow> t < u)"

definition ranges_overlap :: "interval_row \<Rightarrow> interval_row \<Rightarrow> bool" where
  "ranges_overlap r q \<longleftrightarrow>
     before_end (iv_assigned r) (iv_released r) \<and> before_end (iv_assigned q) (iv_released q) \<and>
     before_end (iv_assigned r) (iv_released q) \<and> before_end (iv_assigned q) (iv_released r)"

definition no_overlap :: "interval_row list \<Rightarrow> bool" where
  "no_overlap rows =
     list_all (\<lambda>r. list_all (\<lambda>q.
       \<not> (iv_ticket q = iv_ticket r \<and> iv_kind q = iv_kind r \<and> iv_scope q = iv_scope r \<and>
          iv_sequence q \<noteq> iv_sequence r \<and> ranges_overlap q r)) rows) rows"

definition fact_keys :: "work_store \<Rightarrow> bool" where
  "fact_keys s \<longleftrightarrow>
     distinct (map (\<lambda>r. (pf_ticket r, pf_sequence r)) (ws_priorities s)) \<and>
     distinct (map ad_id (ws_admissions s)) \<and>
     distinct (map (\<lambda>r. (ad_ticket r, ad_episode r, ad_sequence r)) (ws_admissions s)) \<and>
     distinct (map lf_id (ws_lifecycle s)) \<and>
     distinct (map (\<lambda>r. (lf_ticket r, lf_episode r, lf_sequence r)) (ws_lifecycle s)) \<and>
     distinct (map (\<lambda>r. (ep_ticket r, ep_number r)) (ws_episodes s))"

definition blocker_keys :: "work_store \<Rightarrow> bool" where
  "blocker_keys s \<longleftrightarrow>
     distinct (map blocker_id (ws_blockers s)) \<and> distinct (map bf_id (ws_blocker_facts s)) \<and>
     distinct (map (\<lambda>r. (bf_blocker r, bf_sequence r)) (ws_blocker_facts s))"

definition relation_keys :: "relation_row list \<Rightarrow> bool" where
  "relation_keys rows \<longleftrightarrow>
     distinct (map rl_id rows) \<and> distinct (map (\<lambda>r. (rl_tenant r, rl_source r, rl_target r, rl_kind r)) rows)"

definition dispatch_keys :: "work_store \<Rightarrow> bool" where
  "dispatch_keys s \<longleftrightarrow> distinct (map cs_effect (ws_consumptions s)) \<and> distinct (map lk_verdict (ws_links s))"

section \<open>References\<close>

definition known_principal :: "work_store \<Rightarrow> uuid \<Rightarrow> uuid \<Rightarrow> bool" where
  "known_principal s tenant p = list_ex (\<lambda>r. pr_id r = p \<and> pr_tenant r = tenant) (ws_principals s)"

definition known_ticket :: "work_store \<Rightarrow> uuid \<Rightarrow> uuid \<Rightarrow> bool" where
  "known_ticket s tenant t = list_ex (\<lambda>r. tk_id r = t \<and> tk_tenant r = tenant) (ws_tickets s)"

definition interval_references :: "work_store \<Rightarrow> interval_row \<Rightarrow> bool" where
  "interval_references s r \<longleftrightarrow>
     known_ticket s (iv_tenant r) (iv_ticket r) \<and> known_principal s (iv_tenant r) (iv_principal r) \<and>
     known_principal s (iv_tenant r) (iv_changed_by r) \<and>
     list_ex (\<lambda>e. ep_ticket e = iv_ticket r \<and> ep_number e = iv_episode r) (ws_episodes s)"

definition blocker_references :: "work_store \<Rightarrow> blocker_row \<Rightarrow> bool" where
  "blocker_references s r \<longleftrightarrow>
     known_ticket s (bk_tenant r) (bk_ticket r) \<and> known_principal s (bk_tenant r) (bl_owner (bk_facts r))"

definition blocker_fact_references :: "work_store \<Rightarrow> blocker_fact_row \<Rightarrow> bool" where
  "blocker_fact_references s r \<longleftrightarrow>
     list_ex (\<lambda>b. blocker_id b = bf_blocker r \<and> bk_tenant b = bf_tenant r) (ws_blockers s) \<and>
     known_principal s (bf_tenant r) (bf_actor r)"

definition relation_references :: "work_store \<Rightarrow> relation_row \<Rightarrow> bool" where
  "relation_references s r \<longleftrightarrow>
     known_ticket s (rl_tenant r) (rl_source r) \<and> known_ticket s (rl_tenant r) (rl_target r) \<and>
     known_principal s (rl_tenant r) (rl_actor r)"

definition consumption_references :: "work_store \<Rightarrow> consumption_row \<Rightarrow> bool" where
  "consumption_references s r \<longleftrightarrow>
     list_ex (\<lambda>e. ef_id e = cs_effect r \<and> ef_tenant e = cs_tenant r \<and> ef_author_family e = cs_author_family r) (ws_effects s) \<and>
     known_principal s (cs_tenant r) (cs_reviewer r) \<and>
     list_ex (\<lambda>b. mb_tenant b = cs_tenant r \<and> mb_principal b = cs_reviewer r \<and> mb_model b = cs_model r \<and>
       mb_family b = cs_family r) (ws_bindings s) \<and>
     known_principal s (cs_tenant r) (cs_consumed_by r)"

definition link_references :: "work_store \<Rightarrow> link_row \<Rightarrow> bool" where
  "link_references s r \<longleftrightarrow>
     list_ex (\<lambda>e. ef_id e = lk_effect r \<and> ef_tenant e = lk_tenant r) (ws_effects s) \<and>
     list_ex (\<lambda>v. vd_id v = lk_verdict r \<and> vd_tenant v = lk_tenant r) (ws_verdicts s)"

section \<open>The constraints of the store\<close>

definition assignments_admitted :: "work_store \<Rightarrow> bool" where
  "assignments_admitted s \<longleftrightarrow>
     list_all interval_checks (ws_intervals s) \<and> interval_keys (ws_intervals s) \<and> no_overlap (ws_intervals s) \<and>
     list_all (interval_references s) (ws_intervals s)"

definition facts_admitted :: "work_store \<Rightarrow> bool" where
  "facts_admitted s \<longleftrightarrow>
     list_all ticket_checks (ws_tickets s) \<and>
     list_all (\<lambda>r. positive_int4 (int (ep_number r)) \<and> known_ticket s (ep_tenant r) (ep_ticket r)) (ws_episodes s) \<and>
     list_all (\<lambda>r. priority_checks r \<and> known_ticket s (pf_tenant r) (pf_ticket r) \<and>
       known_principal s (pf_tenant r) (pf_changed_by r)) (ws_priorities s) \<and>
     list_all (\<lambda>r. admission_checks r \<and> known_ticket s (ad_tenant r) (ad_ticket r) \<and>
       known_principal s (ad_tenant r) (ad_actor r)) (ws_admissions s) \<and>
     list_all (\<lambda>r. lifecycle_checks r \<and> known_ticket s (lf_tenant r) (lf_ticket r) \<and>
       known_principal s (lf_tenant r) (lf_actor r)) (ws_lifecycle s) \<and>
     fact_keys s"

definition blockers_admitted :: "work_store \<Rightarrow> bool" where
  "blockers_admitted s \<longleftrightarrow>
     list_all (\<lambda>r. blocker_checks r \<and> blocker_references s r) (ws_blockers s) \<and>
     list_all (\<lambda>r. blocker_fact_checks r \<and> blocker_fact_references s r) (ws_blocker_facts s) \<and> blocker_keys s"

definition relations_admitted :: "work_store \<Rightarrow> bool" where
  "relations_admitted s \<longleftrightarrow>
     list_all (\<lambda>r. relation_checks r \<and> relation_references s r) (ws_relations s) \<and> relation_keys (ws_relations s)"

definition dispatches_admitted :: "work_store \<Rightarrow> bool" where
  "dispatches_admitted s \<longleftrightarrow>
     list_all (\<lambda>r. consumption_checks r \<and> consumption_references s r) (ws_consumptions s) \<and>
     list_all (link_references s) (ws_links s) \<and> dispatch_keys s"

definition store_admitted :: "work_store \<Rightarrow> bool" where
  "store_admitted s \<longleftrightarrow>
     assignments_admitted s \<and> facts_admitted s \<and> blockers_admitted s \<and> relations_admitted s \<and> dispatches_admitted s"

lemmas store_admitted_defs = store_admitted_def assignments_admitted_def facts_admitted_def blockers_admitted_def
  relations_admitted_def dispatches_admitted_def

section \<open>Texts\<close>

lemma code_points_append [simp]: "code_points (s @ t) = code_points s + code_points t"
  by (simp add: code_points_def)

lemma code_points_replicate: "(of_char c :: nat) div 64 \<noteq> 2 \<Longrightarrow> code_points (replicate n c) = n"
  by (induction n) (simp_all add: code_points_def)

lemma carry_reason_length: "code_points (carry_reason c) = 22 + code_points (wc_reason c)"
  by (simp add: carry_reason_def) (simp add: code_points_def)

end
