(* ===== verification/WorkExecute.thy ===== *)
theory WorkExecute
  imports WorkChecks
begin

text \<open>
  \<open>ctower_kernel/work/_postgres_sql.py\<close> and \<open>_event_sql.py\<close>, with the command log of
  \<open>record/_commands.py\<close> and \<open>record/transaction.py\<close>: one authoritative Work transaction from the
  reservation of its command key to its event and its stored result, and the readiness read. The
  project-scope and subject-durability gates of Record are one argument, the refusal they give if
  any; row identifiers that the code draws at random are arguments. The transaction takes row locks
  on its tickets, so one call is one atomic step. A statement that breaks a constraint raises, and the
  connection rolls back what the transaction wrote.
\<close>

section \<open>The database of one transaction\<close>

record work_receipt =
  wt_command :: uuid
  wt_events :: "uuid list"
  wt_operation :: string
  wt_ticket :: uuid
  wt_version :: int

definition work_receipt_payload :: "work_receipt \<Rightarrow> json" where
  "work_receipt_payload r = JObj
     [(''command_id'', JStr (uuid_str (wt_command r))), (''durability_state'', JStr ''durability_pending''),
      (''event_ids'', JList (map (\<lambda>u. JStr (uuid_str u)) (wt_events r))),
      (''operation'', JStr (wt_operation r)), (''ticket_id'', JStr (uuid_str (wt_ticket r))),
      (''version'', JInt (wt_version r))]"

type_synonym work_outcome = "record_problem + work_receipt"

record result_row =
  cr_principal :: uuid
  cr_command :: uuid
  cr_digest :: string
  cr_outcome :: work_outcome

record event_row =
  ev_id :: uuid
  ev_tenant :: uuid
  ev_ticket :: uuid
  ev_sequence :: int
  ev_operation :: string
  ev_data :: members
  ev_actor :: uuid
  ev_command :: uuid
  ev_digest :: string
  ev_time :: datetime

record work_db =
  db_store :: work_store
  db_results :: "result_row list"
  db_events :: "event_row list"

record fresh_ids =
  fr_first :: uuid
  fr_second :: uuid
  fr_event :: uuid

section \<open>Command keys\<close>

definition idempotency_conflict :: "uuid \<Rightarrow> record_problem" where
  "idempotency_conflict command =
     problem ''idempotency-conflict'' ''The command key was already used with a different request body.''
       409 ''Idempotency conflict'' (Some command)"

text \<open>A stored problem is read back without its prohibited classes.\<close>

definition replayed :: "work_outcome \<Rightarrow> work_outcome" where
  "replayed x = (case x of Inl p \<Rightarrow> Inl (p\<lparr>rp_prohibited := []\<rparr>) | Inr r \<Rightarrow> Inr r)"

definition reserve_command :: "uuid \<Rightarrow> uuid \<Rightarrow> string \<Rightarrow> work_db \<Rightarrow> work_outcome option" where
  "reserve_command pid command digest db =
     (case find (\<lambda>r. cr_principal r = pid \<and> cr_command r = command) (db_results db) of
        None \<Rightarrow> None
      | Some r \<Rightarrow>
          if cr_digest r \<noteq> digest then Some (Inl (idempotency_conflict command))
          else Some (replayed (cr_outcome r)))"

definition store_result :: "actor \<Rightarrow> uuid \<Rightarrow> string \<Rightarrow> work_outcome \<Rightarrow> work_db \<Rightarrow> work_db" where
  "store_result a command digest x db =
     db\<lparr>db_results := db_results db @
       [\<lparr>cr_principal = ac_principal a, cr_command = command, cr_digest = digest, cr_outcome = x\<rparr>]\<rparr>"

text \<open>
  \<open>command_results\<close> takes a status of 200 to 299 or 400 to 499 from a principal of the tenant; the key is new, as
  the reservation has found.
\<close>

definition result_admitted :: "actor \<Rightarrow> int \<Rightarrow> work_store \<Rightarrow> bool" where
  "result_admitted a status s \<longleftrightarrow>
     (200 \<le> status \<and> status \<le> 299 \<or> 400 \<le> status \<and> status \<le> 499) \<and>
     known_principal s (ac_tenant a) (ac_principal a)"

definition refuse ::
  "actor \<Rightarrow> work_command \<Rightarrow> string \<Rightarrow> record_problem \<Rightarrow> work_db \<Rightarrow> (work_outcome \<times> work_db) py" where
  "refuse a c digest p db =
     (if \<not> result_admitted a (rp_status p) (db_store db) then Inl constraint_error
      else Inr (Inl p, store_result a (wc_command c) digest (Inl p) db))"

section \<open>Dispatch\<close>

text \<open>
  \<open>INSERT ... ON CONFLICT DO NOTHING\<close> checks the columns of its row before it looks for a conflict, so a blocker or a
  relation that breaks a CHECK raises also where its key is already there.
\<close>

definition inserted :: "bool \<Rightarrow> string \<Rightarrow> handled \<Rightarrow> handled py" where
  "inserted checks conflict x =
     (case x of
        Inl p \<Rightarrow> if rp_code p = conflict \<and> \<not> checks then Inl constraint_error else Inr (Inl p)
      | Inr y \<Rightarrow> if \<not> checks then Inl constraint_error else Inr (Inr y))"

definition mutate_intent ::
  "actor \<Rightarrow> work_command \<Rightarrow> ticket_row \<Rightarrow> fresh_ids \<Rightarrow> datetime \<Rightarrow> work_store \<Rightarrow> (string \<times> handled) py" where
  "mutate_intent a c t ids now s =
     (case wc_action c of
        Admit \<Rightarrow> Inr (''admitted'', admit_ticket a c (fr_first ids) (fr_second ids) (tk_episode t) now s)
      | Defer review \<Rightarrow>
          Inr (''deferred'', defer_ticket a c review (fr_first ids) (fr_second ids) (tk_episode t) now s)
      | Block b \<Rightarrow>
          bindE (inserted (blocker_checks (opened_head a c b now)) ''work-blocker-id-conflict''
            (open_blocker a c b (fr_first ids) now s)) (\<lambda>h. Inr (''blocker_opened'', h))
      | Unblock b e \<Rightarrow> Inr (''blocker_resolved'', resolve_blocker a c b e (fr_first ids) now s)
      | Reopen _ \<Rightarrow> Inr (''reopened'',
          reopen_ticket a c (fr_first ids) (tk_episode t) (tk_custodian t) (tk_priority t) now s)
      | AddRelation k target \<Rightarrow>
          bindE (inserted (relation_checks (added_relation a c k target (fr_first ids) now)) ''work-relation-exists''
            (add_relation a c k target (fr_first ids) now s)) (\<lambda>h. Inr (''relation_added'', h))
      | _ \<Rightarrow> Inl (TypeError ''unsupported Work command''))"

definition is_assignment_action :: "work_action \<Rightarrow> bool" where
  "is_assignment_action x =
     (case x of ChangeAssignment _ _ _ \<Rightarrow> True | ConsumeReviewDispatch _ _ \<Rightarrow> True | _ \<Rightarrow> False)"

definition terminal_title :: "work_action \<Rightarrow> string" where
  "terminal_title x =
     (case x of
        ChangeAssignment _ _ _ \<Rightarrow> ''Closed ticket requires a legal reopen before assignment''
      | _ \<Rightarrow> ''Closed ticket cannot consume a review dispatch'')"

definition mutate ::
  "actor \<Rightarrow> work_command \<Rightarrow> ticket_row \<Rightarrow> lifecycle_state \<Rightarrow> fresh_ids \<Rightarrow> datetime \<Rightarrow> work_store \<Rightarrow>
   (string \<times> handled) py" where
  "mutate a c t st ids now s =
     (if is_assignment_action (wc_action c) \<and> st \<in> {StClosed, StCancelled}
      then Inr (''assignment_changed'',
        Inl (work_conflict c ''work-ticket-terminal'' (terminal_title (wc_action c))))
      else case wc_action c of
        ChangePriority p e \<Rightarrow> Inr (''priority_changed'',
           if p = tk_priority t
           then Inl (work_conflict c ''work-priority-unchanged'' ''Priority is already current'')
           else Inr (change_priority a c p e (tk_priority t) (tk_episode t) now s))
      | ChangeAssignment k p scope \<Rightarrow> Inr (''assignment_changed'', change_assignment a c k p scope now s)
      | ConsumeReviewDispatch e crew \<Rightarrow>
          Inr (''assignment_changed'', consume_review_dispatch a c e crew now s)
      | _ \<Rightarrow> mutate_intent a c t ids now s)"

section \<open>One transaction\<close>

definition version_conflict :: "work_command \<Rightarrow> int \<Rightarrow> record_problem" where
  "version_conflict c version =
     (work_conflict c ''version-conflict'' ''Work version conflict'')\<lparr>rp_version := Some version\<rparr>"

definition set_version :: "actor \<Rightarrow> uuid \<Rightarrow> int \<Rightarrow> work_store \<Rightarrow> work_store" where
  "set_version a t v s =
     s\<lparr>ws_tickets := update_where (ticket_is a t) (tk_version_update (\<lambda>_. v)) (ws_tickets s)\<rparr>"

text \<open>\<open>events\<close>: a fresh identifier, one row per stream and sequence, a positive sequence and a known actor.\<close>

definition event_admitted :: "event_row \<Rightarrow> work_db \<Rightarrow> bool" where
  "event_admitted e db \<longleftrightarrow>
     list_all (\<lambda>r. ev_id r \<noteq> ev_id e \<and>
       \<not> (ev_tenant r = ev_tenant e \<and> ev_ticket r = ev_ticket e \<and> ev_sequence r = ev_sequence e)) (db_events db) \<and>
     positive_int4 (ev_sequence e) \<and> known_principal (db_store db) (ev_tenant e) (ev_actor e)"

definition changed_event ::
  "actor \<Rightarrow> work_receipt \<Rightarrow> members \<Rightarrow> string \<Rightarrow> uuid \<Rightarrow> datetime \<Rightarrow> event_row" where
  "changed_event a receipt data digest event now =
     \<lparr>ev_id = event, ev_tenant = ac_tenant a, ev_ticket = wt_ticket receipt,
      ev_sequence = wt_version receipt, ev_operation = wt_operation receipt, ev_data = data,
      ev_actor = ac_principal a, ev_command = wt_command receipt, ev_digest = digest, ev_time = now\<rparr>"

definition append_change ::
  "actor \<Rightarrow> work_receipt \<Rightarrow> members \<Rightarrow> string \<Rightarrow> uuid \<Rightarrow> datetime \<Rightarrow> work_db \<Rightarrow>
   (work_outcome \<times> work_db) py" where
  "append_change a receipt data digest event now db =
     (let row = changed_event a receipt data digest event now;
          committed = receipt\<lparr>wt_events := [event]\<rparr>
      in if \<not> event_admitted row db \<or> \<not> result_admitted a 200 (db_store db) then Inl constraint_error
         else Inr (Inr committed, store_result a (wt_command receipt) digest (Inr committed)
           (db\<lparr>db_events := db_events db @ [row]\<rparr>)))"

text \<open>The part of \<open>execute_work\<close> after the reservation: ticket lock, version check, mutation, commit.\<close>

definition execute_locked ::
  "actor \<Rightarrow> work_command \<Rightarrow> string \<Rightarrow> fresh_ids \<Rightarrow> datetime \<Rightarrow> work_db \<Rightarrow> (work_outcome \<times> work_db) py" where
  "execute_locked a c digest ids now db =
     (let s = db_store db in
      case find_ticket a (wc_ticket c) s of
        None \<Rightarrow> refuse a c digest (work_problem c ''tenant-scope-denied'' 404 ''Ticket unavailable'') db
      | Some t \<Rightarrow>
        (case episode_state a (wc_ticket c) (tk_episode t) s of
           None \<Rightarrow> Inl (TypeError '''NoneType' object is not subscriptable'')
         | Some st \<Rightarrow>
             if wc_expected c \<noteq> tk_version t
             then refuse a c digest (version_conflict c (tk_version t)) db
             else bindE (mutate a c t st ids now s) (\<lambda>(operation, result).
               case result of
                 Inl p \<Rightarrow> refuse a c digest p db
               | Inr (data, s') \<Rightarrow>
                   let version = tk_version t + 1;
                       receipt = \<lparr>wt_command = wc_command c, wt_events = [], wt_operation = operation,
                         wt_ticket = wc_ticket c, wt_version = version\<rparr>;
                       moved = set_version a (wc_ticket c) version s'
                   in if \<not> store_admitted moved then Inl constraint_error
                      else append_change a receipt data digest (fr_event ids) now (db\<lparr>db_store := moved\<rparr>))))"

definition execute_work ::
  "record_problem option \<Rightarrow> actor \<Rightarrow> work_command \<Rightarrow> string \<Rightarrow> fresh_ids \<Rightarrow> datetime \<Rightarrow> work_db \<Rightarrow>
   (work_outcome \<times> work_db) py" where
  "execute_work gate a c digest ids now db =
     (case reserve_command (ac_principal a) (wc_command c) digest db of
        Some x \<Rightarrow> Inr (x, db)
      | None \<Rightarrow>
        (case gate of
           Some p \<Rightarrow> refuse a c digest p db
         | None \<Rightarrow> execute_locked a c digest ids now db))"

text \<open>\<open>Work.execute\<close>: policy before persistence.\<close>

definition work_execute ::
  "record_problem option \<Rightarrow> actor \<Rightarrow> work_command \<Rightarrow> fresh_ids \<Rightarrow> datetime \<Rightarrow> work_db \<Rightarrow>
   (work_outcome \<times> work_db) py" where
  "work_execute gate a c ids now db =
     (case work_refusal a c of
        Some p \<Rightarrow> Inr (Inl p, db)
      | None \<Rightarrow> execute_work gate a c (work_digest c) ids now db)"

section \<open>Readiness\<close>

text \<open>\<open>ORDER BY fact_sequence DESC LIMIT 1\<close>\<close>

definition latest_admission :: "actor \<Rightarrow> uuid \<Rightarrow> nat \<Rightarrow> work_store \<Rightarrow> admission_row option" where
  "latest_admission a t n s =
     (let mine = filter (\<lambda>r. ad_tenant r = ac_tenant a \<and> ad_ticket r = t \<and> ad_episode r = n) (ws_admissions s)
      in case rev (sort_key ad_sequence mine) of [] \<Rightarrow> None | r # _ \<Rightarrow> Some r)"

definition board_blocked :: "actor \<Rightarrow> uuid \<Rightarrow> work_store \<Rightarrow> bool" where
  "board_blocked a t s \<longleftrightarrow>
     list_ex (\<lambda>b. bk_tenant b = ac_tenant a \<and> bk_ticket b = t \<and> bl_board (bk_facts b) \<and> bk_resolved b = None)
       (ws_blockers s)"

definition unmet_readiness :: "actor \<Rightarrow> uuid \<Rightarrow> work_store \<Rightarrow> string list" where
  "unmet_readiness a t s =
     (case find_ticket a t s of
        None \<Rightarrow> [''work.ticket-current@1'']
      | Some r \<Rightarrow>
          (if map_option ad_admitted (latest_admission a t (tk_episode r) s) \<noteq> Some True
           then [''work.admitted@1''] else []) @
          (if board_blocked a t s then [''work.unblocked@1''] else []))"

definition readiness :: "actor \<Rightarrow> uuid \<Rightarrow> work_store \<Rightarrow> record_problem + bool \<times> string list" where
  "readiness a t s =
     (if find_ticket a t s = None
      then Inl (problem ''tenant-scope-denied'' ''Ticket unavailable'' 404 ''Ticket unavailable'' None)
      else let unmet = unmet_readiness a t s in Inr (unmet = [], unmet))"

end
