(* ===== verification/Machine.thy ===== *)
theory Machine
  imports Prelude
begin

text \<open>
  Two contracts the stateful components share: a machine whose step keeps an invariant, and a table
  whose sequence column numbers the rows of each key from one without gaps.
\<close>

section \<open>Guarded machines\<close>

locale guarded_machine =
  fixes step :: "'c \<Rightarrow> 's \<Rightarrow> 's"
    and inv :: "'s \<Rightarrow> bool"
  assumes step_inv: "inv s \<Longrightarrow> inv (step c s)"
begin

lemma run_inv: "inv s \<Longrightarrow> inv (foldl (\<lambda>s c. step c s) s cs)"
  by (induction cs arbitrary: s) (auto intro: step_inv)

end

section \<open>Numbered tables\<close>

definition gapless :: "('r \<Rightarrow> 'k) \<Rightarrow> ('r \<Rightarrow> nat) \<Rightarrow> 'r list \<Rightarrow> bool" where
  "gapless key num rows \<longleftrightarrow>
     (\<forall>k. map num (filter (\<lambda>r. key r = k) rows) = [1..<Suc (length (filter (\<lambda>r. key r = k) rows))])"

lemma gapless_Nil [simp]: "gapless key num []"
  by (simp add: gapless_def)

lemma gapless_append:
  assumes "gapless key num rows"
    and "num row = next_sequence (map num (filter (\<lambda>r. key r = key row) rows))"
  shows "gapless key num (rows @ [row])"
proof -
  have "map num (filter (\<lambda>r. key r = key row) rows) = [1..<Suc (length (filter (\<lambda>r. key r = key row) rows))]"
    using assms(1) unfolding gapless_def by blast
  then have "num row = Suc (length (filter (\<lambda>r. key r = key row) rows))"
    using assms(2) by (simp only: next_sequence_upto)
  with assms(1) show ?thesis
    by (auto simp: gapless_def)
qed

lemma gapless_map:
  "gapless key num rows \<Longrightarrow> (\<And>r. key (f r) = key r \<and> num (f r) = num r) \<Longrightarrow> gapless key num (map f rows)"
  by (auto simp: gapless_def filter_map o_def simp del: upt_Suc)

end
