(* ===== verification/WorkInvariants.thy ===== *)
theory WorkInvariants
  imports WorkExecute Machine
begin

text \<open>
  The invariants of the Work store and their preservation by every handler: acyclic relations,
  gapless histories, at most one open assignment per scope, no open custody on a closed ticket,
  blockers that are opened once and resolved at most once.
\<close>

declare opened_head_def [simp] added_relation_def [simp]

section \<open>Invariants\<close>

definition relations_ok :: "work_store \<Rightarrow> bool" where
  "relations_ok s \<longleftrightarrow>
     (\<forall>tenant. \<forall>k \<in> {ParentOf, DependsOn, Blocks}. acyclic (set (relation_edges tenant k (ws_relations s))))"

definition lane_key :: "interval_row \<Rightarrow> uuid \<times> uuid \<times> assignment_kind" where
  "lane_key r = (iv_tenant r, iv_ticket r, iv_kind r)"

definition numbering_ok :: "work_store \<Rightarrow> bool" where
  "numbering_ok s \<longleftrightarrow>
     gapless lane_key iv_sequence (ws_intervals s) \<and>
     gapless (\<lambda>r. (ad_tenant r, ad_ticket r, ad_episode r)) ad_sequence (ws_admissions s) \<and>
     gapless (\<lambda>r. (lf_tenant r, lf_ticket r, lf_episode r)) lf_sequence (ws_lifecycle s) \<and>
     gapless (\<lambda>r. (pf_tenant r, pf_ticket r)) pf_sequence (ws_priorities s) \<and>
     gapless bf_blocker bf_sequence (ws_blocker_facts s)"

definition open_lane :: "(uuid \<times> uuid \<times> assignment_kind) \<Rightarrow> string option \<Rightarrow> interval_row \<Rightarrow> bool" where
  "open_lane k scope r \<longleftrightarrow> lane_key r = k \<and> iv_scope r = scope \<and> iv_released r = None"

definition single_open :: "work_store \<Rightarrow> bool" where
  "single_open s \<longleftrightarrow> (\<forall>k scope. length (filter (open_lane k scope) (ws_intervals s)) \<le> 1)"

definition closed_state :: "lifecycle_state \<Rightarrow> bool" where
  "closed_state st \<longleftrightarrow> st = StResolved \<or> st = StClosed"

definition ep_key :: "episode_row \<Rightarrow> uuid \<times> uuid \<times> nat" where
  "ep_key e = (ep_tenant e, ep_ticket e, ep_number e)"

definition tk_cur :: "ticket_row \<Rightarrow> uuid \<times> uuid \<times> nat" where
  "tk_cur t = (tk_tenant t, tk_id t, tk_episode t)"

definition closed_keys :: "episode_row list \<Rightarrow> (uuid \<times> uuid \<times> nat) set" where
  "closed_keys es = ep_key ` {e \<in> set es. closed_state (ep_state e)}"

text \<open>A ticket whose current episode is resolved or closed has no open custody interval.\<close>

definition custody_free :: "uuid \<Rightarrow> uuid \<Rightarrow> interval_row list \<Rightarrow> bool" where
  "custody_free tenant t rows \<longleftrightarrow> (\<forall>scope. filter (open_lane (tenant, t, TicketCustodian) scope) rows = [])"

definition custody_ok :: "work_store \<Rightarrow> bool" where
  "custody_ok s \<longleftrightarrow>
     (\<forall>(tenant, t, n) \<in> set (map tk_cur (ws_tickets s)) \<inter> closed_keys (ws_episodes s).
        custody_free tenant t (ws_intervals s))"

text \<open>Tickets and episodes are keyed, the current episode exists and is the last one.\<close>

definition keys_of :: "(uuid \<times> uuid \<times> nat) list \<Rightarrow> (uuid \<times> uuid \<times> nat) list \<Rightarrow> bool" where
  "keys_of ts es \<longleftrightarrow>
     distinct (map (\<lambda>(x, y, n). (x, y)) ts) \<and> distinct es \<and> set ts \<subseteq> set es \<and>
     (\<forall>(x, y, n) \<in> set ts. \<forall>m. (x, y, m) \<in> set es \<longrightarrow> m \<le> n)"

definition keys_ok :: "work_store \<Rightarrow> bool" where
  "keys_ok s \<longleftrightarrow> keys_of (map tk_cur (ws_tickets s)) (map ep_key (ws_episodes s))"

definition blockers_ok :: "work_store \<Rightarrow> bool" where
  "blockers_ok s \<longleftrightarrow>
     distinct (map blocker_id (ws_blockers s)) \<and>
     (\<forall>b \<in> set (ws_blockers s).
        map bf_operation (filter (\<lambda>f. bf_blocker f = blocker_id b) (ws_blocker_facts s)) =
          (if bk_resolved b = None then [''opened''] else [''opened'', ''resolved'']) \<and>
        (bk_resolved b = None \<longleftrightarrow> bk_evidence b = None)) \<and>
     (\<forall>f \<in> set (ws_blocker_facts s). bf_blocker f \<in> blocker_id ` set (ws_blockers s))"

definition store_ok :: "work_store \<Rightarrow> bool" where
  "store_ok s \<longleftrightarrow>
     relations_ok s \<and> numbering_ok s \<and> single_open s \<and> custody_ok s \<and> keys_ok s \<and> blockers_ok s"

section \<open>Tables that a handler leaves alone\<close>

lemma fact_frames [simp]:
  "ws_tickets (admission_fact a c i n b v now s) = ws_tickets s"
  "ws_episodes (admission_fact a c i n b v now s) = ws_episodes s"
  "ws_intervals (admission_fact a c i n b v now s) = ws_intervals s"
  "ws_relations (admission_fact a c i n b v now s) = ws_relations s"
  "ws_blockers (admission_fact a c i n b v now s) = ws_blockers s"
  "ws_blocker_facts (admission_fact a c i n b v now s) = ws_blocker_facts s"
  "ws_lifecycle (admission_fact a c i n b v now s) = ws_lifecycle s"
  "ws_priorities (admission_fact a c i n b v now s) = ws_priorities s"
  "ws_tickets (lifecycle_fact a c i n st now s) = ws_tickets s"
  "ws_episodes (lifecycle_fact a c i n st now s) = ws_episodes s"
  "ws_intervals (lifecycle_fact a c i n st now s) = ws_intervals s"
  "ws_relations (lifecycle_fact a c i n st now s) = ws_relations s"
  "ws_blockers (lifecycle_fact a c i n st now s) = ws_blockers s"
  "ws_blocker_facts (lifecycle_fact a c i n st now s) = ws_blocker_facts s"
  "ws_admissions (lifecycle_fact a c i n st now s) = ws_admissions s"
  "ws_priorities (lifecycle_fact a c i n st now s) = ws_priorities s"
  by (simp_all add: admission_fact_def lifecycle_fact_def Let_def)

lemma priority_frames [simp]:
  "ws_tickets (priority_fact a c p r n oper v au po e now s) = ws_tickets s"
  "ws_episodes (priority_fact a c p r n oper v au po e now s) = ws_episodes s"
  "ws_intervals (priority_fact a c p r n oper v au po e now s) = ws_intervals s"
  "ws_relations (priority_fact a c p r n oper v au po e now s) = ws_relations s"
  "ws_blockers (priority_fact a c p r n oper v au po e now s) = ws_blockers s"
  "ws_blocker_facts (priority_fact a c p r n oper v au po e now s) = ws_blocker_facts s"
  "ws_admissions (priority_fact a c p r n oper v au po e now s) = ws_admissions s"
  "ws_lifecycle (priority_fact a c p r n oper v au po e now s) = ws_lifecycle s"
  by (simp_all add: priority_fact_def Let_def)

lemma blocker_frames [simp]:
  "ws_tickets (blocker_fact a c i b oper e now s) = ws_tickets s"
  "ws_episodes (blocker_fact a c i b oper e now s) = ws_episodes s"
  "ws_intervals (blocker_fact a c i b oper e now s) = ws_intervals s"
  "ws_relations (blocker_fact a c i b oper e now s) = ws_relations s"
  "ws_blockers (blocker_fact a c i b oper e now s) = ws_blockers s"
  "ws_admissions (blocker_fact a c i b oper e now s) = ws_admissions s"
  "ws_lifecycle (blocker_fact a c i b oper e now s) = ws_lifecycle s"
  "ws_priorities (blocker_fact a c i b oper e now s) = ws_priorities s"
  by (simp_all add: blocker_fact_def Let_def)

lemma custody_frames [simp]:
  "ws_tickets (reopen_custody a c p n now s) = ws_tickets s"
  "ws_episodes (reopen_custody a c p n now s) = ws_episodes s"
  "ws_relations (reopen_custody a c p n now s) = ws_relations s"
  "ws_blockers (reopen_custody a c p n now s) = ws_blockers s"
  "ws_blocker_facts (reopen_custody a c p n now s) = ws_blocker_facts s"
  "ws_admissions (reopen_custody a c p n now s) = ws_admissions s"
  "ws_lifecycle (reopen_custody a c p n now s) = ws_lifecycle s"
  "ws_priorities (reopen_custody a c p n now s) = ws_priorities s"
  by (simp_all add: reopen_custody_def Let_def)

lemma set_episode_frames [simp]:
  "ws_tickets (set_episode a t n st s) = ws_tickets s"
  "ws_intervals (set_episode a t n st s) = ws_intervals s"
  "ws_relations (set_episode a t n st s) = ws_relations s"
  "ws_blockers (set_episode a t n st s) = ws_blockers s"
  "ws_blocker_facts (set_episode a t n st s) = ws_blocker_facts s"
  "ws_admissions (set_episode a t n st s) = ws_admissions s"
  "ws_lifecycle (set_episode a t n st s) = ws_lifecycle s"
  "ws_priorities (set_episode a t n st s) = ws_priorities s"
  by (simp_all add: set_episode_def)

section \<open>Numbering\<close>

lemma admission_numbering: "numbering_ok s \<Longrightarrow> numbering_ok (admission_fact a c i n b v now s)"
  by (auto simp: numbering_ok_def admission_fact_def Let_def intro!: gapless_append
      arg_cong [where f = next_sequence] arg_cong [where f = "map _"] filter_cong)

lemma lifecycle_numbering: "numbering_ok s \<Longrightarrow> numbering_ok (lifecycle_fact a c i n st now s)"
  by (auto simp: numbering_ok_def lifecycle_fact_def Let_def intro!: gapless_append
      arg_cong [where f = next_sequence] arg_cong [where f = "map _"] filter_cong)

lemma priority_numbering: "numbering_ok s \<Longrightarrow> numbering_ok (priority_fact a c p r n oper v au po e now s)"
  by (auto simp: numbering_ok_def priority_fact_def Let_def intro!: gapless_append
      arg_cong [where f = next_sequence] arg_cong [where f = "map _"] filter_cong)

lemma blocker_numbering: "numbering_ok s \<Longrightarrow> numbering_ok (blocker_fact a c i b oper e now s)"
  by (auto simp: numbering_ok_def blocker_fact_def Let_def intro!: gapless_append
      arg_cong [where f = next_sequence] arg_cong [where f = "map _"] filter_cong)

lemma custody_numbering: "numbering_ok s \<Longrightarrow> numbering_ok (reopen_custody a c p n now s)"
  by (auto simp: numbering_ok_def reopen_custody_def Let_def same_lane_def lane_key_def intro!: gapless_append
      arg_cong [where f = next_sequence] arg_cong [where f = "map _"] filter_cong)

section \<open>What each invariant reads\<close>

lemma ok_cong:
  "ws_relations s' = ws_relations s \<Longrightarrow> relations_ok s' = relations_ok s"
  "ws_intervals s' = ws_intervals s \<Longrightarrow> single_open s' = single_open s"
  "ws_intervals s' = ws_intervals s \<Longrightarrow> ws_tickets s' = ws_tickets s \<Longrightarrow> ws_episodes s' = ws_episodes s \<Longrightarrow>
     custody_ok s' = custody_ok s"
  "ws_tickets s' = ws_tickets s \<Longrightarrow> ws_episodes s' = ws_episodes s \<Longrightarrow> keys_ok s' = keys_ok s"
  "ws_blockers s' = ws_blockers s \<Longrightarrow> ws_blocker_facts s' = ws_blocker_facts s \<Longrightarrow> blockers_ok s' = blockers_ok s"
  "ws_intervals s' = ws_intervals s \<Longrightarrow> ws_admissions s' = ws_admissions s \<Longrightarrow>
     ws_lifecycle s' = ws_lifecycle s \<Longrightarrow> ws_priorities s' = ws_priorities s \<Longrightarrow>
     ws_blocker_facts s' = ws_blocker_facts s \<Longrightarrow> numbering_ok s' = numbering_ok s"
  by (simp_all add: relations_ok_def single_open_def custody_ok_def keys_ok_def blockers_ok_def numbering_ok_def)

lemma update_where_key: "(\<And>r. P r \<Longrightarrow> g (f r) = g r) \<Longrightarrow> map g (update_where P f rows) = map g rows"
  by (auto simp: update_where_def)

lemma update_where_set: "x \<in> set (update_where P f rows) \<Longrightarrow> \<exists>r \<in> set rows. x = r \<or> P r \<and> x = f r"
  by (auto simp: update_where_def split: if_splits)

section \<open>Relations\<close>

lemma relation_edges_append:
  "relation_edges tenant k (rows @ [r]) =
     relation_edges tenant k rows @ (if rl_tenant r = tenant \<and> rl_kind r = k then [(rl_source r, rl_target r)] else [])"
  by (simp add: relation_edges_def)

lemma reaches_source_iff:
  "reaches_source a c k target s \<longleftrightarrow>
     (target, wc_ticket c) \<in> (set (relation_edges (ac_tenant a) k (ws_relations s)))\<^sup>*"
  by (simp add: reaches_source_def cte_reach.loop_reachable)

lemma add_relation_ok:
  assumes ok: "store_ok s" and add: "add_relation a c k target i now s = Inr (d, s')"
  shows "store_ok s'"
proof -
  from add obtain row where s': "s' = s\<lparr>ws_relations := ws_relations s @ [row]\<rparr>"
    and row: "rl_tenant row = ac_tenant a" "rl_source row = wc_ticket c" "rl_target row = target" "rl_kind row = k"
    and fresh: "wc_ticket c \<noteq> target" "k \<in> {ParentOf, DependsOn, Blocks} \<Longrightarrow> \<not> reaches_source a c k target s"
    by (auto simp: add_relation_def Let_def split: if_splits)
  have "relations_ok s'"
    unfolding relations_ok_def
  proof (intro allI ballI)
    fix tenant kind
    assume kind: "kind \<in> {ParentOf, DependsOn, Blocks}"
    have old: "acyclic (set (relation_edges tenant kind (ws_relations s)))"
      using ok kind unfolding store_ok_def relations_ok_def by blast
    show "acyclic (set (relation_edges tenant kind (ws_relations s')))"
    proof (cases "ac_tenant a = tenant \<and> k = kind")
      case True
      then have "(target, wc_ticket c) \<notin> (set (relation_edges tenant kind (ws_relations s)))\<^sup>*"
        using fresh(2) kind by (auto simp: reaches_source_iff)
      with old show ?thesis
        using True by (simp add: s' row relation_edges_append acyclic_insert)
    next
      case False
      with old show ?thesis by (auto simp: s' row relation_edges_append)
    qed
  qed
  with ok show ?thesis
    by (simp add: store_ok_def s' ok_cong(2-6) [of s' s, unfolded s'])
qed

section \<open>Assignments\<close>

lemma same_lane_key: "same_lane a t k r \<longleftrightarrow> lane_key r = (ac_tenant a, t, k)"
  by (auto simp: same_lane_def lane_key_def)

lemma open_in_scope_lane: "open_in_scope a t k scope = open_lane (ac_tenant a, t, k) scope"
  by (auto simp: open_in_scope_def open_lane_def same_lane_key)

definition released_rows ::
  "actor \<Rightarrow> uuid \<Rightarrow> assignment_kind \<Rightarrow> string option \<Rightarrow> datetime \<Rightarrow> interval_row list \<Rightarrow> interval_row list" where
  "released_rows a t k scope now rows =
     update_where (open_in_scope a t k scope) (iv_released_update (\<lambda>_. Some now)) rows"

lemma released_rows_idle:
  "find (open_in_scope a t k scope) rows = None \<Longrightarrow> released_rows a t k scope now rows = rows"
  by (auto simp: released_rows_def update_where_def find_None_iff intro!: map_idI)

lemma released_rows_gapless:
  "gapless lane_key iv_sequence rows \<Longrightarrow> gapless lane_key iv_sequence (released_rows a t k scope now rows)"
  unfolding released_rows_def update_where_def by (rule gapless_map) (auto simp: lane_key_def)

lemma lane_key_release [simp]: "lane_key (iv_released_update f r) = lane_key r"
  by (simp add: lane_key_def)

lemma open_lane_release: "\<not> open_lane key sc (iv_released_update (\<lambda>_. Some now) r)"
  by (simp add: open_lane_def)

lemma open_lane_unique: "open_lane key sc r \<Longrightarrow> open_lane key' sc' r \<longleftrightarrow> key' = key \<and> sc' = sc"
  by (auto simp: open_lane_def)

lemma released_rows_open:
  "filter (open_lane key sc) (released_rows a t k scope now rows) =
     (if key = (ac_tenant a, t, k) \<and> sc = scope then [] else filter (open_lane key sc) rows)"
proof (induction rows)
  case Nil
  then show ?case by (simp add: released_rows_def update_where_def)
next
  case (Cons r rows)
  have step: "released_rows a t k scope now (r # rows) =
      (if open_lane (ac_tenant a, t, k) scope r then iv_released_update (\<lambda>_. Some now) r else r)
        # released_rows a t k scope now rows"
    by (simp add: released_rows_def update_where_def open_in_scope_lane)
  show ?case
  proof (cases "open_lane (ac_tenant a, t, k) scope r")
    case True
    then show ?thesis
      using Cons open_lane_release [of key sc now r] open_lane_unique [OF True, of key sc]
      unfolding step by simp
  next
    case False
    then show ?thesis using Cons unfolding step by auto
  qed
qed

lemma change_assignment_cases:
  assumes "change_assignment a c k p scope now s = Inr (d, s')"
  obtains row where "k \<noteq> TicketCustodian" and "k \<noteq> RunnerLeaseOwner"
    and "lane_key row = (ac_tenant a, wc_ticket c, k)" and "iv_scope row = scope" and "iv_released row = None"
    and "iv_principal row = p"
    and "iv_sequence row = next_sequence (map iv_sequence (filter (\<lambda>r. lane_key r = lane_key row)
          (released_rows a (wc_ticket c) k scope now (ws_intervals s))))"
    and "s' = s\<lparr>ws_intervals := released_rows a (wc_ticket c) k scope now (ws_intervals s) @ [row]\<rparr>"
proof -
  let ?prev = "find (open_in_scope a (wc_ticket c) k scope) (ws_intervals s)"
  have el: "eligible a k p s" using assms by (auto simp: change_assignment_def split: if_splits)
  then have kinds: "k \<noteq> TicketCustodian" "k \<noteq> RunnerLeaseOwner"
    by (auto simp: eligible_def assignable_kinds_def split: option.splits)
  have rel: "(if ?prev \<noteq> None
        then update_where (open_in_scope a (wc_ticket c) k scope) (iv_released_update (\<lambda>_. Some now)) (ws_intervals s)
        else ws_intervals s) = released_rows a (wc_ticket c) k scope now (ws_intervals s)"
    using released_rows_idle by (auto simp: released_rows_def)
  have lane: "same_lane a (wc_ticket c) k = (\<lambda>r. lane_key r = (ac_tenant a, wc_ticket c, k))"
    by (auto simp: same_lane_key)
  let ?rows = "released_rows a (wc_ticket c) k scope now (ws_intervals s)"
  let ?row = "\<lparr>iv_tenant = ac_tenant a, iv_ticket = wc_ticket c, iv_kind = k, iv_scope = scope,
      iv_sequence = next_sequence (map iv_sequence
        (filter (\<lambda>r. lane_key r = (ac_tenant a, wc_ticket c, k)) ?rows)),
      iv_principal = p, iv_assigned = now, iv_released = None, iv_changed_by = ac_principal a,
      iv_reason = wc_reason c, iv_command = wc_command c, iv_episode = current_episode a (wc_ticket c) s\<rparr>"
  have "s' = s\<lparr>ws_intervals := ?rows @ [?row]\<rparr>"
    using assms el unfolding change_assignment_def Let_def option.map_disc_iff rel lane
    by (simp split: if_splits)
  moreover have "lane_key ?row = (ac_tenant a, wc_ticket c, k)" by (simp add: lane_key_def)
  ultimately show ?thesis using kinds by (intro that [of ?row]) simp_all
qed

lemma change_assignment_ok:
  assumes ok: "store_ok s" and change: "change_assignment a c k p scope now s = Inr (d, s')"
  shows "store_ok s'"
  using change
proof (rule change_assignment_cases)
  fix row
  let ?rows = "released_rows a (wc_ticket c) k scope now (ws_intervals s)"
  assume kinds: "k \<noteq> TicketCustodian"
    and lane: "lane_key row = (ac_tenant a, wc_ticket c, k)" and row: "iv_scope row = scope" "iv_released row = None"
    and num: "iv_sequence row = next_sequence (map iv_sequence (filter (\<lambda>r. lane_key r = lane_key row) ?rows))"
    and s': "s' = s\<lparr>ws_intervals := ?rows @ [row]\<rparr>"
  have "numbering_ok s'"
    using ok gapless_append [OF released_rows_gapless num]
    by (simp add: s' store_ok_def numbering_ok_def)
  moreover have "single_open s'"
    using ok row lane by (auto simp: s' store_ok_def single_open_def released_rows_open open_lane_def)
  moreover have "custody_ok s'"
    using ok kinds lane
    by (auto simp: s' store_ok_def custody_ok_def custody_free_def released_rows_open open_lane_def)
  ultimately show ?thesis
    using ok by (simp add: store_ok_def s' relations_ok_def keys_ok_def blockers_ok_def)
qed

lemma consume_ok:
  assumes "store_ok s" and "consume_review_dispatch a c e crew now s = Inr (d, s')"
  shows "store_ok s'"
proof -
  obtain ef b s1 where s1: "change_assignment a c ReviewerAssignment (ac_principal a) (Some (dispatch_scope e)) now s = Inr (d, s1)"
    and s': "s' = record_consumption a ef b crew now s1"
    using assms(2) by (auto simp: consume_review_dispatch_def bindE_Inr_iff split: option.splits if_splits)
  have "store_ok s1" by (rule change_assignment_ok [OF assms(1) s1])
  then show ?thesis
    by (simp add: s' record_consumption_def Let_def store_ok_def relations_ok_def numbering_ok_def
        single_open_def custody_ok_def keys_ok_def blockers_ok_def)
qed

section \<open>Lifecycle\<close>

lemma set_episode_rows:
  "ws_episodes (set_episode a t n st s) = update_where (episode_is a t n) (ep_state_update (\<lambda>_. st)) (ws_episodes s)"
  by (simp add: set_episode_def)

lemma set_episode_keys: "keys_ok (set_episode a t n st s) = keys_ok s"
proof -
  have "map ep_key (ws_episodes (set_episode a t n st s)) = map ep_key (ws_episodes s)"
    unfolding set_episode_rows by (rule update_where_key) (simp add: ep_key_def)
  then show ?thesis by (simp only: keys_ok_def set_episode_frames)
qed

lemma set_episode_closed_keys:
  "\<not> closed_state st \<Longrightarrow> closed_keys (ws_episodes (set_episode a t n st s)) \<subseteq> closed_keys (ws_episodes s)"
  by (auto simp: closed_keys_def set_episode_rows dest!: update_where_set)

lemma set_episode_custody:
  "custody_ok s \<Longrightarrow> \<not> closed_state st \<Longrightarrow> custody_ok (set_episode a t n st s)"
  using set_episode_closed_keys [of st a t n s] unfolding custody_ok_def set_episode_frames by blast

lemma intent_ok:
  assumes "store_ok s" and "\<not> closed_state st"
  shows "store_ok (set_episode a t n st (lifecycle_fact a c j n w now (admission_fact a c i n b v now s)))"
    (is "store_ok (set_episode _ _ _ _ ?s)")
proof -
  have s: "store_ok ?s"
    using assms(1) lifecycle_numbering [OF admission_numbering [of s]]
    by (simp add: store_ok_def relations_ok_def single_open_def custody_ok_def keys_ok_def blockers_ok_def)
  then show ?thesis
    using set_episode_custody [of ?s st] assms(2)
    by (simp add: store_ok_def relations_ok_def single_open_def blockers_ok_def numbering_ok_def set_episode_keys)
qed

lemma admit_ok: "store_ok s \<Longrightarrow> admit_ticket a c i j n now s = Inr (d, s') \<Longrightarrow> store_ok s'"
  by (auto simp: admit_ticket_def Let_def closed_state_def split: if_splits intro!: intent_ok)

lemma defer_ok: "store_ok s \<Longrightarrow> defer_ticket a c r i j n now s = Inr (d, s') \<Longrightarrow> store_ok s'"
  by (auto simp: defer_ticket_def Let_def closed_state_def split: if_splits intro!: intent_ok)

section \<open>Priority\<close>

lemma ticket_update_cur:
  "(\<And>r. tk_cur (f r) = tk_cur r) \<Longrightarrow> map tk_cur (update_where P f rows) = map tk_cur rows"
  by (rule update_where_key)

lemma ticket_update_ok:
  assumes "store_ok s" and "\<And>r. tk_cur (f r) = tk_cur r"
  shows "store_ok (s\<lparr>ws_tickets := update_where P f (ws_tickets s)\<rparr>)"
proof -
  have "map tk_cur (update_where P f (ws_tickets s)) = map tk_cur (ws_tickets s)"
    by (rule ticket_update_cur) (rule assms(2))
  then have "custody_ok (s\<lparr>ws_tickets := update_where P f (ws_tickets s)\<rparr>) = custody_ok s"
    and "keys_ok (s\<lparr>ws_tickets := update_where P f (ws_tickets s)\<rparr>) = keys_ok s"
    by (simp_all add: custody_ok_def keys_ok_def del: set_map)
  then show ?thesis
    using assms(1)
    by (simp add: store_ok_def relations_ok_def numbering_ok_def single_open_def blockers_ok_def)
qed

lemma change_priority_ok:
  assumes "store_ok s" and "change_priority a c p e v n now s = (d, s')"
  shows "store_ok s'"
proof -
  let ?s = "priority_fact a c p (wc_reason c) n ''change'' (Some v) (principal_value (ac_kind a))
      ''ctower.priority-authority@1'' e now s"
  have "store_ok ?s"
    using assms(1) priority_numbering [of s]
    by (simp add: store_ok_def relations_ok_def single_open_def custody_ok_def keys_ok_def blockers_ok_def)
  then have "store_ok (?s\<lparr>ws_tickets := update_where (ticket_is a (wc_ticket c)) (tk_priority_update (\<lambda>_. p)) (ws_tickets ?s)\<rparr>)"
    by (rule ticket_update_ok) (simp add: tk_cur_def)
  then show ?thesis using assms(2) by (auto simp: change_priority_def Let_def)
qed

lemma set_version_ok: "store_ok s \<Longrightarrow> store_ok (set_version a t v s)"
  unfolding set_version_def by (rule ticket_update_ok) (simp_all add: tk_cur_def)

section \<open>Blockers\<close>

lemma blocker_fact_rows:
  "\<exists>row. bf_blocker row = b \<and> bf_operation row = oper \<and>
     ws_blocker_facts (blocker_fact a c i b oper e now s) = ws_blocker_facts s @ [row]"
  by (simp add: blocker_fact_def Let_def)

lemma blocker_fact_ok_rest:
  assumes "relations_ok s" "numbering_ok s" "single_open s" "custody_ok s" "keys_ok s"
  shows "relations_ok (blocker_fact a c i b oper e now s)" "numbering_ok (blocker_fact a c i b oper e now s)"
    "single_open (blocker_fact a c i b oper e now s)" "custody_ok (blocker_fact a c i b oper e now s)"
    "keys_ok (blocker_fact a c i b oper e now s)"
  using assms blocker_numbering [of s]
  by (simp_all add: relations_ok_def single_open_def custody_ok_def keys_ok_def)

lemma blockers_untouched:
  "relations_ok (s\<lparr>ws_blockers := bs\<rparr>) = relations_ok s" "numbering_ok (s\<lparr>ws_blockers := bs\<rparr>) = numbering_ok s"
  "single_open (s\<lparr>ws_blockers := bs\<rparr>) = single_open s" "custody_ok (s\<lparr>ws_blockers := bs\<rparr>) = custody_ok s"
  "keys_ok (s\<lparr>ws_blockers := bs\<rparr>) = keys_ok s"
  by (simp_all add: relations_ok_def numbering_ok_def single_open_def custody_ok_def keys_ok_def)

lemma open_blocker_ok:
  assumes ok: "store_ok s" and op: "open_blocker a c b i now s = Inr (d, s')"
  shows "store_ok s'"
proof -
  let ?row = "\<lparr>bk_tenant = ac_tenant a, bk_ticket = wc_ticket c, bk_reason = wc_reason c, bk_facts = b,
      bk_opened = now, bk_resolved = None, bk_evidence = None\<rparr>"
  have fresh: "bl_blocker b \<notin> blocker_id ` set (ws_blockers s)"
    and s'_row: "s' = blocker_fact a c i (bl_blocker b) ''opened'' None now (s\<lparr>ws_blockers := ws_blockers s @ [?row]\<rparr>)"
    using op by (auto simp: open_blocker_def Let_def split: if_splits)
  obtain row where row: "blocker_id row = bl_blocker b" "bk_resolved row = None" "bk_evidence row = None"
    and s': "s' = blocker_fact a c i (bl_blocker b) ''opened'' None now (s\<lparr>ws_blockers := ws_blockers s @ [row]\<rparr>)"
    by (rule that [of ?row, OF _ _ _ s'_row]) (simp_all add: blocker_id_def)
  obtain f where f: "bf_blocker f = bl_blocker b" "bf_operation f = ''opened''"
      "ws_blocker_facts s' = ws_blocker_facts s @ [f]"
    using blocker_fact_rows [of "bl_blocker b" "''opened''" a c i None now "s\<lparr>ws_blockers := ws_blockers s @ [row]\<rparr>"]
    by (auto simp: s')
  have old: "blockers_ok s" using ok by (simp add: store_ok_def)
  have none: "filter (\<lambda>g. bf_blocker g = bl_blocker b) (ws_blocker_facts s) = []"
    using old fresh unfolding blockers_ok_def filter_empty_conv by metis
  have "blockers_ok s'"
    using old fresh none row f by (auto simp: blockers_ok_def s')
  then show ?thesis
    using ok blocker_fact_ok_rest by (simp add: store_ok_def s' blockers_untouched)
qed

lemma resolve_blocker_ok:
  assumes ok: "store_ok s" and op: "resolve_blocker a c b e i now s = Inr (d, s')"
  shows "store_ok s'"
proof -
  let ?P = "\<lambda>r. bk_tenant r = ac_tenant a \<and> blocker_id r = b"
  let ?f = "\<lambda>r. r\<lparr>bk_resolved := Some now, bk_evidence := Some e\<rparr>"
  obtain r where r: "r \<in> set (ws_blockers s)" "?P r" "bk_resolved r = None"
    and s': "s' = blocker_fact a c i b ''resolved'' (Some e) now
      (s\<lparr>ws_blockers := update_where ?P ?f (ws_blockers s)\<rparr>)"
    using op by (auto simp: resolve_blocker_def Let_def split: option.splits if_splits dest!: find_Some_set)
  obtain g where g: "bf_blocker g = b" "bf_operation g = ''resolved''"
      "ws_blocker_facts s' = ws_blocker_facts s @ [g]"
    using blocker_fact_rows [of b "''resolved''" a c i "Some e" now "s\<lparr>ws_blockers := update_where ?P ?f (ws_blockers s)\<rparr>"]
    by (auto simp: s')
  have old: "blockers_ok s" using ok by (simp add: store_ok_def)
  then have uniq: "\<And>q. q \<in> set (ws_blockers s) \<Longrightarrow> blocker_id q = b \<Longrightarrow> q = r"
    using r(1,2) by (auto simp: blockers_ok_def distinct_map inj_on_def)
  have bs: "ws_blockers s' = map (\<lambda>q. if ?P q then ?f q else q) (ws_blockers s)"
    by (simp add: s' update_where_def)
  have ids: "map blocker_id (ws_blockers s') = map blocker_id (ws_blockers s)"
    by (auto simp: bs blocker_id_def)
  have row: "map bf_operation (filter (\<lambda>f. bf_blocker f = blocker_id q) (ws_blocker_facts s')) =
        (if bk_resolved q' = None then [''opened''] else [''opened'', ''resolved'']) \<and>
      (bk_resolved q' = None \<longleftrightarrow> bk_evidence q' = None)"
    if q: "q \<in> set (ws_blockers s)" and q': "q' = (if ?P q then ?f q else q)" for q q'
  proof (cases "blocker_id q = b")
    case True
    with uniq q have "q = r" by blast
    with old r q' True g show ?thesis by (auto simp: blockers_ok_def)
  next
    case False
    with old q q' g show ?thesis by (auto simp: blockers_ok_def)
  qed
  have "blockers_ok s'"
    unfolding blockers_ok_def
  proof (intro conjI ballI)
    show "distinct (map blocker_id (ws_blockers s'))" using old ids by (simp add: blockers_ok_def)
    fix x
    assume "x \<in> set (ws_blockers s')"
    then obtain q where q: "q \<in> set (ws_blockers s)" "x = (if ?P q then ?f q else q)" by (auto simp: bs)
    have "blocker_id x = blocker_id q" using q(2) by (simp add: blocker_id_def)
    with row [OF q] show "map bf_operation (filter (\<lambda>f. bf_blocker f = blocker_id x) (ws_blocker_facts s')) =
        (if bk_resolved x = None then [''opened''] else [''opened'', ''resolved''])"
      and "(bk_resolved x = None) = (bk_evidence x = None)" by simp_all
  next
    fix f
    assume "f \<in> set (ws_blocker_facts s')"
    moreover have "blocker_id ` set (ws_blockers s') = blocker_id ` set (ws_blockers s)" using ids by (metis image_set)
    ultimately show "bf_blocker f \<in> blocker_id ` set (ws_blockers s')"
      using old g r(1) r(2) [THEN conjunct2, symmetric] by (auto simp: blockers_ok_def)
  qed
  then show ?thesis
    using ok blocker_fact_ok_rest by (simp add: store_ok_def s' blockers_untouched)
qed

section \<open>Reopening\<close>

definition bump :: "uuid \<Rightarrow> uuid \<Rightarrow> nat \<Rightarrow> uuid \<times> uuid \<times> nat \<Rightarrow> uuid \<times> uuid \<times> nat" where
  "bump x y n = (\<lambda>(x', y', m). if x' = x \<and> y' = y then (x', y', n) else (x', y', m))"

lemma bump_mem:
  "(x', y', m) \<in> set (map (bump x y n) ts) \<Longrightarrow>
     (x', y', m) = (x, y, n) \<or> (x', y') \<noteq> (x, y) \<and> (x', y', m) \<in> set ts"
  by (auto simp: bump_def split: if_splits)

lemma keys_of_bump:
  assumes ok: "keys_of ts es" and cur: "(x, y, n) \<in> set ts"
  shows "keys_of (map (bump x y (Suc n)) ts) (es @ [(x, y, Suc n)])"
proof -
  have last: "m \<le> n" if "(x, y, m) \<in> set es" for m
    using ok cur that unfolding keys_of_def by blast
  have new: "(x, y, Suc n) \<notin> set es" using last [of "Suc n"] by auto
  have uniq: "m = n" if "(x, y, m) \<in> set ts" for m
    using ok cur that unfolding keys_of_def distinct_map inj_on_def by (metis (no_types, lifting) case_prod_conv prod.inject)
  have keys: "map (\<lambda>(x, y, n). (x, y)) (map (bump x y (Suc n)) ts) = map (\<lambda>(x, y, n). (x, y)) ts"
    by (auto simp: bump_def)
  note mem = bump_mem [where x = x and y = y and n = "Suc n" and ts = ts]
  show ?thesis
    unfolding keys_of_def keys
  proof (intro conjI)
    show "distinct (map (\<lambda>(x, y, n). (x, y)) ts)" using ok by (simp add: keys_of_def)
    show "distinct (es @ [(x, y, Suc n)])" using ok new by (simp add: keys_of_def)
    show "set (map (bump x y (Suc n)) ts) \<subseteq> set (es @ [(x, y, Suc n)])"
    proof
      fix q
      assume "q \<in> set (map (bump x y (Suc n)) ts)"
      then show "q \<in> set (es @ [(x, y, Suc n)])"
        using mem [where x' = "fst q" and y' = "fst (snd q)" and m = "snd (snd q)"] ok unfolding keys_of_def by auto
    qed
    show "\<forall>(x', y', m) \<in> set (map (bump x y (Suc n)) ts).
        \<forall>l. (x', y', l) \<in> set (es @ [(x, y, Suc n)]) \<longrightarrow> l \<le> m"
    proof (clarify)
      fix x' y' m l
      assume q: "(x', y', m) \<in> set (map (bump x y (Suc n)) ts)" and l: "(x', y', l) \<in> set (es @ [(x, y, Suc n)])"
      from mem [OF q] show "l \<le> m"
      proof
        assume "(x', y', m) = (x, y, Suc n)"
        then show ?thesis using l last [of l] by auto
      next
        assume "(x', y') \<noteq> (x, y) \<and> (x', y', m) \<in> set ts"
        then show ?thesis using l ok unfolding keys_of_def by auto
      qed
    qed
  qed
qed

lemma reopen_custody_rows:
  "\<exists>row. ws_intervals (reopen_custody a c p n now s) = ws_intervals s @ [row] \<and>
     lane_key row = (ac_tenant a, wc_ticket c, TicketCustodian) \<and> iv_scope row = None"
  by (simp add: reopen_custody_def Let_def lane_key_def)

lemma ticket_bump:
  "map tk_cur (update_where (ticket_is a t) (tk_episode_update (\<lambda>_. n)) rows) =
     map (bump (ac_tenant a) t n) (map tk_cur rows)"
  by (auto simp: update_where_def ticket_is_def tk_cur_def bump_def)

lemma find_ticket_cur:
  "find_ticket a t s = Some r \<Longrightarrow> (ac_tenant a, t, tk_episode r) \<in> set (map tk_cur (ws_tickets s))"
  by (force simp: find_ticket_def ticket_is_def tk_cur_def dest!: find_Some_set)

lemma episode_state_key:
  "episode_state a t n s = Some st \<Longrightarrow> closed_state st \<Longrightarrow> (ac_tenant a, t, n) \<in> closed_keys (ws_episodes s)"
  by (force simp: episode_state_def episode_is_def closed_keys_def ep_key_def dest!: find_Some_set)

lemma closed_keys_append:
  "closed_keys (es @ [e]) = closed_keys es \<union> (if closed_state (ep_state e) then {ep_key e} else {})"
  by (auto simp: closed_keys_def)

lemma closed_keys_subset: "closed_keys es \<subseteq> set (map ep_key es)"
  by (auto simp: closed_keys_def)

text \<open>What \<open>reopen_ticket\<close> leaves in the tables that the invariants read.\<close>

lemma reopen_tables:
  assumes "reopen_ticket a c j n p v now s = Inr (d, s')"
  obtains e row where "ws_episodes s' = ws_episodes s @ [e]" and "ep_key e = (ac_tenant a, wc_ticket c, Suc n)"
    and "ep_state e = StOpen"
    and "map tk_cur (ws_tickets s') = map (bump (ac_tenant a) (wc_ticket c) (Suc n)) (map tk_cur (ws_tickets s))"
    and "ws_intervals s' = ws_intervals s @ [row]"
    and "lane_key row = (ac_tenant a, wc_ticket c, TicketCustodian)" and "iv_scope row = None"
    and "ws_relations s' = ws_relations s" and "ws_blockers s' = ws_blockers s"
    and "ws_blocker_facts s' = ws_blocker_facts s"
    and "numbering_ok s \<Longrightarrow> numbering_ok s'"
proof -
  let ?e = "\<lparr>ep_tenant = ac_tenant a, ep_ticket = wc_ticket c, ep_number = Suc n, ep_state = StOpen,
      ep_opened = now, ep_closed = None\<rparr>"
  let ?s2 = "s\<lparr>ws_episodes := ws_episodes s @ [?e],
      ws_tickets := update_where (ticket_is a (wc_ticket c)) (tk_episode_update (\<lambda>_. Suc n)) (ws_tickets s)\<rparr>"
  let ?s3 = "reopen_custody a c p (Suc n) now ?s2"
  have s': "s' = priority_fact a c v (carry_reason c) (Suc n) ''initial'' None ''reopen-policy''
      ''ctower.reopen-carry-forward@1'' None now (lifecycle_fact a c j (Suc n) ''reopened'' now ?s3)"
    using assms by (simp add: reopen_ticket_def Let_def split: if_splits)
  obtain row where row: "ws_intervals ?s3 = ws_intervals s @ [row]"
    "lane_key row = (ac_tenant a, wc_ticket c, TicketCustodian)" "iv_scope row = None"
    using reopen_custody_rows [of a c p "Suc n" now ?s2] by auto
  have num: "numbering_ok s'" if "numbering_ok s"
  proof -
    have "numbering_ok ?s2" using that by (simp add: numbering_ok_def)
    then show ?thesis
      unfolding s' by (intro priority_numbering lifecycle_numbering custody_numbering)
  qed
  show ?thesis
    using row by (intro that [of ?e row] num) (simp_all add: s' ep_key_def ticket_bump del: map_map)
qed

lemma reopen_was_closed:
  "reopen_ticket a c j n p v now s = Inr (d, s') \<Longrightarrow>
     (ac_tenant a, wc_ticket c, n) \<in> closed_keys (ws_episodes s)"
  by (auto simp: reopen_ticket_def closed_state_def split: if_splits intro: episode_state_key)

lemma reopen_ok:
  assumes ok: "store_ok s" and cur: "find_ticket a (wc_ticket c) s = Some t"
    and op: "reopen_ticket a c j (tk_episode t) p v now s = Inr (d, s')"
  shows "store_ok s'"
  using op
proof (rule reopen_tables)
  let ?x = "ac_tenant a" and ?y = "wc_ticket c" and ?n = "tk_episode t"
  fix e row
  assume es: "ws_episodes s' = ws_episodes s @ [e]" and e: "ep_key e = (?x, ?y, Suc ?n)" "ep_state e = StOpen"
    and ts: "map tk_cur (ws_tickets s') = map (bump ?x ?y (Suc ?n)) (map tk_cur (ws_tickets s))"
    and iv: "ws_intervals s' = ws_intervals s @ [row]" and row: "lane_key row = (?x, ?y, TicketCustodian)" "iv_scope row = None"
    and same: "ws_relations s' = ws_relations s" "ws_blockers s' = ws_blockers s" "ws_blocker_facts s' = ws_blocker_facts s"
    and num: "numbering_ok s \<Longrightarrow> numbering_ok s'"
  have keys: "keys_of (map tk_cur (ws_tickets s)) (map ep_key (ws_episodes s))"
    using ok by (simp add: store_ok_def keys_ok_def)
  have cur: "(?x, ?y, ?n) \<in> set (map tk_cur (ws_tickets s))" by (rule find_ticket_cur [OF cur])
  have "keys_ok s'"
    using keys_of_bump [OF keys cur] by (simp only: keys_ok_def ts es e map_append list.map)
  moreover have free: "custody_free ?x ?y (ws_intervals s)"
    using ok cur reopen_was_closed [OF op] unfolding store_ok_def custody_ok_def by blast
  moreover have "single_open s'"
    using ok free row by (auto simp: single_open_def store_ok_def iv custody_free_def open_lane_def)
  moreover have "custody_ok s'"
    unfolding custody_ok_def ts es closed_keys_append e
  proof (clarify)
    fix x y m
    assume new: "(x, y, m) \<in> set (map (bump ?x ?y (Suc ?n)) (map tk_cur (ws_tickets s)))"
      and "(x, y, m) \<in> closed_keys (ws_episodes s) \<union> (if closed_state StOpen then {(?x, ?y, Suc ?n)} else {})"
    then have closed: "(x, y, m) \<in> closed_keys (ws_episodes s)" by (simp add: closed_state_def)
    have "(?x, ?y, Suc ?n) \<notin> set (map ep_key (ws_episodes s))"
      using keys cur unfolding keys_of_def by fastforce
    with closed closed_keys_subset [of "ws_episodes s"] have "(x, y, m) \<noteq> (?x, ?y, Suc ?n)" by blast
    with new have "(x, y) \<noteq> (?x, ?y)" "(x, y, m) \<in> set (map tk_cur (ws_tickets s))"
      using bump_mem [OF new] by blast+
    with closed ok have "custody_free x y (ws_intervals s)"
      unfolding store_ok_def custody_ok_def by blast
    then show "custody_free x y (ws_intervals s')"
      using \<open>(x, y) \<noteq> (?x, ?y)\<close> row by (auto simp: custody_free_def iv open_lane_def)
  qed
  ultimately show ?thesis
    using ok num by (simp add: store_ok_def relations_ok_def blockers_ok_def same)
qed

end
