(* ===== verification/WorkProofs.thy ===== *)
theory WorkProofs
  imports WorkInvariants
begin

text \<open>
  The lemmas about whole Work transactions: what a transaction may do (replay, refuse or commit),
  that the version of a ticket counts its events, the transaction as a machine that keeps the
  invariants, the stored outcomes, and the lifecycle of a ticket as a step relation.
\<close>

section \<open>Dispatch\<close>

lemmas handlers_ok = add_relation_ok change_assignment_ok consume_ok admit_ok defer_ok open_blocker_ok
  resolve_blocker_ok

lemma inserted_Inr_iff:
  "inserted ok conflict x = Inr y \<longleftrightarrow> y = x \<and> (case x of Inl p \<Rightarrow> rp_code p = conflict \<longrightarrow> ok | Inr _ \<Rightarrow> ok)"
  by (auto simp: inserted_def split: sum.split)

lemma inserted_Inl: "inserted ok conflict x = Inl e \<Longrightarrow> e = constraint_error \<and> \<not> ok"
  by (auto simp: inserted_def split: sum.splits if_splits)

lemma mutate_ok:
  assumes "store_ok s" and "find_ticket a (wc_ticket c) s = Some t"
    and "mutate a c t st ids now s = Inr (oper, Inr (d, s'))"
  shows "store_ok s'"
  using assms(3)
  by (cases "wc_action c")
    (auto simp: mutate_def mutate_intent_def is_assignment_action_def bindE_Inr_iff inserted_Inr_iff split: if_splits
      intro: handlers_ok [OF assms(1)] reopen_ok [OF assms(1,2)] change_priority_ok [OF assms(1)])

text \<open>Dispatch covers every action, so a handler raises only where its row breaks a CHECK.\<close>

lemma mutate_raises:
  assumes "mutate a c t st ids now s = Inl e"
  shows "e = constraint_error"
  using assms
  by (cases "wc_action c")
    (auto simp: mutate_def mutate_intent_def bindE_Inl_iff split: if_splits dest: inserted_Inl)

text \<open>Every refusal of a handler has a status the results take.\<close>

lemma work_conflict_status [simp]: "rp_status (work_conflict c code title) = 409"
  and work_problem_status [simp]: "rp_status (work_problem c code st title) = st"
  and intent_problem_status [simp]: "rp_status (intent_problem c code title unmet) = 409"
  and version_conflict_status [simp]: "rp_status (version_conflict c v) = 409"
  by (simp_all add: work_conflict_def work_problem_def problem_def intent_problem_def version_conflict_def)

lemma assignment_status: "change_assignment a c k p scope now s = Inl x \<Longrightarrow> rp_status x = 409"
  by (auto simp: change_assignment_def Let_def split: if_splits)

lemma handler_status:
  "admit_ticket a c i j n now s = Inl x \<Longrightarrow> rp_status x = 409"
  "defer_ticket a c r i j n now s = Inl x \<Longrightarrow> rp_status x = 409"
  "reopen_ticket a c j n p v now s = Inl x \<Longrightarrow> rp_status x = 409"
  "open_blocker a c b i now s = Inl x \<Longrightarrow> rp_status x = 409"
  "resolve_blocker a c u e i now s = Inl x \<Longrightarrow> rp_status x = 409"
  "add_relation a c k u i now s = Inl x \<Longrightarrow> rp_status x \<in> {404, 409}"
  "consume_review_dispatch a c u crew now s = Inl x \<Longrightarrow> rp_status x \<in> {404, 409}"
  by (auto simp: admit_ticket_def defer_ticket_def reopen_ticket_def open_blocker_def resolve_blocker_def add_relation_def
      consume_review_dispatch_def Let_def bindE_Inl_iff dest: assignment_status split: if_splits option.splits)

lemma mutate_status:
  assumes "mutate a c t st ids now s = Inr (oper, Inl x)"
  shows "rp_status x \<in> {404, 409}"
  using assms
  by (cases "wc_action c")
    (auto simp: mutate_def mutate_intent_def bindE_Inr_iff inserted_Inr_iff split: if_splits
      dest: handler_status assignment_status)

text \<open>No handler moves the version, the identity or the number of the tickets.\<close>

definition tk_stamp :: "ticket_row \<Rightarrow> uuid \<times> uuid \<times> int" where
  "tk_stamp r = (tk_tenant r, tk_id r, tk_version r)"

lemma stamp_update:
  "(\<And>r. tk_stamp (f r) = tk_stamp r) \<Longrightarrow> map tk_stamp (update_where P f rows) = map tk_stamp rows"
  by (rule update_where_key)

lemma change_assignment_frames:
  assumes "change_assignment a c k p scope now s = Inr (d, s')"
  shows "ws_tickets s' = ws_tickets s" "ws_episodes s' = ws_episodes s"
  using assms by (auto simp: change_assignment_def Let_def split: if_splits)

lemma consume_frames:
  assumes "consume_review_dispatch a c e crew now s = Inr (d, s')"
  shows "ws_tickets s' = ws_tickets s" "ws_episodes s' = ws_episodes s"
  using assms by (auto simp: consume_review_dispatch_def bindE_Inr_iff record_consumption_def Let_def
      dest: change_assignment_frames split: option.splits if_splits)

lemma quiet_frames:
  "open_blocker a c b i now s = Inr (d, s') \<Longrightarrow> ws_tickets s' = ws_tickets s \<and> ws_episodes s' = ws_episodes s"
  "resolve_blocker a c u e i now s = Inr (d, s') \<Longrightarrow> ws_tickets s' = ws_tickets s \<and> ws_episodes s' = ws_episodes s"
  "add_relation a c k u i now s = Inr (d, s') \<Longrightarrow> ws_tickets s' = ws_tickets s \<and> ws_episodes s' = ws_episodes s"
  "change_assignment a c ak u scope now s = Inr (d, s') \<Longrightarrow> ws_tickets s' = ws_tickets s \<and> ws_episodes s' = ws_episodes s"
  "consume_review_dispatch a c u crew now s = Inr (d, s') \<Longrightarrow> ws_tickets s' = ws_tickets s \<and> ws_episodes s' = ws_episodes s"
  by (auto simp: open_blocker_def resolve_blocker_def add_relation_def Let_def
      dest: change_assignment_frames consume_frames split: if_splits option.splits)

lemma intent_frames:
  "admit_ticket a c i j n now s = Inr (d, s') \<Longrightarrow> ws_tickets s' = ws_tickets s"
  "defer_ticket a c r i j n now s = Inr (d, s') \<Longrightarrow> ws_tickets s' = ws_tickets s"
  by (auto simp: admit_ticket_def defer_ticket_def Let_def split: if_splits)

lemma reopen_stamps:
  "reopen_ticket a c j n p v now s = Inr (d, s') \<Longrightarrow> map tk_stamp (ws_tickets s') = map tk_stamp (ws_tickets s)"
  by (auto simp: reopen_ticket_def Let_def tk_stamp_def split: if_splits intro!: stamp_update)

lemma priority_stamps:
  "change_priority a c p e v n now s = (d, s') \<Longrightarrow> map tk_stamp (ws_tickets s') = map tk_stamp (ws_tickets s)"
  by (auto simp: change_priority_def Let_def tk_stamp_def intro!: stamp_update)

lemma mutate_stamps:
  assumes "mutate a c t st ids now s = Inr (oper, Inr (d, s'))"
  shows "map tk_stamp (ws_tickets s') = map tk_stamp (ws_tickets s)"
  using assms
  by (cases "wc_action c")
    (auto simp: mutate_def mutate_intent_def is_assignment_action_def bindE_Inr_iff inserted_Inr_iff split: if_splits
      dest: quiet_frames intent_frames reopen_stamps priority_stamps)

section \<open>One transaction\<close>

text \<open>A transaction that does not raise replays, refuses or commits.\<close>

lemma refuse_Inr_iff:
  "refuse a c digest p db = Inr y \<longleftrightarrow>
     result_admitted a (rp_status p) (db_store db) \<and> y = (Inl p, store_result a (wc_command c) digest (Inl p) db)"
  by (auto simp: refuse_def)

lemma refuse_Inl_iff:
  "refuse a c digest p db = Inl e \<longleftrightarrow> \<not> result_admitted a (rp_status p) (db_store db) \<and> e = constraint_error"
  by (auto simp: refuse_def)

lemma execute_locked_cases:
  assumes "execute_locked a c digest ids now db = Inr (x, db')"
  obtains (refused) p where "x = Inl p" "db' = store_result a (wc_command c) digest (Inl p) db"
  | (commit) t st oper d s' where "find_ticket a (wc_ticket c) (db_store db) = Some t"
      "episode_state a (wc_ticket c) (tk_episode t) (db_store db) = Some st" "wc_expected c = tk_version t"
      "mutate a c t st ids now (db_store db) = Inr (oper, Inr (d, s'))"
      "store_admitted (set_version a (wc_ticket c) (tk_version t + 1) s')"
      "append_change a \<lparr>wt_command = wc_command c, wt_events = [], wt_operation = oper,
          wt_ticket = wc_ticket c, wt_version = tk_version t + 1\<rparr> d digest (fr_event ids) now
         (db\<lparr>db_store := set_version a (wc_ticket c) (tk_version t + 1) s'\<rparr>) = Inr (x, db')"
proof (cases "find_ticket a (wc_ticket c) (db_store db)")
  case None
  then show ?thesis using assms by (intro that(1)) (auto simp: execute_locked_def refuse_Inr_iff)
next
  case (Some t)
  note t = this
  then obtain st where st: "episode_state a (wc_ticket c) (tk_episode t) (db_store db) = Some st"
    using assms by (auto simp: execute_locked_def Let_def split: option.splits)
  show ?thesis
  proof (cases "wc_expected c = tk_version t")
    case True
    then obtain oper h where m: "mutate a c t st ids now (db_store db) = Inr (oper, h)"
      using assms t st by (auto simp: execute_locked_def Let_def bindE_Inr_iff)
    show ?thesis
    proof (cases h)
      case (Inl p)
      then show ?thesis
        using assms t st m True by (intro that(1)) (auto simp: execute_locked_def refuse_Inr_iff)
    next
      case (Inr ds)
      then show ?thesis
        using assms t st m True
        by (intro that(2) [OF t st True, of oper "fst ds" "snd ds"])
          (auto simp: execute_locked_def Let_def case_prod_beta split: if_splits)
    qed
  next
    case False
    then show ?thesis
      using assms t st by (intro that(1)) (auto simp: execute_locked_def refuse_Inr_iff)
  qed
qed

lemma execute_work_cases:
  assumes "execute_work gate a c digest ids now db = Inr (x, db')"
  obtains (replay) "reserve_command (ac_principal a) (wc_command c) digest db = Some x" "db' = db"
  | (refused) p where "reserve_command (ac_principal a) (wc_command c) digest db = None" "x = Inl p"
      "db' = store_result a (wc_command c) digest (Inl p) db"
  | (commit) t st oper d s' where "reserve_command (ac_principal a) (wc_command c) digest db = None"
      "gate = None" "find_ticket a (wc_ticket c) (db_store db) = Some t"
      "episode_state a (wc_ticket c) (tk_episode t) (db_store db) = Some st" "wc_expected c = tk_version t"
      "mutate a c t st ids now (db_store db) = Inr (oper, Inr (d, s'))"
      "append_change a \<lparr>wt_command = wc_command c, wt_events = [], wt_operation = oper,
          wt_ticket = wc_ticket c, wt_version = tk_version t + 1\<rparr> d digest (fr_event ids) now
         (db\<lparr>db_store := set_version a (wc_ticket c) (tk_version t + 1) s'\<rparr>) = Inr (x, db')"
      "store_admitted (set_version a (wc_ticket c) (tk_version t + 1) s')"
proof (cases "reserve_command (ac_principal a) (wc_command c) digest db")
  case None
  note new = this
  show ?thesis
  proof (cases gate)
    case None
    have locked: "execute_locked a c digest ids now db = Inr (x, db')"
      using assms new None by (simp add: execute_work_def)
    then show ?thesis
    proof (cases rule: execute_locked_cases)
      case (refused p)
      then show ?thesis by (rule that(2) [OF new])
    next
      case (commit t st oper d s')
      then show ?thesis using that(3) [OF new None] by blast
    qed
  next
    case (Some p)
    then show ?thesis
      using assms new by (intro that(2) [OF new]) (auto simp: execute_work_def refuse_Inr_iff)
  qed
next
  case (Some y)
  then show ?thesis using assms by (intro that(1)) (auto simp: execute_work_def)
qed

lemma append_change_frames:
  assumes "append_change a r d digest e now db = Inr (x, db')"
  shows "x = Inr (r\<lparr>wt_events := [e]\<rparr>)" "db_store db' = db_store db"
    "db_events db' = db_events db @ [\<lparr>ev_id = e, ev_tenant = ac_tenant a, ev_ticket = wt_ticket r,
       ev_sequence = wt_version r, ev_operation = wt_operation r, ev_data = d, ev_actor = ac_principal a,
       ev_command = wt_command r, ev_digest = digest, ev_time = now\<rparr>]"
    "db_results db' = db_results db @ [\<lparr>cr_principal = ac_principal a, cr_command = wt_command r,
       cr_digest = digest, cr_outcome = x\<rparr>]"
  using assms by (auto simp: append_change_def changed_event_def Let_def store_result_def split: if_splits)

lemma store_result_frames [simp]:
  "db_store (store_result a k digest x db) = db_store db" "db_events (store_result a k digest x db) = db_events db"
  by (simp_all add: store_result_def)

section \<open>The version counts the events\<close>

definition sequences :: "uuid \<Rightarrow> uuid \<Rightarrow> event_row list \<Rightarrow> int list" where
  "sequences x y rows = map ev_sequence (filter (\<lambda>e. ev_tenant e = x \<and> ev_ticket e = y) rows)"

text \<open>The events of a ticket are consecutively numbered and end at its version.\<close>

definition stream_ok :: "work_db \<Rightarrow> bool" where
  "stream_ok db \<longleftrightarrow>
     (\<forall>(x, y, v) \<in> set (map tk_stamp (ws_tickets (db_store db))).
        sequences x y (db_events db) = [v - int (length (sequences x y (db_events db))) + 1..v])"

definition db_ok :: "work_db \<Rightarrow> bool" where
  "db_ok db \<longleftrightarrow> store_ok (db_store db) \<and> stream_ok db"

definition restamp :: "uuid \<Rightarrow> uuid \<Rightarrow> int \<Rightarrow> uuid \<times> uuid \<times> int \<Rightarrow> uuid \<times> uuid \<times> int" where
  "restamp x y v = (\<lambda>(x', y', w). (x', y', if x' = x \<and> y' = y then v else w))"

lemma set_version_stamps:
  "map tk_stamp (ws_tickets (set_version a t v s)) = map (restamp (ac_tenant a) t v) (map tk_stamp (ws_tickets s))"
  by (auto simp: set_version_def update_where_def ticket_is_def tk_stamp_def restamp_def)

lemma restamp_mem:
  "(x', y', w) \<in> set (map (restamp x y v) ts) \<Longrightarrow>
     \<exists>u. (x', y', u) \<in> set ts \<and> w = (if x' = x \<and> y' = y then v else u)"
  by (auto simp: restamp_def)

lemma stamp_unique:
  assumes "keys_ok s" and "(x, y, v) \<in> set (map tk_stamp (ws_tickets s))"
    and "(x, y, w) \<in> set (map tk_stamp (ws_tickets s))"
  shows "v = w"
proof -
  have "inj_on (\<lambda>r. (tk_tenant r, tk_id r)) (set (ws_tickets s))"
    using assms(1)
    by (simp add: keys_ok_def keys_of_def distinct_map o_def tk_cur_def)
  with assms(2,3) show ?thesis by (auto simp: tk_stamp_def inj_on_def)
qed

lemma find_ticket_stamp:
  "find_ticket a t s = Some r \<Longrightarrow> (ac_tenant a, t, tk_version r) \<in> set (map tk_stamp (ws_tickets s))"
  by (force simp: find_ticket_def ticket_is_def tk_stamp_def dest!: find_Some_set)

lemma sequences_append:
  "sequences x y (rows @ [e]) =
     sequences x y rows @ (if ev_tenant e = x \<and> ev_ticket e = y then [ev_sequence e] else [])"
  by (simp add: sequences_def)

lemma upto_snoc: "xs = [v - int (length xs) + 1..v] \<Longrightarrow> xs @ [v + 1] = [v + 1 - int (length (xs @ [v + 1])) + 1..v + 1]"
  by (simp add: upto_rec2 [of _ "v + 1"])

lemma stream_commit:
  assumes keys: "keys_ok s" and old: "stream_ok db" and s: "s = db_store db"
    and cur: "(x, y, v) \<in> set (map tk_stamp (ws_tickets s))"
    and ts: "map tk_stamp (ws_tickets (db_store db')) = map (restamp x y (v + 1)) (map tk_stamp (ws_tickets s))"
    and es: "db_events db' = db_events db @ [e]" and e: "ev_tenant e = x" "ev_ticket e = y" "ev_sequence e = v + 1"
  shows "stream_ok db'"
  unfolding stream_ok_def ts es
proof (clarify)
  fix x' y' w
  assume "(x', y', w) \<in> set (map (restamp x y (v + 1)) (map tk_stamp (ws_tickets s)))"
  then obtain u where u: "(x', y', u) \<in> set (map tk_stamp (ws_tickets s))"
    and w: "w = (if x' = x \<and> y' = y then v + 1 else u)"
    by (rule restamp_mem [THEN exE]) blast
  let ?seqs = "sequences x' y' (db_events db)"
  have seqs: "?seqs = [u - int (length ?seqs) + 1..u]"
    using old u unfolding stream_ok_def s by blast
  show "sequences x' y' (db_events db @ [e]) =
      [w - int (length (sequences x' y' (db_events db @ [e]))) + 1..w]"
  proof (cases "x' = x \<and> y' = y")
    case True
    then have "u = v" using stamp_unique [OF keys u] cur by blast
    then show ?thesis using upto_snoc [OF seqs] True w e by (simp add: sequences_append)
  next
    case False
    then show ?thesis using seqs w e by (auto simp: sequences_append)
  qed
qed

section \<open>Committed transactions\<close>

text \<open>What a commit does to the versions and the events.\<close>

definition committed :: "actor \<Rightarrow> work_command \<Rightarrow> work_receipt \<Rightarrow> work_db \<Rightarrow> work_db \<Rightarrow> bool" where
  "committed a c r db db' \<longleftrightarrow>
     (ac_tenant a, wc_ticket c, wc_expected c) \<in> set (map tk_stamp (ws_tickets (db_store db))) \<and>
     map tk_stamp (ws_tickets (db_store db')) =
       map (restamp (ac_tenant a) (wc_ticket c) (wc_expected c + 1)) (map tk_stamp (ws_tickets (db_store db))) \<and>
     wt_command r = wc_command c \<and> wt_ticket r = wc_ticket c \<and> wt_version r = wc_expected c + 1 \<and>
     (\<exists>e. db_events db' = db_events db @ [e] \<and> wt_events r = [ev_id e] \<and> ev_tenant e = ac_tenant a \<and>
        ev_ticket e = wc_ticket c \<and> ev_sequence e = wc_expected c + 1 \<and> ev_command e = wc_command c \<and>
        ev_operation e = wt_operation r)"

lemma commit_facts:
  assumes ok: "db_ok db" and t: "find_ticket a (wc_ticket c) (db_store db) = Some t"
    and version: "wc_expected c = tk_version t"
    and m: "mutate a c t st ids now (db_store db) = Inr (oper, Inr (d, s'))"
    and change: "append_change a \<lparr>wt_command = wc_command c, wt_events = [], wt_operation = oper,
          wt_ticket = wc_ticket c, wt_version = tk_version t + 1\<rparr> d digest (fr_event ids) now
         (db\<lparr>db_store := set_version a (wc_ticket c) (tk_version t + 1) s'\<rparr>) = Inr (x, db')"
  shows "db_ok db'" and "\<exists>r. x = Inr r \<and> committed a c r db db'"
    and "db_store db' = set_version a (wc_ticket c) (tk_version t + 1) s'"
proof -
  note frames = append_change_frames [OF change]
  have store: "store_ok (db_store db)" and stream: "stream_ok db" using ok by (simp_all add: db_ok_def)
  have cur: "(ac_tenant a, wc_ticket c, tk_version t) \<in> set (map tk_stamp (ws_tickets (db_store db)))"
    by (rule find_ticket_stamp [OF t])
  have ts: "map tk_stamp (ws_tickets (db_store db')) =
      map (restamp (ac_tenant a) (wc_ticket c) (tk_version t + 1)) (map tk_stamp (ws_tickets (db_store db)))"
    by (simp add: frames set_version_stamps mutate_stamps [OF m] del: map_map)
  show s': "db_store db' = set_version a (wc_ticket c) (tk_version t + 1) s'" by (simp add: frames)
  have "keys_ok (db_store db)" using store by (simp add: store_ok_def)
  moreover obtain e where "db_events db' = db_events db @ [e]" "ev_tenant e = ac_tenant a"
      "ev_ticket e = wc_ticket c" "ev_sequence e = tk_version t + 1"
    using frames(3) by simp
  ultimately have "stream_ok db'"
    by (intro stream_commit [OF _ stream refl cur ts])
  moreover have "store_ok (db_store db')"
    unfolding s' by (rule set_version_ok [OF mutate_ok [OF store t m]])
  ultimately show "db_ok db'" by (simp add: db_ok_def)
  show "\<exists>r. x = Inr r \<and> committed a c r db db'"
    unfolding committed_def version ts using cur frames by simp
qed

section \<open>The transaction as a machine\<close>

type_synonym work_call = "record_problem option \<times> actor \<times> work_command \<times> fresh_ids \<times> datetime"

text \<open>A transaction that raises is rolled back.\<close>

definition work_step :: "work_call \<Rightarrow> work_db \<Rightarrow> work_db" where
  "work_step call db =
     (case call of (gate, a, c, ids, now) \<Rightarrow>
        (case work_execute gate a c ids now db of Inl _ \<Rightarrow> db | Inr (_, db') \<Rightarrow> db'))"

definition work_run :: "work_call list \<Rightarrow> work_db \<Rightarrow> work_db" where
  "work_run calls db = foldl (\<lambda>s call. work_step call s) db calls"

lemma work_run_simps [simp]:
  "work_run [] db = db" "work_run (call # calls) db = work_run calls (work_step call db)"
  by (simp_all add: work_run_def)

lemma work_execute_cases:
  assumes "work_execute gate a c ids now db = Inr (x, db')"
  obtains (policy) p where "work_refusal a c = Some p" "x = Inl p" "db' = db"
  | (execute) "work_refusal a c = None" "execute_work gate a c (work_digest c) ids now db = Inr (x, db')"
  using assms by (auto simp: work_execute_def split: option.splits)

section \<open>When a transaction raises\<close>

lemma quiet_principals:
  "open_blocker a c b i now s = Inr (d, s') \<Longrightarrow> ws_principals s' = ws_principals s"
  "resolve_blocker a c u e i now s = Inr (d, s') \<Longrightarrow> ws_principals s' = ws_principals s"
  "add_relation a c k u i now s = Inr (d, s') \<Longrightarrow> ws_principals s' = ws_principals s"
  "change_assignment a c ak u scope now s = Inr (d, s') \<Longrightarrow> ws_principals s' = ws_principals s"
  "admit_ticket a c i j n now s = Inr (d, s') \<Longrightarrow> ws_principals s' = ws_principals s"
  "defer_ticket a c r i j n now s = Inr (d, s') \<Longrightarrow> ws_principals s' = ws_principals s"
  "reopen_ticket a c j n p v now s = Inr (d, s') \<Longrightarrow> ws_principals s' = ws_principals s"
  by (auto simp: open_blocker_def resolve_blocker_def add_relation_def change_assignment_def admit_ticket_def
      defer_ticket_def reopen_ticket_def blocker_fact_def admission_fact_def lifecycle_fact_def priority_fact_def
      reopen_custody_def set_episode_def Let_def split: if_splits option.splits)

lemma consume_principals: "consume_review_dispatch a c u crew now s = Inr (d, s') \<Longrightarrow> ws_principals s' = ws_principals s"
  by (auto simp: consume_review_dispatch_def bindE_Inr_iff record_consumption_def Let_def
      dest: quiet_principals split: option.splits if_splits)

lemma priority_principals: "change_priority a c p e v n now s = (d, s') \<Longrightarrow> ws_principals s' = ws_principals s"
  by (auto simp: change_priority_def priority_fact_def Let_def)

lemma mutate_principals:
  assumes "mutate a c t st ids now s = Inr (oper, Inr (d, s'))"
  shows "ws_principals s' = ws_principals s"
  using assms
  by (cases "wc_action c")
    (auto simp: mutate_def mutate_intent_def is_assignment_action_def bindE_Inr_iff inserted_Inr_iff split: if_splits
      dest: quiet_principals consume_principals priority_principals)

text \<open>A change breaks a constraint: of the row an insert tries, of the tables it ends with, or of the event's key.\<close>

definition change_breaks :: "actor \<Rightarrow> work_command \<Rightarrow> fresh_ids \<Rightarrow> datetime \<Rightarrow> work_db \<Rightarrow> bool" where
  "change_breaks a c ids now db \<longleftrightarrow>
     (\<exists>t st. find_ticket a (wc_ticket c) (db_store db) = Some t \<and>
        episode_state a (wc_ticket c) (tk_episode t) (db_store db) = Some st \<and> wc_expected c = tk_version t \<and>
        (case mutate a c t st ids now (db_store db) of
           Inl _ \<Rightarrow> True
         | Inr (_, Inl _) \<Rightarrow> False
         | Inr (_, Inr (_, s')) \<Rightarrow>
             \<not> store_admitted (set_version a (wc_ticket c) (tk_version t + 1) s') \<or>
             fr_event ids \<in> ev_id ` set (db_events db)))"

definition constraint_broken ::
  "record_problem option \<Rightarrow> actor \<Rightarrow> work_command \<Rightarrow> fresh_ids \<Rightarrow> datetime \<Rightarrow> work_db \<Rightarrow> bool" where
  "constraint_broken gate a c ids now db \<longleftrightarrow>
     \<not> known_principal (db_store db) (ac_tenant a) (ac_principal a) \<or>
     (case gate of
        Some p \<Rightarrow> \<not> (200 \<le> rp_status p \<and> rp_status p \<le> 299 \<or> 400 \<le> rp_status p \<and> rp_status p \<le> 499)
      | None \<Rightarrow> change_breaks a c ids now db)"

lemma current_state_exists:
  assumes "keys_ok s" and t: "find_ticket a y s = Some t"
  shows "\<exists>st. episode_state a y (tk_episode t) s = Some st"
proof -
  have "(ac_tenant a, y, tk_episode t) \<in> set (map ep_key (ws_episodes s))"
    using find_ticket_cur [OF t] assms(1) unfolding keys_ok_def keys_of_def by blast
  then have "find (episode_is a y (tk_episode t)) (ws_episodes s) \<noteq> None"
    by (auto simp: find_None_iff episode_is_def ep_key_def)
  then show ?thesis by (auto simp: episode_state_def)
qed

text \<open>The next version is a new sequence of the ticket's stream, and admitted tables keep it an integer.\<close>

lemma next_event_fits:
  assumes stream: "stream_ok db" and cur: "(x, y, v) \<in> set (map tk_stamp (ws_tickets (db_store db)))"
    and e: "e \<in> set (db_events db)" "ev_tenant e = x" "ev_ticket e = y"
  shows "ev_sequence e \<le> v"
proof -
  have "sequences x y (db_events db) = [v - int (length (sequences x y (db_events db))) + 1..v]"
    using stream cur unfolding stream_ok_def by blast
  moreover have "ev_sequence e \<in> set (sequences x y (db_events db))" using e by (auto simp: sequences_def)
  ultimately show ?thesis by (metis atLeastAtMost_iff set_upto)
qed

lemma append_raises:
  assumes stream: "stream_ok db" and t: "find_ticket a y (db_store db) = Some t"
    and stamps: "map tk_stamp (ws_tickets s') = map tk_stamp (ws_tickets (db_store db))"
    and moved: "store_admitted (set_version a y (tk_version t + 1) s')"
    and people: "ws_principals s' = ws_principals (db_store db)"
    and r: "wt_ticket r = y" "wt_version r = tk_version t + 1"
  shows "append_change a r d digest event now (db\<lparr>db_store := set_version a y (tk_version t + 1) s'\<rparr>) = Inl e \<longleftrightarrow>
    e = constraint_error \<and>
    (event \<in> ev_id ` set (db_events db) \<or> \<not> known_principal (db_store db) (ac_tenant a) (ac_principal a))"
proof -
  let ?moved = "set_version a y (tk_version t + 1) s'"
  have cur: "(ac_tenant a, y, tk_version t) \<in> set (map tk_stamp (ws_tickets (db_store db)))" by (rule find_ticket_stamp [OF t])
  then have "(ac_tenant a, y, tk_version t + 1) \<in> set (map tk_stamp (ws_tickets ?moved))"
    unfolding set_version_stamps stamps set_map [of "restamp _ _ _"]
    by (intro image_eqI [of _ _ "(ac_tenant a, y, tk_version t)"]) (simp_all add: restamp_def)
  then obtain q where "q \<in> set (ws_tickets ?moved)" "tk_version q = tk_version t + 1" by (auto simp: tk_stamp_def)
  then have int4: "positive_int4 (tk_version t + 1)"
    using moved by (auto simp: store_admitted_def facts_admitted_def list_all_iff ticket_checks_def)
  have fresh: "ev_sequence q \<noteq> tk_version t + 1"
    if "q \<in> set (db_events db)" "ev_tenant q = ac_tenant a" "ev_ticket q = y" for q
    using next_event_fits [OF stream cur that] by simp
  have known: "known_principal ?moved = known_principal (db_store db)"
    by (simp add: fun_eq_iff known_principal_def set_version_def people)
  show ?thesis
    using fresh int4 r
    by (auto simp: append_change_def changed_event_def event_admitted_def result_admitted_def Let_def known list_all_iff)
qed

lemma locked_raises:
  assumes ok: "db_ok db"
  shows "execute_locked a c digest ids now db = Inl e \<longleftrightarrow>
    e = constraint_error \<and> constraint_broken None a c ids now db"
proof (cases "find_ticket a (wc_ticket c) (db_store db)")
  case None
  then show ?thesis
    by (auto simp: execute_locked_def constraint_broken_def change_breaks_def refuse_Inl_iff result_admitted_def)
next
  case (Some t)
  note t = this
  have stream: "stream_ok db" and keys: "keys_ok (db_store db)" using ok by (simp_all add: db_ok_def store_ok_def)
  obtain st where st: "episode_state a (wc_ticket c) (tk_episode t) (db_store db) = Some st"
    using current_state_exists [OF keys t] by blast
  show ?thesis
  proof (cases "wc_expected c = tk_version t")
    case False
    then show ?thesis
      using t st by (auto simp: execute_locked_def constraint_broken_def change_breaks_def refuse_Inl_iff result_admitted_def)
  next
    case True
    show ?thesis
    proof (cases "mutate a c t st ids now (db_store db)")
      case (Inl e')
      then show ?thesis
        using t st True mutate_raises [OF Inl]
        by (auto simp: execute_locked_def constraint_broken_def change_breaks_def)
    next
      case (Inr oh)
      obtain oper h where oh: "oh = (oper, h)" by (cases oh)
      show ?thesis
      proof (cases h)
        case (Inl x)
        then show ?thesis
          using t st True Inr oh mutate_status [of a c t st ids now "db_store db" oper x]
          by (auto simp: execute_locked_def constraint_broken_def change_breaks_def refuse_Inl_iff result_admitted_def)
      next
        case (Inr ds)
        obtain d s' where ds: "ds = (d, s')" by (cases ds)
        have m: "mutate a c t st ids now (db_store db) = Inr (oper, Inr (d, s'))"
          using \<open>mutate a c t st ids now (db_store db) = Inr oh\<close> by (simp add: oh Inr ds)
        have breaks: "change_breaks a c ids now db \<longleftrightarrow>
            \<not> store_admitted (set_version a (wc_ticket c) (tk_version t + 1) s') \<or> fr_event ids \<in> ev_id ` set (db_events db)"
          using t st True m by (simp add: change_breaks_def)
        show ?thesis
        proof (cases "store_admitted (set_version a (wc_ticket c) (tk_version t + 1) s')")
          case True
          then show ?thesis
            using t st \<open>wc_expected c = tk_version t\<close> m breaks
              append_raises [OF stream t mutate_stamps [OF m] True mutate_principals [OF m]]
            by (auto simp: execute_locked_def constraint_broken_def Let_def)
        next
          case False
          then show ?thesis
            using t st True m breaks by (auto simp: execute_locked_def constraint_broken_def Let_def)
        qed
      qed
    qed
  qed
qed

text \<open>A transaction on a sound database raises exactly when a statement of it breaks a constraint.\<close>

lemma execute_raises:
  assumes ok: "db_ok db"
  shows "work_execute gate a c ids now db = Inl e \<longleftrightarrow>
    e = constraint_error \<and> work_refusal a c = None \<and>
    reserve_command (ac_principal a) (wc_command c) (work_digest c) db = None \<and> constraint_broken gate a c ids now db"
proof (cases gate)
  case None
  then show ?thesis
    using locked_raises [OF ok, of a c "work_digest c" ids now e]
    by (auto simp: work_execute_def execute_work_def split: option.split)
next
  case (Some p)
  then show ?thesis
    by (auto simp: work_execute_def execute_work_def refuse_Inl_iff result_admitted_def constraint_broken_def split: option.split)
qed

section \<open>Runs\<close>

lemma work_step_ok:
  assumes ok: "db_ok db"
  shows "db_ok (work_step call db)"
proof -
  have "db_ok db'" if "execute_work gate a c digest ids now db = Inr (x, db')" for gate a c digest ids now x db'
    using that
  proof (cases rule: execute_work_cases)
    case (commit t st oper d s')
    then show ?thesis using commit_facts(1) [OF ok] by blast
  qed (use ok in \<open>simp_all add: db_ok_def stream_ok_def\<close>)
  then show ?thesis
    using ok by (auto simp: work_step_def work_execute_def split: prod.splits sum.splits option.splits)
qed

interpretation work_machine: guarded_machine work_step db_ok
  by unfold_locales (rule work_step_ok)

lemma work_run_ok: "db_ok db \<Longrightarrow> db_ok (work_run calls db)"
  unfolding work_run_def by (rule work_machine.run_inv)

section \<open>Stored outcomes\<close>

lemma step_results: "\<exists>rows. db_results (work_step call db) = db_results db @ rows"
proof -
  have "\<exists>rows. db_results db' = db_results db @ rows"
    if "execute_work gate a c digest ids now db = Inr (x, db')" for gate a c digest ids now x db'
    using that
  proof (cases rule: execute_work_cases)
    case (commit t st oper d s')
    then show ?thesis using append_change_frames(4) [OF commit(7)] by simp
  qed (simp_all add: store_result_def)
  then show ?thesis
    by (fastforce simp: work_step_def work_execute_def split: prod.splits sum.splits option.splits)
qed

lemma run_results: "\<exists>rows. db_results (work_run calls db) = db_results db @ rows"
proof (induction calls arbitrary: db)
  case (Cons call calls)
  from Cons [of "work_step call db"] step_results [of call db] show ?case by fastforce
qed simp

definition stored :: "uuid \<Rightarrow> uuid \<Rightarrow> work_db \<Rightarrow> result_row option" where
  "stored p k db = find (\<lambda>r. cr_principal r = p \<and> cr_command r = k) (db_results db)"

lemma find_append_Some: "find P xs = Some r \<Longrightarrow> find P (xs @ ys) = Some r"
  by (induction xs) auto

lemma find_append_None: "find P xs = None \<Longrightarrow> find P (xs @ ys) = find P ys"
  by (induction xs) (auto split: if_splits)

lemma stored_run: "stored p k db = Some r \<Longrightarrow> stored p k (work_run calls db) = Some r"
  using run_results [of calls db] by (auto simp: stored_def intro: find_append_Some)

lemma reserve_stored:
  "reserve_command p k digest db =
     map_option (\<lambda>r. if cr_digest r = digest then replayed (cr_outcome r) else Inl (idempotency_conflict k))
       (stored p k db)"
  by (auto simp: reserve_command_def stored_def split: option.splits)

lemma execute_stores:
  assumes "execute_work gate a c digest ids now db = Inr (x, db')"
    and "stored (ac_principal a) (wc_command c) db = None"
  shows "stored (ac_principal a) (wc_command c) db' =
    Some \<lparr>cr_principal = ac_principal a, cr_command = wc_command c, cr_digest = digest, cr_outcome = x\<rparr>"
  using assms(1)
proof (cases rule: execute_work_cases)
  case replay
  then show ?thesis using assms(2) by (simp add: reserve_stored)
next
  case (refused p)
  then show ?thesis using assms(2) by (simp add: stored_def store_result_def find_append_None)
next
  case (commit t st oper d s')
  then show ?thesis
    using assms(2) append_change_frames(4) [OF commit(7)] by (simp add: stored_def find_append_None)
qed

section \<open>The lifecycle of a ticket\<close>

definition current_of :: "ticket_row list \<Rightarrow> uuid \<times> uuid \<Rightarrow> nat option" where
  "current_of ts = map_of (map (\<lambda>r. ((tk_tenant r, tk_id r), tk_episode r)) ts)"

definition state_of :: "episode_row list \<Rightarrow> uuid \<times> uuid \<times> nat \<Rightarrow> lifecycle_state option" where
  "state_of es = map_of (map (\<lambda>e. (ep_key e, ep_state e)) es)"

text \<open>The number and the state of the current episode of a ticket.\<close>

definition phase :: "uuid \<Rightarrow> uuid \<Rightarrow> work_store \<Rightarrow> (nat \<times> lifecycle_state) option" where
  "phase x y s =
     (case current_of (ws_tickets s) (x, y) of
        None \<Rightarrow> None | Some n \<Rightarrow> map_option (Pair n) (state_of (ws_episodes s) (x, y, n)))"

inductive lifecycle_move :: "work_action \<Rightarrow> nat \<times> lifecycle_state \<Rightarrow> nat \<times> lifecycle_state \<Rightarrow> bool" where
  move_admit: "st \<in> {StOpen, StWaiting} \<Longrightarrow> lifecycle_move Admit (n, st) (n, StActive)"
| move_defer: "st \<in> {StOpen, StActive, StWaiting} \<Longrightarrow> lifecycle_move (Defer t) (n, st) (n, StWaiting)"
| move_reopen: "st \<in> {StResolved, StClosed} \<Longrightarrow> lifecycle_move (Reopen p) (n, st) (Suc n, StOpen)"
| move_assign: "is_assignment_action x \<Longrightarrow> st \<notin> {StClosed, StCancelled} \<Longrightarrow> lifecycle_move x (n, st) (n, st)"
| move_priority: "lifecycle_move (ChangePriority p e) (n, st) (n, st)"
| move_block: "lifecycle_move (Block b) (n, st) (n, st)"
| move_unblock: "lifecycle_move (Unblock u e) (n, st) (n, st)"
| move_relate: "lifecycle_move (AddRelation k t) (n, st) (n, st)"

inductive_cases lifecycle_moveE: "lifecycle_move x (n, st) q"

lemma map_of_update_where:
  assumes "\<And>r. P r \<longleftrightarrow> key r = k" and "\<And>r. key (f r) = key r" and "\<And>r. g (f r) = v"
  shows "map_of (map (\<lambda>r. (key r, g r)) (update_where P f rows)) =
    (map_of (map (\<lambda>r. (key r, g r)) rows)) (k := map_option (\<lambda>_. v) (map_of (map (\<lambda>r. (key r, g r)) rows) k))"
  using assms by (induction rows) (auto simp: update_where_def fun_eq_iff)

lemma state_of_set_episode:
  "state_of (ws_episodes (set_episode a t n st s)) =
     (state_of (ws_episodes s)) ((ac_tenant a, t, n) :=
        map_option (\<lambda>_. st) (state_of (ws_episodes s) (ac_tenant a, t, n)))"
  unfolding set_episode_rows state_of_def
  by (rule map_of_update_where) (auto simp: episode_is_def ep_key_def)

lemma current_of_reopen:
  "current_of (update_where (ticket_is a t) (tk_episode_update (\<lambda>_. m)) rows) =
     (current_of rows) ((ac_tenant a, t) := map_option (\<lambda>_. m) (current_of rows (ac_tenant a, t)))"
  unfolding current_of_def
  by (rule map_of_update_where) (auto simp: ticket_is_def)

lemma current_of_same: "map tk_cur ts = map tk_cur ts' \<Longrightarrow> current_of ts = current_of ts'"
proof -
  have "map (\<lambda>r. ((tk_tenant r, tk_id r), tk_episode r)) rows =
      map (\<lambda>(x, y, n). ((x, y), n)) (map tk_cur rows)" for rows
    by (simp add: tk_cur_def)
  then show "map tk_cur ts = map tk_cur ts' \<Longrightarrow> current_of ts = current_of ts'"
    by (simp only: current_of_def)
qed

lemma find_map_of:
  "(\<And>r. P r \<longleftrightarrow> key r = k) \<Longrightarrow> map_of (map (\<lambda>r. (key r, g r)) rows) k = map_option g (find P rows)"
  by (induction rows) auto

lemma current_of_find: "current_of (ws_tickets s) (ac_tenant a, t) = map_option tk_episode (find_ticket a t s)"
  unfolding current_of_def find_ticket_def by (rule find_map_of) (auto simp: ticket_is_def)

lemma state_of_find: "state_of (ws_episodes s) (ac_tenant a, t, n) = episode_state a t n s"
  unfolding state_of_def episode_state_def by (rule find_map_of) (auto simp: episode_is_def ep_key_def)

lemma state_of_append:
  assumes "ep_key e \<notin> set (map ep_key es)"
  shows "state_of (es @ [e]) = (state_of es) (ep_key e \<mapsto> ep_state e)"
proof -
  have "state_of es (ep_key e) = None"
    using assms by (simp add: state_of_def map_of_eq_None_iff image_image)
  moreover have "state_of (es @ [e]) = [ep_key e \<mapsto> ep_state e] ++ state_of es"
    by (simp add: state_of_def)
  ultimately show ?thesis
    by (simp add: fun_eq_iff map_add_def split: option.split)
qed

text \<open>The phases after a handler: one entry moves, by the rule of the action.\<close>

lemma phase_frame:
  "map tk_cur (ws_tickets s') = map tk_cur (ws_tickets s) \<Longrightarrow> ws_episodes s' = ws_episodes s \<Longrightarrow> phase x y s' = phase x y s"
  unfolding phase_def by (drule current_of_same) (simp cong: option.case_cong)

lemma phase_set_episode:
  assumes "find_ticket a t s = Some r" and "episode_state a t (tk_episode r) s = Some st"
    and "ws_tickets s' = ws_tickets s" and "ws_episodes s' = ws_episodes (set_episode a t (tk_episode r) st' s)"
  shows "phase x y s' = (if (x, y) = (ac_tenant a, t) then Some (tk_episode r, st') else phase x y s)"
  using assms
  by (auto simp: phase_def state_of_set_episode state_of_find current_of_find split: option.splits)

lemma phase_start:
  "find_ticket a t s = Some r \<Longrightarrow> episode_state a t (tk_episode r) s = Some st \<Longrightarrow>
     phase (ac_tenant a) t s = Some (tk_episode r, st)"
  by (simp add: phase_def state_of_find current_of_find)

lemma phase_reopen:
  assumes ok: "keys_ok s" and cur: "find_ticket a (wc_ticket c) s = Some t"
    and op: "reopen_ticket a c j (tk_episode t) p v now s = Inr (d, s')"
  shows "phase x y s' =
    (if (x, y) = (ac_tenant a, wc_ticket c) then Some (Suc (tk_episode t), StOpen) else phase x y s)"
proof -
  let ?k = "(ac_tenant a, wc_ticket c)"
  let ?e = "\<lparr>ep_tenant = ac_tenant a, ep_ticket = wc_ticket c, ep_number = Suc (tk_episode t),
      ep_state = StOpen, ep_opened = now, ep_closed = None\<rparr>"
  have es: "ws_episodes s' = ws_episodes s @ [?e]"
    and ts: "ws_tickets s' = update_where (ticket_is a (wc_ticket c)) (tk_episode_update (\<lambda>_. Suc (tk_episode t))) (ws_tickets s)"
    using op by (auto simp: reopen_ticket_def Let_def split: if_splits)
  have "(ac_tenant a, wc_ticket c, Suc (tk_episode t)) \<notin> set (map ep_key (ws_episodes s))"
    using ok find_ticket_cur [OF cur] unfolding keys_ok_def keys_of_def by fastforce
  then have "state_of (ws_episodes s') =
      (state_of (ws_episodes s)) ((ac_tenant a, wc_ticket c, Suc (tk_episode t)) \<mapsto> StOpen)"
    unfolding es by (subst state_of_append) (simp_all add: ep_key_def)
  moreover have "current_of (ws_tickets s') = (current_of (ws_tickets s)) (?k \<mapsto> Suc (tk_episode t))"
    using cur unfolding ts current_of_reopen by (simp add: current_of_find)
  ultimately show ?thesis by (auto simp: phase_def split: option.splits)
qed

lemma intent_phase:
  assumes t: "find_ticket a (wc_ticket c) s = Some t" and st: "episode_state a (wc_ticket c) (tk_episode t) s = Some st"
  shows "admit_ticket a c i j (tk_episode t) now s = Inr (d, s') \<Longrightarrow>
      st \<in> {StOpen, StWaiting} \<and>
      phase x y s' = (if (x, y) = (ac_tenant a, wc_ticket c) then Some (tk_episode t, StActive) else phase x y s)"
    and "defer_ticket a c r i j (tk_episode t) now s = Inr (d, s') \<Longrightarrow>
      st \<in> {StOpen, StActive, StWaiting} \<and>
      phase x y s' = (if (x, y) = (ac_tenant a, wc_ticket c) then Some (tk_episode t, StWaiting) else phase x y s)"
proof -
  let ?w = "\<lambda>b v w. lifecycle_fact a c j (tk_episode t) w now (admission_fact a c i (tk_episode t) b v now s)"
  assume "admit_ticket a c i j (tk_episode t) now s = Inr (d, s')"
  then have "st \<in> {StOpen, StWaiting}"
    and s': "s' = set_episode a (wc_ticket c) (tk_episode t) StActive (?w True None ''active'')"
    using st by (auto simp: admit_ticket_def Let_def split: if_splits)
  moreover have "phase x y s' = (if (x, y) = (ac_tenant a, wc_ticket c) then Some (tk_episode t, StActive) else phase x y s)"
    by (rule phase_set_episode [OF t st]) (simp_all add: s' set_episode_rows)
  ultimately show "st \<in> {StOpen, StWaiting} \<and>
      phase x y s' = (if (x, y) = (ac_tenant a, wc_ticket c) then Some (tk_episode t, StActive) else phase x y s)"
    by blast
next
  let ?w = "\<lambda>b v w. lifecycle_fact a c j (tk_episode t) w now (admission_fact a c i (tk_episode t) b v now s)"
  assume "defer_ticket a c r i j (tk_episode t) now s = Inr (d, s')"
  then have "st \<in> {StOpen, StActive, StWaiting}"
    and s': "s' = set_episode a (wc_ticket c) (tk_episode t) StWaiting (?w False (Some r) ''waiting'')"
    using st by (auto simp: defer_ticket_def Let_def split: if_splits)
  moreover have "phase x y s' = (if (x, y) = (ac_tenant a, wc_ticket c) then Some (tk_episode t, StWaiting) else phase x y s)"
    by (rule phase_set_episode [OF t st]) (simp_all add: s' set_episode_rows)
  ultimately show "st \<in> {StOpen, StActive, StWaiting} \<and>
      phase x y s' = (if (x, y) = (ac_tenant a, wc_ticket c) then Some (tk_episode t, StWaiting) else phase x y s)"
    by blast
qed

lemma priority_phase:
  assumes "change_priority a c p e v n now s = (d, s')"
  shows "phase x y s' = phase x y s"
  using assms
  by (intro phase_frame) (auto simp: change_priority_def Let_def tk_cur_def intro!: ticket_update_cur)

lemma mutate_phase:
  assumes ok: "keys_ok s" and t: "find_ticket a (wc_ticket c) s = Some t"
    and st: "episode_state a (wc_ticket c) (tk_episode t) s = Some st"
    and m: "mutate a c t st ids now s = Inr (oper, Inr (d, s'))"
  shows "\<exists>q. lifecycle_move (wc_action c) (tk_episode t, st) q \<and>
    (\<forall>x y. phase x y s' = (if (x, y) = (ac_tenant a, wc_ticket c) then Some q else phase x y s))"
proof -
  note start = phase_start [OF t st]
  have quiet: ?thesis
    if "lifecycle_move (wc_action c) (tk_episode t, st) (tk_episode t, st)" "\<And>x y. phase x y s' = phase x y s"
    using that start by (intro exI [of _ "(tk_episode t, st)"]) auto
  have still: "phase x y s' = phase x y s" if "ws_tickets s' = ws_tickets s \<and> ws_episodes s' = ws_episodes s" for x y
    using that by (intro phase_frame) simp_all
  show ?thesis
  proof (cases "wc_action c")
    case (ChangePriority p e)
    with m have "change_priority a c p e (tk_priority t) (tk_episode t) now s = (d, s')"
      by (auto simp: mutate_def is_assignment_action_def split: if_splits)
    then show ?thesis
      using priority_phase by (intro quiet) (auto simp: ChangePriority move_priority)
  next
    case (ChangeAssignment k p scope)
    with m have "change_assignment a c k p scope now s = Inr (d, s')" "st \<notin> {StClosed, StCancelled}"
      by (auto simp: mutate_def is_assignment_action_def split: if_splits)
    then show ?thesis
      using ChangeAssignment
      by (intro quiet still quiet_frames(4)) (auto intro!: move_assign simp: is_assignment_action_def)
  next
    case (ConsumeReviewDispatch e crew)
    with m have "consume_review_dispatch a c e crew now s = Inr (d, s')" "st \<notin> {StClosed, StCancelled}"
      by (auto simp: mutate_def is_assignment_action_def split: if_splits)
    then show ?thesis
      using ConsumeReviewDispatch
      by (intro quiet still quiet_frames(5)) (auto intro!: move_assign simp: is_assignment_action_def)
  next
    case Admit
    with m have "admit_ticket a c (fr_first ids) (fr_second ids) (tk_episode t) now s = Inr (d, s')"
      by (simp add: mutate_def mutate_intent_def is_assignment_action_def)
    from intent_phase(1) [OF t st this] show ?thesis unfolding Admit by (blast intro: move_admit)
  next
    case (Defer r)
    with m have "defer_ticket a c r (fr_first ids) (fr_second ids) (tk_episode t) now s = Inr (d, s')"
      by (simp add: mutate_def mutate_intent_def is_assignment_action_def)
    from intent_phase(2) [OF t st this] show ?thesis unfolding Defer by (blast intro: move_defer)
  next
    case (Reopen p)
    with m have op: "reopen_ticket a c (fr_first ids) (tk_episode t) (tk_custodian t) (tk_priority t) now s = Inr (d, s')"
      by (simp add: mutate_def mutate_intent_def is_assignment_action_def)
    then have "st \<in> {StResolved, StClosed}" using st by (auto simp: reopen_ticket_def split: if_splits)
    with phase_reopen [OF ok t op] show ?thesis unfolding Reopen by (blast intro: move_reopen)
  next
    case (Block b)
    with m have "open_blocker a c b (fr_first ids) now s = Inr (d, s')"
      by (auto simp: mutate_def mutate_intent_def is_assignment_action_def bindE_Inr_iff inserted_Inr_iff)
    then show ?thesis by (intro quiet still quiet_frames(1)) (simp_all add: Block move_block)
  next
    case (Unblock b e)
    with m have "resolve_blocker a c b e (fr_first ids) now s = Inr (d, s')"
      by (simp add: mutate_def mutate_intent_def is_assignment_action_def)
    then show ?thesis by (intro quiet still quiet_frames(2)) (simp_all add: Unblock move_unblock)
  next
    case (AddRelation k u)
    with m have "add_relation a c k u (fr_first ids) now s = Inr (d, s')"
      by (auto simp: mutate_def mutate_intent_def is_assignment_action_def bindE_Inr_iff inserted_Inr_iff)
    then show ?thesis by (intro quiet still quiet_frames(3)) (simp_all add: AddRelation move_relate)
  qed
qed

lemma set_version_phase: "phase x y (set_version a t v s) = phase x y s"
  by (rule phase_frame) (simp_all add: set_version_def tk_cur_def ticket_update_cur)

text \<open>A committed transaction moves the phase of its own ticket by its action's rule, and no other phase.\<close>

lemma commit_phase:
  assumes ok: "db_ok db" and exec: "work_execute gate a c ids now db = Inr (Inr r, db')" and new: "db' \<noteq> db"
  shows "\<exists>p q. phase (ac_tenant a) (wc_ticket c) (db_store db) = Some p \<and> lifecycle_move (wc_action c) p q \<and>
    (\<forall>x y. phase x y (db_store db') =
       (if (x, y) = (ac_tenant a, wc_ticket c) then Some q else phase x y (db_store db)))"
  using exec
proof (cases rule: work_execute_cases)
  case execute
  from execute(2) show ?thesis
  proof (cases rule: execute_work_cases)
    case (commit t st oper d s')
    have "keys_ok (db_store db)" using ok by (simp add: db_ok_def store_ok_def)
    from mutate_phase [OF this commit(3,4,6)] obtain q where
      "lifecycle_move (wc_action c) (tk_episode t, st) q"
      "\<And>x y. phase x y s' = (if (x, y) = (ac_tenant a, wc_ticket c) then Some q else phase x y (db_store db))"
      by blast
    moreover have "db_store db' = set_version a (wc_ticket c) (tk_version t + 1) s'"
      using commit_facts(3) [OF ok commit(3,5,6,7)] .
    ultimately show ?thesis
      using phase_start [OF commit(3,4)]
      by (intro exI [of _ "(tk_episode t, st)"] exI [of _ q]) (simp add: set_version_phase)
  qed (use new in simp_all)
qed (use new in simp)

lemma refusal_frames:
  assumes "work_execute gate a c ids now db = Inr (Inl p, db')"
  shows "db_store db' = db_store db" "db_events db' = db_events db"
proof -
  have "db_store db' = db_store db \<and> db_events db' = db_events db"
    using assms
    by (auto elim!: work_execute_cases execute_work_cases dest: append_change_frames(1))
  then show "db_store db' = db_store db" "db_events db' = db_events db" by simp_all
qed

lemma step_phase:
  assumes ok: "db_ok db"
  shows "phase x y (db_store (work_step call db)) = phase x y (db_store db) \<or>
    (\<exists>action p q. phase x y (db_store db) = Some p \<and> phase x y (db_store (work_step call db)) = Some q \<and>
       lifecycle_move action p q)"
proof -
  obtain gate a c ids now where call: "call = (gate, a, c, ids, now)" by (cases call)
  show ?thesis
  proof (cases "work_execute gate a c ids now db")
    case (Inl e)
    then show ?thesis by (simp add: work_step_def call)
  next
    case (Inr answer)
    obtain z db' where answer: "answer = (z, db')" by (cases answer)
    note exec = Inr [unfolded answer]
    have step: "work_step call db = db'" by (simp add: work_step_def call exec)
    show ?thesis
    proof (cases z)
      case (Inl p)
      have "db_store db' = db_store db"
        using exec refusal_frames(1) by (simp add: Inl)
      then show ?thesis by (simp add: step)
    next
      case (Inr r)
      show ?thesis
      proof (cases "db' = db")
        case False
        with exec Inr obtain p q where "phase (ac_tenant a) (wc_ticket c) (db_store db) = Some p"
            "lifecycle_move (wc_action c) p q"
            "phase x y (db_store db') = (if (x, y) = (ac_tenant a, wc_ticket c) then Some q else phase x y (db_store db))"
          using commit_phase [OF ok _ False] by blast
        then show ?thesis
          by (cases "(x, y) = (ac_tenant a, wc_ticket c)") (auto simp: step)
      qed (simp add: step)
    qed
  qed
qed

end
