(* ===== verification/WorkTheorems.thy ===== *)
theory WorkTheorems
  imports WorkProofs
begin

text \<open>
  The properties of Work: who may issue which command, atomic and versioned transactions, exact
  replay, the lifecycle, acyclic relations and readiness; and the small database the witnesses run on.
\<close>

section \<open>A small database\<close>

definition demo_actor :: actor where
  "demo_actor = \<lparr>ac_principal = 7, ac_tenant = 1, ac_kind = Operator, ac_projects = {}, ac_scopes = {},
     ac_seat = None, ac_binding = None, ac_session = None\<rparr>"

definition demo_ticket :: ticket_row where
  "demo_ticket = \<lparr>tk_tenant = 1, tk_id = 10, tk_version = 1, tk_priority = ''P1'', tk_episode = 1, tk_custodian = 7\<rparr>"

definition demo_store :: "lifecycle_state \<Rightarrow> work_store" where
  "demo_store st =
     \<lparr>ws_principals = [\<lparr>pr_tenant = 1, pr_id = 7, pr_kind = ''operator'', pr_disabled = False\<rparr>],
      ws_tickets = [demo_ticket, demo_ticket\<lparr>tk_id := 11\<rparr>],
      ws_episodes = map (\<lambda>t. \<lparr>ep_tenant = 1, ep_ticket = t, ep_number = 1, ep_state = st, ep_opened = 0,
          ep_closed = None\<rparr>) [10, 11],
      ws_intervals = [], ws_admissions = [], ws_lifecycle = [], ws_priorities = [], ws_blockers = [],
      ws_blocker_facts = [], ws_relations = [], ws_effects = [], ws_lenses = [], ws_bindings = [],
      ws_consumptions = [], ws_verdicts = [], ws_links = []\<rparr>"

definition demo_db :: "lifecycle_state \<Rightarrow> work_db" where
  "demo_db st = \<lparr>db_store = demo_store st, db_results = [], db_events = []\<rparr>"

definition demo_command :: "work_action \<Rightarrow> work_command" where
  "demo_command x = \<lparr>wc_command = 20, wc_ticket = 10, wc_expected = 1, wc_reason = ''plan'', wc_action = x\<rparr>"

definition demo_ids :: fresh_ids where
  "demo_ids = \<lparr>fr_first = 30, fr_second = 31, fr_event = 32\<rparr>"

lemmas demo_defs = demo_actor_def demo_ticket_def demo_store_def demo_db_def demo_command_def demo_ids_def

lemma demo_ok: "db_ok (demo_db st)"
  by (auto simp: db_ok_def store_ok_def stream_ok_def relations_ok_def numbering_ok_def single_open_def
      custody_ok_def keys_ok_def keys_of_def blockers_ok_def relation_edges_def sequences_def tk_cur_def
      ep_key_def custody_free_def demo_defs tk_stamp_def acyclic_def)

lemma demo_policy: "work_refusal demo_actor (demo_command Admit) = None"
  by (simp add: work_refusal_def work_authority_refusal_def credential_scope_refusal_def demo_defs
      typed_command_refusal_def max_reason_length_def code_points_def)

lemmas demo_checks = store_admitted_defs fact_keys_def interval_keys_def no_overlap_def blocker_keys_def relation_keys_def
  dispatch_keys_def ticket_checks_def admission_checks_def lifecycle_checks_def positive_int4_def text_between_def
  code_points_def known_ticket_def known_principal_def admission_fact_def lifecycle_fact_def set_episode_def
  set_version_def update_where_def next_sequence_def

text \<open>The ticket of the small database can be admitted.\<close>

lemma demo_admit:
  "\<exists>r db'. work_execute None demo_actor (demo_command Admit) demo_ids 5 (demo_db StOpen) = Inr (Inr r, db') \<and>
     db' \<noteq> demo_db StOpen \<and>
     stored 7 20 db' = Some \<lparr>cr_principal = 7, cr_command = 20, cr_digest = work_digest (demo_command Admit),
       cr_outcome = Inr r\<rparr>"
  unfolding work_execute_def demo_policy
  by (simp add: execute_work_def reserve_command_def execute_locked_def demo_defs find_ticket_def
      ticket_is_def episode_state_def episode_is_def mutate_def mutate_intent_def is_assignment_action_def
      admit_ticket_def Let_def append_change_def changed_event_def event_admitted_def result_admitted_def
      store_result_def stored_def demo_checks)

section \<open>Authority\<close>

text \<open>Who may change a priority, and what Work lets through by the shape of the command.\<close>

definition permitted_action :: "actor \<Rightarrow> work_action \<Rightarrow> bool" where
  "permitted_action a x =
     (case x of
        ChangePriority p _ \<Rightarrow>
          p \<in> {''P0'', ''P1'', ''P2''} \<and> ac_kind a \<in> {Commander, Operator} \<and> (p = ''P0'' \<longrightarrow> ac_kind a = Operator)
      | ChangeAssignment k _ scope \<Rightarrow>
          k \<notin> {TicketCustodian, RunnerLeaseOwner} \<and> (k = CurrentAssignee \<longrightarrow> scope = None)
      | ConsumeReviewDispatch _ crew \<Rightarrow> stable_family crew
      | Reopen policy \<Rightarrow> policy = ''carry_forward''
      | _ \<Rightarrow> True)"

definition permitted :: "actor \<Rightarrow> work_command \<Rightarrow> bool" where
  "permitted a c \<longleftrightarrow>
     ac_kind a \<noteq> MigrationImporter \<and> (ac_seat a = None \<or> ScopeTransition \<in> ac_scopes a) \<and>
     1 \<le> wc_expected c \<and> wc_reason c \<noteq> [] \<and> code_points (wc_reason c) \<le> 500 \<and>
     permitted_action a (wc_action c)"

lemma work_refusal_permitted: "work_refusal a c = None \<longleftrightarrow> permitted a c"
proof -
  have "work_authority_refusal a k = None \<longleftrightarrow>
      ac_kind a \<noteq> MigrationImporter \<and> (ac_seat a = None \<or> ScopeTransition \<in> ac_scopes a)" for k
    by (simp add: work_authority_refusal_def credential_scope_refusal_def)
  moreover have "typed_command_refusal a c = None \<and>
      (case wc_action c of
         Reopen policy \<Rightarrow> (if policy \<noteq> ''carry_forward''
            then Some (work_problem c ''validation-error'' 422 ''Unsupported priority policy'') else None)
       | _ \<Rightarrow> None) = None \<longleftrightarrow> permitted_action a (wc_action c)"
  proof (cases "wc_action c")
    case (ChangePriority p e)
    then show ?thesis
      by (simp add: typed_command_refusal_def permitted_action_def priority_refusal_def priorities_def)
  qed (simp_all add: typed_command_refusal_def permitted_action_def assignment_refusal_def)
  ultimately show ?thesis
    unfolding work_refusal_def permitted_def max_reason_length_def first_some_None by auto
qed

text \<open>
  C11. A Work command reaches the database exactly when its actor may issue it: not the migration
  importer; a project seat only with the transition scope; a positive expected version and a reason
  of one to 500 code points; a priority of P0, P1 or P2 set by the Commander or the operator, P0 by
  the operator alone; no custody or runner-lease assignment and no scoped assignee; a stable crew name;
  the carry-forward reopen policy. Anything else is answered by a refusal and writes nothing, not
  even its command key.
\<close>

theorem unauthorised_work_writes_nothing:
  "(work_refusal a c = None \<longleftrightarrow> permitted a c) \<and>
   (\<not> permitted a c \<longrightarrow> (\<exists>p. work_execute gate a c ids now db = Inr (Inl p, db)))"
  using work_refusal_permitted [of a c] by (auto simp: work_execute_def)

theorem unauthorised_work_writes_nothing_witness:
  "(\<not> permitted (demo_actor\<lparr>ac_kind := Commander\<rparr>) (demo_command (ChangePriority ''P0'' None))) \<and>
   (\<exists>p. work_execute None (demo_actor\<lparr>ac_kind := Commander\<rparr>) (demo_command (ChangePriority ''P0'' None)) demo_ids 5
      (demo_db StOpen) = Inr (Inl p, demo_db StOpen))"
proof -
  have "\<not> permitted (demo_actor\<lparr>ac_kind := Commander\<rparr>) (demo_command (ChangePriority ''P0'' None))"
    by (simp add: permitted_def permitted_action_def demo_defs)
  then show ?thesis using unauthorised_work_writes_nothing by blast
qed

section \<open>Transactions\<close>

text \<open>A reopening writes its reason behind a prefix of 22 code points into columns of at most 500.\<close>

lemma long_reopen_breaks:
  assumes "reopen_ticket a c j n p v now s = Inr (d, s')" and "478 < code_points (wc_reason c)"
  shows "\<not> store_admitted (set_version a t w s')"
proof -
  have "\<exists>r \<in> set (ws_intervals s'). iv_reason r = carry_reason c"
    using assms(1) by (auto simp: reopen_ticket_def reopen_custody_def Let_def split: if_splits)
  moreover have "\<not> text_between 1 500 (carry_reason c)"
    using assms(2) by (simp add: text_between_def carry_reason_length)
  moreover have "\<forall>r \<in> set (ws_intervals s'). text_between 1 500 (iv_reason r)" if "store_admitted (set_version a t w s')"
    using that by (simp add: store_admitted_def assignments_admitted_def set_version_def interval_checks_def list_all_iff)
  ultimately show ?thesis by metis
qed

text \<open>
  C12. The Work transaction is atomic and versioned. On a database that satisfies the invariants it raises exactly
  when a permitted command under a new key breaks a constraint of the migrations, and then the error of the
  statement, which rolls everything back: the actor is not a principal of the tenant, the refusal of a gate has a
  status the results do not take, the row of a blocker or a relation breaks a CHECK, the tables the handler leaves
  break a CHECK, a key, a reference or the overlap rule, or the event's identifier is taken. Otherwise a refusal
  leaves every table of the store and the event log as they were, and a success either replays a stored outcome
  and changes nothing, or commits tables that satisfy the constraints: the ticket existed at the expected version,
  its version and no other ticket's moves to the next one, and exactly one event is appended, which carries that
  version, the command and the operation of the receipt. A reopening whose reason is longer than 478 code points,
  although the command admits 500, is never committed: the carried reason breaks its column.
\<close>

theorem work_transaction_atomic:
  assumes "db_ok db"
  shows "(\<forall>e. work_execute gate a c ids now db = Inl e \<longleftrightarrow>
      e = constraint_error \<and> permitted a c \<and> stored (ac_principal a) (wc_command c) db = None \<and>
      constraint_broken gate a c ids now db) \<and>
    (\<forall>p db'. work_execute gate a c ids now db = Inr (Inl p, db') \<longrightarrow>
      db_store db' = db_store db \<and> db_events db' = db_events db) \<and>
    (\<forall>r db'. work_execute gate a c ids now db = Inr (Inr r, db') \<longrightarrow>
      db' = db \<and> (\<exists>row. stored (ac_principal a) (wc_command c) db = Some row \<and>
         cr_digest row = work_digest c \<and> cr_outcome row = Inr r)
      \<or> committed a c r db db' \<and> store_admitted (db_store db') \<and>
         (\<forall>policy. wc_action c = Reopen policy \<longrightarrow> code_points (wc_reason c) \<le> 478))"
proof (intro conjI allI impI)
  fix e
  have "reserve_command (ac_principal a) (wc_command c) (work_digest c) db = None \<longleftrightarrow>
      stored (ac_principal a) (wc_command c) db = None"
    by (simp add: reserve_stored)
  then show "work_execute gate a c ids now db = Inl e \<longleftrightarrow>
      e = constraint_error \<and> permitted a c \<and> stored (ac_principal a) (wc_command c) db = None \<and>
      constraint_broken gate a c ids now db"
    unfolding execute_raises [OF assms] work_refusal_permitted by simp
next
  fix p db'
  assume exec: "work_execute gate a c ids now db = Inr (Inl p, db')"
  then show "db_store db' = db_store db" "db_events db' = db_events db" by (rule refusal_frames)+
next
  fix r db'
  assume "work_execute gate a c ids now db = Inr (Inr r, db')"
  then show "db' = db \<and> (\<exists>row. stored (ac_principal a) (wc_command c) db = Some row \<and>
         cr_digest row = work_digest c \<and> cr_outcome row = Inr r)
      \<or> committed a c r db db' \<and> store_admitted (db_store db') \<and>
         (\<forall>policy. wc_action c = Reopen policy \<longrightarrow> code_points (wc_reason c) \<le> 478)"
  proof (cases rule: work_execute_cases)
    case execute
    from execute(2) show ?thesis
    proof (cases rule: execute_work_cases)
      case replay
      then show ?thesis
        by (auto simp: reserve_stored replayed_def idempotency_conflict_def split: if_splits sum.splits)
    next
      case (commit t st oper d s')
      have "code_points (wc_reason c) \<le> 478" if "wc_action c = Reopen policy" for policy
      proof -
        have "reopen_ticket a c (fr_first ids) (tk_episode t) (tk_custodian t) (tk_priority t) now (db_store db) = Inr (d, s')"
          using commit(6) that by (auto simp: mutate_def mutate_intent_def is_assignment_action_def)
        then show ?thesis using long_reopen_breaks commit(8) by fastforce
      qed
      then show ?thesis
        using commit_facts(2,3) [OF assms commit(3,5,6,7)] commit(8) by auto
    qed simp_all
  qed simp
qed

definition long_reopen :: work_command where
  "long_reopen = (demo_command (Reopen ''carry_forward''))\<lparr>wc_reason := replicate 479 (CHR ''x'')\<rparr>"

lemma long_reopen_facts:
  "permitted demo_actor long_reopen" "change_breaks demo_actor long_reopen demo_ids 5 (demo_db StResolved)"
proof -
  have cp: "code_points (wc_reason long_reopen) = 479"
    by (simp add: long_reopen_def code_points_replicate)
  then show "permitted demo_actor long_reopen"
    by (simp add: permitted_def permitted_action_def cp) (simp add: long_reopen_def demo_defs)
  have t: "find_ticket demo_actor (wc_ticket long_reopen) (db_store (demo_db StResolved)) = Some demo_ticket"
    and st: "episode_state demo_actor (wc_ticket long_reopen) (tk_episode demo_ticket) (db_store (demo_db StResolved)) = Some StResolved"
    by (simp_all add: long_reopen_def find_ticket_def ticket_is_def episode_state_def episode_is_def demo_defs)
  have "\<exists>d s'. reopen_ticket demo_actor long_reopen 30 1 7 ''P1'' 5 (db_store (demo_db StResolved)) = Inr (d, s')"
    using st by (simp add: reopen_ticket_def Let_def eligible_custodian_def principal_of_def demo_defs)
  then obtain d s' where r: "reopen_ticket demo_actor long_reopen 30 1 7 ''P1'' 5 (db_store (demo_db StResolved)) = Inr (d, s')"
    by blast
  moreover have "wc_action long_reopen = Reopen ''carry_forward''" by (simp add: long_reopen_def demo_command_def)
  ultimately have "mutate demo_actor long_reopen demo_ticket StResolved demo_ids 5 (db_store (demo_db StResolved)) =
      Inr (''reopened'', Inr (d, s'))"
    by (simp add: mutate_def mutate_intent_def is_assignment_action_def demo_ticket_def demo_ids_def)
  then show "change_breaks demo_actor long_reopen demo_ids 5 (demo_db StResolved)"
    unfolding change_breaks_def using t st long_reopen_breaks [OF r] cp
    by (intro exI [of _ demo_ticket] exI [of _ StResolved]) (simp add: long_reopen_def demo_command_def demo_ticket_def)
qed

theorem work_transaction_atomic_witness:
  "(\<exists>r db'. work_execute None demo_actor (demo_command Admit) demo_ids 5 (demo_db StOpen) = Inr (Inr r, db') \<and>
     committed demo_actor (demo_command Admit) r (demo_db StOpen) db' \<and> store_admitted (db_store db')) \<and>
   work_execute None demo_actor long_reopen demo_ids 5 (demo_db StResolved) = Inl constraint_error"
proof
  show "\<exists>r db'. work_execute None demo_actor (demo_command Admit) demo_ids 5 (demo_db StOpen) = Inr (Inr r, db') \<and>
     committed demo_actor (demo_command Admit) r (demo_db StOpen) db' \<and> store_admitted (db_store db')"
    using work_transaction_atomic [OF demo_ok [of StOpen], of None demo_actor "demo_command Admit" demo_ids 5]
      demo_admit
    by blast
  have "stored (ac_principal demo_actor) (wc_command long_reopen) (demo_db StResolved) = None"
    by (simp add: stored_def demo_db_def)
  then show "work_execute None demo_actor long_reopen demo_ids 5 (demo_db StResolved) = Inl constraint_error"
    using work_transaction_atomic [OF demo_ok [of StResolved], of None demo_actor long_reopen demo_ids 5] long_reopen_facts
    by (simp add: constraint_broken_def)
qed

text \<open>
  C13. Every run of Work transactions keeps the invariants of the database: relations of the acyclic
  kinds stay acyclic, the histories of assignments, admissions, lifecycle, priorities and blockers
  stay gapless, at most one assignment is open per scope, a resolved or closed ticket has no open
  custody, every ticket has its current episode and it is the last, a blocker is opened once and
  resolved at most once, and the events of each ticket are consecutive and end at its version.
\<close>

theorem work_run_keeps_invariants: "db_ok db \<Longrightarrow> db_ok (work_run calls db)"
  by (rule work_run_ok)

theorem work_run_keeps_invariants_witness:
  "db_ok (work_run [(None, demo_actor, demo_command Admit, demo_ids, 5),
     (None, demo_actor, demo_command (AddRelation Blocks 11), demo_ids, 6)] (demo_db StOpen))"
  by (rule work_run_keeps_invariants) (rule demo_ok)

text \<open>
  C14. Replay is exact. Once a command key of a principal has been executed, every later use of that
  key by the principal, after any run of other transactions and whatever the actor's other facts,
  the gate, the clock and the identifiers, writes nothing; with the same request digest it returns
  the stored outcome (a stored problem without its prohibited classes), with any other digest the
  idempotency conflict.
\<close>

theorem command_key_replays:
  assumes first: "work_execute gate a c ids now db = Inr (x, db')" "work_refusal a c = None"
    and new: "stored (ac_principal a) (wc_command c) db = None"
    and again: "ac_principal a' = ac_principal a" "wc_command c' = wc_command c" "work_refusal a' c' = None"
  shows "work_execute gate' a' c' ids' now' (work_run calls db') =
    Inr (if work_digest c' = work_digest c then replayed x else Inl (idempotency_conflict (wc_command c)),
         work_run calls db')"
proof -
  have "execute_work gate a c (work_digest c) ids now db = Inr (x, db')"
    using first by (simp add: work_execute_def)
  from stored_run [OF execute_stores [OF this new], of calls] again show ?thesis
    by (simp add: work_execute_def execute_work_def reserve_stored)
qed

theorem command_key_replays_witness:
  "\<exists>r db'. work_execute None demo_actor (demo_command Admit) demo_ids 5 (demo_db StOpen) = Inr (Inr r, db') \<and>
     work_execute None demo_actor (demo_command Admit) demo_ids 9
       (work_run [(None, demo_actor, demo_command Admit, demo_ids, 6)] db') =
     Inr (Inr r, work_run [(None, demo_actor, demo_command Admit, demo_ids, 6)] db')"
proof -
  obtain r db' where r: "work_execute None demo_actor (demo_command Admit) demo_ids 5 (demo_db StOpen) = Inr (Inr r, db')"
    using demo_admit by blast
  have "stored (ac_principal demo_actor) (wc_command (demo_command Admit)) (demo_db StOpen) = None"
    by (simp add: stored_def demo_db_def)
  from command_key_replays [OF r demo_policy this refl refl demo_policy] r show ?thesis
    by (intro exI [of _ r] exI [of _ db']) (simp add: replayed_def del: work_run_simps)
qed

text \<open>
  C15. The lifecycle is a state machine per ticket. A committed transaction moves the current episode of
  its ticket exactly as its action allows (admit: open or waiting to active; defer: open, active or
  waiting to waiting; reopen: resolved or closed to the next episode, open; an assignment needs an
  episode that is neither closed nor cancelled; the rest leave it) and touches no other ticket's.
\<close>

theorem lifecycle_is_state_machine:
  assumes "db_ok db" and "work_execute gate a c ids now db = Inr (Inr r, db')" and "db' \<noteq> db"
  shows "\<exists>p q. phase (ac_tenant a) (wc_ticket c) (db_store db) = Some p \<and> lifecycle_move (wc_action c) p q \<and>
    (\<forall>x y. phase x y (db_store db') =
       (if (x, y) = (ac_tenant a, wc_ticket c) then Some q else phase x y (db_store db)))"
  using assms by (rule commit_phase)

theorem lifecycle_is_state_machine_witness:
  "\<exists>r db'. work_execute None demo_actor (demo_command Admit) demo_ids 5 (demo_db StOpen) = Inr (Inr r, db') \<and>
     phase 1 10 (db_store db') = Some (1, StActive) \<and> phase 1 11 (db_store db') = Some (1, StOpen)"
proof -
  obtain r db' where exec: "work_execute None demo_actor (demo_command Admit) demo_ids 5 (demo_db StOpen) = Inr (Inr r, db')"
    and new: "db' \<noteq> demo_db StOpen"
    using demo_admit by blast
  have start: "phase 1 10 (db_store (demo_db StOpen)) = Some (1, StOpen)"
    "phase 1 11 (db_store (demo_db StOpen)) = Some (1, StOpen)"
    by (simp_all add: phase_def current_of_def state_of_def ep_key_def demo_defs)
  from lifecycle_is_state_machine [OF demo_ok exec new] start
  have "phase 1 10 (db_store db') = Some (1, StActive)" "phase 1 11 (db_store db') = Some (1, StOpen)"
    by (auto simp: demo_actor_def demo_command_def is_assignment_action_def elim!: lifecycle_moveE)
  with exec show ?thesis by blast
qed

text \<open>
  C16. A cancelled episode is final: no run of Work transactions gives its ticket another state or
  another episode.
\<close>

theorem cancelled_is_final:
  assumes "db_ok db" and "phase x y (db_store db) = Some (n, StCancelled)"
  shows "phase x y (db_store (work_run calls db)) = Some (n, StCancelled)"
  using assms
proof (induction calls arbitrary: db)
  case (Cons call calls)
  have "phase x y (db_store (work_step call db)) = Some (n, StCancelled)"
    using step_phase [OF Cons.prems(1), of x y call] Cons.prems(2)
    by (auto elim: lifecycle_moveE)
  with Cons.IH [OF work_step_ok [OF Cons.prems(1)]] show ?case by simp
qed simp

theorem cancelled_is_final_witness:
  "phase 1 10 (db_store (work_run [(None, demo_actor, demo_command (Reopen ''carry_forward''), demo_ids, 5)]
     (demo_db StCancelled))) = Some (1, StCancelled)"
  by (rule cancelled_is_final [OF demo_ok])
    (simp add: phase_def current_of_def state_of_def ep_key_def demo_defs)

section \<open>Relations\<close>

text \<open>
  C17. For the acyclic kinds the cycle refusal is exact: with an existing target, on a store whose
  relations are acyclic, \<open>add_relation\<close> refuses with the cycle problem exactly when the new edge
  would close a cycle among the relations of its kind in the tenant. The recursive query that
  decides it ends on every store, the cyclic ones included.
\<close>

theorem relation_cycle_refused_exactly:
  assumes "relations_ok s" and "k \<in> {ParentOf, DependsOn, Blocks}" and "find_ticket a target s \<noteq> None"
  shows "add_relation a c k target i now s = Inl (work_conflict c ''work-relation-cycle'' ''Relation cycle refused'') \<longleftrightarrow>
    \<not> acyclic (insert (wc_ticket c, target) (set (relation_edges (ac_tenant a) k (ws_relations s))))"
proof -
  have "acyclic (set (relation_edges (ac_tenant a) k (ws_relations s)))"
    using assms(1,2) unfolding relations_ok_def by blast
  then have "\<not> acyclic (insert (wc_ticket c, target) (set (relation_edges (ac_tenant a) k (ws_relations s)))) \<longleftrightarrow>
      reaches_source a c k target s"
    by (simp add: acyclic_insert reaches_source_iff)
  moreover have "reaches_source a c k target s" if "wc_ticket c = target"
    using that by (simp add: reaches_source_iff)
  ultimately show ?thesis
    using assms(2,3)
    by (auto simp: add_relation_def Let_def work_conflict_def work_problem_def problem_def)
qed

theorem relation_cycle_refused_exactly_witness:
  "add_relation demo_actor (demo_command (AddRelation Blocks 11)) Blocks 11 40 5 (demo_store StOpen) \<noteq>
     Inl (work_conflict (demo_command (AddRelation Blocks 11)) ''work-relation-cycle'' ''Relation cycle refused'')"
proof -
  have ok: "relations_ok (demo_store StOpen)"
    using demo_ok [of StOpen] by (simp add: db_ok_def store_ok_def demo_db_def)
  have "find_ticket demo_actor 11 (demo_store StOpen) \<noteq> None"
    by (simp add: find_ticket_def ticket_is_def demo_defs)
  from relation_cycle_refused_exactly [OF ok _ this, of Blocks "demo_command (AddRelation Blocks 11)" 40 5]
  moreover have "acyclic ({} :: (uuid \<times> uuid) set)" by (simp add: acyclic_def)
  then have "acyclic {(10::uuid, 11)}" by (simp add: acyclic_insert)
  moreover have "relation_edges (ac_tenant demo_actor) Blocks (ws_relations (demo_store StOpen)) = []"
    by (simp add: relation_edges_def demo_store_def)
  moreover have "wc_ticket (demo_command (AddRelation Blocks 11)) = 10" by (simp add: demo_command_def)
  ultimately show ?thesis by simp
qed

section \<open>Readiness\<close>

definition admissions_of :: "actor \<Rightarrow> uuid \<Rightarrow> nat \<Rightarrow> work_store \<Rightarrow> admission_row list" where
  "admissions_of a t n s =
     filter (\<lambda>r. ad_tenant r = ac_tenant a \<and> ad_ticket r = t \<and> ad_episode r = n) (ws_admissions s)"

lemma admissions_numbered:
  assumes "numbering_ok s"
  shows "map ad_sequence (admissions_of a t n s) = [1..<Suc (length (admissions_of a t n s))]"
proof -
  have "gapless (\<lambda>r. (ad_tenant r, ad_ticket r, ad_episode r)) ad_sequence (ws_admissions s)"
    using assms by (simp add: numbering_ok_def)
  then have "map ad_sequence (filter (\<lambda>r. (ad_tenant r, ad_ticket r, ad_episode r) = (ac_tenant a, t, n)) (ws_admissions s)) =
      [1..<Suc (length (filter (\<lambda>r. (ad_tenant r, ad_ticket r, ad_episode r) = (ac_tenant a, t, n)) (ws_admissions s)))]"
    unfolding gapless_def by blast
  then show ?thesis by (simp add: admissions_of_def)
qed

lemma latest_admission_last:
  assumes "numbering_ok s"
  shows "latest_admission a t n s =
    (if admissions_of a t n s = [] then None else Some (last (admissions_of a t n s)))"
proof -
  let ?mine = "admissions_of a t n s"
  have "sorted (map ad_sequence ?mine)"
    unfolding admissions_numbered [OF assms] by (rule sorted_upt)
  then have "sort_key ad_sequence ?mine = ?mine" by (rule sort_key_id_if_sorted)
  moreover have "latest_admission a t n s = (case rev (sort_key ad_sequence ?mine) of [] \<Rightarrow> None | r # _ \<Rightarrow> Some r)"
    by (simp add: latest_admission_def admissions_of_def)
  ultimately show ?thesis by (cases ?mine rule: rev_cases) simp_all
qed

text \<open>
  Readiness is exact: an existing ticket is ready if and only if the last admission recorded for its
  current episode admitted it (a deferral or no admission at all does not) and none of its blockers
  with board impact is unresolved; otherwise exactly the unmet facts are named, in this order.
\<close>

theorem readiness_exact:
  assumes "numbering_ok s" and "find_ticket a t s = Some r"
  shows "readiness a t s =
    (let admitted = admissions_of a t (tk_episode r) s \<noteq> [] \<and> ad_admitted (last (admissions_of a t (tk_episode r) s));
         blocked = (\<exists>b \<in> set (ws_blockers s). bk_tenant b = ac_tenant a \<and> bk_ticket b = t \<and>
           bl_board (bk_facts b) \<and> bk_resolved b = None)
     in Inr (admitted \<and> \<not> blocked,
          (if admitted then [] else [''work.admitted@1'']) @ (if blocked then [''work.unblocked@1''] else [])))"
proof -
  have "board_blocked a t s \<longleftrightarrow> (\<exists>b \<in> set (ws_blockers s). bk_tenant b = ac_tenant a \<and> bk_ticket b = t \<and>
      bl_board (bk_facts b) \<and> bk_resolved b = None)"
    by (simp add: board_blocked_def list_ex_iff)
  with assms show ?thesis
    by (auto simp: readiness_def unmet_readiness_def latest_admission_last Let_def)
qed

theorem readiness_exact_witness:
  "readiness demo_actor 10 (demo_store StOpen) = Inr (False, [''work.admitted@1''])"
proof -
  have ok: "numbering_ok (demo_store StOpen)"
    using demo_ok [of StOpen] by (simp add: db_ok_def store_ok_def demo_db_def)
  have "find_ticket demo_actor 10 (demo_store StOpen) = Some demo_ticket"
    by (simp add: find_ticket_def ticket_is_def demo_defs)
  from readiness_exact [OF ok this] show ?thesis
    by (simp add: admissions_of_def demo_defs)
qed

section \<open>Creating tickets and transferring custody\<close>

text \<open>
  What Work hands to Record is exact. A ticket is handed over without a refusal only if the
  Commander takes custody of its own ticket or the operator places it with somebody else, an
  importer or a seat without the capture scope never gets there, the priority is known, P0 comes from
  the operator, and the project key is well formed; only a custody refusal is handed over to be
  persisted. A custody transfer goes through only as a protected transfer of the operator, and its
  refusal is persisted only for a project seat.
\<close>

theorem handoffs_exact:
  "(create_ticket a c = Handoff c (sha256_hex (json_dumps (ticket_payload c))) None \<longleftrightarrow>
      (ac_seat a = None \<or> ScopeCapture \<in> ac_scopes a) \<and>
      (ac_kind a = Commander \<and> tc_custodian c = ac_principal a \<or>
       ac_kind a = Operator \<and> tc_custodian c \<noteq> ac_principal a) \<and>
      tc_priority c \<in> {''P0'', ''P1'', ''P2''} \<and> (tc_priority c = ''P0'' \<longrightarrow> ac_kind a = Operator) \<and>
      (\<forall>p. tc_project c = Some p \<longrightarrow> project_key_ok p)) \<and>
   (\<forall>c' d p. create_ticket a c = Handoff c' d (Some p) \<longrightarrow>
      c' = c \<and> d = sha256_hex (json_dumps (ticket_payload c)) \<and>
      initial_custody_refusal a (tc_command c) (tc_custodian c) = Some p \<and> rp_status p = 403) \<and>
   (transfer_custody a k = Handoff k (sha256_hex (json_dumps (custody_payload k))) None \<longleftrightarrow>
      ac_kind a = Operator \<and> cc_protected k \<and> (ac_seat a = None \<or> ScopeTransition \<in> ac_scopes a)) \<and>
   (\<forall>k' d p. transfer_custody a k = Handoff k' d (Some p) \<longrightarrow> ac_seat a \<noteq> None \<and> ScopeTransition \<in> ac_scopes a)"
  (is "?create \<and> ?refused \<and> ?transfer \<and> ?persisted")
proof (intro conjI)
  have custody: "initial_custody_refusal a (tc_command c) (tc_custodian c) = None \<longleftrightarrow>
      ac_kind a = Commander \<and> tc_custodian c = ac_principal a \<or> ac_kind a = Operator \<and> tc_custodian c \<noteq> ac_principal a"
    by (simp add: initial_custody_refusal_def)
  have valid: "ticket_validation_refusal c = None \<longleftrightarrow>
      tc_priority c \<in> {''P0'', ''P1'', ''P2''} \<and> (\<forall>p. tc_project c = Some p \<longrightarrow> project_key_ok p)"
    by (auto simp: ticket_validation_refusal_def priorities_def split: option.splits)
  have scope: "credential_scope_refusal a x k = None \<longleftrightarrow> ac_seat a = None \<or> x \<in> ac_scopes a" for x k
    by (simp add: credential_scope_refusal_def)
  have "create_ticket a c = Handoff c (sha256_hex (json_dumps (ticket_payload c))) None \<longleftrightarrow>
      ac_kind a \<noteq> MigrationImporter \<and> credential_scope_refusal a ScopeCapture (Some (tc_command c)) = None \<and>
      initial_custody_refusal a (tc_command c) (tc_custodian c) = None \<and> ticket_validation_refusal c = None \<and>
      \<not> (tc_priority c = ''P0'' \<and> ac_kind a \<noteq> Operator)"
    unfolding create_ticket_def Let_def by (simp split: option.split)
  then show ?create unfolding custody valid scope by auto
  show ?refused
    by (auto simp: create_ticket_def Let_def initial_custody_refusal_def problem_def split: option.splits if_splits)
  show ?transfer
    using scope [of ScopeTransition "Some (cc_command k)"]
    by (cases "credential_scope_refusal a ScopeTransition (Some (cc_command k))")
      (auto simp: transfer_custody_def Let_def)
  show ?persisted
    using scope [of ScopeTransition "Some (cc_command k)"]
    by (cases "credential_scope_refusal a ScopeTransition (Some (cc_command k))")
      (auto simp: transfer_custody_def Let_def)
qed

theorem handoffs_exact_witness:
  "\<exists>d. transfer_custody demo_actor \<lparr>cc_command = 1, cc_expected = 1, cc_from = 7, cc_protected = True,
      cc_reason = ''leave'', cc_ticket = 10, cc_to = 8\<rparr> =
    Handoff \<lparr>cc_command = 1, cc_expected = 1, cc_from = 7, cc_protected = True,
      cc_reason = ''leave'', cc_ticket = 10, cc_to = 8\<rparr> d None"
  using handoffs_exact [of demo_actor _ "\<lparr>cc_command = 1, cc_expected = 1, cc_from = 7, cc_protected = True,
      cc_reason = ''leave'', cc_ticket = 10, cc_to = 8\<rparr>"]
  by (auto simp: demo_actor_def)

end
