(* ===== verification/Seam.thy ===== *)
theory Seam
  imports PyJson PyTime
begin

text \<open>
  The vocabulary of the harness-adapter seam, \<open>ctower_runner_sdk/\<close>: refusals and their closed list of
  names (\<open>refusals.py\<close>), what an attempt is pinned to (\<open>attempt.py\<close>), the facts that cross the seam
  (\<open>facts.py\<close>), the capability survey (\<open>survey.py\<close>) and the parsed manifest (\<open>spec.py\<close>). A \<open>Literal\<close>
  is the string it is at run time. The JSON-schema validator is a parameter.
\<close>

section \<open>Refusals\<close>

definition em_dash :: string where
  "em_dash = [CHR 0xE2, CHR 0x80, CHR 0x94]"

record refusal =
  rf_name :: string
  rf_observed :: string
  rf_meaning :: string
  rf_action :: string
  rf_detail :: "(string \<times> string) list"

definition refusal :: "string \<Rightarrow> string \<Rightarrow> string \<Rightarrow> string \<Rightarrow> (string \<times> string) list \<Rightarrow> refusal" where
  "refusal name observed meaning action detail =
     \<lparr>rf_name = name, rf_observed = observed, rf_meaning = meaning, rf_action = action, rf_detail = detail\<rparr>"

lemma refusal_sel [simp]:
  "rf_name (refusal n ob m a d) = n" "rf_observed (refusal n ob m a d) = ob" "rf_detail (refusal n ob m a d) = d"
  by (simp_all add: refusal_def)

definition spec_owned :: "string list" where
  "spec_owned =
     [''checkpoint-uncollectable'', ''credential-pool-exhausted'',
      ''harness-dispatch-unacknowledged'', ''project-scope-denied'',
      ''role-resolution-unavailable'', ''rotation-incomplete'',
      ''workflow-stage-role-not-permitted'']"

definition seam_minted :: "string list" where
  "seam_minted =
     [''credential-verb-unknown-flag'', ''credential-verb-grammar-invalid'',
      ''credential-identity-mismatch'', ''credential-mint-refused-unreachable'',
      ''harness-capability-unsupported'', ''harness-credential-forbidden'',
      ''harness-credential-profile-mismatch'', ''harness-credential-seat-mismatch'',
      ''harness-dispatch-blocked'', ''harness-dispatch-model-mismatch'',
      ''harness-dispatch-needs-operator'', ''harness-dispatch-pin-mismatch'',
      ''harness-guard-decision-invalid'', ''harness-layer-conflict'',
      ''harness-receipt-undurable'', ''harness-runtime-not-a-harness'',
      ''harness-seam-unpublished'', ''harness-served-model-self-reported'',
      ''harness-spec-digest-mismatch'', ''harness-spec-incompatible'', ''harness-spec-revoked'',
      ''harness-spec-unknown'', ''harness-survey-incomplete'', ''harness-termination-failed'',
      ''harness-writeback-scope-refused'', ''park-basis-broken'', ''park-expired'',
      ''pool-probe-classifier-refused'', ''pool-state-stale'',
      ''rotation-refused-concurrent-holder'', ''rotation-refused-stale-generation'',
      ''rotation-refused-unknown-identity'', ''rotation-refused-unreachable'',
      ''teardown-refused-dead-auth'', ''teardown-would-destroy-sole-work'',
      ''weight-table-unavailable'']"

definition unobservable :: string where
  "unobservable = ''substrate-unobservable''"

definition starts_with :: "string \<Rightarrow> string \<Rightarrow> bool" where
  "starts_with p s \<longleftrightarrow> take (length p) s = p"

text \<open>The check of \<open>Refusal.__post_init__\<close>: constructing a refusal outside the vocabulary raises.\<close>

definition refusal_named :: "refusal \<Rightarrow> refusal py" where
  "refusal_named r =
     (if starts_with (unobservable @ '':'') (rf_name r) then Inr r
      else if rf_name r \<notin> set spec_owned \<and> rf_name r \<notin> set seam_minted
      then Inl (ValueError (''refusal name is outside the seam vocabulary: '' @ rf_name r))
      else Inr r)"

definition refusal_payload :: "refusal \<Rightarrow> json" where
  "refusal_payload r = JObj
     [(''action'', JStr (rf_action r)),
      (''detail'', JList (map (\<lambda>(subject, state). JObj [(''subject'', JStr subject), (''state'', JStr state)])
         (rf_detail r))),
      (''meaning'', JStr (rf_meaning r)), (''name'', JStr (rf_name r)), (''observed'', JStr (rf_observed r))]"

definition substrate_unobservable :: "string \<Rightarrow> refusal" where
  "substrate_unobservable probe =
     refusal (unobservable @ '':'' @ probe)
    (''the '' @ probe @ '' probe returned nothing readable'')
    ''the substrate's state is unknown, which is not the same as alive''
    ''re-probe, or treat this lane as STATE_UNKNOWN until a probe succeeds''
    []"

text \<open>A refusal that the constructor accepts.\<close>

definition in_vocabulary :: "refusal \<Rightarrow> bool" where
  "in_vocabulary r \<longleftrightarrow> refusal_named r = Inr r"

lemma vocabulary_name [simp]:
  "rf_name r \<in> set (spec_owned @ seam_minted) \<Longrightarrow> in_vocabulary r"
  by (auto simp: in_vocabulary_def refusal_named_def)

lemma substrate_unobservable_named [simp]: "in_vocabulary (substrate_unobservable probe)"
  by (simp add: in_vocabulary_def refusal_named_def substrate_unobservable_def starts_with_def)

lemma refusal_vocabulary:
  "n \<in> set (spec_owned @ seam_minted) \<Longrightarrow> in_vocabulary (refusal n ob m a d)"
  by simp

section \<open>Attempts\<close>

record seat_ref =
  sr_seat :: string
  sr_label :: string
  sr_project :: string

record brief_bundle =
  bb_text :: string
  bb_digest :: string
  bb_ack :: string

record workspace_context =
  wx_worktree :: string
  wx_branch :: string
  wx_base :: string

record attempt_pin =
  at_id :: uuid
  at_epoch :: int
  at_harness :: string
  at_profile :: string
  at_revision :: int
  at_digest :: string
  at_model :: string
  at_rungs :: "string list"
  at_judgment :: bool
  at_lease :: "uuid option"
  at_identity :: "string option"
  at_home :: "string option"

definition with_lease :: "uuid \<Rightarrow> string option \<Rightarrow> string option \<Rightarrow> attempt_pin \<Rightarrow> attempt_pin" where
  "with_lease lease identity home p = p\<lparr>at_lease := Some lease, at_identity := identity, at_home := home\<rparr>"

definition supersedes :: "attempt_pin \<Rightarrow> attempt_pin \<Rightarrow> bool" where
  "supersedes p q \<longleftrightarrow> at_id p = at_id q \<and> at_epoch p > at_epoch q"

definition json_opt :: "string option \<Rightarrow> json" where
  "json_opt s = (case s of None \<Rightarrow> JNull | Some x \<Rightarrow> JStr x)"

definition pin_payload :: "attempt_pin \<Rightarrow> json" where
  "pin_payload p = JObj
     [(''attempt_id'', JStr (uuid_str (at_id p))), (''composition_digest'', JStr (at_digest p)),
      (''credential_home'', json_opt (at_home p)), (''credential_identity'', json_opt (at_identity p)),
      (''epoch'', JInt (at_epoch p)), (''declared_rungs'', JList (map JStr (at_rungs p))),
      (''harness_ref'', JStr (at_harness p)), (''intent_model'', JStr (at_model p)),
      (''judgment_lane'', JBool (at_judgment p)), (''lease_id'', json_opt (map_option uuid_str (at_lease p))),
      (''profile_ref'', JStr (at_profile p)), (''spec_revision'', JInt (at_revision p))]"

section \<open>Facts\<close>

definition not_working :: "string list" where
  "not_working = [''idle'', ''queued_stuck'', ''saturated'', ''capped'', ''dead_auth'', ''unknown'']"

record model_observation =
  mo_value :: string
  mo_source :: string
  mo_proves :: string
  mo_observed :: datetime

definition is_serving_truth :: "model_observation \<Rightarrow> bool" where
  "is_serving_truth m \<longleftrightarrow> mo_proves m = ''serving''"

record liveness_fact =
  lv_state :: string
  lv_probe :: string
  lv_observed :: datetime
  lv_served :: "model_observation option"
  lv_context :: "int option"
  lv_conflict :: "string option"
  lv_ladder :: string
  lv_evidence :: string

definition counts_as_working :: "liveness_fact \<Rightarrow> bool" where
  "counts_as_working f \<longleftrightarrow> lv_state f \<notin> set not_working"

definition liveness_payload :: "liveness_fact \<Rightarrow> json" where
  "liveness_payload f = JObj
     [(''conflict'', json_opt (lv_conflict f)),
      (''context_used_pct'', (case lv_context f of None \<Rightarrow> JNull | Some n \<Rightarrow> JInt n)),
      (''evidence'', JStr (lv_evidence f)), (''ladder'', JStr (lv_ladder f)),
      (''observed_at'', JStr (isoformat (lv_observed f))), (''probe'', JStr (lv_probe f)),
      (''served_model'', json_opt (map_option mo_value (lv_served f))),
      (''served_model_source'', json_opt (map_option mo_source (lv_served f))),
      (''state'', JStr (lv_state f))]"

record dispatch_receipt =
  dr_attempt :: string
  dr_digest :: string
  dr_acknowledged :: datetime
  dr_evidence :: string
  dr_decision :: string
  dr_durable :: "string option"

record seat_handoff =
  ho_done :: string
  ho_progress :: string
  ho_not_started :: string
  ho_next :: "string \<times> string \<times> string"

definition handoff_sections :: "seat_handoff \<Rightarrow> string list" where
  "handoff_sections h = [''done'', ''in_progress'', ''not_started'', ''next_three_steps'']"

record artifact_set =
  af_branch :: string
  af_head :: string
  af_pushed :: bool
  af_gates :: "string list"
  af_status :: "string option"
  af_handoff :: "seat_handoff option"

definition artifacts_complete :: "artifact_set \<Rightarrow> bool" where
  "artifacts_complete s \<longleftrightarrow> af_pushed s \<and> af_head s \<noteq> []"

record writeback_fact =
  wf_scope :: string
  wf_kind :: string
  wf_payload :: "(string \<times> string) list"

record writeback_receipt =
  wr_actor :: string
  wr_accepted :: "string list"
  wr_transitions :: "string list"
  wr_answer :: string

record teardown_receipt =
  tr_order :: string
  tr_artifacts :: "artifact_set option"
  tr_basis :: "string option"
  tr_expires :: "datetime option"
  tr_nudged :: bool

section \<open>The capability survey\<close>

record credential_survey =
  sv_native_pool :: bool
  sv_native_fallback :: bool
  sv_config_surface :: string
  sv_identity_proof :: string
  sv_reset_semantics :: string
  sv_rotation_cache :: string
  sv_subagents :: string
  sv_egress :: string

definition survey_questions :: "string list" where
  "survey_questions =
     [''native_pool'', ''native_fallback'', ''config_surface'', ''identity_proof'', ''reset_semantics'',
      ''rotation_cache'', ''subagent_inheritance'', ''egress_topology'']"

definition shares_egress :: "credential_survey \<Rightarrow> bool" where
  "shares_egress s \<longleftrightarrow> sv_egress s = ''shared''"

definition survey_payload :: "credential_survey \<Rightarrow> json" where
  "survey_payload s = JObj
     [(''config_surface'', JStr (sv_config_surface s)), (''egress_topology'', JStr (sv_egress s)),
      (''identity_proof'', JStr (sv_identity_proof s)), (''native_fallback'', JBool (sv_native_fallback s)),
      (''native_pool'', JBool (sv_native_pool s)), (''reset_semantics'', JStr (sv_reset_semantics s)),
      (''rotation_cache'', JStr (sv_rotation_cache s)), (''subagent_inheritance'', JStr (sv_subagents s))]"

record layer_roles =
  lr_pool :: string
  lr_fallback :: string

definition roles_payload :: "layer_roles \<Rightarrow> json" where
  "roles_payload r = JObj [(''fallback'', JStr (lr_fallback r)), (''pool'', JStr (lr_pool r))]"

definition derive_roles :: "credential_survey \<Rightarrow> layer_roles" where
  "derive_roles s =
     \<lparr>lr_pool = (if sv_native_pool s then ''configure'' else ''provide''),
      lr_fallback = (if sv_native_fallback s then ''configure'' else ''provide'')\<rparr>"

section \<open>The harness manifest\<close>

record ack_predicate =
  ak_kind :: string
  ak_detail :: string

record liveness_source =
  ls_fact :: string
  ls_source :: string
  ls_proves :: string

record probe_shape =
  ps_product :: string
  ps_endpoint :: string
  ps_model :: string
  ps_workload :: string
  ps_classified :: string

definition probe_measures :: "probe_shape \<Rightarrow> string \<Rightarrow> bool" where
  "probe_measures p model \<longleftrightarrow> ps_model p = model \<and> ps_workload p = ''representative''"

record pool_shape =
  pl_hook :: string
  pl_providers :: "string list"

record harness_spec =
  hs_key :: string
  hs_revision :: int
  hs_artifact :: string
  hs_config :: string
  hs_input :: string
  hs_submit :: bool
  hs_output :: string
  hs_capabilities :: "string set"
  hs_ack :: ack_predicate
  hs_sources :: "liveness_source list"
  hs_window :: int
  hs_probe :: probe_shape
  hs_pool :: pool_shape
  hs_survey :: credential_survey
  hs_layers :: layer_roles
  hs_status :: string

definition composition_digest :: "harness_spec \<Rightarrow> string" where
  "composition_digest h = hs_key h @ ''@'' @ str_int (hs_revision h) @ ''+'' @ hs_artifact h @ ''+'' @ hs_config h"

definition serving_source :: "harness_spec \<Rightarrow> liveness_source option" where
  "serving_source h = find (\<lambda>s. ls_fact s = ''served_model'' \<and> ls_proves s = ''serving'') (hs_sources h)"

definition declares :: "harness_spec \<Rightarrow> string \<Rightarrow> bool" where
  "declares h c \<longleftrightarrow> c \<in> hs_capabilities h"

text \<open>
  \<open>_freeze\<close> and its parts are casts over a document the schema has accepted; the model is undefined
  (\<open>None\<close>) where a member is missing or of another type.
\<close>

fun cast_str :: "json \<Rightarrow> string option" where
  "cast_str (JStr s) = Some s" | "cast_str _ = None"

fun cast_int :: "json \<Rightarrow> int option" where
  "cast_int (JInt i) = Some i" | "cast_int _ = None"

fun cast_bool :: "json \<Rightarrow> bool option" where
  "cast_bool (JBool b) = Some b" | "cast_bool _ = None"

fun cast_obj :: "json \<Rightarrow> members option" where
  "cast_obj (JObj ms) = Some ms" | "cast_obj _ = None"

fun cast_list :: "json \<Rightarrow> json list option" where
  "cast_list (JList vs) = Some vs" | "cast_list _ = None"

definition at_key :: "(json \<Rightarrow> 'a option) \<Rightarrow> members \<Rightarrow> string \<Rightarrow> 'a option" where
  "at_key f ms k = Option.bind (map_of ms k) f"

definition list_at :: "(json \<Rightarrow> 'a option) \<Rightarrow> members \<Rightarrow> string \<Rightarrow> 'a list option" where
  "list_at f ms k = Option.bind (at_key cast_list ms k) (\<lambda>vs. those (map f vs))"

definition freeze_ack :: "members \<Rightarrow> ack_predicate option" where
  "freeze_ack ms =
     Option.bind (at_key cast_str ms ''kind'') (\<lambda>k.
     Option.bind (at_key cast_str ms ''detail'') (\<lambda>d. Some \<lparr>ak_kind = k, ak_detail = d\<rparr>))"

definition freeze_source :: "members \<Rightarrow> liveness_source option" where
  "freeze_source ms =
     Option.bind (at_key cast_str ms ''fact'') (\<lambda>f.
     Option.bind (at_key cast_str ms ''source'') (\<lambda>s.
     Option.bind (at_key cast_str ms ''proves'') (\<lambda>p. Some \<lparr>ls_fact = f, ls_source = s, ls_proves = p\<rparr>)))"

definition freeze_probe :: "members \<Rightarrow> probe_shape option" where
  "freeze_probe ms =
     Option.bind (at_key cast_str ms ''product'') (\<lambda>p.
     Option.bind (at_key cast_str ms ''endpoint'') (\<lambda>e.
     Option.bind (at_key cast_str ms ''model_ref'') (\<lambda>m.
     Option.bind (at_key cast_str ms ''workload_shape'') (\<lambda>w.
     Option.bind (at_key cast_str ms ''classified_on'') (\<lambda>c.
       Some \<lparr>ps_product = p, ps_endpoint = e, ps_model = m, ps_workload = w, ps_classified = c\<rparr>)))))"

definition freeze_pool :: "members \<Rightarrow> pool_shape option" where
  "freeze_pool ms =
     Option.bind (at_key cast_str ms ''cache_invalidation_hook'') (\<lambda>h.
     Option.bind (list_at cast_str ms ''providers'') (\<lambda>ps. Some \<lparr>pl_hook = h, pl_providers = ps\<rparr>))"

definition freeze_survey :: "members \<Rightarrow> credential_survey option" where
  "freeze_survey ms =
     Option.bind (at_key cast_bool ms ''native_pool'') (\<lambda>np.
     Option.bind (at_key cast_bool ms ''native_fallback'') (\<lambda>nf.
     Option.bind (at_key cast_str ms ''config_surface'') (\<lambda>cs.
     Option.bind (at_key cast_str ms ''identity_proof'') (\<lambda>ip.
     Option.bind (at_key cast_str ms ''reset_semantics'') (\<lambda>rs.
     Option.bind (at_key cast_str ms ''rotation_cache'') (\<lambda>rc.
     Option.bind (at_key cast_str ms ''subagent_inheritance'') (\<lambda>si.
     Option.bind (at_key cast_str ms ''egress_topology'') (\<lambda>et.
       Some \<lparr>sv_native_pool = np, sv_native_fallback = nf, sv_config_surface = cs, sv_identity_proof = ip,
         sv_reset_semantics = rs, sv_rotation_cache = rc, sv_subagents = si, sv_egress = et\<rparr>))))))))"

definition freeze_layers :: "members \<Rightarrow> layer_roles option" where
  "freeze_layers ms =
     Option.bind (at_key cast_str ms ''pool'') (\<lambda>p.
     Option.bind (at_key cast_str ms ''fallback'') (\<lambda>f. Some \<lparr>lr_pool = p, lr_fallback = f\<rparr>))"

definition section_of :: "(members \<Rightarrow> 'a option) \<Rightarrow> members \<Rightarrow> string \<Rightarrow> 'a option" where
  "section_of f ms k = Option.bind (at_key cast_obj ms k) f"

definition freeze_spec :: "members \<Rightarrow> harness_spec option" where
  "freeze_spec ms =
     Option.bind (at_key cast_str ms ''key'') (\<lambda>key.
     Option.bind (at_key cast_int ms ''revision'') (\<lambda>revision.
     Option.bind (at_key cast_str ms ''artifact_digest'') (\<lambda>artifact.
     Option.bind (at_key cast_str ms ''config_digest'') (\<lambda>config.
     Option.bind (section_of (\<lambda>m. at_key cast_str m ''kind'') ms ''input_protocol'') (\<lambda>input.
     Option.bind (section_of (\<lambda>m. at_key cast_bool m ''submit_separately'') ms ''input_protocol'') (\<lambda>submit.
     Option.bind (section_of (\<lambda>m. at_key cast_str m ''kind'') ms ''output_protocol'') (\<lambda>output.
     Option.bind (list_at cast_str ms ''capabilities'') (\<lambda>caps.
     Option.bind (section_of freeze_ack ms ''ack_predicate'') (\<lambda>ack.
     Option.bind (list_at (\<lambda>v. Option.bind (cast_obj v) freeze_source) ms ''liveness_sources'') (\<lambda>sources.
     Option.bind (at_key cast_int ms ''context_window_percent'') (\<lambda>window.
     Option.bind (section_of freeze_probe ms ''probe'') (\<lambda>probe.
     Option.bind (section_of freeze_pool ms ''pool'') (\<lambda>pool.
     Option.bind (section_of freeze_survey ms ''survey'') (\<lambda>survey.
     Option.bind (section_of freeze_layers ms ''layers'') (\<lambda>layers.
       Some \<lparr>hs_key = key, hs_revision = revision, hs_artifact = artifact, hs_config = config,
         hs_input = input, hs_submit = submit, hs_output = output, hs_capabilities = set caps, hs_ack = ack,
         hs_sources = sources, hs_window = window, hs_probe = probe, hs_pool = pool, hs_survey = survey,
         hs_layers = layers, hs_status = ''active''\<rparr>)))))))))))))))"

definition ends_with :: "string \<Rightarrow> string \<Rightarrow> bool" where
  "ends_with e s \<longleftrightarrow> length e \<le> length s \<and> drop (length s - length e) s = e"

text \<open>\<open>needle in text\<close>\<close>

fun contains :: "string \<Rightarrow> string \<Rightarrow> bool" where
  "contains needle [] \<longleftrightarrow> needle = []"
| "contains needle (c # cs) \<longleftrightarrow> starts_with needle (c # cs) \<or> contains needle cs"

definition spec_refusal_name :: "string \<Rightarrow> string \<Rightarrow> string" where
  "spec_refusal_name path message =
     (if ends_with ''artifact_digest'' path \<or> ends_with ''config_digest'' path
      then ''harness-spec-digest-mismatch''
      else if path = ''$.survey'' \<or> starts_with ''$.survey.'' path then ''harness-survey-incomplete''
      else if path = ''$'' \<and> contains (CHR 39 # ''survey'' @ [CHR 39]) message then ''harness-survey-incomplete''
      else ''harness-spec-incompatible'')"

definition parse_refusal :: "string \<Rightarrow> string \<Rightarrow> refusal" where
  "parse_refusal path message =
     refusal (spec_refusal_name path message)
    (path @ '': '' @ message)
    ''the document is not a HarnessSpec this runtime can parse''
    ''repair the authored spec; nothing dispatches on an unparsed composition''
    ([(''json_path'', path)])"

definition revoked_refusal :: "string \<Rightarrow> int \<Rightarrow> refusal" where
  "revoked_refusal key revision =
     refusal ''harness-spec-revoked''
    (''HarnessSpec '' @ repr_str key @ '' revision '' @ str_int revision @ '' is revoked'')
    ''this binding may not dispatch; a revoked spec is not a degraded one''
    ''register a superseding revision, or route the attempt to another binding''
    []"

text \<open>\<open>errs\<close> gives the errors of the schema validator, as path and message, in its order.\<close>

definition parse_harness_spec ::
  "(members \<Rightarrow> (string \<times> string) list) \<Rightarrow> members \<Rightarrow> (refusal + harness_spec) option" where
  "parse_harness_spec errs ms =
     (case sort_key fst (errs ms) of
        (path, message) # _ \<Rightarrow> Some (Inl (parse_refusal path message))
      | [] \<Rightarrow>
          Option.bind (at_key cast_str ms ''status'') (\<lambda>status.
          if status = ''revoked''
          then Option.bind (at_key cast_str ms ''key'') (\<lambda>key.
               Option.bind (at_key cast_int ms ''revision'') (\<lambda>revision.
                 Some (Inl (revoked_refusal key revision))))
          else map_option Inr (freeze_spec ms)))"

lemma spec_refusal_vocabulary: "spec_refusal_name path message \<in> set (spec_owned @ seam_minted)"
  by (simp add: spec_refusal_name_def spec_owned_def seam_minted_def)

text \<open>What parsing returns: a refusal in the vocabulary, or a spec that is active.\<close>

lemma freeze_spec_active: "freeze_spec ms = Some h \<Longrightarrow> hs_status h = ''active''"
  by (auto simp: freeze_spec_def bind_eq_Some_conv)

lemma parse_refusal_vocabulary:
  assumes "parse_harness_spec errs ms = Some (Inl r)"
  shows "in_vocabulary r"
proof -
  from assms consider path message where "r = parse_refusal path message"
    | key revision where "r = revoked_refusal key revision"
    by (auto simp: parse_harness_spec_def bind_eq_Some_conv split: list.splits if_splits)
  then show ?thesis
  proof cases
    case 1
    then show ?thesis
      unfolding parse_refusal_def by (simp only:) (rule refusal_vocabulary [OF spec_refusal_vocabulary])
  next
    case 2
    then show ?thesis
      unfolding revoked_refusal_def
      by (simp only:) (rule refusal_vocabulary, simp add: seam_minted_def)
  qed
qed

end
