(* ===== verification/SeamMeter.thy ===== *)
theory SeamMeter
  imports Seam Machine
begin

text \<open>
  \<open>ctower_runner_sdk/ledger.py\<close> and \<open>credits.py\<close>: the cost events of one seat, and spend priced from a
  revision-pinned weight table. The ledger is a machine over its calls; the lemmas count what any
  run records, and bound what integer pricing loses.
\<close>

section \<open>The turn ledger\<close>

definition rotation_context_rereads :: int where "rotation_context_rereads = 1"
definition fallback_context_rereads :: int where "fallback_context_rereads = 2"

definition capacity_codes :: "string list" where
  "capacity_codes = [''402'', ''daily-quota'', ''connection'']"

record cost_event =
  ce_kind :: string
  ce_layer :: string
  ce_turn :: string
  ce_rereads :: int
  ce_detail :: string
  ce_at :: datetime

definition cost_payload :: "cost_event \<Rightarrow> json" where
  "cost_payload e = JObj
     [(''at'', JStr (isoformat (ce_at e))), (''context_rereads'', JInt (ce_rereads e)),
      (''detail'', JStr (ce_detail e)), (''kind'', JStr (ce_kind e)), (''layer'', JStr (ce_layer e)),
      (''turn_id'', JStr (ce_turn e))]"

record turn_ledger =
  tl_events :: "cost_event list"
  tl_activated :: "string set"

definition new_ledger :: turn_ledger where
  "new_ledger = \<lparr>tl_events = [], tl_activated = {}\<rparr>"

definition ledger_append :: "cost_event \<Rightarrow> turn_ledger \<Rightarrow> cost_event \<times> turn_ledger" where
  "ledger_append e l = (e, l\<lparr>tl_events := tl_events l @ [e]\<rparr>)"

definition ledger_rotation ::
  "string \<Rightarrow> string option \<Rightarrow> datetime \<Rightarrow> turn_ledger \<Rightarrow> cost_event \<times> turn_ledger" where
  "ledger_rotation turn identity at l =
     ledger_append \<lparr>ce_kind = ''rotation'', ce_layer = ''pool'', ce_turn = turn,
       ce_rereads = rotation_context_rereads,
       ce_detail = ''rotated within the provider to '' @
         (case identity of Some (c # cs) \<Rightarrow> c # cs | _ \<Rightarrow> ''an unnamed entry''), ce_at = at\<rparr> l"

definition ledger_fallback ::
  "string \<Rightarrow> string \<Rightarrow> datetime \<Rightarrow> turn_ledger \<Rightarrow> cost_event option \<times> turn_ledger" where
  "ledger_fallback turn provider at l =
     (if turn \<in> tl_activated l then (None, l)
      else let l = l\<lparr>tl_activated := insert turn (tl_activated l)\<rparr>;
               (e, l) = ledger_append \<lparr>ce_kind = ''fallback_activation'', ce_layer = ''fallback'', ce_turn = turn,
                 ce_rereads = fallback_context_rereads,
                 ce_detail = ''activated '' @ provider @ '' for this turn and returned to the primary'', ce_at = at\<rparr> l
           in (Some e, l))"

definition ledger_retry_skipped ::
  "string \<Rightarrow> datetime \<Rightarrow> datetime \<Rightarrow> turn_ledger \<Rightarrow> cost_event \<times> turn_ledger" where
  "ledger_retry_skipped turn reset at l =
     ledger_append \<lparr>ce_kind = ''retry_skipped'', ce_layer = ''none'', ce_turn = turn, ce_rereads = 0,
       ce_detail = ''did not retry primary: reset_at '' @ isoformat reset @ '' unelapsed'', ce_at = at\<rparr> l"

definition ledger_degradation ::
  "string \<Rightarrow> string \<Rightarrow> datetime \<Rightarrow> turn_ledger \<Rightarrow> cost_event \<times> turn_ledger" where
  "ledger_degradation turn detail at l =
     ledger_append \<lparr>ce_kind = ''degradation'', ce_layer = ''none'', ce_turn = turn, ce_rereads = 0,
       ce_detail = detail, ce_at = at\<rparr> l"

definition ledger_rereads :: "turn_ledger \<Rightarrow> int" where
  "ledger_rereads l = sum_list (map ce_rereads (tl_events l))"

definition bypasses_explicit_provider :: "string \<Rightarrow> bool" where
  "bypasses_explicit_provider code \<longleftrightarrow> code \<in> set capacity_codes"

datatype ledger_call =
    Rotated string "string option" datetime
  | FellBack string string datetime
  | RetrySkipped string datetime datetime
  | Degraded string string datetime

fun ledger_step :: "ledger_call \<Rightarrow> turn_ledger \<Rightarrow> turn_ledger" where
  "ledger_step (Rotated turn identity at) l = snd (ledger_rotation turn identity at l)"
| "ledger_step (FellBack turn provider at) l = snd (ledger_fallback turn provider at l)"
| "ledger_step (RetrySkipped turn reset at) l = snd (ledger_retry_skipped turn reset at l)"
| "ledger_step (Degraded turn detail at) l = snd (ledger_degradation turn detail at l)"

definition ledger_run :: "ledger_call list \<Rightarrow> turn_ledger \<Rightarrow> turn_ledger" where
  "ledger_run calls l = foldl (\<lambda>s c. ledger_step c s) l calls"

definition activation_turns :: "cost_event list \<Rightarrow> string list" where
  "activation_turns es = map ce_turn (filter (\<lambda>e. ce_kind e = ''fallback_activation'') es)"

definition rotation_events :: "cost_event list \<Rightarrow> nat" where
  "rotation_events es = length (filter (\<lambda>e. ce_kind e = ''rotation'') es)"

lemma event_counts_append [simp]:
  "activation_turns (es @ [e]) = activation_turns es @ (if ce_kind e = ''fallback_activation'' then [ce_turn e] else [])"
  "rotation_events (es @ [e]) = rotation_events es + (if ce_kind e = ''rotation'' then 1 else 0)"
  by (simp_all add: activation_turns_def rotation_events_def)

definition fallback_turns :: "turn_ledger \<Rightarrow> string list" where
  "fallback_turns l = activation_turns (tl_events l)"

definition rotation_count :: "turn_ledger \<Rightarrow> nat" where
  "rotation_count l = rotation_events (tl_events l)"

definition ledger_ok :: "turn_ledger \<Rightarrow> bool" where
  "ledger_ok l \<longleftrightarrow>
     distinct (fallback_turns l) \<and> set (fallback_turns l) = tl_activated l \<and>
     ledger_rereads l = int (rotation_count l) + 2 * int (length (fallback_turns l))"

lemmas ledger_defs = ledger_rotation_def ledger_fallback_def ledger_retry_skipped_def ledger_degradation_def
  ledger_append_def Let_def

lemma ledger_step_ok: "ledger_ok l \<Longrightarrow> ledger_ok (ledger_step c l)"
  by (cases c)
    (auto simp: ledger_defs ledger_ok_def rotation_context_rereads_def fallback_context_rereads_def
      fallback_turns_def rotation_count_def ledger_rereads_def)

interpretation ledger_machine: guarded_machine ledger_step ledger_ok
  by unfold_locales (rule ledger_step_ok)

lemma ledger_run_ok: "ledger_ok (ledger_run calls new_ledger)"
  unfolding ledger_run_def
  by (rule ledger_machine.run_inv)
    (simp add: ledger_ok_def new_ledger_def fallback_turns_def rotation_count_def ledger_rereads_def
      activation_turns_def rotation_events_def)

definition fell_back :: "ledger_call list \<Rightarrow> string set" where
  "fell_back calls = {turn. \<exists>provider at. FellBack turn provider at \<in> set calls}"

definition rotated :: "ledger_call list \<Rightarrow> nat" where
  "rotated calls = length (filter (\<lambda>c. case c of Rotated _ _ _ \<Rightarrow> True | _ \<Rightarrow> False) calls)"

lemma ledger_run_counts:
  "tl_activated (ledger_run calls l) = tl_activated l \<union> fell_back calls \<and>
     rotation_count (ledger_run calls l) = rotation_count l + rotated calls"
proof (induction calls arbitrary: l)
  case Nil
  then show ?case by (simp add: ledger_run_def fell_back_def rotated_def)
next
  case (Cons c calls)
  have run: "ledger_run (c # calls) l = ledger_run calls (ledger_step c l)" by (simp add: ledger_run_def)
  have step: "tl_activated (ledger_step c l) = tl_activated l \<union> fell_back [c]"
    "rotation_count (ledger_step c l) = rotation_count l + rotated [c]"
    by (cases c; auto simp: ledger_defs fell_back_def rotated_def rotation_count_def)+
  have "fell_back (c # calls) = fell_back [c] \<union> fell_back calls" by (auto simp: fell_back_def)
  moreover have "rotated (c # calls) = rotated [c] + rotated calls" by (simp add: rotated_def)
  ultimately show ?case unfolding run using Cons [of "ledger_step c l"] step by auto
qed

text \<open>
  C21. The ledger is faithful to what happened. After any run of calls on a new ledger, exactly the
  turns that asked for a fallback have a fallback activation, each exactly once however often it
  asked, and the context re-reads are one per rotation and two per activation; skipped retries and
  degradations cost none.
\<close>

theorem ledger_counts_exactly:
  "let l = ledger_run calls new_ledger in
     set (fallback_turns l) = fell_back calls \<and> distinct (fallback_turns l) \<and>
     rotation_count l = rotated calls \<and>
     ledger_rereads l = int (rotated calls) + 2 * int (card (fell_back calls))"
proof -
  let ?l = "ledger_run calls new_ledger"
  have ok: "ledger_ok ?l" by (rule ledger_run_ok)
  have counts: "tl_activated ?l = fell_back calls" "rotation_count ?l = rotated calls"
    using ledger_run_counts [of calls new_ledger] by (simp_all add: new_ledger_def rotation_count_def rotation_events_def)
  then show ?thesis
    using ok distinct_card [of "fallback_turns ?l"] by (simp add: ledger_ok_def Let_def)
qed

section \<open>Pricing\<close>

definition mtok :: int where
  "mtok = 1000000"

record model_weight =
  mw_subscription :: string
  mw_model :: string
  mw_input :: int
  mw_cached :: int
  mw_output :: int

record token_usage =
  tu_input :: int
  tu_cached :: int
  tu_output :: int

definition tokens_total :: "token_usage \<Rightarrow> int" where
  "tokens_total t = tu_input t + tu_cached t + tu_output t"

record spend_row =
  sp_model :: string
  sp_identity :: "string option"
  sp_class :: string
  sp_millicredits :: int
  sp_tokens :: token_usage

definition spend_payload :: "spend_row \<Rightarrow> json" where
  "spend_payload r = JObj
     [(''input_tokens'', JInt (tu_input (sp_tokens r))), (''millicredits'', JInt (sp_millicredits r)),
      (''model_ref'', JStr (sp_model r)), (''output_tokens'', JInt (tu_output (sp_tokens r))),
      (''subscription_identity'', json_opt (sp_identity r)), (''task_class'', JStr (sp_class r))]"

record weight_table =
  wt_revision :: int
  wt_weights :: "model_weight list"

definition table_from_rows :: "int \<Rightarrow> model_weight list \<Rightarrow> weight_table" where
  "table_from_rows revision rows = \<lparr>wt_revision = revision, wt_weights = rows\<rparr>"

definition scaled_cost :: "model_weight \<Rightarrow> token_usage \<Rightarrow> int" where
  "scaled_cost w t = mw_input w * tu_input t + mw_cached w * tu_cached t + mw_output w * tu_output t"

definition millicredits :: "model_weight \<Rightarrow> token_usage \<Rightarrow> int" where
  "millicredits w t = scaled_cost w t div mtok"

definition table_refusal :: "string \<Rightarrow> string \<Rightarrow> refusal" where
  "table_refusal observed action =
     refusal ''weight-table-unavailable''
    observed
    ''a spend figure priced from an unknown table is a plausible wrong number''
    action
    []"

definition price_usage ::
  "weight_table \<Rightarrow> string \<Rightarrow> string option \<Rightarrow> string \<Rightarrow> token_usage \<Rightarrow> int \<Rightarrow> refusal + spend_row" where
  "price_usage table model identity task tokens expected =
     (if wt_revision table \<noteq> expected
      then Inl (table_refusal
        (''weight table revision '' @ str_int (wt_revision table) @ '' against pin '' @ str_int expected)
        ''re-read the registry's current weight table before metering'')
      else case find (\<lambda>w. mw_model w = model) (wt_weights table) of
        None \<Rightarrow> Inl (table_refusal (''no weight row for model '' @ repr_str model)
          ''publish this model's per-direction weights, then meter'')
      | Some w \<Rightarrow> Inr \<lparr>sp_model = model, sp_identity = identity, sp_class = task,
          sp_millicredits = millicredits w tokens, sp_tokens = tokens\<rparr>)"

lemma table_refusal_vocabulary [simp]: "in_vocabulary (table_refusal ob act)"
  unfolding table_refusal_def by (rule refusal_vocabulary) (simp add: seam_minted_def)

definition add_usage :: "token_usage \<Rightarrow> token_usage \<Rightarrow> token_usage" where
  "add_usage t u = \<lparr>tu_input = tu_input t + tu_input u, tu_cached = tu_cached t + tu_cached u,
     tu_output = tu_output t + tu_output u\<rparr>"

lemma scaled_add: "scaled_cost w (add_usage t u) = scaled_cost w t + scaled_cost w u"
  by (simp add: scaled_cost_def add_usage_def algebra_simps)

lemma div_split:
  fixes a b m :: int
  assumes "0 < m"
  shows "a div m + b div m \<le> (a + b) div m" and "(a + b) div m \<le> a div m + b div m + 1"
proof -
  let ?s = "a mod m + b mod m"
  have split: "(a + b) div m = a div m + b div m + ?s div m" by (rule div_add1_eq)
  have bounds: "0 \<le> a mod m" "a mod m < m" "0 \<le> b mod m" "b mod m < m" using assms by simp_all
  have "?s div m = 0 \<or> ?s div m = 1"
  proof (cases "?s < m")
    case True
    then show ?thesis using bounds by (simp add: div_pos_pos_trivial)
  next
    case False
    have "(?s - m) div m = 0" by (rule div_pos_pos_trivial) (use False bounds in linarith)+
    moreover have "?s div m = (?s - m) div m + 1"
      using div_add_self2 [of m "?s - m"] assms by simp
    ultimately show ?thesis by simp
  qed
  then show "a div m + b div m \<le> (a + b) div m" and "(a + b) div m \<le> a div m + b div m + 1"
    unfolding split by auto
qed

text \<open>
  Pricing refuses rather than misprices. A row is priced exactly when the table is the pinned revision
  and has a weight for the model, by the first such weight; the millicredits are the exact cost rounded
  down, off by less than one; splitting a usage over two rows loses at most one millicredit and never
  gains; and every refusal carries the table's name in the vocabulary.
\<close>

theorem pricing_exact:
  "(\<forall>row. price_usage table model identity task tokens expected = Inr row \<longleftrightarrow>
      wt_revision table = expected \<and>
      (\<exists>w. find (\<lambda>w. mw_model w = model) (wt_weights table) = Some w \<and>
         row = \<lparr>sp_model = model, sp_identity = identity, sp_class = task,
           sp_millicredits = millicredits w tokens, sp_tokens = tokens\<rparr>)) \<and>
   (\<forall>r. price_usage table model identity task tokens expected = Inl r \<longrightarrow>
      in_vocabulary r \<and> rf_name r = ''weight-table-unavailable'') \<and>
   millicredits w tokens * mtok \<le> scaled_cost w tokens \<and> scaled_cost w tokens < (millicredits w tokens + 1) * mtok \<and>
   millicredits w tokens + millicredits w other \<le> millicredits w (add_usage tokens other) \<and>
   millicredits w (add_usage tokens other) \<le> millicredits w tokens + millicredits w other + 1"
proof (intro conjI allI)
  fix row
  show "price_usage table model identity task tokens expected = Inr row \<longleftrightarrow>
      wt_revision table = expected \<and>
      (\<exists>w. find (\<lambda>w. mw_model w = model) (wt_weights table) = Some w \<and>
         row = \<lparr>sp_model = model, sp_identity = identity, sp_class = task,
           sp_millicredits = millicredits w tokens, sp_tokens = tokens\<rparr>)"
    by (auto simp: price_usage_def split: option.split)
next
  fix r
  have "rf_name (table_refusal ob act) = ''weight-table-unavailable''" for ob act
    by (simp add: table_refusal_def)
  then show "price_usage table model identity task tokens expected = Inl r \<longrightarrow>
      in_vocabulary r \<and> rf_name r = ''weight-table-unavailable''"
    by (auto simp: price_usage_def split: option.split)
next
  have pos: "0 < mtok" by (simp add: mtok_def)
  have "scaled_cost w tokens = millicredits w tokens * mtok + scaled_cost w tokens mod mtok"
    by (simp add: millicredits_def)
  moreover have "0 \<le> scaled_cost w tokens mod mtok" "scaled_cost w tokens mod mtok < mtok" using pos by simp_all
  ultimately show "millicredits w tokens * mtok \<le> scaled_cost w tokens"
    and "scaled_cost w tokens < (millicredits w tokens + 1) * mtok"
    by (simp_all add: distrib_right)
  show "millicredits w tokens + millicredits w other \<le> millicredits w (add_usage tokens other)"
    and "millicredits w (add_usage tokens other) \<le> millicredits w tokens + millicredits w other + 1"
    unfolding millicredits_def scaled_add using div_split [OF pos] by blast+
qed

theorem pricing_exact_witness:
  "\<exists>r. price_usage (table_from_rows 1 []) ''m'' None ''main'' \<lparr>tu_input = 1, tu_cached = 0, tu_output = 2\<rparr> 2 = Inl r \<and>
     in_vocabulary r"
proof -
  obtain r where r: "price_usage (table_from_rows 1 []) ''m'' None ''main'' \<lparr>tu_input = 1, tu_cached = 0, tu_output = 2\<rparr> 2 = Inl r"
    by (simp add: price_usage_def table_from_rows_def)
  with pricing_exact show ?thesis by blast
qed

end
