(* ===== verification/SeamPolicy.thy ===== *)
theory SeamPolicy
  imports Seam
begin

text \<open>
  \<open>ctower_runner_sdk/policy.py\<close>: what an observation of a lane means, for every binding: its state,
  the pin a dispatch is checked against, serving truth and conflicts, the fallback ladder, which
  inputs, collections and writebacks are refused, and the teardown orders.
\<close>

definition writeback_scopes :: "string list" where
  "writeback_scopes = [''capture'', ''transition'', ''evidence'']"

definition teardown_triggers :: "string list" where
  "teardown_triggers = [''saturated'', ''capped'']"

definition seat_scope :: string where
  "seat_scope = ''project-seat''"

definition classify_state :: "bool \<Rightarrow> bool \<Rightarrow> bool \<Rightarrow> bool \<Rightarrow> bool \<Rightarrow> string" where
  "classify_state capped saturated dead_auth working_marker pane_changed =
     (if dead_auth then ''dead_auth''
      else if capped then ''capped''
      else if saturated then ''saturated''
      else if working_marker \<or> pane_changed then ''working''
      else ''idle'')"

section \<open>Dispatch pins\<close>

definition pin_mismatches :: "harness_spec \<Rightarrow> attempt_pin \<Rightarrow> string list" where
  "pin_mismatches h p =
     (if at_harness p \<noteq> hs_key h then [''harness_ref''] else []) @
     (if at_revision p \<noteq> hs_revision h then [''spec_revision''] else []) @
     (if at_digest p \<noteq> composition_digest h then [''composition_digest''] else [])"

definition pin_refusal :: "harness_spec \<Rightarrow> attempt_pin \<Rightarrow> string list \<Rightarrow> refusal" where
  "pin_refusal h p mismatches =
     refusal ''harness-dispatch-pin-mismatch''
    (''the attempt has mismatched composition pins: '' @ join '', '' mismatches)
    ''an attempt may dispatch only the harness, revision, and composition it was seated for''
    ''seat a new attempt against the registered spec; no lease or guard is consumed''
    ([(''mismatched_fields'', join '','' mismatches), (''attempt_harness_ref'', at_harness p), (''expected_harness_ref'', hs_key h), (''attempt_spec_revision'', str_int (at_revision p)), (''expected_spec_revision'', str_int (hs_revision h)), (''attempt_composition_digest'', at_digest p), (''expected_composition_digest'', composition_digest h)])"

definition dispatch_pin_refusal :: "harness_spec \<Rightarrow> attempt_pin \<Rightarrow> refusal option" where
  "dispatch_pin_refusal h p =
     (let mismatches = pin_mismatches h p
      in if mismatches = [] then None else Some (pin_refusal h p mismatches))"

section \<open>Serving truth\<close>

definition serving_observation ::
  "harness_spec \<Rightarrow> model_observation list \<Rightarrow> model_observation option \<times> string option" where
  "serving_observation h readings =
     (let declared = serving_source h;
          truth = find (\<lambda>r. (case declared of None \<Rightarrow> False | Some d \<Rightarrow> mo_source r = ls_source d) \<and>
            is_serving_truth r) readings;
          requested = find (\<lambda>r. mo_proves r = ''request'') readings
      in case (requested, truth) of
           (Some q, Some t) \<Rightarrow>
             if mo_value q = mo_value t then (truth, None)
             else (truth, Some (mo_source q @ '' shows the request '' @ repr_str (mo_value q) @
               '', not serving truth''))
         | _ \<Rightarrow> (truth, None))"

definition ladder_disposition :: "attempt_pin \<Rightarrow> string option \<Rightarrow> string" where
  "ladder_disposition p served =
     (case served of
        None \<Rightarrow> ''unknown''
      | Some m \<Rightarrow>
          if m = at_model p then ''as_intended''
          else if at_judgment p then ''substitution''
          else if m \<in> set (at_rungs p) then ''ladder'' else ''substitution'')"

text \<open>\<open>sorted\<close> of a set comprehension\<close>

definition sorted_set :: "string list \<Rightarrow> string list" where
  "sorted_set xs = sort (remdups xs)"

lemma sorted_set_simps [simp]: "set (sorted_set xs) = set xs" "sorted_set xs = [] \<longleftrightarrow> xs = []"
  by (auto simp: sorted_set_def) (metis set_empty set_remdups set_sort)

definition undeclared_refusal :: "string list \<Rightarrow> refusal" where
  "undeclared_refusal undeclared =
     refusal ''harness-served-model-self-reported''
    (''served-model readings from undeclared sources: '' @ join '', '' undeclared)
    ''an undeclared source is a claim, and a seat's claim about itself is not evidence''
    ''declare the source in the HarnessSpec, or report the model as unknown''
    (map (Pair ''undeclared_source'') undeclared)"

definition undeclared_source_refusal :: "harness_spec \<Rightarrow> model_observation list \<Rightarrow> refusal option" where
  "undeclared_source_refusal h readings =
     (let undeclared = sorted_set (filter (\<lambda>s. s \<notin> ls_source ` set (hs_sources h)) (map mo_source readings))
      in if undeclared = [] then None else Some (undeclared_refusal undeclared))"

section \<open>Inputs, collections and writebacks\<close>

definition capability_refusal :: "harness_spec \<Rightarrow> refusal" where
  "capability_refusal h =
     refusal ''harness-capability-unsupported''
    (repr_str (hs_key h) @ '' declares no INTERRUPT_AND_RESUME and the lane is working'')
    ''delivering into a live turn would destroy whatever that turn is holding''
    ''wait for the turn, or bind a harness that declares the interrupt capability''
    ([(''capability'', ''INTERRUPT_AND_RESUME'')])"

definition input_refusal :: "harness_spec \<Rightarrow> string \<Rightarrow> refusal option" where
  "input_refusal h state =
     (if state \<noteq> ''working'' \<or> declares h ''INTERRUPT_AND_RESUME'' then None else Some (capability_refusal h))"

definition uncollectable_refusal :: "string list \<Rightarrow> refusal" where
  "uncollectable_refusal dirty =
     refusal ''checkpoint-uncollectable''
    (str_nat (length dirty) @ '' uncommitted paths in the attempt's worktree'')
    ''an uncommitted change is not derivable from any ref a successor can read''
    ''commit and push, then collect; a smaller artifact set is not the answer''
    (map (Pair ''dirty_path'') dirty)"

definition collect_refusal :: "string list \<Rightarrow> refusal option" where
  "collect_refusal dirty = (if dirty = [] then None else Some (uncollectable_refusal dirty))"

record credential_reference =
  kr_scope :: string
  kr_seat :: string
  kr_project :: string

definition forbidden_credential :: "credential_reference \<Rightarrow> refusal" where
  "forbidden_credential k =
     refusal ''harness-credential-forbidden''
    (''the adapter was presented a '' @ repr_str (kr_scope k) @ '' credential'')
    ''an adapter holding an operator or commander credential is a design failure''
    ''present the seat's own project-seat credential''
    ([(''presented_scope'', kr_scope k)])"

definition seat_mismatch :: refusal where
  "seat_mismatch =
     refusal ''harness-credential-seat-mismatch''
    ''the credential presented belongs to a seat other than this attempt's''
    ''a fact under another seat's identity credits work to a seat that did none''
    ''present this seat's own project-seat credential''
    []"

definition project_denied :: refusal where
  "project_denied =
     refusal ''project-scope-denied''
    ''the credential's project does not match the seat's project''
    ''this seat may not write into that project''
    ''use the seat's own project, or ask the operator for a scoped credential''
    []"

definition scope_refused :: "string list \<Rightarrow> refusal" where
  "scope_refused outside =
     refusal ''harness-writeback-scope-refused''
    (''facts outside the seat's authority ceiling: '' @ join '', '' outside)
    ''capture, transition, and evidence are exhaustive, not a starting point''
    ''drop the out-of-scope facts; a stage change is emitted only as a request''
    (map (Pair ''scope'') outside)"

definition writeback_refusal ::
  "credential_reference \<Rightarrow> seat_ref \<Rightarrow> writeback_fact list \<Rightarrow> refusal option" where
  "writeback_refusal k seat facts =
     (if kr_scope k \<noteq> seat_scope then Some (forbidden_credential k)
      else if kr_seat k \<noteq> sr_seat seat then Some seat_mismatch
      else if kr_project k \<noteq> sr_project seat then Some project_denied
      else let outside = sorted_set (filter (\<lambda>s. s \<notin> set writeback_scopes) (map wf_scope facts))
           in if outside = [] then None else Some (scope_refused outside))"

section \<open>Teardown\<close>

definition no_branch :: refusal where
  "no_branch =
     refusal ''checkpoint-uncollectable''
    ''the checkpoint order found no pushed branch to preserve''
    ''the branch is the handoff, and there is no branch''
    ''commit and push before stopping the lane''
    []"

definition empty_handoff :: seat_handoff where
  "empty_handoff = \<lparr>ho_done = [], ho_progress = [], ho_not_started = [], ho_next = ([], [], [])\<rparr>"

definition no_handoff :: refusal where
  "no_handoff =
     refusal ''checkpoint-uncollectable''
    ''the checkpoint carries no handoff''
    ''a successor cannot reconstruct what is done, running, and next''
    ''write done / in progress / not started / next three steps''
    (map (Pair ''required_section'') (handoff_sections empty_handoff))"

definition teardown_checkpoint :: "artifact_set option \<Rightarrow> refusal + teardown_receipt" where
  "teardown_checkpoint artifacts =
     (case artifacts of
        None \<Rightarrow> Inl no_branch
      | Some s \<Rightarrow>
          if \<not> artifacts_complete s then Inl no_branch
          else if af_handoff s = None then Inl no_handoff
          else Inr \<lparr>tr_order = ''checkpoint'', tr_artifacts = artifacts, tr_basis = None, tr_expires = None,
            tr_nudged = False\<rparr>)"

definition park_without_basis :: refusal where
  "park_without_basis =
     refusal ''park-basis-broken''
    ''the park order carries no stated basis''
    ''a park with no basis cannot be re-proved and never expires on its own''
    ''state the basis the park rests on''
    []"

definition park_without_expiry :: refusal where
  "park_without_expiry =
     refusal ''park-expired''
    ''the park order carries no explicit expiry''
    ''a forgotten park would silence the floor indefinitely''
    ''set an explicit expiry; cheap to arm, self-expiring, broken by good news''
    []"

definition teardown_park :: "string option \<Rightarrow> datetime option \<Rightarrow> refusal + teardown_receipt" where
  "teardown_park basis expires =
     (if basis = None \<or> basis = Some [] then Inl park_without_basis
      else if expires = None then Inl park_without_expiry
      else Inr \<lparr>tr_order = ''park'', tr_artifacts = None, tr_basis = basis, tr_expires = expires,
        tr_nudged = False\<rparr>)"

definition sole_work :: refusal where
  "sole_work =
     refusal ''teardown-would-destroy-sole-work''
    ''this lane holds the only copy of unpushed work''
    ''reaping it destroys the work and the continuation at once''
    ''checkpoint first, then reap''
    []"

definition dead_on_auth :: refusal where
  "dead_on_auth =
     refusal ''teardown-refused-dead-auth''
    ''this lane is dead on auth, not dead on work''
    ''its pane is preserved for resume once the credential is refilled''
    ''offer the resume nudge; replace only a lane that cannot be resumed''
    []"

definition not_nudged :: refusal where
  "not_nudged =
     refusal ''teardown-refused-dead-auth''
    ''no resume nudge was offered before this replacement''
    ''a lane that ended a turn without delivering is offered one input first''
    ''offer the nudge, then reap only if it cannot be resumed''
    []"

definition teardown_reap ::
  "string \<Rightarrow> artifact_set option \<Rightarrow> bool \<Rightarrow> bool \<Rightarrow> refusal + teardown_receipt" where
  "teardown_reap state artifacts sole nudged =
     (if sole then Inl sole_work
      else if state = ''dead_auth'' then Inl dead_on_auth
      else if \<not> nudged then Inl not_nudged
      else Inr \<lparr>tr_order = ''reap'', tr_artifacts = artifacts, tr_basis = None, tr_expires = None,
        tr_nudged = True\<rparr>)"

definition teardown_outcome ::
  "string \<Rightarrow> artifact_set option \<Rightarrow> string \<Rightarrow> bool \<Rightarrow> string option \<Rightarrow> datetime option \<Rightarrow> bool \<Rightarrow>
   refusal + teardown_receipt" where
  "teardown_outcome order artifacts state sole basis expires nudged =
     (if order = ''park'' then teardown_park basis expires
      else if order = ''reap'' then teardown_reap state artifacts sole nudged
      else teardown_checkpoint artifacts)"

text \<open>
  What the supervisor's \<open>terminate\<close> did: it raised (\<open>KeyboardInterrupt\<close>, \<open>SystemExit\<close> and
  \<open>GeneratorExit\<close> pass through, the rest is typed), refused, or returned \<open>True\<close> or something else.
  The supervisor's own state is threaded, so the calls it gets are visible.
\<close>

datatype stop_result = StopInterrupted string | StopRaised string | StopRefused refusal | StopReturned bool

definition termination_refusal :: "attempt_pin \<Rightarrow> refusal" where
  "termination_refusal p =
     refusal ''harness-termination-failed''
    ''the supervisor did not confirm termination''
    ''a receipt without a stopped lane permits concurrent work under stale ownership''
    ''repair the supervisor termination path; do not report the lane as stopped''
    ([(''attempt_id'', uuid_str (at_id p))])"

definition terminate_after_receipt ::
  "refusal + teardown_receipt \<Rightarrow> attempt_pin \<Rightarrow> (attempt_pin \<Rightarrow> 's \<Rightarrow> stop_result \<times> 's) \<Rightarrow> 's \<Rightarrow>
   (string + (refusal + teardown_receipt)) \<times> 's" where
  "terminate_after_receipt receipt p terminate s =
     (case receipt of
        Inl r \<Rightarrow> (Inr (Inl r), s)
      | Inr t \<Rightarrow>
          (let (result, s') = terminate p s in
           case result of
             StopInterrupted e \<Rightarrow> (Inl e, s')
           | StopRaised e \<Rightarrow> (Inr (Inl (termination_refusal p)), s')
           | StopRefused r \<Rightarrow> (Inr (Inl r), s')
           | StopReturned b \<Rightarrow> (Inr (if b then receipt else Inl (termination_refusal p)), s')))"

section \<open>Properties of the policy\<close>

lemmas policy_refusals = pin_refusal_def undeclared_refusal_def capability_refusal_def uncollectable_refusal_def
  forbidden_credential_def seat_mismatch_def project_denied_def scope_refused_def no_branch_def no_handoff_def
  park_without_basis_def park_without_expiry_def sole_work_def dead_on_auth_def not_nudged_def termination_refusal_def

lemma policy_vocabulary [simp]:
  "in_vocabulary (pin_refusal h p ms)" "in_vocabulary (undeclared_refusal us)" "in_vocabulary (capability_refusal h)"
  "in_vocabulary (uncollectable_refusal ds)" "in_vocabulary (forbidden_credential k)" "in_vocabulary seat_mismatch"
  "in_vocabulary project_denied" "in_vocabulary (scope_refused os)" "in_vocabulary no_branch" "in_vocabulary no_handoff"
  "in_vocabulary park_without_basis" "in_vocabulary park_without_expiry" "in_vocabulary sole_work"
  "in_vocabulary dead_on_auth" "in_vocabulary not_nudged" "in_vocabulary (termination_refusal p)"
  unfolding policy_refusals by (rule refusal_vocabulary, simp add: spec_owned_def seam_minted_def)+

lemma pin_mismatches_Nil:
  "pin_mismatches h p = [] \<longleftrightarrow>
     at_harness p = hs_key h \<and> at_revision p = hs_revision h \<and> at_digest p = composition_digest h"
  by (simp add: pin_mismatches_def)

text \<open>
  C18. A writeback goes through exactly when it is presented under the seat's own project-seat
  credential, for the seat's own project, with every fact inside capture, transition and evidence; every
  refusal carries a name of the seam's vocabulary, and the scope refusal names exactly the scopes
  outside the ceiling, in order.
\<close>

theorem writeback_authority_exact:
  "(writeback_refusal k seat facts = None \<longleftrightarrow>
      kr_scope k = ''project-seat'' \<and> kr_seat k = sr_seat seat \<and> kr_project k = sr_project seat \<and>
      (\<forall>f \<in> set facts. wf_scope f \<in> {''capture'', ''transition'', ''evidence''})) \<and>
   (\<forall>r. writeback_refusal k seat facts = Some r \<longrightarrow> in_vocabulary r \<and>
      (rf_name r = ''harness-writeback-scope-refused'' \<longrightarrow>
         sorted (map snd (rf_detail r)) \<and> distinct (map snd (rf_detail r)) \<and>
         set (map snd (rf_detail r)) = wf_scope ` set facts - {''capture'', ''transition'', ''evidence''}))"
proof -
  have scopes: "set writeback_scopes = {''capture'', ''transition'', ''evidence''}"
    by (simp add: writeback_scopes_def)
  have detail: "map snd (rf_detail (scope_refused os)) = os" for os
    by (simp add: scope_refused_def o_def)
  have names: "rf_name (forbidden_credential k) \<noteq> ''harness-writeback-scope-refused''"
    "rf_name seat_mismatch \<noteq> ''harness-writeback-scope-refused''"
    "rf_name project_denied \<noteq> ''harness-writeback-scope-refused''"
    by (simp_all add: forbidden_credential_def seat_mismatch_def project_denied_def)
  have sorted: "sorted (sorted_set xs)" "distinct (sorted_set xs)" for xs
    by (simp_all add: sorted_set_def)
  have outside: "sorted_set (filter (\<lambda>s. s \<notin> set writeback_scopes) (map wf_scope facts)) = [] \<longleftrightarrow>
      (\<forall>f \<in> set facts. wf_scope f \<in> {''capture'', ''transition'', ''evidence''})"
    by (simp only: sorted_set_simps filter_empty_conv scopes) auto
  show ?thesis
  proof (intro conjI allI impI)
    show "writeback_refusal k seat facts = None \<longleftrightarrow>
      kr_scope k = ''project-seat'' \<and> kr_seat k = sr_seat seat \<and> kr_project k = sr_project seat \<and>
      (\<forall>f \<in> set facts. wf_scope f \<in> {''capture'', ''transition'', ''evidence''})"
      unfolding writeback_refusal_def Let_def outside seat_scope_def by simp
  next
    fix r
    assume r: "writeback_refusal k seat facts = Some r"
    then show "in_vocabulary r"
      by (auto simp: writeback_refusal_def Let_def split: if_splits)
    assume "rf_name r = ''harness-writeback-scope-refused''"
    with r have r: "r = scope_refused (sorted_set (filter (\<lambda>s. s \<notin> set writeback_scopes) (map wf_scope facts)))"
      using names by (auto simp: writeback_refusal_def Let_def split: if_splits)
    show "sorted (map snd (rf_detail r))" "distinct (map snd (rf_detail r))"
      unfolding r detail by (rule sorted)+
    show "set (map snd (rf_detail r)) = wf_scope ` set facts - {''capture'', ''transition'', ''evidence''}"
      unfolding r detail by (simp only: sorted_set_simps set_filter scopes) auto
  qed
qed

theorem writeback_authority_exact_witness:
  "writeback_refusal \<lparr>kr_scope = ''project-seat'', kr_seat = ''s'', kr_project = ''p''\<rparr>
      \<lparr>sr_seat = ''s'', sr_label = ''crew'', sr_project = ''p''\<rparr>
      [\<lparr>wf_scope = ''capture'', wf_kind = ''note'', wf_payload = []\<rparr>] = None \<and>
   in_vocabulary (scope_refused [''admin'']) \<and>
   writeback_refusal \<lparr>kr_scope = ''project-seat'', kr_seat = ''s'', kr_project = ''p''\<rparr>
      \<lparr>sr_seat = ''s'', sr_label = ''crew'', sr_project = ''p''\<rparr>
      [\<lparr>wf_scope = ''admin'', wf_kind = ''note'', wf_payload = []\<rparr>] = Some (scope_refused [''admin''])"
proof -
  have "writeback_refusal \<lparr>kr_scope = ''project-seat'', kr_seat = ''s'', kr_project = ''p''\<rparr>
      \<lparr>sr_seat = ''s'', sr_label = ''crew'', sr_project = ''p''\<rparr>
      [\<lparr>wf_scope = ''admin'', wf_kind = ''note'', wf_payload = []\<rparr>] = Some (scope_refused [''admin''])"
    by (simp add: writeback_refusal_def seat_scope_def writeback_scopes_def sorted_set_def)
  moreover from this have "in_vocabulary (scope_refused [''admin''])"
    using writeback_authority_exact by blast
  ultimately show ?thesis using writeback_authority_exact by simp
qed

text \<open>
  Teardown preserves work. A reap succeeds only for a lane that holds no unpushed sole work, is not
  dead on auth and was offered a nudge; a checkpoint only with a pushed branch and a handoff; a park only
  with a basis and an expiry. The supervisor is asked to stop the lane exactly once after a receipt and
  never after a refusal, a success is reported only if it confirmed, and otherwise the refusal is typed.
\<close>

theorem teardown_preserves_work:
  "(\<forall>t. teardown_outcome order artifacts state sole basis expires nudged = Inr t \<longrightarrow>
      tr_order t = (if order \<in> {''park'', ''reap''} then order else ''checkpoint'') \<and>
      (order = ''reap'' \<longrightarrow> \<not> sole \<and> state \<noteq> ''dead_auth'' \<and> nudged) \<and>
      (order = ''park'' \<longrightarrow> tr_basis t = basis \<and> tr_expires t = expires \<and> basis \<notin> {None, Some []} \<and> expires \<noteq> None) \<and>
      (order \<notin> {''park'', ''reap''} \<longrightarrow>
         (\<exists>s. artifacts = Some s \<and> af_pushed s \<and> af_head s \<noteq> [] \<and> af_handoff s \<noteq> None))) \<and>
   (\<forall>r. teardown_outcome order artifacts state sole basis expires nudged = Inl r \<longrightarrow> in_vocabulary r) \<and>
   (case teardown_outcome order artifacts state sole basis expires nudged of
      Inl r \<Rightarrow> terminate_after_receipt (Inl r) p terminate s = (Inr (Inl r), s)
    | Inr t \<Rightarrow> snd (terminate_after_receipt (Inr t) p terminate s) = snd (terminate p s) \<and>
        (fst (terminate_after_receipt (Inr t) p terminate s) = Inr (Inr t) \<longleftrightarrow>
           fst (terminate p s) = StopReturned True))"
proof (intro conjI allI impI)
  fix t
  assume t: "teardown_outcome order artifacts state sole basis expires nudged = Inr t"
  show "tr_order t = (if order \<in> {''park'', ''reap''} then order else ''checkpoint'')"
    and "order = ''reap'' \<Longrightarrow> \<not> sole" and "order = ''reap'' \<Longrightarrow> state \<noteq> ''dead_auth''" and "order = ''reap'' \<Longrightarrow> nudged"
    and "order = ''park'' \<Longrightarrow> tr_basis t = basis" and "order = ''park'' \<Longrightarrow> tr_expires t = expires"
    and "order = ''park'' \<Longrightarrow> basis \<notin> {None, Some []}" and "order = ''park'' \<Longrightarrow> expires \<noteq> None"
    and "order \<notin> {''park'', ''reap''} \<Longrightarrow>
         (\<exists>s. artifacts = Some s \<and> af_pushed s \<and> af_head s \<noteq> [] \<and> af_handoff s \<noteq> None)"
    using t
    by (auto simp: teardown_outcome_def teardown_park_def teardown_reap_def teardown_checkpoint_def
        artifacts_complete_def split: if_splits option.splits)
next
  show "in_vocabulary r" if "teardown_outcome order artifacts state sole basis expires nudged = Inl r" for r
    using that
    by (auto simp: teardown_outcome_def teardown_park_def teardown_reap_def teardown_checkpoint_def
        split: if_splits option.splits)
next
  have "fst (terminate_after_receipt (Inr t) p terminate s) = Inr (Inr t) \<longleftrightarrow>
      fst (terminate p s) = StopReturned True \<or> (\<exists>r. fst (terminate p s) = StopRefused r \<and> Inl r = (Inr t :: refusal + teardown_receipt))" for t
    by (auto simp: terminate_after_receipt_def case_prod_beta split: stop_result.splits)
  then show "case teardown_outcome order artifacts state sole basis expires nudged of
      Inl r \<Rightarrow> terminate_after_receipt (Inl r) p terminate s = (Inr (Inl r), s)
    | Inr t \<Rightarrow> snd (terminate_after_receipt (Inr t) p terminate s) = snd (terminate p s) \<and>
        (fst (terminate_after_receipt (Inr t) p terminate s) = Inr (Inr t) \<longleftrightarrow>
           fst (terminate p s) = StopReturned True)"
    by (auto simp: terminate_after_receipt_def case_prod_beta split: sum.split stop_result.split)
qed

theorem teardown_preserves_work_witness:
  "\<exists>t. teardown_outcome ''reap'' None ''idle'' False None None True = Inr t \<and> tr_order t = ''reap''"
proof -
  obtain t where t: "teardown_outcome ''reap'' None ''idle'' False None None True = Inr t"
    by (simp add: teardown_outcome_def teardown_reap_def)
  then have "tr_order t = ''reap''"
    using teardown_preserves_work [of "''reap''" None "''idle''" False None None True, THEN conjunct1] by simp
  with t show ?thesis by blast
qed

text \<open>
  What a lane serves is never inferred. Serving truth is only a reading of the declared serving source
  that proves serving; a differing request is reported as a conflict beside it, never instead of it; a
  judgment lane tolerates no model but its own, any other lane only the rungs its spawn intent pinned;
  and without serving truth the disposition is unknown.
\<close>

theorem serving_truth_never_inferred:
  "(\<forall>t. fst (serving_observation h readings) = Some t \<longrightarrow>
      t \<in> set readings \<and> mo_proves t = ''serving'' \<and>
      (\<exists>d \<in> set (hs_sources h). ls_fact d = ''served_model'' \<and> ls_proves d = ''serving'' \<and> mo_source t = ls_source d)) \<and>
   (snd (serving_observation h readings) \<noteq> None \<longrightarrow>
      (\<exists>t q. fst (serving_observation h readings) = Some t \<and> q \<in> set readings \<and> mo_proves q = ''request'' \<and>
         mo_value q \<noteq> mo_value t)) \<and>
   (let d = ladder_disposition p (map_option mo_value (fst (serving_observation h readings)))
    in (d = ''unknown'' \<longleftrightarrow> fst (serving_observation h readings) = None) \<and>
       (d = ''ladder'' \<longrightarrow> \<not> at_judgment p \<and>
          (\<exists>t. fst (serving_observation h readings) = Some t \<and> mo_value t \<in> set (at_rungs p))) \<and>
       (d \<noteq> ''unknown'' \<and> at_judgment p \<longrightarrow> (d = ''as_intended'' \<longleftrightarrow>
          map_option mo_value (fst (serving_observation h readings)) = Some (at_model p))))"
proof -
  let ?truth = "find (\<lambda>r. (case serving_source h of None \<Rightarrow> False | Some d \<Rightarrow> mo_source r = ls_source d) \<and>
      is_serving_truth r) readings"
  have truth: "fst (serving_observation h readings) = ?truth"
    by (simp add: serving_observation_def Let_def split: option.split)
  have conflict: "\<exists>t q. ?truth = Some t \<and> q \<in> set readings \<and> mo_proves q = ''request'' \<and> mo_value q \<noteq> mo_value t"
    if "snd (serving_observation h readings) \<noteq> None"
    using that by (auto simp: serving_observation_def Let_def split: option.splits if_splits dest!: find_Some_set)
  have "t \<in> set readings \<and> mo_proves t = ''serving'' \<and>
      (\<exists>d \<in> set (hs_sources h). ls_fact d = ''served_model'' \<and> ls_proves d = ''serving'' \<and> mo_source t = ls_source d)"
    if "?truth = Some t" for t
  proof (cases "serving_source h")
    case None
    with that show ?thesis by (auto simp: find_Some_iff)
  next
    case (Some d)
    then have "d \<in> set (hs_sources h)" "ls_fact d = ''served_model''" "ls_proves d = ''serving''"
      by (auto simp: serving_source_def dest!: find_Some_set)
    moreover from that Some have "t \<in> set readings" "mo_source t = ls_source d" "mo_proves t = ''serving''"
      by (auto simp: is_serving_truth_def dest!: find_Some_set)
    ultimately show ?thesis by blast
  qed
  then show ?thesis
    unfolding truth
    using conflict
    by (auto simp: ladder_disposition_def Let_def split: option.splits)
qed

theorem serving_truth_never_inferred_witness:
  "\<forall>h. ladder_disposition \<lparr>at_id = 1, at_epoch = 1, at_harness = ''h'', at_profile = ''p'', at_revision = 1,
      at_digest = ''d'', at_model = ''m'', at_rungs = [''n''], at_judgment = True, at_lease = None,
      at_identity = None, at_home = None\<rparr>
     (map_option mo_value (fst (serving_observation h []))) = ''unknown''"
proof
  fix h
  have "fst (serving_observation h []) = None"
    by (simp add: serving_observation_def Let_def split: option.split)
  then show "ladder_disposition \<lparr>at_id = 1, at_epoch = 1, at_harness = ''h'', at_profile = ''p'', at_revision = 1,
      at_digest = ''d'', at_model = ''m'', at_rungs = [''n''], at_judgment = True, at_lease = None,
      at_identity = None, at_home = None\<rparr>
     (map_option mo_value (fst (serving_observation h []))) = ''unknown''"
    using serving_truth_never_inferred [of h "[]"] by (simp add: Let_def)
qed

end
