(* ===== verification/SeamRegistry.thy ===== *)
theory SeamRegistry
  imports SeamPolicy Machine
begin

text \<open>
  \<open>ctower_runner_sdk/registry.py\<close>: which bindings may register, what resolves, and when the seam is
  published. A dict is its items in insertion order. The registry is a machine over its
  registrations; the lemmas state what holds of every registered spec.
\<close>

definition required_real_bindings :: nat where "required_real_bindings = 2"

definition trusted_refs :: "string list" where
  "trusted_refs = [''claude-code'', ''codex'', ''fault-injection-fake'', ''hermes'']"

definition not_a_harness :: "string \<Rightarrow> refusal" where
  "not_a_harness key =
     refusal ''harness-runtime-not-a-harness''
    (repr_str key @ '' was proposed as a harness but is outside the closed seam'')
    ''a model or runtime cannot mint a harness category without a first-party binding and its pinned conformance evidence''
    ''pin one of the registered first-party harness references; do not register a runtime''
    ([(''proposed_harness_ref'', key)])"

definition authority_refusal :: "string \<Rightarrow> refusal option" where
  "authority_refusal key = (if key \<in> set trusted_refs then None else Some (not_a_harness key))"

record role_row =
  rr_key :: string
  rr_class :: string
  rr_roles :: layer_roles
  rr_native_pool :: bool
  rr_native_fallback :: bool

definition role_payload :: "role_row \<Rightarrow> json" where
  "role_payload r = JObj
     [(''binding_class'', JStr (rr_class r)), (''harness_key'', JStr (rr_key r)),
      (''native_fallback'', JBool (rr_native_fallback r)), (''native_pool'', JBool (rr_native_pool r)),
      (''roles'', roles_payload (rr_roles r))]"

record harness_registry =
  rg_specs :: "(string \<times> harness_spec) list"
  rg_classes :: "(string \<times> string) list"

definition empty_registry :: harness_registry where
  "empty_registry = \<lparr>rg_specs = [], rg_classes = []\<rparr>"

definition duplicate_refusal :: "harness_spec \<Rightarrow> harness_registry \<Rightarrow> refusal option" where
  "duplicate_refusal h g =
     (case map_of (rg_specs g) (hs_key h) of
        None \<Rightarrow> None
      | Some existing \<Rightarrow> Some (
     refusal ''harness-spec-incompatible''
    (repr_str (hs_key h) @ '' is already registered at revision '' @ str_int (hs_revision existing))
    ''a duplicate declaration is rejected at registration, never at runtime''
    ''supersede the registered revision explicitly''
    ([(''registered_revision'', str_int (hs_revision existing))])))"

text \<open>The text of the dict \<open>LayerRoles.to_mapping()\<close>.\<close>

definition roles_text :: "layer_roles \<Rightarrow> string" where
  "roles_text r = ''{'' @ repr_str ''fallback'' @ '': '' @ repr_str (lr_fallback r) @ '', '' @ repr_str ''pool'' @
     '': '' @ repr_str (lr_pool r) @ ''}''"

definition status_line_classifier :: "harness_spec \<Rightarrow> refusal" where
  "status_line_classifier h =
     refusal ''pool-probe-classifier-refused''
    (repr_str (hs_key h) @ '' declares a status-line probe classifier'')
    ''401, 402, 403, and 429 mean four different things and one word loses all four''
    ''declare a body classifier before registering this binding''
    ([(''classified_on'', ps_classified (hs_probe h))])"

definition layer_conflict :: "harness_spec \<Rightarrow> layer_roles \<Rightarrow> refusal" where
  "layer_conflict h derived =
     refusal ''harness-layer-conflict''
    (repr_str (hs_key h) @ '' declares '' @ roles_text (hs_layers h) @ '' against a survey implying '' @ roles_text derived)
    ''two policies over one credential set are a race over single-use refresh chains, not redundancy''
    ''configure where the harness has the layer, provide where it does not, never both''
    ([(''declared_pool'', lr_pool (hs_layers h)), (''derived_pool'', lr_pool derived), (''declared_fallback'', lr_fallback (hs_layers h)), (''derived_fallback'', lr_fallback derived)])"

definition semantic_refusal :: "harness_spec \<Rightarrow> refusal option" where
  "semantic_refusal h =
     (if ps_classified (hs_probe h) = ''status_line'' then Some (status_line_classifier h)
      else let derived = derive_roles (hs_survey h)
           in if derived = hs_layers h then None else Some (layer_conflict h derived))"

definition register_parsed ::
  "harness_spec \<Rightarrow> string \<Rightarrow> harness_registry \<Rightarrow> (refusal + harness_spec) \<times> harness_registry" where
  "register_parsed h cls g =
     (case first_some [authority_refusal (hs_key h), semantic_refusal h, duplicate_refusal h g] of
        Some r \<Rightarrow> (Inl r, g)
      | None \<Rightarrow> (Inr h, g\<lparr>rg_specs := dict_set (hs_key h) h (rg_specs g),
                         rg_classes := dict_set (hs_key h) cls (rg_classes g)\<rparr>))"

definition register_spec ::
  "(members \<Rightarrow> (string \<times> string) list) \<Rightarrow> members \<Rightarrow> string \<Rightarrow> harness_registry \<Rightarrow>
   ((refusal + harness_spec) \<times> harness_registry) option" where
  "register_spec errs ms cls g =
     map_option (\<lambda>parsed. case parsed of Inl r \<Rightarrow> (Inl r, g) | Inr h \<Rightarrow> register_parsed h cls g)
       (parse_harness_spec errs ms)"

definition unknown_spec :: "string \<Rightarrow> refusal" where
  "unknown_spec ref =
     refusal ''harness-spec-unknown''
    (''no HarnessSpec is registered for harness_ref '' @ repr_str ref)
    ''there is no composition to pin, so there is nothing to dispatch''
    ''register the binding's spec; there is no fallback to a generic process''
    ([(''harness_ref'', ref)])"

definition resolve_harness :: "string \<Rightarrow> harness_registry \<Rightarrow> refusal + harness_spec" where
  "resolve_harness ref g =
     (case map_of (rg_specs g) ref of Some h \<Rightarrow> Inr h | None \<Rightarrow> Inl (unknown_spec ref))"

definition role_of :: "harness_registry \<Rightarrow> string \<times> harness_spec \<Rightarrow> role_row py" where
  "role_of g = (\<lambda>(key, h).
     (case map_of (rg_classes g) key of
        None \<Rightarrow> Inl (KeyError key)
      | Some cls \<Rightarrow> Inr \<lparr>rr_key = key, rr_class = cls, rr_roles = hs_layers h,
          rr_native_pool = sv_native_pool (hs_survey h), rr_native_fallback = sv_native_fallback (hs_survey h)\<rparr>))"

definition role_table :: "harness_registry \<Rightarrow> role_row list py" where
  "role_table g = mapE (role_of g) (sort_key fst (rg_specs g))"

definition real_bindings :: "harness_registry \<Rightarrow> string list" where
  "real_bindings g = sort (map fst (filter (\<lambda>(key, cls). cls = ''real'') (rg_classes g)))"

definition fake_bindings :: "harness_registry \<Rightarrow> string list" where
  "fake_bindings g = map fst (filter (\<lambda>(key, cls). cls = ''fault_injection_fake'') (rg_classes g))"

definition unpublished :: "harness_registry \<Rightarrow> refusal" where
  "unpublished g =
     refusal ''harness-seam-unpublished''
    (str_nat (length (real_bindings g)) @ '' real bindings and '' @ str_nat (length (fake_bindings g)) @ '' fault-injection fakes registered'')
    ''a contract proven by one implementation is not proven''
    (''land '' @ str_nat required_real_bindings @ '' real bindings plus one deterministic fake against the unchanged conformance suite'')
    (map (Pair ''real_binding'') (real_bindings g))"

definition publication :: "harness_registry \<Rightarrow> refusal option" where
  "publication g =
     (if required_real_bindings \<le> length (real_bindings g) \<and> fake_bindings g \<noteq> [] then None
      else Some (unpublished g))"

section \<open>The registry as a machine\<close>

lemma registry_vocabulary:
  "in_vocabulary (not_a_harness key)" "in_vocabulary (status_line_classifier h)" "in_vocabulary (layer_conflict h r)"
  "in_vocabulary (unknown_spec ref)" "in_vocabulary (unpublished g)"
  "duplicate_refusal h g = Some r' \<Longrightarrow> in_vocabulary r'"
  unfolding not_a_harness_def status_line_classifier_def layer_conflict_def unknown_spec_def unpublished_def
    duplicate_refusal_def
  by (rule refusal_vocabulary, simp add: seam_minted_def)+ (auto split: option.splits simp: seam_minted_def)

text \<open>What registration guarantees of a spec.\<close>

definition admitted_spec :: "harness_spec \<Rightarrow> bool" where
  "admitted_spec h \<longleftrightarrow>
     hs_key h \<in> {''claude-code'', ''codex'', ''fault-injection-fake'', ''hermes''} \<and> hs_status h = ''active'' \<and>
     ps_classified (hs_probe h) \<noteq> ''status_line'' \<and> hs_layers h = derive_roles (hs_survey h)"

definition registry_ok :: "harness_registry \<Rightarrow> bool" where
  "registry_ok g \<longleftrightarrow>
     distinct (map fst (rg_specs g)) \<and> map fst (rg_classes g) = map fst (rg_specs g) \<and>
     (\<forall>(k, h) \<in> set (rg_specs g). hs_key h = k \<and> admitted_spec h)"

lemma register_parsed_cases:
  assumes "register_parsed h cls g = (x, g')"
  obtains (refused) r where "x = Inl r" "g' = g" "in_vocabulary r"
  | (registered) "x = Inr h" "hs_key h \<in> set trusted_refs" "ps_classified (hs_probe h) \<noteq> ''status_line''"
      "hs_layers h = derive_roles (hs_survey h)" "map_of (rg_specs g) (hs_key h) = None"
      "g' = g\<lparr>rg_specs := dict_set (hs_key h) h (rg_specs g), rg_classes := dict_set (hs_key h) cls (rg_classes g)\<rparr>"
proof (cases "first_some [authority_refusal (hs_key h), semantic_refusal h, duplicate_refusal h g]")
  case None
  have "authority_refusal (hs_key h) = None" "semantic_refusal h = None" "duplicate_refusal h g = None"
    using None unfolding first_some_None by simp_all
  then have "hs_key h \<in> set trusted_refs" "ps_classified (hs_probe h) \<noteq> ''status_line''"
    "hs_layers h = derive_roles (hs_survey h)" "map_of (rg_specs g) (hs_key h) = None"
    by (simp_all add: authority_refusal_def semantic_refusal_def duplicate_refusal_def Let_def
        split: if_splits option.splits)
  then show ?thesis
    using assms None by (intro registered) (simp_all add: register_parsed_def)
next
  case (Some r)
  then have "Some r \<in> {authority_refusal (hs_key h), semantic_refusal h, duplicate_refusal h g}"
    using first_some_Some by fastforce
  then have "in_vocabulary r"
    using registry_vocabulary
    by (auto simp: authority_refusal_def semantic_refusal_def Let_def split: if_splits)
  then show ?thesis
    using assms Some by (intro refused) (simp_all add: register_parsed_def)
qed

lemma register_spec_cases:
  assumes "register_spec errs ms cls g = Some (x, g')"
  obtains (unparsed) "g' = g" | (parsed) h where "parse_harness_spec errs ms = Some (Inr h)" "register_parsed h cls g = (x, g')"
proof -
  obtain p where p: "parse_harness_spec errs ms = Some p"
    "(case p of Inl r \<Rightarrow> (Inl r, g) | Inr h \<Rightarrow> register_parsed h cls g) = (x, g')"
    using assms by (auto simp: register_spec_def)
  then show ?thesis by (cases p) (auto intro: that)
qed

lemma parse_active: "parse_harness_spec errs ms = Some (Inr h) \<Longrightarrow> hs_status h = ''active''"
  by (auto simp: parse_harness_spec_def bind_eq_Some_conv freeze_spec_active split: list.splits if_splits)

lemma register_spec_ok:
  assumes ok: "registry_ok g" and reg: "register_spec errs ms cls g = Some (x, g')"
  shows "registry_ok g'"
  using reg
proof (cases rule: register_spec_cases)
    case (parsed h)
    have active: "hs_status h = ''active''"
      using parsed(1) by (rule parse_active)
    from parsed(2) show ?thesis
    proof (cases rule: register_parsed_cases)
      case registered
      have keys: "fst ` set (rg_classes g) = fst ` set (rg_specs g)"
        using ok unfolding registry_ok_def by (metis image_set)
      have new: "hs_key h \<notin> fst ` set (rg_specs g)" "hs_key h \<notin> fst ` set (rg_classes g)"
        using registered(5) keys by (simp_all add: map_of_eq_None_iff)
      have "admitted_spec h"
        using registered(2) active unfolding admitted_spec_def trusted_refs_def registered(4) [symmetric]
        by (simp add: registered(3))
      then show ?thesis
        using ok new by (auto simp: registered(6) registry_ok_def dict_set_fresh)
    qed (use ok in simp)
qed (use ok in simp)

record registration =
  rn_errors :: "members \<Rightarrow> (string \<times> string) list"
  rn_document :: members
  rn_class :: string

text \<open>A document outside the schema's shape leaves the registry alone.\<close>

definition registry_step :: "registration \<Rightarrow> harness_registry \<Rightarrow> harness_registry" where
  "registry_step c g =
     (case register_spec (rn_errors c) (rn_document c) (rn_class c) g of None \<Rightarrow> g | Some (x, g') \<Rightarrow> g')"

lemma registry_step_ok: "registry_ok g \<Longrightarrow> registry_ok (registry_step c g)"
  by (auto simp: registry_step_def split: option.split intro: register_spec_ok)

interpretation registry_machine: guarded_machine registry_step registry_ok
  by unfold_locales (rule registry_step_ok)

definition registry_run :: "registration list \<Rightarrow> harness_registry" where
  "registry_run cs = foldl (\<lambda>g c. registry_step c g) empty_registry cs"

lemma registry_run_ok: "registry_ok (registry_run cs)"
  unfolding registry_run_def by (rule registry_machine.run_inv) (simp add: registry_ok_def empty_registry_def)

text \<open>A later registration never replaces a spec.\<close>

lemma registry_step_keeps:
  assumes "map_of (rg_specs g) k = Some h"
  shows "map_of (rg_specs (registry_step c g)) k = Some h"
proof (cases "register_spec (rn_errors c) (rn_document c) (rn_class c) g")
  case (Some y)
  obtain x g' where y: "y = (x, g')" by (cases y)
  have "map_of (rg_specs g') k = Some h"
    using Some [unfolded y]
  proof (cases rule: register_spec_cases)
    case (parsed s)
    from parsed(2) show ?thesis
      by (cases rule: register_parsed_cases) (use assms in \<open>auto simp: map_of_dict_set\<close>)
  qed (use assms in simp)
  then show ?thesis by (simp add: registry_step_def Some y)
qed (use assms in \<open>simp add: registry_step_def\<close>)

lemma role_table_total:
  assumes ok: "registry_ok g"
  shows "\<exists>rows. role_table g = Inr rows \<and> map rr_key rows = sort (map fst (rg_specs g)) \<and>
    (\<forall>r \<in> set rows. \<exists>h. map_of (rg_specs g) (rr_key r) = Some h \<and> rr_roles r = derive_roles (hs_survey h))"
proof -
  let ?row = "\<lambda>(key, h). \<lparr>rr_key = key, rr_class = the (map_of (rg_classes g) key), rr_roles = hs_layers h,
      rr_native_pool = sv_native_pool (hs_survey h), rr_native_fallback = sv_native_fallback (hs_survey h)\<rparr>"
  have "role_of g p = Inr (?row p)" if p: "p \<in> set (sort_key fst (rg_specs g))" for p
  proof -
    obtain key h where kh: "p = (key, h)" by (cases p)
    have "key \<in> set (map fst (rg_classes g))" using ok p by (force simp: registry_ok_def kh)
    then obtain cls where "map_of (rg_classes g) key = Some cls" by (force simp: map_of_eq_None_iff)
    then show ?thesis by (simp add: role_of_def kh)
  qed
  then have table: "role_table g = Inr (map ?row (sort_key fst (rg_specs g)))"
    unfolding role_table_def by (rule mapE_Inr_map)
  have "map rr_key (map ?row (sort_key fst (rg_specs g))) = map fst (sort_key fst (rg_specs g))"
    by (simp add: o_def case_prod_beta)
  also have "\<dots> = sort (map fst (rg_specs g))"
    using ok
    by (intro sorted_distinct_set_unique) (simp_all add: sorted_sort_key registry_ok_def distinct_map)
  finally have keys: "map rr_key (map ?row (sort_key fst (rg_specs g))) = sort (map fst (rg_specs g))" .
  have "\<exists>s. map_of (rg_specs g) (rr_key r) = Some s \<and> rr_roles r = derive_roles (hs_survey s)"
    if "r \<in> set (map ?row (sort_key fst (rg_specs g)))" for r
  proof -
    from that obtain key h where kh: "(key, h) \<in> set (rg_specs g)" "r = ?row (key, h)" by auto
    then have "map_of (rg_specs g) key = Some h" "hs_layers h = derive_roles (hs_survey h)"
      using ok by (auto simp: registry_ok_def admitted_spec_def)
    then show ?thesis using kh by simp
  qed
  with table keys show ?thesis by blast
qed

text \<open>A registration stores its spec exactly under the conditions of the registry.\<close>

definition registrable :: "harness_spec \<Rightarrow> harness_registry \<Rightarrow> bool" where
  "registrable h g \<longleftrightarrow>
     hs_key h \<in> {''claude-code'', ''codex'', ''fault-injection-fake'', ''hermes''} \<and>
     ps_classified (hs_probe h) \<noteq> ''status_line'' \<and> hs_layers h = derive_roles (hs_survey h) \<and>
     (\<forall>s. resolve_harness (hs_key h) g \<noteq> Inr s)"

definition entered :: "harness_spec \<Rightarrow> string \<Rightarrow> harness_registry \<Rightarrow> harness_registry" where
  "entered h cls g = \<lparr>rg_specs = rg_specs g @ [(hs_key h, h)], rg_classes = rg_classes g @ [(hs_key h, cls)]\<rparr>"

lemma registrable_refusals:
  "first_some [authority_refusal (hs_key h), semantic_refusal h, duplicate_refusal h g] = None \<longleftrightarrow> registrable h g"
  unfolding first_some_None
  by (auto simp: registrable_def authority_refusal_def semantic_refusal_def duplicate_refusal_def Let_def trusted_refs_def
      resolve_harness_def split: option.splits if_splits)

lemma register_parsed_exact:
  assumes ok: "registry_ok g"
  shows "\<exists>r. register_parsed h cls g = (if registrable h g then (Inr h, entered h cls g) else (Inl r, g))"
proof (cases "registrable h g")
  case True
  have fresh: "hs_key h \<notin> fst ` set (rg_specs g)"
    using True by (auto simp: registrable_def resolve_harness_def map_of_eq_None_iff [symmetric] split: option.splits)
  moreover have "fst ` set (rg_classes g) = fst ` set (rg_specs g)"
    using ok unfolding registry_ok_def by (metis image_set)
  ultimately show ?thesis
    using True registrable_refusals [of h g] by (simp add: register_parsed_def entered_def dict_set_fresh)
next
  case False
  then obtain r where "first_some [authority_refusal (hs_key h), semantic_refusal h, duplicate_refusal h g] = Some r"
    using registrable_refusals [of h g] by blast
  then show ?thesis using False by (auto simp: register_parsed_def)
qed

lemma registry_run_snoc: "registry_run (cs @ [c]) = registry_step c (registry_run cs)"
  by (simp add: registry_run_def)

lemma registry_step_exact:
  assumes ok: "registry_ok g"
  shows "registry_step c g =
    (case parse_harness_spec (rn_errors c) (rn_document c) of
       Some (Inr h) \<Rightarrow> if registrable h g then entered h (rn_class c) g else g
     | _ \<Rightarrow> g)"
proof (cases "parse_harness_spec (rn_errors c) (rn_document c)")
  case (Some x)
  then show ?thesis
  proof (cases x)
    case (Inr h)
    obtain r where "register_parsed h (rn_class c) g = (if registrable h g then (Inr h, entered h (rn_class c) g) else (Inl r, g))"
      using register_parsed_exact [OF ok] by blast
    then show ?thesis using Some Inr by (simp add: registry_step_def register_spec_def)
  qed (simp add: registry_step_def register_spec_def)
qed (simp add: registry_step_def register_spec_def)

lemma register_spec_accepts:
  assumes ok: "registry_ok g"
  shows "(\<exists>g'. register_spec errs ms cls g = Some (Inr h, g')) \<longleftrightarrow>
    parse_harness_spec errs ms = Some (Inr h) \<and> registrable h g"
proof -
  have "(\<exists>g'. register_parsed s cls g = (Inr h, g')) \<longleftrightarrow> s = h \<and> registrable h g" for s
    using register_parsed_exact [OF ok, of s cls] by (auto split: if_splits)
  then show ?thesis
  proof (cases "parse_harness_spec errs ms")
    case (Some x)
    then show ?thesis
      using \<open>\<And>s. (\<exists>g'. register_parsed s cls g = (Inr h, g')) \<longleftrightarrow> s = h \<and> registrable h g\<close>
      by (cases x) (simp_all add: register_spec_def)
  qed (simp add: register_spec_def)
qed

text \<open>
  C22. The registry is closed and earned. After any registrations, each by any document, under any answers of
  the schema validator: the next document is stored under its key, with its class, exactly when it parses and its
  spec names one of the four trusted harnesses, classifies probes on the body, declares exactly the roles its
  survey implies and has a key that does not resolve yet, and then the registration answers with that spec; any
  other document leaves the registry as it was; every spec that resolves is active, one of the trusted harnesses, classifies probes on
  the body and declares exactly the roles its survey implies, and no later registration replaces it;
  an unknown reference is refused by name; the role table never raises, lists every binding once in
  key order with its derived roles; and the seam is published exactly when two real bindings and a
  fault-injection fake are registered.
\<close>

theorem registry_closed_and_earned:
  "(\<forall>c. registry_run (cs @ [c]) =
      (case parse_harness_spec (rn_errors c) (rn_document c) of
         Some (Inr h) \<Rightarrow> if registrable h (registry_run cs) then entered h (rn_class c) (registry_run cs) else registry_run cs
       | _ \<Rightarrow> registry_run cs)) \<and>
   (\<forall>errs ms cls h. (\<exists>g'. register_spec errs ms cls (registry_run cs) = Some (Inr h, g')) \<longleftrightarrow>
      parse_harness_spec errs ms = Some (Inr h) \<and> registrable h (registry_run cs)) \<and>
   (\<forall>k h. resolve_harness k (registry_run cs) = Inr h \<longrightarrow> hs_key h = k \<and> admitted_spec h \<and>
      resolve_harness k (registry_run (cs @ later)) = Inr h) \<and>
   (\<forall>k r. resolve_harness k (registry_run cs) = Inl r \<longrightarrow> rf_name r = ''harness-spec-unknown'' \<and> in_vocabulary r) \<and>
   (\<exists>rows. role_table (registry_run cs) = Inr rows \<and>
      map rr_key rows = sort (map fst (rg_specs (registry_run cs))) \<and> distinct (map rr_key rows) \<and>
      (\<forall>r \<in> set rows. \<exists>h. resolve_harness (rr_key r) (registry_run cs) = Inr h \<and>
         rr_roles r = derive_roles (hs_survey h))) \<and>
   (publication (registry_run cs) = None \<longleftrightarrow>
      2 \<le> card {k. (k, ''real'') \<in> set (rg_classes (registry_run cs))} \<and>
      (\<exists>k. (k, ''fault_injection_fake'') \<in> set (rg_classes (registry_run cs))))"
proof -
  let ?g = "registry_run cs"
  have ok: "registry_ok ?g" by (rule registry_run_ok)
  have keeps: "map_of (rg_specs (registry_run (cs @ later))) k = Some h" if "map_of (rg_specs ?g) k = Some h" for k h
  proof -
    have "map_of (rg_specs (foldl (\<lambda>g c. registry_step c g) g later)) k = Some h"
      if "map_of (rg_specs g) k = Some h" for g
      using that by (induction later arbitrary: g) (auto intro: registry_step_keeps)
    then show ?thesis using that by (simp add: registry_run_def)
  qed
  have resolved: "resolve_harness k g = Inr h \<longleftrightarrow> map_of (rg_specs g) k = Some h" for k g h
    by (simp add: resolve_harness_def split: option.split)
  have spec: "hs_key h = k \<and> admitted_spec h" if "map_of (rg_specs ?g) k = Some h" for k h
    using ok map_of_SomeD [OF that] by (auto simp: registry_ok_def)
  have unknown: "rf_name r = ''harness-spec-unknown'' \<and> in_vocabulary r" if "resolve_harness k ?g = Inl r" for k r
    using that registry_vocabulary(4) [of k] by (auto simp: resolve_harness_def unknown_spec_def split: option.splits)
  obtain rows where rows: "role_table ?g = Inr rows" "map rr_key rows = sort (map fst (rg_specs ?g))"
    "\<forall>r \<in> set rows. \<exists>h. map_of (rg_specs ?g) (rr_key r) = Some h \<and> rr_roles r = derive_roles (hs_survey h)"
    using role_table_total [OF ok] by blast
  have "distinct (map rr_key rows)" using ok by (simp add: rows(2) registry_ok_def)
  moreover have "publication ?g = None \<longleftrightarrow>
      2 \<le> card {k. (k, ''real'') \<in> set (rg_classes ?g)} \<and> (\<exists>k. (k, ''fault_injection_fake'') \<in> set (rg_classes ?g))"
  proof -
    have "distinct (map fst (rg_classes ?g))" using ok by (simp add: registry_ok_def)
    then have d: "distinct (map fst (filter (\<lambda>(key, cls). cls = ''real'') (rg_classes ?g)))"
      by (rule distinct_map_filter)
    have set: "fst ` set (filter (\<lambda>(key, cls). cls = ''real'') (rg_classes ?g)) = {k. (k, ''real'') \<in> set (rg_classes ?g)}"
      by force
    have "length (real_bindings ?g) = card {k. (k, ''real'') \<in> set (rg_classes ?g)}"
      using distinct_card [OF d] set by (simp add: real_bindings_def)
    moreover have "fake_bindings ?g \<noteq> [] \<longleftrightarrow> (\<exists>k. (k, ''fault_injection_fake'') \<in> set (rg_classes ?g))"
      by (auto simp: fake_bindings_def filter_empty_conv)
    ultimately show ?thesis by (simp add: publication_def required_real_bindings_def)
  qed
  moreover have "registry_run (cs @ [c]) =
      (case parse_harness_spec (rn_errors c) (rn_document c) of
         Some (Inr h) \<Rightarrow> if registrable h ?g then entered h (rn_class c) ?g else ?g
       | _ \<Rightarrow> ?g)" for c
    unfolding registry_run_snoc by (rule registry_step_exact [OF ok])
  ultimately show ?thesis
    using spec keeps unknown rows register_spec_accepts [OF ok] unfolding resolved by blast
qed

text \<open>Three documents, of two real bindings and of the fake, and one that declares a layer its survey does not imply.\<close>

definition demo_document :: "string \<Rightarrow> string \<Rightarrow> members" where
  "demo_document key pool =
     [(''key'', JStr key), (''revision'', JInt 1), (''artifact_digest'', JStr ''a''), (''config_digest'', JStr ''c''),
      (''input_protocol'', JObj [(''kind'', JStr ''pty''), (''submit_separately'', JBool True)]),
      (''output_protocol'', JObj [(''kind'', JStr ''pty'')]), (''capabilities'', JList [JStr ''resume'']),
      (''ack_predicate'', JObj [(''kind'', JStr ''composer''), (''detail'', JStr ''cleared'')]),
      (''liveness_sources'', JList [JObj [(''fact'', JStr ''served_model''), (''source'', JStr ''transcript''),
         (''proves'', JStr ''serving'')]]), (''context_window_percent'', JInt 80),
      (''probe'', JObj [(''product'', JStr ''x''), (''endpoint'', JStr ''e''), (''model_ref'', JStr ''m''),
         (''workload_shape'', JStr ''representative''), (''classified_on'', JStr ''response_body'')]),
      (''pool'', JObj [(''cache_invalidation_hook'', JStr ''h''), (''providers'', JList [JStr ''p''])]),
      (''survey'', JObj [(''native_pool'', JBool True), (''native_fallback'', JBool False), (''config_surface'', JStr ''s''),
         (''identity_proof'', JStr ''i''), (''reset_semantics'', JStr ''r''), (''rotation_cache'', JStr ''t''),
         (''subagent_inheritance'', JStr ''u''), (''egress_topology'', JStr ''shared'')]),
      (''layers'', JObj [(''pool'', JStr pool), (''fallback'', JStr ''provide'')]), (''status'', JStr ''active'')]"

definition demo_harness :: "string \<Rightarrow> string \<Rightarrow> harness_spec" where
  "demo_harness key pool =
     \<lparr>hs_key = key, hs_revision = 1, hs_artifact = ''a'', hs_config = ''c'', hs_input = ''pty'', hs_submit = True,
      hs_output = ''pty'', hs_capabilities = {''resume''}, hs_ack = \<lparr>ak_kind = ''composer'', ak_detail = ''cleared''\<rparr>,
      hs_sources = [\<lparr>ls_fact = ''served_model'', ls_source = ''transcript'', ls_proves = ''serving''\<rparr>], hs_window = 80,
      hs_probe = \<lparr>ps_product = ''x'', ps_endpoint = ''e'', ps_model = ''m'', ps_workload = ''representative'',
        ps_classified = ''response_body''\<rparr>, hs_pool = \<lparr>pl_hook = ''h'', pl_providers = [''p'']\<rparr>,
      hs_survey = \<lparr>sv_native_pool = True, sv_native_fallback = False, sv_config_surface = ''s'', sv_identity_proof = ''i'',
        sv_reset_semantics = ''r'', sv_rotation_cache = ''t'', sv_subagents = ''u'', sv_egress = ''shared''\<rparr>,
      hs_layers = \<lparr>lr_pool = pool, lr_fallback = ''provide''\<rparr>, hs_status = ''active''\<rparr>"

definition demo_registration :: "string \<Rightarrow> string \<Rightarrow> string \<Rightarrow> registration" where
  "demo_registration key pool cls = \<lparr>rn_errors = (\<lambda>_. []), rn_document = demo_document key pool, rn_class = cls\<rparr>"

lemma demo_parses: "parse_harness_spec (\<lambda>_. []) (demo_document key pool) = Some (Inr (demo_harness key pool))"
  by (simp add: parse_harness_spec_def freeze_spec_def demo_document_def demo_harness_def at_key_def list_at_def
      section_of_def freeze_ack_def freeze_source_def freeze_probe_def freeze_pool_def freeze_survey_def freeze_layers_def)

definition demo_registrations :: "registration list" where
  "demo_registrations =
     [demo_registration ''codex'' ''configure'' ''real'', demo_registration ''hermes'' ''provide'' ''real'',
      demo_registration ''claude-code'' ''configure'' ''real'',
      demo_registration ''fault-injection-fake'' ''configure'' ''fault_injection_fake'']"

theorem registry_closed_and_earned_witness:
  "resolve_harness ''codex'' (registry_run demo_registrations) = Inr (demo_harness ''codex'' ''configure'') \<and>
   (\<forall>s. resolve_harness ''hermes'' (registry_run demo_registrations) \<noteq> Inr s) \<and>
   publication (registry_run (take 3 demo_registrations)) \<noteq> None \<and>
   publication (registry_run demo_registrations) = None"
proof -
  have derived: "registrable (demo_harness key pool) g \<longleftrightarrow>
      key \<in> {''claude-code'', ''codex'', ''fault-injection-fake'', ''hermes''} \<and> pool = ''configure'' \<and>
      map_of (rg_specs g) key = None" for key pool g
    by (auto simp: registrable_def demo_harness_def derive_roles_def resolve_harness_def split: option.splits)
  have next_document: "registry_run (cs @ [demo_registration key pool cls]) =
      (if registrable (demo_harness key pool) (registry_run cs) then entered (demo_harness key pool) cls (registry_run cs)
       else registry_run cs)" for cs key pool cls
    using registry_closed_and_earned [of cs "[]", THEN conjunct1, THEN spec, of "demo_registration key pool cls"]
    by (simp add: demo_registration_def demo_parses)
  have key: "hs_key (demo_harness key pool) = key" for key pool by (simp add: demo_harness_def)
  have three: "registry_run (take 3 demo_registrations) =
      \<lparr>rg_specs = [(''codex'', demo_harness ''codex'' ''configure''), (''claude-code'', demo_harness ''claude-code'' ''configure'')],
       rg_classes = [(''codex'', ''real''), (''claude-code'', ''real'')]\<rparr>"
    using next_document [of "[]" "''codex''" "''configure''" "''real''"]
      next_document [of "take 1 demo_registrations" "''hermes''" "''provide''" "''real''"]
      next_document [of "take 2 demo_registrations" "''claude-code''" "''configure''" "''real''"]
    by (simp add: demo_registrations_def derived entered_def key registry_run_def [of "[]"] empty_registry_def)
  have all: "registry_run demo_registrations =
      entered (demo_harness ''fault-injection-fake'' ''configure'') ''fault_injection_fake'' (registry_run (take 3 demo_registrations))"
    using next_document [of "take 3 demo_registrations" "''fault-injection-fake''" "''configure''" "''fault_injection_fake''"]
    by (simp add: three derived) (simp add: demo_registrations_def)
  show ?thesis
    by (simp add: all three entered_def key resolve_harness_def publication_def required_real_bindings_def
        real_bindings_def fake_bindings_def)
qed

end
