(* ===== verification/SeamGuard.thy ===== *)
theory SeamGuard
  imports SeamPolicy Sha256
begin

text \<open>
  \<open>ctower_runner_sdk/guard.py\<close>: the last boundary before a launch. The guard and the receipt sink are
  interfaces; each call of \<open>clear\<close> takes what they answer at that moment as functions. The boundary's
  own state is the set of burned decisions. The lemmas show that the plan digest frames its fields
  injectively, and that no run of the boundary uses one decision twice.
\<close>

section \<open>Plans and their digest\<close>

record execution_plan =
  xp_harness :: string
  xp_profile :: string
  xp_composition :: string
  xp_program :: string
  xp_argv :: "string list"
  xp_worktree :: string
  xp_identity :: "string option"
  xp_home :: "string option"

definition frame_part :: "string \<Rightarrow> string" where
  "frame_part s = str_nat (length s) @ '':'' @ s"

definition framed :: "string list \<Rightarrow> string" where
  "framed parts = concat (map frame_part parts)"

definition optional_frame :: "string option \<Rightarrow> string" where
  "optional_frame v = (case v of None \<Rightarrow> ''0'' | Some s \<Rightarrow> ''1'' @ framed [s])"

definition plan_payload :: "execution_plan \<Rightarrow> string" where
  "plan_payload p =
     framed [xp_harness p, xp_profile p, xp_composition p, xp_program p, framed (xp_argv p), xp_worktree p,
       optional_frame (xp_identity p), optional_frame (xp_home p)]"

definition normalized_digest :: "execution_plan \<Rightarrow> string" where
  "normalized_digest p = ''sha256:'' @ sha256_hex (plan_payload p)"

lemma takeWhile_digits: "list_all is_digit ds \<Longrightarrow> takeWhile is_digit (ds @ CHR '':'' # r) = ds"
  by (induction ds) (auto simp: is_digit_def)

lemma frame_part_inj: "frame_part s @ r = frame_part s' @ r' \<Longrightarrow> s = s' \<and> r = r'"
proof -
  assume eq: "frame_part s @ r = frame_part s' @ r'"
  then have "takeWhile is_digit (str_nat (length s) @ CHR '':'' # (s @ r)) =
      takeWhile is_digit (str_nat (length s') @ CHR '':'' # (s' @ r'))"
    by (simp add: frame_part_def)
  then have "length s = length s'" by (simp add: takeWhile_digits str_nat_digits)
  with eq show ?thesis by (simp add: frame_part_def)
qed

lemma frame_part_nonempty [simp]: "frame_part s \<noteq> []"
  by (simp add: frame_part_def)

lemma framed_inj: "framed xs = framed ys \<longleftrightarrow> xs = ys"
proof (induction xs arbitrary: ys)
  case Nil
  then show ?case by (cases ys) (auto simp: framed_def)
next
  case (Cons x xs)
  show ?case
  proof (cases ys)
    case Nil
    then show ?thesis by (simp add: framed_def)
  next
    case (Cons y ys')
    then show ?thesis
      using Cons.IH [of ys'] frame_part_inj [of x "framed xs" y "framed ys'"]
      by (auto simp: framed_def)
  qed
qed

lemma optional_frame_inj: "optional_frame v = optional_frame w \<longleftrightarrow> v = w"
  by (auto simp: optional_frame_def framed_inj split: option.splits)

lemma plan_payload_inj: "plan_payload p = plan_payload q \<longleftrightarrow> p = q"
  by (auto simp: plan_payload_def framed_inj optional_frame_inj)

section \<open>The boundary\<close>

record guard_decision =
  gd_id :: string
  gd_verdict :: string
  gd_plan :: string
  gd_version :: int
  gd_expires :: datetime

record dispatch_boundary =
  bd_version :: int
  bd_burned :: "string set"

definition decision_fault ::
  "dispatch_boundary \<Rightarrow> guard_decision \<Rightarrow> execution_plan \<Rightarrow> datetime \<Rightarrow> string option" where
  "decision_fault b d p now =
     (if gd_plan d \<noteq> normalized_digest p
      then Some ''the decision was made about a different normalized plan''
      else if gd_version d \<noteq> bd_version b
      then Some (''the decision came from guard version '' @ str_int (gd_version d))
      else if gd_expires d \<le> now then Some (''the grant expired at '' @ isoformat (gd_expires d))
      else if gd_id d \<in> bd_burned b then Some ''this grant was already used once''
      else None)"

definition invalid_decision :: "string \<Rightarrow> execution_plan \<Rightarrow> refusal" where
  "invalid_decision reason plan =
     refusal ''harness-guard-decision-invalid''
    reason
    ''this decision does not authorize this dispatch''
    ''obtain a current decision for the exact normalized plan''
    ([(''plan_digest'', normalized_digest plan)])"

definition decision_invalidity ::
  "dispatch_boundary \<Rightarrow> guard_decision \<Rightarrow> execution_plan \<Rightarrow> datetime \<Rightarrow> refusal option" where
  "decision_invalidity b d p now = map_option (\<lambda>reason. invalid_decision reason p) (decision_fault b d p now)"

definition verdict_refusal :: "guard_decision \<Rightarrow> execution_plan \<Rightarrow> refusal" where
  "verdict_refusal decision plan =
     (let blocked = gd_verdict decision = ''block'' in
      refusal (if blocked then ''harness-dispatch-blocked'' else ''harness-dispatch-needs-operator'')
        (''the guard answered '' @ gd_verdict decision @ '' for this plan'')
        (if blocked then ''the plan is refused outright''
         else ''the plan needs an operator decision before it may run'')
        (if blocked then ''change the plan and ask again''
         else ''raise the operator ceremony; nothing dispatches meanwhile'')
        [(''plan_digest'', normalized_digest plan), (''program'', xp_program plan)])"

definition receipt_undurable :: "guard_decision \<Rightarrow> refusal" where
  "receipt_undurable decision =
     refusal ''harness-receipt-undurable''
    ''the dispatch receipt could not be recorded durably''
    ''a launch nobody can prove happened is worse than one that never did''
    ''restore the receipt sink; zero dispatch until a receipt lands first''
    ([(''decision_id'', gd_id decision)])"

definition clear_plan ::
  "(execution_plan \<Rightarrow> guard_decision) \<Rightarrow> (guard_decision \<Rightarrow> execution_plan \<Rightarrow> bool) \<Rightarrow> execution_plan \<Rightarrow>
   datetime \<Rightarrow> dispatch_boundary \<Rightarrow> (refusal + guard_decision) \<times> dispatch_boundary" where
  "clear_plan decide recorded p now b =
     (let d = decide p in
      case decision_invalidity b d p now of
        Some r \<Rightarrow> (Inl r, b)
      | None \<Rightarrow>
          if gd_verdict d \<noteq> ''allow'' then (Inl (verdict_refusal d p), b)
          else if \<not> recorded d p then (Inl (receipt_undurable d), b)
          else (Inr d, b\<lparr>bd_burned := insert (gd_id d) (bd_burned b)\<rparr>))"

lemma boundary_vocabulary [simp]:
  "in_vocabulary (invalid_decision reason p)" "in_vocabulary (verdict_refusal d p)"
  "in_vocabulary (receipt_undurable d)"
  unfolding invalid_decision_def receipt_undurable_def verdict_refusal_def Let_def
  by (rule refusal_vocabulary, simp add: spec_owned_def seam_minted_def)+

lemma clear_plan_Inr:
  "clear_plan decide recorded p now b = (Inr d, b') \<longleftrightarrow>
     d = decide p \<and> gd_plan d = normalized_digest p \<and> gd_version d = bd_version b \<and> now < gd_expires d \<and>
     gd_id d \<notin> bd_burned b \<and> gd_verdict d = ''allow'' \<and> recorded d p \<and>
     b' = b\<lparr>bd_burned := insert (gd_id d) (bd_burned b)\<rparr>"
  by (auto simp: clear_plan_def decision_invalidity_def decision_fault_def Let_def split: if_splits option.splits)

lemma clear_plan_Inl: "clear_plan decide recorded p now b = (Inl r, b') \<Longrightarrow> b' = b \<and> in_vocabulary r"
  by (auto simp: clear_plan_def decision_invalidity_def Let_def split: if_splits option.splits)

section \<open>Runs of the boundary\<close>

text \<open>One call: what the guard and the sink answer, the plan and the clock.\<close>

record boundary_call =
  bc_decide :: "execution_plan \<Rightarrow> guard_decision"
  bc_recorded :: "guard_decision \<Rightarrow> execution_plan \<Rightarrow> bool"
  bc_plan :: execution_plan
  bc_now :: datetime

definition boundary_clear ::
  "boundary_call \<Rightarrow> dispatch_boundary \<Rightarrow> (refusal + guard_decision) \<times> dispatch_boundary" where
  "boundary_clear c b = clear_plan (bc_decide c) (bc_recorded c) (bc_plan c) (bc_now c) b"

fun boundary_run ::
  "boundary_call list \<Rightarrow> dispatch_boundary \<Rightarrow> (refusal + guard_decision) list \<times> dispatch_boundary" where
  "boundary_run [] b = ([], b)"
| "boundary_run (c # cs) b =
     (let (x, b') = boundary_clear c b; (xs, b'') = boundary_run cs b' in (x # xs, b''))"

definition cleared :: "(refusal + guard_decision) list \<Rightarrow> guard_decision list" where
  "cleared xs = concat (map (\<lambda>x. case x of Inl _ \<Rightarrow> [] | Inr d \<Rightarrow> [d]) xs)"

lemma cleared_simps [simp]: "cleared [] = []" "cleared (Inl r # xs) = cleared xs" "cleared (Inr d # xs) = d # cleared xs"
  by (simp_all add: cleared_def)

lemma boundary_run_ids:
  "boundary_run cs b = (xs, b') \<Longrightarrow>
     distinct (map gd_id (cleared xs)) \<and> set (map gd_id (cleared xs)) \<inter> bd_burned b = {} \<and>
     bd_burned b' = bd_burned b \<union> set (map gd_id (cleared xs)) \<and> bd_version b' = bd_version b"
proof (induction cs arbitrary: b xs b')
  case Nil
  then show ?case by auto
next
  case (Cons c cs)
  obtain x b1 where step: "boundary_clear c b = (x, b1)" by (cases "boundary_clear c b")
  obtain ys b2 where rest: "boundary_run cs b1 = (ys, b2)" by (cases "boundary_run cs b1")
  have eq: "xs = x # ys" "b' = b2" using Cons.prems step rest by auto
  show ?case
  proof (cases x)
    case (Inl r)
    then have "b1 = b" using step clear_plan_Inl by (fastforce simp: boundary_clear_def)
    then show ?thesis using Cons.IH [OF rest] Inl eq by simp
  next
    case (Inr d)
    then have "gd_id d \<notin> bd_burned b" "b1 = b\<lparr>bd_burned := insert (gd_id d) (bd_burned b)\<rparr>"
      using step by (auto simp: boundary_clear_def clear_plan_Inr)
    then show ?thesis using Cons.IH [OF rest] Inr eq by auto
  qed
qed

text \<open>
  C19. The plan digest binds the plan: two plans with one digest are the same plan, down to the boundary
  between two arguments and to an absent against an empty credential, or their payloads collide
  under SHA-256.
\<close>

theorem plan_digest_identifies:
  "normalized_digest p = normalized_digest q \<longleftrightarrow>
     p = q \<or> plan_payload p \<noteq> plan_payload q \<and> sha256_hex (plan_payload p) = sha256_hex (plan_payload q)"
  using plan_payload_inj [of p q] by (auto simp: normalized_digest_def)

text \<open>What a call may answer under guard version \<open>v\<close>.\<close>

definition authorised_answer :: "int \<Rightarrow> boundary_call \<Rightarrow> refusal + guard_decision \<Rightarrow> bool" where
  "authorised_answer v c x =
     (case x of
        Inl r \<Rightarrow> in_vocabulary r
      | Inr d \<Rightarrow> d = bc_decide c (bc_plan c) \<and> gd_plan d = normalized_digest (bc_plan c) \<and> gd_version d = v \<and>
          bc_now c < gd_expires d \<and> gd_verdict d = ''allow'' \<and> bc_recorded c d (bc_plan c))"

lemma boundary_clear_answer:
  "boundary_clear c b = (x, b') \<Longrightarrow> authorised_answer (bd_version b) c x \<and> bd_version b' = bd_version b"
  by (cases x) (auto simp: authorised_answer_def boundary_clear_def clear_plan_Inr dest: clear_plan_Inl)

lemma boundary_run_answers: "boundary_run cs b = (xs, b') \<Longrightarrow> list_all2 (authorised_answer (bd_version b)) cs xs"
proof (induction cs arbitrary: b xs b')
  case (Cons c cs)
  obtain x b1 where step: "boundary_clear c b = (x, b1)" by (cases "boundary_clear c b")
  obtain ys b2 where rest: "boundary_run cs b1 = (ys, b2)" by (cases "boundary_run cs b1")
  show ?case
    using Cons.prems Cons.IH [OF rest] boundary_clear_answer [OF step] step rest by auto
qed simp

text \<open>
  C20. A grant is burned once. Over any run of a boundary, whatever the guard and the receipt sink answer
  and however they change, the decisions that clear a dispatch have distinct identifiers, none burned
  before; and each cleared call's decision was made about exactly its plan, by the current guard
  version, unexpired, with verdict allow and a durable receipt. Every other call is a refusal in the
  seam's vocabulary that burns nothing.
\<close>

theorem grants_burn_once:
  assumes "boundary_run cs b = (xs, b')"
  shows "distinct (map gd_id (cleared xs)) \<and> set (map gd_id (cleared xs)) \<inter> bd_burned b = {} \<and>
    bd_burned b' = bd_burned b \<union> set (map gd_id (cleared xs)) \<and>
    list_all2 (authorised_answer (bd_version b)) cs xs"
  using boundary_run_ids [OF assms] boundary_run_answers [OF assms] by blast

definition demo_plan :: execution_plan where
  "demo_plan = \<lparr>xp_harness = ''h'', xp_profile = ''p'', xp_composition = ''c'', xp_program = ''run'',
     xp_argv = [''a''], xp_worktree = ''w'', xp_identity = None, xp_home = None\<rparr>"

definition demo_call :: boundary_call where
  "demo_call = \<lparr>bc_decide = (\<lambda>p. \<lparr>gd_id = ''g'', gd_verdict = ''allow'', gd_plan = normalized_digest p,
     gd_version = 1, gd_expires = 9\<rparr>), bc_recorded = (\<lambda>_ _. True), bc_plan = demo_plan, bc_now = 5\<rparr>"

theorem grants_burn_once_witness:
  "\<exists>d r b'. boundary_run [demo_call, demo_call] \<lparr>bd_version = 1, bd_burned = {}\<rparr> = ([Inr d, Inl r], b') \<and>
     bd_burned b' = {''g''} \<and> in_vocabulary r"
proof -
  obtain d r b' where run: "boundary_run [demo_call, demo_call] \<lparr>bd_version = 1, bd_burned = {}\<rparr> = ([Inr d, Inl r], b')"
    and d: "gd_id d = ''g''"
    by (simp add: boundary_clear_def clear_plan_def decision_invalidity_def decision_fault_def demo_call_def Let_def)
  from grants_burn_once [OF run] d have "bd_burned b' = {''g''}" "in_vocabulary r"
    by (auto simp: authorised_answer_def)
  with run show ?thesis by blast
qed

end
