(* ===== verification/SeamPool.thy ===== *)
theory SeamPool
  imports SeamPolicy
begin

text \<open>
  \<open>ctower_runner_sdk/credentials.py\<close> and \<open>rotation.py\<close>: the axes of a pool entry, the projection that
  reads a harness's own record by named fields, the exhaustion refusal, rotation records, the
  classification of a probe on its body, and the hold-one-cycle window. The lemmas show that nothing
  outside the allowlist crosses the projection, and what evidence an availability reading needs.
\<close>

section \<open>Python objects as text\<close>

text \<open>
  A value of a harness's own record: text, integer, boolean, \<open>None\<close>, datetime, or another object, given
  by its \<open>str\<close> and its \<open>repr\<close>.
\<close>

datatype raw_value = RStr string | RInt int | RBool bool | RNone | RTime datetime | ROther string string

definition time_text :: "datetime \<Rightarrow> string" where
  "time_text t = map (\<lambda>c. if c = CHR ''T'' then CHR '' '' else c) (isoformat t)"

definition time_repr :: "datetime \<Rightarrow> string" where
  "time_repr t =
     (let micro = t mod second; s = (t div second) mod 86400;
          (y, m, d) = civil_of_days (t div second div 86400);
          parts = [y, m, d, s div 3600, s div 60 mod 60] @
            (if micro \<noteq> 0 then [s mod 60, micro] else if s mod 60 \<noteq> 0 then [s mod 60] else [])
      in ''datetime.datetime('' @ join '', '' (map str_int parts) @ '', tzinfo=datetime.timezone.utc)'')"

definition raw_str :: "raw_value \<Rightarrow> string" where
  "raw_str v =
     (case v of RStr s \<Rightarrow> s | RInt i \<Rightarrow> str_int i | RBool b \<Rightarrow> if b then ''True'' else ''False''
      | RNone \<Rightarrow> ''None'' | RTime t \<Rightarrow> time_text t | ROther s r \<Rightarrow> s)"

definition raw_repr :: "raw_value \<Rightarrow> string" where
  "raw_repr v =
     (case v of RStr s \<Rightarrow> repr_str s | RTime t \<Rightarrow> time_repr t | ROther s r \<Rightarrow> r | _ \<Rightarrow> raw_str v)"

definition continues :: "char \<Rightarrow> bool" where
  "continues c \<longleftrightarrow> (of_char c :: nat) div 64 = 2"

text \<open>\<open>text[:n]\<close>: the first code points.\<close>

fun take_points :: "nat \<Rightarrow> string \<Rightarrow> string" where
  "take_points 0 s = []"
| "take_points n [] = []"
| "take_points (Suc n) (c # cs) = c # takeWhile continues cs @ take_points n (dropWhile continues cs)"

text \<open>The text after one leading white-space character, by the UTF-8 bytes of the Unicode ones.\<close>

fun after_blank :: "string \<Rightarrow> string option" where
  "after_blank [] = None"
| "after_blank (a # s) =
     (let n = (of_char a :: nat) in
      if 9 \<le> n \<and> n \<le> 13 \<or> 28 \<le> n \<and> n \<le> 32 then Some s
      else case map of_char (take 2 s) of
        [] \<Rightarrow> None
      | [b] \<Rightarrow> if n = 0xC2 \<and> b \<in> {0x85, 0xA0 :: nat} then Some (drop 1 s) else None
      | b # c # _ \<Rightarrow>
          if n = 0xC2 \<and> b \<in> {0x85, 0xA0} then Some (drop 1 s)
          else if n = 0xE1 \<and> b = 0x9A \<and> c = 0x80 then Some (drop 2 s)
          else if n = 0xE2 \<and> b = 0x80 \<and> (0x80 \<le> c \<and> c \<le> 0x8A \<or> c \<in> {0xA8, 0xA9, 0xAF}) then Some (drop 2 s)
          else if n = 0xE2 \<and> b = 0x81 \<and> c = 0x9F then Some (drop 2 s)
          else if n = 0xE3 \<and> b = 0x80 \<and> c = 0x80 then Some (drop 2 s)
          else None)"

lemma after_blank_length: "after_blank s = Some r \<Longrightarrow> length r < length s"
  by (cases s) (auto simp: Let_def split: if_splits list.splits)

function drop_blanks :: "string \<Rightarrow> string" where
  "drop_blanks s = (case after_blank s of None \<Rightarrow> s | Some r \<Rightarrow> drop_blanks r)"
  by pat_completeness auto
termination
  by (relation "measure length") (auto dest: after_blank_length)

declare drop_blanks.simps [simp del]

text \<open>\<open>not text.strip()\<close>\<close>

definition is_blank :: "string \<Rightarrow> bool" where
  "is_blank s \<longleftrightarrow> drop_blanks s = []"

text \<open>
  \<open>int(text)\<close>: blanks around, a sign, digits with single underscores between them, at most 4300 digits.
  The decimal digits outside ASCII, which \<open>int\<close> also reads, are refused here.
\<close>

fun single_underscores :: "string \<Rightarrow> bool" where
  "single_underscores (a # b # s) \<longleftrightarrow> \<not> (a = CHR ''_'' \<and> b = CHR ''_'') \<and> single_underscores (b # s)"
| "single_underscores _ \<longleftrightarrow> True"

definition int_of_text :: "string \<Rightarrow> int py" where
  "int_of_text s =
     (let t = drop_blanks s;
          negative = (take 1 t = ''-'');
          u = (if take 1 t = ''-'' \<or> take 1 t = ''+'' then drop 1 t else t);
          ds = takeWhile (\<lambda>c. is_digit c \<or> c = CHR ''_'') u;
          digits = filter is_digit ds in
      if ds = [] \<or> hd ds = CHR ''_'' \<or> last ds = CHR ''_'' \<or> \<not> single_underscores ds \<or>
         \<not> is_blank (drop (length ds) u)
      then Inl (ValueError (''invalid literal for int() with base 10: '' @ take_points 200 (repr_str s)))
      else if length digits > 4300
      then Inl (ValueError (''Exceeds the limit (4300 digits) for integer string conversion: value has '' @
        str_nat (length digits) @ '' digits; use sys.set_int_max_str_digits() to increase the limit''))
      else Inr (if negative then - int (read_nat digits) else int (read_nat digits)))"

section \<open>Pool entries\<close>

definition lease_schema_ref :: string where
  "lease_schema_ref = ''ctower.credential-lease/v1''"

definition entry_allowlist :: "string list" where
  "entry_allowlist =
     [''auth_state'', ''entry_label'', ''last_status_observed'', ''provider_key'', ''quota_reset_at'',
      ''quota_state'', ''reach_state'', ''registration_state'', ''request_count'', ''secret_fingerprint'',
      ''subscription_identity'']"

record entry_state =
  en_provider :: string
  en_identity :: "string option"
  en_label :: "string option"
  en_registration :: string
  en_auth :: string
  en_quota :: string
  en_reset :: "datetime option"
  en_reach :: string
  en_requests :: int
  en_last :: "string option"
  en_secret :: "string option"

definition clear_values :: "string list" where
  "clear_values = [''enrolled'', ''healthy'', ''available'', ''ok'']"

definition blocking_axes :: "entry_state \<Rightarrow> (string \<times> string) list" where
  "blocking_axes e =
     filter (\<lambda>(axis, v). v \<notin> set clear_values)
       [(''registration'', en_registration e), (''auth'', en_auth e), (''quota'', en_quota e),
        (''reach'', en_reach e)]"

definition entry_payload :: "entry_state \<Rightarrow> json" where
  "entry_payload e = JObj
     [(''auth_state'', JStr (en_auth e)), (''entry_label'', json_opt (en_label e)),
      (''last_status_observed'', json_opt (en_last e)), (''provider_key'', JStr (en_provider e)),
      (''quota_reset_at'', json_opt (map_option isoformat (en_reset e))), (''quota_state'', JStr (en_quota e)),
      (''reach_state'', JStr (en_reach e)), (''registration_state'', JStr (en_registration e)),
      (''request_count'', JInt (en_requests e)), (''secret_fingerprint'', json_opt (en_secret e)),
      (''subscription_identity'', json_opt (en_identity e))]"

record credential_lease =
  le_id :: uuid
  le_harness :: string
  le_profile :: string
  le_model :: string
  le_entry :: entry_state
  le_acquired :: datetime

definition lease_payload :: "credential_lease \<Rightarrow> json" where
  "lease_payload l = JObj
     [(''acquired_at'', JStr (isoformat (le_acquired l))), (''entry_state'', entry_payload (le_entry l)),
      (''harness_key'', JStr (le_harness l)), (''lease_id'', JStr (uuid_str (le_id l))),
      (''model_ref'', JStr (le_model l)), (''profile_key'', JStr (le_profile l)),
      (''schema'', JStr lease_schema_ref)]"

definition selectable :: "entry_state \<Rightarrow> bool" where
  "selectable e \<longleftrightarrow> blocking_axes e = []"

definition optional_text :: "raw_value option \<Rightarrow> string option" where
  "optional_text v = (case v of Some (RStr s) \<Rightarrow> Some s | _ \<Rightarrow> None)"

definition read_literal :: "raw_value \<Rightarrow> string list \<Rightarrow> string py" where
  "read_literal v allowed =
     (case v of
        RStr s \<Rightarrow> if s \<in> set allowed then Inr s
                  else Inl (ValueError (''pool entry axis is outside the contract: '' @ raw_repr v))
      | _ \<Rightarrow> Inl (ValueError (''pool entry axis is outside the contract: '' @ raw_repr v)))"

definition raw_item :: "(string \<times> raw_value) list \<Rightarrow> string \<Rightarrow> raw_value py" where
  "raw_item raw k = (case map_of raw k of Some v \<Rightarrow> Inr v | None \<Rightarrow> Inl (KeyError k))"

definition registration_values :: "string list" where "registration_values = [''enrolled'', ''discovered'']"
definition auth_values :: "string list" where "auth_values = [''healthy'', ''lineage-dead'', ''chain-burned'']"
definition quota_values :: "string list" where
  "quota_values = [''available'', ''capped'', ''unfunded'', ''unknown'']"
definition reach_values :: "string list" where "reach_values = [''ok'', ''edge-challenged'', ''unknown'']"

definition project_entry :: "(string \<times> raw_value) list \<Rightarrow> entry_state py" where
  "project_entry raw =
     bindE (raw_item raw ''provider_key'') (\<lambda>provider.
     bindE (bindE (raw_item raw ''registration_state'') (\<lambda>v. read_literal v registration_values)) (\<lambda>registration.
     bindE (bindE (raw_item raw ''auth_state'') (\<lambda>v. read_literal v auth_values)) (\<lambda>auth.
     bindE (bindE (raw_item raw ''quota_state'') (\<lambda>v. read_literal v quota_values)) (\<lambda>quota.
     bindE (bindE (raw_item raw ''reach_state'') (\<lambda>v. read_literal v reach_values)) (\<lambda>reach.
     bindE (int_of_text (raw_str (case map_of raw ''request_count'' of None \<Rightarrow> RInt 0 | Some v \<Rightarrow> v))) (\<lambda>requests.
       Inr \<lparr>en_provider = raw_str provider,
         en_identity = optional_text (map_of raw ''subscription_identity''),
         en_label = optional_text (map_of raw ''entry_label''),
         en_registration = registration, en_auth = auth, en_quota = quota,
         en_reset = (case map_of raw ''quota_reset_at'' of Some (RTime t) \<Rightarrow> Some t | _ \<Rightarrow> None),
         en_reach = reach, en_requests = requests,
         en_last = optional_text (map_of raw ''last_status_observed''),
         en_secret = optional_text (map_of raw ''secret_fingerprint'')\<rparr>))))))"

section \<open>Exhaustion\<close>

definition meanings :: "((string \<times> string) \<times> (string \<times> string)) list" where
  "meanings =
     [((''auth'', ''lineage-dead''),
        (''this profile's grant expired; the shell may still say logged in'',
         ''re-mint this profile's own device flow '' @ em_dash @ '' never copy another profile's file'')),
      ((''auth'', ''chain-burned''),
        (''a copy replayed a single-use refresh token and the provider revoked the chain'',
         ''fresh mint, never a copy'')),
      ((''quota'', ''capped''),
        (''the account passed login and refused work; quota is spent for this window'',
         ''wait for the provider's own reset '' @ em_dash @ '' no ceremony adds quota'')),
      ((''quota'', ''unfunded''),
        (''the prepaid balance is exhausted; money is a liveness condition'',
         ''operator refill '' @ em_dash @ '' ctower can request it and never perform it'')),
      ((''quota'', ''unknown''),
        (''no trustworthy observation of this window; unknown is not available'',
         ''run a real probe against the model the seats run'')),
      ((''reach'', ''edge-challenged''),
        (''the provider's edge is challenging our egress; auth and quota are both fine'',
         ''infra-plane only '' @ em_dash @ '' client fingerprint, headers, or egress. Never a mint or rotation'')),
      ((''reach'', ''unknown''),
        (''reachability was not observed'',
         ''run a real probe against the model the seats run'')),
      ((''registration'', ''discovered''),
        (''this identity is reachable and was never enrolled'',
         ''operator keep-or-evict; reaching a credential is not entitlement to it''))]"

definition entry_subject :: "entry_state \<Rightarrow> string" where
  "entry_subject e = (case en_identity e of Some (c # cs) \<Rightarrow> c # cs | _ \<Rightarrow> en_provider e @ '' entry'')"

text \<open>The row, the meaning and the action of one blocking axis.\<close>

definition axis_row :: "entry_state \<Rightarrow> string \<times> string \<Rightarrow> ((string \<times> string) \<times> string \<times> string) py" where
  "axis_row e av =
     (case map_of meanings av of
        None \<Rightarrow> Inl (KeyError (''('' @ repr_str (fst av) @ '', '' @ repr_str (snd av) @ '')''))
      | Some (meaning, act) \<Rightarrow>
          Inr ((entry_subject e @ '' '' @ fst av, snd av), entry_subject e @ '': '' @ meaning,
               entry_subject e @ '': '' @ act))"

definition earliest_reset :: "entry_state list \<Rightarrow> datetime option" where
  "earliest_reset es =
     (case concat (map (\<lambda>e. case en_reset e of None \<Rightarrow> [] | Some t \<Rightarrow> [t]) es) of
        [] \<Rightarrow> None | t # ts \<Rightarrow> Some (foldl min t ts))"

definition or_text :: "string \<Rightarrow> string \<Rightarrow> string" where
  "or_text s d = (if s = [] then d else s)"

definition exhaustion_refusal :: "entry_state list \<Rightarrow> refusal py" where
  "exhaustion_refusal es =
     bindE (mapE (\<lambda>e. mapE (axis_row e) (blocking_axes e)) es) (\<lambda>groups.
       let rows = concat groups in
       Inr (refusal ''credential-pool-exhausted''
         (str_nat (length es) @ '' entries observed, none selectable on all three axes'')
         (or_text (join '' | '' (map (fst \<circ> snd) rows)) ''no entry is enrolled for this pool'')
         (or_text (join '' | '' (map (snd \<circ> snd) rows)) ''enrol an entry through the operator's mint ceremony'')
         (map fst rows @ [(''earliest_known_reset'',
           case earliest_reset es of None \<Rightarrow> ''unknown'' | Some t \<Rightarrow> isoformat t)])))"

section \<open>Rotation\<close>

record rotation_event =
  ro_reason :: string
  ro_layer :: string
  ro_hook :: string
  ro_identity :: "string option"
  ro_completed :: datetime
  ro_rereads :: int

definition rotation_payload :: "rotation_event \<Rightarrow> json" where
  "rotation_payload r = JObj
     [(''completed_at'', JStr (isoformat (ro_completed r))), (''context_rereads'', JInt (ro_rereads r)),
      (''entry_identity'', json_opt (ro_identity r)), (''hook'', JStr (ro_hook r)),
      (''layer'', JStr (ro_layer r)), (''reason'', JStr (ro_reason r))]"

definition unreachable_entry :: "entry_state \<Rightarrow> refusal" where
  "unreachable_entry e =
     refusal ''rotation-refused-unreachable''
    (entry_subject e @ '' is edge-challenged, not credential-faulted'')
    ''every entry behind this egress is equally unreachable''
    ''escalate on the infra plane and fall back cross-provider; do not rotate''
    ([(''reach'', en_reach e)])"

definition hook_pending :: "string \<Rightarrow> refusal" where
  "hook_pending hook =
     refusal ''rotation-incomplete''
    (''the '' @ hook @ '' invalidation hook has not completed'')
    ''any state read now comes from a cache the rotation already invalidated''
    (''complete '' @ hook @ '', then re-observe; the pre-hook observation is discarded'')
    ([(''hook'', hook)])"

definition record_rotation ::
  "string \<Rightarrow> string \<Rightarrow> string \<Rightarrow> bool \<Rightarrow> entry_state \<Rightarrow> datetime \<Rightarrow> refusal + rotation_event" where
  "record_rotation reason layer hook completed e at =
     (if en_reach e = ''edge-challenged'' then Inl (unreachable_entry e)
      else if \<not> completed then Inl (hook_pending hook)
      else Inr \<lparr>ro_reason = reason, ro_layer = layer, ro_hook = hook, ro_identity = en_identity e,
        ro_completed = at, ro_rereads = 1\<rparr>)"

section \<open>Probes\<close>

record probe_response =
  pb_status :: int
  pb_body :: string
  pb_model :: string
  pb_drawn :: bool
  pb_after :: bool

record probe_reading =
  pg_auth :: string
  pg_quota :: string
  pg_reach :: string
  pg_basis :: string

definition reading_unknown :: "probe_reading \<Rightarrow> bool" where
  "reading_unknown r \<longleftrightarrow> pg_auth r = ''unknown'' \<and> pg_quota r = ''unknown'' \<and> pg_reach r = ''unknown''"

definition challenge_markers :: "string list" where
  "challenge_markers = [''cf_chl'', ''challenge-platform'', ''Just a moment'', ''Attention Required'']"

definition reading :: "string \<Rightarrow> string \<Rightarrow> string \<Rightarrow> string \<Rightarrow> probe_reading" where
  "reading auth quota reach basis = \<lparr>pg_auth = auth, pg_quota = quota, pg_reach = reach, pg_basis = basis\<rparr>"

definition status_reading :: "int \<Rightarrow> string \<Rightarrow> probe_reading" where
  "status_reading status body =
     (if status = 200 then reading ''healthy'' ''available'' ''ok'' ''served content''
      else if status = 401 then reading ''lineage-dead'' ''unknown'' ''ok'' ''refused the credential''
      else if status = 402 then reading ''healthy'' ''unfunded'' ''ok'' ''the prepaid balance is spent''
      else if status = 429 then reading ''healthy'' ''capped'' ''ok'' ''the window is spent, not the grant''
      else reading ''unknown'' ''unknown'' ''unknown'' (''unclassified body for '' @ take_points 32 body))"

definition body_reading :: "probe_response \<Rightarrow> probe_reading" where
  "body_reading r =
     (if \<exists>m \<in> set challenge_markers. contains m (pb_body r)
      then reading ''unknown'' ''unknown'' ''edge-challenged''
        ''the response body is a challenge page, so nothing about the credential is known''
      else if pb_status r = 200 \<and> is_blank (pb_body r)
      then reading ''unknown'' ''unknown'' ''unknown'' ''a 200 with empty content is a hang, never capacity''
      else status_reading (pb_status r) (pb_body r))"

definition probe_invalidity :: "probe_shape \<Rightarrow> probe_response \<Rightarrow> string option" where
  "probe_invalidity p r =
     (if \<not> pb_drawn r then Some ''the probe was not drawn from this pool's own entries''
      else if \<not> pb_after r then Some ''the probe was taken before the cache-invalidation hook completed''
      else if ps_workload p \<noteq> ''representative''
      then Some (''a '' @ ps_workload p @ '' probe cannot report a real window'')
      else if \<not> probe_measures p (pb_model r) then Some ''the probe measured something other than the seats' rung''
      else None)"

definition classifier_refused :: "probe_shape \<Rightarrow> refusal" where
  "classifier_refused p =
     refusal ''pool-probe-classifier-refused''
    ''the declared classifier reads the status line only''
    ''401, 402, 403, and 429 mean four different things and one word loses all four''
    ''classify on the response body, or report unknown''
    ([(''classified_on'', ps_classified p)])"

definition classify_probe :: "probe_shape \<Rightarrow> probe_response \<Rightarrow> refusal + probe_reading" where
  "classify_probe p r =
     (if ps_classified p = ''status_line'' then Inl (classifier_refused p)
      else case probe_invalidity p r of
        Some basis \<Rightarrow> Inr (reading ''unknown'' ''unknown'' ''unknown'' basis)
      | None \<Rightarrow> Inr (body_reading r))"

section \<open>The hold-one-cycle window\<close>

record flap_window =
  fw_available :: int
  fw_required :: int

definition flap_observe :: "bool \<Rightarrow> flap_window \<Rightarrow> flap_window" where
  "flap_observe available w = \<lparr>fw_available = (if available then fw_available w + 1 else 0), fw_required = fw_required w\<rparr>"

definition flap_selectable :: "flap_window \<Rightarrow> bool" where
  "flap_selectable w \<longleftrightarrow> fw_available w > fw_required w"

lemma pool_vocabulary [simp]:
  "in_vocabulary (unreachable_entry e)" "in_vocabulary (hook_pending hook)" "in_vocabulary (classifier_refused p)"
  unfolding unreachable_entry_def hook_pending_def classifier_refused_def
  by (rule refusal_vocabulary, simp add: spec_owned_def seam_minted_def)+

section \<open>Properties of the pool\<close>

text \<open>The values the contract admits on each axis.\<close>

definition entry_contract :: "entry_state \<Rightarrow> bool" where
  "entry_contract e \<longleftrightarrow>
     en_registration e \<in> set registration_values \<and> en_auth e \<in> set auth_values \<and>
     en_quota e \<in> set quota_values \<and> en_reach e \<in> set reach_values"

lemma read_literal_Inr: "read_literal v allowed = Inr s \<longleftrightarrow> v = RStr s \<and> s \<in> set allowed"
  by (auto simp: read_literal_def split: raw_value.splits)

lemma project_entry_contract: "project_entry raw = Inr e \<Longrightarrow> entry_contract e"
  by (auto simp: project_entry_def entry_contract_def bindE_Inr_iff read_literal_Inr)

lemma project_entry_cong:
  assumes "\<forall>k \<in> set entry_allowlist. map_of raw k = map_of raw' k"
  shows "project_entry raw = project_entry raw'"
proof -
  have "map_of raw k = map_of raw' k" if "k \<in> {''provider_key'', ''registration_state'', ''auth_state'', ''quota_state'',
      ''reach_state'', ''request_count'', ''subscription_identity'', ''entry_label'', ''quota_reset_at'',
      ''last_status_observed'', ''secret_fingerprint''}" for k
    using assms that by (simp only: entry_allowlist_def) auto
  then show ?thesis unfolding project_entry_def raw_item_def by simp
qed

lemma axis_clear:
  "v \<in> set registration_values \<Longrightarrow> v \<in> set clear_values \<longleftrightarrow> v = ''enrolled''"
  "v \<in> set auth_values \<Longrightarrow> v \<in> set clear_values \<longleftrightarrow> v = ''healthy''"
  "v \<in> set quota_values \<Longrightarrow> v \<in> set clear_values \<longleftrightarrow> v = ''available''"
  "v \<in> set reach_values \<Longrightarrow> v \<in> set clear_values \<longleftrightarrow> v = ''ok''"
  by (auto simp: registration_values_def auth_values_def quota_values_def reach_values_def clear_values_def)

lemma axis_meaning:
  "v \<in> set registration_values \<Longrightarrow> v \<notin> set clear_values \<Longrightarrow> map_of meanings (''registration'', v) \<noteq> None"
  "v \<in> set auth_values \<Longrightarrow> v \<notin> set clear_values \<Longrightarrow> map_of meanings (''auth'', v) \<noteq> None"
  "v \<in> set quota_values \<Longrightarrow> v \<notin> set clear_values \<Longrightarrow> map_of meanings (''quota'', v) \<noteq> None"
  "v \<in> set reach_values \<Longrightarrow> v \<notin> set clear_values \<Longrightarrow> map_of meanings (''reach'', v) \<noteq> None"
  by (auto simp: registration_values_def auth_values_def quota_values_def reach_values_def clear_values_def
      meanings_def)

lemma selectable_iff:
  "selectable e \<longleftrightarrow> {en_registration e, en_auth e, en_quota e, en_reach e} \<subseteq> set clear_values"
  by (auto simp: selectable_def blocking_axes_def)

text \<open>
  Nothing outside the allowlist crosses the projection: the entry read from a record depends only on
  its allowlisted names, whatever credential values sit beside them. A record with a value outside
  the contract of an axis is refused, so every projected entry is inside it, and it is selectable exactly when
  it is enrolled, healthy, available and reachable.
\<close>

theorem projection_reads_allowlist_only:
  "((\<forall>k \<in> set entry_allowlist. map_of raw k = map_of raw' k) \<longrightarrow> project_entry raw = project_entry raw') \<and>
   (project_entry raw = Inr e \<longrightarrow> entry_contract e \<and>
      (selectable e \<longleftrightarrow> en_registration e = ''enrolled'' \<and> en_auth e = ''healthy'' \<and>
         en_quota e = ''available'' \<and> en_reach e = ''ok''))"
proof (intro conjI impI)
  assume "\<forall>k \<in> set entry_allowlist. map_of raw k = map_of raw' k"
  then show "project_entry raw = project_entry raw'" by (rule project_entry_cong)
next
  assume e: "project_entry raw = Inr e"
  then show c: "entry_contract e" by (rule project_entry_contract)
  show "selectable e \<longleftrightarrow> en_registration e = ''enrolled'' \<and> en_auth e = ''healthy'' \<and>
         en_quota e = ''available'' \<and> en_reach e = ''ok''"
    using c unfolding selectable_iff entry_contract_def by (simp add: axis_clear)
qed

definition demo_record :: "(string \<times> raw_value) list" where
  "demo_record =
     [(''provider_key'', RStr ''p''), (''registration_state'', RStr ''enrolled''), (''auth_state'', RStr ''healthy''),
      (''quota_state'', RStr ''available''), (''reach_state'', RStr ''ok'')]"

theorem projection_reads_allowlist_only_witness:
  "project_entry (demo_record @ [(''access_token'', RStr ''t'')]) = project_entry demo_record"
proof -
  have "\<forall>k \<in> set entry_allowlist. map_of (demo_record @ [(''access_token'', RStr ''t'')]) k = map_of demo_record k"
    by (simp add: entry_allowlist_def demo_record_def)
  then show ?thesis using projection_reads_allowlist_only by blast
qed

text \<open>Inside the contract every blocking axis has a meaning, so exhaustion never raises.\<close>

lemma blocking_axis_meaning:
  assumes "entry_contract e" and "av \<in> set (blocking_axes e)"
  shows "\<exists>m a. map_of meanings av = Some (m, a)"
proof -
  have "av = (''registration'', en_registration e) \<or> av = (''auth'', en_auth e) \<or> av = (''quota'', en_quota e) \<or>
      av = (''reach'', en_reach e)" and "snd av \<notin> set clear_values"
    using assms(2) by (auto simp: blocking_axes_def split: if_splits)
  then have "map_of meanings av \<noteq> None"
    using assms(1) axis_meaning unfolding entry_contract_def by (metis snd_conv)
  then show ?thesis by auto
qed

lemma axis_row_Inr:
  assumes "entry_contract e" and "av \<in> set (blocking_axes e)"
  shows "\<exists>m a. axis_row e av = Inr ((entry_subject e @ '' '' @ fst av, snd av), m, a)"
  using blocking_axis_meaning [OF assms] by (auto simp: axis_row_def)

lemma axis_rows_Inr:
  assumes "entry_contract e" and "set avs \<subseteq> set (blocking_axes e)"
  shows "\<exists>rows. mapE (axis_row e) avs = Inr rows \<and>
    map fst rows = map (\<lambda>av. (entry_subject e @ '' '' @ fst av, snd av)) avs"
  using assms(2)
proof (induction avs)
  case (Cons av avs)
  then obtain rows where "mapE (axis_row e) avs = Inr rows"
    "map fst rows = map (\<lambda>av. (entry_subject e @ '' '' @ fst av, snd av)) avs" by auto
  with axis_row_Inr [OF assms(1), of av] Cons.prems show ?case by auto
qed simp

definition blocked_rows :: "entry_state list \<Rightarrow> (string \<times> string) list" where
  "blocked_rows es = concat (map (\<lambda>e. map (\<lambda>av. (entry_subject e @ '' '' @ fst av, snd av)) (blocking_axes e)) es)"

lemma all_rows_Inr:
  assumes "\<forall>e \<in> set es. entry_contract e"
  shows "\<exists>groups. mapE (\<lambda>e. mapE (axis_row e) (blocking_axes e)) es = Inr groups \<and>
    map fst (concat groups) = blocked_rows es"
  using assms
proof (induction es)
  case (Cons e es)
  then obtain groups where "mapE (\<lambda>e. mapE (axis_row e) (blocking_axes e)) es = Inr groups"
    "map fst (concat groups) = blocked_rows es" by auto
  moreover obtain rows where "mapE (axis_row e) (blocking_axes e) = Inr rows"
    "map fst rows = map (\<lambda>av. (entry_subject e @ '' '' @ fst av, snd av)) (blocking_axes e)"
    using axis_rows_Inr [of e "blocking_axes e"] Cons.prems by auto
  ultimately show ?case by (simp add: blocked_rows_def)
qed (simp add: blocked_rows_def)

lemma exhaustion_exact:
  assumes "\<forall>e \<in> set es. entry_contract e"
  shows "\<exists>r. exhaustion_refusal es = Inr r \<and> in_vocabulary r \<and> rf_name r = ''credential-pool-exhausted'' \<and>
    rf_detail r = blocked_rows es @ [(''earliest_known_reset'',
      case earliest_reset es of None \<Rightarrow> ''unknown'' | Some t \<Rightarrow> isoformat t)]"
proof -
  obtain groups where groups: "mapE (\<lambda>e. mapE (axis_row e) (blocking_axes e)) es = Inr groups"
    "map fst (concat groups) = blocked_rows es"
    using all_rows_Inr [OF assms] by blast
  have "in_vocabulary (refusal ''credential-pool-exhausted'' ob m a d)" for ob m a d
    by (rule refusal_vocabulary) (simp add: spec_owned_def)
  then show ?thesis
    using groups by (auto simp: exhaustion_refusal_def Let_def)
qed

lemma foldl_min: "foldl min t ts \<in> set (t # ts) \<and> (\<forall>u \<in> set (t # ts). foldl min t ts \<le> u)" for t :: datetime
proof (induction ts arbitrary: t)
  case (Cons u ts)
  from Cons [of "min t u"] show ?case by (auto simp: min_def split: if_splits)
qed simp

lemma earliest_reset_exact:
  "earliest_reset es = Some t \<longleftrightarrow> (\<exists>e \<in> set es. en_reset e = Some t) \<and> (\<forall>e \<in> set es. \<forall>u. en_reset e = Some u \<longrightarrow> t \<le> u)"
proof -
  let ?ts = "concat (map (\<lambda>e. case en_reset e of None \<Rightarrow> [] | Some t \<Rightarrow> [t]) es)"
  have set: "set ?ts = {t. \<exists>e \<in> set es. en_reset e = Some t}" by (force split: option.splits)
  have "earliest_reset es = Some t \<longleftrightarrow> t \<in> set ?ts \<and> (\<forall>u \<in> set ?ts. t \<le> u)"
  proof (cases ?ts)
    case (Cons v vs)
    then have e: "earliest_reset es = Some (foldl min v vs)" unfolding earliest_reset_def by simp
    show ?thesis unfolding e Cons using foldl_min [of v vs] by (auto intro: antisym)
  next
    case Nil
    have "earliest_reset es = None" unfolding earliest_reset_def Nil by simp
    then show ?thesis unfolding Nil by simp
  qed
  then show ?thesis unfolding set by blast
qed

text \<open>
  A probe is evidence only under its conditions. It reports a window available only if it was drawn from
  the pool's own entries, after invalidation, with the representative workload, for the model the
  declared probe measures, and was served non-blank content with no challenge marker; a challenge page
  says nothing about the credential; a classifier that reads only the status line is refused; and no
  invalid probe reports anything but unknown on every axis.
\<close>

theorem probe_evidence_exact:
  "(\<forall>g. classify_probe p r = Inr g \<longrightarrow> ps_classified p \<noteq> ''status_line'' \<and>
      (pg_quota g = ''available'' \<longleftrightarrow> probe_invalidity p r = None \<and> pb_status r = 200 \<and> \<not> is_blank (pb_body r) \<and>
         (\<forall>m \<in> set challenge_markers. \<not> contains m (pb_body r))) \<and>
      (probe_invalidity p r \<noteq> None \<longrightarrow> reading_unknown g) \<and>
      (pg_reach g = ''edge-challenged'' \<longrightarrow> pg_auth g = ''unknown'' \<and> pg_quota g = ''unknown'')) \<and>
   (\<forall>x. classify_probe p r = Inl x \<longleftrightarrow> ps_classified p = ''status_line'' \<and> x = classifier_refused p) \<and>
   (probe_invalidity p r = None \<longleftrightarrow> pb_drawn r \<and> pb_after r \<and> ps_workload p = ''representative'' \<and> pb_model r = ps_model p)"
proof -
  have invalid: "probe_invalidity p r = None \<longleftrightarrow>
      pb_drawn r \<and> pb_after r \<and> ps_workload p = ''representative'' \<and> pb_model r = ps_model p"
    by (auto simp: probe_invalidity_def probe_measures_def)
  have sel: "pg_auth (reading a q h b) = a" "pg_quota (reading a q h b) = q" "pg_reach (reading a q h b) = h" for a q h b
    by (simp_all add: reading_def)
  have status: "pg_quota (status_reading s b) = ''available'' \<longleftrightarrow> s = 200" "pg_reach (status_reading s b) \<noteq> ''edge-challenged''" for s b
    by (simp_all add: status_reading_def sel)
  have body: "pg_quota (body_reading r) = ''available'' \<longleftrightarrow> pb_status r = 200 \<and> \<not> is_blank (pb_body r) \<and>
      (\<forall>m \<in> set challenge_markers. \<not> contains m (pb_body r))"
    "pg_reach (body_reading r) = ''edge-challenged'' \<Longrightarrow>
      pg_auth (body_reading r) = ''unknown'' \<and> pg_quota (body_reading r) = ''unknown''"
    by (auto simp: body_reading_def sel status split: if_splits)
  show ?thesis
    using invalid body
    by (auto simp: classify_probe_def sel reading_unknown_def split: option.splits if_splits)
qed

theorem probe_evidence_exact_witness:
  "\<exists>g. classify_probe \<lparr>ps_product = ''x'', ps_endpoint = ''e'', ps_model = ''m'', ps_workload = ''single_token'',
       ps_classified = ''response_body''\<rparr>
     \<lparr>pb_status = 200, pb_body = ''ok'', pb_model = ''m'', pb_drawn = True, pb_after = True\<rparr> = Inr g \<and> reading_unknown g"
    (is "\<exists>g. classify_probe ?p ?r = _ \<and> _")
proof -
  obtain g where g: "classify_probe ?p ?r = Inr g"
    by (simp add: classify_probe_def probe_invalidity_def)
  moreover have "probe_invalidity ?p ?r \<noteq> None" by (simp add: probe_invalidity_def)
  ultimately show ?thesis using probe_evidence_exact by blast
qed

text \<open>
  A window that comes back holds its cycles: after any observations of a fresh window it is selectable
  exactly when the last observations, one more than the required cycles, were all available. One
  unavailable observation makes it start over.
\<close>

definition flap_run :: "bool list \<Rightarrow> flap_window \<Rightarrow> flap_window" where
  "flap_run obs w = foldl (\<lambda>w b. flap_observe b w) w obs"

lemma flap_run_streak:
  "fw_available (flap_run obs \<lparr>fw_available = 0, fw_required = n\<rparr>) = int (length (takeWhile id (rev obs))) \<and>
     fw_required (flap_run obs \<lparr>fw_available = 0, fw_required = n\<rparr>) = n"
  by (induction obs rule: rev_induct) (auto simp: flap_run_def flap_observe_def)

lemma streak_iff: "n < length (takeWhile id bs) \<longleftrightarrow> n < length bs \<and> (\<forall>i \<le> n. bs ! i)"
proof (induction bs arbitrary: n)
  case (Cons b bs)
  show ?case
  proof (cases n)
    case 0
    then show ?thesis by auto
  next
    case (Suc m)
    then show ?thesis using Cons [of m] by (auto simp: nth_Cons split: nat.splits)
  qed
qed simp

theorem flap_window_holds:
  "flap_selectable (flap_run obs \<lparr>fw_available = 0, fw_required = int n\<rparr>) \<longleftrightarrow>
     n < length obs \<and> (\<forall>i \<le> n. rev obs ! i)"
  using flap_run_streak [of obs "int n"] streak_iff [of n "rev obs"] by (simp add: flap_selectable_def)

theorem flap_window_holds_witness:
  "\<not> flap_selectable (flap_run [True, False, True] \<lparr>fw_available = 0, fw_required = int 1\<rparr>)"
  using flap_window_holds [of "[True, False, True]" 1] by (auto simp: nth_Cons)

end
