(* ===== verification/SeamFake.thy ===== *)
theory SeamFake
  imports SeamGuard SeamPool Machine
begin

text \<open>
  \<open>ctower_runner_sdk/fake.py\<close> with the two Protocols it implements, \<open>CredentialPool\<close> of \<open>credentials.py\<close>
  and \<open>HarnessBinding\<close> of \<open>seam.py\<close>, as locales: what a client of a pool may rely on, and that the
  durable facts of a binding are exactly those its successful calls file. Both are interpreted on
  the fault-injection fake. The clock is its sequence of readings \<open>clk 0\<close>, \<open>clk 1\<close>, ... within a call.
\<close>

section \<open>Interfaces\<close>

locale credential_pool =
  fixes acquire :: "string \<Rightarrow> string \<Rightarrow> datetime \<Rightarrow> 'p \<Rightarrow> (refusal + credential_lease) py"
    and limits :: "string option \<Rightarrow> 'p \<Rightarrow> entry_state list"
    and pool_ok :: "'p \<Rightarrow> bool"
  assumes acquire_total: "pool_ok p \<Longrightarrow> \<exists>x. acquire m t now p = Inr x"
    and acquire_lease: "pool_ok p \<Longrightarrow> acquire m t now p = Inr (Inr l) \<Longrightarrow>
      le_entry l \<in> set (limits None p) \<and> selectable (le_entry l) \<and> le_model l = m \<and> le_profile l = t"
    and acquire_refusal: "pool_ok p \<Longrightarrow> acquire m t now p = Inr (Inl r) \<Longrightarrow>
      rf_name r = ''credential-pool-exhausted'' \<and> in_vocabulary r \<and> (\<forall>e \<in> set (limits None p). \<not> selectable e)"
begin

lemma acquire_iff:
  assumes "pool_ok p"
  shows "(\<exists>l. acquire m t now p = Inr (Inr l)) \<longleftrightarrow> (\<exists>e \<in> set (limits None p). selectable e)"
proof -
  obtain x where x: "acquire m t now p = Inr x" using acquire_total assms by blast
  show ?thesis
  proof (cases x)
    case (Inl r)
    then show ?thesis using acquire_refusal [OF assms] x by fastforce
  next
    case (Inr l)
    then show ?thesis using acquire_lease [OF assms] x by blast
  qed
qed

text \<open>Acquiring twice from an unchanged pool never refuses after a lease.\<close>

lemma acquire_stable:
  "pool_ok p \<Longrightarrow> acquire m t now p = Inr (Inr l) \<Longrightarrow> \<exists>l'. acquire m' t' now' p = Inr (Inr l')"
  using acquire_iff acquire_lease by blast

end

locale harness_binding =
  fixes step :: "'c \<Rightarrow> 's \<Rightarrow> 's"
    and filed :: "'c \<Rightarrow> 's \<Rightarrow> string option"
    and mutations :: "'s \<Rightarrow> string list"
    and fixed :: "'s \<Rightarrow> 'f"
  assumes step_files: "mutations (step c s) = mutations s @ (case filed c s of None \<Rightarrow> [] | Some m \<Rightarrow> [m])"
    and step_fixed: "fixed (step c s) = fixed s"
begin

fun trace :: "'c list \<Rightarrow> 's \<Rightarrow> string option list" where
  "trace [] s = []"
| "trace (c # cs) s = filed c s # trace cs (step c s)"

lemma run_files:
  "mutations (foldl (\<lambda>s c. step c s) s cs) = mutations s @ concat (map (\<lambda>x. case x of None \<Rightarrow> [] | Some m \<Rightarrow> [m]) (trace cs s))"
  by (induction cs arbitrary: s) (simp_all add: step_files)

lemma run_fixed: "fixed (foldl (\<lambda>s c. step c s) s cs) = fixed s"
  by (induction cs arbitrary: s) (simp_all add: step_fixed)

end

section \<open>The fake substrate\<close>

definition faults :: "string list" where
  "faults =
     [''unacknowledged_dispatch'', ''queued_composer'', ''collapsed_paste'', ''cap_menu'', ''context_saturation'',
      ''model_substitution'', ''dead_auth'', ''pane_loss'']"

definition unacknowledged_faults :: "string list" where
  "unacknowledged_faults = [''unacknowledged_dispatch'', ''queued_composer'', ''collapsed_paste'']"

definition fake_probe :: string where "fake_probe = ''in-process-fake''"

definition unacknowledged :: "string \<Rightarrow> string \<Rightarrow> refusal" where
  "unacknowledged fault evidence =
     refusal ''harness-dispatch-unacknowledged''
    evidence
    ''the brief was delivered and never acknowledged, which is not a dispatch''
    ''clear the composer and re-deliver; no session-start fact was recorded''
    ([(''fault'', fault)])"

record fake_substrate =
  fs_fault :: "string option"
  fs_dirty :: "string list"
  fs_pushed :: bool
  fs_head :: string
  fs_status :: bool
  fs_sole :: bool
  fs_requested :: string
  fs_served :: string
  fs_context :: int
  fs_mutations :: "string list"

record fake_binding =
  fb_spec :: harness_spec
  fb_boundary :: dispatch_boundary
  fb_substrate :: fake_substrate

definition file_mutation :: "string \<Rightarrow> fake_binding \<Rightarrow> fake_binding" where
  "file_mutation m b =
     b\<lparr>fb_substrate := (fb_substrate b)\<lparr>fs_mutations := fs_mutations (fb_substrate b) @ [m]\<rparr>\<rparr>"

definition fake_plan :: "attempt_pin \<Rightarrow> seat_ref \<Rightarrow> brief_bundle \<Rightarrow> workspace_context \<Rightarrow> execution_plan" where
  "fake_plan p seat brief cx =
     \<lparr>xp_harness = at_harness p, xp_profile = at_profile p, xp_composition = at_digest p, xp_program = fake_probe,
      xp_argv = [sr_seat seat, bb_digest brief], xp_worktree = wx_worktree cx, xp_identity = None, xp_home = None\<rparr>"

definition fake_spawn ::
  "(execution_plan \<Rightarrow> guard_decision) \<Rightarrow> (guard_decision \<Rightarrow> execution_plan \<Rightarrow> bool) \<Rightarrow> (nat \<Rightarrow> datetime) \<Rightarrow>
   attempt_pin \<Rightarrow> seat_ref \<Rightarrow> brief_bundle \<Rightarrow> workspace_context \<Rightarrow> fake_binding \<Rightarrow>
   (refusal + dispatch_receipt) \<times> fake_binding" where
  "fake_spawn decide recorded clk p seat brief cx b =
     (case dispatch_pin_refusal (fb_spec b) p of
        Some r \<Rightarrow> (Inl r, b)
      | None \<Rightarrow>
          let (decision, boundary) = clear_plan decide recorded (fake_plan p seat brief cx) (clk 0) (fb_boundary b);
              b = b\<lparr>fb_boundary := boundary\<rparr>
          in case decision of
               Inl r \<Rightarrow> (Inl r, b)
             | Inr d \<Rightarrow>
                 (case fs_fault (fb_substrate b) of
                    Some fault \<Rightarrow>
                      if fault \<in> set unacknowledged_faults
                      then (Inl (unacknowledged fault (''the composer still holds '' @ bb_digest brief)), b)
                      else (Inr \<lparr>dr_attempt = uuid_str (at_id p), dr_digest = at_digest p, dr_acknowledged = clk 1,
                              dr_evidence = ''the composer cleared after submit'', dr_decision = gd_id d,
                              dr_durable = Some (''fake-'' @ uuid_str (at_id p))\<rparr>,
                            file_mutation (''session-start:'' @ uuid_str (at_id p)) b)
                  | None \<Rightarrow>
                      (Inr \<lparr>dr_attempt = uuid_str (at_id p), dr_digest = at_digest p, dr_acknowledged = clk 1,
                         dr_evidence = ''the composer cleared after submit'', dr_decision = gd_id d,
                         dr_durable = Some (''fake-'' @ uuid_str (at_id p))\<rparr>,
                       file_mutation (''session-start:'' @ uuid_str (at_id p)) b)))"

definition fake_readings :: "datetime \<Rightarrow> fake_substrate \<Rightarrow> model_observation list" where
  "fake_readings at s =
     (let served = (if fs_fault s = Some ''model_substitution'' then ''fake-substituted-model'' else fs_served s) in
      [\<lparr>mo_value = served, mo_source = ''in_process_fake'', mo_proves = ''serving'', mo_observed = at\<rparr>,
       \<lparr>mo_value = fs_requested s, mo_source = ''pane_footer'', mo_proves = ''request'', mo_observed = at\<rparr>])"

definition fake_liveness ::
  "(nat \<Rightarrow> datetime) \<Rightarrow> attempt_pin \<Rightarrow> int \<Rightarrow> fake_binding \<Rightarrow> liveness_fact \<times> fake_binding" where
  "fake_liveness clk p cursor b =
     (let s = fb_substrate b; fault = fs_fault s in
      if fault = Some ''pane_loss''
      then (\<lparr>lv_state = ''unknown'', lv_probe = rf_name (substrate_unobservable fake_probe), lv_observed = clk 0,
            lv_served = None, lv_context = None, lv_conflict = None, lv_ladder = ''as_intended'',
            lv_evidence = ''epoch '' @ str_int (at_epoch p) @ '' cursor '' @ str_int cursor\<rparr>, b)
      else
        let (served, conflict) = serving_observation (fb_spec b) (fake_readings (clk 0) s) in
        (\<lparr>lv_state = classify_state (fault = Some ''cap_menu'') (fault = Some ''context_saturation'')
           (fault = Some ''dead_auth'') True False,
         lv_probe = fake_probe, lv_observed = clk 1, lv_served = served,
         lv_context = Some (if fault = Some ''context_saturation'' then 100 else fs_context s),
         lv_conflict = conflict, lv_ladder = ladder_disposition p (map_option mo_value served),
         lv_evidence = ''epoch '' @ str_int (at_epoch p)\<rparr>, b))"

definition fake_collect ::
  "attempt_pin \<Rightarrow> string \<Rightarrow> fake_binding \<Rightarrow> (refusal + artifact_set) \<times> fake_binding" where
  "fake_collect p reason b =
     (let s = fb_substrate b in
      case collect_refusal (fs_dirty s) of
        Some r \<Rightarrow> (Inl r, b)
      | None \<Rightarrow> (Inr \<lparr>af_branch = ''fake/'' @ uuid_str (at_id p), af_head = fs_head s, af_pushed = fs_pushed s,
          af_gates = [''gate/'' @ reason @ ''.log''],
          af_status = (if fs_status s then Some ''status.md'' else None),
          af_handoff = Some \<lparr>ho_done = ''the fake ran'', ho_progress = ''nothing'', ho_not_started = ''nothing'',
            ho_next = (''read the branch'', ''re-run the suite'', ''report'')\<rparr>\<rparr>, b))"

definition fake_writeback ::
  "attempt_pin \<Rightarrow> seat_ref \<Rightarrow> credential_reference \<Rightarrow> writeback_fact list \<Rightarrow> fake_binding \<Rightarrow>
   (refusal + writeback_receipt) \<times> fake_binding" where
  "fake_writeback p seat k facts b =
     (case writeback_refusal k seat facts of
        Some r \<Rightarrow> (Inl r, b)
      | None \<Rightarrow>
          (Inr \<lparr>wr_actor = kr_seat k,
             wr_accepted = map wf_kind (filter (\<lambda>f. wf_scope f \<noteq> ''transition'') facts),
             wr_transitions = map wf_kind (filter (\<lambda>f. wf_scope f = ''transition'') facts),
             wr_answer = ''accepted; transitions recorded as requests''\<rparr>,
           file_mutation (''writeback:'' @ uuid_str (at_id p)) b))"

text \<open>
  \<open>teardown\<close> collects, asks for the liveness and folds the two answers into its receipt; the clock it reads last
  has been read by \<open>liveness\<close> before.
\<close>

definition fake_teardown ::
  "(nat \<Rightarrow> datetime) \<Rightarrow> attempt_pin \<Rightarrow> string \<Rightarrow> fake_binding \<Rightarrow> (refusal + teardown_receipt) \<times> fake_binding" where
  "fake_teardown clk p order b =
     (let (collected, b) = fake_collect p ''checkpoint'' b;
          (fact, b) = fake_liveness clk p 0 b;
          reads = (if fs_fault (fb_substrate b) = Some ''pane_loss'' then 1 else 2)
      in (teardown_outcome order (case collected of Inl _ \<Rightarrow> None | Inr s \<Rightarrow> Some s)
            (lv_state fact) (fs_sole (fb_substrate b))
            (Some ''the fake was parked by the suite'') (Some (clk reads)) True, b))"

section \<open>The fake pool\<close>

record fake_pool =
  fp_entries :: "entry_state list"
  fp_lease :: uuid
  fp_probe :: probe_shape
  fp_profile :: string
  fp_metered :: "string list"

definition pool_acquire ::
  "string \<Rightarrow> string \<Rightarrow> datetime \<Rightarrow> fake_pool \<Rightarrow> (refusal + credential_lease) py" where
  "pool_acquire model tier now p =
     (case find (\<lambda>e. blocking_axes e = []) (fp_entries p) of
        None \<Rightarrow> bindE (exhaustion_refusal (fp_entries p)) (\<lambda>r. Inr (Inl r))
      | Some e \<Rightarrow> Inr (Inr \<lparr>le_id = fp_lease p, le_harness = ''fault-injection-fake'', le_profile = tier,
          le_model = model, le_entry = e, le_acquired = now\<rparr>))"

text \<open>The text of a list of strings, as \<open>sorted(observation)\<close> prints it.\<close>

definition list_text :: "string list \<Rightarrow> string" where
  "list_text xs = ''['' @ join '', '' (map repr_str xs) @ '']''"

definition pool_meter :: "credential_lease \<Rightarrow> string list \<Rightarrow> fake_pool \<Rightarrow> fake_pool" where
  "pool_meter l keys p =
     p\<lparr>fp_metered := fp_metered p @ [uuid_str (le_id l) @ '':'' @ list_text (sort keys)]\<rparr>"

definition pool_limits :: "string option \<Rightarrow> fake_pool \<Rightarrow> entry_state list" where
  "pool_limits profile p =
     (case profile of None \<Rightarrow> fp_entries p | Some k \<Rightarrow> if k \<noteq> fp_profile p then [] else fp_entries p)"

definition pool_rotate :: "string \<Rightarrow> refusal" where
  "pool_rotate reason =
     refusal ''rotation-incomplete''
    (''the fake declares no rotation engine ('' @ reason @ '')'')
    ''a fake never performs a real rotation''
    ''drive rotation through a real binding's pool''
    []"

definition pool_probe :: "probe_response \<Rightarrow> fake_pool \<Rightarrow> refusal + probe_reading" where
  "pool_probe r p = classify_probe (fp_probe p) r"

record mint_request =
  mr_provider :: string
  mr_identity :: "string option"
  mr_enactment :: string

definition pool_request_mint :: "string option \<Rightarrow> mint_request" where
  "pool_request_mint identity =
     \<lparr>mr_provider = ''fake-provider'', mr_identity = identity, mr_enactment = ''operator-ceremony''\<rparr>"

section \<open>The fake provides both interfaces\<close>

definition fake_pool_ok :: "fake_pool \<Rightarrow> bool" where
  "fake_pool_ok p \<longleftrightarrow> (\<forall>e \<in> set (fp_entries p). entry_contract e)"

interpretation fake_credentials: credential_pool pool_acquire pool_limits fake_pool_ok
proof
  fix p m t now
  assume ok: "fake_pool_ok p"
  obtain r where r: "exhaustion_refusal (fp_entries p) = Inr r" "in_vocabulary r" "rf_name r = ''credential-pool-exhausted''"
    using ok exhaustion_exact [of "fp_entries p"] by (auto simp: fake_pool_ok_def)
  show "\<exists>x. pool_acquire m t now p = Inr x"
    using r by (auto simp: pool_acquire_def split: option.split)
  show "le_entry l \<in> set (pool_limits None p) \<and> selectable (le_entry l) \<and> le_model l = m \<and> le_profile l = t"
    if "pool_acquire m t now p = Inr (Inr l)" for l
    using that r by (auto simp: pool_acquire_def pool_limits_def selectable_def split: option.splits dest!: find_Some_set)
  show "rf_name x = ''credential-pool-exhausted'' \<and> in_vocabulary x \<and> (\<forall>e \<in> set (pool_limits None p). \<not> selectable e)"
    if "pool_acquire m t now p = Inr (Inl x)" for x
    using that r by (auto simp: pool_acquire_def pool_limits_def selectable_def find_None_iff split: option.splits)
qed

text \<open>The verbs of a binding; only two of them may file a durable fact.\<close>

datatype binding_call =
    Spawn "execution_plan \<Rightarrow> guard_decision" "guard_decision \<Rightarrow> execution_plan \<Rightarrow> bool" "nat \<Rightarrow> datetime"
      attempt_pin seat_ref brief_bundle workspace_context
  | Writeback attempt_pin seat_ref credential_reference "writeback_fact list"
  | Observe "nat \<Rightarrow> datetime" attempt_pin int
  | Collect attempt_pin string
  | Teardown "nat \<Rightarrow> datetime" attempt_pin string

datatype binding_answer =
    Dispatched "refusal + dispatch_receipt"
  | Written "refusal + writeback_receipt"
  | Observed liveness_fact
  | Collected "refusal + artifact_set"
  | Preserved "refusal + teardown_receipt"

text \<open>One call: its answer and the binding after it.\<close>

fun binding_call_result :: "binding_call \<Rightarrow> fake_binding \<Rightarrow> binding_answer \<times> fake_binding" where
  "binding_call_result (Spawn decide recorded clk p seat brief cx) b =
     map_prod Dispatched id (fake_spawn decide recorded clk p seat brief cx b)"
| "binding_call_result (Writeback p seat k facts) b = map_prod Written id (fake_writeback p seat k facts b)"
| "binding_call_result (Observe clk p cursor) b = map_prod Observed id (fake_liveness clk p cursor b)"
| "binding_call_result (Collect p reason) b = map_prod Collected id (fake_collect p reason b)"
| "binding_call_result (Teardown clk p order) b = map_prod Preserved id (fake_teardown clk p order b)"

definition binding_step :: "binding_call \<Rightarrow> fake_binding \<Rightarrow> fake_binding" where
  "binding_step c b = snd (binding_call_result c b)"

text \<open>
  The durable fact an answer stands for: a dispatch receipt the session start of its attempt, a writeback
  receipt the writeback of its attempt, and no other answer any.
\<close>

fun call_attempt :: "binding_call \<Rightarrow> attempt_pin" where
  "call_attempt (Spawn decide recorded clk p seat brief cx) = p"
| "call_attempt (Writeback p seat k facts) = p"
| "call_attempt (Observe clk p cursor) = p"
| "call_attempt (Collect p reason) = p"
| "call_attempt (Teardown clk p order) = p"

definition answer_fact :: "attempt_pin \<Rightarrow> binding_answer \<Rightarrow> string option" where
  "answer_fact p x =
     (case x of
        Dispatched (Inr _) \<Rightarrow> Some (''session-start:'' @ uuid_str (at_id p))
      | Written (Inr _) \<Rightarrow> Some (''writeback:'' @ uuid_str (at_id p))
      | _ \<Rightarrow> None)"

definition binding_filed :: "binding_call \<Rightarrow> fake_binding \<Rightarrow> string option" where
  "binding_filed c b = answer_fact (call_attempt c) (fst (binding_call_result c b))"

definition binding_mutations :: "fake_binding \<Rightarrow> string list" where
  "binding_mutations b = fs_mutations (fb_substrate b)"

text \<open>What no call may change: the pinned spec and everything of the substrate but its filed facts.\<close>

definition binding_fixed :: "fake_binding \<Rightarrow> harness_spec \<times> fake_substrate" where
  "binding_fixed b = (fb_spec b, (fb_substrate b)\<lparr>fs_mutations := []\<rparr>)"

lemma spawn_files:
  "binding_mutations (snd (fake_spawn decide recorded clk p seat brief cx b)) = binding_mutations b @
     (case fst (fake_spawn decide recorded clk p seat brief cx b) of
        Inl _ \<Rightarrow> [] | Inr _ \<Rightarrow> [''session-start:'' @ uuid_str (at_id p)])"
  by (auto simp: fake_spawn_def Let_def binding_mutations_def file_mutation_def case_prod_beta
      split: option.split sum.split)

lemma spawn_fixed: "binding_fixed (snd (fake_spawn decide recorded clk p seat brief cx b)) = binding_fixed b"
  by (simp add: fake_spawn_def Let_def binding_fixed_def file_mutation_def case_prod_beta split: option.split sum.split)

lemma writeback_files:
  "binding_mutations (snd (fake_writeback p seat k facts b)) = binding_mutations b @
     (case fst (fake_writeback p seat k facts b) of Inl _ \<Rightarrow> [] | Inr _ \<Rightarrow> [''writeback:'' @ uuid_str (at_id p)])"
  by (auto simp: fake_writeback_def binding_mutations_def file_mutation_def split: option.split)

lemma writeback_fixed: "binding_fixed (snd (fake_writeback p seat k facts b)) = binding_fixed b"
  by (simp add: fake_writeback_def binding_fixed_def file_mutation_def split: option.split)

text \<open>The three verbs that only look leave the binding as it was.\<close>

lemma looking_frames [simp]:
  "snd (fake_liveness clk p cursor b) = b" "snd (fake_collect p reason b) = b" "snd (fake_teardown clk p order b) = b"
proof -
  show live: "snd (fake_liveness clk p cursor b) = b" for cursor
    by (simp add: fake_liveness_def Let_def case_prod_beta)
  show coll: "snd (fake_collect p reason b) = b" for reason
    by (simp add: fake_collect_def Let_def split: option.split)
  show "snd (fake_teardown clk p order b) = b"
    by (simp add: fake_teardown_def Let_def case_prod_beta live coll)
qed

interpretation fake_harness: harness_binding binding_step binding_filed binding_mutations binding_fixed
proof
  show "binding_mutations (binding_step c s) = binding_mutations s @ (case binding_filed c s of None \<Rightarrow> [] | Some m \<Rightarrow> [m])" for c s
    by (cases c) (auto simp: binding_step_def binding_filed_def answer_fact_def spawn_files writeback_files split: sum.split)
  show "binding_fixed (binding_step c s) = binding_fixed s" for c s
    by (cases c) (simp_all add: binding_step_def spawn_fixed writeback_fixed)
qed

section \<open>Properties of the fake\<close>

lemma fake_vocabulary [simp]: "in_vocabulary (unacknowledged fault ev)" "in_vocabulary (pool_rotate reason)"
  unfolding unacknowledged_def pool_rotate_def
  by (rule refusal_vocabulary, simp add: spec_owned_def seam_minted_def)+

text \<open>
  A pool fails only when every entry is unselectable. Inside the entry contract, acquiring never
  raises; it leases the first selectable entry for the model and profile asked for, at the
  clock's reading; and it refuses exactly when no entry is selectable, with an exhaustion that
  names every blocking axis of every entry and the earliest known reset.
\<close>

theorem pool_acquire_exact:
  assumes "\<forall>e \<in> set (fp_entries p). entry_contract e"
  shows "(\<forall>e. find selectable (fp_entries p) = Some e \<longrightarrow>
      pool_acquire m t now p = Inr (Inr \<lparr>le_id = fp_lease p, le_harness = ''fault-injection-fake'', le_profile = t,
        le_model = m, le_entry = e, le_acquired = now\<rparr>)) \<and>
    ((\<forall>e \<in> set (fp_entries p). \<not> selectable e) \<longrightarrow>
      (\<exists>r. pool_acquire m t now p = Inr (Inl r) \<and> in_vocabulary r \<and> rf_name r = ''credential-pool-exhausted'' \<and>
        rf_detail r = blocked_rows (fp_entries p) @ [(''earliest_known_reset'',
          case earliest_reset (fp_entries p) of None \<Rightarrow> ''unknown'' | Some u \<Rightarrow> isoformat u)])) \<and>
    ((\<exists>l. pool_acquire m t now p = Inr (Inr l)) \<longleftrightarrow> (\<exists>e \<in> set (pool_limits None p). selectable e))"
proof (intro conjI allI impI)
  have sel: "(\<lambda>e. blocking_axes e = []) = selectable" by (simp add: selectable_def fun_eq_iff)
  show "pool_acquire m t now p = Inr (Inr \<lparr>le_id = fp_lease p, le_harness = ''fault-injection-fake'', le_profile = t,
        le_model = m, le_entry = e, le_acquired = now\<rparr>)" if "find selectable (fp_entries p) = Some e" for e
    using that by (simp add: pool_acquire_def sel)
  show "\<exists>r. pool_acquire m t now p = Inr (Inl r) \<and> in_vocabulary r \<and> rf_name r = ''credential-pool-exhausted'' \<and>
        rf_detail r = blocked_rows (fp_entries p) @ [(''earliest_known_reset'',
          case earliest_reset (fp_entries p) of None \<Rightarrow> ''unknown'' | Some u \<Rightarrow> isoformat u)]"
    if "\<forall>e \<in> set (fp_entries p). \<not> selectable e"
  proof -
    have "find selectable (fp_entries p) = None" using that by (auto simp: find_None_iff)
    then show ?thesis using exhaustion_exact [OF assms] by (auto simp: pool_acquire_def sel)
  qed
  show "(\<exists>l. pool_acquire m t now p = Inr (Inr l)) \<longleftrightarrow> (\<exists>e \<in> set (pool_limits None p). selectable e)"
    using assms by (intro fake_credentials.acquire_iff) (simp add: fake_pool_ok_def)
qed

definition demo_entry :: "string \<Rightarrow> entry_state" where
  "demo_entry quota = \<lparr>en_provider = ''p'', en_identity = Some ''i'', en_label = None, en_registration = ''enrolled'',
     en_auth = ''healthy'', en_quota = quota, en_reset = Some 9, en_reach = ''ok'', en_requests = 0,
     en_last = None, en_secret = None\<rparr>"

theorem pool_acquire_exact_witness:
  "\<exists>r. pool_acquire ''m'' ''t'' 7 \<lparr>fp_entries = [demo_entry ''capped''], fp_lease = 1, fp_probe = \<lparr>ps_product = ''x'', ps_endpoint = ''e'', ps_model = ''m'',
      ps_workload = ''representative'', ps_classified = ''response_body''\<rparr>, fp_profile = ''fake'',
      fp_metered = []\<rparr> = Inr (Inl r) \<and> in_vocabulary r \<and> length (rf_detail r) = 2"
  (is "\<exists>r. pool_acquire _ _ _ ?p = _ \<and> _")
proof -
  have "\<forall>e \<in> set (fp_entries ?p). entry_contract e \<and> \<not> selectable e"
    by (simp add: registration_values_def auth_values_def quota_values_def reach_values_def demo_entry_def entry_contract_def selectable_def blocking_axes_def clear_values_def)
  moreover have "length (blocked_rows [demo_entry ''capped'']) = 1"
    by (simp add: blocked_rows_def demo_entry_def blocking_axes_def clear_values_def)
  ultimately show ?thesis using pool_acquire_exact [of ?p "''m''" "''t''" 7] by auto
qed

fun binding_trace :: "binding_call list \<Rightarrow> fake_binding \<Rightarrow> string option list" where
  "binding_trace [] b = []"
| "binding_trace (c # cs) b = binding_filed c b # binding_trace cs (binding_step c b)"

lemma binding_trace_eq: "binding_trace cs b = fake_harness.trace cs b"
  by (induction cs arbitrary: b) simp_all

definition binding_run :: "binding_call list \<Rightarrow> fake_binding \<Rightarrow> fake_binding" where
  "binding_run cs b = foldl (\<lambda>b c. binding_step c b) b cs"

lemma fake_spawn_answers:
  "(case fst (fake_spawn decide recorded clk p seat brief cx b) of
      Inl r \<Rightarrow> in_vocabulary r
    | Inr rc \<Rightarrow> dr_attempt rc = uuid_str (at_id p) \<and> dr_digest rc = at_digest p \<and>
        dr_decision rc = gd_id (decide (fake_plan p seat brief cx)))"
proof -
  have "in_vocabulary r" if "dispatch_pin_refusal (fb_spec b) p = Some r" for r
    using that by (auto simp: dispatch_pin_refusal_def Let_def split: if_splits)
  then show ?thesis
    by (auto simp: fake_spawn_def Let_def clear_plan_Inr split: option.split sum.split prod.split dest: clear_plan_Inl)
qed

lemma fake_spawn_succeeds:
  "(\<exists>rc. fst (fake_spawn decide recorded clk p seat brief cx b) = Inr rc) \<longleftrightarrow>
     dispatch_pin_refusal (fb_spec b) p = None \<and>
     (\<exists>d bd. clear_plan decide recorded (fake_plan p seat brief cx) (clk 0) (fb_boundary b) = (Inr d, bd)) \<and>
     set_option (fs_fault (fb_substrate b)) \<inter> set unacknowledged_faults = {}"
  by (auto simp: fake_spawn_def Let_def split: option.split sum.split prod.split)

text \<open>
  C23. A dispatch is a fact only when it was acknowledged. Over any run of the verbs of the fake, in any
  order and under any answers of guard and sink, the durable facts are exactly one per dispatch receipt
  and per writeback receipt that was answered, in order, and of the rest of the binding only the boundary may
  differ at the end: the pinned spec and the other fields of the substrate never change. Liveness, collect and
  teardown leave the binding exactly as it was, its boundary included. A spawn succeeds exactly when the attempt
  carries the manifest's pin, the boundary clears the plan of this attempt and the substrate acknowledged; its
  receipt names the decision that cleared it, and every refusal is in the vocabulary.
\<close>

theorem acknowledged_dispatches_only:
  "binding_mutations (binding_run cs b) =
     binding_mutations b @ concat (map (\<lambda>x. case x of None \<Rightarrow> [] | Some m \<Rightarrow> [m]) (binding_trace cs b)) \<and>
   fb_spec (binding_run cs b) = fb_spec b \<and>
   (fb_substrate (binding_run cs b))\<lparr>fs_mutations := []\<rparr> = (fb_substrate b)\<lparr>fs_mutations := []\<rparr> \<and>
   snd (fake_liveness clk p cursor b) = b \<and> snd (fake_collect p reason b) = b \<and>
   snd (fake_teardown clk p order b) = b \<and>
   ((\<exists>rc. fst (fake_spawn decide recorded clk p seat brief cx b) = Inr rc) \<longleftrightarrow>
     dispatch_pin_refusal (fb_spec b) p = None \<and>
     (\<exists>d bd. clear_plan decide recorded (fake_plan p seat brief cx) (clk 0) (fb_boundary b) = (Inr d, bd)) \<and>
     set_option (fs_fault (fb_substrate b)) \<inter> set unacknowledged_faults = {}) \<and>
   (case fst (fake_spawn decide recorded clk p seat brief cx b) of
      Inl r \<Rightarrow> in_vocabulary r
    | Inr rc \<Rightarrow> dr_attempt rc = uuid_str (at_id p) \<and> dr_digest rc = at_digest p \<and>
        dr_decision rc = gd_id (decide (fake_plan p seat brief cx)))"
  using fake_harness.run_files [of b cs] fake_harness.run_fixed [of b cs] fake_spawn_answers fake_spawn_succeeds
  by (simp add: binding_run_def binding_trace_eq binding_fixed_def)

text \<open>
  A binding whose guard always answers with the same decision: the first dispatch files its fact, looking
  at the session files none, and a second dispatch on the burned decision is refused and files none.
\<close>

definition demo_spec :: harness_spec where
  "demo_spec = \<lparr>hs_key = ''fault-injection-fake'', hs_revision = 1, hs_artifact = ''a'', hs_config = ''c'',
     hs_input = ''pty'', hs_submit = True, hs_output = ''pty'', hs_capabilities = {},
     hs_ack = \<lparr>ak_kind = ''k'', ak_detail = ''d''\<rparr>, hs_sources = [], hs_window = 80,
     hs_probe = \<lparr>ps_product = ''x'', ps_endpoint = ''e'', ps_model = ''m'', ps_workload = ''representative'',
       ps_classified = ''response_body''\<rparr>, hs_pool = \<lparr>pl_hook = ''h'', pl_providers = []\<rparr>,
     hs_survey = \<lparr>sv_native_pool = False, sv_native_fallback = False, sv_config_surface = [], sv_identity_proof = [],
       sv_reset_semantics = [], sv_rotation_cache = [], sv_subagents = [], sv_egress = ''shared''\<rparr>,
     hs_layers = \<lparr>lr_pool = ''provide'', lr_fallback = ''provide''\<rparr>, hs_status = ''active''\<rparr>"

definition demo_pin :: attempt_pin where
  "demo_pin = \<lparr>at_id = 5, at_epoch = 1, at_harness = ''fault-injection-fake'', at_profile = ''p'', at_revision = 1,
     at_digest = composition_digest demo_spec, at_model = ''m'', at_rungs = [], at_judgment = False,
     at_lease = None, at_identity = None, at_home = None\<rparr>"

definition demo_binding :: "string option \<Rightarrow> fake_binding" where
  "demo_binding fault = \<lparr>fb_spec = demo_spec, fb_boundary = \<lparr>bd_version = 1, bd_burned = {}\<rparr>,
     fb_substrate = \<lparr>fs_fault = fault, fs_dirty = [], fs_pushed = True, fs_head = ''h'', fs_status = False,
       fs_sole = False, fs_requested = ''m'', fs_served = ''m'', fs_context = 10, fs_mutations = []\<rparr>\<rparr>"

definition demo_decide :: "execution_plan \<Rightarrow> guard_decision" where
  "demo_decide p = \<lparr>gd_id = ''g'', gd_verdict = ''allow'', gd_plan = normalized_digest p, gd_version = 1, gd_expires = 9\<rparr>"

definition demo_calls :: "seat_ref \<Rightarrow> brief_bundle \<Rightarrow> workspace_context \<Rightarrow> binding_call list" where
  "demo_calls seat brief cx =
     (let dispatch = Spawn demo_decide (\<lambda>_ _. True) int demo_pin seat brief cx in
      [dispatch, Observe int demo_pin 0, Collect demo_pin ''checkpoint'', Teardown int demo_pin ''park'', dispatch])"

lemma demo_trace:
  "binding_trace (demo_calls seat brief cx) (demo_binding None) =
     [Some (''session-start:'' @ uuid_str 5), None, None, None, None]"
  "binding_trace (demo_calls seat brief cx) (demo_binding (Some ''collapsed_paste'')) = [None, None, None, None, None]"
  by (simp_all add: demo_calls_def Let_def binding_filed_def binding_step_def answer_fact_def fake_spawn_def
      dispatch_pin_refusal_def pin_mismatches_def clear_plan_def decision_invalidity_def decision_fault_def
      demo_decide_def demo_binding_def demo_pin_def demo_spec_def composition_digest_def file_mutation_def
      unacknowledged_faults_def)

theorem acknowledged_dispatches_only_witness:
  "\<forall>seat brief cx.
     binding_mutations (binding_run (demo_calls seat brief cx) (demo_binding None)) = [''session-start:'' @ uuid_str 5] \<and>
     binding_mutations (binding_run (demo_calls seat brief cx) (demo_binding (Some ''collapsed_paste''))) = []"
proof (intro allI)
  fix seat brief cx
  have "binding_mutations (demo_binding fault) = []" for fault
    by (simp add: binding_mutations_def demo_binding_def)
  then show "binding_mutations (binding_run (demo_calls seat brief cx) (demo_binding None)) = [''session-start:'' @ uuid_str 5] \<and>
     binding_mutations (binding_run (demo_calls seat brief cx) (demo_binding (Some ''collapsed_paste''))) = []"
    using acknowledged_dispatches_only [of "demo_calls seat brief cx" "demo_binding None"]
      acknowledged_dispatches_only [of "demo_calls seat brief cx" "demo_binding (Some ''collapsed_paste'')"]
    by (simp add: demo_trace)
qed

end
