(* ===== verification/SpoolRedaction.thy ===== *)
theory SpoolRedaction
  imports PyJson Sha256 PyTime
begin

text \<open>
  The vocabulary the spool takes from outside itself. From \<open>ctowerctl/spool/_redaction.py\<close>: which field names count as
  secret material. From \<open>_refusals.py\<close>: the closed set of refusal names a receipt may keep. From the
  generated client (\<open>ctower_client/operations.py\<close>, \<open>models.py\<close>): which operations may enter the spool, and the
  problem codes of the server.
\<close>

section \<open>Normalised names\<close>

text \<open>
  \<open>casefold\<close> as far as the normalisers see it: ASCII letters, and the code points outside ASCII whose folding
  has ASCII letters; any other byte is no key character, and neither is the mark \<open>~\<close> for the rest of a folding.
\<close>

definition special_foldings :: "(nat list \<times> string) list" where
  "special_foldings =
     [([195,159], ''ss''), ([196,176], ''i~''), ([197,137], ''~n''), ([197,191], ''s''), ([199,176], ''j~''),
      ([225,186,150], ''h~''), ([225,186,151], ''t~''), ([225,186,152], ''w~''), ([225,186,153], ''y~''),
      ([225,186,154], ''a~''), ([225,186,158], ''ss''), ([226,132,170], ''k''), ([239,172,128], ''ff''),
      ([239,172,129], ''fi''), ([239,172,130], ''fl''), ([239,172,131], ''ffi''), ([239,172,132], ''ffl''),
      ([239,172,133], ''st''), ([239,172,134], ''st'')]"

definition lower_char :: "char \<Rightarrow> char" where
  "lower_char c = (let n = of_char c :: nat in if 65 \<le> n \<and> n \<le> 90 then char_of (n + 32) else c)"

fun fold_ascii :: "string \<Rightarrow> string" where
  "fold_ascii [] = []"
| "fold_ascii (c # cs) =
     (case find (\<lambda>(bytes, out). take (length bytes) (map of_char (c # cs)) = bytes) special_foldings of
        None \<Rightarrow> lower_char c # fold_ascii cs
      | Some (bytes, out) \<Rightarrow> out @ fold_ascii (drop (length bytes - 1) cs))"

definition plain_char :: "char \<Rightarrow> bool" where
  "plain_char c \<longleftrightarrow> is_lower c \<or> is_digit c"

text \<open>\<open>re.sub("[^a-z0-9]+", "_", text)\<close>; the flag says that a separator was just written.\<close>

fun separate :: "bool \<Rightarrow> string \<Rightarrow> string" where
  "separate inside [] = []"
| "separate inside (c # cs) =
     (if plain_char c then c # separate False cs
      else if inside then separate True cs else CHR ''_'' # separate True cs)"

definition strip_low :: "string \<Rightarrow> string" where
  "strip_low s = rev (dropWhile (\<lambda>c. c = CHR ''_'') (rev (dropWhile (\<lambda>c. c = CHR ''_'') s)))"

section \<open>Secret exclusion\<close>

definition forbidden_fields :: "string list" where
  "forbidden_fields =
     [''access_token'', ''api_key'', ''authorization'', ''bearer'', ''bootstrap_capability'', ''bootstrap_token'',
      ''cookie'', ''credential'', ''credential_value'', ''password'', ''private_key'', ''refresh_token'',
      ''resolved_secret'', ''secret_value'', ''session_token'', ''token'']"

definition normal_key :: "string \<Rightarrow> string" where
  "normal_key k = strip_low (separate False (fold_ascii k))"

fun secret_free :: "json \<Rightarrow> bool"
  and secret_free_items :: "json list \<Rightarrow> bool"
  and secret_free_members :: "members \<Rightarrow> bool" where
  "secret_free (JObj ms) = secret_free_members ms"
| "secret_free (JList vs) = secret_free_items vs"
| "secret_free v = True"
| "secret_free_items [] = True"
| "secret_free_items (v # vs) = (secret_free v \<and> secret_free_items vs)"
| "secret_free_members [] = True"
| "secret_free_members ((k, v) # ms) =
     (normal_key k \<notin> set forbidden_fields \<and> secret_free v \<and> secret_free_members ms)"

section \<open>Refusal names\<close>

text \<open>The pattern \<open>^[a-z][a-z0-9_]{0,63}$\<close> of authored names and of reason codes.\<close>

definition reason_name :: "string \<Rightarrow> bool" where
  "reason_name s \<longleftrightarrow>
     (case s of [] \<Rightarrow> False
      | c # cs \<Rightarrow> is_lower c \<and> length cs \<le> 63 \<and> list_all (\<lambda>d. is_lower d \<or> is_digit d \<or> d = CHR ''_'') cs)"

definition slug :: "string \<Rightarrow> string" where
  "slug s = strip_low (take 64 (separate False (fold_ascii s)))"

definition problem_codes :: "string list" where
  "problem_codes =
    [
     ''attention-finding-already-disposed'', ''attention-finding-not-found'', ''attention-kind-unrecognized'',
     ''auth-csrf-invalid'', ''auth-exchange-invalid'', ''auth-identity-unresolved'', ''auth-provider-unavailable'',
     ''auth-provider-unverifiable'', ''auth-role-denied'', ''auth-session-invalid'', ''bootstrap-consumed'',
     ''bootstrap-expired'', ''bootstrap-nonempty'', ''bootstrap-origin'', ''bundle-base-conflict'',
     ''bundle-compatibility-refused'', ''bundle-digest-mismatch'', ''bundle-grant-refused'',
     ''bundle-independence-refused'', ''bundle-no-effect-refused'', ''bundle-not-active'', ''bundle-plan-mismatch'',
     ''bundle-recovery-unavailable'', ''bundle-reference-invalid'', ''bundle-schema-invalid'',
     ''bundle-security-refused'', ''change-reference-duplicate'', ''credential-already-revoked'',
     ''credential-authentication-unavailable'', ''credential-digest-conflict'', ''credential-issuance-refused'',
     ''credential-revocation-refused'', ''credential-revoked'', ''credential-scope-denied'',
     ''console-actor-suspended'', ''console-adapter-malformed'', ''console-adapter-unregistered'',
     ''console-allowlist-refused'', ''console-assignment-stale'', ''console-backend-fenced'',
     ''console-backend-unavailable'', ''console-browser-session-required'', ''console-continuous-view-limit'',
     ''console-csrf-invalid'', ''console-cursor-invalid'', ''console-globally-disabled'', ''console-grant-expired'',
     ''console-grant-unavailable'', ''console-incarnation-fenced'', ''console-kill-switch-refused'',
     ''console-loop-kind-refused'', ''console-origin-refused'', ''console-output-unavailable'',
     ''console-project-fence-mismatch'', ''console-project-refused'', ''console-renewal-binding-mismatch'',
     ''console-renewal-unavailable'', ''console-revocation-refused'', ''console-role-refused'',
     ''console-runner-epoch-fenced'', ''console-runner-fenced'', ''console-runtime-attempt-fenced'',
     ''console-sensitivity-refused'', ''console-session-already-allowed'', ''console-session-already-revoked'',
     ''console-session-join-stale'', ''console-session-not-allowed'', ''console-session-revoked'',
     ''console-session-unavailable'', ''console-stream-already-open'', ''console-stream-query-refused'',
     ''dream-dispatch-already-consumed'', ''dream-dispatch-family-excluded'', ''dream-dispatch-lane-unbound'',
     ''dream-dispatch-model-requirement-mismatch'', ''dream-dispatch-tier-refused'', ''dream-dispatch-unavailable'',
     ''dream-lane-already-bound'', ''dream-lane-binding-operator-required'', ''estate-import-batch-digest-mismatch'',
     ''estate-import-batch-invalid'', ''estate-import-content-mismatch'', ''estate-import-count-mismatch'',
     ''estate-import-duplicate-source'', ''estate-import-invalid'', ''estate-import-operator-required'',
     ''estate-import-parity-signer-unavailable'', ''estate-import-project-required'', ''estate-import-row-invalid'',
     ''estate-import-source-conflict'', ''durability_pending'', ''i1-7c-required'', ''idempotency-conflict'',
     ''invalid-status'', ''invalid-transition'', ''invalid-ruling'', ''inbox-already-promoted'',
     ''inbox-acknowledgement-not-advancing'', ''inbox-message-recipient-mismatch'', ''inbox-recipient-ambiguous'',
     ''inbox-recipient-not-found'', ''inbox-recipient-self'', ''inbox-sender-unaddressable'',
     ''inbox-thread-head-invalid'', ''inbox-thread-participant-mismatch'', ''intake-already-promoted'',
     ''intake-promotion-ineligible'', ''intake-source-project-mismatch'', ''intake-source-conflict'',
     ''knowledge-invalid-project'', ''knowledge-invalid-scope'', ''knowledge-source-not-found'',
     ''knowledge-source-unavailable'', ''label-already-applied'', ''label-key-unrecognized'',
     ''migration-alias-conflict'', ''migration-capability-denied'', ''migration-correction-conflict'',
     ''migration-digest-mismatch'', ''migration-export-nondeterminism'', ''migration-fence-detected'',
     ''migration-import-finalization-refused'', ''migration-operation-drift'', ''migration-relation-invalid'',
     ''migration-run-conflict'', ''migration-signature-invalid'', ''migration-source-selection-drift'',
     ''migration-source-tainted'', ''poison-not-found'', ''proposal-already-decided'', ''proposal-append-forbidden'',
     ''proposal-credential-invalid'', ''proposal-decision-forbidden'', ''proposal-evidence-invalid'',
     ''proposal-evidence-unavailable'', ''proposal-invalid'', ''proposal-kind-invalid'', ''proposal-not-found'',
     ''proposal-project-invalid'', ''proposal-project-unavailable'', ''proposal-quote-invalid'',
     ''proposal-quote-mismatch'', ''proposal-reason-invalid'', ''proposal-related-not-found'',
     ''proposal-state-invalid'', ''proposal-target-not-found'', ''proposal-version-conflict'',
     ''proposal-watermark-invalid'', ''prohibited-data-class'', ''project-delivery-unavailable'',
     ''project-grant-required'', ''project-scope-denied'', ''request-capture-forbidden'', ''invalid-request'',
     ''request-import-forbidden'', ''request-owner-forbidden'', ''request-project-unavailable'',
     ''request-source-forbidden'', ''request-transition-forbidden'', ''request-triage-forbidden'',
     ''ruling-already-superseded'', ''ruling-not-found'', ''ruling-project-unavailable'',
     ''ruling-request-already-answered'', ''ruling-request-not-decision'', ''ruling-request-not-found'',
     ''ruling-seat-not-found'', ''reauthentication-required'', ''request-body-too-large'',
     ''proof-candidate-author-mismatch'', ''proof-candidate-digest-invalid'', ''proof-candidate-digest-not-current'',
     ''proof-candidate-unchanged'', ''proof-criteria-already-frozen'', ''proof-criteria-invalid'',
     ''proof-criteria-policy-mismatch'', ''proof-criterion-unknown'', ''proof-current-evidence-missing'',
     ''proof-evidence-digest-mismatch'', ''proof-evidence-id-conflict'', ''proof-protected-authority-required'',
     ''proof-policy-mismatch'', ''proof-policy-pin-mismatch'', ''proof-self-review-refused'',
     ''proof-verdict-id-conflict'', ''review-dispatch-already-consumed'', ''review-dispatch-family-conflict'',
     ''review-dispatch-incomplete'', ''review-dispatch-input-missing'', ''review-dispatch-model-unbound'',
     ''review-dispatch-self-review'', ''review-dispatch-unavailable'', ''seat-binding-conflict'',
     ''seat-credential-active'', ''seat-credential-unavailable'', ''seat-display-name-conflict'',
     ''session-ineligible'', ''session-not-found'', ''session-transition-invalid'', ''spawn-not-found'',
     ''tenant-not-found'', ''tenant-scope-denied'', ''transition-conflict'', ''ticket-comment-ineligible'',
     ''ticket-comment-invalid'', ''unauthorized'', ''validation-error'', ''version-conflict'',
     ''work-assignment-kind-refused'', ''work-assignment-target-ineligible'', ''work-assignment-unchanged'',
     ''work-priority-unchanged'', ''work-blocker-already-resolved'', ''work-blocker-id-conflict'',
     ''work-blocker-owner-ineligible'', ''work-blocker-unknown'', ''work-intent-unmet'', ''work-relation-cycle'',
     ''work-relation-exists'', ''work-reopen-unmet'', ''work-ticket-terminal'', ''workflow-already-started'',
     ''workflow-pin-mismatch'', ''workflow-predicate-unsatisfied'', ''workflow-run-not-started'',
     ''proof-incomplete'', ''workflow-state-conflict'', ''workflow-terminal'', ''workflow-transition-not-declared'',
     ''workflow-version-unknown'', ''workflow-not-terminal'']"

definition authored_refusals :: "string list" where
  "authored_refusals = filter reason_name (map slug problem_codes)"

definition unrecognized_refusal :: string where
  "unrecognized_refusal = ''unrecognized_refusal''"

definition refusal_name :: "string \<Rightarrow> string" where
  "refusal_name code = (if slug code \<in> set authored_refusals then slug code else unrecognized_refusal)"

record server_refusal =
  sr_status :: int
  sr_name :: string

definition refusal_dump :: "server_refusal option \<Rightarrow> json" where
  "refusal_dump r =
     (case r of None \<Rightarrow> JNull | Some x \<Rightarrow> JObj [(''name'', JStr (sr_name x)), (''status'', JInt (sr_status x))])"

text \<open>
  \<open>_canonical_refusal\<close> on a document, then the bounds of \<open>ServerRefusal\<close>: any refusal is rebuilt through the
  allowlist. \<open>None\<close> stands for both the \<open>TypeError\<close> of another shape and the validation error.
\<close>

definition refusal_read :: "json \<Rightarrow> server_refusal option option" where
  "refusal_read v =
     (case v of
        JNull \<Rightarrow> Some None
      | JObj ms \<Rightarrow>
          (case (map_of ms ''status'', map_of ms ''name'') of
             (Some (JInt n), Some (JStr name)) \<Rightarrow>
               if 400 \<le> n \<and> n \<le> 599 then Some (Some \<lparr>sr_status = n, sr_name = refusal_name name\<rparr>) else None
           | _ \<Rightarrow> None)
      | _ \<Rightarrow> None)"

section \<open>Operations\<close>

text \<open>\<open>OPERATIONS\<close>: each operation with its \<open>mutation\<close> flag and whether its spool policy is \<open>ALLOWED\<close>.\<close>

definition operations :: "(string \<times> bool \<times> bool) list" where
  "operations =
    [
     (''acknowledgeInboxMessage'', True, True), (''addKnowledgeDocument'', True, True),
     (''addTicketComment'', True, True), (''addTicketRelation'', True, True), (''allowConsoleSession'', True, False),
     (''appendAttentionFinding'', True, True), (''appendCtowerProjectImportCorrection'', True, False),
     (''appendRequestMaintenanceProposal'', True, True), (''appendRuling'', True, True),
     (''appendSpawnTransition'', True, True), (''applyCompanyBundle'', True, True),
     (''applyCtowerProjectImportBatch'', True, False), (''applyTicketIntent'', True, True),
     (''applyTicketLabel'', True, True), (''assignRequestOwner'', True, True),
     (''bindCtowerProjectAliasPlan'', True, False), (''bindCtowerProjectExportEquality'', True, False),
     (''bindDreamLane'', True, False), (''bootstrapFirstTenant'', True, False), (''captureRequest'', True, True),
     (''changeTicketAssignment'', True, True), (''changeTicketPriority'', True, True),
     (''commitCtowerProjectDevelopmentEpoch'', False, False), (''confirmRequestMaintenanceProposal'', True, True),
     (''consumeDreamDispatchEffect'', True, True), (''consumeReviewDispatchEffect'', True, True),
     (''createCtowerProjectImportRun'', True, False), (''createSpawnRecord'', True, True),
     (''createTicket'', True, True), (''evaluateRequestClosure'', True, True),
     (''exportCompanyBundle'', False, False), (''finalizeCtowerProjectImportRun'', True, False),
     (''freezeProofCriteria'', True, True), (''getBoard'', False, False), (''getControlHealth'', False, False),
     (''getCtowerProjectCutoverHealth'', False, False), (''getCtowerProjectImportRun'', False, False),
     (''getKnowledgeDocument'', False, False), (''getMorningDigest'', False, False),
     (''getMovementAtom'', False, False), (''getProjectDelivery'', False, False),
     (''getRequestMaintenanceReview'', False, False), (''getRuling'', False, False),
     (''getSpawnRecord'', False, False), (''getSyntheticWorkflowRun'', False, False), (''getTicket'', False, False),
     (''getTicketTimeline'', False, False), (''importEstateCompanyRecords'', True, False),
     (''importEstateInbox'', True, False), (''importEstateKnowledge'', True, False),
     (''importEstateRulings'', True, False), (''ingestInboxNotification'', True, True),
     (''issueSeatCredential'', True, False), (''listDreamDispatchEffects'', False, False),
     (''listInboxCorrespondents'', False, False), (''listInboxThreads'', False, False),
     (''listKnowledgeDocuments'', False, False), (''listProjectEvents'', False, False),
     (''listProjectSessions'', False, False), (''listRequestMaintenanceProposals'', False, False),
     (''listRequests'', False, False), (''listReviewDispatchEffects'', False, False),
     (''listRulings'', False, False), (''listSpawnRecords'', False, False),
     (''listTicketAssignments'', False, False), (''listTicketAuditEvents'', False, False),
     (''listTicketMovement'', False, False), (''listTicketSessions'', False, False),
     (''listVisibleConsoleSessions'', False, False), (''mintConsoleViewGrant'', True, False),
     (''planCompanyBundle'', False, False), (''prepareCtowerProjectCutover'', False, False),
     (''prioritizeRequest'', True, True), (''promoteInboxThread'', True, True), (''promoteIntakeEvent'', True, True),
     (''readInboxMessageState'', False, False), (''readInboxThread'', False, False),
     (''readPoolLimits'', False, False), (''recordAttentionFindingDisposition'', True, True),
     (''recordOutboxPoisonDisposition'', True, True), (''recordPoolObservation'', True, True),
     (''recordProofEvidence'', True, True), (''recordProofVerdict'', True, True),
     (''recordTicketChangeReference'', True, True), (''recordTicketSessionFact'', True, True),
     (''rejectRequestMaintenanceProposal'', True, True), (''relateRequestTicket'', True, True),
     (''renewConsoleViewGrant'', True, False), (''reportCtowerProjectFenceObservation'', True, False),
     (''resolveCloseWorkflow'', True, True), (''revokeConsoleSession'', True, False),
     (''revokeSeatCredential'', True, False), (''runSyntheticWorkflow'', True, True),
     (''sendInboxMessage'', True, True), (''setConsoleKillSwitch'', True, False),
     (''setRequestBlocker'', True, True), (''startTicketSession'', True, True),
     (''startTicketWorkflow'', True, True), (''streamConsoleEvents'', True, False), (''submitIntake'', True, True),
     (''transferTicketCustody'', True, True), (''transitionWorkflow'', True, True), (''triageRequest'', True, True),
     (''validateCompanyBundle'', False, False)]"

definition spoolable_operation :: "string \<Rightarrow> bool" where
  "spoolable_operation op = (case map_of operations op of None \<Rightarrow> False | Some (mutation, allowed) \<Rightarrow> mutation \<and> allowed)"

section \<open>A kept name is named again by itself\<close>

abbreviation (input) low :: char where
  "low \<equiv> CHR ''_''"

definition slug_like :: "string \<Rightarrow> bool" where
  "slug_like t \<longleftrightarrow>
     list_all (\<lambda>c. plain_char c \<or> c = low) t \<and> successively (\<lambda>c d. \<not> (c = low \<and> d = low)) t \<and> length t \<le> 64 \<and>
     (t \<noteq> [] \<longrightarrow> hd t \<noteq> low \<and> last t \<noteq> low)"

lemma not_plain_low [simp]: "\<not> plain_char low"
  by (simp add: plain_char_def is_lower_def is_digit_def)

lemma fold_plain: "list_all (\<lambda>c. plain_char c \<or> c = low) t \<Longrightarrow> fold_ascii t = t"
proof (induction t)
  case (Cons c t)
  have small: "of_char c < (128 :: nat)" "lower_char c = c"
    using Cons.prems by (auto simp: plain_char_def is_lower_def is_digit_def lower_char_def)
  have "find (\<lambda>(bytes, out). take (length bytes) (map of_char (c # t)) = bytes) special_foldings = None"
    unfolding find_None_iff special_foldings_def using small(1) by auto
  then show ?case using Cons small(2) by simp
qed simp

lemma separate_shape:
  "list_all (\<lambda>c. plain_char c \<or> c = low) (separate inside s) \<and>
   successively (\<lambda>c d. \<not> (c = low \<and> d = low)) (separate inside s) \<and>
   (inside \<longrightarrow> separate inside s = [] \<or> hd (separate inside s) \<noteq> low)"
  by (induction inside s rule: separate.induct) (auto simp: successively_Cons)

lemma separate_same:
  "list_all (\<lambda>c. plain_char c \<or> c = low) t \<Longrightarrow> successively (\<lambda>c d. \<not> (c = low \<and> d = low)) t \<Longrightarrow>
   (inside \<longrightarrow> t = [] \<or> hd t \<noteq> low) \<Longrightarrow> separate inside t = t"
  by (induction inside t rule: separate.induct) (auto simp: successively_Cons)

lemma successively_take: "successively P xs \<Longrightarrow> successively P (take n xs)"
  using successively_append_iff [of P "take n xs" "drop n xs"] by simp

definition drop_low :: "string \<Rightarrow> string" where
  "drop_low = dropWhile (\<lambda>c. c = low)"

lemma drop_low_hd: "drop_low t \<noteq> [] \<Longrightarrow> hd (drop_low t) \<noteq> low"
  unfolding drop_low_def by (erule hd_dropWhile)

lemma drop_low_same: "t = [] \<or> hd t \<noteq> low \<Longrightarrow> drop_low t = t"
  unfolding drop_low_def by (cases t) auto

lemma drop_low_suffix: "\<exists>u. t = u @ drop_low t"
  unfolding drop_low_def by (metis takeWhile_dropWhile_id)

lemma strip_low_alt: "strip_low t = rev (drop_low (rev (drop_low t)))"
  by (simp add: strip_low_def drop_low_def)

text \<open>What is stripped from a text is a prefix and a suffix of it.\<close>

lemma strip_low_middle: "\<exists>u v. drop_low t = strip_low t @ v \<and> t = u @ strip_low t @ v"
proof -
  obtain u where u: "t = u @ drop_low t" using drop_low_suffix by blast
  obtain v where "rev (drop_low t) = v @ drop_low (rev (drop_low t))" using drop_low_suffix by blast
  then have "drop_low t = strip_low t @ rev v" unfolding strip_low_alt by (metis rev_append rev_rev_ident)
  then show ?thesis using u by metis
qed

lemma strip_low_ends:
  assumes "strip_low t \<noteq> []"
  shows "hd (strip_low t) \<noteq> low \<and> last (strip_low t) \<noteq> low"
proof -
  obtain v where v: "drop_low t = strip_low t @ v" using strip_low_middle by blast
  then have "hd (strip_low t) = hd (drop_low t)" "drop_low t \<noteq> []" using assms by simp_all
  moreover have "drop_low (rev (drop_low t)) \<noteq> []" using assms by (simp add: strip_low_alt)
  ultimately show ?thesis using drop_low_hd [of t] drop_low_hd [of "rev (drop_low t)"]
    by (simp add: strip_low_alt last_rev)
qed

lemma strip_low_same: "t = [] \<or> hd t \<noteq> low \<and> last t \<noteq> low \<Longrightarrow> strip_low t = t"
  by (auto simp: strip_low_alt drop_low_same hd_rev)

lemma slug_shape: "slug_like (slug s)"
proof -
  let ?x = "take 64 (separate False (fold_ascii s))"
  have shape: "list_all (\<lambda>c. plain_char c \<or> c = low) ?x" "successively (\<lambda>c d. \<not> (c = low \<and> d = low)) ?x"
    using separate_shape [of False "fold_ascii s"] successively_take by (auto simp: list_all_iff dest: in_set_takeD)
  obtain u v where x: "?x = u @ strip_low ?x @ v" using strip_low_middle by blast
  have "list_all (\<lambda>c. plain_char c \<or> c = low) (u @ strip_low ?x @ v)"
    "successively (\<lambda>c d. \<not> (c = low \<and> d = low)) (u @ strip_low ?x @ v)"
    using shape unfolding x [symmetric] by simp_all
  moreover have "length u + length (strip_low ?x) + length v \<le> 64"
    using arg_cong [OF x, of length] by simp
  ultimately show ?thesis
    using strip_low_ends [of ?x] by (auto simp: slug_like_def slug_def successively_append_iff)
qed

lemma slug_same: "slug_like t \<Longrightarrow> slug t = t"
  by (cases "t = []") (simp_all add: slug_like_def slug_def fold_plain separate_same strip_low_same)

lemma slug_idem [simp]: "slug (slug s) = slug s"
  by (rule slug_same [OF slug_shape])

lemma slug_unrecognized: "slug unrecognized_refusal = unrecognized_refusal"
  by (rule slug_same) (simp add: slug_like_def unrecognized_refusal_def plain_char_def is_lower_def)

lemma refusal_name_idem [simp]: "refusal_name (refusal_name code) = refusal_name code"
  by (simp add: refusal_name_def slug_unrecognized)

definition valid_refusal :: "server_refusal option \<Rightarrow> bool" where
  "valid_refusal r \<longleftrightarrow> (\<forall>x. r = Some x \<longrightarrow> 400 \<le> sr_status x \<and> sr_status x \<le> 599 \<and> refusal_name (sr_name x) = sr_name x)"

lemma valid_no_refusal [simp]: "valid_refusal None"
  by (simp add: valid_refusal_def)

lemma refusal_read_dump: "valid_refusal r \<Longrightarrow> refusal_read (refusal_dump r) = Some r"
  by (auto simp: refusal_read_def refusal_dump_def valid_refusal_def split: option.splits)

lemma refusal_read_valid: "refusal_read v = Some r \<Longrightarrow> valid_refusal r"
  by (auto simp: refusal_read_def valid_refusal_def split: json.splits option.splits if_splits)

end
