(* ===== verification/SpoolModels.thy ===== *)
theory SpoolModels
  imports SpoolRedaction
begin

text \<open>
  \<open>ctowerctl/spool/_models.py\<close> and the file vocabulary of \<open>_store.py\<close> and \<open>_crypto.py\<close>: what is written
  inside the records of the command spool. A pydantic model is a record with its \<open>model_dump\<close> as the members of
  an object and its strict reader (closed fields, types, patterns, bounds); an optional field may be absent
  or null. Every \<open>model_dump\<close> lists its members in the order \<open>canonical_json\<close> writes them.
\<close>

section \<open>Faults\<close>

text \<open>\<open>ChainError\<close> carries its code; \<open>ScanLimitError\<close> is a \<open>StorageError\<close>, a pydantic error a \<open>ValueError\<close>;
  \<open>Uncaught\<close> is an exception no caller expects.\<close>

datatype spool_fault =
    CryptoError string
  | ChainError string string
  | StorageError string
  | ScanLimitError string
  | SecretMaterialError string
  | InvalidValue string
  | KeyringError string
  | Uncaught string
  | SpoolError string string

type_synonym 'a spool = "spool_fault + 'a"

definition chain_error :: "string \<Rightarrow> spool_fault" where
  "chain_error message = ChainError ''chain_integrity'' message"

section \<open>Files and records\<close>

definition genesis_hash :: string where
  "genesis_hash = replicate 64 (CHR ''0'')"

definition record_types :: "string list" where
  "record_types =
     [''command'', ''accepted_receipt'', ''quarantine_receipt'', ''disposition'', ''corrupt_disposition'', ''anchor'']"

definition spool_directories :: "string list" where
  "spool_directories = [''pending'', ''accepted'', ''quarantine'', ''anchors'']"

record stored_file =
  st_dir :: string
  st_name :: string
  st_seq :: int
  st_kind :: string
  st_size :: nat

text \<open>The header fields the chain reads; the format, key and cipher fields stay inside the record format.\<close>

record opened_record =
  op_type :: string
  op_seq :: int
  op_pred :: string
  op_payload :: members
  op_hash :: string

record recovered_record =
  rc_stored :: stored_file
  rc_opened :: opened_record
  rc_digest :: string

record corrupt_record =
  co_stored :: stored_file
  co_digest :: string
  co_hash :: string
  co_pred :: string

text \<open>\<open>f"{sequence:020d}.{record_type}.rec"\<close> and the pattern that reads it back.\<close>

definition record_name :: "int \<Rightarrow> string \<Rightarrow> string" where
  "record_name n kind = pad_int 20 n @ ''.'' @ kind @ ''.rec''"

definition parse_record_name :: "string \<Rightarrow> (int \<times> string) option" where
  "parse_record_name name =
     (let ds = take 20 name in
      if length ds = 20 \<and> list_all is_digit ds
      then map_option (\<lambda>kind. (int (read_nat ds), kind))
        (find (\<lambda>kind. drop 20 name = ''.'' @ kind @ ''.rec'') record_types)
      else None)"

section \<open>Reading fields\<close>

definition hex_text :: "nat \<Rightarrow> string \<Rightarrow> bool" where
  "hex_text n s \<longleftrightarrow> length s = n \<and> list_all is_hex_lower s"

definition closed_fields :: "members \<Rightarrow> string list \<Rightarrow> bool" where
  "closed_fields ms names \<longleftrightarrow> (\<forall>(k, v) \<in> set ms. k \<in> set names)"

definition field_int :: "(int \<Rightarrow> bool) \<Rightarrow> members \<Rightarrow> string \<Rightarrow> int option" where
  "field_int ok ms k = (case map_of ms k of Some (JInt i) \<Rightarrow> if ok i then Some i else None | _ \<Rightarrow> None)"

definition field_str :: "(string \<Rightarrow> bool) \<Rightarrow> members \<Rightarrow> string \<Rightarrow> string option" where
  "field_str ok ms k = (case map_of ms k of Some (JStr s) \<Rightarrow> if ok s then Some s else None | _ \<Rightarrow> None)"

definition field_opt :: "(string \<Rightarrow> bool) \<Rightarrow> members \<Rightarrow> string \<Rightarrow> string option option" where
  "field_opt ok ms k =
     (case map_of ms k of
        None \<Rightarrow> Some None
      | Some JNull \<Rightarrow> Some None
      | Some (JStr s) \<Rightarrow> if ok s then Some (Some s) else None
      | _ \<Rightarrow> None)"

definition field_obj :: "members \<Rightarrow> string \<Rightarrow> members option" where
  "field_obj ms k = (case map_of ms k of Some (JObj vs) \<Rightarrow> Some vs | _ \<Rightarrow> None)"

fun text_of :: "json \<Rightarrow> string option" where
  "text_of (JStr s) = Some s" | "text_of _ = None"

definition field_texts :: "members \<Rightarrow> string \<Rightarrow> string list option" where
  "field_texts ms k = (case map_of ms k of Some (JList vs) \<Rightarrow> those (map text_of vs) | _ \<Rightarrow> None)"

definition field_json :: "members \<Rightarrow> string \<Rightarrow> json" where
  "field_json ms k = (case map_of ms k of None \<Rightarrow> JNull | Some v \<Rightarrow> v)"

definition opt_text :: "string option \<Rightarrow> json" where
  "opt_text s = (case s of None \<Rightarrow> JNull | Some t \<Rightarrow> JStr t)"

lemmas field_defs = field_int_def field_str_def field_opt_def field_obj_def field_texts_def field_json_def opt_text_def

lemma those_texts [simp]: "those (map (text_of \<circ> JStr) ss) = Some ss"
  by (induction ss) auto

section \<open>Control documents\<close>

record head_doc =
  hd_seq :: int
  hd_hash :: string

definition head_dump :: "head_doc \<Rightarrow> members" where
  "head_dump h = [(''format_version'', JInt 1), (''record_hash'', JStr (hd_hash h)), (''sequence'', JInt (hd_seq h))]"

definition head_read :: "members \<Rightarrow> head_doc option" where
  "head_read ms =
     (if closed_fields ms [''format_version'', ''sequence'', ''record_hash'']
      then Option.bind (field_int (\<lambda>i. i = 1) ms ''format_version'') (\<lambda>_.
           Option.bind (field_int (\<lambda>i. 0 \<le> i) ms ''sequence'') (\<lambda>n.
           Option.bind (field_str (hex_text 64) ms ''record_hash'') (\<lambda>h. Some \<lparr>hd_seq = n, hd_hash = h\<rparr>)))
      else None)"

record cursor_doc =
  cu_seq :: int
  cu_hash :: string
  cu_digest :: string

definition cursor_dump :: "cursor_doc \<Rightarrow> members" where
  "cursor_dump c =
     [(''format_version'', JInt 1), (''record_hash'', JStr (cu_hash c)), (''sequence'', JInt (cu_seq c)),
      (''state_digest'', JStr (cu_digest c))]"

definition cursor_read :: "members \<Rightarrow> cursor_doc option" where
  "cursor_read ms =
     (if closed_fields ms [''format_version'', ''sequence'', ''record_hash'', ''state_digest'']
      then Option.bind (field_int (\<lambda>i. i = 1) ms ''format_version'') (\<lambda>_.
           Option.bind (field_int (\<lambda>i. 0 \<le> i) ms ''sequence'') (\<lambda>n.
           Option.bind (field_str (hex_text 64) ms ''record_hash'') (\<lambda>h.
           Option.bind (field_str (hex_text 64) ms ''state_digest'') (\<lambda>d.
             Some \<lparr>cu_seq = n, cu_hash = h, cu_digest = d\<rparr>))))
      else None)"

section \<open>Record payloads\<close>

record command_envelope =
  ce_version :: int
  ce_operation :: string
  ce_path :: members
  ce_body :: members
  ce_command :: string
  ce_origin :: string
  ce_enqueued :: string
  ce_expires :: string
  ce_semantic :: string
  ce_binding :: "string option"

definition operation_name :: "string \<Rightarrow> bool" where
  "operation_name s \<longleftrightarrow>
     (case s of [] \<Rightarrow> False
      | c # cs \<Rightarrow>
          (is_lower c \<or> 65 \<le> (of_char c :: nat) \<and> (of_char c :: nat) \<le> 90) \<and> length cs \<le> 127 \<and>
          list_all (\<lambda>d. is_lower d \<or> is_digit d \<or> 65 \<le> (of_char d :: nat) \<and> (of_char d :: nat) \<le> 90) cs)"

definition envelope_dump :: "command_envelope \<Rightarrow> members" where
  "envelope_dump e =
     [(''command_id'', JStr (ce_command e)), (''credential_binding'', opt_text (ce_binding e)),
      (''enqueued_at'', JStr (ce_enqueued e)), (''expires_at'', JStr (ce_expires e)),
      (''operation_id'', JStr (ce_operation e)), (''origin_digest'', JStr (ce_origin e)),
      (''path_parameters'', JObj (ce_path e)), (''request_body'', JObj (ce_body e)),
      (''schema_version'', JInt (ce_version e)), (''semantic_request_digest'', JStr (ce_semantic e))]"

definition envelope_read :: "members \<Rightarrow> command_envelope option" where
  "envelope_read ms =
     (if closed_fields ms [''schema_version'', ''operation_id'', ''path_parameters'', ''request_body'', ''command_id'',
           ''origin_digest'', ''enqueued_at'', ''expires_at'', ''semantic_request_digest'', ''credential_binding'']
      then Option.bind (field_int (\<lambda>i. i = 1 \<or> i = 2) ms ''schema_version'') (\<lambda>v.
           Option.bind (field_str operation_name ms ''operation_id'') (\<lambda>op.
           Option.bind (field_obj ms ''path_parameters'') (\<lambda>path.
           Option.bind (field_obj ms ''request_body'') (\<lambda>body.
           Option.bind (field_str (\<lambda>_. True) ms ''command_id'') (\<lambda>command.
           Option.bind (field_str (hex_text 64) ms ''origin_digest'') (\<lambda>origin.
           Option.bind (field_str (\<lambda>_. True) ms ''enqueued_at'') (\<lambda>enqueued.
           Option.bind (field_str (\<lambda>_. True) ms ''expires_at'') (\<lambda>expires.
           Option.bind (field_str (hex_text 64) ms ''semantic_request_digest'') (\<lambda>semantic.
           Option.bind (field_opt (hex_text 64) ms ''credential_binding'') (\<lambda>binding.
             if (v = 2) \<noteq> (binding \<noteq> None) then None
             else Some \<lparr>ce_version = v, ce_operation = op, ce_path = path, ce_body = body, ce_command = command,
               ce_origin = origin, ce_enqueued = enqueued, ce_expires = expires, ce_semantic = semantic,
               ce_binding = binding\<rparr>))))))))))
      else None)"

record accepted_receipt =
  ar_seq :: int
  ar_hash :: string
  ar_command :: string
  ar_status :: int
  ar_response :: "members option"
  ar_digest :: string
  ar_events :: "string list"
  ar_position :: "string option"
  ar_at :: string

definition opt_obj :: "members option \<Rightarrow> json" where
  "opt_obj v = (case v of None \<Rightarrow> JNull | Some ms \<Rightarrow> JObj ms)"

text \<open>A field of type \<open>JsonObject | None\<close> or \<open>str | None\<close> with no default must be present.\<close>

definition field_null_obj :: "members \<Rightarrow> string \<Rightarrow> members option option" where
  "field_null_obj ms k =
     (case map_of ms k of Some JNull \<Rightarrow> Some None | Some (JObj vs) \<Rightarrow> Some (Some vs) | _ \<Rightarrow> None)"

definition field_null :: "(string \<Rightarrow> bool) \<Rightarrow> members \<Rightarrow> string \<Rightarrow> string option option" where
  "field_null ok ms k =
     (case map_of ms k of Some JNull \<Rightarrow> Some None | Some (JStr s) \<Rightarrow> if ok s then Some (Some s) else None | _ \<Rightarrow> None)"

definition accepted_dump :: "accepted_receipt \<Rightarrow> members" where
  "accepted_dump r =
     [(''acceptance_position'', opt_text (ar_position r)), (''accepted_at'', JStr (ar_at r)),
      (''command_hash'', JStr (ar_hash r)), (''command_id'', JStr (ar_command r)), (''command_sequence'', JInt (ar_seq r)),
      (''durability_state'', JStr ''accepted''), (''event_ids'', JList (map JStr (ar_events r))),
      (''response'', opt_obj (ar_response r)), (''response_digest'', JStr (ar_digest r)),
      (''schema_version'', JInt 1), (''status_code'', JInt (ar_status r))]"

definition accepted_read :: "members \<Rightarrow> accepted_receipt option" where
  "accepted_read ms =
     (if closed_fields ms [''schema_version'', ''command_sequence'', ''command_hash'', ''command_id'', ''status_code'',
           ''durability_state'', ''response'', ''response_digest'', ''event_ids'', ''acceptance_position'', ''accepted_at'']
      then Option.bind (field_int (\<lambda>i. i = 1) ms ''schema_version'') (\<lambda>_.
           Option.bind (field_int (\<lambda>i. 1 \<le> i) ms ''command_sequence'') (\<lambda>n.
           Option.bind (field_str (hex_text 64) ms ''command_hash'') (\<lambda>h.
           Option.bind (field_str (\<lambda>_. True) ms ''command_id'') (\<lambda>command.
           Option.bind (field_int (\<lambda>i. 200 \<le> i \<and> i \<le> 299) ms ''status_code'') (\<lambda>status.
           Option.bind (field_str (\<lambda>s. s = ''accepted'') ms ''durability_state'') (\<lambda>_.
           Option.bind (field_null_obj ms ''response'') (\<lambda>response.
           Option.bind (field_str (hex_text 64) ms ''response_digest'') (\<lambda>digest.
           Option.bind (field_texts ms ''event_ids'') (\<lambda>events.
           Option.bind (field_null (\<lambda>_. True) ms ''acceptance_position'') (\<lambda>position.
           Option.bind (field_str (\<lambda>_. True) ms ''accepted_at'') (\<lambda>at.
             Some \<lparr>ar_seq = n, ar_hash = h, ar_command = command, ar_status = status, ar_response = response,
               ar_digest = digest, ar_events = events, ar_position = position, ar_at = at\<rparr>)))))))))))
      else None)"

record quarantine_receipt =
  qr_version :: int
  qr_seq :: int
  qr_hash :: string
  qr_reason :: string
  qr_digest :: "string option"
  qr_at :: string
  qr_refusal :: "server_refusal option"

definition quarantine_dump :: "quarantine_receipt \<Rightarrow> members" where
  "quarantine_dump q =
     [(''command_hash'', JStr (qr_hash q)), (''command_sequence'', JInt (qr_seq q)), (''quarantined_at'', JStr (qr_at q)),
      (''reason_code'', JStr (qr_reason q)), (''refusal'', refusal_dump (qr_refusal q)), (''response_digest'', opt_text (qr_digest q)),
      (''schema_version'', JInt (qr_version q))]"

definition quarantine_read :: "members \<Rightarrow> quarantine_receipt option" where
  "quarantine_read ms =
     (if closed_fields ms [''schema_version'', ''command_sequence'', ''command_hash'', ''reason_code'', ''response_digest'',
           ''quarantined_at'', ''refusal'']
      then Option.bind (field_int (\<lambda>i. i = 1 \<or> i = 2) ms ''schema_version'') (\<lambda>v.
           Option.bind (field_int (\<lambda>i. 1 \<le> i) ms ''command_sequence'') (\<lambda>n.
           Option.bind (field_str (hex_text 64) ms ''command_hash'') (\<lambda>h.
           Option.bind (field_str reason_name ms ''reason_code'') (\<lambda>reason.
           Option.bind (field_null (hex_text 64) ms ''response_digest'') (\<lambda>digest.
           Option.bind (field_str (\<lambda>_. True) ms ''quarantined_at'') (\<lambda>at.
           Option.bind (refusal_read (field_json ms ''refusal'')) (\<lambda>refusal.
             if v \<noteq> 2 \<and> refusal \<noteq> None then None
             else Some \<lparr>qr_version = v, qr_seq = n, qr_hash = h, qr_reason = reason, qr_digest = digest, qr_at = at,
               qr_refusal = refusal\<rparr>)))))))
      else None)"

record disposition_doc =
  dp_version :: int
  dp_seq :: int
  dp_hash :: string
  dp_pred :: "string option"
  dp_action :: string
  dp_reason :: string
  dp_at :: string

definition disposition_dump :: "disposition_doc \<Rightarrow> members" where
  "disposition_dump d =
     [(''action'', JStr (dp_action d)), (''command_hash'', JStr (dp_hash d)),
      (''command_predecessor_hash'', opt_text (dp_pred d)), (''command_sequence'', JInt (dp_seq d)),
      (''reason_digest'', JStr (dp_reason d)), (''recorded_at'', JStr (dp_at d)), (''schema_version'', JInt (dp_version d))]"

definition disposition_read :: "members \<Rightarrow> disposition_doc option" where
  "disposition_read ms =
     (if closed_fields ms [''schema_version'', ''command_sequence'', ''command_hash'', ''command_predecessor_hash'',
           ''action'', ''reason_digest'', ''recorded_at'']
      then Option.bind (field_int (\<lambda>i. i = 1 \<or> i = 2) ms ''schema_version'') (\<lambda>v.
           Option.bind (field_int (\<lambda>i. 1 \<le> i) ms ''command_sequence'') (\<lambda>n.
           Option.bind (field_str (hex_text 64) ms ''command_hash'') (\<lambda>h.
           Option.bind (field_opt (hex_text 64) ms ''command_predecessor_hash'') (\<lambda>pred.
           Option.bind (field_str (\<lambda>s. s = ''retry'' \<or> s = ''discard'') ms ''action'') (\<lambda>act.
           Option.bind (field_str (hex_text 64) ms ''reason_digest'') (\<lambda>reason.
           Option.bind (field_str (\<lambda>_. True) ms ''recorded_at'') (\<lambda>at.
             if (v = 2 \<and> act = ''discard'') \<noteq> (pred \<noteq> None) then None
             else Some \<lparr>dp_version = v, dp_seq = n, dp_hash = h, dp_pred = pred, dp_action = act, dp_reason = reason,
               dp_at = at\<rparr>)))))))
      else None)"

record corrupt_disposition =
  cd_seq :: int
  cd_hash :: string
  cd_pred :: string
  cd_digest :: string
  cd_bytes :: int
  cd_reason :: string
  cd_at :: string

definition corrupt_dump :: "corrupt_disposition \<Rightarrow> members" where
  "corrupt_dump d =
     [(''action'', JStr ''discard''), (''artifact_bytes'', JInt (cd_bytes d)), (''artifact_digest'', JStr (cd_digest d)),
      (''command_hash'', JStr (cd_hash d)), (''command_predecessor_hash'', JStr (cd_pred d)),
      (''command_sequence'', JInt (cd_seq d)), (''reason_digest'', JStr (cd_reason d)), (''recorded_at'', JStr (cd_at d)),
      (''schema_version'', JInt 1)]"

definition corrupt_read :: "members \<Rightarrow> corrupt_disposition option" where
  "corrupt_read ms =
     (if closed_fields ms [''schema_version'', ''command_sequence'', ''command_hash'', ''command_predecessor_hash'',
           ''artifact_digest'', ''artifact_bytes'', ''action'', ''reason_digest'', ''recorded_at'']
      then Option.bind (field_int (\<lambda>i. i = 1) ms ''schema_version'') (\<lambda>_.
           Option.bind (field_int (\<lambda>i. 1 \<le> i) ms ''command_sequence'') (\<lambda>n.
           Option.bind (field_str (hex_text 64) ms ''command_hash'') (\<lambda>h.
           Option.bind (field_str (hex_text 64) ms ''command_predecessor_hash'') (\<lambda>pred.
           Option.bind (field_str (hex_text 64) ms ''artifact_digest'') (\<lambda>digest.
           Option.bind (field_int (\<lambda>i. 1 \<le> i) ms ''artifact_bytes'') (\<lambda>bytes.
           Option.bind (field_str (\<lambda>s. s = ''discard'') ms ''action'') (\<lambda>_.
           Option.bind (field_str (hex_text 64) ms ''reason_digest'') (\<lambda>reason.
           Option.bind (field_str (\<lambda>_. True) ms ''recorded_at'') (\<lambda>at.
             Some \<lparr>cd_seq = n, cd_hash = h, cd_pred = pred, cd_digest = digest, cd_bytes = bytes, cd_reason = reason,
               cd_at = at\<rparr>)))))))))
      else None)"

record anchor_doc =
  an_from :: int
  an_through :: int
  an_terminal :: string
  an_at :: string

definition anchor_dump :: "anchor_doc \<Rightarrow> members" where
  "anchor_dump a =
     [(''covered_from'', JInt (an_from a)), (''covered_through'', JInt (an_through a)), (''created_at'', JStr (an_at a)),
      (''schema_version'', JInt 1), (''terminal_hash'', JStr (an_terminal a))]"

definition anchor_read :: "members \<Rightarrow> anchor_doc option" where
  "anchor_read ms =
     (if closed_fields ms [''schema_version'', ''covered_from'', ''covered_through'', ''terminal_hash'', ''created_at'']
      then Option.bind (field_int (\<lambda>i. i = 1) ms ''schema_version'') (\<lambda>_.
           Option.bind (field_int (\<lambda>i. 1 \<le> i) ms ''covered_from'') (\<lambda>from.
           Option.bind (field_int (\<lambda>i. 1 \<le> i) ms ''covered_through'') (\<lambda>through.
           Option.bind (field_str (hex_text 64) ms ''terminal_hash'') (\<lambda>terminal.
           Option.bind (field_str (\<lambda>_. True) ms ''created_at'') (\<lambda>at.
             Some \<lparr>an_from = from, an_through = through, an_terminal = terminal, an_at = at\<rparr>)))))
      else None)"

text \<open>\<open>_payload\<close>: the payload of a record under its model, or a chain error.\<close>

definition payload_of :: "(members \<Rightarrow> 'm option) \<Rightarrow> opened_record \<Rightarrow> 'm spool" where
  "payload_of read r =
     (case read (op_payload r) of
        None \<Rightarrow> Inl (chain_error ''durable record payload schema is unknown or invalid'')
      | Some m \<Rightarrow> Inr m)"

section \<open>Every model reads back what it dumps\<close>

text \<open>Sequences fit the twenty digits of a record name.\<close>

definition valid_number :: "int \<Rightarrow> bool" where
  "valid_number n \<longleftrightarrow> 0 \<le> n \<and> n < 10 ^ 20"

definition valid_head :: "head_doc \<Rightarrow> bool" where
  "valid_head h \<longleftrightarrow> valid_number (hd_seq h) \<and> hex_text 64 (hd_hash h)"

lemma head_read_dump: "valid_head h \<Longrightarrow> head_read (head_dump h) = Some h"
  by (simp add: head_read_def head_dump_def closed_fields_def field_defs valid_head_def valid_number_def)

definition valid_cursor :: "cursor_doc \<Rightarrow> bool" where
  "valid_cursor c \<longleftrightarrow> valid_number (cu_seq c) \<and> hex_text 64 (cu_hash c) \<and> hex_text 64 (cu_digest c)"

lemma cursor_read_dump: "valid_cursor c \<Longrightarrow> cursor_read (cursor_dump c) = Some c"
  by (simp add: cursor_read_def cursor_dump_def closed_fields_def field_defs valid_cursor_def valid_number_def)

definition valid_envelope :: "command_envelope \<Rightarrow> bool" where
  "valid_envelope e \<longleftrightarrow>
     ce_version e \<in> {1, 2} \<and> operation_name (ce_operation e) \<and> hex_text 64 (ce_origin e) \<and> hex_text 64 (ce_semantic e) \<and>
     (ce_version e = 2 \<longleftrightarrow> ce_binding e \<noteq> None) \<and> (\<forall>b. ce_binding e = Some b \<longrightarrow> hex_text 64 b)"

lemma envelope_read_dump: "valid_envelope e \<Longrightarrow> envelope_read (envelope_dump e) = Some e"
  by (cases "ce_binding e") (auto simp: envelope_read_def envelope_dump_def closed_fields_def field_defs valid_envelope_def)

definition valid_accepted :: "accepted_receipt \<Rightarrow> bool" where
  "valid_accepted r \<longleftrightarrow> 1 \<le> ar_seq r \<and> hex_text 64 (ar_hash r) \<and> 200 \<le> ar_status r \<and> ar_status r \<le> 299 \<and>
     hex_text 64 (ar_digest r)"

lemma accepted_read_dump: "valid_accepted r \<Longrightarrow> accepted_read (accepted_dump r) = Some r"
  by (cases "ar_response r"; cases "ar_position r")
    (simp_all add: accepted_read_def accepted_dump_def closed_fields_def field_defs field_null_def field_null_obj_def
      opt_obj_def valid_accepted_def)

definition valid_quarantine :: "quarantine_receipt \<Rightarrow> bool" where
  "valid_quarantine q \<longleftrightarrow> qr_version q \<in> {1, 2} \<and> 1 \<le> qr_seq q \<and> hex_text 64 (qr_hash q) \<and> reason_name (qr_reason q) \<and>
     (\<forall>d. qr_digest q = Some d \<longrightarrow> hex_text 64 d) \<and> (qr_version q = 2 \<or> qr_refusal q = None) \<and> valid_refusal (qr_refusal q)"

lemma quarantine_read_dump: "valid_quarantine q \<Longrightarrow> quarantine_read (quarantine_dump q) = Some q"
  by (cases "qr_digest q")
    (auto simp: quarantine_read_def quarantine_dump_def closed_fields_def field_defs field_null_def valid_quarantine_def
      refusal_read_dump)

definition valid_disposition :: "disposition_doc \<Rightarrow> bool" where
  "valid_disposition d \<longleftrightarrow> dp_version d \<in> {1, 2} \<and> 1 \<le> dp_seq d \<and> hex_text 64 (dp_hash d) \<and>
     dp_action d \<in> {''retry'', ''discard''} \<and> hex_text 64 (dp_reason d) \<and>
     (dp_version d = 2 \<and> dp_action d = ''discard'' \<longleftrightarrow> dp_pred d \<noteq> None) \<and>
     (\<forall>h. dp_pred d = Some h \<longrightarrow> hex_text 64 h)"

lemma disposition_read_dump: "valid_disposition d \<Longrightarrow> disposition_read (disposition_dump d) = Some d"
  by (cases "dp_pred d")
    (auto simp: disposition_read_def disposition_dump_def closed_fields_def field_defs valid_disposition_def)

definition valid_corrupt :: "corrupt_disposition \<Rightarrow> bool" where
  "valid_corrupt d \<longleftrightarrow> 1 \<le> cd_seq d \<and> hex_text 64 (cd_hash d) \<and> hex_text 64 (cd_pred d) \<and> hex_text 64 (cd_digest d) \<and>
     1 \<le> cd_bytes d \<and> hex_text 64 (cd_reason d)"

lemma corrupt_read_dump: "valid_corrupt d \<Longrightarrow> corrupt_read (corrupt_dump d) = Some d"
  by (simp add: corrupt_read_def corrupt_dump_def closed_fields_def field_defs valid_corrupt_def)

definition valid_anchor :: "anchor_doc \<Rightarrow> bool" where
  "valid_anchor a \<longleftrightarrow> 1 \<le> an_from a \<and> 1 \<le> an_through a \<and> hex_text 64 (an_terminal a)"

lemma anchor_read_dump: "valid_anchor a \<Longrightarrow> anchor_read (anchor_dump a) = Some a"
  by (simp add: anchor_read_def anchor_dump_def closed_fields_def field_defs valid_anchor_def)

lemma hex_text_sha [simp]: "hex_text 64 (sha256_hex s)"
  using sha256_hex_shape by (simp add: hex_text_def)

lemma hex_text_genesis [simp]: "hex_text 64 genesis_hash"
  by (simp add: hex_text_def genesis_hash_def list_all_iff is_hex_lower_def is_digit_def)

section \<open>Names of files\<close>

lemma str_nat_length: "n < 10 ^ Suc k \<Longrightarrow> length (str_nat n) \<le> Suc k"
proof (induction k arbitrary: n)
  case 0
  then show ?case by (subst str_nat.simps) simp
next
  case (Suc k)
  then show ?case
    by (subst str_nat.simps) (use Suc.IH [of "n div 10"] in \<open>auto simp: less_mult_imp_div_less\<close>)
qed

lemma read_nat_zeros: "read_nat (replicate k (CHR ''0'') @ s) = read_nat s"
  unfolding read_nat_def by (induction k) (simp_all add: digit_value_def del: foldl_append)

lemma parse_record_name: "kind \<in> set record_types \<Longrightarrow> valid_number n \<Longrightarrow> parse_record_name (record_name n kind) = Some (n, kind)"
proof -
  assume kind: "kind \<in> set record_types" and n: "valid_number n"
  obtain m where m: "n = int m" using n by (metis nonneg_int_cases valid_number_def)
  let ?ds = "pad_int 20 n"
  have short: "length (str_nat m) \<le> 20" using n str_nat_length [of m 19] by (simp add: m valid_number_def)
  have len: "length ?ds = 20" using short by (simp add: m pad_int_def pad_left_def str_int_def)
  have digits: "list_all is_digit ?ds"
    using str_nat_digits [of m] by (simp add: m pad_int_def pad_left_def str_int_def list_all_iff) (auto simp: is_digit_def)
  have val: "read_nat ?ds = m"
    by (simp add: m pad_int_def pad_left_def str_int_def read_nat_zeros)
  have "find (\<lambda>k. drop 20 (record_name n kind) = ''.'' @ k @ ''.rec'') record_types = Some kind"
    using kind by (auto simp: record_name_def len record_types_def)
  moreover have "take 20 (record_name n kind) = ?ds" by (simp add: record_name_def len)
  ultimately show ?thesis using len digits val by (simp add: parse_record_name_def Let_def m)
qed

end
