(* ===== verification/SpoolChain.thy ===== *)
theory SpoolChain
  imports SpoolModels
begin

text \<open>
  \<open>ctowerctl/spool/_chain.py\<close>: the sequence and hash relationships of the records that are present, with
  the tombstones that bridge discarded commands and the dispositions of corrupt ones. A dict keyed by
  sequence is its items in insertion order.
\<close>

datatype chain_item = Good recovered_record | Bad corrupt_record

fun item_seq :: "chain_item \<Rightarrow> int" where
  "item_seq (Good r) = st_seq (rc_stored r)"
| "item_seq (Bad c) = st_seq (co_stored c)"

fun discarded_tombstones ::
  "(int \<times> disposition_doc) list \<Rightarrow> recovered_record list \<Rightarrow> (int \<times> disposition_doc) list spool" where
  "discarded_tombstones acc [] = Inr acc"
| "discarded_tombstones acc (r # rs) =
     (if op_type (rc_opened r) \<noteq> ''disposition'' then discarded_tombstones acc rs
      else bindE (payload_of disposition_read (rc_opened r)) (\<lambda>d.
        if dp_action d \<noteq> ''discard'' then discarded_tombstones acc rs
        else if dp_pred d = None
        then Inl (ChainError ''format_incompatible'' ''legacy discard cannot authenticate its predecessor relationship'')
        else if dp_seq d \<in> fst ` set acc then Inl (chain_error ''multiple discard tombstones target one sequence'')
        else discarded_tombstones (acc @ [(dp_seq d, d)]) rs))"

fun corrupt_dispositions ::
  "(int \<times> corrupt_disposition) list \<Rightarrow> recovered_record list \<Rightarrow> (int \<times> corrupt_disposition) list spool" where
  "corrupt_dispositions acc [] = Inr acc"
| "corrupt_dispositions acc (r # rs) =
     (if op_type (rc_opened r) \<noteq> ''corrupt_disposition'' then corrupt_dispositions acc rs
      else bindE (payload_of corrupt_read (rc_opened r)) (\<lambda>d.
        if cd_seq d \<in> fst ` set acc then Inl (chain_error ''multiple corrupt dispositions target one sequence'')
        else corrupt_dispositions (acc @ [(cd_seq d, d)]) rs))"

definition chain_start :: "chain_item \<Rightarrow> (int \<times> string) spool" where
  "chain_start item =
     (if item_seq item = 1 then Inr (1, genesis_hash)
      else case item of
        Bad c \<Rightarrow> Inr (1, genesis_hash)
      | Good r \<Rightarrow>
          if op_type (rc_opened r) \<noteq> ''anchor'' then Inr (1, genesis_hash)
          else bindE (payload_of anchor_read (rc_opened r)) (\<lambda>a.
            if an_from a \<noteq> 1 \<or> an_through a \<noteq> st_seq (rc_stored r) - 1
            then Inl (chain_error ''compaction anchor does not cover the missing prefix'')
            else Inr (st_seq (rc_stored r), an_terminal a)))"

definition bridge_discarded :: "(int \<times> disposition_doc) list \<Rightarrow> int \<Rightarrow> string \<Rightarrow> string spool" where
  "bridge_discarded discarded n pred =
     (case map_of discarded n of
        None \<Rightarrow> Inl (chain_error ''durable record sequence contains an unexplained gap'')
      | Some d \<Rightarrow>
          if dp_pred d \<noteq> Some pred then Inl (chain_error ''durable record sequence contains an unexplained gap'')
          else Inr (dp_hash d))"

text \<open>The inner loop, over the \<open>k\<close> sequences missing before the next item.\<close>

fun bridge_gap ::
  "(int \<times> disposition_doc) list \<Rightarrow> nat \<Rightarrow> int \<Rightarrow> string \<Rightarrow> (int \<times> string) list \<Rightarrow> (string \<times> (int \<times> string) list) spool" where
  "bridge_gap discarded 0 n pred hashes = Inr (pred, hashes)"
| "bridge_gap discarded (Suc k) n pred hashes =
     bindE (bridge_discarded discarded n pred) (\<lambda>h. bridge_gap discarded k (n + 1) h (hashes @ [(n, h)]))"

definition expected_corrupt_hash :: "corrupt_record \<Rightarrow> chain_item list \<Rightarrow> head_doc \<Rightarrow> string spool" where
  "expected_corrupt_hash c rest head =
     (case rest of
        Good r # _ \<Rightarrow>
          if st_seq (rc_stored r) = st_seq (co_stored c) + 1 then Inr (op_pred (rc_opened r))
          else if hd_seq head = st_seq (co_stored c) then Inr (hd_hash head)
          else Inl (chain_error ''corrupt record hash has no authenticated successor or head'')
      | _ \<Rightarrow>
          if hd_seq head = st_seq (co_stored c) then Inr (hd_hash head)
          else Inl (chain_error ''corrupt record hash has no authenticated successor or head''))"

definition verify_corrupt_disposition :: "corrupt_record \<Rightarrow> corrupt_disposition \<Rightarrow> unit spool" where
  "verify_corrupt_disposition c d =
     raise_if (cd_hash d \<noteq> co_hash c \<or> cd_pred d \<noteq> co_pred c \<or> cd_digest d \<noteq> co_digest c \<or>
         cd_bytes d \<noteq> int (st_size (co_stored c)))
       (chain_error ''corrupt disposition does not bind the exact artifact and chain'')"

text \<open>The loop over the ordered items: expected sequence, predecessor, logical hashes, active corrupt records.\<close>

fun chain_loop ::
  "(int \<times> disposition_doc) list \<Rightarrow> (int \<times> corrupt_disposition) list \<Rightarrow> head_doc \<Rightarrow> chain_item list \<Rightarrow> int \<Rightarrow> string \<Rightarrow>
   (int \<times> string) list \<Rightarrow> corrupt_record list \<Rightarrow> ((int \<times> string) list \<times> corrupt_record list) spool" where
  "chain_loop discarded dispositions head [] n pred hashes active = Inr (hashes, active)"
| "chain_loop discarded dispositions head (item # rest) n pred hashes active =
     bindE (bridge_gap discarded (nat (item_seq item - n)) n pred hashes) (\<lambda>(pred, hashes).
       let n = max n (item_seq item) in
       if item_seq item \<noteq> n then Inl (chain_error ''durable record sequence is duplicated or rewound'')
       else case item of
         Bad c \<Rightarrow>
           bindE (expected_corrupt_hash c rest head) (\<lambda>h.
             let enriched = c\<lparr>co_hash := h, co_pred := pred\<rparr> in
             case map_of dispositions (st_seq (co_stored c)) of
               None \<Rightarrow> chain_loop discarded dispositions head rest (n + 1) h (hashes @ [(n, h)]) (active @ [enriched])
             | Some d \<Rightarrow>
                 bindE (verify_corrupt_disposition enriched d) (\<lambda>_.
                   chain_loop discarded dispositions head rest (n + 1) h (hashes @ [(n, h)]) active))
       | Good r \<Rightarrow>
           if op_pred (rc_opened r) \<noteq> pred then Inl (chain_error ''durable record predecessor chain is broken'')
           else chain_loop discarded dispositions head rest (n + 1) (op_hash (rc_opened r))
             (hashes @ [(n, op_hash (rc_opened r))]) active)"

definition validate_record_chain ::
  "recovered_record list \<Rightarrow> corrupt_record list \<Rightarrow> head_doc \<Rightarrow> ((int \<times> string) list \<times> corrupt_record list) spool" where
  "validate_record_chain records corrupt head =
     (case sort_key item_seq (map Good records @ map Bad corrupt) of
        [] \<Rightarrow> Inr ([], [])
      | first # rest \<Rightarrow>
          bindE (discarded_tombstones [] records) (\<lambda>discarded.
          bindE (corrupt_dispositions [] records) (\<lambda>dispositions.
            if \<not> fst ` set dispositions \<subseteq> (\<lambda>c. st_seq (co_stored c)) ` set corrupt
            then Inl (chain_error ''corrupt disposition has no exact artifact'')
            else bindE (chain_start first) (\<lambda>(n, pred).
              chain_loop discarded dispositions head (first # rest) n pred [] []))))"

definition state_digest :: "recovered_record list \<Rightarrow> string" where
  "state_digest records =
     sha256_hex (json_dumps (JObj [(''commands'', JList (map (\<lambda>r. JObj
       [(''sequence'', JInt (st_seq (rc_stored r))), (''state'', JStr (st_dir (rc_stored r)))])
       (filter (\<lambda>r. op_type (rc_opened r) = ''command'') records)))]))"

text \<open>\<open>transition_command\<close> looks in the dict of the commands that are present.\<close>

definition transition_command :: "(int \<times> recovered_record) list \<Rightarrow> int \<Rightarrow> recovered_record spool" where
  "transition_command commands n =
     (case map_of commands n of
        None \<Rightarrow> Inl (chain_error ''durable transition targets a missing command'')
      | Some r \<Rightarrow> Inr r)"

fun quarantine_receipts ::
  "(int \<times> recovered_record) list \<Rightarrow> recovered_record list \<Rightarrow> (int \<times> recovered_record) list spool" where
  "quarantine_receipts acc [] = Inr acc"
| "quarantine_receipts acc (r # rs) =
     (if op_type (rc_opened r) \<noteq> ''quarantine_receipt'' then quarantine_receipts acc rs
      else bindE (payload_of quarantine_read (rc_opened r)) (\<lambda>q. quarantine_receipts (dict_set (qr_seq q) r acc) rs))"

end
