(* ===== verification/SpoolStore.thy ===== *)
theory SpoolStore
  imports SpoolChain
begin

text \<open>
  \<open>ctowerctl/spool/_store.py\<close>: the durable files of a spool. The
  disk holds the control files, the record files of the four state directories, the names of temporary
  files and the number of torn-write evidence files. A store method is the sequence of its system calls:
  running it applies them and logs them, so a crash is a prefix of the log. Every call is followed by the
  \<open>fsync\<close> of its directories before the next one, so calls become durable in their order; only \<open>recover_temps\<close> renames
  every abandoned temporary file first and syncs both directories once, which the model takes one file at a time. What
  \<open>_crypto.py\<close> does with the keys of the session is the environment: sealing, opening, signing, verifying.
  Ownership, modes, link counts and the lock are not modelled; under the lock a file that was scanned exists.
\<close>

section \<open>The environment and the disk\<close>

record 'b spool_env =
  se_seal :: "string \<Rightarrow> int \<Rightarrow> string \<Rightarrow> members \<Rightarrow> 'b \<times> string"
  se_open :: "'b \<Rightarrow> opened_record spool"
  se_size :: "'b \<Rightarrow> nat"
  se_digest :: "'b \<Rightarrow> string"
  se_sign :: "members \<Rightarrow> 'b"
  se_verify :: "'b \<Rightarrow> members spool"
  se_uuid :: string
  se_scan :: nat
  se_maximum :: nat

record 'b disk =
  dk_control :: "string \<Rightarrow> 'b option"
  dk_files :: "string \<Rightarrow> (string \<times> 'b) list"
  dk_temps :: "string list"
  dk_evidence :: nat

datatype 'b fs_step =
    WriteTemp string 'b
  | InstallRecord string string string 'b
  | InstallControl string string 'b
  | Relocate string string string
  | Unlink string string
  | RetireTemp string

definition without_file :: "string \<Rightarrow> (string \<times> 'b) list \<Rightarrow> (string \<times> 'b) list" where
  "without_file name fs = filter (\<lambda>f. fst f \<noteq> name) fs"

fun apply_step :: "'b fs_step \<Rightarrow> 'b disk \<Rightarrow> 'b disk" where
  "apply_step (WriteTemp t data) d = d\<lparr>dk_temps := dk_temps d @ [t]\<rparr>"
| "apply_step (InstallRecord t dir name data) d =
     d\<lparr>dk_temps := remove1 t (dk_temps d),
       dk_files := (dk_files d)(dir := without_file name (dk_files d dir) @ [(name, data)])\<rparr>"
| "apply_step (InstallControl t name data) d =
     d\<lparr>dk_temps := remove1 t (dk_temps d), dk_control := (dk_control d)(name \<mapsto> data)\<rparr>"
| "apply_step (Relocate name src dst) d =
     (case map_of (dk_files d src) name of
        None \<Rightarrow> d
      | Some data \<Rightarrow>
          let fs = (dk_files d)(src := without_file name (dk_files d src)) in
          d\<lparr>dk_files := fs(dst := without_file name (fs dst) @ [(name, data)])\<rparr>)"
| "apply_step (Unlink dir name) d = d\<lparr>dk_files := (dk_files d)(dir := without_file name (dk_files d dir))\<rparr>"
| "apply_step (RetireTemp t) d = d\<lparr>dk_temps := remove1 t (dk_temps d), dk_evidence := Suc (dk_evidence d)\<rparr>"

section \<open>Fallible programs over the disk\<close>

record 'b world =
  wd_disk :: "'b disk"
  wd_trace :: "'b fs_step list"

type_synonym ('b, 'a) io = "'b world \<Rightarrow> (spool_fault + 'a) \<times> 'b world"

definition bindIO :: "('b, 'a) io \<Rightarrow> ('a \<Rightarrow> ('b, 'c) io) \<Rightarrow> ('b, 'c) io" where
  "bindIO m f w = (case m w of (Inl e, w') \<Rightarrow> (Inl e, w') | (Inr x, w') \<Rightarrow> f x w')"

lemma bindIO_Inr_iff: "bindIO m f w = (Inr y, w') \<longleftrightarrow> (\<exists>x w1. m w = (Inr x, w1) \<and> f x w1 = (Inr y, w'))"
  by (auto simp: bindIO_def split: prod.splits sum.splits)

definition pureIO :: "'a spool \<Rightarrow> ('b, 'a) io" where
  "pureIO r w = (r, w)"

definition readIO :: "('b disk \<Rightarrow> 'a spool) \<Rightarrow> ('b, 'a) io" where
  "readIO f w = (f (wd_disk w), w)"

definition stepIO :: "'b fs_step \<Rightarrow> ('b, unit) io" where
  "stepIO st w = (Inr (), \<lparr>wd_disk = apply_step st (wd_disk w), wd_trace = wd_trace w @ [st]\<rparr>)"

fun stepsIO :: "'b fs_step list \<Rightarrow> ('b, unit) io" where
  "stepsIO [] = pureIO (Inr ())"
| "stepsIO (st # sts) = bindIO (stepIO st) (\<lambda>_. stepsIO sts)"

section \<open>Store methods\<close>

definition temp_name :: "'b spool_env \<Rightarrow> string \<Rightarrow> string" where
  "temp_name env name =
     (if parse_record_name name \<noteq> None then ''.record-'' else ''.control-'') @ se_uuid env @ ''.tmp''"

definition uuid_like :: "string \<Rightarrow> bool" where
  "uuid_like s \<longleftrightarrow> length s = 36 \<and> list_all (\<lambda>c. is_hex_lower c \<or> c = CHR ''-'') s"

definition temp_name_ok :: "string \<Rightarrow> bool" where
  "temp_name_ok name \<longleftrightarrow>
     take 8 name = ''.record-'' \<and> uuid_like (take 36 (drop 8 name)) \<and> drop 44 name = ''.tmp'' \<or>
     take 9 name = ''.control-'' \<and> uuid_like (take 36 (drop 9 name)) \<and> drop 45 name = ''.tmp''"

definition max_control_bytes :: nat where
  "max_control_bytes = 64 * 1024"

definition write_control :: "'b spool_env \<Rightarrow> string \<Rightarrow> 'b \<Rightarrow> ('b, unit) io" where
  "write_control env name data = stepsIO [WriteTemp (temp_name env name) data, InstallControl (temp_name env name) name data]"

definition read_control :: "'b spool_env \<Rightarrow> string \<Rightarrow> 'b disk \<Rightarrow> 'b spool" where
  "read_control env name d =
     (case dk_control d name of
        None \<Rightarrow> Inl (StorageError ''spool filesystem operation failed closed'')
      | Some data \<Rightarrow>
          if se_size env data > max_control_bytes then Inl (StorageError ''spool file exceeds its bounded size'')
          else Inr data)"

definition append_record :: "'b spool_env \<Rightarrow> string \<Rightarrow> string \<Rightarrow> 'b \<Rightarrow> 'b \<Rightarrow> ('b, stored_file) io" where
  "append_record env dir name data head =
     (case parse_record_name name of
        None \<Rightarrow> pureIO (Inl (StorageError ''invalid durable record filename''))
      | Some (n, kind) \<Rightarrow>
          bindIO (stepsIO [WriteTemp (temp_name env name) data, InstallRecord (temp_name env name) dir name data,
              WriteTemp (temp_name env ''head'') head, InstallControl (temp_name env ''head'') ''head'' head]) (\<lambda>_.
            pureIO (Inr \<lparr>st_dir = dir, st_name = name, st_seq = n, st_kind = kind, st_size = se_size env data\<rparr>)))"

definition read_file :: "'b spool_env \<Rightarrow> stored_file \<Rightarrow> 'b disk \<Rightarrow> 'b spool" where
  "read_file env st d =
     (case map_of (dk_files d (st_dir st)) (st_name st) of
        None \<Rightarrow> Inl (StorageError ''spool filesystem operation failed closed'')
      | Some data \<Rightarrow>
          if se_size env data > se_maximum env then Inl (StorageError ''spool file exceeds its bounded size'')
          else Inr data)"

definition scan_names :: "'b spool_env \<Rightarrow> string \<Rightarrow> 'b disk \<Rightarrow> string list spool" where
  "scan_names env dir d =
     (let names = (if dir = ''tmp'' then dk_temps d else map fst (dk_files d dir));
          evidence = (if dir = ''quarantine'' then dk_evidence d else 0) in
      if length names + evidence > se_scan env then Inl (ScanLimitError (dir @ '' exceeds bounded scan policy''))
      else Inr names)"

fun scan_directory ::
  "'b spool_env \<Rightarrow> string \<Rightarrow> (string \<times> 'b) list \<Rightarrow> stored_file list \<Rightarrow> stored_file list spool" where
  "scan_directory env dir [] acc = Inr acc"
| "scan_directory env dir ((name, data) # fs) acc =
     (case parse_record_name name of
        None \<Rightarrow> Inl (StorageError (''unknown entry in '' @ dir))
      | Some (n, kind) \<Rightarrow>
          if n \<in> set (map st_seq acc) then Inl (StorageError ''duplicate durable record sequence'')
          else let acc = acc @ [\<lparr>st_dir = dir, st_name = name, st_seq = n, st_kind = kind, st_size = se_size env data\<rparr>];
                   overflow = (length acc = se_scan env + 1 \<and> dir = ''anchors'' \<and> kind = ''anchor'')
               in if length acc > se_scan env \<and> \<not> overflow
                  then Inl (ScanLimitError ''durable records exceed bounded scan policy'')
                  else scan_directory env dir fs acc)"

fun scan_directories :: "'b spool_env \<Rightarrow> 'b disk \<Rightarrow> string list \<Rightarrow> stored_file list \<Rightarrow> stored_file list spool" where
  "scan_directories env d [] acc = Inr acc"
| "scan_directories env d (dir # dirs) acc =
     bindE (scan_names env dir d) (\<lambda>_.
     bindE (scan_directory env dir (dk_files d dir) acc) (\<lambda>acc. scan_directories env d dirs acc))"

definition scan_records :: "'b spool_env \<Rightarrow> 'b disk \<Rightarrow> stored_file list spool" where
  "scan_records env d = bindE (scan_directories env d spool_directories []) (\<lambda>acc. Inr (sort_key st_seq acc))"

definition move_file :: "stored_file \<Rightarrow> string \<Rightarrow> ('b, stored_file) io" where
  "move_file st dst =
     (if st_dir st = dst then pureIO (Inr st)
      else bindIO (stepIO (Relocate (st_name st) (st_dir st) dst)) (\<lambda>_. pureIO (Inr (st\<lparr>st_dir := dst\<rparr>))))"

definition remove_file :: "stored_file \<Rightarrow> ('b, unit) io" where
  "remove_file st = stepIO (Unlink (st_dir st) (st_name st))"

fun retire_temps :: "string list \<Rightarrow> ('b, nat) io" where
  "retire_temps [] = pureIO (Inr 0)"
| "retire_temps (t # ts) =
     (if \<not> temp_name_ok t then pureIO (Inl (StorageError ''unknown temporary spool entry''))
      else bindIO (stepIO (RetireTemp t)) (\<lambda>_. bindIO (retire_temps ts) (\<lambda>n. pureIO (Inr (Suc n)))))"

definition recover_temps :: "'b spool_env \<Rightarrow> ('b, nat) io" where
  "recover_temps env = bindIO (readIO (scan_names env ''tmp'')) retire_temps"

definition temporary_count :: "'b spool_env \<Rightarrow> 'b disk \<Rightarrow> nat spool" where
  "temporary_count env d =
     bindE (scan_names env ''tmp'' d) (\<lambda>names.
       if \<not> list_all temp_name_ok names then Inl (StorageError ''unknown temporary spool entry'') else Inr (length names))"

definition quarantine_evidence_count :: "'b spool_env \<Rightarrow> 'b disk \<Rightarrow> nat spool" where
  "quarantine_evidence_count env d = bindE (scan_names env ''quarantine'' d) (\<lambda>_. Inr (dk_evidence d))"

end
