(* ===== verification/SpoolRecovery.thy ===== *)
theory SpoolRecovery
  imports SpoolStore
begin

text \<open>
  \<open>ctowerctl/spool/_recovery.py\<close> and the cursor and compaction functions of \<open>_chain.py\<close>: the session over
  an authenticated spool and the deterministic recovery that opens one, from the head on. Metadata and keys
  are given (\<open>SpoolKeyring\<close> loads them), and records are always opened anew: the cache only skips
  opening bytes with an equal digest.
\<close>

section \<open>Sessions\<close>

record session =
  ss_head :: head_doc
  ss_records :: "recovered_record list"
  ss_corrupt :: "corrupt_record list"
  ss_cursor :: "cursor_doc option"
  ss_torn :: nat

definition session_append ::
  "'b spool_env \<Rightarrow> string \<Rightarrow> string \<Rightarrow> members \<Rightarrow> session \<Rightarrow> ('b, recovered_record \<times> session) io" where
  "session_append env kind dir body s =
     (if ss_corrupt s \<noteq> [] \<and> kind \<noteq> ''corrupt_disposition''
      then pureIO (Inl (chain_error ''corrupt quarantine requires explicit disposition''))
      else let n = hd_seq (ss_head s) + 1; (data, h) = se_seal env kind n (hd_hash (ss_head s)) body in
        if se_size env data > se_maximum env then pureIO (Inl (StorageError ''encrypted durable record exceeds bounded size''))
        else let next = \<lparr>hd_seq = n, hd_hash = h\<rparr> in
          bindIO (append_record env dir (record_name n kind) data (se_sign env (head_dump next))) (\<lambda>stored.
            let r = \<lparr>rc_stored = stored, rc_opened = \<lparr>op_type = kind, op_seq = n, op_pred = hd_hash (ss_head s),
                  op_payload = body, op_hash = h\<rparr>, rc_digest = se_digest env data\<rparr>
            in pureIO (Inr (r, s\<lparr>ss_records := ss_records s @ [r], ss_head := next\<rparr>))))"

fun replace_first :: "'a \<Rightarrow> 'a \<Rightarrow> 'a list \<Rightarrow> 'a list" where
  "replace_first x y [] = []"
| "replace_first x y (z # zs) = (if z = x then y # zs else z # replace_first x y zs)"

definition session_move :: "recovered_record \<Rightarrow> string \<Rightarrow> session \<Rightarrow> ('b, recovered_record \<times> session) io" where
  "session_move r dst s =
     bindIO (move_file (rc_stored r) dst) (\<lambda>stored.
       let moved = r\<lparr>rc_stored := stored\<rparr>
       in pureIO (Inr (moved, s\<lparr>ss_records := replace_first r moved (ss_records s)\<rparr>)))"

definition session_remove :: "recovered_record \<Rightarrow> session \<Rightarrow> ('b, session) io" where
  "session_remove r s =
     bindIO (remove_file (rc_stored r)) (\<lambda>_. pureIO (Inr (s\<lparr>ss_records := remove1 r (ss_records s)\<rparr>)))"

definition session_commands :: "session \<Rightarrow> recovered_record list" where
  "session_commands s = filter (\<lambda>r. op_type (rc_opened r) = ''command'') (ss_records s)"

definition session_command :: "int \<Rightarrow> session \<Rightarrow> recovered_record option" where
  "session_command n s = find (\<lambda>r. st_seq (rc_stored r) = n) (session_commands s)"

definition corrupt_command :: "int \<Rightarrow> session \<Rightarrow> corrupt_record option" where
  "corrupt_command n s = find (\<lambda>c. st_seq (co_stored c) = n) (ss_corrupt s)"

definition quarantine_receipt_of :: "int \<Rightarrow> session \<Rightarrow> recovered_record option spool" where
  "quarantine_receipt_of n s = bindE (quarantine_receipts [] (ss_records s)) (\<lambda>m. Inr (map_of m n))"

definition verify_corrupt_artifact :: "'b spool_env \<Rightarrow> corrupt_record \<Rightarrow> 'b disk \<Rightarrow> unit spool" where
  "verify_corrupt_artifact env c d =
     bindE (read_file env (co_stored c) d) (\<lambda>data.
       raise_if (se_size env data \<noteq> st_size (co_stored c) \<or> se_digest env data \<noteq> co_digest c)
         (chain_error ''corrupt artifact changed before disposition''))"

definition verify_doctor_state :: "session \<Rightarrow> unit spool" where
  "verify_doctor_state s =
     (if ss_torn s \<noteq> 0 then Inl (chain_error ''torn-write evidence requires explicit disposition'')
      else if ss_corrupt s \<noteq> [] then Inl (chain_error ''corrupt quarantine requires explicit disposition'')
      else Inr ())"

definition expected_cursor :: "head_doc \<Rightarrow> recovered_record list \<Rightarrow> cursor_doc" where
  "expected_cursor head records =
     \<lparr>cu_seq = hd_seq head, cu_hash = hd_hash head, cu_digest = state_digest records\<rparr>"

definition checkpoint_recovery :: "'b spool_env \<Rightarrow> session \<Rightarrow> ('b, session) io" where
  "checkpoint_recovery env s =
     (if map_option cu_seq (ss_cursor s) = Some (hd_seq (ss_head s)) then pureIO (Inr s)
      else let cursor = expected_cursor (ss_head s) (ss_records s) in
        if Some cursor = ss_cursor s then pureIO (Inr s)
        else bindIO (write_control env ''recovery'' (se_sign env (cursor_dump cursor))) (\<lambda>_.
          pureIO (Inr (s\<lparr>ss_cursor := Some cursor\<rparr>))))"

section \<open>Opening the records\<close>

definition load_or_create_head :: "'b spool_env \<Rightarrow> ('b, head_doc) io" where
  "load_or_create_head env w =
     (if dk_control (wd_disk w) ''head'' = None
      then bindIO (readIO (scan_records env)) (\<lambda>stored.
        if stored \<noteq> [] then pureIO (Inl (chain_error ''spool head is missing while records exist''))
        else let head = \<lparr>hd_seq = 0, hd_hash = genesis_hash\<rparr> in
          bindIO (write_control env ''head'' (se_sign env (head_dump head))) (\<lambda>_. pureIO (Inr head))) w
      else bindIO (readIO (read_control env ''head'')) (\<lambda>data.
        pureIO (case Option.bind (case se_verify env data of Inl _ \<Rightarrow> None | Inr ms \<Rightarrow> Some ms) head_read of
          None \<Rightarrow> Inl (chain_error ''spool head is invalid or unauthenticated'')
        | Some head \<Rightarrow> Inr head)) w)"

definition valid_location :: "stored_file \<Rightarrow> bool" where
  "valid_location st \<longleftrightarrow>
     (st_kind st = ''command'' \<and> st_dir st \<in> {''pending'', ''accepted'', ''quarantine''} \<or>
      st_kind st = ''accepted_receipt'' \<and> st_dir st = ''accepted'' \<or>
      st_kind st \<in> {''quarantine_receipt'', ''disposition'', ''corrupt_disposition''} \<and> st_dir st = ''quarantine'' \<or>
      st_kind st = ''anchor'' \<and> st_dir st = ''anchors'')"

definition read_record :: "'b spool_env \<Rightarrow> stored_file \<Rightarrow> 'b disk \<Rightarrow> 'b spool" where
  "read_record env st d =
     (case read_file env st d of
        Inl _ \<Rightarrow> Inl (chain_error ''spool record cannot be read safely'')
      | Inr data \<Rightarrow> Inr data)"

definition corrupt_found :: "'b spool_env \<Rightarrow> bool \<Rightarrow> stored_file \<Rightarrow> 'b \<Rightarrow> ('b, corrupt_record) io" where
  "corrupt_found env repair st data =
     (if st_kind st \<noteq> ''command'' \<or> st_dir st \<notin> {''pending'', ''quarantine''}
      then pureIO (Inl (chain_error ''non-command spool record is corrupt; recovery is blocked''))
      else bindIO (if repair \<and> st_dir st = ''pending'' then move_file st ''quarantine'' else pureIO (Inr st)) (\<lambda>st.
        pureIO (Inr \<lparr>co_stored = st, co_digest = se_digest env data, co_hash = [], co_pred = []\<rparr>)))"

definition open_stored_record ::
  "'b spool_env \<Rightarrow> bool \<Rightarrow> stored_file \<Rightarrow> ('b, corrupt_record + recovered_record) io" where
  "open_stored_record env repair st =
     bindIO (readIO (read_record env st)) (\<lambda>data.
       case se_open env data of
         Inl (CryptoError _) \<Rightarrow> bindIO (corrupt_found env repair st data) (\<lambda>c. pureIO (Inr (Inl c)))
       | Inl e \<Rightarrow> pureIO (Inl e)
       | Inr opened \<Rightarrow>
           if op_seq opened \<noteq> st_seq st \<or> op_type opened \<noteq> st_kind st
           then pureIO (Inl (chain_error ''record filename does not match its authenticated header''))
           else if \<not> valid_location st
           then pureIO (Inl (chain_error ''durable record is in the wrong state directory''))
           else pureIO (Inr (Inr \<lparr>rc_stored = st, rc_opened = opened, rc_digest = se_digest env data\<rparr>)))"

fun open_records ::
  "'b spool_env \<Rightarrow> bool \<Rightarrow> stored_file list \<Rightarrow> ('b, recovered_record list \<times> corrupt_record list) io" where
  "open_records env repair [] = pureIO (Inr ([], []))"
| "open_records env repair (st # sts) =
     bindIO (open_stored_record env repair st) (\<lambda>x.
     bindIO (open_records env repair sts) (\<lambda>(good, bad).
       pureIO (Inr (case x of Inl c \<Rightarrow> (good, c # bad) | Inr r \<Rightarrow> (r # good, bad)))))"

section \<open>The head and the cursor\<close>

definition head_matches_record :: "head_doc \<Rightarrow> (int \<times> string) list \<Rightarrow> bool" where
  "head_matches_record head hashes \<longleftrightarrow>
     (if hd_seq head = 0 then hd_hash head = genesis_hash else map_of hashes (hd_seq head) = Some (hd_hash head))"

definition recover_head ::
  "'b spool_env \<Rightarrow> bool \<Rightarrow> head_doc \<Rightarrow> (int \<times> string) list \<Rightarrow> int \<Rightarrow> ('b, head_doc) io" where
  "recover_head env repair head hashes last_seq =
     (if hd_seq head > last_seq then pureIO (Inl (chain_error ''spool head names a missing durable record''))
      else if \<not> head_matches_record head hashes
      then pureIO (Inl (chain_error ''spool head does not match its durable record''))
      else if hd_seq head = last_seq then pureIO (Inr head)
      else if \<not> repair then pureIO (Inl (chain_error ''spool head recovery is required''))
      else case map_of hashes last_seq of
        None \<Rightarrow> pureIO (Inl (Uncaught ''KeyError''))
      | Some h \<Rightarrow>
          let next = \<lparr>hd_seq = last_seq, hd_hash = h\<rparr> in
          bindIO (write_control env ''head'' (se_sign env (head_dump next))) (\<lambda>_. pureIO (Inr next)))"

definition validate_chain ::
  "'b spool_env \<Rightarrow> bool \<Rightarrow> head_doc \<Rightarrow> recovered_record list \<Rightarrow> corrupt_record list \<Rightarrow>
   ('b, head_doc \<times> corrupt_record list \<times> (int \<times> string) list) io" where
  "validate_chain env repair head records corrupt =
     (case map (\<lambda>r. st_seq (rc_stored r)) records @ map (\<lambda>c. st_seq (co_stored c)) corrupt of
        [] \<Rightarrow>
          if hd_seq head \<noteq> 0 \<or> hd_hash head \<noteq> genesis_hash
          then pureIO (Inl (chain_error ''spool head names a missing durable record''))
          else pureIO (Inr (head, [], []))
      | n # ns \<Rightarrow>
          bindIO (pureIO (validate_record_chain records corrupt head)) (\<lambda>(hashes, active).
          bindIO (recover_head env repair head hashes (foldl max n ns)) (\<lambda>head. pureIO (Inr (head, active, hashes)))))"

definition load_recovery_cursor ::
  "'b spool_env \<Rightarrow> head_doc \<Rightarrow> recovered_record list \<Rightarrow> (int \<times> string) list \<Rightarrow> 'b disk \<Rightarrow> cursor_doc option spool" where
  "load_recovery_cursor env head records hashes d =
     (if dk_control d ''recovery'' = None then Inr None
      else bindE (read_control env ''recovery'' d) (\<lambda>data.
        case Option.bind (case se_verify env data of Inl _ \<Rightarrow> None | Inr ms \<Rightarrow> Some ms) cursor_read of
          None \<Rightarrow> Inl (chain_error ''spool recovery cursor is invalid or unauthenticated'')
        | Some c \<Rightarrow>
            if cu_seq c > hd_seq head then Inl (chain_error ''spool recovery cursor is ahead of the durable head'')
            else bindE
              (case (if cu_seq c = 0 then Some genesis_hash else map_of hashes (cu_seq c)) of
                 Some h \<Rightarrow> Inr (Some h)
               | None \<Rightarrow>
                   (case find (\<lambda>r. op_type (rc_opened r) = ''anchor'') records of
                      None \<Rightarrow> Inr None
                    | Some r \<Rightarrow>
                        bindE (payload_of anchor_read (rc_opened r)) (\<lambda>a.
                          Inr (if an_through a = cu_seq c then Some (an_terminal a) else None))))
              (\<lambda>expected.
                if expected \<noteq> Some (cu_hash c)
                then Inl (chain_error ''spool recovery cursor does not match the durable chain'')
                else Inr (Some c))))"

fun remove_all :: "recovered_record list \<Rightarrow> ('b, unit) io" where
  "remove_all [] = pureIO (Inr ())"
| "remove_all (r # rs) = bindIO (remove_file (rc_stored r)) (\<lambda>_. remove_all rs)"

definition recover_compaction :: "bool \<Rightarrow> recovered_record list \<Rightarrow> ('b, recovered_record list) io" where
  "recover_compaction repair records =
     (case rev (filter (\<lambda>r. op_type (rc_opened r) = ''anchor'') records) of
        [] \<Rightarrow> pureIO (Inr records)
      | anchor # _ \<Rightarrow>
          bindIO (pureIO (payload_of anchor_read (rc_opened anchor))) (\<lambda>a.
            if (an_from a, st_seq (rc_stored anchor), op_pred (rc_opened anchor)) \<noteq> (1, an_through a + 1, an_terminal a)
            then pureIO (Inl (chain_error ''compaction anchor range or predecessor is invalid''))
            else let covered = takeWhile (\<lambda>r. r \<noteq> anchor) records in
              if covered \<noteq> [] \<and> \<not> repair
              then pureIO (Inl (chain_error ''compaction deletion recovery is required''))
              else bindIO (remove_all covered) (\<lambda>_. pureIO (Inr (drop (length covered) records)))))"

section \<open>Transitions of commands\<close>

definition parse_two :: "string \<Rightarrow> int" where
  "parse_two s = int (read_nat s)"

definition days_in_month :: "int \<Rightarrow> int \<Rightarrow> int" where
  "days_in_month y m =
     (if m = 2 then (if y mod 4 = 0 \<and> (y mod 100 \<noteq> 0 \<or> y mod 400 = 0) then 29 else 28)
      else if m \<in> {4, 6, 9, 11} then 30 else 31)"

definition days_of_civil :: "int \<Rightarrow> int \<Rightarrow> int \<Rightarrow> int" where
  "days_of_civil y m d =
     (let y = (if m \<le> 2 then y - 1 else y); era = y div 400; yoe = y mod 400;
          doy = (153 * (if m > 2 then m - 3 else m + 9) + 2) div 5 + d - 1;
          doe = yoe * 365 + yoe div 4 - yoe div 100 + doy
      in era * 146097 + doe - 719468)"

text \<open>
  \<open>_parse_utc\<close> on the one spelling \<open>utc_text\<close> writes, \<open>YYYY-MM-DDTHH:MM:SS.ffffffZ\<close>; the other
  spellings of an ISO date that \<open>datetime.fromisoformat\<close> accepts are refused here.
\<close>

definition parse_utc :: "string \<Rightarrow> datetime option" where
  "parse_utc s =
     (let digits = (\<lambda>a n. take n (drop a s));
          y = parse_two (digits 0 4); m = parse_two (digits 5 2); d = parse_two (digits 8 2);
          h = parse_two (digits 11 2); mi = parse_two (digits 14 2); sec = parse_two (digits 17 2);
          us = parse_two (digits 20 6) in
      if length s = 27 \<and> list_all is_digit (digits 0 4 @ digits 5 2 @ digits 8 2 @ digits 11 2 @ digits 14 2 @
           digits 17 2 @ digits 20 6) \<and>
         map (\<lambda>i. s ! i) [4, 7, 10, 13, 16, 19, 26] = ''--T::.Z'' \<and>
         1 \<le> y \<and> 1 \<le> m \<and> m \<le> 12 \<and> 1 \<le> d \<and> d \<le> days_in_month y m \<and> h \<le> 23 \<and> mi \<le> 59 \<and> sec \<le> 59
      then Some (((days_of_civil y m d * 24 + h) * 60 + mi) * 60 * second + sec * second + us)
      else None)"

definition hex_any :: "char \<Rightarrow> bool" where
  "hex_any c \<longleftrightarrow> is_hex_lower c \<or> 65 \<le> (of_char c :: nat) \<and> (of_char c :: nat) \<le> 70"

text \<open>\<open>UUID(text)\<close> on hexadecimal digits with any hyphens; the prefixes and braces it strips are refused here.\<close>

definition uuid_text :: "string \<Rightarrow> bool" where
  "uuid_text s \<longleftrightarrow> (let ds = filter (\<lambda>c. c \<noteq> CHR ''-'') s in length ds = 32 \<and> list_all hex_any ds)"

definition command_payload :: "opened_record \<Rightarrow> command_envelope spool" where
  "command_payload r =
     (case envelope_read (op_payload r) of
        None \<Rightarrow> Inl (chain_error ''command payload schema is unknown or invalid'')
      | Some e \<Rightarrow>
          if \<not> uuid_text (ce_command e) \<or> parse_utc (ce_enqueued e) = None \<or> parse_utc (ce_expires e) = None
          then Inl (chain_error ''command payload schema is unknown or invalid'')
          else if ce_origin e = genesis_hash then Inl (chain_error ''command payload origin cannot be empty'')
          else Inr e)"

definition verify_command_binding :: "recovered_record \<Rightarrow> string \<Rightarrow> unit spool" where
  "verify_command_binding command h =
     raise_if (op_hash (rc_opened command) \<noteq> h)
       (chain_error ''receipt/disposition binds a different command record'')"

definition digest_json :: "members \<Rightarrow> string" where
  "digest_json ms = sha256_hex (json_dumps (JObj ms))"

definition transition_for ::
  "(int \<times> recovered_record) list \<Rightarrow> (int \<times> string) list \<Rightarrow> recovered_record \<Rightarrow> (int \<times> string) option spool" where
  "transition_for commands discarded r =
     (let kind = op_type (rc_opened r) in
      if kind = ''accepted_receipt'' then
        bindE (payload_of accepted_read (rc_opened r)) (\<lambda>a.
        bindE (transition_command commands (ar_seq a)) (\<lambda>command.
        bindE (verify_command_binding command (ar_hash a)) (\<lambda>_.
        bindE (command_payload (rc_opened command)) (\<lambda>e.
          if ar_command a \<noteq> ce_command e then Inl (chain_error ''accepted receipt binds a different command ID'')
          else if ar_digest a \<noteq> digest_json [(''response'', opt_obj (ar_response a))]
          then Inl (chain_error ''accepted receipt response digest does not match'')
          else Inr (Some (ar_seq a, ''accepted''))))))
      else if kind = ''quarantine_receipt'' then
        bindE (payload_of quarantine_read (rc_opened r)) (\<lambda>q.
          if map_of commands (qr_seq q) = None \<and> map_of discarded (qr_seq q) = Some (qr_hash q) then Inr None
          else bindE (transition_command commands (qr_seq q)) (\<lambda>command.
            bindE (verify_command_binding command (qr_hash q)) (\<lambda>_. Inr (Some (qr_seq q, ''quarantined'')))))
      else if kind = ''disposition'' then
        bindE (payload_of disposition_read (rc_opened r)) (\<lambda>d.
          case map_of commands (dp_seq d) of
            Some command \<Rightarrow>
              bindE (verify_command_binding command (dp_hash d)) (\<lambda>_. Inr (Some (dp_seq d, dp_action d)))
          | None \<Rightarrow>
              if dp_action d \<noteq> ''discard'' then Inl (chain_error ''durable transition targets a missing command'')
              else Inr (Some (dp_seq d, dp_action d)))
      else Inr None)"

definition next_state :: "string \<Rightarrow> string \<Rightarrow> string spool" where
  "next_state state act =
     (case map_of [((''pending'', ''accepted''), ''accepted''), ((''pending'', ''quarantined''), ''quarantine''),
          ((''quarantine'', ''retry''), ''pending''), ((''quarantine'', ''discard''), ''discarded'')] (state, act) of
        None \<Rightarrow> Inl (chain_error ''durable transition history is invalid'')
      | Some s \<Rightarrow> Inr s)"

fun fold_transitions ::
  "(int \<times> recovered_record) list \<Rightarrow> (int \<times> string) list \<Rightarrow> recovered_record list \<Rightarrow> (int \<times> string) list \<Rightarrow>
   (int \<times> string) list spool" where
  "fold_transitions commands discarded [] states = Inr states"
| "fold_transitions commands discarded (r # rs) states =
     bindE (transition_for commands discarded r) (\<lambda>t.
       case t of
         None \<Rightarrow> fold_transitions commands discarded rs states
       | Some (n, act) \<Rightarrow>
           (case map_of states n of
              None \<Rightarrow>
                if act = ''discard'' then fold_transitions commands discarded rs states
                else Inl (chain_error ''durable transition targets a missing command'')
            | Some st \<Rightarrow> bindE (next_state st act) (\<lambda>st'. fold_transitions commands discarded rs (dict_set n st' states))))"

fun discarded_hashes :: "(int \<times> string) list \<Rightarrow> recovered_record list \<Rightarrow> (int \<times> string) list spool" where
  "discarded_hashes acc [] = Inr acc"
| "discarded_hashes acc (r # rs) =
     (if op_type (rc_opened r) \<noteq> ''disposition'' then discarded_hashes acc rs
      else bindE (payload_of disposition_read (rc_opened r)) (\<lambda>d.
        discarded_hashes (if dp_action d = ''discard'' then dict_set (dp_seq d) (dp_hash d) acc else acc) rs))"

definition commands_of :: "recovered_record list \<Rightarrow> (int \<times> recovered_record) list" where
  "commands_of records =
     map (\<lambda>r. (st_seq (rc_stored r), r)) (filter (\<lambda>r. op_type (rc_opened r) = ''command'') records)"

text \<open>The state every present command has by its history.\<close>

definition command_states :: "recovered_record list \<Rightarrow> (int \<times> string) list spool" where
  "command_states records =
     (let commands = commands_of records in
      bindE (discarded_hashes [] records) (\<lambda>discarded.
        fold_transitions commands discarded records (map (\<lambda>(n, r). (n, ''pending'')) commands)))"

definition state_of :: "(int \<times> string) list \<Rightarrow> recovered_record \<Rightarrow> string" where
  "state_of states r =
     (case map_of states (st_seq (rc_stored r)) of None \<Rightarrow> st_dir (rc_stored r) | Some s \<Rightarrow> s)"

fun settle_records :: "(int \<times> string) list \<Rightarrow> recovered_record list \<Rightarrow> ('b, recovered_record list) io" where
  "settle_records states [] = pureIO (Inr [])"
| "settle_records states (r # rs) =
     (let state = state_of states r in
      if state = ''discarded'' then bindIO (remove_file (rc_stored r)) (\<lambda>_. settle_records states rs)
      else bindIO (move_file (rc_stored r) state) (\<lambda>stored.
        bindIO (settle_records states rs) (\<lambda>rs'. pureIO (Inr (r\<lparr>rc_stored := stored\<rparr> # rs')))))"

definition recover_transitions :: "bool \<Rightarrow> recovered_record list \<Rightarrow> ('b, recovered_record list) io" where
  "recover_transitions repair records =
     bindIO (pureIO (command_states records)) (\<lambda>states.
       if \<not> repair
       then (if \<exists>r \<in> set records. op_type (rc_opened r) = ''command'' \<and> state_of states r \<noteq> st_dir (rc_stored r)
             then pureIO (Inl (chain_error ''durable transition recovery is required''))
             else pureIO (Inr records))
       else settle_records states records)"

section \<open>Recovery\<close>

text \<open>The first attempt at a compaction, before the chain is validated, only when the head names the last record.\<close>

definition early_compaction :: "bool \<Rightarrow> head_doc \<Rightarrow> recovered_record list \<Rightarrow> ('b, recovered_record list) io" where
  "early_compaction repair head records =
     (if records \<noteq> [] \<and> hd_seq head = st_seq (rc_stored (last records)) \<and> hd_hash head = op_hash (rc_opened (last records))
      then recover_compaction repair records else pureIO (Inr records))"

definition recover_session :: "'b spool_env \<Rightarrow> bool \<Rightarrow> ('b, session) io" where
  "recover_session env repair =
     bindIO (load_or_create_head env) (\<lambda>head.
     bindIO (if repair then recover_temps env else readIO (temporary_count env)) (\<lambda>temps.
     bindIO (readIO (quarantine_evidence_count env)) (\<lambda>evidence.
     bindIO (readIO (scan_records env)) (\<lambda>stored.
     bindIO (open_records env repair stored) (\<lambda>(recovered, corrupt).
     bindIO (early_compaction repair head recovered) (\<lambda>recovered.
     bindIO (validate_chain env repair head recovered corrupt) (\<lambda>(head, active, hashes).
     bindIO (readIO (load_recovery_cursor env head recovered hashes)) (\<lambda>cursor.
     bindIO (recover_compaction repair recovered) (\<lambda>recovered.
       let s = \<lparr>ss_head = head, ss_records = recovered, ss_corrupt = active, ss_cursor = cursor,
            ss_torn = evidence + (if repair then 0 else temps)\<rparr> in
       bindIO (if cursor \<noteq> Some (expected_cursor head recovered)
           then bindIO (recover_transitions repair recovered) (\<lambda>rs. pureIO (Inr (s\<lparr>ss_records := rs, ss_cursor := None\<rparr>)))
           else pureIO (Inr s)) (\<lambda>s.
         if repair then checkpoint_recovery env s else pureIO (Inr s)))))))))))"

end
