(* ===== verification/SpoolReplay.thy ===== *)
theory SpoolReplay
  imports SpoolRecovery
begin

text \<open>
  \<open>_replay.py\<close>, \<open>_retention.py\<close>, \<open>_corruption.py\<close> and the operations of \<open>interface.py\<close>: enqueueing, ordered
  replay, dispositions and compaction, each inside a recovered session. What the server answers is a
  function of the sequence it is asked for and the command; the clock is its readings. An operation
  returns the record it is about; its redacted entry is in \<open>SpoolInterface\<close>.
\<close>

section \<open>Secret exclusion\<close>

definition reject_secret_material :: "members \<Rightarrow> unit spool" where
  "reject_secret_material ms =
     raise_if (\<not> secret_free (JObj ms)) (SecretMaterialError ''spool payload contains forbidden authority material'')"

section \<open>Replay\<close>

record replay_response =
  rp_status :: int
  rp_command :: "uuid option"
  rp_durability :: "string option"
  rp_response :: "members option"
  rp_events :: "string list"
  rp_position :: "string option"
  rp_refusal :: "server_refusal option"

datatype replay_decision = Accept | KeepPending | Quarantine

definition plain_response :: "int \<Rightarrow> replay_response" where
  "plain_response status =
     \<lparr>rp_status = status, rp_command = None, rp_durability = None, rp_response = None, rp_events = [],
      rp_position = None, rp_refusal = None\<rparr>"

definition success_decision :: "replay_response \<Rightarrow> string \<Rightarrow> replay_decision \<times> string" where
  "success_decision r expected =
     (if map_option uuid_str (rp_command r) \<noteq> Some expected then (KeepPending, ''mismatched_success'')
      else if rp_durability r = Some ''durability_pending'' then (KeepPending, ''durability_pending'')
      else if rp_durability r = Some ''accepted'' then (Accept, ''accepted'')
      else (KeepPending, ''malformed_success''))"

definition classify_reply :: "replay_response \<Rightarrow> string \<Rightarrow> replay_decision \<times> string" where
  "classify_reply r expected =
     (let status = rp_status r in
      if status = 429 \<or> status \<ge> 500 then (KeepPending, ''temporary_server_response'')
      else if 400 \<le> status \<and> status < 500
      then (if status \<in> {408, 425} then (KeepPending, ''temporary_server_response'')
            else (Quarantine, ''permanent_server_rejection''))
      else if 200 \<le> status \<and> status < 300 then success_decision r expected
      else (KeepPending, ''ambiguous_protocol_response''))"

definition binding_refusal :: "command_envelope \<Rightarrow> string \<Rightarrow> string option" where
  "binding_refusal e current =
     (case ce_binding e of
        None \<Rightarrow> Some ''credential_binding_missing''
      | Some b \<Rightarrow> if b \<noteq> current then Some ''credential_identity_mismatch'' else None)"

text \<open>\<open>utc_text\<close>\<close>

definition utc_text :: "datetime \<Rightarrow> string" where
  "utc_text t =
     (let s = (t div second) mod 86400; (y, m, d) = civil_of_days (t div second div 86400)
      in pad_int 4 y @ ''-'' @ pad_int 2 m @ ''-'' @ pad_int 2 d @ ''T'' @ pad_int 2 (s div 3600) @ '':'' @
         pad_int 2 (s div 60 mod 60) @ '':'' @ pad_int 2 (s mod 60) @ ''.'' @ pad_int 6 (t mod second) @ ''Z'')"

definition accept_command ::
  "'b spool_env \<Rightarrow> datetime \<Rightarrow> recovered_record \<Rightarrow> command_envelope \<Rightarrow> replay_response \<Rightarrow> session \<Rightarrow> ('b, session) io" where
  "accept_command env now r e response s =
     bindIO (pureIO (case rp_response response of None \<Rightarrow> Inr () | Some body \<Rightarrow> reject_secret_material body)) (\<lambda>_.
       let receipt = \<lparr>ar_seq = st_seq (rc_stored r), ar_hash = op_hash (rc_opened r), ar_command = ce_command e,
             ar_status = rp_status response, ar_response = rp_response response,
             ar_digest = digest_json [(''response'', opt_obj (rp_response response))], ar_events = rp_events response,
             ar_position = rp_position response, ar_at = utc_text now\<rparr>
       in bindIO (session_append env ''accepted_receipt'' ''accepted'' (accepted_dump receipt) s) (\<lambda>(_, s).
            bindIO (session_move r ''accepted'' s) (\<lambda>(_, s). pureIO (Inr s))))"

definition quarantine_command ::
  "'b spool_env \<Rightarrow> datetime \<Rightarrow> recovered_record \<Rightarrow> string \<Rightarrow> members option \<Rightarrow> server_refusal option \<Rightarrow> session \<Rightarrow> ('b, session) io" where
  "quarantine_command env now r reason response refused s =
     (let receipt = \<lparr>qr_version = 2, qr_seq = st_seq (rc_stored r), qr_hash = op_hash (rc_opened r), qr_reason = reason,
            qr_digest = map_option digest_json response, qr_at = utc_text now, qr_refusal = refused\<rparr>
      in bindIO (session_append env ''quarantine_receipt'' ''quarantine'' (quarantine_dump receipt) s) (\<lambda>(_, s).
           bindIO (session_move r ''quarantine'' s) (\<lambda>(_, s). pureIO (Inr s))))"

text \<open>
  \<open>_execute\<close>: a command that no longer validates is answered 422 locally; a transport failure
  (\<open>None\<close>) counts as 503.
\<close>

definition execute_command ::
  "(command_envelope \<Rightarrow> replay_response option) \<Rightarrow> command_envelope \<Rightarrow> replay_response" where
  "execute_command send e =
     (if \<not> spoolable_operation (ce_operation e) \<or> \<not> secret_free (JObj (ce_path e)) \<or> \<not> secret_free (JObj (ce_body e))
      then plain_response 422
      else case send e of None \<Rightarrow> plain_response 503 | Some r \<Rightarrow> r)"

record drain_report =
  dr_attempted :: nat
  dr_accepted :: nat
  dr_quarantined :: nat
  dr_remaining :: nat
  dr_barrier :: "int option"
  dr_reason :: string

definition quarantine_barrier :: "session \<Rightarrow> int option" where
  "quarantine_barrier s =
     (case map (\<lambda>r. st_seq (rc_stored r)) (filter (\<lambda>r. st_dir (rc_stored r) = ''quarantine'') (session_commands s)) of
        [] \<Rightarrow> None | n # ns \<Rightarrow> Some (foldl min n ns))"

definition remaining_pending :: "session \<Rightarrow> nat" where
  "remaining_pending s = length (filter (\<lambda>r. st_dir (rc_stored r) = ''pending'') (session_commands s))"

text \<open>What one drain observes of the world: the server, and two clock readings per command.\<close>

record replay_world =
  rw_send :: "int \<Rightarrow> command_envelope \<Rightarrow> replay_response option"
  rw_check :: "int \<Rightarrow> datetime"
  rw_stamp :: "int \<Rightarrow> datetime"

text \<open>The loop over the pending commands: attempted, accepted, quarantined, the last reason.\<close>

fun drain_loop ::
  "'b spool_env \<Rightarrow> replay_world \<Rightarrow> string \<Rightarrow> recovered_record list \<Rightarrow> nat \<times> nat \<times> nat \<times> string \<Rightarrow> session \<Rightarrow>
   ('b, (nat \<times> nat \<times> nat \<times> string) \<times> session) io" where
  "drain_loop env rw binding [] counts s = pureIO (Inr (counts, s))"
| "drain_loop env rw binding (r # rs) (attempted, accepted, quarantined, reason) s =
     (let n = st_seq (rc_stored r) in
      bindIO (pureIO (command_payload (rc_opened r))) (\<lambda>e.
        case binding_refusal e binding of
          Some why \<Rightarrow>
            bindIO (quarantine_command env (rw_stamp rw n) r why None None s) (\<lambda>s.
              pureIO (Inr ((attempted, accepted, quarantined + 1, why), s)))
        | None \<Rightarrow>
            (case parse_utc (ce_expires e) of
               None \<Rightarrow> pureIO (Inl (InvalidValue ''timestamp is not canonical UTC''))
             | Some expires \<Rightarrow>
                 if rw_check rw n \<ge> expires
                 then bindIO (quarantine_command env (rw_stamp rw n) r ''expired'' None None s) (\<lambda>s.
                   pureIO (Inr ((attempted, accepted, quarantined + 1, ''expired''), s)))
                 else
                   let response = execute_command (rw_send rw n) e;
                       (decision, why) = classify_reply response (ce_command e)
                   in case decision of
                        Accept \<Rightarrow>
                          bindIO (accept_command env (rw_stamp rw n) r e response s) (\<lambda>s.
                            drain_loop env rw binding rs (attempted + 1, accepted + 1, quarantined, why) s)
                      | Quarantine \<Rightarrow>
                          bindIO (quarantine_command env (rw_stamp rw n) r why (rp_response response) (rp_refusal response) s) (\<lambda>s.
                            pureIO (Inr ((attempted + 1, accepted, quarantined + 1, why), s)))
                      | KeepPending \<Rightarrow> pureIO (Inr ((attempted + 1, accepted, quarantined, why), s)))))"

definition drain_session ::
  "'b spool_env \<Rightarrow> replay_world \<Rightarrow> string \<Rightarrow> session \<Rightarrow> ('b, drain_report \<times> session) io" where
  "drain_session env rw binding s =
     (if ss_corrupt s \<noteq> [] then pureIO (Inl (chain_error ''corrupt quarantine blocks normal ordered replay''))
      else
        let commands = sort_key (\<lambda>r. st_seq (rc_stored r)) (session_commands s);
            barrier = find (\<lambda>r. st_dir (rc_stored r) = ''quarantine'') commands;
            pending = filter (\<lambda>r. st_dir (rc_stored r) = ''pending'') commands;
            blocked = (case barrier of
              None \<Rightarrow> False
            | Some b \<Rightarrow> pending = [] \<or> st_seq (rc_stored b) < st_seq (rc_stored (hd pending)))
        in if blocked
           then pureIO (Inr (\<lparr>dr_attempted = 0, dr_accepted = 0, dr_quarantined = 0, dr_remaining = remaining_pending s,
             dr_barrier = map_option (\<lambda>b. st_seq (rc_stored b)) barrier, dr_reason = ''quarantine_barrier''\<rparr>, s))
           else bindIO (drain_loop env rw binding pending (0, 0, 0, ''empty'') s) (\<lambda>((attempted, accepted, quarantined, reason), s).
             pureIO (Inr (\<lparr>dr_attempted = attempted, dr_accepted = accepted, dr_quarantined = quarantined,
               dr_remaining = remaining_pending s, dr_barrier = quarantine_barrier s, dr_reason = reason\<rparr>, s))))"

section \<open>Compaction\<close>

fun accepted_receipts :: "recovered_record list \<Rightarrow> accepted_receipt list spool" where
  "accepted_receipts [] = Inr []"
| "accepted_receipts (r # rs) =
     (if op_type (rc_opened r) \<noteq> ''accepted_receipt'' then accepted_receipts rs
      else case accepted_read (op_payload (rc_opened r)) of
        None \<Rightarrow> Inl (InvalidValue ''AcceptedReceipt'')
      | Some a \<Rightarrow> bindE (accepted_receipts rs) (\<lambda>as. Inr (a # as)))"

text \<open>\<open>any(now - parse_utc(...) < horizon ...)\<close>, which stops at the first young receipt.\<close>

fun any_young :: "datetime \<Rightarrow> int \<Rightarrow> accepted_receipt list \<Rightarrow> bool spool" where
  "any_young now horizon [] = Inr False"
| "any_young now horizon (a # as) =
     (case parse_utc (ar_at a) of
        None \<Rightarrow> Inl (InvalidValue ''timestamp is not canonical UTC'')
      | Some t \<Rightarrow> if now - t < horizon then Inr True else any_young now horizon as)"

definition compact_accepted :: "'b spool_env \<Rightarrow> datetime \<Rightarrow> int \<Rightarrow> session \<Rightarrow> ('b, nat \<times> session) io" where
  "compact_accepted env now horizon s =
     (if ss_torn s \<noteq> 0 \<or> ss_records s = [] then pureIO (Inr (0, s))
      else if \<exists>r \<in> set (session_commands s). st_dir (rc_stored r) \<noteq> ''accepted'' then pureIO (Inr (0, s))
      else bindIO (pureIO (accepted_receipts (ss_records s))) (\<lambda>receipts.
        bindIO (pureIO (if receipts = [] then Inr True else any_young now horizon receipts)) (\<lambda>young.
          if young then pureIO (Inr (0, s))
          else if \<exists>r \<in> set (ss_records s). op_type (rc_opened r) \<notin> {''anchor'', ''command'', ''accepted_receipt''}
          then pureIO (Inr (0, s))
          else
            let covered = ss_records s; terminal = last covered;
                anchor = \<lparr>an_from = 1, an_through = st_seq (rc_stored terminal),
                  an_terminal = op_hash (rc_opened terminal), an_at = utc_text now\<rparr>
            in bindIO (session_append env ''anchor'' ''anchors'' (anchor_dump anchor) s) (\<lambda>(_, s).
                 bindIO (remove_all covered) (\<lambda>_.
                   pureIO (Inr (length covered,
                     s\<lparr>ss_records := filter (\<lambda>r. rc_stored r \<notin> rc_stored ` set covered) (ss_records s)\<rparr>)))))))"

section \<open>Operations\<close>

record spool_config =
  cf_command_bytes :: nat
  cf_live_bytes :: nat
  cf_live_commands :: nat
  cf_pending_days :: int
  cf_accepted_days :: int
  cf_scan :: nat

definition day :: int where
  "day = 86400 * second"

definition with_session ::
  "'b spool_env \<Rightarrow> datetime \<Rightarrow> int \<Rightarrow> bool \<Rightarrow> (session \<Rightarrow> ('b, 'a \<times> session) io) \<Rightarrow> ('b, 'a) io" where
  "with_session env now horizon automatic body =
     bindIO (recover_session env True) (\<lambda>s.
     bindIO (if automatic \<and> ss_corrupt s = [] then compact_accepted env now horizon s else pureIO (Inr (0, s))) (\<lambda>(_, s).
     bindIO (body s) (\<lambda>(x, s).
     bindIO (checkpoint_recovery env s) (\<lambda>_. pureIO (Inr x)))))"

record spool_command =
  sc_operation :: string
  sc_path :: members
  sc_body :: members
  sc_id :: uuid

definition deny_unspoolable :: "spool_command \<Rightarrow> unit spool" where
  "deny_unspoolable c =
     bindE (raise_if (\<not> spoolable_operation (sc_operation c)) (InvalidValue ''only generated allowlisted mutations may enter the spool'')) (\<lambda>_.
     bindE (reject_secret_material (sc_path c)) (\<lambda>_. reject_secret_material (sc_body c)))"

definition semantic_digest :: "spool_command \<Rightarrow> string" where
  "semantic_digest c =
     digest_json [(''operation_id'', JStr (sc_operation c)), (''path_parameters'', JObj (sc_path c)),
       (''request_body'', JObj (sc_body c))]"

definition new_envelope :: "spool_command \<Rightarrow> string \<Rightarrow> int \<Rightarrow> string \<Rightarrow> string \<Rightarrow> datetime \<Rightarrow> command_envelope" where
  "new_envelope c origin days semantic binding now =
     \<lparr>ce_version = 2, ce_operation = sc_operation c, ce_path = sc_path c, ce_body = sc_body c,
      ce_command = uuid_str (sc_id c), ce_origin = origin, ce_enqueued = utc_text now,
      ce_expires = utc_text (now + days * day), ce_semantic = semantic, ce_binding = Some binding\<rparr>"

fun find_command_id :: "recovered_record list \<Rightarrow> uuid \<Rightarrow> recovered_record option spool" where
  "find_command_id [] u = Inr None"
| "find_command_id (r # rs) u =
     bindE (command_payload (rc_opened r)) (\<lambda>e.
       if ce_command e = uuid_str u then Inr (Some r) else find_command_id rs u)"

definition idempotent_entry :: "recovered_record \<Rightarrow> string \<Rightarrow> string \<Rightarrow> recovered_record spool" where
  "idempotent_entry r semantic binding =
     bindE (command_payload (rc_opened r)) (\<lambda>e.
       if ce_semantic e \<noteq> semantic
       then Inl (SpoolError ''command_id_conflict'' ''command ID already binds a different request'')
       else if ce_binding e \<noteq> Some binding
       then Inl (SpoolError ''credential_identity_mismatch'' ''command ID belongs to another enqueue credential identity'')
       else Inr r)"

definition record_overhead_reserve :: nat where
  "record_overhead_reserve = 4096"

definition payload_size :: "members \<Rightarrow> nat" where
  "payload_size ms = length (json_dumps (JObj ms))"

definition check_command_size :: "command_envelope \<Rightarrow> nat \<Rightarrow> unit spool" where
  "check_command_size e maximum =
     raise_if (int (payload_size (envelope_dump e)) > int maximum - int record_overhead_reserve)
       (SpoolError ''command_too_large'' ''command exceeds the encrypted 1 MiB record policy'')"

definition live_commands :: "session \<Rightarrow> recovered_record list" where
  "live_commands s = filter (\<lambda>r. st_dir (rc_stored r) \<in> {''pending'', ''quarantine''}) (session_commands s)"

definition live_count :: "session \<Rightarrow> nat" where
  "live_count s = length (live_commands s) + length (ss_corrupt s)"

definition live_bytes :: "session \<Rightarrow> nat" where
  "live_bytes s =
     sum_list (map (\<lambda>r. st_size (rc_stored r)) (live_commands s)) + sum_list (map (\<lambda>c. st_size (co_stored c)) (ss_corrupt s))"

definition check_capacity :: "session \<Rightarrow> spool_config \<Rightarrow> nat \<Rightarrow> unit spool" where
  "check_capacity s cf incoming =
     (if live_count s \<ge> cf_live_commands cf then Inl (SpoolError ''capacity_count'' ''live spool command capacity is exhausted'')
      else if live_bytes s + incoming > cf_live_bytes cf
      then Inl (SpoolError ''capacity_bytes'' ''live spool byte capacity is exhausted'')
      else Inr ())"

definition verify_existing_capacity :: "session \<Rightarrow> spool_config \<Rightarrow> unit spool" where
  "verify_existing_capacity s cf =
     (if live_count s > cf_live_commands cf then Inl (StorageError ''live spool exceeds configured command capacity'')
      else if live_bytes s > cf_live_bytes cf then Inl (StorageError ''live spool exceeds configured byte capacity'')
      else Inr ())"

definition require_binding :: "string option \<Rightarrow> string spool" where
  "require_binding b =
     (case b of
        None \<Rightarrow> Inl (SpoolError ''credential_identity_required''
          ''enqueue and replay require an ephemeral credential identity binding'')
      | Some x \<Rightarrow> Inr x)"

definition enqueue_in ::
  "'b spool_env \<Rightarrow> spool_config \<Rightarrow> string \<Rightarrow> string option \<Rightarrow> datetime \<Rightarrow> spool_command \<Rightarrow> session \<Rightarrow>
   ('b, recovered_record \<times> session) io" where
  "enqueue_in env cf origin binding now c s =
     bindIO (pureIO (require_binding binding)) (\<lambda>b.
     bindIO (pureIO (find_command_id (session_commands s) (sc_id c))) (\<lambda>existing.
       case existing of
         Some r \<Rightarrow> bindIO (pureIO (idempotent_entry r (semantic_digest c) b)) (\<lambda>r. pureIO (Inr (r, s)))
       | None \<Rightarrow>
           let e = new_envelope c origin (cf_pending_days cf) (semantic_digest c) b now in
           bindIO (pureIO (check_command_size e (cf_command_bytes cf))) (\<lambda>_.
           bindIO (pureIO (check_capacity s cf (payload_size (envelope_dump e) + record_overhead_reserve))) (\<lambda>_.
             session_append env ''command'' ''pending'' (envelope_dump e) s))))"

definition require_quarantined :: "recovered_record option \<Rightarrow> recovered_record spool" where
  "require_quarantined r =
     (case r of
        Some c \<Rightarrow>
          if st_dir (rc_stored c) \<noteq> ''quarantine''
          then Inl (SpoolError ''invalid_disposition'' ''disposition requires one quarantined command sequence'')
          else Inr c
      | None \<Rightarrow> Inl (SpoolError ''invalid_disposition'' ''disposition requires one quarantined command sequence''))"

definition dispose_corrupt ::
  "'b spool_env \<Rightarrow> corrupt_record \<Rightarrow> string \<Rightarrow> string \<Rightarrow> string option \<Rightarrow> datetime \<Rightarrow> session \<Rightarrow> ('b, session) io" where
  "dispose_corrupt env c act reason artifact now s =
     (if act \<noteq> ''discard''
      then pureIO (Inl (SpoolError ''invalid_disposition'' ''corrupt ciphertext can only be explicitly discarded''))
      else if (case artifact of None \<Rightarrow> True | Some a \<Rightarrow> \<not> hex_text 64 a)
      then pureIO (Inl (SpoolError ''invalid_disposition'' ''corrupt disposition requires its exact inventory artifact digest''))
      else if artifact \<noteq> Some (co_digest c)
      then pureIO (Inl (SpoolError ''invalid_disposition'' ''corrupt artifact changed or the digest targets another entry''))
      else bindIO (readIO (verify_corrupt_artifact env c)) (\<lambda>_.
        let d = \<lparr>cd_seq = st_seq (co_stored c), cd_hash = co_hash c, cd_pred = co_pred c, cd_digest = co_digest c,
              cd_bytes = int (st_size (co_stored c)), cd_reason = sha256_hex reason, cd_at = utc_text now\<rparr>
        in bindIO (session_append env ''corrupt_disposition'' ''quarantine'' (corrupt_dump d) s) (\<lambda>(_, s). pureIO (Inr s))))"

definition disposition_in ::
  "'b spool_env \<Rightarrow> int \<Rightarrow> string \<Rightarrow> string \<Rightarrow> string option \<Rightarrow> datetime \<Rightarrow> session \<Rightarrow> ('b, unit \<times> session) io" where
  "disposition_in env n act reason artifact now s =
     (case corrupt_command n s of
        Some c \<Rightarrow> bindIO (dispose_corrupt env c act reason artifact now s) (\<lambda>s. pureIO (Inr ((), s)))
      | None \<Rightarrow>
          if artifact \<noteq> None
          then pureIO (Inl (SpoolError ''invalid_disposition'' ''artifact digest applies only to corrupt quarantine''))
          else bindIO (pureIO (require_quarantined (session_command n s))) (\<lambda>r.
            let d = \<lparr>dp_version = 2, dp_seq = n, dp_hash = op_hash (rc_opened r),
                  dp_pred = (if act = ''discard'' then Some (op_pred (rc_opened r)) else None), dp_action = act,
                  dp_reason = sha256_hex reason, dp_at = utc_text now\<rparr>
            in bindIO (session_append env ''disposition'' ''quarantine'' (disposition_dump d) s) (\<lambda>(_, s).
                 if act = ''discard'' then bindIO (session_remove r s) (\<lambda>s. pureIO (Inr ((), s)))
                 else bindIO (session_move r ''pending'' s) (\<lambda>(_, s). pureIO (Inr ((), s))))))"

end
