(* ===== verification/SpoolLog.thy ===== *)
theory SpoolLog
  imports SpoolReplay
begin

text \<open>
  The logical log behind the records that are present: what each sequence number stands for, the state of
  each command by the actions on it, and the lemmas that the chain validation and the transition fold of
  \<open>_chain.py\<close> and \<open>_recovery.py\<close> compute exactly that.
\<close>

section \<open>The chain\<close>

definition seq_of :: "recovered_record \<Rightarrow> int" where
  "seq_of r = st_seq (rc_stored r)"

definition tomb_of :: "recovered_record \<Rightarrow> (int \<times> disposition_doc) list" where
  "tomb_of r =
     (if op_type (rc_opened r) \<noteq> ''disposition'' then []
      else case disposition_read (op_payload (rc_opened r)) of
        None \<Rightarrow> [] | Some d \<Rightarrow> if dp_action d = ''discard'' then [(dp_seq d, d)] else [])"

definition tombs :: "recovered_record list \<Rightarrow> (int \<times> disposition_doc) list" where
  "tombs R = concat (map tomb_of R)"

lemma tombs_simps [simp]: "tombs [] = []" "tombs (r # R) = tomb_of r @ tombs R" "tombs (R @ R') = tombs R @ tombs R'"
  by (simp_all add: tombs_def)

text \<open>Every disposition reads, and a discard names the predecessor of what it discards.\<close>

definition readable :: "recovered_record \<Rightarrow> bool" where
  "readable r \<longleftrightarrow>
     (op_type (rc_opened r) = ''disposition'' \<longrightarrow> (\<exists>d. disposition_read (op_payload (rc_opened r)) = Some d \<and>
        (dp_action d = ''discard'' \<longrightarrow> dp_pred d \<noteq> None))) \<and>
     op_type (rc_opened r) \<noteq> ''corrupt_disposition''"

lemma discarded_tombstones_ok:
  "\<forall>r \<in> set R. readable r \<Longrightarrow> distinct (map fst (acc @ tombs R)) \<Longrightarrow> discarded_tombstones acc R = Inr (acc @ tombs R)"
proof (induction R arbitrary: acc)
  case (Cons r R)
  have IH: "distinct (map fst (acc' @ tombs R)) \<Longrightarrow> discarded_tombstones acc' R = Inr (acc' @ tombs R)" for acc'
    using Cons by simp
  show ?case
  proof (cases "op_type (rc_opened r) = ''disposition''")
    case True
    then obtain d where d: "disposition_read (op_payload (rc_opened r)) = Some d"
      "dp_action d = ''discard'' \<longrightarrow> dp_pred d \<noteq> None"
      using Cons.prems(1) by (auto simp: readable_def)
    then show ?thesis
      using Cons.prems(2) True IH [of acc] IH [of "acc @ [(dp_seq d, d)]"] by (auto simp: payload_of_def tomb_of_def)
  qed (use Cons.prems IH [of acc] in \<open>simp add: tomb_of_def\<close>)
qed simp

lemma no_corrupt_dispositions: "\<forall>r \<in> set R. readable r \<Longrightarrow> corrupt_dispositions acc R = Inr acc"
  by (induction R) (auto simp: readable_def)

text \<open>What a sequence number stands for: its predecessor hash and its own.\<close>

definition chain_entry :: "recovered_record list \<Rightarrow> (int \<times> disposition_doc) list \<Rightarrow> int \<Rightarrow> (string \<times> string) option" where
  "chain_entry R discarded m =
     (case find (\<lambda>r. seq_of r = m) R of
        Some r \<Rightarrow> Some (op_pred (rc_opened r), op_hash (rc_opened r))
      | None \<Rightarrow>
          (case map_of discarded m of
             None \<Rightarrow> None
           | Some d \<Rightarrow> map_option (\<lambda>p. (p, dp_hash d)) (dp_pred d)))"

definition ascending :: "recovered_record list \<Rightarrow> bool" where
  "ascending R \<longleftrightarrow> sorted_wrt (<) (map seq_of R)"

definition last_seq :: "int \<Rightarrow> recovered_record list \<Rightarrow> int" where
  "last_seq n R = (if R = [] then n - 1 else seq_of (last R))"

lemma bridge_gap_ok:
  "(\<And>m. n \<le> m \<Longrightarrow> m < n + int k \<Longrightarrow> \<exists>d. map_of discarded m = Some d \<and> dp_pred d = Some (H (m - 1)) \<and> dp_hash d = H m) \<Longrightarrow>
   bridge_gap discarded k n (H (n - 1)) hashes = Inr (H (n + int k - 1), hashes @ map (\<lambda>m. (m, H m)) [n..n + int k - 1])"
proof (induction k arbitrary: n hashes)
  case (Suc k)
  obtain d where d: "map_of discarded n = Some d" "dp_pred d = Some (H (n - 1))" "dp_hash d = H n"
    using Suc.prems [of n] by auto
  have "bridge_gap discarded k (n + 1) (H (n + 1 - 1)) (hashes @ [(n, H n)]) =
      Inr (H (n + 1 + int k - 1), (hashes @ [(n, H n)]) @ map (\<lambda>m. (m, H m)) [n + 1..n + 1 + int k - 1])"
    using Suc.prems by (intro Suc.IH) simp
  moreover have "[n..n + int (Suc k) - 1] = n # [n + 1..n + 1 + int k - 1]"
    by (subst upto.simps) (simp add: algebra_simps)
  ultimately show ?case using d by (simp add: bridge_discarded_def algebra_simps)
qed simp

lemma ascending_Cons: "ascending (r # R) \<longleftrightarrow> (\<forall>s \<in> set R. seq_of r < seq_of s) \<and> ascending R"
  by (auto simp: ascending_def)

lemma chain_entry_absent:
  "ascending R \<Longrightarrow> \<forall>r \<in> set R. m < seq_of r \<Longrightarrow> chain_entry R discarded m =
     (case map_of discarded m of None \<Rightarrow> None | Some d \<Rightarrow> map_option (\<lambda>p. (p, dp_hash d)) (dp_pred d))"
proof -
  assume "\<forall>r \<in> set R. m < seq_of r"
  then have "find (\<lambda>r. seq_of r = m) R = None" by (auto simp: find_None_iff)
  then show ?thesis by (simp add: chain_entry_def)
qed

lemma chain_loop_ok:
  "ascending R \<Longrightarrow> \<forall>r \<in> set R. n \<le> seq_of r \<Longrightarrow>
   (\<And>m. n \<le> m \<Longrightarrow> m \<le> last_seq n R \<Longrightarrow> chain_entry R discarded m = Some (H (m - 1), H m)) \<Longrightarrow>
   chain_loop discarded dispositions head (map Good R) n (H (n - 1)) hashes active =
     Inr (hashes @ map (\<lambda>m. (m, H m)) [n..last_seq n R], active)"
proof (induction R arbitrary: n hashes)
  case Nil
  then show ?case by (simp add: last_seq_def)
next
  case (Cons r R)
  let ?s = "seq_of r"
  have asc: "ascending R" "\<forall>q \<in> set R. ?s < seq_of q" using Cons.prems(1) by (auto simp: ascending_Cons)
  have last: "last_seq n (r # R) = last_seq (?s + 1) R" by (simp add: last_seq_def)
  have le: "n \<le> ?s" "?s \<le> last_seq n (r # R)"
    using Cons.prems(2) asc(2) by (auto simp: last_seq_def intro: order.strict_implies_order)
  have self: "op_pred (rc_opened r) = H (?s - 1)" "op_hash (rc_opened r) = H ?s"
    using Cons.prems(3) [of ?s] le by (auto simp: chain_entry_def)
  have gap: "bridge_gap discarded (nat (?s - n)) n (H (n - 1)) hashes =
      Inr (H (?s - 1), hashes @ map (\<lambda>m. (m, H m)) [n..?s - 1])"
  proof -
    have "\<exists>d. map_of discarded m = Some d \<and> dp_pred d = Some (H (m - 1)) \<and> dp_hash d = H m" if "n \<le> m" "m < ?s" for m
    proof -
      have "chain_entry (r # R) discarded m = Some (H (m - 1), H m)" using that le Cons.prems(3) by simp
      moreover have "\<forall>q \<in> set (r # R). m < seq_of q" using that asc(2) by auto
      ultimately show ?thesis
        using chain_entry_absent [OF Cons.prems(1)] by (auto split: option.splits)
    qed
    then show ?thesis using bridge_gap_ok [of n "nat (?s - n)" discarded H hashes] le(1) by simp
  qed
  have rest: "chain_entry R discarded m = Some (H (m - 1), H m)" if "?s + 1 \<le> m" "m \<le> last_seq (?s + 1) R" for m
    using Cons.prems(3) [of m] that le(1) last by (simp add: chain_entry_def)
  have split: "[n..last_seq n (r # R)] = [n..?s - 1] @ ?s # [?s + 1..last_seq (?s + 1) R]"
    unfolding last [symmetric]
    using le upto_split3 [of n ?s "last_seq n (r # R)"] by simp
  have "chain_loop discarded dispositions head (map Good R) (?s + 1) (H (?s + 1 - 1))
      ((hashes @ map (\<lambda>m. (m, H m)) [n..?s - 1]) @ [(?s, H ?s)]) active =
      Inr (((hashes @ map (\<lambda>m. (m, H m)) [n..?s - 1]) @ [(?s, H ?s)]) @ map (\<lambda>m. (m, H m)) [?s + 1..last_seq (?s + 1) R], active)"
    using asc rest by (intro Cons.IH) auto
  then show ?case
    using gap self le by (simp add: split seq_of_def [symmetric] Let_def max_def)
qed

text \<open>An anchor stands at the front and covers exactly the prefix before it.\<close>

definition anchor_fits :: "recovered_record \<Rightarrow> bool" where
  "anchor_fits r \<longleftrightarrow> (\<exists>a. anchor_read (op_payload (rc_opened r)) = Some a \<and> an_from a = 1 \<and>
     an_through a = seq_of r - 1 \<and> an_terminal a = op_pred (rc_opened r)) \<and> seq_of r \<noteq> 1"

definition start_of :: "recovered_record list \<Rightarrow> int \<times> string" where
  "start_of R =
     (case R of
        r # _ \<Rightarrow> if op_type (rc_opened r) = ''anchor'' then (seq_of r, op_pred (rc_opened r)) else (1, genesis_hash)
      | [] \<Rightarrow> (1, genesis_hash))"

definition linked :: "recovered_record list \<Rightarrow> (int \<Rightarrow> string) \<Rightarrow> bool" where
  "linked R H \<longleftrightarrow>
     H (fst (start_of R) - 1) = snd (start_of R) \<and>
     (\<forall>m. fst (start_of R) \<le> m \<and> m \<le> last_seq 1 R \<longrightarrow> chain_entry R (tombs R) m = Some (H (m - 1), H m))"

definition log_ok :: "recovered_record list \<Rightarrow> bool" where
  "log_ok R \<longleftrightarrow>
     ascending R \<and> (\<forall>r \<in> set R. 1 \<le> seq_of r \<and> readable r) \<and> distinct (map fst (tombs R)) \<and>
     (\<forall>r \<in> set R. op_type (rc_opened r) = ''anchor'' \<longrightarrow> r = hd R \<and> anchor_fits r)"

definition chain_hashes :: "recovered_record list \<Rightarrow> (int \<Rightarrow> string) \<Rightarrow> (int \<times> string) list" where
  "chain_hashes R H = map (\<lambda>m. (m, H m)) [fst (start_of R)..last_seq 1 R]"

declare item_seq.simps [simp del]

lemma item_seq_Good [simp]: "item_seq (Good r) = seq_of r"
  by (simp add: seq_of_def item_seq.simps)

lemma sort_ascending: "ascending R \<Longrightarrow> sort_key item_seq (map Good R) = map Good R"
  by (rule sort_key_id_if_sorted) (simp add: ascending_def comp_def strict_sorted_imp_sorted)

lemma ascending_hd: "ascending R \<Longrightarrow> r \<in> set R \<Longrightarrow> seq_of (hd R) \<le> seq_of r"
  by (cases R) (auto simp: ascending_Cons intro: order.strict_implies_order)

lemma start_le:
  assumes "log_ok R" and "r \<in> set R"
  shows "fst (start_of R) \<le> seq_of r"
proof -
  have "fst (start_of R) = seq_of (hd R) \<or> fst (start_of R) = 1" by (simp add: start_of_def split: list.split)
  moreover have "seq_of (hd R) \<le> seq_of r" "1 \<le> seq_of r"
    using assms ascending_hd unfolding log_ok_def by blast+
  ultimately show ?thesis by linarith
qed

lemma validate_record_chain_ok:
  assumes ok: "log_ok R" and link: "linked R H" and "R \<noteq> []"
  shows "validate_record_chain R [] head = Inr (chain_hashes R H, [])"
proof -
  obtain r R' where R: "R = r # R'" using \<open>R \<noteq> []\<close> by (cases R) auto
  let ?n = "fst (start_of R)"
  have asc: "ascending R" and rd: "\<forall>r \<in> set R. readable r" and dist: "distinct (map fst (tombs R))"
    using ok unfolding log_ok_def by blast+
  have last: "last_seq ?n R = last_seq 1 R" by (simp add: last_seq_def R)
  have entry: "chain_entry R (tombs R) m = Some (H (m - 1), H m)" if "?n \<le> m" "m \<le> last_seq ?n R" for m
    using link that unfolding linked_def last by blast
  have "chain_loop (tombs R) [] head (map Good R) ?n (H (?n - 1)) [] [] = Inr ([] @ map (\<lambda>m. (m, H m)) [?n..last_seq ?n R], [])"
    by (rule chain_loop_ok [OF asc]) (use start_le [OF ok] entry in blast)+
  moreover have "H (?n - 1) = snd (start_of R)" using link by (simp add: linked_def)
  ultimately have loop: "chain_loop (tombs R) [] head (map Good R) ?n (snd (start_of R)) [] [] = Inr (chain_hashes R H, [])"
    by (simp add: chain_hashes_def last)
  have first: "op_type (rc_opened r) = ''anchor'' \<Longrightarrow> anchor_fits r" using ok unfolding log_ok_def R by simp
  obtain n pred where np: "start_of R = (n, pred)" by (cases "start_of R")
  have start: "chain_start (Good r) = Inr (n, pred)"
    using first np by (auto simp: R chain_start_def start_of_def anchor_fits_def payload_of_def seq_of_def split: if_splits)
  have cons: "map Good R = Good r # map Good R'" by (simp add: R)
  have "discarded_tombstones [] R = Inr (tombs R)"
    using discarded_tombstones_ok [OF rd, of "[]"] dist by simp
  then show ?thesis
    unfolding validate_record_chain_def list.simps(8) append_Nil2 sort_ascending [OF asc] unfolding cons list.case
    using loop start no_corrupt_dispositions [OF rd] np unfolding cons by (simp del: chain_loop.simps)
qed

section \<open>The states of commands\<close>

definition target :: "recovered_record \<Rightarrow> (int \<times> string) option" where
  "target r =
     (let kind = op_type (rc_opened r); ms = op_payload (rc_opened r) in
      if kind = ''accepted_receipt'' then map_option (\<lambda>a. (ar_seq a, ''accepted'')) (accepted_read ms)
      else if kind = ''quarantine_receipt'' then map_option (\<lambda>q. (qr_seq q, ''quarantined'')) (quarantine_read ms)
      else if kind = ''disposition'' then map_option (\<lambda>d. (dp_seq d, dp_action d)) (disposition_read ms)
      else None)"

definition actions :: "recovered_record list \<Rightarrow> int \<Rightarrow> string list" where
  "actions R n = concat (map (\<lambda>r. case target r of Some (m, a) \<Rightarrow> if m = n then [a] else [] | None \<Rightarrow> []) R)"

lemma actions_simps [simp]: "actions [] n = []" "actions (R @ R') n = actions R n @ actions R' n"
  "actions (r # R) n = (case target r of Some (m, a) \<Rightarrow> if m = n then [a] else [] | None \<Rightarrow> []) @ actions R n"
  by (simp_all add: actions_def)

fun run_actions :: "string \<Rightarrow> string list \<Rightarrow> string option" where
  "run_actions s [] = Some s"
| "run_actions s (a # as) = (case next_state s a of Inl _ \<Rightarrow> None | Inr s' \<Rightarrow> run_actions s' as)"

lemma run_actions_append: "run_actions s (as @ bs) = Option.bind (run_actions s as) (\<lambda>s'. run_actions s' bs)"
  by (induction as arbitrary: s) (auto split: sum.split)

definition command_at :: "recovered_record list \<Rightarrow> int \<Rightarrow> recovered_record option" where
  "command_at R n = find (\<lambda>r. op_type (rc_opened r) = ''command'' \<and> seq_of r = n) R"

text \<open>What a receipt or disposition says of its command is true of the records.\<close>

definition receipt_ok :: "recovered_record list \<Rightarrow> recovered_record \<Rightarrow> bool" where
  "receipt_ok R r \<longleftrightarrow>
     (let kind = op_type (rc_opened r); ms = op_payload (rc_opened r) in
      (kind = ''accepted_receipt'' \<longrightarrow>
         (\<exists>a c e. accepted_read ms = Some a \<and> command_at R (ar_seq a) = Some c \<and> op_hash (rc_opened c) = ar_hash a \<and>
            command_payload (rc_opened c) = Inr e \<and> ar_command a = ce_command e \<and>
            ar_digest a = digest_json [(''response'', opt_obj (ar_response a))])) \<and>
      (kind = ''quarantine_receipt'' \<longrightarrow>
         (\<exists>q. quarantine_read ms = Some q \<and>
            (case command_at R (qr_seq q) of
               Some c \<Rightarrow> op_hash (rc_opened c) = qr_hash q
             | None \<Rightarrow> map_option dp_hash (map_of (tombs R) (qr_seq q)) = Some (qr_hash q)))) \<and>
      (kind = ''disposition'' \<longrightarrow>
         (\<exists>d. disposition_read ms = Some d \<and>
            (case command_at R (dp_seq d) of
               Some c \<Rightarrow> op_hash (rc_opened c) = dp_hash d \<and>
                 (dp_action d = ''discard'' \<longrightarrow> dp_pred d = Some (op_pred (rc_opened c)))
             | None \<Rightarrow> dp_action d = ''discard''))))"

lemma discarded_hashes_ok:
  "\<forall>r \<in> set R. readable r \<Longrightarrow> distinct (map fst acc @ map fst (tombs R)) \<Longrightarrow>
   discarded_hashes acc R = Inr (acc @ map (\<lambda>(n, d). (n, dp_hash d)) (tombs R))"
proof (induction R arbitrary: acc)
  case (Cons r R)
  have IH: "distinct (map fst acc' @ map fst (tombs R)) \<Longrightarrow>
      discarded_hashes acc' R = Inr (acc' @ map (\<lambda>(n, d). (n, dp_hash d)) (tombs R))" for acc'
    using Cons by simp
  show ?case
  proof (cases "op_type (rc_opened r) = ''disposition''")
    case True
    then obtain d where d: "disposition_read (op_payload (rc_opened r)) = Some d"
      using Cons.prems(1) by (auto simp: readable_def)
    then show ?thesis
      using Cons.prems(2) True IH [of acc] IH [of "acc @ [(dp_seq d, dp_hash d)]"]
      by (auto simp: payload_of_def tomb_of_def dict_set_fresh)
  qed (use Cons.prems IH [of acc] in \<open>simp add: tomb_of_def\<close>)
qed simp

lemma map_of_tomb_hashes: "map_of (map (\<lambda>(n, d). (n, dp_hash d)) ts) n = map_option dp_hash (map_of ts n)"
  by (induction ts) auto

lemma map_of_commands: "map_of (commands_of R) n = command_at R n"
  by (induction R) (auto simp: commands_of_def command_at_def seq_of_def)

lemma disposition_action: "disposition_read ms = Some d \<Longrightarrow> dp_action d = ''retry'' \<or> dp_action d = ''discard''"
  by (auto simp: disposition_read_def field_str_def bind_eq_Some_conv split: option.splits json.splits if_splits)

lemma transition_for_ok:
  assumes "receipt_ok R r"
  shows "transition_for (commands_of R) (map (\<lambda>(n, d). (n, dp_hash d)) (tombs R)) r =
     Inr (case target r of
        Some (n, a) \<Rightarrow> if a = ''quarantined'' \<and> command_at R n = None then None else Some (n, a)
      | None \<Rightarrow> None)"
proof -
  let ?kind = "op_type (rc_opened r)"
  consider "?kind = ''accepted_receipt''" | "?kind = ''quarantine_receipt''" | "?kind = ''disposition''"
    | "?kind \<notin> {''accepted_receipt'', ''quarantine_receipt'', ''disposition''}" by auto
  then show ?thesis
  proof cases
    case 1
    then show ?thesis
      using assms
      by (auto simp: receipt_ok_def transition_for_def target_def transition_command_def verify_command_binding_def
        map_of_commands payload_of_def)
  next
    case 2
    then obtain q where q: "quarantine_read (op_payload (rc_opened r)) = Some q"
      "case command_at R (qr_seq q) of Some c \<Rightarrow> op_hash (rc_opened c) = qr_hash q
        | None \<Rightarrow> map_option dp_hash (map_of (tombs R) (qr_seq q)) = Some (qr_hash q)"
      using assms by (auto simp: receipt_ok_def)
    then show ?thesis
      using 2 by (cases "command_at R (qr_seq q)")
        (simp_all add: transition_for_def target_def transition_command_def verify_command_binding_def map_of_commands
          map_of_tomb_hashes payload_of_def)
  next
    case 3
    then obtain d where d: "disposition_read (op_payload (rc_opened r)) = Some d"
      "case command_at R (dp_seq d) of Some c \<Rightarrow> op_hash (rc_opened c) = dp_hash d | None \<Rightarrow> dp_action d = ''discard''"
      using assms by (auto simp: receipt_ok_def split: option.splits)
    then have "dp_action d \<noteq> ''quarantined''" using disposition_action by fastforce
    then show ?thesis
      using 3 d by (cases "command_at R (dp_seq d)")
        (simp_all add: transition_for_def target_def verify_command_binding_def map_of_commands payload_of_def)
  next
    case 4
    then show ?thesis by (simp add: transition_for_def target_def)
  qed
qed

definition status :: "recovered_record list \<Rightarrow> int \<Rightarrow> string option" where
  "status R n = run_actions ''pending'' (actions R n)"

lemma run_actions_next: "run_actions s (a # as) = Some t \<Longrightarrow> \<exists>s'. next_state s a = Inr s' \<and> run_actions s' as = Some t"
  by (auto split: sum.splits)

lemma fold_transitions_ok:
  assumes "\<forall>r \<in> set rs. \<exists>t. transition_for commands discarded r = Inr t \<and>
      (case target r of
         None \<Rightarrow> t = None
       | Some (n, a) \<Rightarrow>
           (if map_of states n = None then t = None \<or> t = Some (n, a) \<and> a = ''discard'' else t = Some (n, a)))"
    and "\<forall>n st. map_of states n = Some st \<longrightarrow> run_actions st (actions rs n) \<noteq> None"
  shows "\<exists>states'. fold_transitions commands discarded rs states = Inr states' \<and>
     (\<forall>n. map_of states' n = Option.bind (map_of states n) (\<lambda>st. run_actions st (actions rs n)))"
  using assms
proof (induction rs arbitrary: states)
  case Nil
  then show ?case by simp
next
  case (Cons r rs)
  obtain t where t: "transition_for commands discarded r = Inr t" and
    shape: "case target r of None \<Rightarrow> t = None | Some (n, a) \<Rightarrow>
      (if map_of states n = None then t = None \<or> t = Some (n, a) \<and> a = ''discard'' else t = Some (n, a))"
    using Cons.prems(1) by auto
  show ?case
  proof (cases "\<exists>n a st. target r = Some (n, a) \<and> map_of states n = Some st")
    case False
    then have acts: "map_of states n = Some st \<Longrightarrow> actions (r # rs) n = actions rs n" for n st
      by (auto split: option.splits)
    have "fold_transitions commands discarded (r # rs) states = fold_transitions commands discarded rs states"
      using t shape False by (auto split: option.splits prod.splits if_splits)
    moreover have "\<exists>states'. fold_transitions commands discarded rs states = Inr states' \<and>
        (\<forall>n. map_of states' n = Option.bind (map_of states n) (\<lambda>st. run_actions st (actions rs n)))"
      by (rule Cons.IH) (use Cons.prems acts in \<open>auto simp del: actions_simps(3)\<close>)
    ultimately obtain states' where "fold_transitions commands discarded (r # rs) states = Inr states'"
      "\<forall>n. map_of states' n = Option.bind (map_of states n) (\<lambda>st. run_actions st (actions rs n))"
      by (elim exE conjE) (rule that, simp_all only:)
    moreover have "Option.bind (map_of states n) (\<lambda>st. run_actions st (actions rs n)) =
        Option.bind (map_of states n) (\<lambda>st. run_actions st (actions (r # rs) n))" for n
      using acts [of n] by (cases "map_of states n") (simp_all del: actions_simps(3))
    ultimately show ?thesis by (simp del: actions_simps(3))
  next
    case True
    then obtain n a st where n: "target r = Some (n, a)" "map_of states n = Some st" by auto
    have "run_actions st (actions (r # rs) n) \<noteq> None" using Cons.prems(2) n(2) by blast
    then have "run_actions st (a # actions rs n) \<noteq> None" using n(1) by simp
    then obtain st' where st': "next_state st a = Inr st'" "run_actions st' (actions rs n) \<noteq> None"
      by (auto split: sum.splits)
    let ?S = "dict_set n st' states"
    have keys: "map_of ?S m = None \<longleftrightarrow> map_of states m = None" for m using n by (simp add: map_of_dict_set)
    have "fold_transitions commands discarded (r # rs) states = fold_transitions commands discarded rs ?S"
      using t shape n st' by simp
    moreover have "\<exists>states'. fold_transitions commands discarded rs ?S = Inr states' \<and>
        (\<forall>m. map_of states' m = Option.bind (map_of ?S m) (\<lambda>st. run_actions st (actions rs m)))"
    proof (rule Cons.IH)
      show "\<forall>q \<in> set rs. \<exists>t. transition_for commands discarded q = Inr t \<and>
         (case target q of None \<Rightarrow> t = None | Some (m, a) \<Rightarrow>
            (if map_of ?S m = None then t = None \<or> t = Some (m, a) \<and> a = ''discard'' else t = Some (m, a)))"
        using Cons.prems(1) unfolding keys by simp
      have "run_actions st (actions rs m) \<noteq> None" if "map_of states m = Some st" "m \<noteq> n" for m st
        using Cons.prems(2) [rule_format, OF that(1)] n(1) that(2) by simp
      then show "\<forall>m st. map_of ?S m = Some st \<longrightarrow> run_actions st (actions rs m) \<noteq> None"
        using st'(2) by (simp add: map_of_dict_set)
    qed
    ultimately show ?thesis using n st'(1) by (auto simp: map_of_dict_set)
  qed
qed

definition log_fits :: "recovered_record list \<Rightarrow> bool" where
  "log_fits R \<longleftrightarrow>
     (\<forall>r \<in> set R. receipt_ok R r \<and> (\<forall>n a. target r = Some (n, a) \<longrightarrow> n < seq_of r)) \<and>
     (\<forall>n. command_at R n \<noteq> None \<longrightarrow> status R n \<noteq> None)"

lemma map_of_pending: "map_of (map (\<lambda>(n, r). (n, ''pending'')) cs) n = map_option (\<lambda>_. ''pending'') (map_of cs n)"
  by (induction cs) auto

lemma target_missing:
  assumes "receipt_ok R r" and "target r = Some (n, a)" and "command_at R n = None"
  shows "a = ''quarantined'' \<or> a = ''discard''"
  using assms by (auto simp: receipt_ok_def target_def Let_def split: if_splits)

lemma command_states_ok:
  assumes "log_ok R" and "log_fits R"
  shows "\<exists>states. command_states R = Inr states \<and>
     (\<forall>n. map_of states n = (if command_at R n = None then None else status R n))"
proof -
  let ?S = "map (\<lambda>(n, r). (n, ''pending'')) (commands_of R)"
  let ?D = "map (\<lambda>(n, d). (n, dp_hash d)) (tombs R)"
  have rd: "\<forall>r \<in> set R. readable r" and dist: "distinct (map fst (tombs R))"
    using assms(1) unfolding log_ok_def by blast+
  have none: "map_of ?S n = None \<longleftrightarrow> command_at R n = None" for n
    by (simp add: map_of_pending map_of_commands)
  have "\<exists>states. fold_transitions (commands_of R) ?D R ?S = Inr states \<and>
     (\<forall>n. map_of states n = Option.bind (map_of ?S n) (\<lambda>st. run_actions st (actions R n)))"
  proof (rule fold_transitions_ok)
    show "\<forall>r \<in> set R. \<exists>t. transition_for (commands_of R) ?D r = Inr t \<and>
      (case target r of None \<Rightarrow> t = None | Some (n, a) \<Rightarrow>
         (if map_of ?S n = None then t = None \<or> t = Some (n, a) \<and> a = ''discard'' else t = Some (n, a)))"
    proof
      fix r assume "r \<in> set R"
      then have ok: "receipt_ok R r" using assms(2) by (simp add: log_fits_def)
      show "\<exists>t. transition_for (commands_of R) ?D r = Inr t \<and>
        (case target r of None \<Rightarrow> t = None | Some (n, a) \<Rightarrow>
           (if map_of ?S n = None then t = None \<or> t = Some (n, a) \<and> a = ''discard'' else t = Some (n, a)))"
        unfolding transition_for_ok [OF ok] none
        using target_missing [OF ok] by (auto split: option.split prod.split)
    qed
    show "\<forall>n st. map_of ?S n = Some st \<longrightarrow> run_actions st (actions R n) \<noteq> None"
      using assms(2) by (auto simp: map_of_pending map_of_commands log_fits_def status_def)
  qed
  moreover have "discarded_hashes [] R = Inr ?D" using discarded_hashes_ok [OF rd, of "[]"] dist by simp
  ultimately show ?thesis
    by (auto simp: command_states_def map_of_pending map_of_commands status_def split: option.split)
qed

text \<open>Where the history puts a record, and the records recovery leaves.\<close>

definition place :: "recovered_record list \<Rightarrow> recovered_record \<Rightarrow> string" where
  "place R r =
     (if op_type (rc_opened r) = ''command''
      then case status R (seq_of r) of None \<Rightarrow> st_dir (rc_stored r) | Some s \<Rightarrow> s
      else st_dir (rc_stored r))"

definition moved_to :: "string \<Rightarrow> recovered_record \<Rightarrow> recovered_record" where
  "moved_to dir r = r\<lparr>rc_stored := (rc_stored r)\<lparr>st_dir := dir\<rparr>\<rparr>"

definition settled :: "recovered_record list \<Rightarrow> recovered_record list" where
  "settled R = map (\<lambda>r. moved_to (place R r) r) (filter (\<lambda>r. place R r \<noteq> ''discarded'') R)"

definition at_rest :: "recovered_record list \<Rightarrow> bool" where
  "at_rest R \<longleftrightarrow> (\<forall>r \<in> set R. place R r = st_dir (rc_stored r) \<and> st_dir (rc_stored r) \<noteq> ''discarded'')"

lemma moved_to_simps [simp]: "rc_opened (moved_to dir r) = rc_opened r" "rc_digest (moved_to dir r) = rc_digest r"
  "st_dir (rc_stored (moved_to dir r)) = dir" "seq_of (moved_to dir r) = seq_of r"
  "st_name (rc_stored (moved_to dir r)) = st_name (rc_stored r)" "st_kind (rc_stored (moved_to dir r)) = st_kind (rc_stored r)"
  "st_size (rc_stored (moved_to dir r)) = st_size (rc_stored r)"
  by (simp_all add: moved_to_def seq_of_def)

lemma moved_to_self [simp]: "moved_to (st_dir (rc_stored r)) r = r"
  by (simp add: moved_to_def)

lemma settled_at_rest:
  assumes "at_rest R"
  shows "settled R = R"
proof -
  have rest: "place R r = st_dir (rc_stored r)" "st_dir (rc_stored r) \<noteq> ''discarded''" if "r \<in> set R" for r
    using assms that unfolding at_rest_def by blast+
  have "filter (\<lambda>r. place R r \<noteq> ''discarded'') R = R"
    by (rule filter_True) (metis rest)
  moreover have "map (\<lambda>r. moved_to (place R r) r) R = R"
    by (rule map_idI) (metis rest(1) moved_to_self)
  ultimately show ?thesis unfolding settled_def by argo
qed

lemma command_at_iff:
  assumes "ascending R"
  shows "command_at R n = Some c \<longleftrightarrow> c \<in> set R \<and> op_type (rc_opened c) = ''command'' \<and> seq_of c = n"
proof
  assume "command_at R n = Some c"
  then show "c \<in> set R \<and> op_type (rc_opened c) = ''command'' \<and> seq_of c = n"
    unfolding command_at_def by (auto dest: find_Some_set)
next
  assume c: "c \<in> set R \<and> op_type (rc_opened c) = ''command'' \<and> seq_of c = n"
  have "distinct (map seq_of R)" using assms by (simp add: ascending_def strict_sorted_iff)
  then have "\<forall>q \<in> set R. seq_of q = n \<longrightarrow> q = c" using c by (auto simp: distinct_map dest: inj_onD)
  then show "command_at R n = Some c"
    using c unfolding command_at_def
    by (cases "find (\<lambda>r. op_type (rc_opened r) = ''command'' \<and> seq_of r = n) R")
      (auto simp: find_None_iff dest: find_Some_set)
qed

end
