(* ===== verification/SpoolSettle.thy ===== *)
theory SpoolSettle
  imports SpoolLog
begin

text \<open>
  Settling a log: each command moved where its history puts it, the discarded ones removed. The settled
  log validates like the one before, because a removed command is bridged by its tombstone.
\<close>

section \<open>Settling keeps the log\<close>

lemma target_moved [simp]: "target (moved_to dir r) = target r"
  by (simp add: target_def)

lemma tomb_of_moved [simp]: "tomb_of (moved_to dir r) = tomb_of r"
  by (simp add: tomb_of_def)

lemma readable_moved [simp]: "readable (moved_to dir r) = readable r"
  by (simp add: readable_def)

lemma anchor_fits_moved [simp]: "anchor_fits (moved_to dir r) = anchor_fits r"
  by (simp add: anchor_fits_def)

lemma place_command: "place R r = ''discarded'' \<Longrightarrow> valid_location (rc_stored r) \<Longrightarrow> op_type (rc_opened r) = ''command''"
  by (auto simp: place_def valid_location_def split: if_splits)

lemma target_command [simp]: "op_type (rc_opened r) = ''command'' \<Longrightarrow> target r = None"
  by (simp add: target_def)

lemma tomb_of_command [simp]: "op_type (rc_opened r) = ''command'' \<Longrightarrow> tomb_of r = []"
  by (simp add: tomb_of_def)

definition located :: "recovered_record list \<Rightarrow> bool" where
  "located R \<longleftrightarrow> (\<forall>r \<in> set R. valid_location (rc_stored r) \<and> op_type (rc_opened r) = st_kind (rc_stored r))"

definition settle_by :: "(recovered_record \<Rightarrow> string) \<Rightarrow> recovered_record list \<Rightarrow> recovered_record list" where
  "settle_by f R = map (\<lambda>r. moved_to (f r) r) (filter (\<lambda>r. f r \<noteq> ''discarded'') R)"

lemma settle_by_simps [simp]: "settle_by f [] = []"
  "settle_by f (r # R) = (if f r = ''discarded'' then [] else [moved_to (f r) r]) @ settle_by f R"
  by (simp_all add: settle_by_def)

lemma settled_by: "settled R = settle_by (place R) R"
  by (simp add: settled_def settle_by_def)

lemma settle_by_set: "set (settle_by f R) = (\<lambda>r. moved_to (f r) r) ` {r \<in> set R. f r \<noteq> ''discarded''}"
  by (auto simp: settle_by_def)

lemma actions_settle_by:
  "\<forall>r \<in> set R. f r = ''discarded'' \<longrightarrow> op_type (rc_opened r) = ''command'' \<Longrightarrow> actions (settle_by f R) n = actions R n"
  by (induction R) auto

lemma tombs_settle_by:
  "\<forall>r \<in> set R. f r = ''discarded'' \<longrightarrow> op_type (rc_opened r) = ''command'' \<Longrightarrow> tombs (settle_by f R) = tombs R"
  by (induction R) auto

lemma discarded_commands: "located R \<Longrightarrow> \<forall>r \<in> set R. place R r = ''discarded'' \<longrightarrow> op_type (rc_opened r) = ''command''"
  unfolding located_def using place_command by blast

lemma settled_same:
  assumes "located R"
  shows "actions (settled R) n = actions R n" "tombs (settled R) = tombs R" "status (settled R) n = status R n"
  using actions_settle_by [OF discarded_commands [OF assms]] tombs_settle_by [OF discarded_commands [OF assms]]
  by (simp_all add: settled_by status_def)

lemma place_settled: "located R \<Longrightarrow> place (settled R) (moved_to (place R r) r) = place R r"
  by (simp add: place_def settled_same split: option.split)

lemma settled_rest: "located R \<Longrightarrow> at_rest (settled R)"
  unfolding at_rest_def settled_by settle_by_set using place_settled by (auto simp: settled_by)

lemma settled_ascending: "ascending R \<Longrightarrow> ascending (settled R)"
proof -
  assume "ascending R"
  then have "sorted_wrt (<) (map seq_of (filter (\<lambda>r. place R r \<noteq> ''discarded'') R))"
    by (simp add: ascending_def sorted_wrt_map sorted_wrt_filter)
  then show ?thesis by (simp add: ascending_def settled_def comp_def)
qed

lemma command_at_settled:
  assumes "ascending R"
  shows "command_at (settled R) n =
     (case command_at R n of
        None \<Rightarrow> None
      | Some c \<Rightarrow> if place R c = ''discarded'' then None else Some (moved_to (place R c) c))"
proof (cases "command_at R n")
  case None
  then have "\<not> (\<exists>c \<in> set R. op_type (rc_opened c) = ''command'' \<and> seq_of c = n)"
    by (auto simp: command_at_def find_None_iff)
  then have "command_at (settled R) n = None"
    by (auto simp: command_at_def find_None_iff settled_by settle_by_set)
  then show ?thesis using None by simp
next
  case (Some c)
  then have c: "c \<in> set R" "op_type (rc_opened c) = ''command''" "seq_of c = n"
    using command_at_iff [OF assms] by auto
  show ?thesis
  proof (cases "place R c = ''discarded''")
    case True
    have "x = c" if "x \<in> set R" "seq_of x = n" for x
      using that c assms by (auto simp: ascending_def strict_sorted_iff distinct_map dest: inj_onD)
    then have "command_at (settled R) n = None"
      using True by (auto simp: command_at_def find_None_iff settled_by settle_by_set)
    then show ?thesis using Some True by simp
  next
    case False
    then have "command_at (settled R) n = Some (moved_to (place R c) c)"
      using c command_at_iff [OF settled_ascending [OF assms]] by (auto simp: settled_by settle_by_set)
    then show ?thesis using Some False by simp
  qed
qed

text \<open>Accepted and discarded are final.\<close>

lemma run_actions_final: "s = ''accepted'' \<or> s = ''discarded'' \<Longrightarrow> run_actions s as = Some t \<Longrightarrow> as = [] \<and> t = s"
  by (cases as) (auto simp: next_state_def)

lemma run_actions_accepted: "''accepted'' \<in> set as \<Longrightarrow> run_actions s as = Some t \<Longrightarrow> t = ''accepted''"
proof (induction as arbitrary: s)
  case (Cons a as)
  then obtain s' where s': "next_state s a = Inr s'" "run_actions s' as = Some t" by (auto split: sum.splits)
  show ?case
  proof (cases "a = ''accepted''")
    case True
    then have "s' = ''accepted''" using s'(1) by (auto simp: next_state_def split: if_splits)
    then show ?thesis using s'(2) run_actions_final by blast
  next
    case False
    then show ?thesis using Cons s' by auto
  qed
qed simp

lemma run_actions_discard: "''discard'' \<in> set as \<Longrightarrow> run_actions s as = Some t \<Longrightarrow> t = ''discarded''"
proof (induction as arbitrary: s)
  case (Cons a as)
  then obtain s' where s': "next_state s a = Inr s'" "run_actions s' as = Some t" by (auto split: sum.splits)
  show ?case
  proof (cases "a = ''discard''")
    case True
    then have "s' = ''discarded''" using s'(1) by (auto simp: next_state_def split: if_splits)
    then show ?thesis using s'(2) run_actions_final by blast
  next
    case False
    then show ?thesis using Cons s' by auto
  qed
qed simp

lemma run_actions_discarded: "run_actions s as = Some ''discarded'' \<Longrightarrow> s \<noteq> ''discarded'' \<Longrightarrow> ''discard'' \<in> set as"
proof (induction as arbitrary: s)
  case (Cons a as)
  then obtain s' where s': "next_state s a = Inr s'" "run_actions s' as = Some ''discarded''" by (auto split: sum.splits)
  then show ?case using Cons by (auto simp: next_state_def split: if_splits)
qed simp

lemma run_actions_range:
  "run_actions s as = Some t \<Longrightarrow> s \<in> {''pending'', ''accepted'', ''quarantine'', ''discarded''} \<Longrightarrow>
   t \<in> {''pending'', ''accepted'', ''quarantine'', ''discarded''}"
proof (induction as arbitrary: s)
  case (Cons a as)
  then obtain s' where s': "next_state s a = Inr s'" "run_actions s' as = Some t" by (auto split: sum.splits)
  from s'(1) have "s' \<in> {''pending'', ''accepted'', ''quarantine'', ''discarded''}"
    by (auto simp: next_state_def split: if_splits)
  then show ?case using Cons.IH s'(2) by blast
qed simp

lemma actions_set: "a \<in> set (actions R n) \<longleftrightarrow> (\<exists>r \<in> set R. target r = Some (n, a))"
  by (induction R) (auto split: option.splits if_splits)

text \<open>
  A command that was retried and is then discarded leaves a retry disposition that names no command:
  the fold refuses it from then on. Everything below is for histories without that.
\<close>

definition unretried :: "recovered_record list \<Rightarrow> bool" where
  "unretried R \<longleftrightarrow> (\<forall>n. status R n = Some ''discarded'' \<longrightarrow> ''retry'' \<notin> set (actions R n))"

lemma tomb_exists:
  assumes "log_ok R" and "log_fits R" and "command_at R n = Some c" and "status R n = Some ''discarded''"
  shows "\<exists>d. map_of (tombs R) n = Some d \<and> dp_hash d = op_hash (rc_opened c) \<and> dp_pred d = Some (op_pred (rc_opened c))"
proof -
  have "''discard'' \<in> set (actions R n)"
    using assms(4) run_actions_discarded unfolding status_def by fastforce
  then obtain r where r: "r \<in> set R" "target r = Some (n, ''discard'')" by (auto simp: actions_set)
  then obtain d where d: "op_type (rc_opened r) = ''disposition''" "disposition_read (op_payload (rc_opened r)) = Some d"
    "dp_seq d = n" "dp_action d = ''discard''"
    by (auto simp: target_def Let_def split: if_splits)
  have "tomb_of r = [(n, d)]" using d by (simp add: tomb_of_def)
  then have "(n, d) \<in> set (tombs R)" using r(1) by (force simp: tombs_def)
  then have "map_of (tombs R) n = Some d" using assms(1) by (auto simp: log_ok_def)
  moreover have "receipt_ok R r" using assms(2) r(1) by (simp add: log_fits_def)
  ultimately show ?thesis using d assms(3) by (auto simp: receipt_ok_def)
qed

lemma place_discarded:
  assumes "log_fits R" and "located R" and "ascending R" and "r \<in> set R"
  shows "place R r = ''discarded'' \<longleftrightarrow> op_type (rc_opened r) = ''command'' \<and> status R (seq_of r) = Some ''discarded''"
proof -
  have "op_type (rc_opened r) = ''command'' \<Longrightarrow> command_at R (seq_of r) = Some r"
    using command_at_iff [OF assms(3)] assms(4) by blast
  then have "op_type (rc_opened r) = ''command'' \<Longrightarrow> status R (seq_of r) \<noteq> None" using assms(1) by (force simp: log_fits_def)
  moreover have "st_dir (rc_stored r) \<noteq> ''discarded''"
    using assms(2,4) by (auto simp: located_def valid_location_def)
  ultimately show ?thesis by (auto simp: place_def)
qed

lemma receipt_ok_settled:
  assumes ok: "log_ok R" and fits: "log_fits R" and loc: "located R" and un: "unretried R" and r: "r \<in> set R"
  shows "receipt_ok (settled R) (moved_to dir r)"
proof -
  have asc: "ascending R" using ok by (simp add: log_ok_def)
  have at: "command_at (settled R) n = (case command_at R n of None \<Rightarrow> None
      | Some c \<Rightarrow> if status R n = Some ''discarded'' then None else Some (moved_to (place R c) c))" for n
  proof (cases "command_at R n")
    case (Some c)
    then have "c \<in> set R" "op_type (rc_opened c) = ''command''" "seq_of c = n" using command_at_iff [OF asc] by auto
    then show ?thesis using command_at_settled [OF asc, of n] place_discarded [OF fits loc asc, of c] Some by simp
  qed (simp add: command_at_settled [OF asc])
  have rok: "receipt_ok R r" using fits r by (simp add: log_fits_def)
  have acc: "status R n = Some ''accepted''" if "target r = Some (n, ''accepted'')" "command_at R n \<noteq> None" for n
  proof -
    have "status R n \<noteq> None" using that fits by (simp add: log_fits_def)
    moreover have "''accepted'' \<in> set (actions R n)" using that r by (auto simp: actions_set)
    ultimately show ?thesis using run_actions_accepted unfolding status_def by blast
  qed
  have tomb: "\<exists>d. map_of (tombs R) n = Some d \<and> dp_hash d = op_hash (rc_opened c)"
    if "command_at R n = Some c" "status R n = Some ''discarded''" for n c
    using tomb_exists [OF ok fits that] by blast
  have retry: "a \<noteq> ''retry''" if "target r = Some (n, a)" "status R n = Some ''discarded''" for n a
    using un that r actions_set [of a R n] unfolding unretried_def by blast
  consider "op_type (rc_opened r) = ''accepted_receipt''" | "op_type (rc_opened r) = ''quarantine_receipt''"
    | "op_type (rc_opened r) = ''disposition''"
    | "op_type (rc_opened r) \<notin> {''accepted_receipt'', ''quarantine_receipt'', ''disposition''}" by auto
  then show ?thesis
  proof cases
    case 1
    then obtain a c e where a: "accepted_read (op_payload (rc_opened r)) = Some a" "command_at R (ar_seq a) = Some c"
      "op_hash (rc_opened c) = ar_hash a" "command_payload (rc_opened c) = Inr e" "ar_command a = ce_command e"
      "ar_digest a = digest_json [(''response'', opt_obj (ar_response a))]"
      using rok by (auto simp: receipt_ok_def)
    then have "status R (ar_seq a) = Some ''accepted''" using 1 acc by (simp add: target_def)
    then show ?thesis using 1 a at [of "ar_seq a"] by (simp add: receipt_ok_def)
  next
    case 2
    then obtain q where q: "quarantine_read (op_payload (rc_opened r)) = Some q"
      "case command_at R (qr_seq q) of Some c \<Rightarrow> op_hash (rc_opened c) = qr_hash q
        | None \<Rightarrow> map_option dp_hash (map_of (tombs R) (qr_seq q)) = Some (qr_hash q)"
      using rok by (auto simp: receipt_ok_def)
    show ?thesis
    proof (cases "command_at R (qr_seq q)")
      case None
      then show ?thesis using 2 q at [of "qr_seq q"] by (simp add: receipt_ok_def settled_same [OF loc])
    next
      case (Some c)
      then show ?thesis
        using 2 q at [of "qr_seq q"] tomb [OF Some]
        by (cases "status R (qr_seq q) = Some ''discarded''") (auto simp: receipt_ok_def settled_same [OF loc])
    qed
  next
    case 3
    then obtain d where d: "disposition_read (op_payload (rc_opened r)) = Some d"
      "case command_at R (dp_seq d) of Some c \<Rightarrow> op_hash (rc_opened c) = dp_hash d \<and>
          (dp_action d = ''discard'' \<longrightarrow> dp_pred d = Some (op_pred (rc_opened c)))
        | None \<Rightarrow> dp_action d = ''discard''"
      using rok by (auto simp: receipt_ok_def)
    have "target r = Some (dp_seq d, dp_action d)" using 3 d(1) by (simp add: target_def)
    then have "status R (dp_seq d) = Some ''discarded'' \<Longrightarrow> dp_action d = ''discard''"
      using retry disposition_action [OF d(1)] by blast
    then show ?thesis
      using 3 d at [of "dp_seq d"] by (auto simp: receipt_ok_def split: option.splits if_splits)
  next
    case 4
    then show ?thesis by (simp add: receipt_ok_def)
  qed
qed

lemma log_fits_settled:
  assumes "log_ok R" and "log_fits R" and "located R" and "unretried R"
  shows "log_fits (settled R)"
proof -
  have asc: "ascending R" using assms(1) by (simp add: log_ok_def)
  have "receipt_ok (settled R) r" if "r \<in> set (settled R)" for r
    using that receipt_ok_settled [OF assms] by (auto simp: settled_by settle_by_set)
  moreover have "n < seq_of r" if "r \<in> set (settled R)" "target r = Some (n, a)" for r n a
    using that assms(2) by (auto simp: settled_by settle_by_set log_fits_def)
  moreover have "status (settled R) n \<noteq> None" if "command_at (settled R) n \<noteq> None" for n
    using that assms(2) command_at_settled [OF asc, of n]
    by (auto simp: settled_same [OF assms(3)] log_fits_def split: option.splits)
  ultimately show ?thesis unfolding log_fits_def by blast
qed

lemma unretried_settled: "located R \<Longrightarrow> unretried R \<Longrightarrow> unretried (settled R)"
  by (simp add: unretried_def settled_same)

lemma last_kept:
  assumes "log_ok R" and "log_fits R" and "located R" and "R \<noteq> []"
  shows "place R (last R) \<noteq> ''discarded''"
proof
  assume dis: "place R (last R) = ''discarded''"
  have asc: "ascending R" using assms(1) by (simp add: log_ok_def)
  have "status R (seq_of (last R)) = Some ''discarded''"
    using dis place_discarded [OF assms(2,3) asc] assms(4) by simp
  then have "''discard'' \<in> set (actions R (seq_of (last R)))"
    using run_actions_discarded unfolding status_def by fastforce
  then obtain r where r: "r \<in> set R" "target r = Some (seq_of (last R), ''discard'')" by (auto simp: actions_set)
  then have "seq_of (last R) < seq_of r" using assms(2) by (auto simp: log_fits_def)
  moreover have "seq_of r \<le> seq_of (last R)"
  proof -
    obtain xs x where R: "R = xs @ [x]" using assms(4) by (cases R rule: rev_cases) auto
    then show ?thesis using asc r(1) by (auto simp: ascending_def sorted_wrt_append)
  qed
  ultimately show False by simp
qed

lemma settle_by_append: "settle_by f (xs @ ys) = settle_by f xs @ settle_by f ys"
  by (simp add: settle_by_def)

lemma settled_last:
  assumes "log_ok R" and "log_fits R" and "located R"
  shows "last_seq n (settled R) = last_seq n R"
proof (cases R rule: rev_cases)
  case Nil
  then show ?thesis by (simp add: settled_by)
next
  case (snoc xs x)
  have kept: "place R x \<noteq> ''discarded''" using last_kept [OF assms] snoc by simp
  have "settled R = settle_by (place R) xs @ settle_by (place R) [x]"
    unfolding settled_by settle_by_append [symmetric] using snoc by simp
  then have "settled R = settle_by (place R) xs @ [moved_to (place R x) x]" using kept by simp
  then show ?thesis by (simp add: last_seq_def) (simp add: snoc)
qed

lemma find_settle_by:
  "ascending R \<Longrightarrow> find (\<lambda>r. seq_of r = m) (settle_by f R) =
     (case find (\<lambda>r. seq_of r = m) R of
        None \<Rightarrow> None
      | Some r \<Rightarrow> if f r = ''discarded'' then None else Some (moved_to (f r) r))"
proof (induction R)
  case (Cons r R)
  then have asc: "ascending R" "\<forall>q \<in> set R. seq_of r < seq_of q" by (auto simp: ascending_Cons)
  then have "find (\<lambda>q. seq_of q = seq_of r) R = None" by (auto simp: find_None_iff)
  then show ?case using Cons.IH [OF asc(1)] by (auto split: option.splits)
qed simp

lemma chain_entry_settled:
  assumes ok: "log_ok R" and fits: "log_fits R" and loc: "located R"
    and "chain_entry R (tombs R) m = Some e"
  shows "chain_entry (settled R) (tombs (settled R)) m = Some e"
proof -
  have asc: "ascending R" using ok by (simp add: log_ok_def)
  have find: "find (\<lambda>r. seq_of r = m) (settled R) = (case find (\<lambda>r. seq_of r = m) R of None \<Rightarrow> None
     | Some r \<Rightarrow> if place R r = ''discarded'' then None else Some (moved_to (place R r) r))"
    unfolding settled_by by (rule find_settle_by [OF asc])
  show ?thesis
  proof (cases "find (\<lambda>r. seq_of r = m) R")
    case None
    then show ?thesis using assms(4) find by (simp add: chain_entry_def settled_same [OF loc])
  next
    case (Some r)
    then have r: "r \<in> set R" "seq_of r = m" by (auto dest: find_Some_set)
    show ?thesis
    proof (cases "place R r = ''discarded''")
      case True
      then have dis: "op_type (rc_opened r) = ''command''" "status R m = Some ''discarded''"
        using place_discarded [OF fits loc asc r(1)] r(2) by auto
      then have "command_at R m = Some r" using command_at_iff [OF asc] r by blast
      then obtain d where "map_of (tombs R) m = Some d" "dp_hash d = op_hash (rc_opened r)"
        "dp_pred d = Some (op_pred (rc_opened r))"
        using tomb_exists [OF ok fits _ dis(2)] by blast
      then show ?thesis using assms(4) Some find True by (simp add: chain_entry_def settled_same [OF loc])
    next
      case False
      then show ?thesis using assms(4) Some find by (simp add: chain_entry_def)
    qed
  qed
qed

lemma anchor_kept: "located R \<Longrightarrow> r \<in> set R \<Longrightarrow> op_type (rc_opened r) = ''anchor'' \<Longrightarrow> place R r \<noteq> ''discarded''"
  using discarded_commands by fastforce

lemma hd_settled: "R \<noteq> [] \<Longrightarrow> place R (hd R) \<noteq> ''discarded'' \<Longrightarrow> hd (settled R) = moved_to (place R (hd R)) (hd R)"
  unfolding settled_by by (cases R) simp_all

lemma log_ok_settled:
  assumes ok: "log_ok R" and loc: "located R"
  shows "log_ok (settled R)"
proof -
  have anchors: "r = hd R \<and> anchor_fits r" if "r \<in> set R" "op_type (rc_opened r) = ''anchor''" for r
    using ok that unfolding log_ok_def by blast
  have "r = hd (settled R) \<and> anchor_fits r" if r: "r \<in> set (settled R)" "op_type (rc_opened r) = ''anchor''" for r
  proof -
    obtain q where q: "q \<in> set R" "r = moved_to (place R q) q" using r(1) by (auto simp: settled_by settle_by_set)
    then have "op_type (rc_opened q) = ''anchor''" using r(2) by simp
    then have "q = hd R" "anchor_fits q" "place R q \<noteq> ''discarded''" using anchors anchor_kept [OF loc] q(1) by blast+
    then show ?thesis using hd_settled [of R] q by (metis anchor_fits_moved list.set_cases list.distinct(1))
  qed
  moreover have "1 \<le> seq_of r \<and> readable r" if "r \<in> set (settled R)" for r
    using that ok by (auto simp: settled_by settle_by_set log_ok_def)
  moreover have "ascending (settled R)" using ok settled_ascending by (simp add: log_ok_def)
  moreover have "distinct (map fst (tombs (settled R)))" using ok by (simp add: log_ok_def settled_same [OF loc])
  ultimately show ?thesis unfolding log_ok_def by blast
qed

lemma start_of_anchor: "start_of R = (if R \<noteq> [] \<and> op_type (rc_opened (hd R)) = ''anchor''
    then (seq_of (hd R), op_pred (rc_opened (hd R))) else (1, genesis_hash))"
  by (cases R) (auto simp: start_of_def)

lemma settled_start:
  assumes ok: "log_ok R" and fits: "log_fits R" and loc: "located R"
  shows "start_of (settled R) = start_of R"
proof (cases "R = []")
  case True
  then show ?thesis by (simp add: settled_by)
next
  case False
  show ?thesis
  proof (cases "op_type (rc_opened (hd R)) = ''anchor''")
    case True
    then have "place R (hd R) \<noteq> ''discarded''" using anchor_kept [OF loc] False by simp
    then have "hd (settled R) = moved_to (place R (hd R)) (hd R)" "settled R \<noteq> []"
      using hd_settled False unfolding settled_by by (auto simp: settle_by_def filter_empty_conv)
    then show ?thesis using True False by (simp add: start_of_anchor)
  next
    case no: False
    have "op_type (rc_opened r) \<noteq> ''anchor''" if kept: "r \<in> set (settled R)" for r
    proof
      assume "op_type (rc_opened r) = ''anchor''"
      then obtain q where "q \<in> set R" "op_type (rc_opened q) = ''anchor''"
        using kept by (auto simp: settled_by settle_by_set)
      then show False using ok no unfolding log_ok_def by blast
    qed
    then have "\<not> (settled R \<noteq> [] \<and> op_type (rc_opened (hd (settled R))) = ''anchor'')" using hd_in_set by blast
    then show ?thesis using no by (auto simp: start_of_anchor)
  qed
qed

lemma linked_settled:
  assumes "log_ok R" and "log_fits R" and "located R" and "linked R H"
  shows "linked (settled R) H"
  using assms(4) chain_entry_settled [OF assms(1-3)]
  unfolding linked_def settled_start [OF assms(1-3)] settled_last [OF assms(1-3)] by blast

end
