(* ===== verification/SpoolDisk.thy ===== *)
theory SpoolDisk
  imports SpoolSettle "HOL-Library.Multiset"
begin

text \<open>
  The abstraction from the disk to the log: \<open>holds env C R d\<close> says that the record files of disk \<open>d\<close> are
  exactly the records \<open>R\<close>, record \<open>n\<close> with the bytes \<open>C n\<close>. Each system call that changes record files keeps
  it for the changed records, and on such a disk the scan and the opening of records return \<open>R\<close>.
\<close>

section \<open>The abstraction\<close>

definition entry_ok :: "'b spool_env \<Rightarrow> 'b \<Rightarrow> recovered_record \<Rightarrow> bool" where
  "entry_ok env data r \<longleftrightarrow>
     st_kind (rc_stored r) \<in> set record_types \<and> valid_number (seq_of r) \<and>
     st_name (rc_stored r) = record_name (seq_of r) (st_kind (rc_stored r)) \<and>
     st_size (rc_stored r) = se_size env data \<and> se_size env data \<le> se_maximum env \<and>
     se_open env data = Inr (rc_opened r) \<and> op_seq (rc_opened r) = seq_of r \<and>
     op_type (rc_opened r) = st_kind (rc_stored r) \<and> rc_digest r = se_digest env data \<and> valid_location (rc_stored r)"

definition files_of :: "(int \<Rightarrow> 'b) \<Rightarrow> recovered_record list \<Rightarrow> string \<Rightarrow> (string \<times> 'b) list" where
  "files_of C R dir = map (\<lambda>r. (st_name (rc_stored r), C (seq_of r))) (filter (\<lambda>r. st_dir (rc_stored r) = dir) R)"

definition holds :: "'b spool_env \<Rightarrow> (int \<Rightarrow> 'b) \<Rightarrow> recovered_record list \<Rightarrow> 'b disk \<Rightarrow> bool" where
  "holds env C R d \<longleftrightarrow>
     ascending R \<and> (\<forall>r \<in> set R. entry_ok env (C (seq_of r)) r) \<and>
     (\<forall>dir. mset (dk_files d dir) = mset (files_of C R dir))"

lemma holds_number: "holds env C R d \<Longrightarrow> last_seq 1 R = 0 \<or> valid_number (last_seq 1 R)"
  by (cases "R = []") (auto simp: last_seq_def holds_def entry_ok_def)

lemma entry_name: "entry_ok env data r \<Longrightarrow> parse_record_name (st_name (rc_stored r)) = Some (seq_of r, st_kind (rc_stored r))"
  by (simp add: entry_ok_def parse_record_name)

lemma entry_names_inj:
  "entry_ok env x r \<Longrightarrow> entry_ok env y q \<Longrightarrow> st_name (rc_stored r) = st_name (rc_stored q) \<Longrightarrow> seq_of r = seq_of q"
  by (metis entry_name option.inject prod.inject)

lemma ascending_inj: "ascending R \<Longrightarrow> r \<in> set R \<Longrightarrow> q \<in> set R \<Longrightarrow> seq_of r = seq_of q \<Longrightarrow> r = q"
proof -
  assume "ascending R" "r \<in> set R" "q \<in> set R" "seq_of r = seq_of q"
  moreover from this(1) have "inj_on seq_of (set R)" by (simp add: ascending_def strict_sorted_iff distinct_map)
  ultimately show ?thesis by (simp add: inj_on_eq_iff)
qed

lemma ascending_distinct: "ascending R \<Longrightarrow> distinct R"
  by (simp add: ascending_def strict_sorted_iff distinct_map)

lemma ascending_filter: "ascending R \<Longrightarrow> ascending (filter P R)"
  by (simp add: ascending_def sorted_wrt_map sorted_wrt_filter)

lemma holds_entry: "holds env C R d \<Longrightarrow> r \<in> set R \<Longrightarrow> entry_ok env (C (seq_of r)) r"
  by (simp add: holds_def)

lemma holds_same_name:
  "holds env C R d \<Longrightarrow> r \<in> set R \<Longrightarrow> q \<in> set R \<Longrightarrow> st_name (rc_stored r) = st_name (rc_stored q) \<Longrightarrow> r = q"
  using ascending_inj entry_names_inj holds_entry unfolding holds_def by metis

lemma holds_files: "holds env C R d \<Longrightarrow> set (dk_files d dir) = set (files_of C R dir)"
  by (metis holds_def set_mset_mset)

lemma holds_distinct:
  assumes "holds env C R d"
  shows "distinct (map fst (dk_files d dir))"
proof -
  have "distinct (map (\<lambda>r. st_name (rc_stored r)) (filter (\<lambda>r. st_dir (rc_stored r) = dir) R))"
    unfolding distinct_map using assms ascending_distinct
    by (auto simp: holds_def intro!: inj_onI intro: holds_same_name [OF assms])
  then have "distinct (map fst (files_of C R dir))" by (simp add: files_of_def comp_def)
  moreover have "mset (map fst (dk_files d dir)) = mset (map fst (files_of C R dir))"
    using assms by (simp add: holds_def)
  ultimately show ?thesis by (metis mset_eq_imp_distinct_iff)
qed

lemma holds_file:
  assumes "holds env C R d" and "r \<in> set R"
  shows "map_of (dk_files d (st_dir (rc_stored r))) (st_name (rc_stored r)) = Some (C (seq_of r))"
  using assms by (intro map_of_is_SomeI holds_distinct [OF assms(1)]) (auto simp: holds_files files_of_def)

text \<open>Two disks with the same record files hold the same records.\<close>

lemma holds_cong: "dk_files d' = dk_files d \<Longrightarrow> holds env C R d' = holds env C R d"
  by (simp add: holds_def)

section \<open>The calls that change record files\<close>

lemma without_file_absent: "name \<notin> fst ` set fs \<Longrightarrow> without_file name fs = fs"
  by (auto simp: without_file_def intro!: filter_True)

lemma holds_absent:
  assumes "holds env C R d" and "entry_ok env data r" and "\<forall>q \<in> set R. st_dir (rc_stored q) = dir \<longrightarrow> seq_of q \<noteq> seq_of r"
  shows "st_name (rc_stored r) \<notin> fst ` set (dk_files d dir)"
proof
  assume "st_name (rc_stored r) \<in> fst ` set (dk_files d dir)"
  then obtain q where "q \<in> set R" "st_dir (rc_stored q) = dir" "st_name (rc_stored q) = st_name (rc_stored r)"
    using holds_files [OF assms(1)] by (auto simp: files_of_def)
  then show False using assms entry_names_inj holds_entry by metis
qed

lemma holds_install:
  assumes "holds env C R d" and "entry_ok env data r" and "\<forall>q \<in> set R. seq_of q < seq_of r"
  shows "holds env (C(seq_of r := data)) (R @ [r])
     (apply_step (InstallRecord t (st_dir (rc_stored r)) (st_name (rc_stored r)) data) d)"
proof -
  let ?C = "C(seq_of r := data)"
  have same: "files_of ?C R dir = files_of C R dir" for dir
    using assms(3) by (auto simp: files_of_def)
  have "without_file (st_name (rc_stored r)) (dk_files d (st_dir (rc_stored r))) = dk_files d (st_dir (rc_stored r))"
    using holds_absent [OF assms(1,2)] assms(3) by (intro without_file_absent) fastforce
  moreover have "files_of ?C (R @ [r]) dir = files_of C R dir @
      (if dir = st_dir (rc_stored r) then [(st_name (rc_stored r), data)] else [])" for dir
    unfolding same [symmetric] by (simp add: files_of_def)
  moreover have "ascending (R @ [r])"
    using assms by (auto simp: holds_def ascending_def sorted_wrt_append)
  ultimately show ?thesis
    using assms unfolding holds_def by (auto simp del: mset_map mset_filter)
qed

lemma remove1_filter: "distinct xs \<Longrightarrow> remove1 x xs = filter (\<lambda>y. y \<noteq> x) xs"
  by (induction xs) (auto simp: filter_id_conv intro!: filter_True [symmetric])

lemma holds_unlink:
  assumes "holds env C R d" and "r \<in> set R"
  shows "holds env C (remove1 r R) (apply_step (Unlink (st_dir (rc_stored r)) (st_name (rc_stored r))) d)"
proof -
  have dist: "distinct R" and asc: "ascending R" using assms by (auto simp: holds_def ascending_distinct)
  have rem: "remove1 r R = filter (\<lambda>x. x \<noteq> r) R"
    using dist by (rule remove1_filter)
  have other: "files_of C (remove1 r R) dir = files_of C R dir" if "dir \<noteq> st_dir (rc_stored r)" for dir
    using that by (auto simp: files_of_def rem intro!: arg_cong [where f = "map _"] filter_cong)
  have "filter (\<lambda>f. fst f \<noteq> st_name (rc_stored r)) (files_of C R (st_dir (rc_stored r))) =
      files_of C (remove1 r R) (st_dir (rc_stored r))"
    using holds_same_name [OF assms(1) _ assms(2)]
    by (auto simp: files_of_def rem filter_map comp_def intro!: arg_cong [where f = "map _"] filter_cong)
  moreover have "mset (without_file (st_name (rc_stored r)) (dk_files d (st_dir (rc_stored r)))) =
      mset (filter (\<lambda>f. fst f \<noteq> st_name (rc_stored r)) (files_of C R (st_dir (rc_stored r))))"
    using assms(1) by (simp add: without_file_def holds_def)
  ultimately show ?thesis
    using assms other asc ascending_filter [OF asc] by (auto simp: holds_def rem)
qed

lemma replace_first_map: "distinct xs \<Longrightarrow> replace_first x y xs = map (\<lambda>z. if z = x then y else z) xs"
  by (induction xs) (auto intro!: map_idI [symmetric])

lemma mset_replace_first: "x \<in> set xs \<Longrightarrow> mset (replace_first x y xs) = add_mset y (mset (remove1 x xs))"
  by (induction xs) auto

lemma ascending_map:
  "ascending R \<Longrightarrow> (\<And>x. x \<in> set R \<Longrightarrow> seq_of (f x) = seq_of x) \<Longrightarrow> ascending (map f R)"
proof -
  assume "ascending R" "\<And>x. x \<in> set R \<Longrightarrow> seq_of (f x) = seq_of x"
  moreover from this(2) have "map seq_of (map f R) = map seq_of R" by simp
  ultimately show ?thesis unfolding ascending_def by (simp only:)
qed

lemma files_of_mset: "mset (files_of C R dir) = image_mset (\<lambda>r. (st_name (rc_stored r), C (seq_of r)))
    (filter_mset (\<lambda>r. st_dir (rc_stored r) = dir) (mset R))"
  by (simp add: files_of_def)

lemma holds_relocate:
  assumes held: "holds env C R d" and r: "r \<in> set R" and dir: "dir \<noteq> st_dir (rc_stored r)"
    and loc: "valid_location (rc_stored (moved_to dir r))"
  shows "holds env C (replace_first r (moved_to dir r) R)
     (apply_step (Relocate (st_name (rc_stored r)) (st_dir (rc_stored r)) dir) d)"
proof -
  let ?q = "moved_to dir r" and ?src = "st_dir (rc_stored r)" and ?name = "st_name (rc_stored r)"
  have asc: "ascending R" using held by (simp add: holds_def)
  have map: "replace_first r ?q R = map (\<lambda>z. if z = r then ?q else z) R"
    using ascending_distinct [OF asc] by (rule replace_first_map)
  have files: "mset (files_of C (replace_first r ?q R) e) =
      mset (files_of C (remove1 r R) e) + (if e = dir then {#(?name, C (seq_of r))#} else {#})" for e
    unfolding files_of_mset mset_replace_first [OF r] by simp
  have fresh: "?name \<notin> fst ` set (dk_files d dir)"
    using held holds_entry [OF held r] dir ascending_inj [OF asc _ r] by (intro holds_absent) auto
  have "dk_files (apply_step (Relocate ?name ?src dir) d) e =
      dk_files (apply_step (Unlink ?src ?name) d) e @ (if e = dir then [(?name, C (seq_of r))] else [])" for e
    using holds_file [OF held r] dir fresh by (simp add: Let_def without_file_absent)
  moreover have "holds env C (remove1 r R) (apply_step (Unlink ?src ?name) d)" by (rule holds_unlink [OF held r])
  ultimately have "mset (dk_files (apply_step (Relocate ?name ?src dir) d) e) = mset (files_of C (replace_first r ?q R) e)" for e
    unfolding files by (simp add: holds_def del: apply_step.simps)
  moreover have "ascending (replace_first r ?q R)" unfolding map by (rule ascending_map [OF asc]) simp
  moreover have "entry_ok env (C (seq_of x)) x" if "x \<in> set (replace_first r ?q R)" for x
  proof -
    have "entry_ok env (C (seq_of ?q)) ?q" using holds_entry [OF held r] loc by (simp add: entry_ok_def)
    then show ?thesis using that holds_entry [OF held] by (auto simp: map)
  qed
  ultimately show ?thesis unfolding holds_def by blast
qed

section \<open>What the scan and the opening return\<close>

definition room :: "'b spool_env \<Rightarrow> recovered_record list \<Rightarrow> 'b disk \<Rightarrow> bool" where
  "room env R d \<longleftrightarrow> length R + length (dk_temps d) + dk_evidence d \<le> se_scan env"

definition stored_of :: "'b spool_env \<Rightarrow> string \<Rightarrow> string \<times> 'b \<Rightarrow> stored_file" where
  "stored_of env dir f =
     (case parse_record_name (fst f) of
        None \<Rightarrow> undefined
      | Some (n, kind) \<Rightarrow> \<lparr>st_dir = dir, st_name = fst f, st_seq = n, st_kind = kind, st_size = se_size env (snd f)\<rparr>)"

lemma scan_directory_ok:
  "\<forall>f \<in> set fs. parse_record_name (fst f) \<noteq> None \<Longrightarrow>
   distinct (map st_seq acc @ map (\<lambda>f. st_seq (stored_of env dir f)) fs) \<Longrightarrow> length acc + length fs \<le> se_scan env \<Longrightarrow>
   scan_directory env dir fs acc = Inr (acc @ map (stored_of env dir) fs)"
proof (induction fs arbitrary: acc)
  case (Cons f fs)
  obtain name data where f: "f = (name, data)" by (cases f)
  obtain n kind where n: "parse_record_name name = Some (n, kind)" using Cons.prems(1) f by auto
  let ?st = "stored_of env dir f"
  have st: "?st = \<lparr>st_dir = dir, st_name = name, st_seq = n, st_kind = kind, st_size = se_size env data\<rparr>"
    by (simp add: stored_of_def f n)
  have "scan_directory env dir fs (acc @ [?st]) = Inr ((acc @ [?st]) @ map (stored_of env dir) fs)"
    using Cons.prems by (intro Cons.IH) auto
  moreover have "n \<notin> st_seq ` set acc" using Cons.prems(2) by (auto simp: st)
  ultimately show ?case using Cons.prems(3) by (simp add: f n st [unfolded f, symmetric] Let_def)
qed simp


definition scanned :: "'b spool_env \<Rightarrow> 'b disk \<Rightarrow> string list \<Rightarrow> stored_file list" where
  "scanned env d dirs = concat (map (\<lambda>dir. map (stored_of env dir) (dk_files d dir)) dirs)"

lemma scan_directories_ok:
  "\<forall>dir \<in> set dirs. dir \<noteq> ''tmp'' \<and> length (dk_files d dir) + dk_evidence d \<le> se_scan env \<and>
     (\<forall>f \<in> set (dk_files d dir). parse_record_name (fst f) \<noteq> None) \<Longrightarrow>
   distinct (map st_seq (acc @ scanned env d dirs)) \<Longrightarrow> length acc + length (scanned env d dirs) \<le> se_scan env \<Longrightarrow>
   scan_directories env d dirs acc = Inr (acc @ scanned env d dirs)"
proof (induction dirs arbitrary: acc)
  case Nil
  then show ?case by (simp add: scanned_def)
next
  case (Cons dir dirs)
  let ?here = "map (stored_of env dir) (dk_files d dir)"
  have scanned: "scanned env d (dir # dirs) = ?here @ scanned env d dirs" by (simp add: scanned_def)
  have "scan_directories env d dirs (acc @ ?here) = Inr ((acc @ ?here) @ scanned env d dirs)"
    by (rule Cons.IH) (use Cons.prems in \<open>auto simp: scanned\<close>)
  moreover have "scan_directory env dir (dk_files d dir) acc = Inr (acc @ ?here)"
    by (rule scan_directory_ok) (use Cons.prems in \<open>auto simp: scanned comp_def\<close>)
  moreover have "scan_names env dir d = Inr (map fst (dk_files d dir))"
    using Cons.prems(1) by (auto simp: scan_names_def)
  ultimately show ?case by (simp add: scanned)
qed

lemma stored_of_entry:
  "entry_ok env (C (seq_of r)) r \<Longrightarrow> stored_of env (st_dir (rc_stored r)) (st_name (rc_stored r), C (seq_of r)) = rc_stored r"
  using entry_name [of env "C (seq_of r)" r] by (simp add: stored_of_def entry_ok_def seq_of_def)

lemma location_directory: "valid_location st \<Longrightarrow> st_dir st \<in> set spool_directories"
  by (auto simp: valid_location_def spool_directories_def)

lemma filter_directories:
  "\<forall>x \<in># M. f x \<in> {''pending'', ''accepted'', ''quarantine'', ''anchors''} \<Longrightarrow>
   filter_mset (\<lambda>x. f x = ''pending'') M + filter_mset (\<lambda>x. f x = ''accepted'') M +
   filter_mset (\<lambda>x. f x = ''quarantine'') M + filter_mset (\<lambda>x. f x = ''anchors'') M = M"
  by (induction M) auto

lemma scanned_mset:
  assumes held: "holds env C R d"
  shows "mset (scanned env d spool_directories) = mset (map rc_stored R)"
proof -
  have here: "mset (map (stored_of env dir) (dk_files d dir)) =
      image_mset rc_stored (filter_mset (\<lambda>r. st_dir (rc_stored r) = dir) (mset R))" for dir
  proof -
    have "mset (map (stored_of env dir) (dk_files d dir)) = mset (map (stored_of env dir) (files_of C R dir))"
      using held by (simp add: holds_def)
    also have "map (stored_of env dir) (files_of C R dir) = map rc_stored (filter (\<lambda>r. st_dir (rc_stored r) = dir) R)"
      using stored_of_entry holds_entry [OF held] by (fastforce simp: files_of_def)
    finally show ?thesis by simp
  qed
  have dirs: "\<forall>r \<in># mset R. st_dir (rc_stored r) \<in> {''pending'', ''accepted'', ''quarantine'', ''anchors''}"
    using holds_entry [OF held] location_directory unfolding entry_ok_def spool_directories_def by fastforce
  have "mset (scanned env d spool_directories) =
     image_mset rc_stored (filter_mset (\<lambda>r. st_dir (rc_stored r) = ''pending'') (mset R) +
       filter_mset (\<lambda>r. st_dir (rc_stored r) = ''accepted'') (mset R) +
       filter_mset (\<lambda>r. st_dir (rc_stored r) = ''quarantine'') (mset R) +
       filter_mset (\<lambda>r. st_dir (rc_stored r) = ''anchors'') (mset R))"
    unfolding scanned_def spool_directories_def using here by (simp del: mset_map add: ac_simps)
  then show ?thesis unfolding filter_directories [OF dirs] by simp
qed

lemma sort_to_ascending:
  assumes "ascending R" and "mset xs = mset (map rc_stored R)"
  shows "sort_key st_seq xs = map rc_stored R"
proof -
  have seqs: "map st_seq (map rc_stored R) = map seq_of R" by (simp add: seq_of_def)
  have "inj_on st_seq (set (map rc_stored R))" "sorted (map st_seq (map rc_stored R))"
    using assms(1) unfolding ascending_def by (auto simp: strict_sorted_iff seqs [symmetric] distinct_map intro: inj_on_imageI)
  moreover have "set xs = set (map rc_stored R)" using assms(2) by (metis set_mset_mset)
  moreover have "distinct xs"
    using assms by (metis ascending_def distinct_map mset_eq_imp_distinct_iff seqs strict_sorted_iff)
  ultimately show ?thesis
    using assms(1) unfolding ascending_def strict_sorted_iff seqs [symmetric]
    by (intro map_sorted_distinct_set_unique [of st_seq]) (simp_all add: distinct_map)
qed

lemma room_directory:
  assumes "holds env C R d" and "room env R d"
  shows "length (dk_files d dir) + length (dk_temps d) + dk_evidence d \<le> se_scan env"
proof -
  have "length (dk_files d dir) = length (files_of C R dir)" using assms(1) by (metis holds_def size_mset)
  also have "\<dots> \<le> length R" by (simp add: files_of_def)
  finally show ?thesis using assms(2) by (simp add: room_def)
qed

lemma scan_records_ok:
  assumes held: "holds env C R d" and room: "room env R d"
  shows "scan_records env d = Inr (map rc_stored R)"
proof -
  have asc: "ascending R" using held by (simp add: holds_def)
  have ms: "mset (scanned env d spool_directories) = mset (map rc_stored R)" by (rule scanned_mset [OF held])
  have len: "length (scanned env d spool_directories) = length R" using ms by (metis length_map size_mset)
  have "distinct (map seq_of R)" using asc by (simp add: ascending_def strict_sorted_iff)
  moreover have "mset (map st_seq (scanned env d spool_directories)) = mset (map seq_of R)"
    using ms by (simp add: seq_of_def [abs_def] comp_def multiset.map_comp)
  ultimately have dist: "distinct (map st_seq (scanned env d spool_directories))" by (metis mset_eq_imp_distinct_iff)
  have names: "parse_record_name (fst f) \<noteq> None" if "f \<in> set (dk_files d dir)" for f dir
    using that entry_name [OF holds_entry [OF held]] holds_files [OF held] by (fastforce simp: files_of_def)
  have lens: "length (dk_files d dir) + dk_evidence d \<le> se_scan env" for dir
    using room_directory [OF held room, of dir] by linarith
  have "scan_directories env d spool_directories [] = Inr ([] @ scanned env d spool_directories)"
  proof (rule scan_directories_ok)
    show "\<forall>dir \<in> set spool_directories. dir \<noteq> ''tmp'' \<and> length (dk_files d dir) + dk_evidence d \<le> se_scan env \<and>
        (\<forall>f \<in> set (dk_files d dir). parse_record_name (fst f) \<noteq> None)"
      using lens names by (simp add: spool_directories_def)
  qed (use dist len room in \<open>simp_all add: room_def\<close>)
  then show ?thesis using sort_to_ascending [OF asc ms] by (simp add: scan_records_def)
qed

lemma read_file_ok:
  assumes "holds env C R d" and "r \<in> set R"
  shows "read_file env (rc_stored r) d = Inr (C (seq_of r))"
  using holds_file [OF assms] holds_entry [OF assms] by (simp add: read_file_def entry_ok_def)

lemma open_stored_ok:
  assumes "holds env C R (wd_disk w)" and "r \<in> set R"
  shows "open_stored_record env repair (rc_stored r) w = (Inr (Inr r), w)"
  using read_file_ok [OF assms] holds_entry [OF assms]
  by (simp add: open_stored_record_def bindIO_def readIO_def pureIO_def read_record_def entry_ok_def seq_of_def)

lemma open_records_ok:
  assumes "holds env C R (wd_disk w)" and "set Q \<subseteq> set R"
  shows "open_records env repair (map rc_stored Q) w = (Inr (Q, []), w)"
  using assms(2)
proof (induction Q)
  case Nil
  then show ?case by (simp add: pureIO_def)
next
  case (Cons r Q)
  then show ?case using open_stored_ok [OF assms(1), of r repair] by (simp add: bindIO_def pureIO_def)
qed

end
