(* ===== verification/SpoolCrash.thy ===== *)
theory SpoolCrash
  imports SpoolDisk
begin

text \<open>
  Recovery from any disk that holds a well-formed log: whatever the head and cursor lag behind, whatever
  torn temporary files are left, \<open>recover_session\<close> returns the settled log and leaves a disk at rest that
  holds it.
\<close>

section \<open>The environment's laws\<close>

text \<open>
  What \<open>_crypto.py\<close> promises: a sealed record opens to what was sealed, a signed document verifies,
  names of temporary files are UUIDs. The signed control documents stay below 64 KiB.
\<close>

definition env_ok :: "'b spool_env \<Rightarrow> bool" where
  "env_ok env \<longleftrightarrow>
     uuid_like (se_uuid env) \<and>
     (\<forall>kind n pred body. kind \<in> set record_types \<longrightarrow> 1 \<le> n \<longrightarrow> hex_text 64 pred \<longrightarrow> json_canon (JObj body) = JObj body \<longrightarrow>
        hex_text 64 (snd (se_seal env kind n pred body)) \<and>
        se_open env (fst (se_seal env kind n pred body)) =
          Inr \<lparr>op_type = kind, op_seq = n, op_pred = pred, op_payload = body,
            op_hash = snd (se_seal env kind n pred body)\<rparr>) \<and>
     (\<forall>h. valid_head h \<longrightarrow> se_verify env (se_sign env (head_dump h)) = Inr (head_dump h) \<and>
        se_size env (se_sign env (head_dump h)) \<le> max_control_bytes) \<and>
     (\<forall>c. valid_cursor c \<longrightarrow> se_verify env (se_sign env (cursor_dump c)) = Inr (cursor_dump c) \<and>
        se_size env (se_sign env (cursor_dump c)) \<le> max_control_bytes)"

definition head_on :: "'b spool_env \<Rightarrow> 'b disk \<Rightarrow> head_doc \<Rightarrow> bool" where
  "head_on env d h \<longleftrightarrow> (\<exists>data ms. dk_control d ''head'' = Some data \<and> se_size env data \<le> max_control_bytes \<and>
     se_verify env data = Inr ms \<and> head_read ms = Some h)"

definition cursor_on :: "'b spool_env \<Rightarrow> 'b disk \<Rightarrow> cursor_doc option \<Rightarrow> bool" where
  "cursor_on env d cursor \<longleftrightarrow>
     (case cursor of
        None \<Rightarrow> dk_control d ''recovery'' = None
      | Some c \<Rightarrow> \<exists>data ms. dk_control d ''recovery'' = Some data \<and> se_size env data \<le> max_control_bytes \<and>
          se_verify env data = Inr ms \<and> cursor_read ms = Some c)"

definition head_fits :: "recovered_record list \<Rightarrow> (int \<Rightarrow> string) \<Rightarrow> head_doc \<Rightarrow> bool" where
  "head_fits R H h \<longleftrightarrow> 0 \<le> hd_seq h \<and> hd_seq h \<le> last_seq 1 R \<and> hd_hash h = H (hd_seq h) \<and>
     (fst (start_of R) \<le> hd_seq h \<or> fst (start_of R) = 1 \<and> hd_seq h = 0)"

definition cursor_fits :: "recovered_record list \<Rightarrow> (int \<Rightarrow> string) \<Rightarrow> cursor_doc option \<Rightarrow> bool" where
  "cursor_fits R H cursor \<longleftrightarrow>
     (case cursor of
        None \<Rightarrow> True
      | Some c \<Rightarrow> fst (start_of R) - 1 \<le> cu_seq c \<and> cu_seq c \<le> last_seq 1 R \<and> cu_hash c = H (cu_seq c) \<and>
          (cu_seq c = last_seq 1 R \<longrightarrow> at_rest R))"

definition well_formed :: "recovered_record list \<Rightarrow> (int \<Rightarrow> string) \<Rightarrow> bool" where
  "well_formed R H \<longleftrightarrow>
     log_ok R \<and> log_fits R \<and> linked R H \<and> unretried R \<and> (\<forall>n. 0 \<le> n \<longrightarrow> n \<le> last_seq 1 R \<longrightarrow> hex_text 64 (H n))"

definition recoverable ::
  "'b spool_env \<Rightarrow> (int \<Rightarrow> 'b) \<Rightarrow> (int \<Rightarrow> string) \<Rightarrow> recovered_record list \<Rightarrow> head_doc \<Rightarrow> cursor_doc option \<Rightarrow> 'b disk \<Rightarrow> bool" where
  "recoverable env C H R head cursor d \<longleftrightarrow>
     holds env C R d \<and> room env R d \<and> log_ok R \<and> log_fits R \<and> linked R H \<and>
     hex_text 64 (H (last_seq 1 R)) \<and>
     head_on env d head \<and> head_fits R H head \<and> cursor_on env d cursor \<and> cursor_fits R H cursor \<and>
     list_all temp_name_ok (dk_temps d)"

lemma holds_located: "holds env C R d \<Longrightarrow> located R"
  by (simp add: located_def holds_def entry_ok_def)

section \<open>The steps of recovery\<close>

lemma bindIO_Inr: "m w = (Inr x, w') \<Longrightarrow> bindIO m f w = f x w'"
  by (simp add: bindIO_def)

lemma load_head_ok: "head_on env (wd_disk w) head \<Longrightarrow> load_or_create_head env w = (Inr head, w)"
  by (auto simp: head_on_def load_or_create_head_def bindIO_def readIO_def pureIO_def read_control_def)

lemma retire_temps_ok:
  "list_all temp_name_ok ts \<Longrightarrow> \<exists>w'. retire_temps ts w = (Inr (length ts), w') \<and>
     wd_disk w' = (wd_disk w)\<lparr>dk_temps := fold remove1 ts (dk_temps (wd_disk w)),
       dk_evidence := dk_evidence (wd_disk w) + length ts\<rparr>"
proof (induction ts arbitrary: w)
  case Nil
  then show ?case by (simp add: pureIO_def)
next
  case (Cons t ts)
  let ?w = "\<lparr>wd_disk = apply_step (RetireTemp t) (wd_disk w), wd_trace = wd_trace w @ [RetireTemp t]\<rparr>"
  obtain w' where "retire_temps ts ?w = (Inr (length ts), w')"
    "wd_disk w' = (wd_disk ?w)\<lparr>dk_temps := fold remove1 ts (dk_temps (wd_disk ?w)),
       dk_evidence := dk_evidence (wd_disk ?w) + length ts\<rparr>"
    using Cons.IH [of ?w] Cons.prems by auto
  then show ?case using Cons.prems by (simp add: bindIO_def stepIO_def pureIO_def)
qed

lemma fold_remove_all: "fold remove1 ts ts = []"
  by (induction ts) auto

definition cleared :: "'b disk \<Rightarrow> 'b disk" where
  "cleared d = d\<lparr>dk_temps := [], dk_evidence := dk_evidence d + length (dk_temps d)\<rparr>"

lemma recover_temps_ok:
  assumes "list_all temp_name_ok (dk_temps (wd_disk w))" and "length (dk_temps (wd_disk w)) \<le> se_scan env"
  shows "\<exists>w'. recover_temps env w = (Inr (length (dk_temps (wd_disk w))), w') \<and> wd_disk w' = cleared (wd_disk w)"
  using retire_temps_ok [OF assms(1), of w] assms(2)
  by (auto simp: recover_temps_def bindIO_def readIO_def scan_names_def fold_remove_all cleared_def)

lemma anchors_first:
  assumes "log_ok R" and "r \<in> set R" and "op_type (rc_opened r) = ''anchor''"
  shows "r = hd R" and "anchor_fits r"
  using assms unfolding log_ok_def by blast+

lemma compaction_none:
  assumes ok: "log_ok R"
  shows "recover_compaction repair R w = (Inr R, w)"
proof (cases "filter (\<lambda>r. op_type (rc_opened r) = ''anchor'') R")
  case Nil
  then show ?thesis by (simp add: recover_compaction_def pureIO_def)
next
  case (Cons x xs)
  let ?anchors = "filter (\<lambda>r. op_type (rc_opened r) = ''anchor'') R"
  have "last ?anchors \<in> set ?anchors" using Cons by simp
  then have a: "last ?anchors \<in> set R" "op_type (rc_opened (last ?anchors)) = ''anchor''" by auto
  then have hd: "last ?anchors = hd R" "anchor_fits (hd R)" "R \<noteq> []" using anchors_first [OF ok] by fastforce+
  obtain rest where rest: "rev ?anchors = hd R # rest"
    using Cons hd(1) by (metis hd_Cons_tl hd_rev list.distinct(1) rev_is_Nil_conv)
  have "takeWhile (\<lambda>r. r \<noteq> hd R) R = []" using hd(3) by (cases R) auto
  then show ?thesis
    unfolding recover_compaction_def rest
    using hd(2) by (auto simp: anchor_fits_def payload_of_def bindIO_def pureIO_def seq_of_def)
qed

lemma early_none: "log_ok R \<Longrightarrow> early_compaction repair head R w = (Inr R, w)"
  by (simp add: early_compaction_def compaction_none pureIO_def)

lemma map_of_chain: "map_of (map (\<lambda>m. (m, H m)) [a..b]) m = (if a \<le> m \<and> m \<le> b then Some (H m) else None)"
proof -
  have "map_of (map (\<lambda>m. (m, H m)) xs) m = (if m \<in> set xs then Some (H m) else None)" for xs
    by (induction xs) auto
  then show ?thesis by simp
qed

lemma foldl_max_last: "ascending (r # R) \<Longrightarrow> foldl max (seq_of r) (map seq_of R) = seq_of (last (r # R))"
proof (induction R arbitrary: r)
  case (Cons q R)
  then have "seq_of r < seq_of q" "ascending (q # R)" by (auto simp: ascending_Cons)
  then show ?case using Cons.IH [of q] by (simp add: max_def)
qed simp


definition written :: "'b spool_env \<Rightarrow> string \<Rightarrow> 'b \<Rightarrow> 'b disk \<Rightarrow> 'b disk" where
  "written env name data d = apply_step (InstallControl (temp_name env name) name data) (apply_step (WriteTemp (temp_name env name) data) d)"

lemma write_control_ok:
  "write_control env name data w =
     (Inr (), \<lparr>wd_disk = written env name data (wd_disk w),
        wd_trace = wd_trace w @ [WriteTemp (temp_name env name) data, InstallControl (temp_name env name) name data]\<rparr>)"
  by (simp add: write_control_def bindIO_def stepIO_def pureIO_def written_def)

lemma validate_chain_ok:
  assumes ok: "log_ok R" and link: "linked R H" and fits: "head_fits R H head" and env: "env_ok env"
    and hex: "hex_text 64 (H (last_seq 1 R))"
  shows "\<exists>w'. validate_chain env True head R [] w =
      (Inr (\<lparr>hd_seq = last_seq 1 R, hd_hash = H (last_seq 1 R)\<rparr>, [], if R = [] then [] else chain_hashes R H), w') \<and>
     (wd_disk w' = wd_disk w \<and> head = \<lparr>hd_seq = last_seq 1 R, hd_hash = H (last_seq 1 R)\<rparr> \<or>
      wd_disk w' = written env ''head'' (se_sign env (head_dump \<lparr>hd_seq = last_seq 1 R, hd_hash = H (last_seq 1 R)\<rparr>)) (wd_disk w))"
proof (cases R)
  case Nil
  have "H 0 = genesis_hash" using link by (simp add: linked_def start_of_def Nil)
  moreover have "hd_seq head = 0" "hd_hash head = H 0" using fits by (auto simp: head_fits_def last_seq_def Nil)
  ultimately show ?thesis
    by (cases head) (simp add: validate_chain_def Nil pureIO_def last_seq_def)
next
  case (Cons r R')
  let ?next = "\<lparr>hd_seq = last_seq 1 R, hd_hash = H (last_seq 1 R)\<rparr>"
  have asc: "ascending R" using ok by (simp add: log_ok_def)
  have last: "last_seq 1 R = seq_of (last R)" by (simp add: last_seq_def Cons)
  have max: "foldl max (st_seq (rc_stored r)) (map (\<lambda>r. st_seq (rc_stored r)) R') = last_seq 1 R"
  proof -
    have "foldl max (seq_of r) (map seq_of R') = last_seq 1 R"
      unfolding last using foldl_max_last [of r R'] asc by (simp add: Cons)
    then show ?thesis by (simp add: seq_of_def [abs_def])
  qed
  have valid: "validate_record_chain R [] head = Inr (chain_hashes R H, [])"
    by (rule validate_record_chain_ok [OF ok link]) (simp add: Cons)
  have start: "fst (start_of R) \<le> last_seq 1 R" using start_le [OF ok, of "last R"] last by (simp add: Cons)
  have lookup: "map_of (chain_hashes R H) m = (if fst (start_of R) \<le> m \<and> m \<le> last_seq 1 R then Some (H m) else None)" for m
    unfolding chain_hashes_def by (rule map_of_chain)
  have matches: "head_matches_record head (chain_hashes R H)"
  proof (cases "hd_seq head = 0")
    case True
    then have "fst (start_of R) = 1 \<or> fst (start_of R) \<le> 0" using fits by (auto simp: head_fits_def)
    moreover have "1 \<le> seq_of (hd R)" using ok by (simp add: log_ok_def Cons)
    ultimately have "start_of R = (1, genesis_hash)"
      using anchors_first(2) [OF ok, of r] ok by (auto simp: start_of_def Cons log_ok_def anchor_fits_def split: if_splits)
    then show ?thesis using True fits link by (simp add: head_matches_record_def head_fits_def linked_def)
  next
    case False
    then show ?thesis using fits by (auto simp: head_matches_record_def head_fits_def lookup)
  qed
  have run: "validate_chain env True head R [] w =
      bindIO (recover_head env True head (chain_hashes R H) (last_seq 1 R)) (\<lambda>head. pureIO (Inr (head, [], chain_hashes R H))) w"
    using valid max by (simp add: validate_chain_def Cons bindIO_def pureIO_def)
  show ?thesis
  proof (cases "hd_seq head = last_seq 1 R")
    case True
    then have "head = ?next" using fits by (cases head) (simp add: head_fits_def)
    then show ?thesis using run matches by (simp add: recover_head_def bindIO_def pureIO_def Cons)
  next
    case False
    then have "\<not> hd_seq head > last_seq 1 R" using fits by (simp add: head_fits_def)
    then show ?thesis
      using run matches False lookup [of "last_seq 1 R"] start
      by (simp add: recover_head_def bindIO_def pureIO_def write_control_ok Let_def Cons)
  qed
qed

lemma start_positive: "log_ok R \<Longrightarrow> 1 \<le> fst (start_of R)"
  by (cases R) (auto simp: start_of_def log_ok_def)

lemma start_anchor:
  assumes ok: "log_ok R" and late: "fst (start_of R) \<noteq> 1"
  shows "\<exists>r a. find (\<lambda>r. op_type (rc_opened r) = ''anchor'') R = Some r \<and> anchor_read (op_payload (rc_opened r)) = Some a \<and>
    an_through a = fst (start_of R) - 1 \<and> an_terminal a = snd (start_of R)"
proof -
  obtain r R' where R: "R = r # R'" and anchor: "op_type (rc_opened r) = ''anchor''"
    using late by (cases R) (auto simp: start_of_def split: if_splits)
  then have "anchor_fits r" using anchors_first(2) [OF ok, of r] by simp
  then show ?thesis using R anchor by (auto simp: start_of_def anchor_fits_def)
qed

lemma load_cursor_ok:
  assumes ok: "log_ok R" and link: "linked R H" and cursor: "cursor_on env d cursor" "cursor_fits R H cursor"
    and head: "hd_seq head = last_seq 1 R"
  shows "load_recovery_cursor env head R (if R = [] then [] else chain_hashes R H) d = Inr cursor"
proof (cases cursor)
  case None
  then show ?thesis using cursor(1) by (simp add: cursor_on_def load_recovery_cursor_def)
next
  case (Some c)
  let ?hashes = "if R = [] then [] else chain_hashes R H" and ?n = "fst (start_of R)"
  obtain data ms where data: "dk_control d ''recovery'' = Some data" "se_size env data \<le> max_control_bytes"
    "se_verify env data = Inr ms" "cursor_read ms = Some c"
    using cursor(1) Some by (auto simp: cursor_on_def)
  have fits: "?n - 1 \<le> cu_seq c" "cu_seq c \<le> last_seq 1 R" "cu_hash c = H (cu_seq c)"
    using cursor(2) Some by (auto simp: cursor_fits_def)
  have origin: "H (?n - 1) = snd (start_of R)" using link by (simp add: linked_def)
  have lookup: "map_of ?hashes m = (if R \<noteq> [] \<and> ?n \<le> m \<and> m \<le> last_seq 1 R then Some (H m) else None)" for m
    by (simp add: chain_hashes_def map_of_chain)
  have "bindE (case (if cu_seq c = 0 then Some genesis_hash else map_of ?hashes (cu_seq c)) of
         Some h \<Rightarrow> Inr (Some h)
       | None \<Rightarrow> (case find (\<lambda>r. op_type (rc_opened r) = ''anchor'') R of None \<Rightarrow> Inr None
          | Some r \<Rightarrow> bindE (payload_of anchor_read (rc_opened r)) (\<lambda>a.
              Inr (if an_through a = cu_seq c then Some (an_terminal a) else None))))
      (\<lambda>expected. if expected \<noteq> Some (cu_hash c)
         then Inl (chain_error ''spool recovery cursor does not match the durable chain'') else Inr (Some c)) = Inr (Some c)"
  proof (cases "cu_seq c = 0")
    case True
    then have "?n = 1" using fits(1) start_positive [OF ok] by simp
    then have "H 0 = genesis_hash"
      using origin anchors_first(2) [OF ok] by (cases R) (auto simp: start_of_def anchor_fits_def split: if_splits)
    then show ?thesis using True fits(3) by simp
  next
    case False
    show ?thesis
    proof (cases "?n \<le> cu_seq c")
      case True
      then have "R \<noteq> []" using fits(2) start_positive [OF ok] by (auto simp: last_seq_def)
      then show ?thesis using False True fits lookup [of "cu_seq c"] by simp
    next
      case before: False
      then have "?n \<noteq> 1" "cu_seq c = ?n - 1" using fits(1) False by auto
      then show ?thesis
        using start_anchor [OF ok] False before lookup [of "cu_seq c"] origin fits(3) by (auto simp: payload_of_def)
    qed
  qed
  then show ?thesis using data fits(2) head Some by (simp add: load_recovery_cursor_def read_control_def)
qed

section \<open>Settling on the disk\<close>

definition same_controls :: "'b disk \<Rightarrow> 'b disk \<Rightarrow> bool" where
  "same_controls d d' \<longleftrightarrow> dk_control d' = dk_control d \<and> dk_temps d' = dk_temps d \<and> dk_evidence d' = dk_evidence d"

lemma same_controls_refl [simp]: "same_controls d d"
  by (simp add: same_controls_def)

lemma same_controls_trans: "same_controls a b \<Longrightarrow> same_controls b c \<Longrightarrow> same_controls a c"
  by (simp add: same_controls_def)

lemma same_controls_step: "same_controls d (apply_step (Unlink dir name) d)" "same_controls d (apply_step (Relocate name src dst) d)"
  by (simp_all add: same_controls_def Let_def split: option.split)

lemma replace_first_middle: "x \<notin> set xs \<Longrightarrow> replace_first x y (xs @ x # ys) = xs @ y # ys"
  by (induction xs) auto

lemma settle_records_ok:
  assumes "holds env C (P @ Q) (wd_disk w)"
    and "\<forall>r \<in> set Q. state_of states r = f r \<and> (f r = ''discarded'' \<or> valid_location (rc_stored (moved_to (f r) r)))"
  shows "\<exists>w'. settle_records states Q w = (Inr (settle_by f Q), w') \<and> holds env C (P @ settle_by f Q) (wd_disk w') \<and>
    same_controls (wd_disk w) (wd_disk w')"
  using assms
proof (induction Q arbitrary: P w)
  case Nil
  then show ?case by (simp add: pureIO_def)
next
  case (Cons r Q)
  have state: "state_of states r = f r" and loc: "f r = ''discarded'' \<or> valid_location (rc_stored (moved_to (f r) r))"
    using Cons.prems(2) by auto
  have rest: "\<forall>r \<in> set Q. state_of states r = f r \<and> (f r = ''discarded'' \<or> valid_location (rc_stored (moved_to (f r) r)))"
    using Cons.prems(2) by simp
  have "distinct (P @ r # Q)" using Cons.prems(1) ascending_distinct unfolding holds_def by blast
  then have fresh: "r \<notin> set P" by auto
  show ?case
  proof (cases "f r = ''discarded''")
    case True
    let ?st = "Unlink (st_dir (rc_stored r)) (st_name (rc_stored r))"
    let ?w = "\<lparr>wd_disk = apply_step ?st (wd_disk w), wd_trace = wd_trace w @ [?st]\<rparr>"
    have "holds env C (remove1 r (P @ r # Q)) (apply_step ?st (wd_disk w))" by (rule holds_unlink [OF Cons.prems(1)]) simp
    then have "holds env C (P @ Q) (wd_disk ?w)" using fresh by (simp add: remove1_append del: apply_step.simps)
    then obtain w' where "settle_records states Q ?w = (Inr (settle_by f Q), w')" "holds env C (P @ settle_by f Q) (wd_disk w')"
      "same_controls (wd_disk ?w) (wd_disk w')" using Cons.IH rest by blast
    then show ?thesis
      using True state same_controls_step(1) [of "wd_disk w"] same_controls_trans
      by (fastforce simp: remove_file_def bindIO_def stepIO_def simp del: apply_step.simps)
  next
    case False
    then have keep: "settle_by f (r # Q) = moved_to (f r) r # settle_by f Q" by simp
    have loc': "valid_location (rc_stored (moved_to (f r) r))" using False loc by simp
    obtain w1 where w1: "move_file (rc_stored r) (f r) w = (Inr ((rc_stored r)\<lparr>st_dir := f r\<rparr>), w1)"
      "holds env C ((P @ [moved_to (f r) r]) @ Q) (wd_disk w1)" "same_controls (wd_disk w) (wd_disk w1)"
    proof (cases "st_dir (rc_stored r) = f r")
      case True
      then have "moved_to (f r) r = r" using moved_to_self [of r] by simp
      moreover have "(rc_stored r)\<lparr>st_dir := f r\<rparr> = rc_stored r" using True by (simp flip: True)
      ultimately show thesis using that [of w] True Cons.prems(1) by (simp add: move_file_def pureIO_def)
    next
      case False
      let ?st = "Relocate (st_name (rc_stored r)) (st_dir (rc_stored r)) (f r)"
      let ?w = "\<lparr>wd_disk = apply_step ?st (wd_disk w), wd_trace = wd_trace w @ [?st]\<rparr>"
      have "holds env C (replace_first r (moved_to (f r) r) (P @ r # Q)) (apply_step ?st (wd_disk w))"
        by (rule holds_relocate [OF Cons.prems(1)]) (use False loc' in auto)
      then have "holds env C ((P @ [moved_to (f r) r]) @ Q) (wd_disk ?w)"
        using replace_first_middle [OF fresh] by (simp del: apply_step.simps)
      moreover have "move_file (rc_stored r) (f r) w = (Inr ((rc_stored r)\<lparr>st_dir := f r\<rparr>), ?w)"
        using False by (simp add: move_file_def bindIO_def stepIO_def pureIO_def)
      ultimately show thesis using that [of ?w] same_controls_step(2) [of "wd_disk w"] by (simp del: apply_step.simps)
    qed
    obtain w' where "settle_records states Q w1 = (Inr (settle_by f Q), w')"
      "holds env C ((P @ [moved_to (f r) r]) @ settle_by f Q) (wd_disk w')" "same_controls (wd_disk w1) (wd_disk w')"
      using Cons.IH [OF w1(2) rest] by blast
    then show ?thesis
      unfolding keep using False state w1(1,3) same_controls_trans
      by (auto simp: bindIO_def pureIO_def moved_to_def)
  qed
qed

section \<open>Recovery\<close>

lemma last_seq_nonneg: "log_ok R \<Longrightarrow> 0 \<le> last_seq 1 R"
  by (cases R rule: rev_cases) (auto simp: last_seq_def log_ok_def)

lemma place_location:
  assumes "log_fits R" and "located R" and "ascending R" and r: "r \<in> set R"
  shows "place R r = ''discarded'' \<or> valid_location (rc_stored (moved_to (place R r) r))"
proof (cases "op_type (rc_opened r) = ''command''")
  case True
  then have "command_at R (seq_of r) = Some r" using command_at_iff [OF assms(3)] r by blast
  then obtain s where s: "status R (seq_of r) = Some s" using assms(1) by (force simp: log_fits_def)
  then have "s \<in> {''pending'', ''accepted'', ''quarantine'', ''discarded''}"
    using run_actions_range unfolding status_def by blast
  moreover have "st_kind (rc_stored r) = ''command''" using True assms(2) r by (auto simp: located_def)
  ultimately show ?thesis using s True by (auto simp: place_def valid_location_def)
next
  case False
  then show ?thesis using assms(2) r by (simp add: place_def located_def)
qed

lemma state_place:
  assumes "ascending R" and "r \<in> set R"
    and "\<forall>n. map_of states n = (if command_at R n = None then None else status R n)"
  shows "state_of states r = place R r"
proof (cases "op_type (rc_opened r) = ''command''")
  case True
  then have "command_at R (seq_of r) = Some r" using command_at_iff [OF assms(1)] assms(2) by blast
  then show ?thesis using True assms(3) by (simp add: state_of_def place_def seq_of_def)
next
  case False
  have "command_at R (seq_of r) = None"
  proof (rule ccontr)
    assume "command_at R (seq_of r) \<noteq> None"
    then obtain c where "c \<in> set R" "op_type (rc_opened c) = ''command''" "seq_of c = seq_of r"
      using command_at_iff [OF assms(1)] by blast
    then show False using ascending_inj [OF assms(1) _ assms(2)] False by blast
  qed
  then show ?thesis using False assms(3) by (simp add: state_of_def place_def seq_of_def)
qed

lemma recover_transitions_ok:
  assumes held: "holds env C R (wd_disk w)" and ok: "log_ok R" and fits: "log_fits R"
  shows "\<exists>w'. recover_transitions True R w = (Inr (settled R), w') \<and> holds env C (settled R) (wd_disk w') \<and>
    same_controls (wd_disk w) (wd_disk w')"
proof -
  have asc: "ascending R" using ok by (simp add: log_ok_def)
  obtain states where states: "command_states R = Inr states"
    "\<forall>n. map_of states n = (if command_at R n = None then None else status R n)"
    using command_states_ok [OF ok fits] by blast
  have "\<forall>r \<in> set R. state_of states r = place R r \<and>
      (place R r = ''discarded'' \<or> valid_location (rc_stored (moved_to (place R r) r)))"
    using state_place [OF asc _ states(2)] place_location [OF fits holds_located [OF held] asc] by blast
  then show ?thesis
    using settle_records_ok [of env C "[]" R w states "place R"] held states(1)
    by (simp add: recover_transitions_def bindIO_def pureIO_def settled_by)
qed

lemma written_simps: "dk_files (written env name data d) = dk_files d" "dk_evidence (written env name data d) = dk_evidence d"
  "dk_control (written env name data d) = (dk_control d)(name \<mapsto> data)"
  "dk_temps d = [] \<Longrightarrow> dk_temps (written env name data d) = []"
  by (simp_all add: written_def)

lemma cleared_disk_simps [simp]: "dk_files (cleared d) = dk_files d" "dk_control (cleared d) = dk_control d" "dk_temps (cleared d) = []"
  "dk_evidence (cleared d) = dk_evidence d + length (dk_temps d)"
  by (simp_all add: cleared_def)

definition rested ::
  "'b spool_env \<Rightarrow> (int \<Rightarrow> 'b) \<Rightarrow> (int \<Rightarrow> string) \<Rightarrow> recovered_record list \<Rightarrow> session \<Rightarrow> 'b disk \<Rightarrow> bool" where
  "rested env C H R s d \<longleftrightarrow>
     holds env C R d \<and> at_rest R \<and> dk_temps d = [] \<and>
     ss_records s = R \<and> ss_corrupt s = [] \<and> ss_head s = \<lparr>hd_seq = last_seq 1 R, hd_hash = H (last_seq 1 R)\<rparr> \<and>
     head_on env d (ss_head s) \<and> cursor_on env d (ss_cursor s) \<and>
     (\<exists>c. ss_cursor s = Some c \<and> cu_seq c = last_seq 1 R \<and> cu_hash c = H (last_seq 1 R))"

lemma head_on_written:
  "env_ok env \<Longrightarrow> valid_head h \<Longrightarrow> head_on env (written env ''head'' (se_sign env (head_dump h)) d) h"
  by (auto simp: env_ok_def head_on_def written_simps head_read_dump)

lemma cursor_on_written:
  "env_ok env \<Longrightarrow> valid_cursor c \<Longrightarrow> cursor_on env (written env ''recovery'' (se_sign env (cursor_dump c)) d) (Some c)"
  by (auto simp: env_ok_def cursor_on_def written_simps cursor_read_dump)

lemma head_on_cong: "dk_control d' ''head'' = dk_control d ''head'' \<Longrightarrow> head_on env d' h = head_on env d h"
  by (simp add: head_on_def)

lemma cursor_on_cong: "dk_control d' ''recovery'' = dk_control d ''recovery'' \<Longrightarrow> cursor_on env d' c = cursor_on env d c"
  by (cases c) (simp_all add: cursor_on_def)

lemma state_digest_hex: "hex_text 64 (state_digest R)"
  by (simp add: state_digest_def)

lemma evidence_ok: "holds env C R d \<Longrightarrow> room env R d \<Longrightarrow> quarantine_evidence_count env d = Inr (dk_evidence d)"
  using room_directory [of env C R d "''quarantine''"] by (simp add: quarantine_evidence_count_def scan_names_def)

text \<open>Up to the transitions, recovery is the same whether or not the history folds.\<close>

lemma recover_prefix:
  assumes held: "holds env C R (wd_disk w)" and room: "room env R (wd_disk w)" and ok: "log_ok R"
    and link: "linked R H" and hex: "hex_text 64 (H (last_seq 1 R))"
    and head: "head_on env (wd_disk w) head" "head_fits R H head"
    and cursor: "cursor_on env (wd_disk w) cursor" "cursor_fits R H cursor"
    and temps: "list_all temp_name_ok (dk_temps (wd_disk w))" and env: "env_ok env"
  defines "next \<equiv> \<lparr>hd_seq = last_seq 1 R, hd_hash = H (last_seq 1 R)\<rparr>"
  shows "\<exists>w2 torn. recover_session env True w =
       bindIO (if cursor \<noteq> Some (expected_cursor next R)
           then bindIO (recover_transitions True R) (\<lambda>rs. pureIO (Inr
             \<lparr>ss_head = next, ss_records = rs, ss_corrupt = [], ss_cursor = None, ss_torn = torn\<rparr>))
           else pureIO (Inr \<lparr>ss_head = next, ss_records = R, ss_corrupt = [], ss_cursor = cursor, ss_torn = torn\<rparr>))
         (checkpoint_recovery env) w2 \<and>
     holds env C R (wd_disk w2) \<and> dk_temps (wd_disk w2) = [] \<and>
     dk_evidence (wd_disk w2) = dk_evidence (wd_disk w) + length (dk_temps (wd_disk w)) \<and>
     head_on env (wd_disk w2) next \<and> cursor_on env (wd_disk w2) cursor"
proof -
  let ?hashes = "if R = [] then [] else chain_hashes R H"
  have valid: "valid_head next" using holds_number [OF held] hex by (auto simp: valid_head_def next_def valid_number_def)
  obtain w1 where w1: "recover_temps env w = (Inr (length (dk_temps (wd_disk w))), w1)" "wd_disk w1 = cleared (wd_disk w)"
    using recover_temps_ok [OF temps, of env] room by (auto simp: room_def)
  have held1: "holds env C R (wd_disk w1)" and room1: "room env R (wd_disk w1)"
    using held room by (simp_all add: w1(2) holds_def room_def)
  obtain w2 where w2: "validate_chain env True head R [] w1 = (Inr (next, [], ?hashes), w2)"
    and d2: "wd_disk w2 = wd_disk w1 \<and> head = next \<or> wd_disk w2 = written env ''head'' (se_sign env (head_dump next)) (wd_disk w1)"
    using validate_chain_ok [OF ok link head(2) env hex] unfolding next_def by blast
  have same2: "dk_files (wd_disk w2) = dk_files (wd_disk w)" "dk_temps (wd_disk w2) = []"
    "dk_evidence (wd_disk w2) = dk_evidence (wd_disk w) + length (dk_temps (wd_disk w))"
    "dk_control (wd_disk w2) ''recovery'' = dk_control (wd_disk w) ''recovery''"
    using d2 by (auto simp: w1(2) written_simps)
  have head2: "head_on env (wd_disk w2) next"
    using d2
  proof
    assume "wd_disk w2 = wd_disk w1 \<and> head = next"
    then show ?thesis using head(1) by (simp add: w1(2) head_on_def)
  qed (simp add: head_on_written [OF env valid])
  have held2: "holds env C R (wd_disk w2)" using held same2(1) by (simp add: holds_def)
  have cursor2: "cursor_on env (wd_disk w2) cursor" using cursor(1) cursor_on_cong [OF same2(4)] by blast
  have load: "load_recovery_cursor env next R ?hashes (wd_disk w2) = Inr cursor"
    by (rule load_cursor_ok [OF ok link cursor2 cursor(2)]) (simp add: next_def)
  have "recover_session env True w =
     bindIO (if cursor \<noteq> Some (expected_cursor next R)
         then bindIO (recover_transitions True R) (\<lambda>rs. pureIO (Inr
           \<lparr>ss_head = next, ss_records = rs, ss_corrupt = [], ss_cursor = None, ss_torn = dk_evidence (wd_disk w1)\<rparr>))
         else pureIO (Inr \<lparr>ss_head = next, ss_records = R, ss_corrupt = [], ss_cursor = cursor,
           ss_torn = dk_evidence (wd_disk w1)\<rparr>)) (checkpoint_recovery env) w2"
    unfolding recover_session_def
    using load_head_ok [OF head(1)] w1(1) evidence_ok [OF held1 room1] scan_records_ok [OF held1 room1]
      open_records_ok [OF held1 subset_refl, of True] early_none [OF ok, of True head w1] w2 load compaction_none [OF ok, of True w2]
    by (simp add: bindIO_def readIO_def Let_def)
  then show ?thesis using held2 same2(2,3) head2 cursor2 by blast
qed

theorem recover_rests:
  assumes rec: "recoverable env C H R head cursor (wd_disk w)" and env: "env_ok env"
  shows "\<exists>s w'. recover_session env True w = (Inr s, w') \<and> rested env C H (settled R) s (wd_disk w') \<and>
    dk_evidence (wd_disk w') = dk_evidence (wd_disk w) + length (dk_temps (wd_disk w))"
proof -
  let ?next = "\<lparr>hd_seq = last_seq 1 R, hd_hash = H (last_seq 1 R)\<rparr>"
  have held: "holds env C R (wd_disk w)" and room: "room env R (wd_disk w)" and ok: "log_ok R" and fits: "log_fits R"
    and link: "linked R H" and hex: "hex_text 64 (H (last_seq 1 R))"
    and head: "head_on env (wd_disk w) head" "head_fits R H head"
    and cursor: "cursor_on env (wd_disk w) cursor" "cursor_fits R H cursor"
    and temps: "list_all temp_name_ok (dk_temps (wd_disk w))"
    using rec unfolding recoverable_def by blast+
  have loc: "located R" by (rule holds_located [OF held])
  obtain w2 torn where run: "recover_session env True w =
     bindIO (if cursor \<noteq> Some (expected_cursor ?next R)
         then bindIO (recover_transitions True R) (\<lambda>rs. pureIO (Inr
           \<lparr>ss_head = ?next, ss_records = rs, ss_corrupt = [], ss_cursor = None, ss_torn = torn\<rparr>))
         else pureIO (Inr \<lparr>ss_head = ?next, ss_records = R, ss_corrupt = [], ss_cursor = cursor, ss_torn = torn\<rparr>))
       (checkpoint_recovery env) w2"
    and held2: "holds env C R (wd_disk w2)"
    and same2: "dk_temps (wd_disk w2) = []" "dk_evidence (wd_disk w2) = dk_evidence (wd_disk w) + length (dk_temps (wd_disk w))"
    and head2: "head_on env (wd_disk w2) ?next" and cursor2: "cursor_on env (wd_disk w2) cursor"
    using recover_prefix [OF held room ok link hex head cursor temps env] by blast
  show ?thesis
  proof (cases "cursor = Some (expected_cursor ?next R)")
    case True
    then have rest: "at_rest R" using cursor(2) by (simp add: cursor_fits_def expected_cursor_def)
    have "recover_session env True w = (Inr \<lparr>ss_head = ?next, ss_records = R, ss_corrupt = [], ss_cursor = cursor, ss_torn = torn\<rparr>, w2)"
      using run True by (simp add: bindIO_def pureIO_def checkpoint_recovery_def expected_cursor_def)
    then show ?thesis
      using held2 rest same2 head2 cursor2 True settled_at_rest [OF rest]
      by (simp add: rested_def expected_cursor_def)
  next
    case False
    obtain w3 where w3: "recover_transitions True R w2 = (Inr (settled R), w3)" "holds env C (settled R) (wd_disk w3)"
      "same_controls (wd_disk w2) (wd_disk w3)"
      using recover_transitions_ok [OF held2 ok fits] by blast
    let ?c = "expected_cursor ?next (settled R)"
    let ?d = "written env ''recovery'' (se_sign env (cursor_dump ?c)) (wd_disk w3)"
    let ?w = "\<lparr>wd_disk = ?d, wd_trace = wd_trace w3 @ [WriteTemp (temp_name env ''recovery'') (se_sign env (cursor_dump ?c)),
        InstallControl (temp_name env ''recovery'') ''recovery'' (se_sign env (cursor_dump ?c))]\<rparr>"
    have "valid_cursor ?c"
      using holds_number [OF held] hex state_digest_hex by (auto simp: valid_cursor_def expected_cursor_def valid_number_def)
    then have cur: "cursor_on env ?d (Some ?c)" by (rule cursor_on_written [OF env])
    have "recover_session env True w = (Inr \<lparr>ss_head = ?next, ss_records = settled R, ss_corrupt = [], ss_cursor = Some ?c, ss_torn = torn\<rparr>, ?w)"
      using run False w3(1) by (simp add: bindIO_def pureIO_def checkpoint_recovery_def write_control_ok Let_def)
    moreover have "head_on env ?d ?next"
      using head2 w3(3) by (simp add: head_on_def written_simps same_controls_def)
    moreover have "holds env C (settled R) ?d" using w3(2) by (simp add: holds_def written_simps)
    moreover have "dk_temps ?d = []" "dk_evidence ?d = dk_evidence (wd_disk w) + length (dk_temps (wd_disk w))"
      using w3(3) same2 by (simp_all add: written_simps same_controls_def)
    ultimately show ?thesis
      using cur settled_rest [OF loc] settled_last [OF ok fits loc] by (simp add: rested_def expected_cursor_def)
  qed
qed

end
