(* ===== verification/SpoolExtend.thy ===== *)
theory SpoolExtend
  imports SpoolCrash
begin

text \<open>
  What a session does to the log: a record appended to its end keeps it well formed, and settling the
  extended log is the move or the removal the session makes next.
\<close>


section \<open>Appending a record\<close>

text \<open>
  A record that continues the log: it links to its end and, if it is a receipt or disposition, what it says
  of its command is true and is a transition the command's history allows.
\<close>

definition extends :: "recovered_record list \<Rightarrow> (int \<Rightarrow> string) \<Rightarrow> recovered_record \<Rightarrow> bool" where
  "extends R H r \<longleftrightarrow>
     seq_of r = last_seq 1 R + 1 \<and> op_pred (rc_opened r) = H (last_seq 1 R) \<and> readable r \<and>
     op_type (rc_opened r) \<noteq> ''anchor'' \<and> receipt_ok R r \<and>
     (\<forall>n a. target r = Some (n, a) \<longrightarrow>
        (\<exists>c s s'. command_at R n = Some c \<and> status R n = Some s \<and> next_state s a = Inr s') \<and>
        (a = ''discard'' \<longrightarrow> ''retry'' \<notin> set (actions R n)))"

lemma seq_le_last: "ascending R \<Longrightarrow> r \<in> set R \<Longrightarrow> seq_of r \<le> last_seq n R"
  by (cases R rule: rev_cases) (auto simp: last_seq_def ascending_def sorted_wrt_append intro: order.strict_implies_order)

lemma extends_fresh:
  assumes "ascending R" and "extends R H r" and "q \<in> set R"
  shows "seq_of q < seq_of r"
  using seq_le_last [OF assms(1,3), of 1] assms(2) by (simp add: extends_def)

lemma command_at_append: "command_at (R @ [r]) n =
    (case command_at R n of
       Some c \<Rightarrow> Some c
     | None \<Rightarrow> if op_type (rc_opened r) = ''command'' \<and> seq_of r = n then Some r else None)"
  unfolding command_at_def by (induction R) auto

lemma receipt_ok_append:
  assumes "receipt_ok R q" and "\<forall>n a. target q = Some (n, a) \<longrightarrow> n \<noteq> seq_of r"
  shows "receipt_ok (R @ [r]) q"
proof -
  have at: "command_at (R @ [r]) n = command_at R n" if "target q = Some (n, a)" for n a
    using assms(2) that by (auto simp: command_at_append split: option.split)
  have tomb: "map_of (tombs R) n = Some d \<Longrightarrow> map_of (tombs (R @ [r])) n = Some d" for n d
    by (simp add: map_add_Some_iff)
  consider "op_type (rc_opened q) = ''accepted_receipt''" | "op_type (rc_opened q) = ''quarantine_receipt''"
    | "op_type (rc_opened q) = ''disposition''"
    | "op_type (rc_opened q) \<notin> {''accepted_receipt'', ''quarantine_receipt'', ''disposition''}" by auto
  then show ?thesis
  proof cases
    case 1
    then show ?thesis using assms(1) at by (auto simp: receipt_ok_def target_def)
  next
    case 2
    then obtain x where x: "quarantine_read (op_payload (rc_opened q)) = Some x" using assms(1) by (auto simp: receipt_ok_def)
    then have "target q = Some (qr_seq x, ''quarantined'')" using 2 by (simp add: target_def)
    then show ?thesis
      using 2 x assms(1) at tomb by (auto simp: receipt_ok_def split: option.splits simp del: tombs_simps)
  next
    case 3
    then obtain x where x: "disposition_read (op_payload (rc_opened q)) = Some x" using assms(1) by (auto simp: receipt_ok_def)
    then have "target q = Some (dp_seq x, dp_action x)" using 3 by (simp add: target_def)
    then show ?thesis using 3 x assms(1) at by (simp add: receipt_ok_def)
  next
    case 4
    then show ?thesis by (simp add: receipt_ok_def)
  qed
qed

lemma actions_beyond:
  assumes "log_fits R" and "ascending R" and "last_seq 1 R < n"
  shows "actions R n = []"
proof -
  have "m \<noteq> n" if "q \<in> set R" "target q = Some (m, a)" for q m a
    using assms that seq_le_last [OF assms(2) that(1), of 1] unfolding log_fits_def by fastforce
  then have "a \<notin> set (actions R n)" for a by (auto simp: actions_set)
  then show ?thesis by (metis list.set_intros(1) neq_Nil_conv)
qed

lemma extend_target_lt:
  assumes "log_ok R" and "extends R H r" and "target r = Some (n, a)"
  shows "n < seq_of r"
proof -
  obtain c where c: "command_at R n = Some c" using assms(2,3) unfolding extends_def by blast
  have asc: "ascending R" using assms(1) by (simp add: log_ok_def)
  then have "c \<in> set R" "seq_of c = n" using c command_at_iff by blast+
  then show ?thesis using extends_fresh [OF asc assms(2)] by blast
qed

lemma status_extend:
  assumes "log_ok R" and "log_fits R" and "extends R H r"
  shows "status (R @ [r]) n =
     (case target r of
        Some (m, a) \<Rightarrow> if m = n then run_actions (the (status R n)) [a] else status R n
      | None \<Rightarrow> status R n)"
proof (cases "target r")
  case (Some t)
  obtain m a where t: "t = (m, a)" by (cases t)
  show ?thesis
  proof (cases "m = n")
    case True
    then obtain s where "status R n = Some s" using assms(3) Some t unfolding extends_def by blast
    then show ?thesis using Some t True by (simp add: status_def run_actions_append)
  qed (simp add: Some t status_def)
qed (simp add: status_def)

lemma log_fits_extend:
  assumes ok: "log_ok R" and fits: "log_fits R" and ext: "extends R H r"
  shows "log_fits (R @ [r])"
proof -
  have asc: "ascending R" using ok by (simp add: log_ok_def)
  have old: "receipt_ok (R @ [r]) q" if "q \<in> set R" for q
  proof (rule receipt_ok_append)
    show "receipt_ok R q" using fits that by (simp add: log_fits_def)
    show "\<forall>n a. target q = Some (n, a) \<longrightarrow> n \<noteq> seq_of r"
      using fits that extends_fresh [OF asc ext that] by (auto simp: log_fits_def)
  qed
  have new: "receipt_ok (R @ [r]) r"
    by (rule receipt_ok_append) (use ext extend_target_lt [OF ok ext] in \<open>auto simp: extends_def\<close>)
  have lt: "n < seq_of q" if "q \<in> set (R @ [r])" "target q = Some (n, a)" for q n a
    using that fits extend_target_lt [OF ok ext] by (auto simp: log_fits_def)
  have "status (R @ [r]) n \<noteq> None" if at: "command_at (R @ [r]) n \<noteq> None" for n
  proof (cases "\<exists>a. target r = Some (n, a)")
    case True
    then obtain a s s' where "target r = Some (n, a)" "status R n = Some s" "next_state s a = Inr s'"
      using ext unfolding extends_def by blast
    then show ?thesis by (simp add: status_extend [OF ok fits ext])
  next
    case False
    then have same: "status (R @ [r]) n = status R n"
      by (auto simp: status_extend [OF ok fits ext] split: option.split)
    show ?thesis
    proof (cases "command_at R n")
      case None
      then have "n = seq_of r" using at by (simp add: command_at_append split: if_splits)
      then have "last_seq 1 R < n" using ext by (simp add: extends_def)
      then show ?thesis unfolding same using actions_beyond [OF fits asc] by (simp add: status_def)
    next
      case Some
      then show ?thesis unfolding same using fits by (simp add: log_fits_def)
    qed
  qed
  then show ?thesis using old new lt unfolding log_fits_def by auto
qed

lemma discard_final: "status R n = Some s \<Longrightarrow> ''discard'' \<in> set (actions R n) \<Longrightarrow> s = ''discarded''"
  unfolding status_def by (rule run_actions_discard)

lemma tomb_target: "(n, d) \<in> set (tomb_of r) \<Longrightarrow> target r = Some (n, ''discard'')"
  by (cases "disposition_read (op_payload (rc_opened r))") (auto simp: tomb_of_def target_def split: if_splits)

lemma tomb_action: "(n, d) \<in> set (tombs R) \<Longrightarrow> ''discard'' \<in> set (actions R n)"
  using tomb_target by (fastforce simp: tombs_def actions_set)

lemma log_ok_extend:
  assumes ok: "log_ok R" and fits: "log_fits R" and ext: "extends R H r"
  shows "log_ok (R @ [r])"
proof -
  have asc: "ascending R" using ok by (simp add: log_ok_def)
  have "ascending (R @ [r])"
    using asc extends_fresh [OF asc ext] by (simp add: ascending_def sorted_wrt_append)
  moreover have "1 \<le> seq_of q \<and> readable q" if "q \<in> set (R @ [r])" for q
    using that ok ext last_seq_nonneg [OF ok] by (auto simp: log_ok_def extends_def)
  moreover have "distinct (map fst (tombs (R @ [r])))"
  proof -
    have new: "n \<notin> fst ` set (tombs R)" if r: "(n, d) \<in> set (tomb_of r)" for n d
    proof
      assume "n \<in> fst ` set (tombs R)"
      then obtain d' where "''discard'' \<in> set (actions R n)" using tomb_action by fastforce
      moreover have "target r = Some (n, ''discard'')" by (rule tomb_target [OF r])
      then obtain s s' where "status R n = Some s" "next_state s ''discard'' = Inr s'" using ext unfolding extends_def by blast
      ultimately show False using discard_final by (fastforce simp: next_state_def)
    qed
    have "distinct (map fst (tomb_of r))" by (auto simp: tomb_of_def split: option.split)
    moreover have "distinct (map fst (tombs R))" using ok by (simp add: log_ok_def)
    moreover have "fst ` set (tombs R) \<inter> fst ` set (tomb_of r) = {}"
    proof (rule equals0I)
      fix n assume "n \<in> fst ` set (tombs R) \<inter> fst ` set (tomb_of r)"
      then obtain d where "(n, d) \<in> set (tomb_of r)" "n \<in> fst ` set (tombs R)" by auto
      then show False using new by blast
    qed
    ultimately show ?thesis by simp
  qed
  moreover have "q = hd (R @ [r]) \<and> anchor_fits q" if "q \<in> set (R @ [r])" "op_type (rc_opened q) = ''anchor''" for q
    using that ext anchors_first [OF ok, of q] by (cases R) (auto simp: extends_def)
  ultimately show ?thesis unfolding log_ok_def by blast
qed

lemma unretried_extend:
  assumes ok: "log_ok R" and fits: "log_fits R" and ext: "extends R H r" and un: "unretried R"
  shows "unretried (R @ [r])"
  unfolding unretried_def
proof (intro allI impI)
  fix n assume dis: "status (R @ [r]) n = Some ''discarded''"
  show "''retry'' \<notin> set (actions (R @ [r]) n)"
  proof (cases "\<exists>a. target r = Some (n, a)")
    case True
    then obtain a s s' where a: "target r = Some (n, a)" "status R n = Some s" "next_state s a = Inr s'"
      and keep: "a = ''discard'' \<longrightarrow> ''retry'' \<notin> set (actions R n)"
      using ext unfolding extends_def by blast
    then have "s' = ''discarded''" using dis by (simp add: status_extend [OF ok fits ext])
    then have "a = ''discard''" using a(3) by (auto simp: next_state_def split: if_splits)
    then show ?thesis using keep a(1) by simp
  next
    case False
    then have "status R n = Some ''discarded''" using dis by (auto simp: status_extend [OF ok fits ext] split: option.splits if_splits)
    then show ?thesis using un False by (cases "target r") (auto simp: unretried_def)
  qed
qed

lemma start_extend: "op_type (rc_opened r) \<noteq> ''anchor'' \<Longrightarrow> start_of (R @ [r]) = start_of R"
  by (cases R) (simp_all add: start_of_def)

lemma linked_extend:
  assumes ok: "log_ok R" and link: "linked R H" and ext: "extends R H r"
  shows "linked (R @ [r]) (H(seq_of r := op_hash (rc_opened r)))"
proof -
  let ?H = "H(seq_of r := op_hash (rc_opened r))" and ?n = "fst (start_of R)"
  have asc: "ascending R" using ok by (simp add: log_ok_def)
  have seq: "seq_of r = last_seq 1 R + 1" using ext by (simp add: extends_def)
  have start: "start_of (R @ [r]) = start_of R" by (rule start_extend) (use ext in \<open>simp add: extends_def\<close>)
  have last: "last_seq 1 (R @ [r]) = seq_of r" by (simp add: last_seq_def)
  have le: "?n - 1 \<le> last_seq 1 R"
  proof (cases "R = []")
    case False
    then show ?thesis using start_le [OF ok, of "last R"] by (simp add: last_seq_def)
  qed (simp add: start_of_def last_seq_def)
  have no: "find (\<lambda>q. seq_of q = seq_of r) R = None"
    using extends_fresh [OF asc ext] by (fastforce simp: find_None_iff)
  have find: "find (\<lambda>q. seq_of q = m) (R @ [r]) = (if m = seq_of r then Some r else find (\<lambda>q. seq_of q = m) R)" for m
    using no by (induction R) (auto split: if_splits)
  have old: "chain_entry (R @ [r]) (tombs (R @ [r])) m = Some e"
    if "m \<noteq> seq_of r" "chain_entry R (tombs R) m = Some e" for m e
    using that by (auto simp: chain_entry_def find map_add_Some_iff split: option.splits)
  have "chain_entry (R @ [r]) (tombs (R @ [r])) m = Some (?H (m - 1), ?H m)" if "?n \<le> m" "m \<le> seq_of r" for m
  proof (cases "m = seq_of r")
    case True
    then show ?thesis using ext by (simp add: chain_entry_def find extends_def)
  next
    case False
    then have "chain_entry R (tombs R) m = Some (H (m - 1), H m)" using link that seq by (simp add: linked_def)
    then show ?thesis using old [OF False] False that(2) by simp
  qed
  moreover have "?H (?n - 1) = snd (start_of R)" using link le seq by (simp add: linked_def)
  ultimately show ?thesis by (simp add: linked_def start last)
qed

lemma place_extend:
  assumes ok: "log_ok R" and fits: "log_fits R" and ext: "extends R H r"
    and rest: "at_rest R" and x: "x \<in> set R"
  shows "place (R @ [r]) x =
     (case target r of
        Some (n, a) \<Rightarrow> if command_at R n = Some x then the (run_actions (the (status R n)) [a]) else st_dir (rc_stored x)
      | None \<Rightarrow> st_dir (rc_stored x))"
proof -
  have asc: "ascending R" using ok by (simp add: log_ok_def)
  have here: "place R x = st_dir (rc_stored x)" using rest x by (simp add: at_rest_def)
  show ?thesis
  proof (cases "\<exists>n a. target r = Some (n, a) \<and> command_at R n = Some x")
    case True
    then obtain n a where n: "target r = Some (n, a)" "command_at R n = Some x" by blast
    then have x': "op_type (rc_opened x) = ''command''" "seq_of x = n" using command_at_iff [OF asc] by blast+
    obtain s s' where "status R n = Some s" "next_state s a = Inr s'" using ext n(1) unfolding extends_def by blast
    then show ?thesis using n x' by (simp add: place_def status_extend [OF ok fits ext])
  next
    case False
    have "status (R @ [r]) (seq_of x) = status R (seq_of x)" if "op_type (rc_opened x) = ''command''"
    proof -
      have "command_at R (seq_of x) = Some x" using command_at_iff [OF asc] x that by blast
      then show ?thesis using False by (auto simp: status_extend [OF ok fits ext] split: option.split)
    qed
    then have "place (R @ [r]) x = place R x" by (simp add: place_def)
    then show ?thesis using here False by (auto split: option.split)
  qed
qed

lemma place_new:
  assumes ok: "log_ok R" and fits: "log_fits R" and ext: "extends R H r"
    and dir: "op_type (rc_opened r) = ''command'' \<longrightarrow> st_dir (rc_stored r) = ''pending''"
  shows "place (R @ [r]) r = st_dir (rc_stored r)"
proof (cases "op_type (rc_opened r) = ''command''")
  case True
  have asc: "ascending R" using ok by (simp add: log_ok_def)
  have "actions R (seq_of r) = []" by (rule actions_beyond [OF fits asc]) (use ext in \<open>simp add: extends_def\<close>)
  then show ?thesis using True dir by (simp add: place_def status_def)
qed (simp add: place_def)

definition stays :: "(recovered_record \<Rightarrow> string) \<Rightarrow> recovered_record \<Rightarrow> bool" where
  "stays f x \<longleftrightarrow> f x = st_dir (rc_stored x) \<and> f x \<noteq> ''discarded''"

lemma stays_simps: "stays f x \<Longrightarrow> moved_to (f x) x = x" "stays f x \<Longrightarrow> f x \<noteq> ''discarded''"
  unfolding stays_def by (metis moved_to_self, blast)

lemma settle_by_keep: "\<forall>x \<in> set xs. stays f x \<Longrightarrow> settle_by f xs = xs"
  by (induction xs) (simp_all add: stays_simps)

lemma settle_by_one:
  "distinct xs \<Longrightarrow> c \<in> set xs \<Longrightarrow> \<forall>x \<in> set xs. x \<noteq> c \<longrightarrow> stays f x \<Longrightarrow>
   settle_by f xs = (if f c = ''discarded'' then remove1 c xs else replace_first c (moved_to (f c) c) xs)"
proof (induction xs)
  case (Cons x xs)
  show ?case
  proof (cases "x = c")
    case True
    then have "settle_by f xs = xs" using Cons.prems by (intro settle_by_keep) auto
    then show ?thesis using True by simp
  next
    case False
    then have "stays f x" using Cons.prems by simp
    then show ?thesis using Cons False by (simp add: stays_simps)
  qed
qed simp

lemma settled_extend:
  assumes ok: "log_ok R" and fits: "log_fits R" and ext: "extends R H r" and rest: "at_rest R"
    and dir: "op_type (rc_opened r) = ''command'' \<longrightarrow> st_dir (rc_stored r) = ''pending''"
    and loc: "valid_location (rc_stored r)"
  shows "settled (R @ [r]) =
     (case target r of
        None \<Rightarrow> R @ [r]
      | Some (n, a) \<Rightarrow>
          (let c = the (command_at R n); s = the (run_actions (the (status R n)) [a])
           in if s = ''discarded'' then remove1 c (R @ [r]) else replace_first c (moved_to s c) (R @ [r])))"
proof -
  let ?f = "place (R @ [r])"
  have asc: "ascending (R @ [r])" using log_ok_extend [OF ok fits ext] by (simp add: log_ok_def)
  then have asc': "ascending R" using ok by (simp add: log_ok_def)
  have new: "?f r = st_dir (rc_stored r) \<and> ?f r \<noteq> ''discarded''"
    using place_new [OF ok fits ext dir] loc by (auto simp: valid_location_def)
  have old: "x \<in> set R \<Longrightarrow> st_dir (rc_stored x) \<noteq> ''discarded''" for x using rest by (simp add: at_rest_def)
  show ?thesis
  proof (cases "target r")
    case None
    then have "\<forall>x \<in> set (R @ [r]). stays ?f x"
      using new old place_extend [OF ok fits ext rest] by (auto simp: stays_def)
    then show ?thesis using None by (simp add: settled_by settle_by_keep)
  next
    case (Some t)
    obtain n a where t: "t = (n, a)" by (cases t)
    obtain c where c: "command_at R n = Some c" using ext Some t unfolding extends_def by blast
    then have cR: "c \<in> set R" using command_at_iff [OF asc'] by blast
    have "\<forall>x \<in> set (R @ [r]). x \<noteq> c \<longrightarrow> stays ?f x"
      using new old place_extend [OF ok fits ext rest] Some t c by (auto simp: stays_def)
    moreover have "?f c = the (run_actions (the (status R n)) [a])"
      using place_extend [OF ok fits ext rest cR] Some t c by simp
    ultimately show ?thesis
      using settle_by_one [OF ascending_distinct [OF asc], of c ?f] cR Some t c by (simp add: settled_by Let_def)
  qed
qed

end
