(* ===== verification/SpoolAtomic.thy ===== *)
theory SpoolAtomic
  imports SpoolExtend
begin

text \<open>
  A change of the spool is the append of one record, then the move or removal of the command it is about, then
  a new recovery cursor. Every prefix of its system calls leaves a disk recovery accepts: before the record has
  its name the log is the old one, from then on it is the new one.
\<close>

section \<open>Crashes\<close>

definition crash_after :: "nat \<Rightarrow> 'b fs_step list \<Rightarrow> 'b disk \<Rightarrow> 'b disk" where
  "crash_after k trace d = fold apply_step (take k trace) d"

definition recovers_to :: "'b spool_env \<Rightarrow> recovered_record list \<Rightarrow> 'b disk \<Rightarrow> bool" where
  "recovers_to env R' d \<longleftrightarrow> (\<exists>C H R head cursor. recoverable env C H R head cursor d \<and> unretried R \<and>
     (\<forall>n. 0 \<le> n \<longrightarrow> n \<le> last_seq 1 R \<longrightarrow> hex_text 64 (H n)) \<and> settled R = R')"

fun all_recover :: "'b spool_env \<Rightarrow> recovered_record list \<Rightarrow> 'b fs_step list \<Rightarrow> 'b disk \<Rightarrow> bool" where
  "all_recover env R [] d = recovers_to env R d"
| "all_recover env R (st # sts) d = (recovers_to env R d \<and> all_recover env R sts (apply_step st d))"

lemma all_recover_crash: "all_recover env R trace d \<Longrightarrow> k \<le> length trace \<Longrightarrow> recovers_to env R (crash_after k trace d)"
proof (induction trace arbitrary: k d)
  case Nil
  then show ?case by (simp add: crash_after_def)
next
  case (Cons st trace)
  then show ?case by (cases k) (auto simp: crash_after_def)
qed

lemma all_recover_append:
  "all_recover env R (xs @ ys) d \<longleftrightarrow> (\<forall>k < length xs. recovers_to env R (crash_after k xs d)) \<and>
     all_recover env R ys (fold apply_step xs d)"
proof (induction xs arbitrary: d)
  case (Cons x xs)
  have "(\<forall>k < length (x # xs). recovers_to env R (crash_after k (x # xs) d)) \<longleftrightarrow>
      recovers_to env R d \<and> (\<forall>k < length xs. recovers_to env R (crash_after k xs (apply_step x d)))"
    by (simp add: crash_after_def All_less_Suc2)
  then show ?case using Cons by simp
qed simp

definition slack :: "nat \<Rightarrow> 'b spool_env \<Rightarrow> recovered_record list \<Rightarrow> 'b disk \<Rightarrow> bool" where
  "slack k env R d \<longleftrightarrow> length R + length (dk_temps d) + dk_evidence d + k \<le> se_scan env"

lemma rested_recoverable:
  assumes "rested env C H R s d" and "well_formed R H" and "room env R d"
  shows "recoverable env C H R (ss_head s) (ss_cursor s) d"
proof -
  have ok: "log_ok R" "log_fits R" "linked R H" and hex: "hex_text 64 (H (last_seq 1 R))"
    using assms(2) last_seq_nonneg by (auto simp: well_formed_def)
  have start: "fst (start_of R) \<le> last_seq 1 R \<or> fst (start_of R) = 1 \<and> last_seq 1 R = 0"
  proof (cases "R = []")
    case False
    then show ?thesis using start_le [OF ok(1), of "last R"] by (simp add: last_seq_def)
  qed (simp add: start_of_def last_seq_def)
  then have "head_fits R H (ss_head s)" "cursor_fits R H (ss_cursor s)"
    using assms(1) last_seq_nonneg [OF ok(1)] by (auto simp: rested_def head_fits_def cursor_fits_def)
  then show ?thesis using assms ok hex by (auto simp: recoverable_def rested_def)
qed

lemma temp_ok: "env_ok env \<Longrightarrow> temp_name_ok (temp_name env name)"
  by (auto simp: temp_name_ok_def temp_name_def env_ok_def uuid_like_def)

lemma recoverable_temp:
  assumes "recoverable env C H R h c d" and "env_ok env" and "slack 1 env R d"
  shows "recoverable env C H R h c (apply_step (WriteTemp (temp_name env name) data) d)"
  using assms temp_ok [OF assms(2)]
  by (cases c) (auto simp: recoverable_def holds_def room_def slack_def head_on_def cursor_on_def)

lemma recovers_temp:
  assumes "recoverable env C H R h c d" and "env_ok env" and "slack 1 env R d" and "unretried R"
    and "\<forall>n. 0 \<le> n \<longrightarrow> n \<le> last_seq 1 R \<longrightarrow> hex_text 64 (H n)"
  shows "recovers_to env (settled R) (apply_step (WriteTemp (temp_name env name) data) d)"
  using recoverable_temp [OF assms(1-3)] assms(4,5) unfolding recovers_to_def by blast

section \<open>The states of an append\<close>

lemma start_before: "log_ok R \<Longrightarrow> fst (start_of R) - 1 \<le> last_seq 1 R"
  by (cases "R = []") (use start_le [of R "last R"] in \<open>auto simp: start_of_def last_seq_def\<close>)

lemma well_formed_extend:
  assumes "well_formed R H" and "extends R H r" and "hex_text 64 (op_hash (rc_opened r))"
  shows "well_formed (R @ [r]) (H(seq_of r := op_hash (rc_opened r)))"
proof -
  have wf: "log_ok R" "log_fits R" "linked R H" "unretried R" and hex: "\<forall>n. 0 \<le> n \<longrightarrow> n \<le> last_seq 1 R \<longrightarrow> hex_text 64 (H n)"
    using assms(1) by (auto simp: well_formed_def)
  have "last_seq 1 (R @ [r]) = last_seq 1 R + 1" using assms(2) by (simp add: last_seq_def extends_def)
  then show ?thesis
    using log_ok_extend [OF wf(1,2) assms(2)] log_fits_extend [OF wf(1,2) assms(2)] linked_extend [OF wf(1,3) assms(2)]
      unretried_extend [OF wf(1,2) assms(2) wf(4)] hex assms(2,3)
    by (auto simp: well_formed_def extends_def)
qed

lemma well_formed_settled:
  assumes "well_formed R H" and "located R"
  shows "well_formed (settled R) H"
  using assms log_ok_settled log_fits_settled linked_settled unretried_settled settled_last
  unfolding well_formed_def by metis

lemma recovers_well_formed:
  assumes "well_formed R H" and "holds env C R d" and "room env R d" and "list_all temp_name_ok (dk_temps d)"
    and "head_on env d h" and "head_fits R H h" and "cursor_on env d c" and "cursor_fits R H c"
  shows "recovers_to env (settled R) d"
proof -
  have "recoverable env C H R h c d"
    using assms last_seq_nonneg [of R] by (auto simp: recoverable_def well_formed_def)
  then show ?thesis using assms(1) unfolding recovers_to_def well_formed_def by blast
qed

section \<open>The states of a change\<close>

lemma append_states:
  fixes env :: "'b spool_env"
  assumes rested: "rested env C H R s d" and wf: "well_formed R H" and env: "env_ok env" and room: "slack 2 env R d"
    and ext: "extends R H r" and entry: "entry_ok env data r" and hex: "hex_text 64 (op_hash (rc_opened r))"
  defines "t \<equiv> temp_name env (st_name (rc_stored r))"
    and "next \<equiv> \<lparr>hd_seq = seq_of r, hd_hash = op_hash (rc_opened r)\<rparr>"
  defines "d2 \<equiv> apply_step (InstallRecord t (st_dir (rc_stored r)) (st_name (rc_stored r)) data) (apply_step (WriteTemp t data) d)"
  shows "recovers_to env R d" and "recovers_to env R (apply_step (WriteTemp t data) d)"
    and "recovers_to env (settled (R @ [r])) d2"
    and "recovers_to env (settled (R @ [r])) (apply_step (WriteTemp (temp_name env ''head'') x) d2)"
    and "holds env (C(seq_of r := data)) (R @ [r]) d2" and "dk_temps d2 = []" and "dk_evidence d2 = dk_evidence d"
    and "head_on env (written env ''head'' (se_sign env (head_dump next)) d2) next"
    and "cursor_on env d2 (ss_cursor s)" and "cursor_fits (R @ [r]) (H(seq_of r := op_hash (rc_opened r))) (ss_cursor s)"
proof -
  let ?C = "C(seq_of r := data)" and ?H = "H(seq_of r := op_hash (rc_opened r))" and ?R = "R @ [r]"
  have ok: "log_ok R" "log_fits R" "linked R H" "unretried R" and hexes: "\<forall>n. 0 \<le> n \<longrightarrow> n \<le> last_seq 1 R \<longrightarrow> hex_text 64 (H n)"
    using wf by (auto simp: well_formed_def)
  have held: "holds env C R d" and temps: "dk_temps d = []" and rest: "at_rest R"
    and head: "head_on env d (ss_head s)" "ss_head s = \<lparr>hd_seq = last_seq 1 R, hd_hash = H (last_seq 1 R)\<rparr>"
    and cur: "cursor_on env d (ss_cursor s)"
    using rested by (auto simp: rested_def)
  have asc: "ascending R" using ok(1) by (simp add: log_ok_def)
  have rec: "recoverable env C H R (ss_head s) (ss_cursor s) d"
    by (rule rested_recoverable [OF rested wf]) (use room in \<open>simp add: slack_def room_def\<close>)
  then show "recovers_to env R d"
    using ok(4) hexes settled_at_rest [OF rest] unfolding recovers_to_def by blast
  show "recovers_to env R (apply_step (WriteTemp t data) d)"
    using recovers_temp [OF rec env _ ok(4) hexes, of "st_name (rc_stored r)" data] room settled_at_rest [OF rest]
    by (simp add: slack_def t_def)
  have held1: "holds env C R (apply_step (WriteTemp t data) d)" using held by (simp add: holds_def)
  have fresh: "\<forall>q \<in> set R. seq_of q < seq_of r" using extends_fresh [OF asc ext] by blast
  show held2: "holds env ?C ?R d2"
    unfolding d2_def by (rule holds_install [OF held1 entry fresh])
  show temps2: "dk_temps d2 = []" using temps by (simp add: d2_def)
  show ev2: "dk_evidence d2 = dk_evidence d" by (simp add: d2_def)
  have control: "dk_control d2 = dk_control d" by (simp add: d2_def)
  show cur2: "cursor_on env d2 (ss_cursor s)" using cur cursor_on_cong control by metis
  have wf2: "well_formed ?R ?H" by (rule well_formed_extend [OF wf ext hex])
  have seq: "seq_of r = last_seq 1 R + 1" using ext by (simp add: extends_def)
  have last: "last_seq 1 ?R = seq_of r" by (simp add: last_seq_def)
  have start: "start_of ?R = start_of R" by (rule start_extend) (use ext in \<open>simp add: extends_def\<close>)
  have old: "head_fits R H (ss_head s)" "cursor_fits R H (ss_cursor s)"
    using rec by (simp_all add: recoverable_def)
  then have hfits: "head_fits ?R ?H (ss_head s)" using seq by (auto simp: head_fits_def start last)
  show cfits: "cursor_fits ?R ?H (ss_cursor s)"
    using old(2) seq by (cases "ss_cursor s") (auto simp: cursor_fits_def start last)
  have head2: "head_on env d2 (ss_head s)" using head(1) control head_on_cong by metis
  have room2: "room env ?R d2" using room temps2 ev2 temps by (simp add: room_def slack_def)
  have wf2': "log_ok ?R" "log_fits ?R" "linked ?R ?H" "unretried ?R" "\<forall>n. 0 \<le> n \<longrightarrow> n \<le> last_seq 1 ?R \<longrightarrow> hex_text 64 (?H n)"
    using wf2 unfolding well_formed_def by blast+
  have rec2: "recoverable env ?C ?H ?R (ss_head s) (ss_cursor s) d2"
    unfolding recoverable_def using held2 room2 wf2' hfits cfits cur2 head2 temps2 last hex by simp
  then show "recovers_to env (settled ?R) d2" using wf2' unfolding recovers_to_def by blast
  show "recovers_to env (settled ?R) (apply_step (WriteTemp (temp_name env ''head'') x) d2)"
    by (rule recovers_temp [OF rec2 env _ wf2'(4,5)]) (use room temps2 ev2 temps in \<open>simp add: slack_def\<close>)
  have "valid_head next" using holds_number [OF held2] hex by (auto simp: valid_head_def next_def last valid_number_def)
  then show "head_on env (written env ''head'' (se_sign env (head_dump next)) d2) next" by (rule head_on_written [OF env])
qed

text \<open>The record is in place and the head names it; the session moves or removes the command and checkpoints.\<close>

lemma head_fits_end:
  assumes "log_ok R"
  shows "head_fits R H \<lparr>hd_seq = last_seq 1 R, hd_hash = H (last_seq 1 R)\<rparr>"
proof (cases "R = []")
  case True
  then show ?thesis by (simp add: head_fits_def last_seq_def start_of_def)
next
  case False
  then have "fst (start_of R) \<le> last_seq 1 R" using start_le [OF assms, of "last R"] by (simp add: last_seq_def)
  then show ?thesis using last_seq_nonneg [OF assms] by (simp add: head_fits_def)
qed

lemma finish_states:
  fixes env :: "'b spool_env"
  assumes wf: "well_formed R H" and env: "env_ok env" and room: "slack 1 env R d" and temps: "dk_temps d = []"
    and held: "holds env C R d" and head: "head_on env d \<lparr>hd_seq = last_seq 1 R, hd_hash = H (last_seq 1 R)\<rparr>"
    and cur: "cursor_on env d c" "cursor_fits R H c" and old: "\<And>c'. c = Some c' \<Longrightarrow> cu_seq c' \<noteq> last_seq 1 R"
    and held': "holds env C (settled R) d'" and same: "same_controls d d'"
  defines "next \<equiv> \<lparr>hd_seq = last_seq 1 R, hd_hash = H (last_seq 1 R)\<rparr>"
  defines "cursor \<equiv> expected_cursor next (settled R)"
  shows "recovers_to env (settled R) d" and "recovers_to env (settled R) d'"
    and "recovers_to env (settled R) (apply_step (WriteTemp (temp_name env ''recovery'') x) d')"
    and "recovers_to env (settled R) (written env ''recovery'' (se_sign env (cursor_dump cursor)) d')"
    and "rested env C H (settled R) \<lparr>ss_head = next, ss_records = settled R, ss_corrupt = [], ss_cursor = Some cursor, ss_torn = k\<rparr>
      (written env ''recovery'' (se_sign env (cursor_dump cursor)) d')"
    and "well_formed (settled R) H"
proof -
  let ?R = "settled R" and ?d7 = "written env ''recovery'' (se_sign env (cursor_dump cursor)) d'"
  have ok: "log_ok R" "log_fits R" "linked R H" and hexes: "\<forall>n. 0 \<le> n \<longrightarrow> n \<le> last_seq 1 R \<longrightarrow> hex_text 64 (H n)"
    using wf by (auto simp: well_formed_def)
  have loc: "located R" by (rule holds_located [OF held])
  have rest: "at_rest ?R" by (rule settled_rest [OF loc])
  show wf': "well_formed ?R H" by (rule well_formed_settled [OF wf loc])
  have ok': "log_ok ?R" "log_fits ?R" "linked ?R H" "unretried ?R" "\<forall>n. 0 \<le> n \<longrightarrow> n \<le> last_seq 1 ?R \<longrightarrow> hex_text 64 (H n)"
    using wf' unfolding well_formed_def by blast+
  have last: "last_seq 1 ?R = last_seq 1 R" and start: "start_of ?R = start_of R"
    using settled_last [OF ok(1,2) loc] settled_start [OF ok(1,2) loc] by blast+
  have fits: "head_fits R H next" unfolding next_def by (rule head_fits_end [OF ok(1)])
  have fits2: "head_fits ?R H next" using head_fits_end [OF ok'(1), of H] by (simp add: next_def last)
  have temps_ok: "list_all temp_name_ok (dk_temps d)" "room env R d" using temps room by (simp_all add: slack_def room_def)
  show "recovers_to env ?R d"
    by (rule recovers_well_formed [OF wf held temps_ok(2,1) head [folded next_def] fits cur])
  have len: "length ?R \<le> length R" by (simp add: settled_def)
  have head': "head_on env d' next" using head same by (simp add: head_on_def next_def same_controls_def)
  have cur': "cursor_on env d' c" 
  proof -
    have "dk_control d' ''recovery'' = dk_control d ''recovery''" using same by (simp add: same_controls_def)
    from cursor_on_cong [OF this] show ?thesis using cur(1) by blast
  qed
  have fits': "cursor_fits ?R H c" using cur(2) old by (cases c) (auto simp: cursor_fits_def start last)
  have room': "room env ?R d'" "slack 1 env ?R d'" "dk_temps d' = []"
  proof -
    have same': "dk_temps d' = dk_temps d" "dk_evidence d' = dk_evidence d" using same unfolding same_controls_def by blast+
    then show "dk_temps d' = []" using temps by simp
    have "length R + 0 + dk_evidence d + 1 \<le> se_scan env" using room unfolding slack_def temps list.size(3) .
    then show "room env ?R d'" "slack 1 env ?R d'"
      unfolding room_def slack_def same' temps list.size(3) using len by linarith+
  qed
  have rec': "recoverable env C H ?R next c d'"
    unfolding recoverable_def using held' room' ok' head' fits2 cur' fits' last_seq_nonneg [OF ok'(1)] by simp
  then show "recovers_to env ?R d'"
    using ok'(4,5) settled_at_rest [OF rest] unfolding recovers_to_def by blast
  show "recovers_to env ?R (apply_step (WriteTemp (temp_name env ''recovery'') x) d')"
    using recovers_temp [OF rec' env room'(2) ok'(4,5)] unfolding settled_at_rest [OF rest] .
  have "valid_cursor cursor"
    using holds_number [OF held] last_seq_nonneg [OF ok(1)] hexes state_digest_hex
    by (auto simp: valid_cursor_def cursor_def expected_cursor_def next_def valid_number_def)
  then have cur7: "cursor_on env ?d7 (Some cursor)" by (rule cursor_on_written [OF env])
  have head7: "head_on env ?d7 next" using head' by (simp add: head_on_def written_simps)
  have held7: "holds env C ?R ?d7" using held' by (simp add: holds_def written_simps)
  show rested: "rested env C H ?R \<lparr>ss_head = next, ss_records = ?R, ss_corrupt = [], ss_cursor = Some cursor, ss_torn = k\<rparr> ?d7"
    using cur7 head7 held7 rest room'(3) by (simp add: rested_def written_simps last next_def cursor_def expected_cursor_def)
  have "room env ?R ?d7" using room' by (simp add: room_def written_simps)
  from rested_recoverable [OF rested wf' this] show "recovers_to env ?R ?d7"
    using ok'(4,5) settled_at_rest [OF rest] unfolding recovers_to_def by blast
qed

lemma recovers_to_run:
  assumes "recovers_to env R' d" and "env_ok env"
  shows "\<exists>s' w'. recover_session env True \<lparr>wd_disk = d, wd_trace = tr\<rparr> = (Inr s', w') \<and> ss_corrupt s' = [] \<and> ss_records s' = R'"
proof -
  obtain C H R head cursor where rec: "recoverable env C H R head cursor d" "settled R = R'"
    using assms(1) unfolding recovers_to_def by blast
  show ?thesis
    using recover_rests [of env C H R head cursor "\<lparr>wd_disk = d, wd_trace = tr\<rparr>"] rec assms(2) by (auto simp: rested_def)
qed

text \<open>The system calls that settle the extended log.\<close>

definition settling :: "recovered_record list \<Rightarrow> recovered_record \<Rightarrow> 'b fs_step list" where
  "settling R r =
     (case target r of
        None \<Rightarrow> []
      | Some (n, a) \<Rightarrow>
          (let c = the (command_at R n); s = the (run_actions (the (status R n)) [a])
           in if s = ''discarded'' then [Unlink (st_dir (rc_stored c)) (st_name (rc_stored c))]
              else [Relocate (st_name (rc_stored c)) (st_dir (rc_stored c)) s]))"

lemma rest_status:
  assumes "ascending R" and "at_rest R" and "command_at R n = Some c" and "status R n = Some s"
  shows "st_dir (rc_stored c) = s"
proof -
  have c: "c \<in> set R" "op_type (rc_opened c) = ''command''" "seq_of c = n" using command_at_iff [OF assms(1)] assms(3) by blast+
  then have "place R c = s" using assms(4) by (simp add: place_def)
  then show ?thesis using assms(2) c(1) by (metis at_rest_def)
qed

lemma next_state_moves: "next_state s a = Inr s' \<Longrightarrow> s' \<noteq> s \<and> s' \<in> {''pending'', ''accepted'', ''quarantine'', ''discarded''}"
  by (auto simp: next_state_def split: if_splits)

lemma settling_holds:
  fixes env :: "'b spool_env"
  assumes ok: "log_ok R" and fits: "log_fits R" and ext: "extends R H r" and rest: "at_rest R"
    and dir: "op_type (rc_opened r) = ''command'' \<longrightarrow> st_dir (rc_stored r) = ''pending''"
    and held: "holds env C (R @ [r]) d"
  shows "holds env C (settled (R @ [r])) (fold apply_step (settling R r) d) \<and> same_controls d (fold apply_step (settling R r) d)"
proof -
  have asc: "ascending R" using ok by (simp add: log_ok_def)
  have loc: "valid_location (rc_stored r)" using holds_located [OF held] by (simp add: located_def)
  note settled = settled_extend [OF ok fits ext rest dir loc]
  show ?thesis
  proof (cases "target r")
    case None
    then show ?thesis using held settled by (simp add: settling_def)
  next
    case (Some t)
    obtain n a where t: "t = (n, a)" by (cases t)
    obtain c s s' where c: "command_at R n = Some c" "status R n = Some s" "next_state s a = Inr s'"
      using ext Some t unfolding extends_def by blast
    have cR: "c \<in> set (R @ [r])" and kind: "op_type (rc_opened c) = ''command''" using command_at_iff [OF asc] c(1) by auto
    have run: "the (run_actions (the (status R n)) [a]) = s'" using c by simp
    show ?thesis
    proof (cases "s' = ''discarded''")
      case True
      then have "settled (R @ [r]) = remove1 c (R @ [r])" using settled Some t c run by (simp add: Let_def)
      moreover have "settling R r = ([Unlink (st_dir (rc_stored c)) (st_name (rc_stored c))] :: 'b fs_step list)"
        using Some t c run True by (simp add: settling_def Let_def)
      ultimately show ?thesis
        using holds_unlink [OF held cR] same_controls_step(1) [of d] by (simp del: apply_step.simps)
    next
      case False
      have "s' \<noteq> st_dir (rc_stored c)" using next_state_moves [OF c(3)] rest_status [OF asc rest c(1,2)] by blast
      moreover have "st_kind (rc_stored c) = ''command''"
        using holds_located [OF held] cR kind unfolding located_def by metis
      then have "valid_location (rc_stored (moved_to s' c))"
        using next_state_moves [OF c(3)] False by (auto simp: valid_location_def)
      ultimately have "holds env C (replace_first c (moved_to s' c) (R @ [r]))
          (apply_step (Relocate (st_name (rc_stored c)) (st_dir (rc_stored c)) s') d)"
        by (intro holds_relocate [OF held cR])
      moreover have "settled (R @ [r]) = replace_first c (moved_to s' c) (R @ [r])"
        using settled Some t c run False by (simp add: Let_def)
      moreover have "settling R r = ([Relocate (st_name (rc_stored c)) (st_dir (rc_stored c)) s'] :: 'b fs_step list)"
        using Some t c run False by (simp add: settling_def Let_def)
      ultimately show ?thesis using same_controls_step(2) [of d] by (simp del: apply_step.simps)
    qed
  qed
qed

lemma settling_short: "settling R r = [] \<or> (\<exists>f. settling R r = [f])"
  by (auto simp: settling_def Let_def split: option.split)

text \<open>The whole trace of a change, from one rest state to the next.\<close>

definition change_trace :: "'b spool_env \<Rightarrow> recovered_record list \<Rightarrow> recovered_record \<Rightarrow> 'b \<Rightarrow> 'b fs_step list" where
  "change_trace env R r data =
     (let next = \<lparr>hd_seq = seq_of r, hd_hash = op_hash (rc_opened r)\<rparr>;
          t = temp_name env (st_name (rc_stored r)); th = temp_name env ''head'';
          hd = se_sign env (head_dump next) in
      [WriteTemp t data, InstallRecord t (st_dir (rc_stored r)) (st_name (rc_stored r)) data,
       WriteTemp th hd, InstallControl th ''head'' hd] @ settling R r)"

definition checkpoint_trace :: "'b spool_env \<Rightarrow> recovered_record list \<Rightarrow> recovered_record \<Rightarrow> 'b fs_step list" where
  "checkpoint_trace env R r =
     (let t = temp_name env ''recovery'';
          cur = se_sign env (cursor_dump (expected_cursor \<lparr>hd_seq = seq_of r, hd_hash = op_hash (rc_opened r)\<rparr> (settled (R @ [r])))) in
      [WriteTemp t cur, InstallControl t ''recovery'' cur])"

lemma written_steps:
  "apply_step (InstallControl (temp_name env name) name data) (apply_step (WriteTemp (temp_name env name) data) d) =
     written env name data d"
  by (simp only: written_def)

lemma change_recovers:
  fixes env :: "'b spool_env"
  assumes rested: "rested env C H R s d" and wf: "well_formed R H" and env: "env_ok env" and room: "slack 2 env R d"
    and ext: "extends R H r" and entry: "entry_ok env data r" and hex: "hex_text 64 (op_hash (rc_opened r))"
    and dir: "op_type (rc_opened r) = ''command'' \<longrightarrow> st_dir (rc_stored r) = ''pending''"
  defines "T \<equiv> change_trace env R r data @ checkpoint_trace env R r"
    and "H' \<equiv> H(seq_of r := op_hash (rc_opened r))"
    and "next \<equiv> \<lparr>hd_seq = seq_of r, hd_hash = op_hash (rc_opened r)\<rparr>"
  shows "k \<le> length T \<Longrightarrow> recovers_to env (if k < 2 then R else settled (R @ [r])) (crash_after k T d)"
    and "rested env (C(seq_of r := data)) H' (settled (R @ [r]))
      \<lparr>ss_head = next, ss_records = settled (R @ [r]), ss_corrupt = [],
       ss_cursor = Some (expected_cursor next (settled (R @ [r]))), ss_torn = j\<rparr> (fold apply_step T d)"
    and "well_formed (settled (R @ [r])) H'"
proof -
  let ?R = "R @ [r]" and ?C = "C(seq_of r := data)"
  let ?t = "temp_name env (st_name (rc_stored r))" and ?th = "temp_name env ''head''" and ?tr = "temp_name env ''recovery''"
  let ?hd = "se_sign env (head_dump next)" and ?cur = "se_sign env (cursor_dump (expected_cursor next (settled ?R)))"
  let ?d1 = "apply_step (WriteTemp ?t data) d"
  let ?d2 = "apply_step (InstallRecord ?t (st_dir (rc_stored r)) (st_name (rc_stored r)) data) ?d1"
  let ?d4 = "written env ''head'' ?hd ?d2"
  let ?d5 = "fold apply_step (settling R r) ?d4"
  have ok: "log_ok R" "log_fits R" and rest: "at_rest R" using wf rested by (auto simp: well_formed_def rested_def)
  note A = append_states [OF rested wf env room ext entry hex, folded next_def]
  have wf2: "well_formed ?R H'" unfolding H'_def by (rule well_formed_extend [OF wf ext hex])
  have last: "last_seq 1 ?R = seq_of r" by (simp add: last_seq_def)
  then have end_head: "\<lparr>hd_seq = last_seq 1 ?R, hd_hash = H' (last_seq 1 ?R)\<rparr> = next" by (simp add: H'_def next_def)
  have head4: "head_on env ?d4 \<lparr>hd_seq = last_seq 1 ?R, hd_hash = H' (last_seq 1 ?R)\<rparr>" unfolding end_head by (rule A(8))
  have temps: "dk_temps ?d4 = []" by (rule written_simps(4) [OF A(6)])
  have held4: "holds env ?C ?R ?d4" unfolding holds_cong [OF written_simps(1)] by (rule A(5))
  have room4: "slack 1 env ?R ?d4"
  proof -
    have "dk_temps d = []" using rested by (simp add: rested_def)
    then have "length R + dk_evidence d + 2 \<le> se_scan env" using room by (simp add: slack_def)
    moreover have "dk_evidence ?d4 = dk_evidence d" using A(7) by (simp only: written_simps)
    ultimately show ?thesis unfolding slack_def temps by simp
  qed
  have cur4: "cursor_on env ?d4 (ss_cursor s)"
  proof -
    have "dk_control ?d4 ''recovery'' = dk_control ?d2 ''recovery''" unfolding written_simps(3) by simp
    from cursor_on_cong [OF this] show ?thesis using A(9) by blast
  qed
  have old: "cu_seq c' \<noteq> last_seq 1 ?R" if "ss_cursor s = Some c'" for c'
    using rested that ext by (auto simp: rested_def last extends_def)
  have held5: "holds env ?C (settled ?R) ?d5" "same_controls ?d4 ?d5"
    using settling_holds [OF ok ext rest dir held4] by blast+
  note F = finish_states [OF wf2 env room4 temps held4 head4 cur4 A(10) [folded H'_def] old held5, unfolded end_head]
  show "rested env ?C H' (settled ?R)
      \<lparr>ss_head = next, ss_records = settled ?R, ss_corrupt = [],
       ss_cursor = Some (expected_cursor next (settled ?R)), ss_torn = j\<rparr> (fold apply_step T d)"
    using F(5) by (simp add: T_def change_trace_def checkpoint_trace_def next_def Let_def written_def del: apply_step.simps)
  show "well_formed (settled ?R) H'" by (rule F(6))
  have short: "settling R r = ([] :: 'b fs_step list) \<or> (\<exists>f :: 'b fs_step. settling R r = [f])" by (rule settling_short)
  have tail: "all_recover env (settled ?R)
      ([WriteTemp ?th ?hd, InstallControl ?th ''head'' ?hd] @ settling R r @ [WriteTemp ?tr ?cur, InstallControl ?tr ''recovery'' ?cur]) ?d2"
    using short A(3,4) F(1-4)
    by (elim disjE exE) (simp_all add: written_steps del: apply_step.simps)
  have T: "T = WriteTemp ?t data # InstallRecord ?t (st_dir (rc_stored r)) (st_name (rc_stored r)) data #
      ([WriteTemp ?th ?hd, InstallControl ?th ''head'' ?hd] @ settling R r @ [WriteTemp ?tr ?cur, InstallControl ?tr ''recovery'' ?cur])"
    by (simp add: T_def change_trace_def checkpoint_trace_def next_def Let_def)
  show "recovers_to env (if k < 2 then R else settled ?R) (crash_after k T d)" if k: "k \<le> length T"
  proof (cases "k < 2")
    case True
    then have "k = 0 \<or> k = 1" by auto
    then show ?thesis using A(1,2) unfolding T by (auto simp: crash_after_def simp del: apply_step.simps)
  next
    case False
    then obtain j where j: "k = Suc (Suc j)" by (metis One_nat_def less_2_cases_iff not0_implies_Suc)
    show ?thesis
      using all_recover_crash [OF tail, of j] k False unfolding T j by (simp add: crash_after_def del: apply_step.simps)
  qed
qed

end
