(* ===== verification/SpoolChange.thy ===== *)
theory SpoolChange
  imports SpoolAtomic
begin

text \<open>
  The changes a session makes, each by its function of \<open>interface.py\<close> or \<open>_replay.py\<close>, and that each
  is one append with its settling.
\<close>

section \<open>Changes\<close>

datatype change =
    Enqueue spool_config string "string option" datetime spool_command
  | Acknowledge datetime recovered_record command_envelope replay_response
  | SetAside datetime recovered_record string "members option" "server_refusal option"
  | Dispose int string string datetime

fun perform :: "'b spool_env \<Rightarrow> change \<Rightarrow> session \<Rightarrow> ('b, session) io" where
  "perform env (Enqueue cf origin binding now c) s =
     bindIO (enqueue_in env cf origin binding now c s) (\<lambda>(_, s). pureIO (Inr s))"
| "perform env (Acknowledge now r e response) s = accept_command env now r e response s"
| "perform env (SetAside now r reason response refused) s = quarantine_command env now r reason response refused s"
| "perform env (Dispose n act reason now) s =
     bindIO (disposition_in env n act reason None now s) (\<lambda>(_, s). pureIO (Inr s))"

definition commit :: "'b spool_env \<Rightarrow> change \<Rightarrow> session \<Rightarrow> ('b, session) io" where
  "commit env ch s = bindIO (perform env ch s) (checkpoint_recovery env)"

text \<open>
  How the callers use them: on a pending command of the session with its payload, with a reason the receipt
  model accepts, with the documents in the order \<open>canonical_json\<close> writes them, and (for the discard of a
  command) when it was not retried before.
\<close>

definition canonical :: "json \<Rightarrow> bool" where
  "canonical v \<longleftrightarrow> json_canon v = v"

definition pending_command :: "recovered_record list \<Rightarrow> recovered_record \<Rightarrow> bool" where
  "pending_command R r \<longleftrightarrow> r \<in> set R \<and> op_type (rc_opened r) = ''command'' \<and> st_dir (rc_stored r) = ''pending''"

fun admissible :: "recovered_record list \<Rightarrow> change \<Rightarrow> bool" where
  "admissible R (Enqueue cf origin binding now c) \<longleftrightarrow> canonical (JObj (sc_path c)) \<and> canonical (JObj (sc_body c))"
| "admissible R (Acknowledge now r e response) \<longleftrightarrow>
     pending_command R r \<and> command_payload (rc_opened r) = Inr e \<and> 200 \<le> rp_status response \<and> rp_status response \<le> 299 \<and>
     canonical (opt_obj (rp_response response))"
| "admissible R (SetAside now r reason response refused) \<longleftrightarrow>
     pending_command R r \<and> reason_name reason \<and> valid_refusal refused"
| "admissible R (Dispose n act reason now) \<longleftrightarrow>
     act \<in> {''retry'', ''discard''} \<and> (act = ''discard'' \<longrightarrow> ''retry'' \<notin> set (actions R n))"

section \<open>Canonical payloads\<close>

lemma opt_text_canon [simp]: "json_canon (opt_text s) = opt_text s"
  by (simp add: opt_text_def split: option.split)

lemma envelope_canon:
  "canonical (JObj (ce_path e)) \<Longrightarrow> canonical (JObj (ce_body e)) \<Longrightarrow> json_canon (JObj (envelope_dump e)) = JObj (envelope_dump e)"
  by (simp add: envelope_dump_def canonical_def)

lemma accepted_canon: "canonical (opt_obj (ar_response r)) \<Longrightarrow> json_canon (JObj (accepted_dump r)) = JObj (accepted_dump r)"
  by (simp add: accepted_dump_def canonical_def json_canon_strings)

lemma quarantine_canon: "json_canon (JObj (quarantine_dump q)) = JObj (quarantine_dump q)"
  by (simp add: quarantine_dump_def refusal_dump_def split: option.split)

lemma disposition_canon: "json_canon (JObj (disposition_dump d)) = JObj (disposition_dump d)"
  by (simp add: disposition_dump_def)


section \<open>One append\<close>

lemma commands_find:
  assumes "ascending R" and "find (\<lambda>r. st_seq (rc_stored r) = n) (filter (\<lambda>r. op_type (rc_opened r) = ''command'') R) = Some c"
  shows "command_at R n = Some c"
  using find_Some_set [OF assms(2)] command_at_iff [OF assms(1)] by (simp add: seq_of_def)

text \<open>The hashes of a record are those of its place in the chain.\<close>

lemma record_hashes:
  assumes wf: "well_formed R H" and c: "c \<in> set R"
  shows "op_hash (rc_opened c) = H (seq_of c)" and "op_pred (rc_opened c) = H (seq_of c - 1)"
    and "hex_text 64 (op_hash (rc_opened c))" and "hex_text 64 (op_pred (rc_opened c))" and "1 \<le> seq_of c"
proof -
  have ok: "log_ok R" and link: "linked R H" using wf by (auto simp: well_formed_def)
  have asc: "ascending R" and pos: "1 \<le> seq_of c" using ok c unfolding log_ok_def by blast+
  have le: "fst (start_of R) \<le> seq_of c" "seq_of c \<le> last_seq 1 R"
    using start_le [OF ok c] seq_le_last [OF asc c] by blast+
  have "find (\<lambda>r. seq_of r = seq_of c) R = Some c"
    by (rule find_distinct [of seq_of]) (use asc c in \<open>simp_all add: ascending_def strict_sorted_iff\<close>)
  then have "chain_entry R (tombs R) (seq_of c) = Some (op_pred (rc_opened c), op_hash (rc_opened c))"
    by (simp add: chain_entry_def)
  moreover have "chain_entry R (tombs R) (seq_of c) = Some (H (seq_of c - 1), H (seq_of c))"
    using link le by (simp add: linked_def)
  ultimately show hashes: "op_hash (rc_opened c) = H (seq_of c)" "op_pred (rc_opened c) = H (seq_of c - 1)" by simp_all
  have hex: "0 \<le> n \<Longrightarrow> n \<le> last_seq 1 R \<Longrightarrow> hex_text 64 (H n)" for n using wf unfolding well_formed_def by blast
  show "hex_text 64 (op_hash (rc_opened c))" "hex_text 64 (op_pred (rc_opened c))"
    unfolding hashes using hex le pos by simp_all
  show "1 \<le> seq_of c" by (rule pos)
qed

definition sealed :: "'b spool_env \<Rightarrow> string \<Rightarrow> string \<Rightarrow> members \<Rightarrow> session \<Rightarrow> 'b \<times> recovered_record" where
  "sealed env kind dir body s =
     (let n = hd_seq (ss_head s) + 1; (data, h) = se_seal env kind n (hd_hash (ss_head s)) body in
      (data, \<lparr>rc_stored = \<lparr>st_dir = dir, st_name = record_name n kind, st_seq = n, st_kind = kind, st_size = se_size env data\<rparr>,
         rc_opened = \<lparr>op_type = kind, op_seq = n, op_pred = hd_hash (ss_head s), op_payload = body, op_hash = h\<rparr>,
         rc_digest = se_digest env data\<rparr>))"

definition append_trace :: "'b spool_env \<Rightarrow> recovered_record \<Rightarrow> 'b \<Rightarrow> 'b fs_step list" where
  "append_trace env r data =
     (let t = temp_name env (st_name (rc_stored r)); th = temp_name env ''head'';
          hd = se_sign env (head_dump \<lparr>hd_seq = seq_of r, hd_hash = op_hash (rc_opened r)\<rparr>) in
      [WriteTemp t data, InstallRecord t (st_dir (rc_stored r)) (st_name (rc_stored r)) data,
       WriteTemp th hd, InstallControl th ''head'' hd])"

definition after_steps :: "'b fs_step list \<Rightarrow> 'b world \<Rightarrow> 'b world" where
  "after_steps sts w = \<lparr>wd_disk = fold apply_step sts (wd_disk w), wd_trace = wd_trace w @ sts\<rparr>"

lemma after_steps_simps [simp]: "after_steps [] w = w" "after_steps ys (after_steps xs w) = after_steps (xs @ ys) w"
  "wd_disk (after_steps xs w) = fold apply_step xs (wd_disk w)" "wd_trace (after_steps xs w) = wd_trace w @ xs"
  by (simp_all add: after_steps_def)

lemma stepIO_after: "stepIO st w = (Inr (), after_steps [st] w)"
  by (simp add: stepIO_def after_steps_def)

lemma session_append_run:
  assumes run: "session_append env kind dir body s w = (Inr x, w')" and corrupt: "ss_corrupt s = []"
    and kind: "kind \<in> set record_types" and num: "valid_number (hd_seq (ss_head s) + 1)"
    and seal: "sealed env kind dir body s = (data, r)"
  shows "x = (r, s\<lparr>ss_records := ss_records s @ [r], ss_head := \<lparr>hd_seq = seq_of r, hd_hash = op_hash (rc_opened r)\<rparr>\<rparr>)"
    and "w' = after_steps (append_trace env r data) w" and "se_size env data \<le> se_maximum env"
proof -
  let ?n = "hd_seq (ss_head s) + 1"
  obtain h where sealed: "se_seal env kind ?n (hd_hash (ss_head s)) body = (data, h)"
    and r: "r = \<lparr>rc_stored = \<lparr>st_dir = dir, st_name = record_name ?n kind, st_seq = ?n, st_kind = kind, st_size = se_size env data\<rparr>,
         rc_opened = \<lparr>op_type = kind, op_seq = ?n, op_pred = hd_hash (ss_head s), op_payload = body, op_hash = h\<rparr>,
         rc_digest = se_digest env data\<rparr>"
    using seal by (auto simp: sealed_def Let_def split: prod.splits)
  show size: "se_size env data \<le> se_maximum env"
    using run corrupt sealed by (simp add: session_append_def Let_def pureIO_def split: if_splits)
  have "session_append env kind dir body s w =
     (Inr (r, s\<lparr>ss_records := ss_records s @ [r], ss_head := \<lparr>hd_seq = ?n, hd_hash = h\<rparr>\<rparr>), after_steps (append_trace env r data) w)"
    using corrupt sealed size parse_record_name [OF kind num]
    by (simp add: session_append_def append_record_def Let_def r append_trace_def seq_of_def bindIO_def stepIO_after pureIO_def
      del: apply_step.simps)
  then show "x = (r, s\<lparr>ss_records := ss_records s @ [r], ss_head := \<lparr>hd_seq = seq_of r, hd_hash = op_hash (rc_opened r)\<rparr>\<rparr>)"
    "w' = after_steps (append_trace env r data) w"
    using run by (auto simp: r seq_of_def)
qed

lemma change_trace_append: "change_trace env R r data = append_trace env r data @ settling R r"
  by (simp add: change_trace_def append_trace_def Let_def)

lemma session_move_run:
  "st_dir (rc_stored c) \<noteq> dst \<Longrightarrow> session_move c dst s w =
     (Inr (moved_to dst c, s\<lparr>ss_records := replace_first c (moved_to dst c) (ss_records s)\<rparr>),
      after_steps [Relocate (st_name (rc_stored c)) (st_dir (rc_stored c)) dst] w)"
  by (simp add: session_move_def move_file_def bindIO_def stepIO_after pureIO_def moved_to_def Let_def)

lemma session_remove_run:
  "session_remove c s w = (Inr (s\<lparr>ss_records := remove1 c (ss_records s)\<rparr>),
     after_steps [Unlink (st_dir (rc_stored c)) (st_name (rc_stored c))] w)"
  by (simp add: session_remove_def remove_file_def bindIO_def stepIO_after pureIO_def)

text \<open>A sealed record continues the log it was sealed on.\<close>

definition session_on :: "recovered_record list \<Rightarrow> (int \<Rightarrow> string) \<Rightarrow> session \<Rightarrow> bool" where
  "session_on R H s \<longleftrightarrow> ss_records s = R \<and> ss_corrupt s = [] \<and> ss_head s = \<lparr>hd_seq = last_seq 1 R, hd_hash = H (last_seq 1 R)\<rparr>"

lemma sealed_record:
  assumes "session_on R H s" and "sealed env kind dir body s = (data, r)"
  shows "seq_of r = last_seq 1 R + 1" and "op_type (rc_opened r) = kind" and "op_payload (rc_opened r) = body"
    and "op_pred (rc_opened r) = H (last_seq 1 R)" and "st_dir (rc_stored r) = dir" and "st_kind (rc_stored r) = kind"
  using assms by (auto simp: session_on_def sealed_def Let_def seq_of_def split: prod.splits)

lemma sealed_entry:
  assumes env: "env_ok env" and wf: "well_formed R H" and on: "session_on R H s" and kind: "kind \<in> set record_types"
    and num: "valid_number (last_seq 1 R + 1)" and seal: "sealed env kind dir body s = (data, r)"
    and canon: "json_canon (JObj body) = JObj body" and size: "se_size env data \<le> se_maximum env"
    and loc: "valid_location (rc_stored r)"
  shows "entry_ok env data r" and "hex_text 64 (op_hash (rc_opened r))"
proof -
  have ok: "log_ok R" and hexes: "\<forall>n. 0 \<le> n \<longrightarrow> n \<le> last_seq 1 R \<longrightarrow> hex_text 64 (H n)" using wf by (auto simp: well_formed_def)
  let ?n = "last_seq 1 R + 1" and ?p = "H (last_seq 1 R)"
  have pos: "0 \<le> last_seq 1 R" by (rule last_seq_nonneg [OF ok])
  have hex: "hex_text 64 ?p" using hexes pos by blast
  obtain h where h: "se_seal env kind ?n ?p body = (data, h)"
    and r: "r = \<lparr>rc_stored = \<lparr>st_dir = dir, st_name = record_name ?n kind, st_seq = ?n, st_kind = kind, st_size = se_size env data\<rparr>,
         rc_opened = \<lparr>op_type = kind, op_seq = ?n, op_pred = ?p, op_payload = body, op_hash = h\<rparr>, rc_digest = se_digest env data\<rparr>"
    using seal on by (auto simp: sealed_def session_on_def Let_def split: prod.splits)
  have "hex_text 64 (snd (se_seal env kind ?n ?p body)) \<and> se_open env (fst (se_seal env kind ?n ?p body)) =
      Inr \<lparr>op_type = kind, op_seq = ?n, op_pred = ?p, op_payload = body, op_hash = snd (se_seal env kind ?n ?p body)\<rparr>"
    using env kind hex canon pos unfolding env_ok_def by simp
  then have "hex_text 64 h" "se_open env data = Inr (rc_opened r)" by (simp_all add: h r)
  then show "entry_ok env data r" "hex_text 64 (op_hash (rc_opened r))"
    using kind num size loc by (simp_all add: entry_ok_def r seq_of_def)
qed

definition changes_to ::
  "'b spool_env \<Rightarrow> recovered_record list \<Rightarrow> (int \<Rightarrow> string) \<Rightarrow> session \<Rightarrow> 'b world \<Rightarrow> session \<Rightarrow> 'b world \<Rightarrow> bool" where
  "changes_to env R H s w s' w' \<longleftrightarrow>
     (\<exists>r data. extends R H r \<and> entry_ok env data r \<and> hex_text 64 (op_hash (rc_opened r)) \<and>
        (op_type (rc_opened r) = ''command'' \<longrightarrow> st_dir (rc_stored r) = ''pending'') \<and>
        s' = s\<lparr>ss_records := settled (R @ [r]), ss_head := \<lparr>hd_seq = seq_of r, hd_hash = op_hash (rc_opened r)\<rparr>\<rparr> \<and>
        w' = after_steps (change_trace env R r data) w)"

lemma settling_transition:
  assumes wf: "well_formed R H" and rest: "at_rest R" and ext: "extends R H r"
    and kind: "op_type (rc_opened r) \<noteq> ''command''" and loc: "valid_location (rc_stored r)"
    and t: "target r = Some (n, a)" and c: "command_at R n = Some c" and s: "next_state (st_dir (rc_stored c)) a = Inr s'"
  shows "settled (R @ [r]) = (if s' = ''discarded'' then remove1 c (R @ [r]) else replace_first c (moved_to s' c) (R @ [r]))"
    and "settling R r = (if s' = ''discarded'' then [Unlink (st_dir (rc_stored c)) (st_name (rc_stored c))]
      else [Relocate (st_name (rc_stored c)) (st_dir (rc_stored c)) s'])"
proof -
  have ok: "log_ok R" "log_fits R" using wf by (auto simp: well_formed_def)
  have asc: "ascending R" using ok by (simp add: log_ok_def)
  obtain s0 where s0: "status R n = Some s0" using ext t unfolding extends_def by blast
  then have "s0 = st_dir (rc_stored c)" using rest_status [OF asc rest c] by simp
  then have run: "the (run_actions (the (status R n)) [a]) = s'" using s0 s by simp
  have "op_type (rc_opened r) = ''command'' \<longrightarrow> st_dir (rc_stored r) = ''pending''" using kind by blast
  from settled_extend [OF ok ext rest this loc]
  show "settled (R @ [r]) = (if s' = ''discarded'' then remove1 c (R @ [r]) else replace_first c (moved_to s' c) (R @ [r]))"
    using t c run by (simp add: Let_def)
  show "settling R r = (if s' = ''discarded'' then [Unlink (st_dir (rc_stored c)) (st_name (rc_stored c))]
      else [Relocate (st_name (rc_stored c)) (st_dir (rc_stored c)) s'])"
    using t c run by (simp add: settling_def Let_def)
qed

text \<open>A receipt or disposition of a present command that says what is true of it continues the log.\<close>

lemma extends_receipt:
  assumes wf: "well_formed R H" and rest: "at_rest R"
    and r: "seq_of r = last_seq 1 R + 1" "op_pred (rc_opened r) = H (last_seq 1 R)"
    and kind: "op_type (rc_opened r) \<in> {''accepted_receipt'', ''quarantine_receipt'', ''disposition''}"
    and rd: "readable r" and rok: "receipt_ok R r" and t: "target r = Some (n, a)" and c: "command_at R n = Some c"
    and s: "next_state (st_dir (rc_stored c)) a = Inr s'" and un: "a = ''discard'' \<Longrightarrow> ''retry'' \<notin> set (actions R n)"
  shows "extends R H r"
proof -
  have ok: "log_ok R" "log_fits R" using wf by (auto simp: well_formed_def)
  have asc: "ascending R" using ok by (simp add: log_ok_def)
  have "status R n \<noteq> None" using ok(2) c by (simp add: log_fits_def)
  then obtain s0 where s0: "status R n = Some s0" by blast
  then have "s0 = st_dir (rc_stored c)" using rest_status [OF asc rest c] by simp
  then show ?thesis using r kind rd rok t c s s0 un by (auto simp: extends_def)
qed

lemma pureIO_iff [simp]: "pureIO r w = (x, w') \<longleftrightarrow> r = x \<and> w' = w"
  by (auto simp: pureIO_def)

lemma changes_by:
  fixes env :: "'b spool_env"
  assumes env: "env_ok env" and wf: "well_formed R H" and on: "session_on R H s" and kind: "kind \<in> set record_types"
    and num: "valid_number (last_seq 1 R + 1)" and canon: "json_canon (JObj body) = JObj body"
    and run: "bindIO (session_append env kind dir body s) (\<lambda>(_, s). fin s) w = (Inr s', w')"
    and seal: "sealed env kind dir body s = (data, r)" and ext: "extends R H r" and loc: "valid_location (rc_stored r)"
    and pend: "kind = ''command'' \<longrightarrow> dir = ''pending''"
    and fin: "\<And>s w. fin s w = (Inr (s\<lparr>ss_records := f (ss_records s)\<rparr>), after_steps (settling R r :: 'b fs_step list) w)"
    and f: "f (R @ [r]) = settled (R @ [r])"
  shows "changes_to env R H s w s' w'"
proof -
  obtain x w1 where x: "session_append env kind dir body s w = (Inr x, w1)" "(case x of (_, s) \<Rightarrow> fin s w1) = (Inr s', w')"
    using run by (auto simp: bindIO_Inr_iff)
  have head: "hd_seq (ss_head s) + 1 = last_seq 1 R + 1" "ss_corrupt s = []" "ss_records s = R" using on by (auto simp: session_on_def)
  note A = session_append_run [OF x(1) head(2) kind num [folded head(1)] seal]
  note E = sealed_entry [OF env wf on kind num seal canon A(3) loc]
  note S = sealed_record [OF on seal]
  have "s' = s\<lparr>ss_records := settled (R @ [r]), ss_head := \<lparr>hd_seq = seq_of r, hd_hash = op_hash (rc_opened r)\<rparr>\<rparr>"
    "w' = after_steps (change_trace env R r data) w"
    using x(2) by (auto simp: A(1,2) fin f head(3) change_trace_append)
  then show ?thesis using ext E S pend unfolding changes_to_def by blast
qed

lemma readable_simple: "op_type (rc_opened r) \<notin> {''disposition'', ''corrupt_disposition''} \<Longrightarrow> readable r"
  by (simp add: readable_def)

lemma enqueue_changes:
  fixes env :: "'b spool_env"
  assumes env: "env_ok env" and wf: "well_formed R H" and rest: "at_rest R" and on: "session_on R H s"
    and num: "valid_number (last_seq 1 R + 1)" and adm: "admissible R (Enqueue cf origin binding now c)"
    and run: "perform env (Enqueue cf origin binding now c) s w = (Inr s', w')"
  shows "s' = s \<and> w' = w \<or> changes_to env R H s w s' w'"
proof -
  obtain b existing where b: "require_binding binding = Inr b" "find_command_id (session_commands s) (sc_id c) = Inr existing"
    using run by (auto simp: enqueue_in_def bindIO_Inr_iff)
  show ?thesis
  proof (cases existing)
    case (Some r)
    then show ?thesis using run b by (auto simp: enqueue_in_def bindIO_Inr_iff)
  next
    case None
    let ?e = "new_envelope c origin (cf_pending_days cf) (semantic_digest c) b now"
    let ?body = "envelope_dump ?e"
    have "bindIO (session_append env ''command'' ''pending'' ?body s) (\<lambda>(_, s). pureIO (Inr s)) w = (Inr s', w')"
      using run b None by (auto simp: enqueue_in_def bindIO_Inr_iff Let_def)
    moreover obtain data r where seal: "sealed env ''command'' ''pending'' ?body s = (data, r)" by (cases "sealed env ''command'' ''pending'' ?body s")
    note S = sealed_record [OF on seal]
    have ok: "log_ok R" "log_fits R" using wf by (auto simp: well_formed_def)
    have ext: "extends R H r"
      using S by (simp add: extends_def readable_def receipt_ok_def)
    have loc: "valid_location (rc_stored r)" using S by (simp add: valid_location_def)
    have none: "target r = None" using S(2) by simp
    have canon: "json_canon (JObj ?body) = JObj ?body" by (rule envelope_canon) (use adm in \<open>simp_all add: new_envelope_def\<close>)
    have "changes_to env R H s w s' w'"
    proof (rule changes_by [OF env wf on _ num canon calculation seal ext loc, where f = "\<lambda>x. x"])
      show "R @ [r] = settled (R @ [r])"
        using settled_extend [OF ok ext rest _ loc] none S(5) by simp
    qed (simp_all add: record_types_def settling_def none pureIO_def)
    then show ?thesis by blast
  qed
qed

lemma accept_changes:
  fixes env :: "'b spool_env"
  assumes env: "env_ok env" and wf: "well_formed R H" and rest: "at_rest R" and on: "session_on R H s"
    and num: "valid_number (last_seq 1 R + 1)" and adm: "admissible R (Acknowledge now c e response)"
    and run: "perform env (Acknowledge now c e response) s w = (Inr s', w')"
  shows "changes_to env R H s w s' w'"
proof -
  let ?q = "\<lparr>ar_seq = seq_of c, ar_hash = op_hash (rc_opened c), ar_command = ce_command e,
     ar_status = rp_status response, ar_response = rp_response response,
     ar_digest = digest_json [(''response'', opt_obj (rp_response response))], ar_events = rp_events response,
     ar_position = rp_position response, ar_at = utc_text now\<rparr>"
  let ?body = "accepted_dump ?q"
  have c: "c \<in> set R" "op_type (rc_opened c) = ''command''" "st_dir (rc_stored c) = ''pending''" "command_payload (rc_opened c) = Inr e"
    and status: "200 \<le> rp_status response" "rp_status response \<le> 299" and canon: "canonical (opt_obj (rp_response response))"
    using adm by (auto simp: pending_command_def)
  have asc: "ascending R" using wf by (simp add: well_formed_def log_ok_def)
  have at: "command_at R (seq_of c) = Some c" using command_at_iff [OF asc] c by blast
  obtain data r where seal: "sealed env ''accepted_receipt'' ''accepted'' ?body s = (data, r)"
    by (cases "sealed env ''accepted_receipt'' ''accepted'' ?body s")
  note S = sealed_record [OF on seal]
  have "valid_accepted ?q" using record_hashes [OF wf c(1)] status by (simp add: valid_accepted_def digest_json_def)
  then have read: "accepted_read (op_payload (rc_opened r)) = Some ?q" using accepted_read_dump S(3) by metis
  have t: "target r = Some (seq_of c, ''accepted'')" using read S(2) by (simp add: target_def)
  have step: "next_state (st_dir (rc_stored c)) ''accepted'' = Inr ''accepted''" using c(3) by (simp add: next_state_def)
  have rok: "receipt_ok R r" using read S(2) at c(4) by (simp add: receipt_ok_def)
  have ext: "extends R H r"
    by (rule extends_receipt [OF wf rest S(1,4) _ _ rok t at step]) (use S(2) in \<open>simp_all add: readable_def\<close>)
  have loc: "valid_location (rc_stored r)" using S by (simp add: valid_location_def)
  note T = settling_transition [OF wf rest ext _ loc t at step]
  have appended: "bindIO (session_append env ''accepted_receipt'' ''accepted'' ?body s)
      (\<lambda>(_, s). bindIO (session_move c ''accepted'' s) (\<lambda>(_, s). pureIO (Inr s))) w = (Inr s', w')"
    using run by (auto simp: accept_command_def bindIO_Inr_iff seq_of_def Let_def split: option.splits)
  show ?thesis
  proof (rule changes_by [OF env wf on _ num _ appended seal ext loc, where f = "replace_first c (moved_to ''accepted'' c)"])
    show "json_canon (JObj ?body) = JObj ?body" by (rule accepted_canon) (use canon in simp)
    show "replace_first c (moved_to ''accepted'' c) (R @ [r]) = settled (R @ [r])" using T(1) S(2) by simp
    show "bindIO (session_move c ''accepted'' s) (\<lambda>(_, s). pureIO (Inr s)) w =
       (Inr (s\<lparr>ss_records := replace_first c (moved_to ''accepted'' c) (ss_records s)\<rparr>), after_steps (settling R r) w)" for s and w :: "'b world"
      using session_move_run [of c "''accepted''" s w] c(3) S(2) by (simp add: T(2) bindIO_def pureIO_def)
  qed (simp_all add: record_types_def)
qed


lemma reason_readable:
  assumes "valid_quarantine q" and "op_payload (rc_opened r) = quarantine_dump q"
  shows "quarantine_read (op_payload (rc_opened r)) = Some q"
  using assms quarantine_read_dump by simp

lemma set_aside_changes:
  fixes env :: "'b spool_env"
  assumes env: "env_ok env" and wf: "well_formed R H" and rest: "at_rest R" and on: "session_on R H s"
    and num: "valid_number (last_seq 1 R + 1)" and adm: "admissible R (SetAside now c reason response refused)"
    and run: "perform env (SetAside now c reason response refused) s w = (Inr s', w')"
  shows "changes_to env R H s w s' w'"
proof -
  let ?q = "\<lparr>qr_version = 2, qr_seq = seq_of c, qr_hash = op_hash (rc_opened c), qr_reason = reason,
     qr_digest = map_option digest_json response, qr_at = utc_text now, qr_refusal = refused\<rparr>"
  let ?body = "quarantine_dump ?q"
  have c: "c \<in> set R" "op_type (rc_opened c) = ''command''" "st_dir (rc_stored c) = ''pending''"
    and reason: "reason_name reason" and refused: "valid_refusal refused"
    using adm by (auto simp: pending_command_def)
  have asc: "ascending R" using wf by (simp add: well_formed_def log_ok_def)
  have at: "command_at R (seq_of c) = Some c" using command_at_iff [OF asc] c by blast
  obtain data r where seal: "sealed env ''quarantine_receipt'' ''quarantine'' ?body s = (data, r)"
    by (cases "sealed env ''quarantine_receipt'' ''quarantine'' ?body s")
  note S = sealed_record [OF on seal]
  have "valid_quarantine ?q" using record_hashes [OF wf c(1)] reason refused by (auto simp: valid_quarantine_def digest_json_def)
  from reason_readable [OF this S(3)] have read: "quarantine_read (op_payload (rc_opened r)) = Some ?q" .
  have t: "target r = Some (seq_of c, ''quarantined'')" using read S(2) by (simp add: target_def)
  have step: "next_state (st_dir (rc_stored c)) ''quarantined'' = Inr ''quarantine''" using c(3) by (simp add: next_state_def)
  have rok: "receipt_ok R r" using read S(2) at by (simp add: receipt_ok_def)
  have ext: "extends R H r"
    by (rule extends_receipt [OF wf rest S(1,4) _ _ rok t at step]) (use S(2) in \<open>simp_all add: readable_def\<close>)
  have loc: "valid_location (rc_stored r)" using S by (simp add: valid_location_def)
  note T = settling_transition [OF wf rest ext _ loc t at step]
  have appended: "bindIO (session_append env ''quarantine_receipt'' ''quarantine'' ?body s)
      (\<lambda>(_, s). bindIO (session_move c ''quarantine'' s) (\<lambda>(_, s). pureIO (Inr s))) w = (Inr s', w')"
    using run by (simp add: quarantine_command_def seq_of_def)
  show ?thesis
  proof (rule changes_by [OF env wf on _ num _ appended seal ext loc, where f = "replace_first c (moved_to ''quarantine'' c)"])
    show "json_canon (JObj ?body) = JObj ?body" by (rule quarantine_canon)
    show "replace_first c (moved_to ''quarantine'' c) (R @ [r]) = settled (R @ [r])" using T(1) S(2) by simp
    show "bindIO (session_move c ''quarantine'' s) (\<lambda>(_, s). pureIO (Inr s)) w =
       (Inr (s\<lparr>ss_records := replace_first c (moved_to ''quarantine'' c) (ss_records s)\<rparr>), after_steps (settling R r) w)"
      for s and w :: "'b world"
      using session_move_run [of c "''quarantine''" s w] c(3) S(2) by (simp add: T(2) bindIO_def pureIO_def)
  qed (simp_all add: record_types_def)
qed

lemma dispose_changes:
  fixes env :: "'b spool_env"
  assumes env: "env_ok env" and wf: "well_formed R H" and rest: "at_rest R" and on: "session_on R H s"
    and num: "valid_number (last_seq 1 R + 1)" and adm: "admissible R (Dispose n act reason now)"
    and run: "perform env (Dispose n act reason now) s w = (Inr s', w')"
  shows "changes_to env R H s w s' w'"
proof -
  have on': "ss_corrupt s = []" "ss_records s = R" using on by (auto simp: session_on_def)
  have act: "act = ''retry'' \<or> act = ''discard''" and un: "act = ''discard'' \<Longrightarrow> ''retry'' \<notin> set (actions R n)"
    using adm by auto
  have asc: "ascending R" using wf by (simp add: well_formed_def log_ok_def)
  obtain c where c: "session_command n s = Some c" "st_dir (rc_stored c) = ''quarantine''"
    using run on'(1)
    by (auto simp: disposition_in_def corrupt_command_def bindIO_Inr_iff require_quarantined_def split: option.splits if_splits)
  then have at: "command_at R n = Some c"
    using commands_find [OF asc] by (simp add: session_command_def session_commands_def on'(2))
  then have cR: "c \<in> set R" "seq_of c = n" using command_at_iff [OF asc] by blast+
  let ?q = "\<lparr>dp_version = 2, dp_seq = n, dp_hash = op_hash (rc_opened c),
     dp_pred = (if act = ''discard'' then Some (op_pred (rc_opened c)) else None), dp_action = act,
     dp_reason = sha256_hex reason, dp_at = utc_text now\<rparr>"
  let ?body = "disposition_dump ?q"
  let ?to = "if act = ''discard'' then ''discarded'' else ''pending''"
  obtain data r where seal: "sealed env ''disposition'' ''quarantine'' ?body s = (data, r)"
    by (cases "sealed env ''disposition'' ''quarantine'' ?body s")
  note S = sealed_record [OF on seal]
  have "valid_disposition ?q" using record_hashes [OF wf cR(1)] act cR(2) by (auto simp: valid_disposition_def)
  then have read: "disposition_read (op_payload (rc_opened r)) = Some ?q" using disposition_read_dump S(3) by metis
  have t: "target r = Some (n, act)" using read S(2) by (simp add: target_def)
  have step: "next_state (st_dir (rc_stored c)) act = Inr ?to" using c(2) act by (auto simp: next_state_def)
  have rok: "receipt_ok R r" using read S(2) at by (auto simp: receipt_ok_def)
  have rd: "readable r" using read S(2) by (auto simp: readable_def)
  have ext: "extends R H r"
    by (rule extends_receipt [OF wf rest S(1,4) _ rd rok t at step un]) (use S(2) in simp)
  have loc: "valid_location (rc_stored r)" using S by (simp add: valid_location_def)
  note T = settling_transition [OF wf rest ext _ loc t at step]
  let ?fin = "\<lambda>s. if act = ''discard'' then bindIO (session_remove c s) (\<lambda>s. pureIO (Inr s))
      else bindIO (session_move c ''pending'' s) (\<lambda>(_, s). pureIO (Inr s))"
  have appended: "bindIO (session_append env ''disposition'' ''quarantine'' ?body s) (\<lambda>(_, s). ?fin s) w = (Inr s', w')"
    using run on'(1) c
    by (auto simp: disposition_in_def corrupt_command_def bindIO_Inr_iff require_quarantined_def Let_def split: if_splits)
  show ?thesis
  proof (rule changes_by [OF env wf on _ num _ appended seal ext loc,
        where f = "\<lambda>x. if act = ''discard'' then remove1 c x else replace_first c (moved_to ''pending'' c) x"])
    show "json_canon (JObj ?body) = JObj ?body" by (rule disposition_canon)
    show "(if act = ''discard'' then remove1 c (R @ [r]) else replace_first c (moved_to ''pending'' c) (R @ [r])) = settled (R @ [r])"
      using T(1) S(2) by simp
    show "?fin s w = (Inr (s\<lparr>ss_records := if act = ''discard'' then remove1 c (ss_records s)
          else replace_first c (moved_to ''pending'' c) (ss_records s)\<rparr>), after_steps (settling R r) w)" for s and w :: "'b world"
      using session_move_run [of c "''pending''" s w] c(2) S(2) by (simp add: T(2) bindIO_def pureIO_def session_remove_run)
  qed (simp_all add: record_types_def)
qed

lemma perform_changes:
  assumes "env_ok env" and "well_formed R H" and "at_rest R" and "session_on R H s"
    and "valid_number (last_seq 1 R + 1)" and "admissible R ch" and "perform env ch s w = (Inr s', w')"
  shows "s' = s \<and> w' = w \<or> changes_to env R H s w s' w'"
proof (cases ch)
  case (Enqueue cf origin binding now c)
  show ?thesis by (rule enqueue_changes [OF assms(1-5) assms(6,7) [unfolded Enqueue]])
next
  case (Acknowledge now c e response)
  show ?thesis by (rule disjI2, rule accept_changes [OF assms(1-5) assms(6,7) [unfolded Acknowledge]])
next
  case (SetAside now c reason response refused)
  show ?thesis by (rule disjI2, rule set_aside_changes [OF assms(1-5) assms(6,7) [unfolded SetAside]])
next
  case (Dispose n act reason now)
  show ?thesis by (rule disjI2, rule dispose_changes [OF assms(1-5) assms(6,7) [unfolded Dispose]])
qed

end
