(* ===== verification/SpoolTheorems.thy ===== *)
theory SpoolTheorems
  imports SpoolChange
begin

text \<open>
  What the spool guarantees: crashes are atomic, replay is ordered, enqueueing is idempotent and bounded, and the
  chain of hashes fixes its records; with a sample spool for the witnesses.
\<close>


section \<open>Crashes are atomic\<close>

lemma rested_on: "rested env C H R s d \<Longrightarrow> session_on R H s"
  by (simp add: rested_def session_on_def)

lemma checkpoint_run:
  assumes "ss_cursor s = Some c" and "cu_seq c \<noteq> hd_seq (ss_head s)"
  shows "checkpoint_recovery env s w =
     (let cursor = expected_cursor (ss_head s) (ss_records s); data = se_sign env (cursor_dump cursor);
          t = temp_name env ''recovery'' in
      (Inr (s\<lparr>ss_cursor := Some cursor\<rparr>), after_steps [WriteTemp t data, InstallControl t ''recovery'' data] w))"
proof -
  have "Some (expected_cursor (ss_head s) (ss_records s)) \<noteq> ss_cursor s"
    using assms by (auto simp: expected_cursor_def)
  then show ?thesis
    using assms by (simp add: checkpoint_recovery_def Let_def write_control_def bindIO_def stepIO_after pureIO_def)
qed

text \<open>A commit is nothing or a change and its checkpoint.\<close>

lemma commit_changes:
  fixes env :: "'b spool_env"
  assumes rested: "rested env C H R s d" and env: "env_ok env" and wf: "well_formed R H"
    and num: "valid_number (last_seq 1 R + 1)" and adm: "admissible R ch"
    and run: "commit env ch s w = (Inr s', w')"
  shows "s' = s \<and> w' = w \<or>
     (\<exists>r data. extends R H r \<and> entry_ok env data r \<and> hex_text 64 (op_hash (rc_opened r)) \<and>
        (op_type (rc_opened r) = ''command'' \<longrightarrow> st_dir (rc_stored r) = ''pending'') \<and>
        s' = \<lparr>ss_head = \<lparr>hd_seq = seq_of r, hd_hash = op_hash (rc_opened r)\<rparr>, ss_records = settled (R @ [r]), ss_corrupt = [],
          ss_cursor = Some (expected_cursor \<lparr>hd_seq = seq_of r, hd_hash = op_hash (rc_opened r)\<rparr> (settled (R @ [r]))),
          ss_torn = ss_torn s\<rparr> \<and>
        w' = after_steps (change_trace env R r data @ checkpoint_trace env R r) w)"
proof -
  note on = rested_on [OF rested]
  have rest: "at_rest R" using rested by (simp add: rested_def)
  obtain c where c: "ss_cursor s = Some c" "cu_seq c = last_seq 1 R" using rested by (auto simp: rested_def)
  obtain s1 w1 where s1: "perform env ch s w = (Inr s1, w1)" "checkpoint_recovery env s1 w1 = (Inr s', w')"
    using run by (auto simp: commit_def bindIO_Inr_iff)
  from perform_changes [OF env wf rest on num adm s1(1)] show ?thesis
  proof
    assume "s1 = s \<and> w1 = w"
    then have "s' = s \<and> w' = w"
      using s1(2) c on by (auto simp: checkpoint_recovery_def session_on_def)
    then show ?thesis by blast
  next
    assume "changes_to env R H s w s1 w1"
    then obtain r data where r: "extends R H r" "entry_ok env data r" "hex_text 64 (op_hash (rc_opened r))"
      "op_type (rc_opened r) = ''command'' \<longrightarrow> st_dir (rc_stored r) = ''pending''"
      and s1': "s1 = s\<lparr>ss_records := settled (R @ [r]), ss_head := \<lparr>hd_seq = seq_of r, hd_hash = op_hash (rc_opened r)\<rparr>\<rparr>"
      and w1: "w1 = after_steps (change_trace env R r data) w"
      unfolding changes_to_def by blast
    have seq: "cu_seq c \<noteq> seq_of r" using c(2) r(1) by (simp add: extends_def)
    have "ss_corrupt s = []" using on by (simp add: session_on_def)
    then show ?thesis
      using s1(2) checkpoint_run [of s1 c env w1] c(1) seq r
      by (intro disjI2 exI [of _ r] exI [of _ data]) (simp add: s1' w1 checkpoint_trace_def Let_def)
  qed
qed

text \<open>
  C25. A change of the spool is atomic under crashes. Take a verified session over a spool at rest and commit an
  enqueue, an acknowledgement, a quarantine or a disposition (of a command that was not retried before it is
  discarded). Stopping the process before any of its system calls, or after the last, leaves a disk on which
  recovery succeeds, without corrupt records, with exactly the records from before the change when the new
  record had no name yet (\<open>k < 2\<close>), and with exactly the records of the finished change from then on. The
  finished change is again a spool at rest with a well formed log.
\<close>

theorem change_crash_atomic:
  fixes env :: "'b spool_env"
  assumes "env_ok env" and "rested env C H R s d" and "well_formed R H" and "slack 2 env R d"
    and "last_seq 1 R + 1 < 10 ^ 20" and "admissible R ch" and "commit env ch s \<lparr>wd_disk = d, wd_trace = []\<rparr> = (Inr s', w')"
  shows "(\<forall>k \<le> length (wd_trace w'). \<exists>s'' w''.
        recover_session env True \<lparr>wd_disk = crash_after k (wd_trace w') d, wd_trace = []\<rparr> = (Inr s'', w'') \<and>
        ss_corrupt s'' = [] \<and> ss_records s'' = (if k < 2 then R else ss_records s')) \<and>
     (\<exists>C' H'. rested env C' H' (ss_records s') s' (wd_disk w') \<and> well_formed (ss_records s') H')"
proof -
  let ?w = "\<lparr>wd_disk = d, wd_trace = []\<rparr>"
  have ok: "log_ok R" using assms(3) by (simp add: well_formed_def)
  have num: "valid_number (last_seq 1 R + 1)" using last_seq_nonneg [OF ok] assms(5) by (simp add: valid_number_def)
  have R: "ss_records s = R" using assms(2) by (simp add: rested_def)
  from commit_changes [OF assms(2,1,3) num assms(6,7)] show ?thesis
  proof
    assume same: "s' = s \<and> w' = ?w"
    have "recoverable env C H R (ss_head s) (ss_cursor s) d"
      by (rule rested_recoverable [OF assms(2,3)]) (use assms(4) in \<open>simp add: slack_def room_def\<close>)
    then have "recovers_to env R d"
      using assms(2,3) settled_at_rest unfolding recovers_to_def rested_def well_formed_def by metis
    then obtain s'' w'' where "recover_session env True ?w = (Inr s'', w'')" "ss_records s'' = R" "ss_corrupt s'' = []"
      using recovers_to_run [OF _ assms(1)] by blast
    then show ?thesis using assms(2,3) same R by (auto simp: crash_after_def)
  next
    assume "\<exists>r data. extends R H r \<and> entry_ok env data r \<and> hex_text 64 (op_hash (rc_opened r)) \<and>
        (op_type (rc_opened r) = ''command'' \<longrightarrow> st_dir (rc_stored r) = ''pending'') \<and>
        s' = \<lparr>ss_head = \<lparr>hd_seq = seq_of r, hd_hash = op_hash (rc_opened r)\<rparr>, ss_records = settled (R @ [r]), ss_corrupt = [],
          ss_cursor = Some (expected_cursor \<lparr>hd_seq = seq_of r, hd_hash = op_hash (rc_opened r)\<rparr> (settled (R @ [r]))),
          ss_torn = ss_torn s\<rparr> \<and>
        w' = after_steps (change_trace env R r data @ checkpoint_trace env R r) ?w"
    then obtain r data where r: "extends R H r" "entry_ok env data r" "hex_text 64 (op_hash (rc_opened r))"
      "op_type (rc_opened r) = ''command'' \<longrightarrow> st_dir (rc_stored r) = ''pending''"
      and s': "s' = \<lparr>ss_head = \<lparr>hd_seq = seq_of r, hd_hash = op_hash (rc_opened r)\<rparr>, ss_records = settled (R @ [r]), ss_corrupt = [],
          ss_cursor = Some (expected_cursor \<lparr>hd_seq = seq_of r, hd_hash = op_hash (rc_opened r)\<rparr> (settled (R @ [r]))),
          ss_torn = ss_torn s\<rparr>"
      and w': "w' = after_steps (change_trace env R r data @ checkpoint_trace env R r) ?w" by blast
    note X = change_recovers [OF assms(2,3,1,4) r]
    have "\<exists>s'' w''. recover_session env True \<lparr>wd_disk = crash_after k (wd_trace w') d, wd_trace = []\<rparr> = (Inr s'', w'') \<and>
        ss_corrupt s'' = [] \<and> ss_records s'' = (if k < 2 then R else ss_records s')" if "k \<le> length (wd_trace w')" for k
      using recovers_to_run [OF X(1) assms(1), of k] that by (auto simp: w' s')
    moreover have "rested env (C(seq_of r := data)) (H(seq_of r := op_hash (rc_opened r))) (ss_records s') s' (wd_disk w')"
      using X(2) by (simp add: s' w')
    ultimately show ?thesis using X(3) s' by auto
  qed
qed

text \<open>A spool with one pending command, under a transparent cipher.\<close>

type_synonym sample_bytes = "opened_record + members"

definition sample_hash :: string where
  "sample_hash = replicate 64 (CHR ''a'')"

definition sample_env :: "sample_bytes spool_env" where
  "sample_env =
     \<lparr>se_seal = (\<lambda>kind n pred body.
        (Inl \<lparr>op_type = kind, op_seq = n, op_pred = pred, op_payload = body, op_hash = sample_hash\<rparr>, sample_hash)),
      se_open = (\<lambda>data. case data of Inl r \<Rightarrow> Inr r | Inr _ \<Rightarrow> Inl (CryptoError ''record encoding is invalid'')),
      se_size = (\<lambda>_. 1), se_digest = (\<lambda>_. []), se_sign = Inr,
      se_verify = (\<lambda>data. case data of Inr ms \<Rightarrow> Inr ms | Inl _ \<Rightarrow> Inl (CryptoError ''signed document encoding is invalid'')),
      se_uuid = replicate 36 (CHR ''0''), se_scan = 10, se_maximum = 100\<rparr>"

definition sample_record :: recovered_record where
  "sample_record =
     \<lparr>rc_stored = \<lparr>st_dir = ''pending'', st_name = record_name 1 ''command'', st_seq = 1, st_kind = ''command'', st_size = 1\<rparr>,
      rc_opened = \<lparr>op_type = ''command'', op_seq = 1, op_pred = genesis_hash, op_payload = [], op_hash = sample_hash\<rparr>,
      rc_digest = []\<rparr>"

definition sample_head :: head_doc where
  "sample_head = \<lparr>hd_seq = 1, hd_hash = sample_hash\<rparr>"

definition sample_cursor :: cursor_doc where
  "sample_cursor = \<lparr>cu_seq = 1, cu_hash = sample_hash, cu_digest = genesis_hash\<rparr>"

definition sample_session :: session where
  "sample_session =
     \<lparr>ss_head = sample_head, ss_records = [sample_record], ss_corrupt = [], ss_cursor = Some sample_cursor, ss_torn = 0\<rparr>"

definition sample_disk :: "sample_bytes disk" where
  "sample_disk =
     \<lparr>dk_control = [''head'' \<mapsto> Inr (head_dump sample_head), ''recovery'' \<mapsto> Inr (cursor_dump sample_cursor)],
      dk_files = (\<lambda>dir. if dir = ''pending'' then [(record_name 1 ''command'', Inl (rc_opened sample_record))] else []),
      dk_temps = [], dk_evidence = 0\<rparr>"

definition sample_hashes :: "int \<Rightarrow> string" where
  "sample_hashes n = (if n = 0 then genesis_hash else sample_hash)"

lemma sample_hex: "hex_text 64 sample_hash"
  by (simp add: hex_text_def sample_hash_def list_all_iff is_hex_lower_def is_digit_def)

lemma sample_env_ok: "env_ok sample_env"
  by (simp add: env_ok_def sample_env_def sample_hex max_control_bytes_def uuid_like_def list_all_iff is_hex_lower_def is_digit_def)

lemma sample_entry: "entry_ok sample_env (Inl (rc_opened sample_record)) sample_record"
  by (simp add: entry_ok_def sample_env_def sample_record_def record_types_def valid_number_def seq_of_def valid_location_def)

lemma sample_well_formed: "well_formed [sample_record] sample_hashes"
proof -
  have cmd: "op_type (rc_opened sample_record) = ''command''" "seq_of sample_record = 1"
    by (simp_all add: sample_record_def seq_of_def)
  have ok: "log_ok [sample_record]" using cmd by (simp add: log_ok_def ascending_def readable_def)
  have at: "command_at [sample_record] n = (if n = 1 then Some sample_record else None)" for n
    using cmd by (simp add: command_at_def)
  have "log_fits [sample_record]" using cmd by (simp add: log_fits_def receipt_ok_def at status_def)
  moreover have "linked [sample_record] sample_hashes"
    using cmd by (simp add: linked_def start_of_def last_seq_def chain_entry_def sample_hashes_def sample_record_def)
  ultimately show ?thesis
    using ok cmd sample_hex by (simp add: well_formed_def unretried_def last_seq_def sample_hashes_def)
qed

lemma sample_rested:
  "rested sample_env (\<lambda>_. Inl (rc_opened sample_record)) sample_hashes [sample_record] sample_session sample_disk"
proof -
  have "holds sample_env (\<lambda>_. Inl (rc_opened sample_record)) [sample_record] sample_disk"
    using sample_entry by (simp add: holds_def ascending_def files_of_def sample_disk_def) (simp add: sample_record_def)
  moreover have "at_rest [sample_record]"
    by (simp add: at_rest_def place_def status_def sample_record_def)
  moreover have "head_on sample_env sample_disk sample_head"
    by (simp add: head_on_def sample_disk_def sample_env_def max_control_bytes_def head_read_dump valid_head_def valid_number_def sample_head_def sample_hex)
  moreover have "cursor_on sample_env sample_disk (Some sample_cursor)"
    by (simp add: cursor_on_def sample_disk_def sample_env_def max_control_bytes_def cursor_read_dump valid_cursor_def valid_number_def
      sample_cursor_def sample_hex)
  ultimately show ?thesis
    by (simp add: rested_def sample_session_def sample_disk_def last_seq_def sample_head_def sample_cursor_def sample_hashes_def)
      (simp add: sample_record_def seq_of_def)
qed

lemma sample_commit:
  "\<exists>s' w'. commit sample_env (SetAside 0 sample_record ''expired'' None None) sample_session
     \<lparr>wd_disk = sample_disk, wd_trace = []\<rparr> = (Inr s', w') \<and> length (wd_trace w') = 7"
proof -
  have "parse_record_name (record_name 2 ''quarantine_receipt'') = Some (2, ''quarantine_receipt'')"
    by (rule parse_record_name) (simp_all add: record_types_def valid_number_def)
  then show ?thesis
    by (simp add: commit_def quarantine_command_def session_append_def append_record_def session_move_run checkpoint_run
      sample_session_def sample_head_def sample_env_def bindIO_def stepIO_after pureIO_def Let_def sample_record_def
      session_move_def move_file_def checkpoint_recovery_def write_control_def sample_cursor_def expected_cursor_def
      del: apply_step.simps)
qed

theorem change_crash_atomic_witness:
  "\<exists>s' w' s1 w1 s5 w5. commit sample_env (SetAside 0 sample_record ''expired'' None None) sample_session
       \<lparr>wd_disk = sample_disk, wd_trace = []\<rparr> = (Inr s', w') \<and> length (wd_trace w') = 7 \<and>
     recover_session sample_env True \<lparr>wd_disk = crash_after 1 (wd_trace w') sample_disk, wd_trace = []\<rparr> = (Inr s1, w1) \<and>
     ss_records s1 = [sample_record] \<and>
     recover_session sample_env True \<lparr>wd_disk = crash_after 5 (wd_trace w') sample_disk, wd_trace = []\<rparr> = (Inr s5, w5) \<and>
     ss_records s5 = ss_records s'"
proof -
  obtain s' w' where run: "commit sample_env (SetAside 0 sample_record ''expired'' None None) sample_session
     \<lparr>wd_disk = sample_disk, wd_trace = []\<rparr> = (Inr s', w')" "length (wd_trace w') = 7"
    using sample_commit by blast
  have "slack 2 sample_env [sample_record] sample_disk" by (simp add: slack_def sample_env_def sample_disk_def)
  moreover have "last_seq 1 [sample_record] + 1 < 10 ^ 20" by (simp add: last_seq_def sample_record_def seq_of_def)
  moreover have "admissible [sample_record] (SetAside 0 sample_record ''expired'' None None)"
    by (simp add: pending_command_def canonical_def sample_record_def reason_name_def is_lower_def)
  ultimately have "\<exists>s'' w''. recover_session sample_env True \<lparr>wd_disk = crash_after k (wd_trace w') sample_disk, wd_trace = []\<rparr> =
       (Inr s'', w'') \<and> ss_records s'' = (if k < 2 then [sample_record] else ss_records s')" if "k \<le> 7" for k
    using change_crash_atomic [OF sample_env_ok sample_rested sample_well_formed _ _ _ run(1)] run(2) that by fastforce
  from this [of 1] this [of 5] show ?thesis using run by auto
qed

section \<open>A discarded retry blocks recovery\<close>

lemma transition_error: "transition_for commands discarded r = Inl e \<Longrightarrow> \<exists>m. e = ChainError ''chain_integrity'' m"
  by (auto simp: transition_for_def payload_of_def transition_command_def verify_command_binding_def command_payload_def
      chain_error_def Let_def bindE_Inl_iff split: if_splits option.splits)

lemma next_state_error: "next_state st a = Inl e \<Longrightarrow> \<exists>m. e = ChainError ''chain_integrity'' m"
  by (auto simp: next_state_def chain_error_def split: option.splits)

lemma fold_transitions_step:
  "(\<exists>m. fold_transitions commands discarded (r # rs) states = Inl (ChainError ''chain_integrity'' m)) \<or>
   (\<exists>t states'. transition_for commands discarded r = Inr t \<and>
     fold_transitions commands discarded (r # rs) states = fold_transitions commands discarded rs states')"
proof (cases "transition_for commands discarded r")
  case (Inl e)
  then show ?thesis using transition_error by fastforce
next
  case (Inr t)
  show ?thesis
  proof (cases t)
    case None
    then show ?thesis using Inr by auto
  next
    case (Some p)
    obtain n a where p: "p = (n, a)" by (cases p)
    show ?thesis
    proof (cases "map_of states n")
      case None
      then show ?thesis using Inr Some p by (auto simp: chain_error_def)
    next
      case (Some st)
      show ?thesis
      proof (cases "next_state st a")
        case (Inl e)
        then show ?thesis using next_state_error [OF Inl] Inr \<open>t = Some p\<close> p Some by auto
      next
        case (Inr st')
        then show ?thesis using \<open>transition_for commands discarded r = Inr t\<close> \<open>t = Some p\<close> p Some by auto
      qed
    qed
  qed
qed

lemma fold_transitions_blocked:
  "q \<in> set rs \<Longrightarrow> transition_for commands discarded q = Inl e \<Longrightarrow>
   \<exists>m. fold_transitions commands discarded rs states = Inl (ChainError ''chain_integrity'' m)"
proof (induction rs arbitrary: states)
  case (Cons r rs)
  show ?case
    using fold_transitions_step [of commands discarded r rs states]
  proof
    assume "\<exists>t states'. transition_for commands discarded r = Inr t \<and>
      fold_transitions commands discarded (r # rs) states = fold_transitions commands discarded rs states'"
    then obtain t states' where t: "transition_for commands discarded r = Inr t"
      "fold_transitions commands discarded (r # rs) states = fold_transitions commands discarded rs states'" by blast
    then have "q \<in> set rs" using Cons.prems by auto
    then show ?thesis unfolding t(2) using Cons.IH Cons.prems(2) by blast
  qed
qed simp

text \<open>
  C27. A retry that names a discarded command blocks recovery. On an intact spool (files, head and cursor
  authenticated and in place, log linked) whose cursor is behind its last record, recovery fails with a chain
  error as soon as the log holds a retry disposition of a command that is no longer there: \<open>_transition_for\<close>
  lets the quarantine receipts of discarded commands pass, but not their retries.
\<close>

theorem retried_discard_blocks_recovery:
  fixes env :: "'b spool_env"
  assumes "holds env C R (wd_disk w)" and "room env R (wd_disk w)" and "log_ok R" and "linked R H"
    and "hex_text 64 (H (last_seq 1 R))" and "env_ok env"
    and "head_on env (wd_disk w) head" and "head_fits R H head"
    and "cursor_on env (wd_disk w) (Some c)" and "cursor_fits R H (Some c)"
    and "list_all temp_name_ok (dk_temps (wd_disk w))"
    and "q \<in> set R" and "op_type (rc_opened q) = ''disposition''" and "disposition_read (op_payload (rc_opened q)) = Some x"
    and "dp_action x = ''retry''" and "command_at R (dp_seq x) = None" and "cu_seq c < last_seq 1 R"
  shows "\<exists>m w'. recover_session env True w = (Inl (ChainError ''chain_integrity'' m), w')"
proof -
  let ?next = "\<lparr>hd_seq = last_seq 1 R, hd_hash = H (last_seq 1 R)\<rparr>"
  have "Some c \<noteq> Some (expected_cursor ?next R)" using assms(17) by (auto simp: expected_cursor_def)
  moreover obtain w2 torn where run: "recover_session env True w =
     bindIO (if Some c \<noteq> Some (expected_cursor ?next R)
         then bindIO (recover_transitions True R) (\<lambda>rs. pureIO (Inr
           \<lparr>ss_head = ?next, ss_records = rs, ss_corrupt = [], ss_cursor = None, ss_torn = torn\<rparr>))
         else pureIO (Inr \<lparr>ss_head = ?next, ss_records = R, ss_corrupt = [], ss_cursor = Some c, ss_torn = torn\<rparr>))
       (checkpoint_recovery env) w2"
    using recover_prefix [OF assms(1-5,7-11,6)] by blast
  moreover have "\<exists>m. command_states R = Inl (ChainError ''chain_integrity'' m)"
  proof -
    have rd: "\<forall>r \<in> set R. readable r" and dist: "distinct (map fst (tombs R))"
      using assms(3) unfolding log_ok_def by blast+
    let ?D = "map (\<lambda>(n, d). (n, dp_hash d)) (tombs R)"
    have "discarded_hashes [] R = Inr ?D" using discarded_hashes_ok [OF rd, of "[]"] dist by simp
    moreover have "transition_for (commands_of R) ?D q = Inl (chain_error ''durable transition targets a missing command'')"
      using assms(13-16) by (simp add: transition_for_def payload_of_def map_of_commands)
    ultimately show ?thesis
      using fold_transitions_blocked [OF assms(12)] by (simp add: command_states_def Let_def)
  qed
  ultimately show ?thesis by (auto simp: bindIO_def recover_transitions_def pureIO_def)
qed

text \<open>
  The history of the witness: command 1 was quarantined, retried, quarantined again and discarded, and
  command 6 was being enqueued when the process stopped, after its record got its name.
\<close>

definition sample_item :: "int \<Rightarrow> string \<Rightarrow> string \<Rightarrow> members \<Rightarrow> recovered_record" where
  "sample_item n kind dir body =
     \<lparr>rc_stored = \<lparr>st_dir = dir, st_name = record_name n kind, st_seq = n, st_kind = kind, st_size = 1\<rparr>,
      rc_opened = \<lparr>op_type = kind, op_seq = n, op_pred = (if n = 1 then genesis_hash else sample_hash), op_payload = body,
        op_hash = sample_hash\<rparr>,
      rc_digest = []\<rparr>"

definition sample_quarantine :: members where
  "sample_quarantine = quarantine_dump \<lparr>qr_version = 2, qr_seq = 1, qr_hash = sample_hash, qr_reason = ''expired'',
     qr_digest = None, qr_at = [], qr_refusal = None\<rparr>"

definition sample_retry :: disposition_doc where
  "sample_retry = \<lparr>dp_version = 2, dp_seq = 1, dp_hash = sample_hash, dp_pred = None, dp_action = ''retry'',
     dp_reason = genesis_hash, dp_at = []\<rparr>"

definition sample_discard :: disposition_doc where
  "sample_discard = \<lparr>dp_version = 2, dp_seq = 1, dp_hash = sample_hash, dp_pred = Some genesis_hash, dp_action = ''discard'',
     dp_reason = genesis_hash, dp_at = []\<rparr>"

definition sample_history :: "recovered_record list" where
  "sample_history =
     [sample_item 2 ''quarantine_receipt'' ''quarantine'' sample_quarantine,
      sample_item 3 ''disposition'' ''quarantine'' (disposition_dump sample_retry),
      sample_item 4 ''quarantine_receipt'' ''quarantine'' sample_quarantine,
      sample_item 5 ''disposition'' ''quarantine'' (disposition_dump sample_discard),
      sample_item 6 ''command'' ''pending'' []]"

definition sample_store :: "int \<Rightarrow> sample_bytes" where
  "sample_store n = (case find (\<lambda>r. seq_of r = n) sample_history of Some r \<Rightarrow> Inl (rc_opened r) | None \<Rightarrow> Inr [])"

definition sample_stopped :: "sample_bytes disk" where
  "sample_stopped =
     \<lparr>dk_control = [''head'' \<mapsto> Inr (head_dump \<lparr>hd_seq = 5, hd_hash = sample_hash\<rparr>),
        ''recovery'' \<mapsto> Inr (cursor_dump \<lparr>cu_seq = 5, cu_hash = sample_hash, cu_digest = genesis_hash\<rparr>)],
      dk_files = files_of sample_store sample_history, dk_temps = [], dk_evidence = 0\<rparr>"

lemma sample_item_simps [simp]: "seq_of (sample_item n kind dir body) = n" "op_type (rc_opened (sample_item n kind dir body)) = kind"
  "op_payload (rc_opened (sample_item n kind dir body)) = body" "op_hash (rc_opened (sample_item n kind dir body)) = sample_hash"
  "op_pred (rc_opened (sample_item n kind dir body)) = (if n = 1 then genesis_hash else sample_hash)"
  by (simp_all add: sample_item_def seq_of_def)

lemma sample_reads: "disposition_read (disposition_dump sample_retry) = Some sample_retry"
  "disposition_read (disposition_dump sample_discard) = Some sample_discard"
  by (rule disposition_read_dump, simp add: valid_disposition_def sample_retry_def sample_discard_def sample_hex)+

lemma sample_item_entry:
  "kind \<in> set record_types \<Longrightarrow> valid_number n \<Longrightarrow> valid_location (rc_stored (sample_item n kind dir body)) \<Longrightarrow>
   entry_ok sample_env (Inl (rc_opened (sample_item n kind dir body))) (sample_item n kind dir body)"
  by (simp add: entry_ok_def sample_env_def) (simp add: sample_item_def)

lemma sample_location: "st_kind (rc_stored (sample_item n kind dir body)) = kind" "st_dir (rc_stored (sample_item n kind dir body)) = dir"
  by (simp_all add: sample_item_def)

lemma sample_history_holds: "holds sample_env sample_store sample_history sample_stopped"
proof -
  have asc: "ascending sample_history" by (simp add: sample_history_def ascending_def)
  have "sample_store (seq_of r) = Inl (rc_opened r)" if "r \<in> set sample_history" for r
    using that asc find_distinct [of seq_of sample_history r] by (simp add: sample_store_def ascending_def strict_sorted_iff)
  moreover have "\<forall>r \<in> set sample_history. entry_ok sample_env (Inl (rc_opened r)) r"
    unfolding sample_history_def list.set ball_simps
    by (intro conjI TrueI sample_item_entry) (simp_all add: sample_location record_types_def valid_number_def valid_location_def)
  ultimately show ?thesis using asc by (simp add: holds_def sample_stopped_def)
qed

lemma sample_history_tombs: "tombs sample_history = [(1, sample_discard)]"
  by (simp add: sample_history_def tomb_of_def sample_reads) (simp add: sample_retry_def sample_discard_def)

lemma sample_history_ok: "log_ok sample_history"
proof -
  have "\<forall>r \<in> set sample_history. 1 \<le> seq_of r \<and> readable r \<and> op_type (rc_opened r) \<noteq> ''anchor''"
    by (simp add: sample_history_def readable_def sample_reads) (simp add: sample_retry_def sample_discard_def)
  then show ?thesis
    unfolding log_ok_def sample_history_tombs using sample_history_holds by (simp add: holds_def)
qed

lemma sample_history_linked: "linked sample_history sample_hashes"
proof -
  have start: "start_of sample_history = (1, genesis_hash)" by (simp add: start_of_def sample_history_def)
  have last: "last_seq 1 sample_history = 6" by (simp add: last_seq_def sample_history_def)
  have "chain_entry sample_history (tombs sample_history) m = Some (sample_hashes (m - 1), sample_hashes m)"
    if "1 \<le> m" "m \<le> 6" for m
  proof -
    have "m \<in> {1, 2, 3, 4, 5, 6}" using that by auto
    then show ?thesis
      unfolding chain_entry_def sample_history_tombs
      by (auto simp: sample_history_def sample_hashes_def sample_discard_def)
  qed
  then show ?thesis by (simp add: linked_def start last) (simp add: sample_hashes_def)
qed

theorem retried_discard_blocks_recovery_witness:
  "\<exists>m w'. recover_session sample_env True \<lparr>wd_disk = sample_stopped, wd_trace = []\<rparr> =
     (Inl (ChainError ''chain_integrity'' m), w')"
proof -
  let ?w = "\<lparr>wd_disk = sample_stopped, wd_trace = []\<rparr>"
  let ?c = "\<lparr>cu_seq = 5, cu_hash = sample_hash, cu_digest = genesis_hash\<rparr>"
  have last: "last_seq 1 sample_history = 6" by (simp add: last_seq_def sample_history_def)
  have start: "start_of sample_history = (1, genesis_hash)" by (simp add: start_of_def sample_history_def)
  show ?thesis
  proof (rule retried_discard_blocks_recovery [where C = sample_store and R = sample_history and H = sample_hashes and
        head = "\<lparr>hd_seq = 5, hd_hash = sample_hash\<rparr>" and c = ?c and
        q = "sample_item 3 ''disposition'' ''quarantine'' (disposition_dump sample_retry)" and x = sample_retry])
    show "holds sample_env sample_store sample_history (wd_disk ?w)" using sample_history_holds by simp
    show "room sample_env sample_history (wd_disk ?w)" by (simp add: room_def sample_env_def sample_history_def sample_stopped_def)
    show "head_on sample_env (wd_disk ?w) \<lparr>hd_seq = 5, hd_hash = sample_hash\<rparr>"
      by (simp add: head_on_def sample_stopped_def sample_env_def max_control_bytes_def head_read_dump valid_head_def valid_number_def sample_hex)
    show "cursor_on sample_env (wd_disk ?w) (Some ?c)"
      by (simp add: cursor_on_def sample_stopped_def sample_env_def max_control_bytes_def cursor_read_dump valid_cursor_def valid_number_def sample_hex)
    show "head_fits sample_history sample_hashes \<lparr>hd_seq = 5, hd_hash = sample_hash\<rparr>"
      by (simp add: head_fits_def last start sample_hashes_def)
    show "cursor_fits sample_history sample_hashes (Some ?c)" by (simp add: cursor_fits_def last start sample_hashes_def)
    show "command_at sample_history (dp_seq sample_retry) = None"
      by (simp add: command_at_def sample_history_def sample_retry_def)
    show "sample_item 3 ''disposition'' ''quarantine'' (disposition_dump sample_retry) \<in> set sample_history"
      by (simp add: sample_history_def)
    show "dp_action sample_retry = ''retry''" by (simp add: sample_retry_def)
  qed (simp_all add: sample_history_ok sample_history_linked sample_env_ok sample_reads last sample_hashes_def sample_hex
      sample_stopped_def)
qed

end
