(* ===== verification/SpoolPolicy.thy ===== *)
theory SpoolPolicy
  imports SpoolTheorems
begin

text \<open>
  The policies of the spool's operations: replay takes the pending commands in their order and stops at the
  first that is not accepted, and enqueueing one command twice stores it once, within the configured capacity.
\<close>

section \<open>Ordered replay\<close>

text \<open>What it takes to be accepted: the credential that enqueued it, in time, acknowledged under its own id.\<close>

definition acknowledged :: "replay_world \<Rightarrow> string \<Rightarrow> recovered_record \<Rightarrow> bool" where
  "acknowledged rw binding r \<longleftrightarrow>
     (case command_payload (rc_opened r) of
        Inl _ \<Rightarrow> False
      | Inr e \<Rightarrow>
          ce_binding e = Some binding \<and> spoolable_operation (ce_operation e) \<and>
          (case parse_utc (ce_expires e) of None \<Rightarrow> False | Some t \<Rightarrow> rw_check rw (seq_of r) < t) \<and>
          (case rw_send rw (seq_of r) e of
             None \<Rightarrow> False
           | Some a \<Rightarrow> 200 \<le> rp_status a \<and> rp_status a < 300 \<and> map_option uuid_str (rp_command a) = Some (ce_command e) \<and>
               rp_durability a = Some ''accepted''))"

definition advanced :: "nat \<Rightarrow> bool \<Rightarrow> recovered_record list \<Rightarrow> recovered_record \<Rightarrow> recovered_record" where
  "advanced k stopped P r =
     (if r \<in> set (take k P) then moved_to ''accepted'' r
      else if stopped \<and> k < length P \<and> r = P ! k then moved_to ''quarantine'' r
      else r)"

lemma classify_accept:
  "classify_reply a expected = (Accept, why) \<Longrightarrow> 200 \<le> rp_status a \<and> rp_status a < 300 \<and>
     map_option uuid_str (rp_command a) = Some expected \<and> rp_durability a = Some ''accepted''"
  by (auto simp: classify_reply_def success_decision_def Let_def split: if_splits)

lemma replace_first_append: "x \<in> set xs \<Longrightarrow> replace_first x y (xs @ ys) = replace_first x y xs @ ys"
  by (induction xs) auto

lemma filter_replace_first: "P x \<Longrightarrow> P y \<Longrightarrow> filter P (replace_first x y xs) = replace_first x y (filter P xs)"
  by (induction xs) auto

lemma session_append_records:
  "session_append env kind dir body s w = (Inr (r, s'), w') \<Longrightarrow>
   ss_records s' = ss_records s @ [r] \<and> op_type (rc_opened r) = kind \<and> ss_corrupt s' = ss_corrupt s"
  by (auto simp: session_append_def bindIO_Inr_iff Let_def split: if_splits prod.splits)

lemma session_move_records:
  "session_move r dst s w = (Inr (m, s'), w') \<Longrightarrow>
   ss_records s' = replace_first r (moved_to dst r) (ss_records s) \<and> ss_corrupt s' = ss_corrupt s"
  by (auto simp: session_move_def move_file_def bindIO_Inr_iff Let_def moved_to_def split: if_splits)

lemma receipt_then_move:
  assumes "session_append env kind dir body s w = (Inr (q, s1), w1)" and "session_move r dst s1 w1 = (Inr (m, s'), w')"
    and "r \<in> set (session_commands s)" and "kind \<noteq> ''command''" and "distinct (session_commands s)"
  shows "session_commands s' = map (\<lambda>x. if x = r then moved_to dst r else x) (session_commands s)"
proof -
  note A = session_append_records [OF assms(1)] and M = session_move_records [OF assms(2)]
  have r: "r \<in> set (ss_records s)" "op_type (rc_opened r) = ''command''" using assms(3) by (auto simp: session_commands_def)
  have "ss_records s' = replace_first r (moved_to dst r) (ss_records s) @ [q]"
    using A M replace_first_append [OF r(1)] by simp
  then have "session_commands s' = replace_first r (moved_to dst r) (session_commands s)"
    using A assms(4) r(2) by (simp add: session_commands_def filter_replace_first)
  then show ?thesis using replace_first_map [OF assms(5)] by simp
qed

lemma quarantine_effect:
  assumes "quarantine_command env now r reason response refused s w = (Inr s', w')"
    and "r \<in> set (session_commands s)" and "distinct (session_commands s)"
  shows "session_commands s' = map (\<lambda>x. if x = r then moved_to ''quarantine'' r else x) (session_commands s)"
  using assms by (auto simp: quarantine_command_def bindIO_Inr_iff dest!: receipt_then_move)

lemma accept_effect:
  assumes "accept_command env now r e response s w = (Inr s', w')"
    and "r \<in> set (session_commands s)" and "distinct (session_commands s)"
  shows "session_commands s' = map (\<lambda>x. if x = r then moved_to ''accepted'' r else x) (session_commands s)"
  using assms by (auto simp: accept_command_def bindIO_Inr_iff Let_def dest!: receipt_then_move)

lemma advanced_none: "advanced 0 False P r = r"
  by (simp add: advanced_def)

lemma advanced_stop: "advanced 0 True (r # P) x = (if x = r then moved_to ''quarantine'' r else x)"
  by (simp add: advanced_def)

lemma advanced_step:
  assumes "st_dir (rc_stored r) = ''pending''" and "\<forall>q \<in> set P. st_dir (rc_stored q) = ''pending''" and "r \<notin> set P"
  shows "advanced k stopped P (if x = r then moved_to ''accepted'' r else x) = advanced (Suc k) stopped (r # P) x"
proof (cases "x = r")
  case True
  have "moved_to ''accepted'' r \<notin> set P"
  proof
    assume "moved_to ''accepted'' r \<in> set P"
    then show False using assms(2) by fastforce
  qed
  then have "moved_to ''accepted'' r \<notin> set (take k P)" "k < length P \<Longrightarrow> moved_to ''accepted'' r \<noteq> P ! k"
    using set_take_subset [of k P] by auto
  then show ?thesis using True by (auto simp: advanced_def)
next
  case False
  then show ?thesis by (simp add: advanced_def)
qed

lemma classify_not_accept: "classify_reply (plain_response 422) e = (d, why) \<Longrightarrow> d \<noteq> Accept"
  "classify_reply (plain_response 503) e = (d, why) \<Longrightarrow> d \<noteq> Accept"
  by (auto simp: classify_reply_def plain_response_def)

lemma accepted_acknowledged:
  assumes "command_payload (rc_opened r) = Inr e" and "binding_refusal e binding = None" and "parse_utc (ce_expires e) = Some t"
    and "\<not> rw_check rw (seq_of r) \<ge> t"
    and "classify_reply (execute_command (rw_send rw (seq_of r)) e) (ce_command e) = (Accept, why)"
  shows "acknowledged rw binding r"
proof -
  have "spoolable_operation (ce_operation e)" "rw_send rw (seq_of r) e \<noteq> None"
    using assms(5) classify_not_accept by (fastforce simp: execute_command_def split: if_splits option.splits)+
  then obtain a where "rw_send rw (seq_of r) e = Some a" "execute_command (rw_send rw (seq_of r)) e = a"
    using assms(5) classify_not_accept(1) by (fastforce simp: execute_command_def split: if_splits)
  then show ?thesis
    using assms classify_accept [of a "ce_command e" why] \<open>spoolable_operation (ce_operation e)\<close>
    by (auto simp: acknowledged_def binding_refusal_def split: option.splits if_splits)
qed

lemma drain_loop_ok:
  assumes "distinct (map seq_of (session_commands s))" and "distinct P" and "set P \<subseteq> set (session_commands s)"
    and "\<forall>q \<in> set P. st_dir (rc_stored q) = ''pending''"
    and "drain_loop env rw binding P (a, acc, q, why) s w = (Inr ((a', acc', q', why'), s'), w')"
  shows "\<exists>k stopped. k \<le> length P \<and> (stopped \<longrightarrow> k < length P) \<and> acc' = acc + k \<and> q' = q + (if stopped then 1 else 0) \<and>
     (\<forall>i < k. acknowledged rw binding (P ! i)) \<and> session_commands s' = map (advanced k stopped P) (session_commands s)"
  using assms
proof (induction P arbitrary: a acc q why s w)
  case Nil
  then show ?case by (intro exI [of _ 0] exI [of _ False]) (simp add: advanced_none [abs_def])
next
  case (Cons r P)
  let ?n = "st_seq (rc_stored r)"
  have r: "r \<in> set (session_commands s)" and rest: "r \<notin> set P" "distinct P" and pend: "st_dir (rc_stored r) = ''pending''"
    "\<forall>q \<in> set P. st_dir (rc_stored q) = ''pending''"
    using Cons.prems by auto
  have dist: "distinct (session_commands s)" using Cons.prems(1) by (simp add: distinct_map)
  obtain e where e: "command_payload (rc_opened r) = Inr e"
    using Cons.prems(5) by (auto simp: bindIO_Inr_iff Let_def)
  have stop: ?case if run: "quarantine_command env now r reason response refused s w = (Inr s', w')" and q: "q' = q + 1" "acc' = acc"
    for now reason response refused
    using quarantine_effect [OF run r dist] q
    by (intro exI [of _ 0] exI [of _ True]) (simp add: advanced_stop cong: map_cong)
  show ?case
  proof (cases "binding_refusal e binding")
    case (Some x)
    then have "quarantine_command env (rw_stamp rw ?n) r x None None s w = (Inr s', w') \<and> q' = q + 1 \<and> acc' = acc"
      using Cons.prems(5) e by (auto simp: bindIO_Inr_iff Let_def)
    then show ?thesis using stop by blast
  next
    case refusal: None
    obtain t where t: "parse_utc (ce_expires e) = Some t"
      using Cons.prems(5) e refusal by (auto simp: bindIO_Inr_iff Let_def split: option.splits)
    show ?thesis
    proof (cases "rw_check rw ?n \<ge> t")
      case True
      then have "quarantine_command env (rw_stamp rw ?n) r ''expired'' None None s w = (Inr s', w') \<and> q' = q + 1 \<and> acc' = acc"
        using Cons.prems(5) e refusal t by (auto simp: bindIO_Inr_iff Let_def)
      then show ?thesis using stop by blast
    next
      case live: False
      let ?response = "execute_command (rw_send rw ?n) e"
      obtain d reason where d: "classify_reply ?response (ce_command e) = (d, reason)" by (cases "classify_reply ?response (ce_command e)")
      show ?thesis
      proof (cases d)
        case Quarantine
        then have "quarantine_command env (rw_stamp rw ?n) r reason (rp_response ?response) (rp_refusal ?response) s w = (Inr s', w') \<and>
            q' = q + 1 \<and> acc' = acc"
          using Cons.prems(5) e refusal t live d by (auto simp: bindIO_Inr_iff Let_def)
        then show ?thesis using stop by blast
      next
        case KeepPending
        then have "s' = s" "acc' = acc" "q' = q" using Cons.prems(5) e refusal t live d by (auto simp: bindIO_Inr_iff Let_def)
        then show ?thesis by (intro exI [of _ 0] exI [of _ False]) (simp add: advanced_none [abs_def])
      next
        case Accept
        obtain s1 w1 where s1: "accept_command env (rw_stamp rw ?n) r e ?response s w = (Inr s1, w1)"
          "drain_loop env rw binding P (a + 1, acc + 1, q, reason) s1 w1 = (Inr ((a', acc', q', why'), s'), w')"
          using Cons.prems(5) e refusal t live d Accept by (auto simp: bindIO_Inr_iff Let_def)
        have step: "session_commands s1 = map (\<lambda>x. if x = r then moved_to ''accepted'' r else x) (session_commands s)"
          by (rule accept_effect [OF s1(1) r dist])
        have "map seq_of (session_commands s1) = map seq_of (session_commands s)" unfolding step by simp
        moreover have "set P \<subseteq> set (session_commands s1)" using Cons.prems(3) rest(1) unfolding step by auto
        ultimately obtain k stopped where k: "k \<le> length P" "stopped \<longrightarrow> k < length P" "acc' = acc + 1 + k"
          "q' = q + (if stopped then 1 else 0)" "\<forall>i < k. acknowledged rw binding (P ! i)"
          "session_commands s' = map (advanced k stopped P) (session_commands s1)"
          using Cons.IH [OF _ rest(2) _ pend(2) s1(2)] Cons.prems(1) by auto
        have "acknowledged rw binding r"
          using accepted_acknowledged [OF e refusal t] live d Accept by (simp add: seq_of_def)
        then have "\<forall>i < Suc k. acknowledged rw binding ((r # P) ! i)" using k(5) by (simp add: nth_Cons split: nat.split)
        moreover have "session_commands s' = map (advanced (Suc k) stopped (r # P)) (session_commands s)"
          unfolding k(6) step map_map by (rule map_cong) (simp_all add: advanced_step [OF pend rest(1)])
        ultimately show ?thesis using k(1-4) by (intro exI [of _ "Suc k"] exI [of _ stopped]) simp
      qed
    qed
  qed
qed

definition pending_queue :: "session \<Rightarrow> recovered_record list" where
  "pending_queue s =
     filter (\<lambda>r. st_dir (rc_stored r) = ''pending'') (sort_key (\<lambda>r. st_seq (rc_stored r)) (session_commands s))"

abbreviation (input) ordered_commands :: "session \<Rightarrow> recovered_record list" where
  "ordered_commands s \<equiv> sort_key (\<lambda>r. st_seq (rc_stored r)) (session_commands s)"

text \<open>The test of the replay: the first quarantined command is ahead of the queue, or there is no queue.\<close>

definition replay_blocked :: "session \<Rightarrow> bool" where
  "replay_blocked s \<longleftrightarrow>
     (case find (\<lambda>r. st_dir (rc_stored r) = ''quarantine'') (ordered_commands s) of
        None \<Rightarrow> False
      | Some b \<Rightarrow> pending_queue s = [] \<or> st_seq (rc_stored b) < st_seq (rc_stored (hd (pending_queue s))))"

lemma ordered_sorted: "sorted (map seq_of (ordered_commands s))"
  unfolding seq_of_def [abs_def] by (rule sorted_sort_key)

lemma pending_sorted: "sorted (map seq_of (pending_queue s))"
  unfolding pending_queue_def by (rule sorted_filter [OF ordered_sorted])

lemma quarantined_ahead_blocks:
  assumes "c \<in> set (session_commands s)" and "st_dir (rc_stored c) = ''quarantine''" and "seq_of c < seq_of (hd (pending_queue s))"
  shows "replay_blocked s"
proof -
  let ?C = "ordered_commands s"
  have "c \<in> set ?C" using assms(1) by simp
  then obtain i where i: "i < length ?C" "?C ! i = c" by (meson in_set_conv_nth)
  obtain b where b: "find (\<lambda>r. st_dir (rc_stored r) = ''quarantine'') ?C = Some b"
    using assms(2) \<open>c \<in> set ?C\<close> by (cases "find (\<lambda>r. st_dir (rc_stored r) = ''quarantine'') ?C") (auto simp: find_None_iff)
  then obtain j where j: "j < length ?C" "?C ! j = b" "\<forall>m < j. st_dir (rc_stored (?C ! m)) \<noteq> ''quarantine''"
    by (auto simp: find_Some_iff)
  have "j \<le> i" using i(2) assms(2) j(3) by (metis not_le)
  then have "seq_of b \<le> seq_of c" using ordered_sorted i j by (metis length_map nth_map sorted_iff_nth_mono)
  then show ?thesis using b assms(3) by (simp add: replay_blocked_def seq_of_def)
qed

lemma drain_session_cases:
  assumes "drain_session env rw binding s w = (Inr (report, s'), w')"
  shows "replay_blocked s \<and> dr_accepted report = 0 \<and> dr_quarantined report = 0 \<and> s' = s \<or>
    \<not> replay_blocked s \<and> (\<exists>a acc q why. drain_loop env rw binding (pending_queue s) (0, 0, 0, ''empty'') s w =
       (Inr ((a, acc, q, why), s'), w') \<and> dr_accepted report = acc \<and> dr_quarantined report = q)"
proof -
  have corrupt: "ss_corrupt s = []" using assms by (auto simp: drain_session_def split: if_splits)
  show ?thesis
  proof (cases "replay_blocked s")
    case True
    then show ?thesis
      using assms corrupt unfolding drain_session_def Let_def replay_blocked_def pending_queue_def by (auto split: if_splits)
  next
    case False
    have "drain_session env rw binding s w =
        bindIO (drain_loop env rw binding (pending_queue s) (0, 0, 0, ''empty'') s) (\<lambda>((attempted, accepted, quarantined, reason), s).
          pureIO (Inr (\<lparr>dr_attempted = attempted, dr_accepted = accepted, dr_quarantined = quarantined,
            dr_remaining = remaining_pending s, dr_barrier = quarantine_barrier s, dr_reason = reason\<rparr>, s))) w"
      using corrupt False unfolding drain_session_def Let_def replay_blocked_def pending_queue_def
      by (simp del: drain_loop.simps)
    from trans [OF sym [OF this] assms] show ?thesis
      using False unfolding bindIO_Inr_iff by (auto simp del: drain_loop.simps)
  qed
qed

text \<open>
  C26. Replay is in order. A drain that returns accepted the first \<open>k\<close> pending commands in the order of their
  sequence, each of them allowed by policy, unexpired, sent under the credential that enqueued it and acknowledged as
  accepted under its own command ID; it quarantined at most the next one, and left every other command as it
  was. Behind a quarantined command nothing is replayed.
\<close>

theorem drain_in_order:
  assumes "drain_session env rw binding s w = (Inr (report, s'), w')" and "distinct (map seq_of (session_commands s))"
  shows "sorted (map seq_of (pending_queue s)) \<and>
    (\<exists>k stopped. k \<le> length (pending_queue s) \<and> (stopped \<longrightarrow> k < length (pending_queue s)) \<and>
       dr_accepted report = k \<and> dr_quarantined report = (if stopped then 1 else 0) \<and>
       (\<forall>i < k. acknowledged rw binding (pending_queue s ! i)) \<and>
       session_commands s' = map (advanced k stopped (pending_queue s)) (session_commands s) \<and>
       (\<forall>c \<in> set (session_commands s).
          st_dir (rc_stored c) = ''quarantine'' \<and> pending_queue s \<noteq> [] \<and> seq_of c < seq_of (hd (pending_queue s)) \<longrightarrow>
            k = 0 \<and> \<not> stopped))"
  using drain_session_cases [OF assms(1)]
proof
  assume "replay_blocked s \<and> dr_accepted report = 0 \<and> dr_quarantined report = 0 \<and> s' = s"
  then show ?thesis
    using pending_sorted by (intro conjI exI [of _ 0] exI [of _ False]) (simp_all add: advanced_none [abs_def])
next
  let ?P = "pending_queue s"
  assume run: "\<not> replay_blocked s \<and> (\<exists>a acc q why. drain_loop env rw binding ?P (0, 0, 0, ''empty'') s w =
     (Inr ((a, acc, q, why), s'), w') \<and> dr_accepted report = acc \<and> dr_quarantined report = q)"
  then obtain a acc q why where loop: "drain_loop env rw binding ?P (0, 0, 0, ''empty'') s w = (Inr ((a, acc, q, why), s'), w')"
    "dr_accepted report = acc" "dr_quarantined report = q" by blast
  have "distinct ?P" "set ?P \<subseteq> set (session_commands s)" "\<forall>q \<in> set ?P. st_dir (rc_stored q) = ''pending''"
    using assms(2) by (auto simp: pending_queue_def distinct_map)
  from drain_loop_ok [OF assms(2) this loop(1)] obtain k stopped where "k \<le> length ?P" "stopped \<longrightarrow> k < length ?P" "acc = k"
    "q = (if stopped then 1 else 0)" "\<forall>i < k. acknowledged rw binding (?P ! i)"
    "session_commands s' = map (advanced k stopped ?P) (session_commands s)" by auto
  then show ?thesis using pending_sorted loop(2,3) quarantined_ahead_blocks run by blast
qed

text \<open>A pending command with a binding and a deadline, and a server that acknowledges it.\<close>

definition sample_envelope :: command_envelope where
  "sample_envelope =
     \<lparr>ce_version = 2, ce_operation = ''createTicket'', ce_path = [], ce_body = [], ce_command = uuid_str 5,
      ce_origin = sample_hash, ce_enqueued = ''2026-01-01T00:00:00.000000Z'', ce_expires = ''2026-01-08T00:00:00.000000Z'',
      ce_semantic = sample_hash, ce_binding = Some sample_hash\<rparr>"

definition sample_pending :: recovered_record where
  "sample_pending = sample_item 1 ''command'' ''pending'' (envelope_dump sample_envelope)"

definition sample_world :: replay_world where
  "sample_world =
     \<lparr>rw_send = (\<lambda>_ _. Some ((plain_response 201)\<lparr>rp_command := Some 5, rp_durability := Some ''accepted''\<rparr>)),
      rw_check = (\<lambda>_. 0), rw_stamp = (\<lambda>_. 0)\<rparr>"

lemma sample_payload: "command_payload (rc_opened sample_pending) = Inr sample_envelope"
proof -
  have "valid_envelope sample_envelope"
    by (simp add: valid_envelope_def sample_envelope_def sample_hex operation_name_def list_all_iff is_lower_def is_digit_def)
  then have "envelope_read (envelope_dump sample_envelope) = Some sample_envelope" by (rule envelope_read_dump)
  moreover have "uuid_text (uuid_str 5)" by code_simp
  moreover have "parse_utc ''2026-01-01T00:00:00.000000Z'' \<noteq> None" "parse_utc ''2026-01-08T00:00:00.000000Z'' \<noteq> None"
    by code_simp+
  moreover have "sample_hash \<noteq> genesis_hash" by (simp add: sample_hash_def genesis_hash_def)
  ultimately show ?thesis
    by (simp add: command_payload_def sample_pending_def) (simp add: sample_envelope_def)
qed

lemma sample_deadline: "\<exists>t. parse_utc (ce_expires sample_envelope) = Some t \<and> 0 < t"
proof -
  have "case parse_utc ''2026-01-08T00:00:00.000000Z'' of None \<Rightarrow> False | Some t \<Rightarrow> 0 < t" by code_simp
  then show ?thesis by (simp add: sample_envelope_def split: option.splits)
qed

lemma sample_drain:
  "\<exists>report s' w'. drain_session sample_env sample_world sample_hash (sample_session\<lparr>ss_records := [sample_pending]\<rparr>)
     \<lparr>wd_disk = sample_disk, wd_trace = []\<rparr> = (Inr (report, s'), w') \<and> dr_accepted report = 1"
proof -
  have name: "parse_record_name (record_name 2 ''accepted_receipt'') = Some (2, ''accepted_receipt'')"
    by (rule parse_record_name) (simp_all add: record_types_def valid_number_def)
  obtain t where t: "parse_utc (ce_expires sample_envelope) = Some t" "0 < t" using sample_deadline by blast
  have e: "ce_binding sample_envelope = Some sample_hash" "ce_path sample_envelope = []" "ce_body sample_envelope = []"
    "ce_command sample_envelope = uuid_str 5" "spoolable_operation (ce_operation sample_envelope)"
    by (simp_all add: sample_envelope_def spoolable_operation_def operations_def)
  have r: "op_type (rc_opened sample_pending) = ''command''" "st_seq (rc_stored sample_pending) = 1"
    "st_dir (rc_stored sample_pending) = ''pending''"
    by (simp_all add: sample_pending_def sample_item_def)
  have "session_commands (sample_session\<lparr>ss_records := [sample_pending]\<rparr>) = [sample_pending]"
    using r by (simp add: session_commands_def)
  then show ?thesis
    using name t e r sample_payload
    by (simp add: drain_session_def sample_session_def bindIO_def pureIO_def binding_refusal_def sample_world_def
      execute_command_def classify_reply_def success_decision_def plain_response_def accept_command_def Let_def
      session_append_def sample_env_def append_record_def stepIO_after sample_head_def session_move_def move_file_def
      del: apply_step.simps)
qed

theorem drain_in_order_witness:
  "\<exists>report s' w'. drain_session sample_env sample_world sample_hash (sample_session\<lparr>ss_records := [sample_pending]\<rparr>)
       \<lparr>wd_disk = sample_disk, wd_trace = []\<rparr> = (Inr (report, s'), w') \<and> dr_accepted report = 1 \<and>
     acknowledged sample_world sample_hash sample_pending \<and> session_commands s' = [moved_to ''accepted'' sample_pending]"
proof -
  let ?s = "sample_session\<lparr>ss_records := [sample_pending]\<rparr>"
  obtain report s' w' where run: "drain_session sample_env sample_world sample_hash ?s
     \<lparr>wd_disk = sample_disk, wd_trace = []\<rparr> = (Inr (report, s'), w')" "dr_accepted report = 1"
    using sample_drain by blast
  have cmds: "session_commands ?s = [sample_pending]" "st_dir (rc_stored sample_pending) = ''pending''"
    by (simp_all add: session_commands_def sample_pending_def) (simp add: sample_item_def)
  from drain_in_order [OF run(1)] obtain k stopped where "k \<le> 1" "dr_accepted report = k"
    "\<forall>i < k. acknowledged sample_world sample_hash ([sample_pending] ! i)"
    "session_commands s' = map (advanced k stopped [sample_pending]) [sample_pending]"
    unfolding pending_queue_def cmds(1) by (auto simp: cmds(2))
  then show ?thesis using run by (auto simp: advanced_def)
qed

end
