(* ===== verification/SpoolTamper.thy ===== *)
theory SpoolTamper
  imports SpoolLog
begin

text \<open>
  The chain of \<open>_chain.py\<close> read backwards: two lists of records that validate and end in the same hash agree
  wherever both reach and no corrupt record lies above, as long as a hash names one record. The hash of a
  corrupt record is taken from its successor or from the head, so it says nothing of what comes before it.
\<close>

section \<open>Links\<close>

text \<open>A link is a hash with the sequence it stands for and its predecessor, in a record or in a tombstone.\<close>

type_synonym link = "string \<times> int \<times> string"

definition record_link :: "recovered_record \<Rightarrow> link" where
  "record_link r = (op_hash (rc_opened r), st_seq (rc_stored r), op_pred (rc_opened r))"

definition tomb_link :: "int \<times> disposition_doc \<Rightarrow> link list" where
  "tomb_link t = (case dp_pred (snd t) of None \<Rightarrow> [] | Some p \<Rightarrow> [(dp_hash (snd t), fst t, p)])"

definition links :: "recovered_record list \<Rightarrow> link list" where
  "links R = map record_link R @ concat (map tomb_link (tombs R))"

definition collision_free :: "link list \<Rightarrow> bool" where
  "collision_free L \<longleftrightarrow> (\<forall>x \<in> set L. \<forall>y \<in> set L. fst x = fst y \<longrightarrow> x = y)"

text \<open>A chain whose entries are links, but for the sequences in \<open>K\<close>, whose records are corrupt.\<close>

fun chain_of :: "int set \<Rightarrow> link list \<Rightarrow> int \<Rightarrow> string \<Rightarrow> (int \<times> string) list \<Rightarrow> bool" where
  "chain_of K L n pred [] = True"
| "chain_of K L n pred ((m, h) # ts) \<longleftrightarrow> m = n \<and> (n \<in> K \<or> (h, n, pred) \<in> set L) \<and> chain_of K L (n + 1) h ts"

definition last_hash :: "string \<Rightarrow> (int \<times> string) list \<Rightarrow> string" where
  "last_hash pred ts = (if ts = [] then pred else snd (last ts))"

lemma chain_of_append:
  "chain_of K L n pred (xs @ ys) \<longleftrightarrow>
     chain_of K L n pred xs \<and> chain_of K L (n + int (length xs)) (last_hash pred xs) ys"
  by (induction xs arbitrary: n pred) (auto simp: last_hash_def algebra_simps)

lemma chain_of_bounds: "chain_of K L n pred ts \<Longrightarrow> (m, h) \<in> set ts \<Longrightarrow> n \<le> m \<and> m < n + int (length ts)"
  by (induction ts arbitrary: n pred) fastforce+

lemma chain_of_mono:
  "chain_of K L n pred ts \<Longrightarrow> set L \<subseteq> set L' \<Longrightarrow> K \<subseteq> K' \<Longrightarrow> chain_of K' L' n pred ts"
  by (induction ts arbitrary: n pred) auto

lemma chain_of_last: "chain_of K L n pred ts \<Longrightarrow> ts \<noteq> [] \<Longrightarrow> last ts = (n + int (length ts) - 1, last_hash pred ts)"
  by (cases ts rule: rev_cases) (auto simp: chain_of_append last_hash_def)

lemma chain_of_last_link:
  assumes "chain_of K L n pred ts" and "ts \<noteq> []" and "fst (last ts) \<notin> K"
  shows "\<exists>p. (snd (last ts), fst (last ts), p) \<in> set L"
  using assms by (cases ts rule: rev_cases) (auto simp: chain_of_append)

lemma collision_freeD: "collision_free L \<Longrightarrow> (h, x) \<in> set L \<Longrightarrow> (h, y) \<in> set L \<Longrightarrow> x = y"
  unfolding collision_free_def by fastforce

lemma ends_agree:
  assumes "collision_free L" and "chain_of K L n p ts" and "chain_of K L n' p' ts'" and "ts \<noteq> []" and "ts' \<noteq> []"
    and "snd (last ts) = snd (last ts')" and "fst (last ts) \<notin> K" and "fst (last ts') \<notin> K"
  shows "fst (last ts) = fst (last ts')"
  using chain_of_last_link [OF assms(2,4,7)] chain_of_last_link [OF assms(3,5,8)] assms(6)
  by (auto dest: collision_freeD [OF assms(1)])

lemma chains_agree:
  assumes "collision_free L" and "chain_of K L n p ts" and "chain_of K L n' p' ts'" and "ts \<noteq> []" and "ts' \<noteq> []"
    and "last ts = last ts'"
  shows "(m, h) \<in> set ts \<Longrightarrow> (m, h') \<in> set ts' \<Longrightarrow> \<forall>k \<in> K. k \<le> m \<Longrightarrow> h = h'"
  using assms(2-6)
proof (induction ts arbitrary: ts' rule: rev_induct)
  case (snoc x xs)
  obtain y ys where ts': "ts' = ys @ [y]" using snoc.prems(7) by (cases ts' rule: rev_cases) auto
  obtain k z where x: "x = (k, z)" by (cases x)
  have y: "y = (k, z)" using snoc.prems(8) by (simp add: x ts')
  have xs: "chain_of K L n p xs" "k = n + int (length xs)" "k \<in> K \<or> (z, k, last_hash p xs) \<in> set L"
    using snoc.prems(4) by (auto simp: chain_of_append x)
  have ys: "chain_of K L n' p' ys" "k = n' + int (length ys)" "k \<in> K \<or> (z, k, last_hash p' ys) \<in> set L"
    using snoc.prems(5) by (auto simp: ts' chain_of_append y)
  have low: "(m, w) \<in> set xs \<Longrightarrow> m < k" "(m, w) \<in> set ys \<Longrightarrow> m < k" for w
    using chain_of_bounds [OF xs(1)] chain_of_bounds [OF ys(1)] xs(2) ys(2) by auto
  show "h = h'"
  proof (cases "m = k")
    case True
    then show ?thesis using snoc.prems(1,2) low by (auto simp: x y ts')
  next
    case False
    then have mem: "(m, h) \<in> set xs" "(m, h') \<in> set ys" using snoc.prems(1,2) by (auto simp: x y ts')
    then have ne: "xs \<noteq> []" "ys \<noteq> []" by auto
    have "k \<notin> K" using low(1) [OF mem(1)] snoc.prems(3) by auto
    then have "last_hash p xs = last_hash p' ys"
      using xs(3) ys(3) by (auto dest: collision_freeD [OF assms(1)])
    then have "last xs = last ys"
      using chain_of_last [OF xs(1) ne(1)] chain_of_last [OF ys(1) ne(2)] xs(2) ys(2) by simp
    then show ?thesis by (rule snoc.IH [OF mem snoc.prems(3) xs(1) ys(1) ne])
  qed
qed simp

section \<open>What the validation proves\<close>

lemma bridge_gap_chain:
  assumes "bridge_gap discarded k n pred hashes = Inr (p, hs)"
    and "\<And>m d. map_of discarded m = Some d \<Longrightarrow> set (tomb_link (m, d)) \<subseteq> set L"
  shows "\<exists>ts. hs = hashes @ ts \<and> length ts = k \<and> chain_of K L n pred ts \<and> p = last_hash pred ts"
  using assms(1)
proof (induction k arbitrary: n pred hashes)
  case 0
  then show ?case by (simp add: last_hash_def)
next
  case (Suc k)
  then obtain h where h: "bridge_discarded discarded n pred = Inr h"
    "bridge_gap discarded k (n + 1) h (hashes @ [(n, h)]) = Inr (p, hs)" by (auto simp: bindE_Inr_iff)
  then obtain d where d: "map_of discarded n = Some d" "dp_pred d = Some pred" "dp_hash d = h"
    by (auto simp: bridge_discarded_def split: option.splits if_splits)
  obtain ts where ts: "hs = (hashes @ [(n, h)]) @ ts" "length ts = k" "chain_of K L (n + 1) h ts" "p = last_hash h ts"
    using Suc.IH [OF h(2)] by blast
  have "(h, n, pred) \<in> set L" using assms(2) [OF d(1)] d by (simp add: tomb_link_def)
  then show ?case using ts by (intro exI [of _ "(n, h) # ts"]) (auto simp: last_hash_def)
qed

fun item_entry :: "chain_item \<Rightarrow> (int \<times> string) set" where
  "item_entry (Good r) = {(st_seq (rc_stored r), op_hash (rc_opened r))}"
| "item_entry (Bad c) = {}"

fun item_linked :: "int set \<Rightarrow> link list \<Rightarrow> chain_item \<Rightarrow> bool" where
  "item_linked K L (Good r) \<longleftrightarrow> record_link r \<in> set L"
| "item_linked K L (Bad c) \<longleftrightarrow> st_seq (co_stored c) \<in> K"

text \<open>One item of the loop: the gap before it is bridged, and the hash it adds is a link or that of a corrupt record.\<close>

lemma chain_loop_step:
  assumes "chain_loop discarded dispositions head (q # Q) n pred hashes active = Inr (hs, active')"
    and "item_linked K L q"
  obtains p gs h a where "bridge_gap discarded (nat (item_seq q - n)) n pred hashes = Inr (p, gs)" "n \<le> item_seq q"
    "item_seq q \<in> K \<or> (h, item_seq q, p) \<in> set L" "item_entry q \<subseteq> {(item_seq q, h)}"
    "chain_loop discarded dispositions head Q (item_seq q + 1) h (gs @ [(item_seq q, h)]) a = Inr (hs, active')"
proof (cases q)
  case (Good r)
  then show ?thesis
    using assms that [of "op_pred (rc_opened r)" _ "op_hash (rc_opened r)" active]
    by (auto simp: bindE_Inr_iff Let_def record_link_def seq_of_def max_def split: if_splits)
next
  case (Bad c)
  obtain p gs where gap: "bridge_gap discarded (nat (item_seq q - n)) n pred hashes = Inr (p, gs)"
      and s: "max n (item_seq q) = item_seq q"
    using assms(1) by (auto simp: bindE_Inr_iff Let_def split: if_splits)
  obtain h a where "chain_loop discarded dispositions head Q (item_seq q + 1) h (gs @ [(item_seq q, h)]) a = Inr (hs, active')"
    using assms(1) gap s by (auto simp: Bad bindE_Inr_iff Let_def split: option.splits)
  moreover have "n \<le> item_seq q" "item_seq q \<in> K" "item_entry q \<subseteq> {(item_seq q, h)}"
    using s assms(2) by (simp_all add: Bad item_seq.simps)
  ultimately show ?thesis by (intro that [OF gap]) simp_all
qed

lemma chain_loop_chain:
  assumes "chain_loop discarded dispositions head Q n pred hashes active = Inr (hs, active')"
    and "\<And>m d. map_of discarded m = Some d \<Longrightarrow> set (tomb_link (m, d)) \<subseteq> set L" and "\<forall>q \<in> set Q. item_linked K L q"
  shows "\<exists>ts. hs = hashes @ ts \<and> chain_of K L n pred ts \<and> (\<forall>q \<in> set Q. item_entry q \<subseteq> set ts)"
  using assms(1,3)
proof (induction Q arbitrary: n pred hashes active)
  case (Cons q Q)
  let ?s = "item_seq q"
  have "item_linked K L q" using Cons.prems(2) by simp
  from chain_loop_step [OF Cons.prems(1) this] obtain p gs h a
    where gap: "bridge_gap discarded (nat (?s - n)) n pred hashes = Inr (p, gs)" and s: "n \<le> ?s"
      and link: "?s \<in> K \<or> (h, ?s, p) \<in> set L" and entry: "item_entry q \<subseteq> {(?s, h)}"
      and rest: "chain_loop discarded dispositions head Q (?s + 1) h (gs @ [(?s, h)]) a = Inr (hs, active')" .
  obtain ts where ts: "gs = hashes @ ts" "length ts = nat (?s - n)" "chain_of K L n pred ts" "p = last_hash pred ts"
    using bridge_gap_chain [OF gap assms(2)] by blast
  obtain us where us: "hs = (gs @ [(?s, h)]) @ us" "chain_of K L (?s + 1) h us" "\<forall>q \<in> set Q. item_entry q \<subseteq> set us"
    using Cons.IH [OF rest] Cons.prems(2) by auto
  have "n + int (length ts) = ?s" using ts(2) s by simp
  then have "chain_of K L n pred (ts @ (?s, h) # us)" using ts(3,4) us(2) link by (simp add: chain_of_append)
  then show ?case using ts(1) us(1,3) entry by (intro exI [of _ "ts @ (?s, h) # us"]) auto
qed simp

lemma discarded_tombs: "discarded_tombstones acc R = Inr D \<Longrightarrow> set D \<subseteq> set acc \<union> set (tombs R)"
proof (induction R arbitrary: acc)
  case (Cons r R)
  show ?case
  proof (cases "op_type (rc_opened r) = ''disposition''")
    case False
    then show ?thesis using Cons.IH [of acc] Cons.prems by (simp add: tomb_of_def)
  next
    case True
    then obtain d where d: "disposition_read (op_payload (rc_opened r)) = Some d"
      using Cons.prems by (auto simp: bindE_Inr_iff payload_of_def split: option.splits)
    show ?thesis
    proof (cases "dp_action d = ''discard''")
      case True
      then have "discarded_tombstones (acc @ [(dp_seq d, d)]) R = Inr D"
        using Cons.prems d \<open>op_type (rc_opened r) = ''disposition''\<close> by (auto simp: payload_of_def split: if_splits)
      from Cons.IH [OF this] show ?thesis using True d \<open>op_type (rc_opened r) = ''disposition''\<close> by (auto simp: tomb_of_def)
    next
      case False
      then have "discarded_tombstones acc R = Inr D"
        using Cons.prems d True by (simp add: payload_of_def)
      from Cons.IH [OF this] show ?thesis by auto
    qed
  qed
qed simp

definition corrupt_seqs :: "corrupt_record list \<Rightarrow> int set" where
  "corrupt_seqs C = (\<lambda>c. st_seq (co_stored c)) ` set C"

lemma validated_chain:
  assumes "validate_record_chain R C head = Inr (hs, active)"
  shows "\<exists>n p. chain_of (corrupt_seqs C) (links R) n p hs \<and>
    (\<forall>r \<in> set R. (st_seq (rc_stored r), op_hash (rc_opened r)) \<in> set hs)"
proof (cases "sort_key item_seq (map Good R @ map Bad C)")
  case Nil
  then have "R = []" "C = []" by (auto dest!: arg_cong [of _ _ set])
  then show ?thesis using assms by (auto simp: validate_record_chain_def)
next
  case (Cons q Q)
  obtain D E n p where D: "discarded_tombstones [] R = Inr D"
    and loop: "chain_loop D E head (q # Q) n p [] [] = Inr (hs, active)"
    using assms Cons by (auto simp: validate_record_chain_def bindE_Inr_iff split: if_splits simp del: chain_loop.simps)
  have items: "set (q # Q) = Good ` set R \<union> Bad ` set C"
    using Cons by (metis set_append set_map set_sort)
  have "set (tomb_link (m, d)) \<subseteq> set (links R)" if "map_of D m = Some d" for m d
    using map_of_SomeD [OF that] discarded_tombs [OF D] by (auto simp: links_def)
  moreover have "\<forall>q \<in> set (q # Q). item_linked (corrupt_seqs C) (links R) q"
    unfolding items by (auto simp: links_def corrupt_seqs_def)
  ultimately obtain ts where "hs = [] @ ts" "chain_of (corrupt_seqs C) (links R) n p ts"
      "\<forall>q \<in> set (q # Q). item_entry q \<subseteq> set ts"
    using chain_loop_chain [OF loop] by blast
  moreover have "(st_seq (rc_stored r), op_hash (rc_opened r)) \<in> set ts" if "r \<in> set R" for r
    using calculation(3) that unfolding items by (metis UnI1 image_eqI item_entry.simps(1) insert_subset)
  ultimately show ?thesis by (intro exI [of _ n] exI [of _ p]) simp
qed

section \<open>Tamper evidence\<close>

text \<open>
  C24. The chain is tamper evident above its corrupt records. Let two sets of records, each with the corrupt
  ones the scan set aside, both pass \<open>validate_record_chain\<close> and let both chains end in the same hash, the one an
  authenticated head or anchor holds (and, when the last record of one of them is corrupt, at the same
  sequence). Then, unless their hashes exhibit a collision, both chains end at the same sequence; every
  sequence that both cover and that no corrupt record of either lies above has the same hash in both; and two
  records of such a sequence have the same hash and the same predecessor. So without a corrupt record none
  can be exchanged, reordered or silently dropped below a known head, only a tombstone may stand for a
  discarded command; below a corrupt record the chain claims nothing, since the hash of a corrupt record is
  taken from its successor or the head.
\<close>

theorem chain_tamper_evident:
  assumes "validate_record_chain R C head = Inr (hs, active)" and "validate_record_chain R' C' head' = Inr (hs', active')"
    and "hs \<noteq> []" and "hs' \<noteq> []" and "snd (last hs) = snd (last hs')"
    and "fst (last hs) = fst (last hs') \<or>
      fst (last hs) \<notin> corrupt_seqs C \<union> corrupt_seqs C' \<and> fst (last hs') \<notin> corrupt_seqs C \<union> corrupt_seqs C'"
    and "collision_free (links R @ links R')"
  shows "fst (last hs) = fst (last hs') \<and>
     (\<forall>m. (\<forall>k \<in> corrupt_seqs C \<union> corrupt_seqs C'. k \<le> m) \<longrightarrow>
        (\<forall>h h'. (m, h) \<in> set hs \<longrightarrow> (m, h') \<in> set hs' \<longrightarrow> h = h') \<and>
        (\<forall>r \<in> set R. \<forall>r' \<in> set R'. st_seq (rc_stored r) = m \<longrightarrow> st_seq (rc_stored r') = m \<longrightarrow>
           op_hash (rc_opened r) = op_hash (rc_opened r') \<and> op_pred (rc_opened r) = op_pred (rc_opened r')))"
proof -
  let ?L = "links R @ links R'" and ?K = "corrupt_seqs C \<union> corrupt_seqs C'"
  obtain n p where c: "chain_of (corrupt_seqs C) (links R) n p hs"
      "\<forall>r \<in> set R. (st_seq (rc_stored r), op_hash (rc_opened r)) \<in> set hs"
    using validated_chain [OF assms(1)] by blast
  obtain n' p' where c': "chain_of (corrupt_seqs C') (links R') n' p' hs'"
      "\<forall>r \<in> set R'. (st_seq (rc_stored r), op_hash (rc_opened r)) \<in> set hs'"
    using validated_chain [OF assms(2)] by blast
  have chains: "chain_of ?K ?L n p hs" "chain_of ?K ?L n' p' hs'"
    by (rule chain_of_mono [OF c(1)], simp_all) (rule chain_of_mono [OF c'(1)], simp_all)
  have ends: "fst (last hs) = fst (last hs')"
    using assms(6) ends_agree [OF assms(7) chains assms(3-5)] by blast
  then have "last hs = last hs'" using assms(5) by (simp add: prod_eq_iff)
  note agree = chains_agree [OF assms(7) chains assms(3,4) this]
  have "op_hash (rc_opened r) = op_hash (rc_opened r') \<and> op_pred (rc_opened r) = op_pred (rc_opened r')"
    if "r \<in> set R" "r' \<in> set R'" "st_seq (rc_stored r) = m" "st_seq (rc_stored r') = m" "\<forall>k \<in> ?K. k \<le> m" for r r' m
  proof -
    have "op_hash (rc_opened r) = op_hash (rc_opened r')" using agree [OF _ _ that(5)] c(2) c'(2) that(1-4) by metis
    moreover have "record_link r \<in> set ?L" "record_link r' \<in> set ?L" using that by (auto simp: links_def)
    ultimately show ?thesis
      using collision_freeD [OF assms(7)] unfolding record_link_def by (metis prod.inject)
  qed
  then show ?thesis using ends agree by blast
qed

text \<open>A log of two records, and the same log after its first command was discarded.\<close>

definition plain_record :: "int \<Rightarrow> string \<Rightarrow> string \<Rightarrow> string \<Rightarrow> members \<Rightarrow> recovered_record" where
  "plain_record n kind pred h body =
     \<lparr>rc_stored = \<lparr>st_dir = [], st_name = [], st_seq = n, st_kind = kind, st_size = 1\<rparr>,
      rc_opened = \<lparr>op_type = kind, op_seq = n, op_pred = pred, op_payload = body, op_hash = h\<rparr>, rc_digest = []\<rparr>"

definition letter_hash :: "char \<Rightarrow> string" where
  "letter_hash c = replicate 64 c"

definition plain_discard :: members where
  "plain_discard = disposition_dump \<lparr>dp_version = 2, dp_seq = 1, dp_hash = letter_hash (CHR ''a''), dp_pred = Some genesis_hash,
     dp_action = ''discard'', dp_reason = genesis_hash, dp_at = []\<rparr>"

definition plain_log :: "recovered_record list" where
  "plain_log = [plain_record 1 ''command'' genesis_hash (letter_hash (CHR ''a'')) [],
     plain_record 2 ''disposition'' (letter_hash (CHR ''a'')) (letter_hash (CHR ''b'')) plain_discard]"

lemma plain_discard_read: "disposition_read plain_discard = Some \<lparr>dp_version = 2, dp_seq = 1,
     dp_hash = letter_hash (CHR ''a''), dp_pred = Some genesis_hash, dp_action = ''discard'', dp_reason = genesis_hash, dp_at = []\<rparr>"
  unfolding plain_discard_def
  by (rule disposition_read_dump)
    (simp add: valid_disposition_def letter_hash_def hex_text_def genesis_hash_def list_all_iff is_hex_lower_def is_digit_def)

lemma plain_validates:
  "validate_record_chain plain_log [] head = Inr ([(1, letter_hash (CHR ''a'')), (2, letter_hash (CHR ''b''))], [])"
  "validate_record_chain (tl plain_log) [] head = Inr ([(1, letter_hash (CHR ''a'')), (2, letter_hash (CHR ''b''))], [])"
  by (simp_all add: validate_record_chain_def plain_log_def plain_record_def seq_of_def payload_of_def plain_discard_read
      chain_start_def Let_def bridge_discarded_def)

text \<open>Two logs with a corrupt second record: the records above it are bound, the one below it is not.\<close>

definition dark_record :: corrupt_record where
  "dark_record = \<lparr>co_stored = \<lparr>st_dir = [], st_name = [], st_seq = 2, st_kind = ''command'', st_size = 1\<rparr>,
     co_digest = [], co_hash = [], co_pred = []\<rparr>"

definition dark_log :: "char \<Rightarrow> recovered_record list" where
  "dark_log x = [plain_record 1 ''command'' genesis_hash (letter_hash x) [],
     plain_record 3 ''command'' (letter_hash (CHR ''b'')) (letter_hash (CHR ''c'')) []]"

definition dark_hashes :: "char \<Rightarrow> (int \<times> string) list" where
  "dark_hashes x = [(1, letter_hash x), (2, letter_hash (CHR ''b'')), (3, letter_hash (CHR ''c''))]"

lemma dark_validates:
  "\<exists>active. validate_record_chain (dark_log x) [dark_record] head = Inr (dark_hashes x, active)"
  by (simp add: validate_record_chain_def dark_log_def plain_record_def dark_record_def dark_hashes_def chain_start_def
      Let_def seq_of_def expected_corrupt_hash_def item_seq.simps)

lemma below_corrupt_unbound:
  "\<exists>active active'. validate_record_chain (dark_log (CHR ''a'')) [dark_record] head = Inr (dark_hashes (CHR ''a''), active) \<and>
     validate_record_chain (dark_log (CHR ''d'')) [dark_record] head = Inr (dark_hashes (CHR ''d''), active') \<and>
     last (dark_hashes (CHR ''a'')) = last (dark_hashes (CHR ''d'')) \<and>
     op_hash (rc_opened (dark_log (CHR ''a'') ! 0)) \<noteq> op_hash (rc_opened (dark_log (CHR ''d'') ! 0))"
  using dark_validates [of "CHR ''a''" head] dark_validates [of "CHR ''d''" head]
  by (auto simp: dark_hashes_def dark_log_def plain_record_def letter_hash_def)

lemma letters_distinct:
  "letter_hash x = letter_hash y \<longleftrightarrow> x = y"
  by (simp add: letter_hash_def)

theorem chain_tamper_evident_witness:
  "op_hash (rc_opened (plain_log ! 1)) = op_hash (rc_opened (tl plain_log ! 0)) \<and>
   op_pred (rc_opened (plain_log ! 1)) = op_pred (rc_opened (tl plain_log ! 0)) \<and>
   op_hash (rc_opened (dark_log (CHR ''a'') ! 1)) = op_hash (rc_opened (dark_log (CHR ''d'') ! 1))"
proof (intro conjI)
  let ?head = "\<lparr>hd_seq = 2, hd_hash = letter_hash (CHR ''b'')\<rparr>"
  have "collision_free (links plain_log @ links (tl plain_log))"
    by (simp add: collision_free_def links_def plain_log_def record_link_def tomb_of_def tomb_link_def plain_record_def
        plain_discard_read letters_distinct)
  from chain_tamper_evident [OF plain_validates(1) [of ?head] plain_validates(2) [of ?head] _ _ _ _ this,
      THEN conjunct2, THEN spec, of 2]
  have "\<forall>r \<in> set plain_log. \<forall>r' \<in> set (tl plain_log). st_seq (rc_stored r) = 2 \<longrightarrow> st_seq (rc_stored r') = 2 \<longrightarrow>
     op_hash (rc_opened r) = op_hash (rc_opened r') \<and> op_pred (rc_opened r) = op_pred (rc_opened r')"
    by (simp add: corrupt_seqs_def)
  then show "op_hash (rc_opened (plain_log ! 1)) = op_hash (rc_opened (tl plain_log ! 0))"
      "op_pred (rc_opened (plain_log ! 1)) = op_pred (rc_opened (tl plain_log ! 0))"
    by (simp_all add: plain_log_def plain_record_def)
  obtain u v where dark: "validate_record_chain (dark_log (CHR ''a'')) [dark_record] ?head = Inr (dark_hashes (CHR ''a''), u)"
      "validate_record_chain (dark_log (CHR ''d'')) [dark_record] ?head = Inr (dark_hashes (CHR ''d''), v)"
    using dark_validates by metis
  have "collision_free (links (dark_log (CHR ''a'')) @ links (dark_log (CHR ''d'')))"
    by (simp add: collision_free_def links_def dark_log_def record_link_def tomb_of_def plain_record_def letters_distinct)
  from chain_tamper_evident [OF dark _ _ _ _ this, THEN conjunct2, THEN spec, of 3]
  have "\<forall>r \<in> set (dark_log (CHR ''a'')). \<forall>r' \<in> set (dark_log (CHR ''d'')). st_seq (rc_stored r) = 3 \<longrightarrow>
     st_seq (rc_stored r') = 3 \<longrightarrow> op_hash (rc_opened r) = op_hash (rc_opened r')"
    by (simp add: corrupt_seqs_def dark_record_def dark_hashes_def)
  then show "op_hash (rc_opened (dark_log (CHR ''a'') ! 1)) = op_hash (rc_opened (dark_log (CHR ''d'') ! 1))"
    by (simp add: dark_log_def plain_record_def)
qed

end
