(* ===== verification/Base64.thy ===== *)
theory Base64
  imports Prelude
begin

text \<open>
  \<open>base64.b64encode\<close> and strict \<open>b64decode\<close> of the standard library on byte strings, with their round trip and the
  length of an encoding.
\<close>

definition b64_char :: "nat \<Rightarrow> char" where
  "b64_char n = ''ABCDEFGHIJKLMNOPQRSTUVWXYZabcdefghijklmnopqrstuvwxyz0123456789+/'' ! n"

definition b64_value :: "char \<Rightarrow> nat option" where
  "b64_value c = find (\<lambda>n. b64_char n = c) [0..<64]"

fun b64encode :: "string \<Rightarrow> string" where
  "b64encode [] = []"
| "b64encode [a] =
     (let x = of_char a :: nat in [b64_char (x div 4), b64_char (x mod 4 * 16), CHR ''='', CHR ''=''])"
| "b64encode [a, b] =
     (let x = of_char a :: nat; y = of_char b :: nat in
      [b64_char (x div 4), b64_char (x mod 4 * 16 + y div 16), b64_char (y mod 16 * 4), CHR ''=''])"
| "b64encode (a # b # c # s) =
     (let x = of_char a :: nat; y = of_char b :: nat; z = of_char c :: nat in
      [b64_char (x div 4), b64_char (x mod 4 * 16 + y div 16), b64_char (y mod 16 * 4 + z div 64), b64_char (z mod 64)] @
      b64encode s)"

text \<open>
  \<open>b64decode(text, validate=True)\<close>; a stray \<open>=\<close> after whole groups, which some versions let pass, is refused.
\<close>

fun b64decode :: "string \<Rightarrow> string option" where
  "b64decode [] = Some []"
| "b64decode (w # x # y # z # s) =
     Option.bind (b64_value w) (\<lambda>a. Option.bind (b64_value x) (\<lambda>b.
       if s = [] \<and> y = CHR ''='' \<and> z = CHR ''='' then Some [char_of (a * 4 + b div 16)]
       else Option.bind (b64_value y) (\<lambda>c.
         if s = [] \<and> z = CHR ''='' then Some [char_of (a * 4 + b div 16), char_of (b mod 16 * 16 + c div 4)]
         else Option.bind (b64_value z) (\<lambda>d.
           map_option (\<lambda>t. [char_of (a * 4 + b div 16), char_of (b mod 16 * 16 + c div 4), char_of (c mod 4 * 64 + d)] @ t)
             (b64decode s)))))"
| "b64decode s = None"

section \<open>Round trip and length\<close>

lemma b64_value_char: "n < 64 \<Longrightarrow> b64_value (b64_char n) = Some n"
proof -
  have "list_all (\<lambda>n. b64_value (b64_char n) = Some n) [0..<64]" by code_simp
  then show "n < 64 \<Longrightarrow> b64_value (b64_char n) = Some n" by (simp add: list_all_iff)
qed

lemma b64_char_pad: "n < 64 \<Longrightarrow> b64_char n \<noteq> CHR ''=''"
proof -
  have "list_all (\<lambda>n. b64_char n \<noteq> CHR ''='') [0..<64]" by code_simp
  then show "n < 64 \<Longrightarrow> b64_char n \<noteq> CHR ''=''" by (simp add: list_all_iff)
qed

lemma byte_bound: "(of_char c :: nat) < 256"
proof -
  have "(of_char c :: nat) mod 256 < 256" by simp
  then show ?thesis by (simp only: of_char_mod_256)
qed

lemma high_bits [simp]:
  "(of_char c :: nat) div 4 < 64" "(of_char c :: nat) div 16 < 16" "(of_char c :: nat) div 64 < 4"
  "(of_char c :: nat) div 16 div 16 = 0" "(of_char c :: nat) div 16 mod 16 = of_char c div 16"
  "(of_char c :: nat) div 64 div 4 = 0" "(of_char c :: nat) div 64 mod 4 = of_char c div 64"
  using byte_bound [of c] by (simp_all add: less_mult_imp_div_less)

lemma digit_bounds:
  "x mod 4 * 16 < (64 :: nat)" "x mod 4 * 16 + (of_char b :: nat) div 16 < 64" "y mod 16 * 4 < (64 :: nat)"
  "y mod 16 * 4 + (of_char c :: nat) div 64 < 64" "z mod 64 < (64 :: nat)"
proof -
  have m: "x mod 4 < 4" "y mod 16 < 16" by simp_all
  then show "x mod 4 * 16 < 64" "y mod 16 * 4 < 64" by linarith+
  show "x mod 4 * 16 + (of_char b :: nat) div 16 < 64" using m(1) high_bits(2) [of b] by linarith
  show "y mod 16 * 4 + (of_char c :: nat) div 64 < 64" using m(2) high_bits(3) [of c] by linarith
qed simp

theorem b64_round_trip: "b64decode (b64encode s) = Some s"
proof (induction s rule: b64encode.induct)
  case (2 a)
  then show ?case by (simp add: Let_def b64_value_char digit_bounds)
next
  case (3 a b)
  then show ?case by (simp add: Let_def b64_value_char digit_bounds b64_char_pad)
next
  case (4 a b c s)
  then show ?case by (simp add: Let_def b64_value_char digit_bounds b64_char_pad)
qed simp

lemma b64_length: "length (b64encode s) = 4 * ((length s + 2) div 3)"
proof (induction s rule: b64encode.induct)
  case (4 a b c s)
  have "(length (a # b # c # s) + 2) div 3 = (length s + 2) div 3 + 1" by simp
  then show ?case using 4 by (simp add: Let_def)
qed (simp_all add: Let_def)

end
