(* ===== verification/SpoolCrypto.thy ===== *)
theory SpoolCrypto
  imports SpoolStore Base64
begin

text \<open>
  \<open>ctowerctl/spool/_crypto.py\<close> and \<open>_identity.py\<close>: the authenticated record format, signed control documents and the
  keyed credential binding. Base64 and HMAC-SHA-256 are the standard library's and executable here; AES-GCM, HKDF
  and the JSON parser behind the strict models belong to third-party packages and are the record \<open>crypto\<close>. A
  \<open>bytes\<close> value is a \<open>string\<close>. The strict models are closed, as in \<open>SpoolModels\<close>.
\<close>

unbundle bit_operations_syntax

section \<open>Bytes\<close>

definition line_feed :: string where
  "line_feed = [char_of (10 :: nat)]"

definition nul :: string where
  "nul = [char_of (0 :: nat)]"

fun unhex :: "string \<Rightarrow> string" where
  "unhex (a # b # s) = char_of (16 * hex_value a + hex_value b) # unhex s"
| "unhex s = []"

definition sha256_bytes :: "string \<Rightarrow> string" where
  "sha256_bytes s = unhex (sha256_hex s)"

definition xor_pad :: "nat \<Rightarrow> string \<Rightarrow> string" where
  "xor_pad k s = map (\<lambda>c. char_of ((of_char c :: nat) XOR k)) s"

text \<open>\<open>hmac.new(key, message, hashlib.sha256).hexdigest()\<close>\<close>

definition hmac_sha256 :: "string \<Rightarrow> string \<Rightarrow> string" where
  "hmac_sha256 key message =
     (let key = (if length key > 64 then sha256_bytes key else key);
          block = key @ replicate (64 - length key) (char_of (0 :: nat)) in
      sha256_hex (xor_pad 92 block @ sha256_bytes (xor_pad 54 block @ message)))"

section \<open>Keys and headers\<close>

record crypto =
  cr_encrypt :: "string \<Rightarrow> string \<Rightarrow> string \<Rightarrow> string \<Rightarrow> string"
  cr_decrypt :: "string \<Rightarrow> string \<Rightarrow> string \<Rightarrow> string \<Rightarrow> string option"
  cr_hkdf :: "string \<Rightarrow> string \<Rightarrow> string \<Rightarrow> string"
  cr_parse :: "string \<Rightarrow> json option"

record key_set =
  ks_encryption :: string
  ks_metadata :: string
  ks_legacy :: string
  ks_binding :: string

definition require_master_key :: "string \<Rightarrow> unit spool" where
  "require_master_key master =
     raise_if (length master \<noteq> 32) (CryptoError ''spool master key must contain exactly 256 bits'')"

definition key_id :: "string \<Rightarrow> string spool" where
  "key_id master = bindE (require_master_key master) (\<lambda>_. Inr (take 32 (sha256_hex (''ctower-spool-key-id'' @ nul @ master))))"

definition derive_keys :: "crypto \<Rightarrow> string \<Rightarrow> string \<Rightarrow> key_set spool" where
  "derive_keys cr master salt =
     bindE (require_master_key master) (\<lambda>_. Inr
       \<lparr>ks_encryption = cr_hkdf cr master salt ''ctower-spool/v1/aes-256-gcm'',
        ks_metadata = cr_hkdf cr master salt ''ctower-spool/v1/metadata-hmac'',
        ks_legacy = cr_hkdf cr master salt ''ctower-spool/v1/nonce-hmac'',
        ks_binding = cr_hkdf cr master salt ''ctower-spool/v1/enqueue-credential-binding''\<rparr>)"

record record_header =
  rh_format :: int
  rh_type :: string
  rh_seq :: int
  rh_pred :: string
  rh_key :: string
  rh_nonce :: string
  rh_length :: int
  rh_digest :: "string option"

definition header_dump :: "record_header \<Rightarrow> members" where
  "header_dump h =
     [(''ciphertext_length'', JInt (rh_length h)), (''ciphertext_sha256'', opt_text (rh_digest h)),
      (''format_version'', JInt (rh_format h)), (''key_id'', JStr (rh_key h)), (''nonce'', JStr (rh_nonce h)),
      (''predecessor_hash'', JStr (rh_pred h)), (''record_type'', JStr (rh_type h)), (''sequence'', JInt (rh_seq h))]"

definition header_read :: "members \<Rightarrow> record_header option" where
  "header_read ms =
     (if closed_fields ms [''format_version'', ''record_type'', ''sequence'', ''predecessor_hash'', ''key_id'', ''nonce'',
           ''ciphertext_length'', ''ciphertext_sha256'']
      then Option.bind (field_int (\<lambda>i. i = 1 \<or> i = 2) ms ''format_version'') (\<lambda>v.
           Option.bind (field_str (\<lambda>s. s \<in> set record_types) ms ''record_type'') (\<lambda>kind.
           Option.bind (field_int (\<lambda>i. 1 \<le> i) ms ''sequence'') (\<lambda>n.
           Option.bind (field_str (hex_text 64) ms ''predecessor_hash'') (\<lambda>pred.
           Option.bind (field_str (hex_text 32) ms ''key_id'') (\<lambda>key.
           Option.bind (field_str (\<lambda>_. True) ms ''nonce'') (\<lambda>nonce.
           Option.bind (field_int (\<lambda>i. 1 \<le> i) ms ''ciphertext_length'') (\<lambda>len.
           Option.bind (field_opt (hex_text 64) ms ''ciphertext_sha256'') (\<lambda>digest.
             if (v = 1) \<noteq> (digest \<noteq> None) then None
             else Some \<lparr>rh_format = v, rh_type = kind, rh_seq = n, rh_pred = pred, rh_key = key, rh_nonce = nonce,
               rh_length = len, rh_digest = digest\<rparr>))))))))
      else None)"

definition header_bytes :: "record_header \<Rightarrow> string" where
  "header_bytes h = json_dumps (JObj (header_dump h))"

definition hash_input :: "record_header \<Rightarrow> string \<Rightarrow> string" where
  "hash_input h ciphertext = header_bytes h @ line_feed @ ciphertext"

section \<open>Sealing and opening\<close>

record sealed_record =
  sl_header :: record_header
  sl_data :: string
  sl_hash :: string

definition seal_record ::
  "crypto \<Rightarrow> key_set \<Rightarrow> string \<Rightarrow> string \<Rightarrow> string \<Rightarrow> int \<Rightarrow> string \<Rightarrow> members \<Rightarrow> sealed_record" where
  "seal_record cr keys key nonce kind n pred payload =
     (let plaintext = json_dumps (JObj payload);
          h = \<lparr>rh_format = 2, rh_type = kind, rh_seq = n, rh_pred = pred, rh_key = key, rh_nonce = b64encode nonce,
               rh_length = int (length plaintext) + 16, rh_digest = None\<rparr>;
          ciphertext = cr_encrypt cr (ks_encryption keys) nonce plaintext (header_bytes h) in
      \<lparr>sl_header = h,
       sl_data = json_dumps (JObj [(''ciphertext'', JStr (b64encode ciphertext)), (''header'', JObj (header_dump h))]) @ line_feed,
       sl_hash = sha256_hex (hash_input h ciphertext)\<rparr>)"

text \<open>The document of a record: its header and its decoded ciphertext.\<close>

definition read_document :: "crypto \<Rightarrow> string \<Rightarrow> (record_header \<times> string) spool" where
  "read_document cr data =
     (case Option.bind (case cr_parse cr data of Some (JObj ms) \<Rightarrow> Some ms | _ \<Rightarrow> None) (\<lambda>ms.
        if closed_fields ms [''header'', ''ciphertext'']
        then Option.bind (Option.bind (field_obj ms ''header'') header_read) (\<lambda>h.
             Option.bind (Option.bind (field_str (\<lambda>_. True) ms ''ciphertext'') b64decode) (\<lambda>c. Some (h, c)))
        else None) of
        None \<Rightarrow> Inl (CryptoError ''record encoding is invalid'')
      | Some x \<Rightarrow> Inr x)"

definition to_bytes_8 :: "int \<Rightarrow> string spool" where
  "to_bytes_8 n =
     (if n < 0 \<or> n \<ge> 2 ^ 64 then Inl (Uncaught ''OverflowError'')
      else Inr (map (\<lambda>i. char_of (nat n div 256 ^ (7 - i) mod 256)) [0..<8]))"

definition legacy_nonce :: "string \<Rightarrow> int \<Rightarrow> string \<Rightarrow> string spool" where
  "legacy_nonce key n kind =
     (if n < 1 then Inl (CryptoError ''record sequence must be positive'')
      else bindE (to_bytes_8 n) (\<lambda>bytes.
        Inr (take 12 (unhex (hmac_sha256 key (''ctower-spool/v1/nonce'' @ nul @ bytes @ nul @ kind))))))"

definition verify_nonce :: "string \<Rightarrow> record_header \<Rightarrow> key_set \<Rightarrow> unit spool" where
  "verify_nonce encoded h keys =
     (if length encoded \<noteq> 12 then Inl (CryptoError ''record nonce must contain exactly 96 bits'')
      else if rh_format h = 1
      then bindE (legacy_nonce (ks_legacy keys) (rh_seq h) (rh_type h)) (\<lambda>expected.
        raise_if (encoded \<noteq> expected) (CryptoError ''legacy record nonce is not sequence/type bound''))
      else Inr ())"

definition verify_ciphertext :: "string \<Rightarrow> record_header \<Rightarrow> unit spool" where
  "verify_ciphertext ciphertext h =
     (if int (length ciphertext) \<noteq> rh_length h then Inl (CryptoError ''record ciphertext length does not match'')
      else raise_if (rh_format h = 1 \<and> Some (sha256_hex (take (length ciphertext - 16) ciphertext)) \<noteq> rh_digest h)
        (CryptoError ''legacy record ciphertext digest does not match''))"

definition open_record :: "crypto \<Rightarrow> key_set \<Rightarrow> string \<Rightarrow> string \<Rightarrow> (record_header \<times> members \<times> string) spool" where
  "open_record cr keys expected data =
     bindE (read_document cr data) (\<lambda>(h, ciphertext).
       if rh_key h \<noteq> expected then Inl (CryptoError ''record key identity does not match metadata'')
       else case b64decode (rh_nonce h) of
         None \<Rightarrow> Inl (CryptoError ''record nonce encoding is invalid'')
       | Some nonce \<Rightarrow>
           bindE (verify_nonce nonce h keys) (\<lambda>_. bindE (verify_ciphertext ciphertext h) (\<lambda>_.
             case Option.bind (cr_decrypt cr (ks_encryption keys) nonce ciphertext (header_bytes h)) (cr_parse cr) of
               Some (JObj payload) \<Rightarrow> Inr (h, payload, sha256_hex (hash_input h ciphertext))
             | _ \<Rightarrow> Inl (CryptoError ''record authentication or payload validation failed''))))"

section \<open>Signed documents\<close>

definition sign_document :: "members \<Rightarrow> string \<Rightarrow> string" where
  "sign_document body key =
     json_dumps (JObj [(''body'', JObj body), (''mac'', JStr (hmac_sha256 key (json_dumps (JObj body))))]) @ line_feed"

definition signed_read :: "crypto \<Rightarrow> string \<Rightarrow> (members \<times> string) spool" where
  "signed_read cr data =
     (case Option.bind (case cr_parse cr data of Some (JObj ms) \<Rightarrow> Some ms | _ \<Rightarrow> None) (\<lambda>ms.
        if closed_fields ms [''body'', ''mac'']
        then Option.bind (field_obj ms ''body'') (\<lambda>body. Option.bind (field_str (hex_text 64) ms ''mac'') (\<lambda>mac. Some (body, mac)))
        else None) of
        None \<Rightarrow> Inl (CryptoError ''signed document encoding is invalid'')
      | Some x \<Rightarrow> Inr x)"

definition inspect_signed_body :: "crypto \<Rightarrow> string \<Rightarrow> members spool" where
  "inspect_signed_body cr data = bindE (signed_read cr data) (\<lambda>(body, mac). Inr body)"

definition verify_signed_document :: "crypto \<Rightarrow> string \<Rightarrow> string \<Rightarrow> members spool" where
  "verify_signed_document cr data key =
     bindE (signed_read cr data) (\<lambda>(body, mac).
       if mac \<noteq> hmac_sha256 key (json_dumps (JObj body)) then Inl (CryptoError ''signed document MAC does not match'')
       else Inr body)"

section \<open>Credential identity\<close>

definition max_credential_bytes :: nat where
  "max_credential_bytes = 32 * 1024"

definition credential_binding :: "key_set \<Rightarrow> string \<Rightarrow> string spool" where
  "credential_binding keys credential =
     (if credential = [] \<or> length credential > max_credential_bytes
      then Inl (InvalidValue ''a bounded credential identity is required'')
      else Inr (hmac_sha256 (ks_binding keys) (''ctower-spool/v1/enqueue-credential'' @ nul @ credential)))"

section \<open>The environment of a session\<close>

text \<open>
  What a session does with its keys: \<open>nonces\<close> gives the random nonce of each sequence, \<open>u\<close> the UUID of its temporary
  files.
\<close>

definition crypto_env ::
  "crypto \<Rightarrow> key_set \<Rightarrow> string \<Rightarrow> (int \<Rightarrow> string) \<Rightarrow> string \<Rightarrow> nat \<Rightarrow> nat \<Rightarrow> string spool_env" where
  "crypto_env cr keys key nonces u scan maximum =
     \<lparr>se_seal = (\<lambda>kind n pred body. let s = seal_record cr keys key (nonces n) kind n pred body in (sl_data s, sl_hash s)),
      se_open = (\<lambda>data. bindE (open_record cr keys key data) (\<lambda>(h, payload, hash). Inr
        \<lparr>op_type = rh_type h, op_seq = rh_seq h, op_pred = rh_pred h, op_payload = payload, op_hash = hash\<rparr>)),
      se_size = length, se_digest = sha256_hex,
      se_sign = (\<lambda>body. sign_document body (ks_metadata keys)),
      se_verify = (\<lambda>data. verify_signed_document cr data (ks_metadata keys)),
      se_uuid = u, se_scan = scan, se_maximum = maximum\<rparr>"

end
