(* ===== verification/PyJsonRead.thy ===== *)
theory PyJsonRead
  imports PyJson
begin

text \<open>
  A reader of the texts \<open>json.dumps\<close> writes: every document is read back from its text, with or without
  a final line feed. It shows that the round-trip law stated of a JSON parser can hold.
\<close>

fun read_body :: "nat \<Rightarrow> string \<Rightarrow> (string \<times> string) option" where
  "read_body 0 s = None"
| "read_body (Suc n) s =
     (case s of
        [] \<Rightarrow> None
      | c # cs \<Rightarrow>
          if c = CHR 34 then Some ([], cs)
          else case json_unescape s of
            None \<Rightarrow> None
          | Some (d, r) \<Rightarrow> map_option (\<lambda>(t, q). (d # t, q)) (read_body n r))"

definition read_string :: "string \<Rightarrow> (string \<times> string) option" where
  "read_string s = (case s of c # cs \<Rightarrow> if c = CHR 34 then read_body (Suc (length cs)) cs else None | [] \<Rightarrow> None)"

definition read_integer :: "string \<Rightarrow> int" where
  "read_integer s = (case s of c # cs \<Rightarrow> if c = CHR ''-'' then - int (read_nat cs) else int (read_nat s) | [] \<Rightarrow> 0)"

fun read_value :: "nat \<Rightarrow> string \<Rightarrow> (json \<times> string) option"
  and read_items :: "nat \<Rightarrow> string \<Rightarrow> (json list \<times> string) option"
  and read_members :: "nat \<Rightarrow> string \<Rightarrow> (members \<times> string) option" where
  "read_value 0 s = None"
| "read_value (Suc n) s =
     (if take 4 s = ''null'' then Some (JNull, drop 4 s)
      else if take 4 s = ''true'' then Some (JBool True, drop 4 s)
      else if take 5 s = ''false'' then Some (JBool False, drop 5 s)
      else if take 1 s = [CHR 34] then map_option (\<lambda>(t, r). (JStr t, r)) (read_string s)
      else if take 2 s = ''[]'' then Some (JList [], drop 2 s)
      else if take 1 s = ''['' then map_option (\<lambda>(vs, r). (JList vs, r)) (read_items n (drop 1 s))
      else if take 2 s = ''{}'' then Some (JObj [], drop 2 s)
      else if take 1 s = ''{'' then map_option (\<lambda>(ms, r). (JObj ms, r)) (read_members n (drop 1 s))
      else let ds = takeWhile number_char s in
        if ds = [] then None else Some (JInt (read_integer ds), drop (length ds) s))"
| "read_items 0 s = None"
| "read_items (Suc n) s =
     (case read_value n s of
        None \<Rightarrow> None
      | Some (v, r) \<Rightarrow>
          if take 1 r = '']'' then Some ([v], drop 1 r)
          else if take 1 r = '','' then map_option (\<lambda>(vs, q). (v # vs, q)) (read_items n (drop 1 r))
          else None)"
| "read_members 0 s = None"
| "read_members (Suc n) s =
     (case read_string s of
        None \<Rightarrow> None
      | Some (k, r) \<Rightarrow>
          if take 1 r \<noteq> '':'' then None
          else case read_value n (drop 1 r) of
            None \<Rightarrow> None
          | Some (v, q) \<Rightarrow>
              if take 1 q = ''}'' then Some ([(k, v)], drop 1 q)
              else if take 1 q = '','' then map_option (\<lambda>(ms, p). ((k, v) # ms, p)) (read_members n (drop 1 q))
              else None)"

definition json_loads :: "string \<Rightarrow> json option" where
  "json_loads s =
     (case read_value (Suc (length s)) s of
        Some (v, r) \<Rightarrow> if r = [] \<or> r = [char_of (10 :: nat)] then Some v else None
      | None \<Rightarrow> None)"

lemma read_body_text:
  "length (concat (map json_escape t)) < n \<Longrightarrow> read_body n (concat (map json_escape t) @ CHR 34 # r) = Some (t, r)"
proof (induction t arbitrary: n)
  case Nil
  then show ?case by (cases n) auto
next
  case (Cons c t)
  then obtain m where n: "n = Suc m" by (cases n) auto
  let ?r = "concat (map json_escape t) @ CHR 34 # r"
  have ne: "json_escape c \<noteq> []" by (auto simp: json_escape_def Let_def)
  then obtain d ds where d: "json_escape c = d # ds" by (cases "json_escape c") auto
  have "d \<noteq> CHR 34" using json_escape_quote [of c "[]" ds] by (auto simp: d)
  moreover have "json_unescape (d # ds @ ?r) = Some (c, ?r)" using json_unescape_escape [of c ?r] by (simp add: d)
  moreover have "read_body m ?r = Some (t, r)" by (rule Cons.IH) (use Cons.prems n d in simp)
  ultimately show ?case by (simp add: n d)
qed

lemma read_string_text: "read_string (json_string t @ r) = Some (t, r)"
  using read_body_text [of t] by (simp add: read_string_def json_string_def del: read_body.simps)

lemma read_integer_text: "read_integer (str_int i) = i"
proof (cases "i < 0")
  case True
  then show ?thesis by (simp add: str_int_def read_integer_def)
next
  case False
  obtain c s where c: "str_nat (nat i) = c # s" using str_nat_nonempty by (cases "str_nat (nat i)") auto
  then have "is_digit c" using str_nat_digits [of "nat i"] by simp
  then have "c \<noteq> CHR ''-''" by (auto simp: is_digit_def)
  then show ?thesis using False read_str_nat [of "nat i"] by (simp add: str_int_def read_integer_def c)
qed

definition closes :: "string \<Rightarrow> bool" where
  "closes r \<longleftrightarrow> r = [] \<or> \<not> number_char (hd r)"

lemma closes_simps [simp]: "closes []" "closes (c # r) = (\<not> number_char c)"
  by (simp_all add: closes_def)

lemma take_integer: "closes r \<Longrightarrow> takeWhile number_char (str_int i @ r) = str_int i"
  using str_int_number [of i] by (cases r) (simp_all add: takeWhile_append list_all_iff)

lemma read_value_integer: "closes r \<Longrightarrow> read_value (Suc n) (str_int i @ r) = Some (JInt i, r)"
proof -
  assume r: "closes r"
  obtain c s where c: "str_int i = c # s" "number_char c" using str_int_Cons by blast
  then have "c \<notin> set ''ntf[{'' \<and> c \<noteq> CHR 34" by (auto simp: number_char_def is_digit_def)
  then show ?thesis
    using take_integer [OF r, of i] read_integer_text [of i] by (simp add: c Let_def del: takeWhile.simps)
qed

lemma item_head: "json_text v \<noteq> CHR '']'' # x"
  using json_text_not_close [of v "[]"] by simp

lemma read_value_text:
  "length (json_text v) < n \<Longrightarrow> closes r \<Longrightarrow> read_value n (json_text v @ r) = Some (v, r)"
  "Suc (length (json_items vs)) < n \<Longrightarrow> vs \<noteq> [] \<Longrightarrow> read_items n (json_items vs @ CHR '']'' # r) = Some (vs, r)"
  "Suc (length (json_members ms)) < n \<Longrightarrow> ms \<noteq> [] \<Longrightarrow> read_members n (json_members ms @ CHR ''}'' # r) = Some (ms, r)"
proof (induction v and vs and ms arbitrary: n r and n r and n r rule: json_text_json_items_json_members.induct)
  case 1
  then show ?case by (cases n) simp_all
next
  case (2 b)
  then show ?case by (cases n; cases b) simp_all
next
  case (3 i)
  then show ?case using read_value_integer by (cases n) simp_all
next
  case (4 t)
  obtain x where x: "json_string t @ r = CHR 34 # x" by (simp add: json_string_def)
  have "read_string (CHR 34 # x) = Some (t, r)" using read_string_text [of t r] by (simp add: x)
  then show ?case using "4.prems" x by (cases n) simp_all
next
  case (5 vs)
  then obtain m where n: "n = Suc m" by (cases n) auto
  show ?case
  proof (cases vs)
    case Nil
    then show ?thesis by (simp add: n)
  next
    case (Cons v us)
    obtain c x where c: "json_items vs = c # x" "c \<noteq> CHR '']''"
      using json_text_head [of v] item_head [of v] by (cases "json_text v") (auto simp: Cons)
    have "read_items m (json_items vs @ CHR '']'' # r) = Some (vs, r)"
      by (rule "5.IH") (use "5.prems" n Cons in simp_all)
    then show ?thesis using c by (simp add: n)
  qed
next
  case (6 ms)
  then obtain m where n: "n = Suc m" by (cases n) auto
  show ?case
  proof (cases ms)
    case Nil
    then show ?thesis by (simp add: n)
  next
    case (Cons p us)
    obtain x where x: "json_members ms = CHR 34 # x" by (cases p) (simp add: Cons json_string_def)
    have "read_members m (json_members ms @ CHR ''}'' # r) = Some (ms, r)"
      by (rule "6.IH") (use "6.prems" n Cons in simp_all)
    then show ?thesis using x by (simp add: n)
  qed
next
  case 7
  then show ?case by simp
next
  case (8 v vs)
  then obtain m where n: "n = Suc m" by (cases n) auto
  show ?case
  proof (cases "vs = []")
    case True
    have "read_value m (json_text v @ CHR '']'' # r) = Some (v, CHR '']'' # r)"
      by (rule "8.IH"(1)) (use "8.prems" n True in \<open>simp_all add: number_char_def is_digit_def\<close>)
    then show ?thesis by (simp add: n True)
  next
    case False
    have "read_value m (json_text v @ '','' @ json_items vs @ CHR '']'' # r) = Some (v, '','' @ json_items vs @ CHR '']'' # r)"
      by (rule "8.IH"(1)) (use "8.prems" n in \<open>simp_all add: number_char_def is_digit_def\<close>)
    moreover have "read_items m (json_items vs @ CHR '']'' # r) = Some (vs, r)"
      by (rule "8.IH"(2)) (use "8.prems" n False in simp_all)
    ultimately show ?thesis by (simp add: n False)
  qed
next
  case 9
  then show ?case by simp
next
  case (10 k v ms)
  then obtain m where n: "n = Suc m" by (cases n) auto
  let ?rest = "(if ms = [] then [] else '','' @ json_members ms) @ CHR ''}'' # r"
  have key: "read_string (json_string k @ '':'' @ json_text v @ ?rest) = Some (k, '':'' @ json_text v @ ?rest)"
    by (rule read_string_text)
  have val: "read_value m (json_text v @ ?rest) = Some (v, ?rest)"
    by (rule "10.IH"(1)) (use "10.prems" n in \<open>auto simp: number_char_def is_digit_def\<close>)
  show ?case
  proof (cases "ms = []")
    case True
    then show ?thesis using key val by (simp add: n)
  next
    case False
    have "read_members m (json_members ms @ CHR ''}'' # r) = Some (ms, r)"
      by (rule "10.IH"(2)) (use "10.prems" n False in simp_all)
    then show ?thesis using key val False by (simp add: n)
  qed
qed

lemma newline_closes: "closes [char_of (10 :: nat)]"
proof -
  have "char_of (10 :: nat) \<noteq> CHR ''-''" by code_simp
  then show ?thesis by (simp add: number_char_def is_digit_def)
qed

theorem json_loads_text: "json_loads (json_text v) = Some v" "json_loads (json_text v @ [char_of (10 :: nat)]) = Some v"
  using read_value_text(1) [of v "Suc (length (json_text v))" "[]"]
    read_value_text(1) [of v "Suc (Suc (length (json_text v)))" "[char_of (10 :: nat)]"] newline_closes
  by (simp_all add: json_loads_def del: read_value.simps)

end
