(* ===== verification/SpoolFormat.thy ===== *)
theory SpoolFormat
  imports SpoolCrypto SpoolCrash PyJsonRead
begin

text \<open>
  The record format keeps the laws recovery relies on: what is sealed opens, what is signed verifies and stays
  within a control file, and the hash of a record identifies its header and payload.
\<close>

section \<open>Laws of the parameters\<close>

text \<open>
  AES-GCM decrypts what it encrypted, adds a tag of sixteen bytes, and accepts only what encrypting the plaintext
  under the same key, nonce and associated data gives; the JSON parser reads canonical documents back.
\<close>

definition crypto_ok :: "crypto \<Rightarrow> bool" where
  "crypto_ok cr \<longleftrightarrow>
     (\<forall>v. cr_parse cr (json_dumps v) = Some (json_canon v) \<and> cr_parse cr (json_dumps v @ line_feed) = Some (json_canon v)) \<and>
     (\<forall>k n p a. length n = 12 \<longrightarrow> cr_decrypt cr k n (cr_encrypt cr k n p a) a = Some p \<and>
        length (cr_encrypt cr k n p a) = length p + 16) \<and>
     (\<forall>k n c a p. length n = 12 \<longrightarrow> cr_decrypt cr k n c a = Some p \<longrightarrow> c = cr_encrypt cr k n p a)"

lemma crypto_parse:
  "crypto_ok cr \<Longrightarrow> cr_parse cr (json_dumps v) = Some (json_canon v)"
  "crypto_ok cr \<Longrightarrow> cr_parse cr (json_dumps v @ line_feed) = Some (json_canon v)"
  by (simp_all add: crypto_ok_def)

section \<open>Sealed records open\<close>

definition valid_header :: "record_header \<Rightarrow> bool" where
  "valid_header h \<longleftrightarrow> rh_format h = 2 \<and> rh_type h \<in> set record_types \<and> 1 \<le> rh_seq h \<and> hex_text 64 (rh_pred h) \<and>
     hex_text 32 (rh_key h) \<and> 1 \<le> rh_length h \<and> rh_digest h = None"

lemma header_canon: "json_canon (JObj (header_dump h)) = JObj (header_dump h)"
  by (simp add: header_dump_def opt_text_def split: option.split)

lemma header_read_dump: "valid_header h \<Longrightarrow> header_read (header_dump h) = Some h"
  by (simp add: header_read_def header_dump_def closed_fields_def field_defs valid_header_def)

lemma read_document_dump:
  assumes "crypto_ok cr" and "valid_header h"
  shows "read_document cr (json_dumps (JObj [(''ciphertext'', JStr (b64encode c)), (''header'', JObj (header_dump h))]) @ line_feed) =
    Inr (h, c)"
proof -
  have "json_canon (JObj [(''ciphertext'', JStr (b64encode c)), (''header'', JObj (header_dump h))]) =
      JObj [(''ciphertext'', JStr (b64encode c)), (''header'', JObj (header_dump h))]"
    using header_canon [of h] by simp
  then show ?thesis
    using assms by (simp add: read_document_def crypto_parse closed_fields_def field_defs header_read_dump b64_round_trip)
qed

lemma sealed_header:
  "kind \<in> set record_types \<Longrightarrow> 1 \<le> n \<Longrightarrow> hex_text 64 pred \<Longrightarrow> hex_text 32 key \<Longrightarrow>
   valid_header (sl_header (seal_record cr keys key nonce kind n pred payload))"
  by (simp add: seal_record_def Let_def valid_header_def)

definition sealed_cipher :: "crypto \<Rightarrow> key_set \<Rightarrow> string \<Rightarrow> members \<Rightarrow> record_header \<Rightarrow> string" where
  "sealed_cipher cr keys nonce payload h = cr_encrypt cr (ks_encryption keys) nonce (json_dumps (JObj payload)) (header_bytes h)"

lemma sealed_fields:
  fixes cr keys key nonce kind n pred payload
  defines "s \<equiv> seal_record cr keys key nonce kind n pred payload"
  shows "rh_type (sl_header s) = kind" and "rh_seq (sl_header s) = n" and "rh_pred (sl_header s) = pred"
    and "rh_key (sl_header s) = key" and "rh_nonce (sl_header s) = b64encode nonce" and "rh_format (sl_header s) = 2"
    and "rh_length (sl_header s) = int (length (json_dumps (JObj payload))) + 16"
    and "sl_data s = json_dumps (JObj [(''ciphertext'', JStr (b64encode (sealed_cipher cr keys nonce payload (sl_header s)))),
        (''header'', JObj (header_dump (sl_header s)))]) @ line_feed"
    and "sl_hash s = sha256_hex (hash_input (sl_header s) (sealed_cipher cr keys nonce payload (sl_header s)))"
  by (simp_all add: s_def seal_record_def sealed_cipher_def Let_def)

lemma read_sealed:
  assumes "crypto_ok cr" and "kind \<in> set record_types" and "1 \<le> n" and "hex_text 64 pred" and "hex_text 32 key"
  shows "read_document cr (sl_data (seal_record cr keys key nonce kind n pred payload)) =
    Inr (sl_header (seal_record cr keys key nonce kind n pred payload),
      sealed_cipher cr keys nonce payload (sl_header (seal_record cr keys key nonce kind n pred payload)))"
  unfolding sealed_fields(8) by (rule read_document_dump [OF assms(1) sealed_header [OF assms(2-5)]])

lemma open_sealed:
  assumes "crypto_ok cr" and "kind \<in> set record_types" and "1 \<le> n" and "hex_text 64 pred" and "hex_text 32 key"
    and "length nonce = 12" and "json_canon (JObj payload) = JObj payload"
  shows "open_record cr keys key (sl_data (seal_record cr keys key nonce kind n pred payload)) =
    Inr (sl_header (seal_record cr keys key nonce kind n pred payload), payload,
      sl_hash (seal_record cr keys key nonce kind n pred payload))"
proof -
  let ?s = "seal_record cr keys key nonce kind n pred payload"
  let ?c = "sealed_cipher cr keys nonce payload (sl_header ?s)"
  have cipher: "cr_decrypt cr (ks_encryption keys) nonce ?c (header_bytes (sl_header ?s)) = Some (json_dumps (JObj payload))"
    "length ?c = length (json_dumps (JObj payload)) + 16"
    using assms(1,6) by (simp_all add: crypto_ok_def sealed_cipher_def)
  have "verify_nonce nonce (sl_header ?s) keys = Inr ()" using assms(6) by (simp add: verify_nonce_def sealed_fields)
  moreover have "verify_ciphertext ?c (sl_header ?s) = Inr ()"
    by (simp add: verify_ciphertext_def cipher(2) sealed_fields(6,7))
  ultimately show ?thesis
    unfolding open_record_def read_sealed [OF assms(1-5)]
    using cipher(1) assms(7) by (simp add: sealed_fields(4,5,9) b64_round_trip crypto_parse [OF assms(1)])
qed

section \<open>The hash of a record\<close>

text \<open>A canonical text has no raw line feed, so the hash input splits in one way.\<close>

lemma hex_char_feed: "d < 16 \<Longrightarrow> hex_char d \<noteq> char_of (10 :: nat)"
proof -
  assume "d < 16"
  then have "is_hex_lower (hex_char d)" by (rule hex_char_is_hex)
  moreover have "\<not> is_hex_lower (char_of (10 :: nat))" by (simp add: is_hex_lower_def is_digit_def)
  ultimately show ?thesis by metis
qed

lemma escape_feed: "char_of (10 :: nat) \<notin> set (json_escape c)"
proof -
  have "char_of (10 :: nat) \<notin> set [CHR 92, CHR ''b'', CHR ''f'', CHR ''n'', CHR ''r'', CHR ''t'', CHR ''u'', CHR ''0'']"
    by code_simp
  moreover have "c = char_of (10 :: nat) \<Longrightarrow> (of_char c :: nat) = 10" by simp
  ultimately show ?thesis by (auto simp: json_escape_def Let_def hex_char_feed [THEN not_sym])
qed

lemma string_feed: "char_of (10 :: nat) \<notin> set (json_string s)"
proof -
  have "char_of (10 :: nat) \<noteq> CHR 34" by code_simp
  then show ?thesis using escape_feed by (auto simp: json_string_def)
qed

lemma integer_feed: "char_of (10 :: nat) \<notin> set (str_int i)"
proof
  assume "char_of (10 :: nat) \<in> set (str_int i)"
  then have "number_char (char_of (10 :: nat))" using str_int_number [of i] by (simp add: list_all_iff)
  moreover have "char_of (10 :: nat) \<noteq> CHR ''-''" by code_simp
  ultimately show False by (simp add: number_char_def is_digit_def)
qed

lemma text_feed:
  "char_of (10 :: nat) \<notin> set (json_text v)" "char_of (10 :: nat) \<notin> set (json_items vs)" "char_of (10 :: nat) \<notin> set (json_members ms)"
proof (induction v and vs and ms rule: json_text_json_items_json_members.induct)
  case 1
  show ?case by code_simp
next
  case (2 b)
  have "char_of (10 :: nat) \<notin> set ''true''" "char_of (10 :: nat) \<notin> set ''false''" by code_simp+
  then show ?case by simp
next
  case (5 vs)
  have "char_of (10 :: nat) \<notin> set ''[]''" by code_simp
  then show ?case using 5 by simp
next
  case (6 ms)
  have "char_of (10 :: nat) \<notin> set ''{}''" by code_simp
  then show ?case using 6 by simp
next
  case (8 v vs)
  have "char_of (10 :: nat) \<notin> set '',''" by code_simp
  then show ?case using 8 by simp
next
  case (10 k v ms)
  have "char_of (10 :: nat) \<notin> set '',:''" by code_simp
  then show ?case using 10 string_feed by simp
qed (simp_all add: string_feed integer_feed)

lemma split_unique: "x \<notin> set xs \<Longrightarrow> x \<notin> set ys \<Longrightarrow> xs @ x # r = ys @ x # q \<longleftrightarrow> xs = ys \<and> r = q"
proof
  assume x: "x \<notin> set xs" "x \<notin> set ys" and eq: "xs @ x # r = ys @ x # q"
  have "takeWhile (\<lambda>y. y \<noteq> x) (xs @ x # r) = xs" "takeWhile (\<lambda>y. y \<noteq> x) (ys @ x # q) = ys"
    using x by (auto simp: takeWhile_append)
  then have "xs = ys" using eq by metis
  then show "xs = ys \<and> r = q" using eq by simp
qed simp

lemma header_dump_inj: "header_dump h = header_dump h' \<longleftrightarrow> h = h'"
  by (cases h; cases h') (auto simp: header_dump_def opt_text_def split: option.splits)

lemma header_bytes_inj: "header_bytes h = header_bytes h' \<longleftrightarrow> h = h'"
  unfolding header_bytes_def json_dumps_inj header_canon by (simp add: header_dump_inj)

lemma header_feed: "char_of (10 :: nat) \<notin> set (header_bytes h)"
  unfolding header_bytes_def json_dumps_def by (rule text_feed(1))

lemma hash_input_inj: "hash_input h c = hash_input h' c' \<longleftrightarrow> h = h' \<and> c = c'"
  using split_unique [OF header_feed header_feed, of h c h' c'] header_bytes_inj by (simp add: hash_input_def line_feed_def)

section \<open>What opens was sealed\<close>

lemma open_record_Inr:
  assumes "open_record cr keys key data = Inr (h, payload, hash)"
  shows "\<exists>c nonce plaintext. read_document cr data = Inr (h, c) \<and> verify_nonce nonce h keys = Inr () \<and>
     cr_decrypt cr (ks_encryption keys) nonce c (header_bytes h) = Some plaintext \<and> cr_parse cr plaintext = Some (JObj payload) \<and>
     hash = sha256_hex (hash_input h c)"
proof -
  obtain h' c where doc: "read_document cr data = Inr (h', c)"
    using assms unfolding open_record_def bindE_Inr_iff by auto
  have "rh_key h' = key" using assms by (simp add: open_record_def doc split: if_splits)
  moreover from this obtain nonce where nonce: "b64decode (rh_nonce h') = Some nonce"
    using assms by (cases "b64decode (rh_nonce h')") (simp_all add: open_record_def doc)
  ultimately have run: "bindE (verify_nonce nonce h' keys) (\<lambda>_. bindE (verify_ciphertext c h') (\<lambda>_.
       case Option.bind (cr_decrypt cr (ks_encryption keys) nonce c (header_bytes h')) (cr_parse cr) of
         Some (JObj payload) \<Rightarrow> Inr (h', payload, sha256_hex (hash_input h' c))
       | _ \<Rightarrow> Inl (CryptoError ''record authentication or payload validation failed''))) = Inr (h, payload, hash)"
    using assms by (simp add: open_record_def doc)
  then have ok: "verify_nonce nonce h' keys = Inr ()"
    and last: "(case Option.bind (cr_decrypt cr (ks_encryption keys) nonce c (header_bytes h')) (cr_parse cr) of
         Some (JObj payload) \<Rightarrow> Inr (h', payload, sha256_hex (hash_input h' c))
       | _ \<Rightarrow> Inl (CryptoError ''record authentication or payload validation failed'')) = Inr (h, payload, hash)"
    unfolding bindE_Inr_iff by auto
  obtain v where v: "Option.bind (cr_decrypt cr (ks_encryption keys) nonce c (header_bytes h')) (cr_parse cr) = Some v"
    using last by (cases "Option.bind (cr_decrypt cr (ks_encryption keys) nonce c (header_bytes h')) (cr_parse cr)") simp_all
  then have "v = JObj payload \<and> h' = h \<and> hash = sha256_hex (hash_input h c)" using last by (cases v) auto
  then show ?thesis using doc ok v unfolding bind_eq_Some_conv by blast
qed

lemma verify_nonce_length: "verify_nonce nonce h keys = Inr () \<Longrightarrow> length nonce = 12"
  by (simp add: verify_nonce_def split: if_splits)

lemma opened_authentic:
  assumes "crypto_ok cr" and "open_record cr keys key data = Inr (h, payload, hash)"
  shows "\<exists>c nonce plaintext. read_document cr data = Inr (h, c) \<and>
     c = cr_encrypt cr (ks_encryption keys) nonce plaintext (header_bytes h) \<and> cr_parse cr plaintext = Some (JObj payload) \<and>
     hash = sha256_hex (hash_input h c)"
  using open_record_Inr [OF assms(2)] assms(1) verify_nonce_length unfolding crypto_ok_def by metis

lemma open_record_content:
  assumes "open_record cr keys key data = Inr (h, payload, hash)" and "open_record cr keys key data' = Inr (h', payload', hash')"
    and "read_document cr data = read_document cr data'"
  shows "h = h' \<and> payload = payload' \<and> hash = hash'"
  using assms unfolding open_record_def by simp

section \<open>Signed documents\<close>

lemma hmac_hex [simp]: "hex_text 64 (hmac_sha256 key m)"
  by (simp add: hmac_sha256_def Let_def)

lemma verify_signed:
  assumes "crypto_ok cr" and "json_canon (JObj body) = JObj body"
  shows "verify_signed_document cr (sign_document body key) key = Inr body"
proof -
  have "json_canon (JObj [(''body'', JObj body), (''mac'', JStr (hmac_sha256 key (json_dumps (JObj body))))]) =
      JObj [(''body'', JObj body), (''mac'', JStr (hmac_sha256 key (json_dumps (JObj body))))]"
    using assms(2) by simp
  then have "signed_read cr (sign_document body key) = Inr (body, hmac_sha256 key (json_dumps (JObj body)))"
    by (simp add: signed_read_def sign_document_def crypto_parse [OF assms(1)] closed_fields_def field_defs)
  then show ?thesis by (simp add: verify_signed_document_def)
qed

lemma hex_string_length: "hex_text n s \<Longrightarrow> length (json_string s) = n + 2"
proof -
  assume hex: "hex_text n s"
  have "json_escape c = [c]" if "c \<in> set s" for c
  proof -
    have "is_hex_lower c" using hex that by (simp add: hex_text_def list_all_iff)
    then show ?thesis by (auto simp: json_escape_def Let_def is_hex_lower_def is_digit_def)
  qed
  then have same: "map json_escape s = map (\<lambda>c. [c]) s" by (rule map_cong [OF refl])
  have "concat (map json_escape s) = s" unfolding same by simp
  then show ?thesis using hex by (simp add: json_string_def hex_text_def)
qed

lemma number_length: "valid_number n \<Longrightarrow> length (str_int n) \<le> 20"
proof -
  assume "valid_number n"
  then have "0 \<le> n" "nat n < 10 ^ Suc 19" by (auto simp: valid_number_def nat_less_iff)
  then show ?thesis using str_nat_length [of "nat n" 19] by (simp add: str_int_def)
qed

lemma key_lengths:
  "length (json_string ''body'') = 6" "length (json_string ''mac'') = 5" "length (json_string ''format_version'') = 16"
  "length (json_string ''record_hash'') = 13" "length (json_string ''sequence'') = 10" "length (json_string ''state_digest'') = 14"
  "length (str_int 1) = 1"
  by code_simp+

lemma head_canon: "json_canon (JObj (head_dump h)) = JObj (head_dump h)"
  by (simp add: head_dump_def)

lemma cursor_canon: "json_canon (JObj (cursor_dump c)) = JObj (cursor_dump c)"
  by (simp add: cursor_dump_def)

lemma signed_length:
  "json_canon (JObj body) = JObj body \<Longrightarrow> length (sign_document body key) = length (json_text (JObj body)) + 83"
  using hex_string_length [OF hmac_hex, of key "json_text (JObj body)"]
  by (simp add: sign_document_def json_dumps_def key_lengths line_feed_def)

lemma head_length: "valid_head h \<Longrightarrow> length (sign_document (head_dump h) key) \<le> max_control_bytes"
proof -
  assume "valid_head h"
  then have "length (json_string (hd_hash h)) = 66" "length (str_int (hd_seq h)) \<le> 20"
    using hex_string_length number_length by (auto simp: valid_head_def)
  then show ?thesis
    unfolding signed_length [OF head_canon] by (simp add: head_dump_def key_lengths max_control_bytes_def)
qed

lemma cursor_length: "valid_cursor c \<Longrightarrow> length (sign_document (cursor_dump c) key) \<le> max_control_bytes"
proof -
  assume "valid_cursor c"
  then have "length (json_string (cu_hash c)) = 66" "length (json_string (cu_digest c)) = 66" "length (str_int (cu_seq c)) \<le> 20"
    using hex_string_length number_length by (auto simp: valid_cursor_def)
  then show ?thesis
    unfolding signed_length [OF cursor_canon] by (simp add: cursor_dump_def key_lengths max_control_bytes_def)
qed

section \<open>The environment's laws hold\<close>

theorem crypto_env_ok:
  assumes cr: "crypto_ok cr" and key: "hex_text 32 key" and nonces: "\<And>n. length (nonces n) = 12" and u: "uuid_like u"
  shows "env_ok (crypto_env cr keys key nonces u scan maximum)"
  unfolding env_ok_def
proof (intro conjI allI impI)
  fix kind n pred body
  assume sealed: "kind \<in> set record_types" "1 \<le> (n :: int)" "hex_text 64 pred" "json_canon (JObj body) = JObj body"
  let ?s = "seal_record cr keys key (nonces n) kind n pred body"
  have seal: "se_seal (crypto_env cr keys key nonces u scan maximum) kind n pred body = (sl_data ?s, sl_hash ?s)"
    by (simp add: crypto_env_def Let_def)
  show "hex_text 64 (snd (se_seal (crypto_env cr keys key nonces u scan maximum) kind n pred body))"
    unfolding seal by (simp add: sealed_fields(9))
  show "se_open (crypto_env cr keys key nonces u scan maximum)
      (fst (se_seal (crypto_env cr keys key nonces u scan maximum) kind n pred body)) =
    Inr \<lparr>op_type = kind, op_seq = n, op_pred = pred, op_payload = body,
      op_hash = snd (se_seal (crypto_env cr keys key nonces u scan maximum) kind n pred body)\<rparr>"
    unfolding seal using open_sealed [OF cr sealed(1-3) key nonces sealed(4)] by (simp add: crypto_env_def sealed_fields(1-3))
qed (simp_all add: crypto_env_def u verify_signed [OF cr head_canon] verify_signed [OF cr cursor_canon] head_length cursor_length)

section \<open>The format of a record\<close>

text \<open>
  C28. The record format is sound. A record sealed under valid header fields opens, under the same keys, to exactly the
  header and the payload it was sealed with. Conversely, whatever opens is the encryption of a document of
  its payload under the session's key, with exactly its clear header as associated data, and its hash is SHA-256 of
  header and ciphertext: bytes that open with the hash of the sealed record have the same header and payload, or they
  and the sealed record are two different inputs of SHA-256 with one digest.
\<close>

theorem record_format_sound:
  assumes "crypto_ok cr" and "kind \<in> set record_types" and "1 \<le> n" and "hex_text 64 pred" and "hex_text 32 key"
    and "length nonce = 12" and "json_canon (JObj payload) = JObj payload"
    and "s = seal_record cr keys key nonce kind n pred payload"
  shows "open_record cr keys key (sl_data s) = Inr (sl_header s, payload, sl_hash s) \<and>
    rh_type (sl_header s) = kind \<and> rh_seq (sl_header s) = n \<and> rh_pred (sl_header s) = pred \<and>
    (\<forall>data h p hash. open_record cr keys key data = Inr (h, p, hash) \<longrightarrow>
       (\<exists>c nonce' plaintext c'. read_document cr data = Inr (h, c) \<and>
          c = cr_encrypt cr (ks_encryption keys) nonce' plaintext (header_bytes h) \<and> cr_parse cr plaintext = Some (JObj p) \<and>
          hash = sha256_hex (hash_input h c) \<and> read_document cr (sl_data s) = Inr (sl_header s, c') \<and>
          sl_hash s = sha256_hex (hash_input (sl_header s) c') \<and>
          (hash = sl_hash s \<longrightarrow> h = sl_header s \<and> p = payload \<or> hash_input h c \<noteq> hash_input (sl_header s) c')))"
proof -
  note sealed = open_sealed [OF assms(1-7), of keys, folded assms(8)]
  note doc = read_sealed [OF assms(1-5), of keys nonce payload, folded assms(8)]
  let ?c' = "sealed_cipher cr keys nonce payload (sl_header s)"
  have "\<exists>c nonce' plaintext c'. read_document cr data = Inr (h, c) \<and>
      c = cr_encrypt cr (ks_encryption keys) nonce' plaintext (header_bytes h) \<and> cr_parse cr plaintext = Some (JObj p) \<and>
      hash = sha256_hex (hash_input h c) \<and> read_document cr (sl_data s) = Inr (sl_header s, c') \<and>
      sl_hash s = sha256_hex (hash_input (sl_header s) c') \<and>
      (hash = sl_hash s \<longrightarrow> h = sl_header s \<and> p = payload \<or> hash_input h c \<noteq> hash_input (sl_header s) c')"
    if run: "open_record cr keys key data = Inr (h, p, hash)" for data h p hash
  proof -
    obtain c nonce' plaintext where c: "read_document cr data = Inr (h, c)"
      "c = cr_encrypt cr (ks_encryption keys) nonce' plaintext (header_bytes h)" "cr_parse cr plaintext = Some (JObj p)"
      "hash = sha256_hex (hash_input h c)"
      using opened_authentic [OF assms(1) run] by blast
    have "h = sl_header s \<and> p = payload" if "hash_input h c = hash_input (sl_header s) ?c'"
      using open_record_content [OF run sealed] that c(1) doc by (simp add: hash_input_inj)
    moreover have "sl_hash s = sha256_hex (hash_input (sl_header s) ?c')" unfolding assms(8) by (rule sealed_fields(9))
    ultimately show ?thesis using c doc by blast
  qed
  then show ?thesis using sealed sealed_fields(1-3) [of cr keys key nonce kind n pred payload, folded assms(8)] by blast
qed

text \<open>A cipher that only adds a tag, and the reader of canonical texts.\<close>

definition plain_crypto :: crypto where
  "plain_crypto =
     \<lparr>cr_encrypt = (\<lambda>k n p a. p @ replicate 16 (CHR ''x'')),
      cr_decrypt = (\<lambda>k n c a. if drop (length c - 16) c = replicate 16 (CHR ''x'') then Some (take (length c - 16) c) else None),
      cr_hkdf = (\<lambda>m salt info. info), cr_parse = json_loads\<rparr>"

definition plain_keys :: key_set where
  "plain_keys = \<lparr>ks_encryption = [], ks_metadata = [], ks_legacy = [], ks_binding = []\<rparr>"

lemma plain_crypto_ok: "crypto_ok plain_crypto"
proof -
  have "c = take (length c - 16) c @ replicate 16 (CHR ''x'')"
    if "drop (length c - 16) c = replicate 16 (CHR ''x'')" for c
    using append_take_drop_id [of "length c - 16" c] that by simp
  then show ?thesis
    by (auto simp: crypto_ok_def plain_crypto_def json_dumps_def json_loads_text line_feed_def split: if_splits)
qed

theorem record_format_sound_witness:
  "open_record plain_crypto plain_keys (replicate 32 (CHR ''a''))
     (sl_data (seal_record plain_crypto plain_keys (replicate 32 (CHR ''a'')) (replicate 12 (CHR ''n'')) ''command'' 1
       genesis_hash [(''k'', JInt 7)])) =
   Inr (sl_header (seal_record plain_crypto plain_keys (replicate 32 (CHR ''a'')) (replicate 12 (CHR ''n'')) ''command'' 1
       genesis_hash [(''k'', JInt 7)]), [(''k'', JInt 7)],
     sl_hash (seal_record plain_crypto plain_keys (replicate 32 (CHR ''a'')) (replicate 12 (CHR ''n'')) ''command'' 1
       genesis_hash [(''k'', JInt 7)]))"
proof -
  have "hex_text 32 (replicate 32 (CHR ''a''))" by (simp add: hex_text_def list_all_iff is_hex_lower_def is_digit_def)
  then show ?thesis
    using record_format_sound [OF plain_crypto_ok _ _ hex_text_genesis _ _ _ refl, of "''command''" 1 "replicate 32 (CHR ''a'')"
        "replicate 12 (CHR ''n'')" "[(''k'', JInt 7)]" plain_keys]
    by (simp add: record_types_def)
qed

end
