(* ===== verification/SpoolKeyring.thy ===== *)
theory SpoolKeyring
  imports SpoolFormat SpoolReplay
begin

text \<open>
  \<open>ctowerctl/spool/_keyring.py\<close> and the metadata of \<open>_recovery.py\<close>: the master key in the operating system's keyring, the
  signed metadata document that names it, and the keys of a session. The keyring's backend is a parameter: its
  state \<open>'k\<close>, how it identifies itself, and its two calls, where \<open>None\<close> is an exception.
\<close>

section \<open>UUIDs\<close>

definition hex_any_value :: "char \<Rightarrow> nat" where
  "hex_any_value c =
     (let n = of_char c :: nat in if n < 58 then n - 48 else if n < 71 then n - 55 else n - 87)"

text \<open>\<open>UUID(text)\<close>, on the texts \<open>uuid_text\<close> describes.\<close>

definition parse_uuid :: "string \<Rightarrow> uuid option" where
  "parse_uuid s =
     (if uuid_text s
      then Some (of_nat (foldl (\<lambda>n c. 16 * n + hex_any_value c) 0 (filter (\<lambda>c. c \<noteq> CHR ''-'') s)))
      else None)"

definition uuid_bytes :: "uuid \<Rightarrow> string" where
  "uuid_bytes u = map (\<lambda>i. char_of (unat u div 256 ^ (15 - i) mod 256)) [0..<16]"

section \<open>Programs over the keyring and the disk\<close>

type_synonym ('k, 'a) kio = "'k \<Rightarrow> string world \<Rightarrow> (spool_fault + 'a) \<times> 'k \<times> string world"

definition bindK :: "('k, 'a) kio \<Rightarrow> ('a \<Rightarrow> ('k, 'c) kio) \<Rightarrow> ('k, 'c) kio" where
  "bindK m f k w = (case m k w of (Inl e, k', w') \<Rightarrow> (Inl e, k', w') | (Inr x, k', w') \<Rightarrow> f x k' w')"

definition diskK :: "(string, 'a) io \<Rightarrow> ('k, 'a) kio" where
  "diskK m k w = (case m w of (r, w') \<Rightarrow> (r, k, w'))"

definition keyK :: "('k \<Rightarrow> (spool_fault + 'a) \<times> 'k) \<Rightarrow> ('k, 'a) kio" where
  "keyK f k w = (case f k of (r, k') \<Rightarrow> (r, k', w))"

definition pureK :: "'a spool \<Rightarrow> ('k, 'a) kio" where
  "pureK r k w = (r, k, w)"

lemma bindK_Inr_iff: "bindK m f k w = (Inr y, k2, w2) \<longleftrightarrow> (\<exists>x k1 w1. m k w = (Inr x, k1, w1) \<and> f x k1 w1 = (Inr y, k2, w2))"
  by (auto simp: bindK_def split: prod.splits sum.splits)

lemma liftK_iff:
  "diskK m k w = (r, k', w') \<longleftrightarrow> m w = (r, w') \<and> k' = k"
  "keyK f k w = (r, k', w') \<longleftrightarrow> f k = (r, k') \<and> w' = w"
  "pureK x k w = (r, k', w') \<longleftrightarrow> x = r \<and> k' = k \<and> w' = w"
  by (auto simp: diskK_def keyK_def pureK_def split: prod.splits)

section \<open>The keyring\<close>

text \<open>An \<open>except\<close> clause that forgets which error it was.\<close>

definition ok_value :: "'e + 'a \<Rightarrow> 'a option" where
  "ok_value r = (case r of Inl _ \<Rightarrow> None | Inr x \<Rightarrow> Some x)"

lemma ok_value_simps [simp]: "ok_value (Inr x) = Some x" "ok_value r = Some x \<longleftrightarrow> r = Inr x"
  by (auto simp: ok_value_def split: sum.splits)


record 'k keyring =
  kr_identity :: "'k \<Rightarrow> (string \<times> string) option"
  kr_priority :: "'k \<Rightarrow> int option"
  kr_get :: "'k \<Rightarrow> string \<Rightarrow> string option option"
  kr_set :: "'k \<Rightarrow> string \<Rightarrow> string \<Rightarrow> 'k option"

definition allowed_backends :: "(string \<times> string) list" where
  "allowed_backends =
     [(''keyring.backends.SecretService'', ''Keyring''), (''keyring.backends.macOS'', ''Keyring''),
      (''keyring.backends.Windows'', ''Keyring''), (''keyring.backends.Windows'', ''WinVaultKeyring'')]"

text \<open>The identity is \<open>None\<close> when no keyring can be imported; the priority when the backend has none to compare.\<close>

definition secure_backend :: "'k keyring \<Rightarrow> 'k \<Rightarrow> unit spool" where
  "secure_backend kr k =
     (case kr_identity kr k of
        None \<Rightarrow> Inl (KeyringError ''an allowlisted secure OS keyring is required'')
      | Some identity \<Rightarrow>
          if identity \<notin> set allowed_backends
          then Inl (KeyringError ''the selected keyring backend is not allowlisted as secure'')
          else case kr_priority kr k of
            None \<Rightarrow> Inl (KeyringError ''the selected keyring backend is not securely identifiable'')
          | Some p \<Rightarrow>
              raise_if (p \<le> 0) (KeyringError ''the selected keyring backend is not allowlisted as secure''))"

definition decode_key :: "string option \<Rightarrow> string spool" where
  "decode_key value =
     (case value of
        None \<Rightarrow> Inl (KeyringError ''secure OS keyring is missing the spool key'')
      | Some v \<Rightarrow>
          (case b64decode v of
             None \<Rightarrow> Inl (KeyringError ''secure OS keyring returned an invalid spool key'')
           | Some master \<Rightarrow>
               if length master \<noteq> 32 then Inl (KeyringError ''secure OS keyring returned a non-256-bit spool key'')
               else Inr master))"

definition create_master_key :: "'k keyring \<Rightarrow> uuid \<Rightarrow> string \<Rightarrow> 'k \<Rightarrow> (spool_fault + string) \<times> 'k" where
  "create_master_key kr u random k =
     (case secure_backend kr k of
        Inl e \<Rightarrow> (Inl e, k)
      | Inr _ \<Rightarrow>
          (case kr_get kr k (uuid_str u) of
             None \<Rightarrow> (Inl (KeyringError ''secure OS keyring is unavailable or locked''), k)
           | Some (Some _) \<Rightarrow> (Inl (KeyringError ''keyring already contains this spool identity''), k)
           | Some None \<Rightarrow>
               (case kr_set kr k (uuid_str u) (b64encode random) of
                  None \<Rightarrow> (Inl (KeyringError ''secure OS keyring refused the spool key''), k)
                | Some k' \<Rightarrow>
                    (case Option.bind (kr_get kr k' (uuid_str u)) (\<lambda>v. ok_value (decode_key v)) of
                       None \<Rightarrow> (Inl (KeyringError ''secure OS keyring refused the spool key''), k')
                     | Some stored \<Rightarrow>
                         if stored \<noteq> random
                         then (Inl (KeyringError ''secure OS keyring did not persist the exact spool key''), k')
                         else (Inr random, k')))))"

definition load_master_key :: "'k keyring \<Rightarrow> uuid \<Rightarrow> 'k \<Rightarrow> string spool" where
  "load_master_key kr u k =
     bindE (secure_backend kr k) (\<lambda>_.
       case kr_get kr k (uuid_str u) of
         None \<Rightarrow> Inl (KeyringError ''secure OS keyring is unavailable or locked'')
       | Some v \<Rightarrow> decode_key v)"

section \<open>Metadata\<close>

record metadata_doc =
  md_uuid :: string
  md_key :: string
  md_origin :: string

definition metadata_dump :: "metadata_doc \<Rightarrow> members" where
  "metadata_dump m =
     [(''format_version'', JInt 1), (''key_id'', JStr (md_key m)), (''origin_digest'', JStr (md_origin m)),
      (''spool_uuid'', JStr (md_uuid m))]"

definition metadata_read :: "members \<Rightarrow> metadata_doc option" where
  "metadata_read ms =
     (if closed_fields ms [''format_version'', ''spool_uuid'', ''key_id'', ''origin_digest'']
      then Option.bind (field_int (\<lambda>i. i = 1) ms ''format_version'') (\<lambda>_.
           Option.bind (field_str (\<lambda>_. True) ms ''spool_uuid'') (\<lambda>u.
           Option.bind (field_str (hex_text 32) ms ''key_id'') (\<lambda>key.
           Option.bind (field_str (hex_text 64) ms ''origin_digest'') (\<lambda>origin.
             Some \<lparr>md_uuid = u, md_key = key, md_origin = origin\<rparr>))))
      else None)"

text \<open>What a process brings to a spool: its primitives and its random values.\<close>

record spool_setup =
  sp_crypto :: crypto
  sp_nonces :: "int \<Rightarrow> string"
  sp_temp :: string
  sp_fresh :: uuid
  sp_random :: string

definition env_with :: "spool_setup \<Rightarrow> spool_config \<Rightarrow> key_set \<Rightarrow> string \<Rightarrow> string spool_env" where
  "env_with sp cf keys key =
     crypto_env (sp_crypto sp) keys key (sp_nonces sp) (sp_temp sp) (cf_scan cf) (cf_command_bytes cf)"

text \<open>The store before any key is known: only its sizes, bounds and names are used.\<close>

definition plain_env :: "spool_setup \<Rightarrow> spool_config \<Rightarrow> string spool_env" where
  "plain_env sp cf = env_with sp cf \<lparr>ks_encryption = [], ks_metadata = [], ks_legacy = [], ks_binding = []\<rparr> []"

definition create_metadata ::
  "'k keyring \<Rightarrow> spool_setup \<Rightarrow> spool_config \<Rightarrow> string \<Rightarrow> ('k, metadata_doc \<times> key_set) kio" where
  "create_metadata kr sp cf origin =
     bindK (diskK (readIO (\<lambda>d. bindE (if dk_control d ''head'' \<noteq> None then Inr True
         else bindE (scan_records (plain_env sp cf) d) (\<lambda>stored. Inr (stored \<noteq> []))) (\<lambda>durable.
       raise_if durable (chain_error ''spool metadata is missing while durable state exists''))))) (\<lambda>_.
     bindK (keyK (create_master_key kr (sp_fresh sp) (sp_random sp))) (\<lambda>master.
     bindK (pureK (key_id master)) (\<lambda>key.
     bindK (pureK (derive_keys (sp_crypto sp) master (uuid_bytes (sp_fresh sp)))) (\<lambda>keys.
       let md = \<lparr>md_uuid = uuid_str (sp_fresh sp), md_key = key, md_origin = origin\<rparr> in
       bindK (diskK (write_control (plain_env sp cf) ''metadata'' (sign_document (metadata_dump md) (ks_metadata keys)))) (\<lambda>_.
         pureK (Inr (md, keys)))))))"

text \<open>The body of the \<open>try\<close>: \<open>Inl None\<close> is any of the exceptions it turns into one error.\<close>

definition as_caught :: "'a option \<Rightarrow> spool_fault option + 'a" where
  "as_caught x = (case x of None \<Rightarrow> Inl None | Some y \<Rightarrow> Inr y)"

definition check_metadata :: "'k keyring \<Rightarrow> spool_setup \<Rightarrow> 'k \<Rightarrow> string \<Rightarrow> (spool_fault option + metadata_doc \<times> key_set)" where
  "check_metadata kr sp k data =
     bindE (as_caught (Option.bind (ok_value (inspect_signed_body (sp_crypto sp) data)) metadata_read))
       (\<lambda>unverified.
     bindE (as_caught (parse_uuid (md_uuid unverified))) (\<lambda>u.
     bindE (case load_master_key kr u k of Inl e \<Rightarrow> Inl (Some e) | Inr m \<Rightarrow> Inr m) (\<lambda>master.
     bindE (as_caught (ok_value (key_id master))) (\<lambda>key.
       if key \<noteq> md_key unverified
       then Inl (Some (chain_error ''keyring key identity does not match spool metadata''))
       else bindE (as_caught (ok_value (derive_keys (sp_crypto sp) master (uuid_bytes u)))) (\<lambda>keys.
         bindE (as_caught (Option.bind (ok_value (verify_signed_document (sp_crypto sp) data (ks_metadata keys))) metadata_read)) (\<lambda>md. Inr (md, keys)))))))"

definition load_metadata ::
  "'k keyring \<Rightarrow> spool_setup \<Rightarrow> spool_config \<Rightarrow> string \<Rightarrow> 'k \<Rightarrow> string disk \<Rightarrow> (metadata_doc \<times> key_set) spool" where
  "load_metadata kr sp cf origin k d =
     bindE (read_control (plain_env sp cf) ''metadata'' d) (\<lambda>data.
       case check_metadata kr sp k data of
         Inl None \<Rightarrow> Inl (chain_error ''spool metadata is invalid or unauthenticated'')
       | Inl (Some e) \<Rightarrow> Inl e
       | Inr (md, keys) \<Rightarrow>
           if md_origin md \<noteq> origin then Inl (chain_error ''spool metadata belongs to another API origin'')
           else Inr (md, keys))"

definition load_or_create_metadata ::
  "'k keyring \<Rightarrow> spool_setup \<Rightarrow> spool_config \<Rightarrow> string \<Rightarrow> ('k, metadata_doc \<times> key_set) kio" where
  "load_or_create_metadata kr sp cf origin k w =
     (if dk_control (wd_disk w) ''metadata'' = None then create_metadata kr sp cf origin k w
      else (load_metadata kr sp cf origin k (wd_disk w), k, w))"

section \<open>A UUID is read back from its text\<close>

lemma hex_any_char: "d < 16 \<Longrightarrow> hex_any_value (hex_char d) = d \<and> hex_any (hex_char d) \<and> hex_char d \<noteq> CHR ''-''"
proof -
  assume d: "d < 16"
  have "is_hex_lower (hex_char d)" by (rule hex_char_is_hex [OF d])
  moreover have "\<not> is_hex_lower (CHR ''-'')" by (simp add: is_hex_lower_def is_digit_def)
  ultimately have "hex_any (hex_char d)" "hex_char d \<noteq> CHR ''-''" by (auto simp: hex_any_def)
  moreover have "hex_any_value (hex_char d) = d" using d by (auto simp: hex_any_value_def hex_char_def Let_def)
  ultimately show ?thesis by simp
qed

lemma nibble_div: "unat (drop_bit n (u :: uuid) AND 15) = unat u div 2 ^ n mod 16"
proof -
  have "take_bit 128 (unat u) = unat u" using unsigned_less [of u, where 'a = nat] by (simp add: take_bit_nat_eq_self)
  then have "unat (take_bit 4 (drop_bit n u)) = take_bit 4 (drop_bit n (unat u))"
    by (simp add: unsigned_take_bit_eq unsigned_drop_bit_eq)
  then show ?thesis unfolding nibble_take_bit by (simp add: take_bit_eq_mod drop_bit_eq_div)
qed

lemma nibbles_value: "k \<le> 32 \<Longrightarrow> foldl (\<lambda>n i. 16 * n + x div 2 ^ (4 * (31 - i)) mod 16) 0 [0..<k] = x div 2 ^ (128 - 4 * k)"
  if "x < 2 ^ 128" for x :: nat
proof (induction k)
  case 0
  then show ?case using that by simp
next
  case (Suc k)
  let ?y = "x div 2 ^ (4 * (31 - k))"
  have e: "128 - 4 * k = 4 * (31 - k) + 4" "128 - 4 * Suc k = 4 * (31 - k)" "124 - 4 * k = 4 * (31 - k)" using Suc.prems by simp_all
  have "x div 2 ^ (4 * (31 - k) + 4) = ?y div 16" by (simp add: power_add div_mult2_eq)
  then have "16 * (x div 2 ^ (128 - 4 * k)) + ?y mod 16 = ?y" by (simp add: e(1))
  then show ?case using Suc by (simp add: e(3))
qed

lemma uuid_str_hex: "filter (\<lambda>c. c \<noteq> CHR ''-'') (uuid_str u) = uuid_hex u"
proof -
  have keep: "filter (\<lambda>c. c \<noteq> CHR ''-'') s = s" if "set s \<subseteq> set (uuid_hex u)" for s
  proof -
    have "c \<noteq> CHR ''-''" if "c \<in> set (uuid_hex u)" for c
      using that hex_any_char nibble_less by (auto simp: uuid_hex_def)
    then show ?thesis using that by (auto simp: filter_id_conv)
  qed
  have sub: "set (take n (drop m (uuid_hex u))) \<subseteq> set (uuid_hex u)" "set (take n (uuid_hex u)) \<subseteq> set (uuid_hex u)"
    "set (drop m (uuid_hex u)) \<subseteq> set (uuid_hex u)" for n m
    by (auto dest: in_set_takeD in_set_dropD)
  have join: "take n (drop m h) @ drop (n + m) h = drop m h" for n m and h :: string
    by (metis append_take_drop_id drop_drop)
  have "filter (\<lambda>c. c \<noteq> CHR ''-'') (uuid_str u) = take 8 (uuid_hex u) @ take 4 (drop 8 (uuid_hex u)) @
      take 4 (drop 12 (uuid_hex u)) @ take 4 (drop 16 (uuid_hex u)) @ drop 20 (uuid_hex u)"
    by (simp add: uuid_str_def Let_def keep sub)
  also have "\<dots> = uuid_hex u"
    using join [of 4 16 "uuid_hex u"] join [of 4 12 "uuid_hex u"] join [of 4 8 "uuid_hex u"] by simp
  finally show ?thesis .
qed

lemma parse_uuid_str [simp]: "parse_uuid (uuid_str u) = Some u"
proof -
  have all: "list_all hex_any (uuid_hex u)" using hex_any_char nibble_less by (simp add: uuid_hex_def list_all_iff)
  have x: "unat u < 2 ^ 128" using unsigned_less [of u] by simp
  have digit: "hex_any_value (hex_char (unat (drop_bit (4 * (31 - i)) u AND 15))) = unat u div 2 ^ (4 * (31 - i)) mod 16" for i
    using hex_any_char [OF nibble_less, of "4 * (31 - i)" u] by (simp add: nibble_div)
  have "foldl (\<lambda>n c. 16 * n + hex_any_value c) 0 (uuid_hex u) =
      foldl (\<lambda>n i. 16 * n + unat u div 2 ^ (4 * (31 - i)) mod 16) 0 [0..<32]"
    unfolding uuid_hex_def foldl_map digit ..
  also have "\<dots> = unat u" using nibbles_value [OF x, of 32] by simp
  finally show ?thesis using all by (simp add: parse_uuid_def uuid_text_def Let_def uuid_str_hex)
qed

lemma uuid_text_str: "uuid_text (uuid_str u)"
  using parse_uuid_str [of u] by (simp add: parse_uuid_def split: if_splits)

section \<open>A spool opens with the keys it was created with\<close>

lemma uuid_string_length: "length (json_string (uuid_str u)) = 38"
proof -
  have plain: "json_escape c = [c]" if "c \<in> set (uuid_str u)" for c
  proof (cases "c = CHR ''-''")
    case False
    then have "c \<in> set (filter (\<lambda>c. c \<noteq> CHR ''-'') (uuid_str u))" using that by simp
    then have "c \<in> set (uuid_hex u)" by (simp only: uuid_str_hex)
    then have "is_hex_lower c" using hex_char_is_hex [OF nibble_less] by (auto simp: uuid_hex_def)
    then show ?thesis by (auto simp: json_escape_def Let_def is_hex_lower_def is_digit_def)
  qed (simp add: json_escape_def)
  have same: "map json_escape (uuid_str u) = map (\<lambda>c. [c]) (uuid_str u)" by (rule map_cong [OF refl]) (rule plain)
  have "concat (map json_escape (uuid_str u)) = uuid_str u" unfolding same by simp
  moreover have "length (uuid_str u) = 36" by (simp add: uuid_str_def Let_def)
  ultimately show ?thesis by (simp add: json_string_def)
qed

lemma metadata_canon: "json_canon (JObj (metadata_dump m)) = JObj (metadata_dump m)"
  by (simp add: metadata_dump_def)

lemma metadata_read_dump: "hex_text 32 (md_key m) \<Longrightarrow> hex_text 64 (md_origin m) \<Longrightarrow> metadata_read (metadata_dump m) = Some m"
  by (simp add: metadata_read_def metadata_dump_def closed_fields_def field_defs)

lemma key_id_hex: "key_id master = Inr key \<Longrightarrow> hex_text 32 key"
  using sha256_hex_shape [of "''ctower-spool-key-id'' @ nul @ master"]
  by (auto simp: key_id_def require_master_key_def bindE_Inr_iff hex_text_def list_all_iff dest: in_set_takeD)

lemma metadata_length:
  "hex_text 32 (md_key m) \<Longrightarrow> hex_text 64 (md_origin m) \<Longrightarrow> md_uuid m = uuid_str u \<Longrightarrow>
   length (sign_document (metadata_dump m) key) \<le> max_control_bytes"
proof -
  assume m: "hex_text 32 (md_key m)" "hex_text 64 (md_origin m)" "md_uuid m = uuid_str u"
  have "length (json_string ''key_id'') = 8" "length (json_string ''origin_digest'') = 15" "length (json_string ''spool_uuid'') = 12"
    by code_simp+
  then show ?thesis
    unfolding signed_length [OF metadata_canon] using hex_string_length [OF m(1)] hex_string_length [OF m(2)] m(3)
    by (simp add: metadata_dump_def key_lengths max_control_bytes_def uuid_string_length)
qed

text \<open>What creation wrote is what the next process loads, from the keyring creation left.\<close>

theorem metadata_reloads:
  assumes run: "create_metadata kr sp cf origin k w = (Inr (md, keys), k', w')" and cr: "crypto_ok (sp_crypto sp)"
    and origin: "hex_text 64 origin" and same: "secure_backend kr k' = secure_backend kr k"
  shows "load_metadata kr sp cf origin k' (wd_disk w') = Inr (md, keys)"
proof -
  let ?u = "sp_fresh sp"
  obtain master key where made: "create_master_key kr ?u (sp_random sp) k = (Inr master, k')"
    and key: "key_id master = Inr key" and keys: "derive_keys (sp_crypto sp) master (uuid_bytes ?u) = Inr keys"
    and md: "md = \<lparr>md_uuid = uuid_str ?u, md_key = key, md_origin = origin\<rparr>"
    and wrote: "write_control (plain_env sp cf) ''metadata'' (sign_document (metadata_dump md) (ks_metadata keys)) w = (Inr (), w')"
    using run unfolding create_metadata_def by (auto simp: bindK_Inr_iff liftK_iff readIO_def Let_def)
  let ?data = "sign_document (metadata_dump md) (ks_metadata keys)"
  have "secure_backend kr k = Inr ()" using made by (auto simp: create_master_key_def split: sum.splits)
  moreover have "\<exists>v. kr_get kr k' (uuid_str ?u) = Some v \<and> decode_key v = Inr master"
    using made by (auto simp: create_master_key_def bind_eq_Some_conv split: option.splits sum.splits if_splits)
  ultimately have loaded: "load_master_key kr ?u k' = Inr master" using same by (auto simp: load_master_key_def)
  have hex: "hex_text 32 (md_key md)" "hex_text 64 (md_origin md)" using key_id_hex [OF key] origin by (simp_all add: md)
  have stored: "dk_control (wd_disk w') ''metadata'' = Some ?data"
    using wrote by (auto simp: write_control_def bindIO_def stepIO_def pureIO_def)
  have "read_control (plain_env sp cf) ''metadata'' (wd_disk w') = Inr ?data"
    using metadata_length [OF hex, of ?u "ks_metadata keys"] by (simp add: read_control_def stored plain_env_def env_with_def crypto_env_def md)
  moreover have "verify_signed_document (sp_crypto sp) ?data (ks_metadata keys) = Inr (metadata_dump md)"
    by (rule verify_signed [OF cr metadata_canon])
  moreover from this have "inspect_signed_body (sp_crypto sp) ?data = Inr (metadata_dump md)"
    by (auto simp: inspect_signed_body_def verify_signed_document_def bindE_Inr_iff split: if_splits)
  ultimately show ?thesis
    using metadata_read_dump [OF hex] loaded key keys
    by (simp add: load_metadata_def check_metadata_def as_caught_def md)
qed

end
