(* ===== verification/SpoolInterface.thy ===== *)
theory SpoolInterface
  imports SpoolKeyring
begin

text \<open>
  \<open>ctowerctl/spool/interface.py\<close> and the redacted diagnostics of \<open>_redaction.py\<close>: the public operations of a spool, each in
  a locked and recovered session of its own, the entries and reports they answer with, and the errors a caller
  sees. The lock itself, the path of the spool and the normalisation of its origin are not modelled.
\<close>

section \<open>Redacted entries\<close>

record spool_entry =
  en_seq :: "int option"
  en_command :: "uuid option"
  en_operation :: "string option"
  en_state :: string
  en_enqueued :: "datetime option"
  en_expires :: "datetime option"
  en_bytes :: nat
  en_reason :: "string option"
  en_artifact :: "string option"
  en_refusal :: "server_refusal option"

definition string_field :: "members \<Rightarrow> string \<Rightarrow> string spool" where
  "string_field payload k = (case map_of payload k of Some (JStr s) \<Rightarrow> Inr s | _ \<Rightarrow> Inl (Uncaught ''TypeError''))"

definition required :: "string \<Rightarrow> 'a option \<Rightarrow> 'a spool" where
  "required what x = (case x of None \<Rightarrow> Inl (InvalidValue what) | Some y \<Rightarrow> Inr y)"

definition quarantine_outcome :: "session \<Rightarrow> recovered_record \<Rightarrow> (string option \<times> server_refusal option) spool" where
  "quarantine_outcome s command =
     bindE (quarantine_receipt_of (st_seq (rc_stored command)) s) (\<lambda>receipt.
       case receipt of
         None \<Rightarrow> Inr (None, None)
       | Some r \<Rightarrow>
           bindE (string_field (op_payload (rc_opened r)) ''reason_code'') (\<lambda>reason.
           bindE (required ''refusal'' (refusal_read (field_json (op_payload (rc_opened r)) ''refusal''))) (\<lambda>refusal.
             Inr (Some reason, refusal))))"

definition visible_state :: "string \<Rightarrow> string spool" where
  "visible_state dir =
     (if dir = ''pending'' then Inr ''pending'' else if dir = ''accepted'' then Inr ''accepted_archive''
      else if dir = ''quarantine'' then Inr ''quarantine'' else Inl (Uncaught ''KeyError''))"

definition spool_entry_of :: "recovered_record \<Rightarrow> session \<Rightarrow> spool_entry spool" where
  "spool_entry_of r s =
     (let payload = op_payload (rc_opened r) in
      bindE (visible_state (st_dir (rc_stored r))) (\<lambda>state.
      bindE (quarantine_outcome s r) (\<lambda>(reason, refusal).
      bindE (bindE (string_field payload ''command_id'') (\<lambda>t. required ''UUID'' (parse_uuid t))) (\<lambda>u.
      bindE (string_field payload ''operation_id'') (\<lambda>op.
      bindE (bindE (string_field payload ''enqueued_at'') (\<lambda>t. required ''timestamp'' (parse_utc t))) (\<lambda>enqueued.
      bindE (bindE (string_field payload ''expires_at'') (\<lambda>t. required ''timestamp'' (parse_utc t))) (\<lambda>expires.
        Inr \<lparr>en_seq = Some (st_seq (rc_stored r)), en_command = Some u, en_operation = Some op, en_state = state,
          en_enqueued = Some enqueued, en_expires = Some expires, en_bytes = st_size (rc_stored r), en_reason = reason,
          en_artifact = None, en_refusal = refusal\<rparr>)))))))"

definition corrupt_entry :: "corrupt_record \<Rightarrow> spool_entry" where
  "corrupt_entry c =
     \<lparr>en_seq = Some (st_seq (co_stored c)), en_command = None, en_operation = None, en_state = ''quarantine'',
      en_enqueued = None, en_expires = None, en_bytes = st_size (co_stored c), en_reason = Some ''corrupt_record'',
      en_artifact = Some (co_digest c), en_refusal = None\<rparr>"

definition torn_entry :: "nat \<Rightarrow> spool_entry" where
  "torn_entry n =
     \<lparr>en_seq = None, en_command = None, en_operation = None, en_state = ''quarantine'', en_enqueued = None, en_expires = None,
      en_bytes = n, en_reason = Some ''torn_write'', en_artifact = None, en_refusal = None\<rparr>"

definition discarded_entry :: "int \<Rightarrow> spool_entry" where
  "discarded_entry n =
     \<lparr>en_seq = Some n, en_command = None, en_operation = None, en_state = ''quarantine'', en_enqueued = None, en_expires = None,
      en_bytes = 0, en_reason = Some ''discarded'', en_artifact = None, en_refusal = None\<rparr>"

section \<open>Status\<close>

record spool_status =
  su_origin :: string
  su_health :: string
  su_pending :: "nat option"
  su_accepted :: "nat option"
  su_quarantined :: "nat option"
  su_pending_bytes :: "nat option"
  su_quarantine_bytes :: "nat option"
  su_oldest :: "int option"
  su_last_accepted :: "int option"
  su_keyring :: bool
  su_chain :: string
  su_reasons :: "string list"

definition oldest_age :: "datetime \<Rightarrow> spool_entry list \<Rightarrow> int option" where
  "oldest_age now entries =
     (case List.map_filter en_enqueued entries of [] \<Rightarrow> None | t # ts \<Rightarrow> Some (max 0 (now - foldl min t ts)))"

definition largest :: "int list \<Rightarrow> int option" where
  "largest ns = (case ns of [] \<Rightarrow> None | n # ms \<Rightarrow> Some (foldl max n ms))"

definition spool_status_of :: "datetime \<Rightarrow> string \<Rightarrow> session \<Rightarrow> spool_status spool" where
  "spool_status_of now origin s =
     bindE (mapE (\<lambda>r. spool_entry_of r s) (session_commands s)) (\<lambda>commands.
       let entries = commands @ map corrupt_entry (ss_corrupt s);
           of_state = (\<lambda>st. filter (\<lambda>e. en_state e = st) entries);
           pending = of_state ''pending''; accepted = of_state ''accepted_archive''; quarantined = of_state ''quarantine'';
           reasons = filter (\<lambda>r. r \<noteq> []) (List.map_filter en_reason quarantined) @ (if ss_torn s \<noteq> 0 then [''torn_write''] else []) in
       Inr \<lparr>su_origin = origin, su_health = (if quarantined \<noteq> [] \<or> ss_torn s \<noteq> 0 then ''degraded'' else ''healthy''),
         su_pending = Some (length pending), su_accepted = Some (length accepted),
         su_quarantined = Some (length quarantined + ss_torn s), su_pending_bytes = Some (sum_list (map en_bytes pending)),
         su_quarantine_bytes = Some (sum_list (map en_bytes quarantined)), su_oldest = oldest_age now pending,
         su_last_accepted = largest (List.map_filter en_seq accepted), su_keyring = True,
         su_chain = (if ss_corrupt s \<noteq> [] then ''degraded'' else ''healthy''), su_reasons = sort (remdups reasons)\<rparr>)"

definition unknown_status :: "string \<Rightarrow> string \<Rightarrow> bool \<Rightarrow> spool_status" where
  "unknown_status origin reason keyring =
     \<lparr>su_origin = origin, su_health = ''state_unknown'', su_pending = None, su_accepted = None, su_quarantined = None,
      su_pending_bytes = None, su_quarantine_bytes = None, su_oldest = None, su_last_accepted = None, su_keyring = keyring,
      su_chain = ''state_unknown'', su_reasons = [reason]\<rparr>"

record doctor_report =
  do_healthy :: bool
  do_state :: string
  do_checks :: "string list"
  do_findings :: "string list"

definition doctor_failure :: "string \<Rightarrow> string \<Rightarrow> doctor_report" where
  "doctor_failure state finding = \<lparr>do_healthy = False, do_state = state, do_checks = [], do_findings = [finding]\<rparr>"

section \<open>Errors\<close>

definition error_code :: "spool_fault \<Rightarrow> string" where
  "error_code f =
     (case f of
        KeyringError _ \<Rightarrow> ''keyring_unavailable''
      | SecretMaterialError _ \<Rightarrow> ''secret_material''
      | ChainError code _ \<Rightarrow> code
      | StorageError _ \<Rightarrow> ''storage_integrity''
      | ScanLimitError _ \<Rightarrow> ''storage_integrity''
      | _ \<Rightarrow> ''local_failure'')"

text \<open>What the \<open>except\<close> clauses of an operation make of a failure; an exception they do not name passes.\<close>

definition spool_error :: "spool_fault \<Rightarrow> spool_fault" where
  "spool_error f =
     (case f of SpoolError _ _ \<Rightarrow> f | Uncaught _ \<Rightarrow> f | _ \<Rightarrow> SpoolError (error_code f) ''local encrypted spool failed closed'')"

definition publicK :: "('k, 'a) kio \<Rightarrow> ('k, 'a) kio" where
  "publicK m k w = (case m k w of (Inl f, x) \<Rightarrow> (Inl (spool_error f), x) | (Inr x, y) \<Rightarrow> (Inr x, y))"

section \<open>Operations\<close>

record spool_handle =
  sh_origin :: string
  sh_config :: spool_config
  sh_binding :: "string option"

definition locked_session ::
  "'k keyring \<Rightarrow> spool_setup \<Rightarrow> spool_handle \<Rightarrow> datetime \<Rightarrow> bool \<Rightarrow>
   (key_set \<Rightarrow> string spool_env \<Rightarrow> session \<Rightarrow> (string, 'a \<times> session) io) \<Rightarrow> ('k, 'a) kio" where
  "locked_session kr sp h now automatic body =
     bindK (load_or_create_metadata kr sp (sh_config h) (sh_origin h)) (\<lambda>(md, keys).
       let env = env_with sp (sh_config h) keys (md_key md) in
       diskK (with_session env now (cf_accepted_days (sh_config h) * day) automatic (body keys env)))"

definition bind_credential ::
  "'k keyring \<Rightarrow> spool_setup \<Rightarrow> datetime \<Rightarrow> string \<Rightarrow> spool_handle \<Rightarrow> ('k, spool_handle) kio" where
  "bind_credential kr sp now credential h =
     bindK (publicK (locked_session kr sp h now True (\<lambda>keys env s.
         bindIO (pureIO (credential_binding keys credential)) (\<lambda>b. pureIO (Inr (b, s)))))) (\<lambda>b.
       pureK (Inr (h\<lparr>sh_binding := Some b\<rparr>)))"

definition spool_enqueue ::
  "'k keyring \<Rightarrow> spool_setup \<Rightarrow> datetime \<Rightarrow> spool_handle \<Rightarrow> spool_command \<Rightarrow> ('k, spool_entry) kio" where
  "spool_enqueue kr sp now h c =
     publicK (locked_session kr sp h now True (\<lambda>keys env s.
       bindIO (enqueue_in env (sh_config h) (sh_origin h) (sh_binding h) now c s) (\<lambda>(r, s).
       bindIO (pureIO (spool_entry_of r s)) (\<lambda>e. pureIO (Inr (e, s))))))"

definition status_answer :: "string \<Rightarrow> spool_fault + spool_status \<Rightarrow> spool_fault + spool_status" where
  "status_answer origin r =
     (case r of
        Inr x \<Rightarrow> Inr x
      | Inl (Uncaught e) \<Rightarrow> Inl (Uncaught e)
      | Inl (SpoolError c m) \<Rightarrow> Inl (SpoolError c m)
      | Inl (KeyringError m) \<Rightarrow> Inr (unknown_status origin (error_code (KeyringError m)) False)
      | Inl f \<Rightarrow> Inr (unknown_status origin (error_code f) True))"

definition spool_status_op :: "'k keyring \<Rightarrow> spool_setup \<Rightarrow> datetime \<Rightarrow> spool_handle \<Rightarrow> ('k, spool_status) kio" where
  "spool_status_op kr sp now h k w =
     (case locked_session kr sp h now True (\<lambda>keys env s.
          bindIO (pureIO (spool_status_of now (sh_origin h) s)) (\<lambda>x. pureIO (Inr (x, s)))) k w of
        (r, y) \<Rightarrow> (status_answer (sh_origin h) r, y))"

text \<open>\<open>sorted(entries, key=entry_order)[:limit]\<close>: by sequence, then by reason, which two stable sorts give.\<close>

definition in_entry_order :: "spool_entry list \<Rightarrow> spool_entry list" where
  "in_entry_order es =
     sort_key (\<lambda>e. case en_seq e of None \<Rightarrow> 0 | Some n \<Rightarrow> n)
       (sort_key (\<lambda>e. case en_reason e of None \<Rightarrow> [] | Some r \<Rightarrow> r) es)"

definition list_in :: "string option \<Rightarrow> nat \<Rightarrow> session \<Rightarrow> spool_entry list spool" where
  "list_in state limit s =
     bindE (mapE (\<lambda>r. spool_entry_of r s) (session_commands s)) (\<lambda>commands.
       let entries = filter (\<lambda>e. state = None \<or> state = Some (en_state e)) (commands @ map corrupt_entry (ss_corrupt s));
           torn = (if (state = None \<or> state = Some ''quarantine'') \<and> ss_torn s \<noteq> 0 then [torn_entry (ss_torn s)] else []) in
       Inr (take limit (in_entry_order (entries @ torn))))"

definition list_entries ::
  "'k keyring \<Rightarrow> spool_setup \<Rightarrow> datetime \<Rightarrow> spool_handle \<Rightarrow> string option \<Rightarrow> int \<Rightarrow> ('k, spool_entry list) kio" where
  "list_entries kr sp now h state limit =
     (if \<not> (1 \<le> limit \<and> limit \<le> int (cf_scan (sh_config h)))
      then pureK (Inl (SpoolError ''scan_limit'' ''requested spool list exceeds bounded policy''))
      else publicK (locked_session kr sp h now True (\<lambda>keys env s.
        bindIO (pureIO (list_in state (nat limit) s)) (\<lambda>es. pureIO (Inr (es, s))))))"

text \<open>The report of a drain with the refusal its barrier keeps.\<close>

definition barrier_refusal :: "session \<Rightarrow> int option \<Rightarrow> server_refusal option spool" where
  "barrier_refusal s barrier =
     (case Option.bind barrier (\<lambda>n. find (\<lambda>r. st_dir (rc_stored r) = ''quarantine'' \<and> st_seq (rc_stored r) = n) (session_commands s)) of
        None \<Rightarrow> Inr None
      | Some r \<Rightarrow> bindE (spool_entry_of r s) (\<lambda>e. Inr (en_refusal e)))"

definition spool_drain ::
  "'k keyring \<Rightarrow> spool_setup \<Rightarrow> datetime \<Rightarrow> spool_handle \<Rightarrow> replay_world \<Rightarrow> ('k, drain_report \<times> server_refusal option) kio" where
  "spool_drain kr sp now h rw =
     publicK (locked_session kr sp h now True (\<lambda>keys env s.
       bindIO (pureIO (require_binding (sh_binding h))) (\<lambda>b.
       bindIO (drain_session env rw b s) (\<lambda>(report, s).
       bindIO (pureIO (barrier_refusal s (dr_barrier report))) (\<lambda>refusal. pureIO (Inr ((report, refusal), s)))))))"

text \<open>The entry a disposition answers with: the discarded sequence, or the command as it is in \<open>pending\<close> again.\<close>

definition disposed_entry :: "int \<Rightarrow> string \<Rightarrow> session \<Rightarrow> spool_entry spool" where
  "disposed_entry n act s =
     (if act = ''discard'' then Inr (discarded_entry n)
      else case session_command n s of None \<Rightarrow> Inr (discarded_entry n) | Some r \<Rightarrow> spool_entry_of r s)"

definition spool_disposition ::
  "'k keyring \<Rightarrow> spool_setup \<Rightarrow> datetime \<Rightarrow> spool_handle \<Rightarrow> int \<Rightarrow> string \<Rightarrow> string \<Rightarrow> string option \<Rightarrow> ('k, spool_entry) kio" where
  "spool_disposition kr sp now h n act reason artifact =
     (if reason = [] \<or> code_points reason > 500
      then pureK (Inl (SpoolError ''invalid_disposition'' ''disposition reason must be 1..500 characters''))
      else publicK (locked_session kr sp h now True (\<lambda>keys env s.
        bindIO (disposition_in env n act reason artifact now s) (\<lambda>(_, s).
        bindIO (pureIO (disposed_entry n act s)) (\<lambda>e. pureIO (Inr (e, s)))))))"

definition spool_retry :: "'k keyring \<Rightarrow> spool_setup \<Rightarrow> datetime \<Rightarrow> spool_handle \<Rightarrow> int \<Rightarrow> string \<Rightarrow> ('k, spool_entry) kio" where
  "spool_retry kr sp now h n reason = spool_disposition kr sp now h n ''retry'' reason None"

definition spool_discard ::
  "'k keyring \<Rightarrow> spool_setup \<Rightarrow> datetime \<Rightarrow> spool_handle \<Rightarrow> int \<Rightarrow> string \<Rightarrow> string option \<Rightarrow> ('k, unit) kio" where
  "spool_discard kr sp now h n reason artifact =
     bindK (spool_disposition kr sp now h n ''discard'' reason artifact) (\<lambda>_. pureK (Inr ()))"

definition spool_compact :: "'k keyring \<Rightarrow> spool_setup \<Rightarrow> datetime \<Rightarrow> spool_handle \<Rightarrow> ('k, nat) kio" where
  "spool_compact kr sp now h =
     publicK (locked_session kr sp h now False (\<lambda>keys env s.
       compact_accepted env now (cf_accepted_days (sh_config h) * day) s))"

text \<open>\<open>doctor\<close>; \<open>present\<close> says whether the path of the spool exists.\<close>

definition healthy_report :: doctor_report where
  "healthy_report =
     \<lparr>do_healthy = True, do_state = ''healthy'',
      do_checks = [''permissions'', ''local_filesystem'', ''keyring'', ''metadata_mac'', ''head_mac'', ''record_chain'', ''capacity''],
      do_findings = []\<rparr>"

definition doctor_session :: "'k keyring \<Rightarrow> spool_setup \<Rightarrow> spool_handle \<Rightarrow> ('k, unit) kio" where
  "doctor_session kr sp h =
     bindK (diskK (readIO (\<lambda>d. raise_if (dk_control d ''metadata'' = None) (chain_error ''spool metadata is missing'')))) (\<lambda>_.
     bindK (load_or_create_metadata kr sp (sh_config h) (sh_origin h)) (\<lambda>(md, keys).
     bindK (diskK (recover_session (env_with sp (sh_config h) keys (md_key md)) False)) (\<lambda>s.
     bindK (pureK (verify_doctor_state s)) (\<lambda>_. pureK (verify_existing_capacity s (sh_config h))))))"

definition doctor_answer :: "spool_fault + unit \<Rightarrow> spool_fault + doctor_report" where
  "doctor_answer r =
     (case r of
        Inr _ \<Rightarrow> Inr healthy_report
      | Inl (Uncaught e) \<Rightarrow> Inl (Uncaught e)
      | Inl (SpoolError c m) \<Rightarrow> Inl (SpoolError c m)
      | Inl (KeyringError _) \<Rightarrow> Inr (doctor_failure ''state_unknown'' ''keyring_unavailable'')
      | Inl f \<Rightarrow> Inr (doctor_failure ''degraded'' (error_code f)))"

definition spool_doctor :: "'k keyring \<Rightarrow> spool_setup \<Rightarrow> spool_handle \<Rightarrow> bool \<Rightarrow> ('k, doctor_report) kio" where
  "spool_doctor kr sp h present k w =
     (if \<not> present
      then (Inr \<lparr>do_healthy = True, do_state = ''uninitialized'', do_checks = [''path_absent''], do_findings = []\<rparr>, k, w)
      else case doctor_session kr sp h k w of (r, y) \<Rightarrow> (doctor_answer r, y))"

section \<open>What the doctor changes\<close>

text \<open>A program that leaves the disk as it was, whatever it answers.\<close>

definition keeps_disk :: "('b, 'a) io \<Rightarrow> bool" where
  "keeps_disk m \<longleftrightarrow> (\<forall>w. snd (m w) = w)"

lemma keeps_disk_intros [intro]:
  "keeps_disk (pureIO r)"
  "keeps_disk (readIO f)"
  "keeps_disk m \<Longrightarrow> (\<And>x. keeps_disk (g x)) \<Longrightarrow> keeps_disk (bindIO m g)"
  by (auto simp: keeps_disk_def pureIO_def readIO_def bindIO_def split: prod.splits sum.splits) (metis snd_conv)+

lemma keeps_opened: "keeps_disk (open_stored_record env False st)"
  unfolding open_stored_record_def corrupt_found_def
  by (auto intro!: keeps_disk_intros split: sum.splits spool_fault.splits)

lemma keeps_records: "keeps_disk (open_records env False sts)"
  by (induction sts) (auto intro!: keeps_disk_intros keeps_opened)

lemma keeps_compaction: "keeps_disk (recover_compaction False rs)"
  unfolding recover_compaction_def by (auto intro!: keeps_disk_intros simp: Let_def split: list.splits)

lemma keeps_chain: "keeps_disk (validate_chain env False head rs cs)"
  unfolding validate_chain_def recover_head_def
  by (auto intro!: keeps_disk_intros split: list.splits option.splits)

lemma keeps_transitions: "keeps_disk (recover_transitions False rs)"
  unfolding recover_transitions_def by (auto intro!: keeps_disk_intros)

lemma recover_without_repair:
  "\<exists>f. (\<forall>head. keeps_disk (f head)) \<and> recover_session env False = bindIO (load_or_create_head env) f"
  unfolding recover_session_def early_compaction_def if_False
  by (rule exI, rule conjI [OF _ refl])
    (auto intro!: keeps_disk_intros keeps_records keeps_compaction keeps_chain keeps_transitions simp: Let_def)

definition first_head :: "string spool_env \<Rightarrow> string world \<Rightarrow> string world" where
  "first_head env w = snd (write_control env ''head'' (se_sign env (head_dump \<lparr>hd_seq = 0, hd_hash = genesis_hash\<rparr>)) w)"

lemma load_head_disk:
  "snd (load_or_create_head env w) = w \<or>
   dk_control (wd_disk w) ''head'' = None \<and> scan_records env (wd_disk w) = Inr [] \<and> snd (load_or_create_head env w) = first_head env w"
  by (auto simp: load_or_create_head_def first_head_def bindIO_def readIO_def pureIO_def Let_def split: prod.splits sum.splits)

lemma recover_disk:
  "snd (recover_session env False w) = w \<or>
   dk_control (wd_disk w) ''head'' = None \<and> scan_records env (wd_disk w) = Inr [] \<and> snd (recover_session env False w) = first_head env w"
proof -
  obtain f where f: "\<And>head. keeps_disk (f head)" and r: "recover_session env False = bindIO (load_or_create_head env) f"
    using recover_without_repair [of env] by blast
  have "snd (recover_session env False w) = snd (load_or_create_head env w)"
    using f by (auto simp: r bindIO_def keeps_disk_def split: prod.splits sum.splits)
  then show ?thesis using load_head_disk [of env w] by simp
qed

text \<open>
  The doctor never touches the keyring, and it changes the disk in one case only: a spool whose metadata is there but
  whose head is not, where it initialises the head.
\<close>

theorem doctor_changes_only_a_missing_head:
  assumes run: "spool_doctor kr sp h present k w = (r, k', w')"
  shows "k' = k" and "w' = w \<or> present \<and> dk_control (wd_disk w) ''metadata'' \<noteq> None \<and> dk_control (wd_disk w) ''head'' = None \<and>
    (\<exists>keys key. w' = first_head (env_with sp (sh_config h) keys key) w)"
proof -
  let ?ok = "\<lambda>k' w'. k' = k \<and> (w' = w \<or> dk_control (wd_disk w) ''metadata'' \<noteq> None \<and> dk_control (wd_disk w) ''head'' = None \<and>
    (\<exists>keys key. w' = first_head (env_with sp (sh_config h) keys key) w))"
  have "?ok k1 w1" if "doctor_session kr sp h k w = (x, k1, w1)" for x k1 w1
  proof (cases "dk_control (wd_disk w) ''metadata''")
    case None
    then show ?thesis using that by (auto simp: doctor_session_def bindK_def diskK_def readIO_def raise_if_def)
  next
    case (Some data)
    show ?thesis
    proof (cases "load_metadata kr sp (sh_config h) (sh_origin h) k (wd_disk w)")
      case (Inl e)
      then show ?thesis using that Some
        by (auto simp: doctor_session_def bindK_def diskK_def readIO_def raise_if_def load_or_create_metadata_def)
    next
      case (Inr p)
      obtain md keys where p: "p = (md, keys)" by (cases p)
      have "w1 = snd (recover_session (env_with sp (sh_config h) keys (md_key md)) False w) \<and> k1 = k"
        using that Some Inr p
        by (auto simp: doctor_session_def bindK_def diskK_def pureK_def readIO_def raise_if_def load_or_create_metadata_def
            split: prod.splits sum.splits)
      then show ?thesis using recover_disk [of "env_with sp (sh_config h) keys (md_key md)" w] Some by auto
    qed
  qed
  then have "?ok k' w' \<and> (present \<or> w' = w)" using run by (auto simp: spool_doctor_def split: if_splits prod.splits)
  then show "k' = k" "w' = w \<or> present \<and> dk_control (wd_disk w) ''metadata'' \<noteq> None \<and> dk_control (wd_disk w) ''head'' = None \<and>
    (\<exists>keys key. w' = first_head (env_with sp (sh_config h) keys key) w)" by blast+
qed

text \<open>And there it does: the verification writes the head before it reports the spool healthy or not.\<close>

theorem doctor_initialises_a_missing_head:
  assumes md: "dk_control (wd_disk w) ''metadata'' \<noteq> None" and head: "dk_control (wd_disk w) ''head'' = None"
    and loaded: "load_metadata kr sp (sh_config h) (sh_origin h) k (wd_disk w) = Inr (m, keys)"
    and empty: "scan_records (env_with sp (sh_config h) keys (md_key m)) (wd_disk w) = Inr []"
  shows "snd (snd (spool_doctor kr sp h True k w)) = first_head (env_with sp (sh_config h) keys (md_key m)) w"
proof -
  let ?env = "env_with sp (sh_config h) keys (md_key m)"
  have first: "snd (load_or_create_head ?env w) = first_head ?env w"
    using head empty by (auto simp: load_or_create_head_def first_head_def bindIO_def readIO_def pureIO_def Let_def write_control_def stepIO_def)
  obtain f where f: "\<And>head. keeps_disk (f head)" and r: "recover_session ?env False = bindIO (load_or_create_head ?env) f"
    using recover_without_repair [of ?env] by blast
  have "snd (recover_session ?env False w) = first_head ?env w"
    using f first by (auto simp: r bindIO_def keeps_disk_def split: prod.splits sum.splits)
  then show ?thesis using md loaded
    by (auto simp: spool_doctor_def doctor_session_def bindK_def diskK_def pureK_def readIO_def raise_if_def load_or_create_metadata_def
        split: prod.splits sum.splits)
qed

section \<open>What the size check does not reserve\<close>

lemma json_string_longer: "length s + 2 \<le> length (json_string s)"
proof -
  have "length s \<le> length (concat (map json_escape s))"
    by (induction s) (auto simp: json_escape_def Let_def)
  then show ?thesis by (simp add: json_string_def)
qed

lemma sealed_longer:
  assumes "crypto_ok cr" and "length nonce = 12"
  shows "4 * payload_size payload < 3 * length (sl_data (seal_record cr keys key nonce kind n pred payload))"
proof -
  let ?s = "seal_record cr keys key nonce kind n pred payload"
  define c where "c = sealed_cipher cr keys nonce payload (sl_header ?s)"
  have data: "sl_data ?s = json_dumps (JObj [(''ciphertext'', JStr (b64encode c)), (''header'', JObj (header_dump (sl_header ?s)))]) @ line_feed"
    unfolding c_def by (rule sealed_fields)
  have c: "length c = payload_size payload + 16" using assms by (simp add: crypto_ok_def payload_size_def c_def sealed_cipher_def)
  have "length (json_string (b64encode c)) \<le> length (sl_data ?s)"
    unfolding data using header_canon [of "sl_header ?s"] by (simp add: json_dumps_def)
  then show ?thesis using json_string_longer [of "b64encode c"] c by (simp add: b64_length)
qed

text \<open>
  A command whose payload is longer than three quarters of the policy can pass the size check, and is refused only when
  its sealed record turns out too long, as a failure of the store.
\<close>

theorem base64_not_reserved:
  assumes cr: "crypto_ok (sp_crypto sp)" and nonces: "\<And>n. length (sp_nonces sp n) = 12" and clean: "ss_corrupt s = []"
    and long: "3 * cf_command_bytes cf < 4 * payload_size body"
  shows "session_append (env_with sp cf keys key) ''command'' ''pending'' body s =
    pureIO (Inl (StorageError ''encrypted durable record exceeds bounded size''))"
proof -
  let ?r = "seal_record (sp_crypto sp) keys key (sp_nonces sp (hd_seq (ss_head s) + 1)) ''command'' (hd_seq (ss_head s) + 1)
      (hd_hash (ss_head s)) body"
  have "cf_command_bytes cf < length (sl_data ?r)"
    using sealed_longer [OF cr nonces, of body keys key "hd_seq (ss_head s) + 1" "''command''" "hd_seq (ss_head s) + 1" "hd_hash (ss_head s)"]
      long by linarith
  then show ?thesis using clean by (simp add: session_append_def env_with_def crypto_env_def Let_def)
qed

lemma size_check_passes:
  "payload_size (envelope_dump e) + 4096 \<le> cf_command_bytes cf \<Longrightarrow> check_command_size e (cf_command_bytes cf) = Inr ()"
  by (simp add: check_command_size_def raise_if_def record_overhead_reserve_def)

text \<open>A legacy header with a sequence of more than 64 bits is not refused as corrupt: its nonce cannot be computed.\<close>

lemma legacy_sequence_overflows:
  assumes "read_document cr data = Inr (h, c)" and "rh_key h = key" and "b64decode (rh_nonce h) = Some nonce"
    and "length nonce = 12" and "rh_format h = 1" and "2 ^ 64 \<le> rh_seq h"
  shows "open_record cr keys key data = Inl (Uncaught ''OverflowError'')"
  using assms by (simp add: open_record_def verify_nonce_def legacy_nonce_def to_bytes_8_def bindE_def)

end
