(* ===== verification/EvidenceProof.thy ===== *)
theory EvidenceProof
  imports WorkCommands
begin

text \<open>
  \<open>proof/interface.py\<close>: the decisions over an immutable proof snapshot (frozen criteria, evidence bound to a candidate,
  protected verdicts, invalidation by a new candidate), and the hand-over of a mutation to its writer. The scan for
  prohibited data classes is a parameter; the writer itself is SQL.
\<close>

section \<open>Facts\<close>

datatype proof_kind = ProofOperator | ProofCommander

record proof_actor =
  pa_principal :: uuid
  pa_tenant :: uuid
  pa_kind :: proof_kind

record criterion =
  cn_key :: string
  cn_description :: string
  cn_dependent :: bool
  cn_verdict :: bool

definition make_criterion :: "string \<Rightarrow> string \<Rightarrow> bool \<Rightarrow> bool \<Rightarrow> criterion py" where
  "make_criterion k description dependent verdict =
     (if \<not> stable_key k then Inl (ValueError ''criterion key must be stable'')
      else if description = [] then Inl (ValueError ''criterion description must be nonempty'')
      else Inr \<lparr>cn_key = k, cn_description = description, cn_dependent = dependent, cn_verdict = verdict\<rparr>)"

record evidence_fact =
  ev_id :: uuid
  ev_criterion :: string
  ev_candidate :: string
  ev_artifact :: string
  ev_producer :: uuid

datatype verdict_decision = Passing | Failing

definition decision_value :: "verdict_decision \<Rightarrow> string" where
  "decision_value d = (case d of Passing \<Rightarrow> ''pass'' | Failing \<Rightarrow> ''fail'')"

record verdict_fact =
  vd_id :: uuid
  vd_criterion :: string
  vd_candidate :: string
  vd_reviewer :: uuid
  vd_decision :: verdict_decision

record proof_snapshot =
  ps_criteria :: "criterion list"
  ps_candidate :: "string option"
  ps_author :: "uuid option"
  ps_evidence :: "evidence_fact list"
  ps_verdicts :: "verdict_fact list"
  ps_dead_evidence :: "uuid set"
  ps_dead_verdicts :: "uuid set"

definition empty_snapshot :: proof_snapshot where
  "empty_snapshot =
     \<lparr>ps_criteria = [], ps_candidate = None, ps_author = None, ps_evidence = [], ps_verdicts = [],
      ps_dead_evidence = {}, ps_dead_verdicts = {}\<rparr>"

datatype proof_command =
    FreezeCriteria string uuid "criterion list"
  | RecordEvidence uuid string "string option" string string
  | RecordVerdict uuid string "string option" verdict_decision
  | ChangeCandidate string

record proof_decision =
  pd_accepted :: bool
  pd_reason :: string
  pd_snapshot :: proof_snapshot
  pd_facts :: "string list"
  pd_evidence :: "uuid list"
  pd_verdicts :: "uuid list"

definition proof_refusal :: "string \<Rightarrow> proof_snapshot \<Rightarrow> proof_decision" where
  "proof_refusal reason s =
     \<lparr>pd_accepted = False, pd_reason = reason, pd_snapshot = s, pd_facts = [], pd_evidence = [], pd_verdicts = []\<rparr>"

definition proof_accepted :: "proof_snapshot \<Rightarrow> string list \<Rightarrow> uuid list \<Rightarrow> uuid list \<Rightarrow> proof_decision" where
  "proof_accepted s facts evidence verdicts =
     \<lparr>pd_accepted = True, pd_reason = ''accepted'', pd_snapshot = s, pd_facts = facts, pd_evidence = evidence,
      pd_verdicts = verdicts\<rparr>"

section \<open>Decisions\<close>

text \<open>A policy enters a decision with its criteria only.\<close>

definition freeze_criteria ::
  "proof_actor \<Rightarrow> proof_snapshot \<Rightarrow> string \<Rightarrow> uuid \<Rightarrow> criterion list \<Rightarrow> criterion list option \<Rightarrow> proof_decision" where
  "freeze_criteria a s candidate author criteria policy =
     (if ps_criteria s \<noteq> [] then proof_refusal ''criteria-already-frozen'' s
      else if pa_principal a \<noteq> author then proof_refusal ''candidate-author-mismatch'' s
      else if criteria = [] \<or> \<not> distinct (map cn_key criteria) then proof_refusal ''criteria-invalid'' s
      else if policy \<noteq> None \<and> policy \<noteq> Some criteria then proof_refusal ''criteria-policy-mismatch'' s
      else if \<not> sha256_reference candidate then proof_refusal ''candidate-digest-invalid'' s
      else proof_accepted (s\<lparr>ps_criteria := criteria, ps_candidate := Some candidate, ps_author := Some author\<rparr>)
        [''criteria.frozen''] [] [])"

definition claimed_candidate :: "proof_snapshot \<Rightarrow> string option \<Rightarrow> string option" where
  "claimed_candidate s claimed = (case claimed of None \<Rightarrow> ps_candidate s | Some d \<Rightarrow> Some d)"

definition record_evidence ::
  "proof_actor \<Rightarrow> proof_snapshot \<Rightarrow> uuid \<Rightarrow> string \<Rightarrow> string option \<Rightarrow> string \<Rightarrow> string \<Rightarrow> proof_decision" where
  "record_evidence a s i k claimed artifact content =
     (case claimed_candidate s claimed of
        None \<Rightarrow> proof_refusal ''candidate-digest-not-current'' s
      | Some candidate \<Rightarrow>
          if Some candidate \<noteq> ps_candidate s then proof_refusal ''candidate-digest-not-current'' s
          else case find (\<lambda>c. cn_key c = k) (ps_criteria s) of
            None \<Rightarrow> proof_refusal ''criterion-unknown'' s
          | Some c \<Rightarrow>
              if ''sha256:'' @ sha256_hex content \<noteq> artifact then proof_refusal ''evidence-digest-mismatch'' s
              else if i \<in> ev_id ` set (ps_evidence s) then proof_refusal ''evidence-id-conflict'' s
              else proof_accepted (s\<lparr>ps_evidence := ps_evidence s @
                  [\<lparr>ev_id = i, ev_criterion = cn_key c, ev_candidate = candidate, ev_artifact = artifact,
                    ev_producer = pa_principal a\<rparr>]\<rparr>) [''evidence.recorded''] [] [])"

definition record_verdict ::
  "proof_actor \<Rightarrow> proof_snapshot \<Rightarrow> uuid \<Rightarrow> string \<Rightarrow> string option \<Rightarrow> verdict_decision \<Rightarrow> proof_decision" where
  "record_verdict a s i k claimed decision =
     (if Some (pa_principal a) = ps_author s then proof_refusal ''self-review-refused'' s
      else if pa_kind a \<noteq> ProofOperator then proof_refusal ''protected-authority-required'' s
      else case claimed_candidate s claimed of
        None \<Rightarrow> proof_refusal ''candidate-digest-not-current'' s
      | Some candidate \<Rightarrow>
          if Some candidate \<noteq> ps_candidate s then proof_refusal ''candidate-digest-not-current'' s
          else if \<not> (\<exists>e \<in> set (ps_evidence s). ev_criterion e = k \<and> Some (ev_candidate e) = ps_candidate s)
          then proof_refusal ''current-evidence-missing'' s
          else if i \<in> vd_id ` set (ps_verdicts s) then proof_refusal ''verdict-id-conflict'' s
          else proof_accepted (s\<lparr>ps_verdicts := ps_verdicts s @
              [\<lparr>vd_id = i, vd_criterion = k, vd_candidate = candidate, vd_reviewer = pa_principal a, vd_decision = decision\<rparr>]\<rparr>)
            [''verdict.recorded''] [] [])"

definition change_candidate :: "proof_actor \<Rightarrow> proof_snapshot \<Rightarrow> string \<Rightarrow> proof_decision" where
  "change_candidate a s candidate =
     (if Some (pa_principal a) \<noteq> ps_author s then proof_refusal ''candidate-author-mismatch'' s
      else if \<not> sha256_reference candidate then proof_refusal ''candidate-digest-invalid'' s
      else if Some candidate = ps_candidate s then proof_refusal ''candidate-unchanged'' s
      else let dependent = cn_key ` set (filter cn_dependent (ps_criteria s));
          evidence = map ev_id (filter (\<lambda>e. ev_criterion e \<in> dependent \<and> ev_id e \<notin> ps_dead_evidence s) (ps_evidence s));
          verdicts = map vd_id (filter (\<lambda>v. vd_criterion v \<in> dependent \<and> vd_id v \<notin> ps_dead_verdicts s) (ps_verdicts s)) in
        proof_accepted (s\<lparr>ps_candidate := Some candidate, ps_dead_evidence := ps_dead_evidence s \<union> set evidence,
            ps_dead_verdicts := ps_dead_verdicts s \<union> set verdicts\<rparr>)
          [''candidate.changed'', ''dependent-proof.invalidated''] evidence verdicts)"

definition proof_decide ::
  "proof_actor \<Rightarrow> proof_snapshot \<Rightarrow> proof_command \<Rightarrow> criterion list option \<Rightarrow> proof_decision" where
  "proof_decide a s c policy =
     (if policy \<noteq> None \<and> ps_criteria s \<noteq> [] \<and> policy \<noteq> Some (ps_criteria s) then proof_refusal ''policy-mismatch'' s
      else case c of
        RecordEvidence i k claimed artifact content \<Rightarrow> record_evidence a s i k claimed artifact content
      | RecordVerdict i k claimed decision \<Rightarrow> record_verdict a s i k claimed decision
      | ChangeCandidate candidate \<Rightarrow> change_candidate a s candidate
      | FreezeCriteria candidate author criteria \<Rightarrow> freeze_criteria a s candidate author criteria policy)"

section \<open>Satisfaction\<close>

definition has_current_evidence :: "proof_snapshot \<Rightarrow> criterion \<Rightarrow> bool" where
  "has_current_evidence s c \<longleftrightarrow>
     (\<exists>e \<in> set (ps_evidence s). ev_criterion e = cn_key c \<and> ev_id e \<notin> ps_dead_evidence s \<and>
        (\<not> cn_dependent c \<or> Some (ev_candidate e) = ps_candidate s))"

definition has_passing_verdict :: "proof_snapshot \<Rightarrow> criterion \<Rightarrow> bool" where
  "has_passing_verdict s c \<longleftrightarrow>
     (let applicable = filter (\<lambda>v. vd_criterion v = cn_key c \<and> vd_id v \<notin> ps_dead_verdicts s \<and>
            (\<not> cn_dependent c \<or> Some (vd_candidate v) = ps_candidate s)) (ps_verdicts s)
      in applicable \<noteq> [] \<and> vd_decision (last applicable) = Passing)"

definition criterion_satisfied :: "proof_snapshot \<Rightarrow> criterion \<Rightarrow> bool" where
  "criterion_satisfied s c \<longleftrightarrow> has_current_evidence s c \<and> (\<not> cn_verdict c \<or> has_passing_verdict s c)"

definition is_satisfied :: "proof_snapshot \<Rightarrow> criterion list option \<Rightarrow> bool" where
  "is_satisfied s policy \<longleftrightarrow>
     ps_criteria s \<noteq> [] \<and> ps_candidate s \<noteq> None \<and> (policy = None \<or> policy = Some (ps_criteria s)) \<and>
     list_all (criterion_satisfied s) (ps_criteria s)"

section \<open>Mutations\<close>

definition bytes_hex :: "string \<Rightarrow> string" where
  "bytes_hex s = concat (map (\<lambda>c. [hex_char (of_char c div 16), hex_char (of_char c mod 16)]) s)"

definition criterion_payload :: "criterion \<Rightarrow> json" where
  "criterion_payload c = JObj
     [(''key'', JStr (cn_key c)), (''description'', JStr (cn_description c)), (''candidate_dependent'', JBool (cn_dependent c)),
      (''requires_verdict'', JBool (cn_verdict c))]"

definition optional_string :: "string option \<Rightarrow> json" where
  "optional_string x = (case x of None \<Rightarrow> JNull | Some s \<Rightarrow> JStr s)"

definition proof_command_payload :: "proof_command \<Rightarrow> json" where
  "proof_command_payload c =
     (case c of
        FreezeCriteria candidate author criteria \<Rightarrow> JObj
          [(''kind'', JStr ''freeze_criteria''), (''candidate_digest'', JStr candidate),
           (''candidate_author_id'', JStr (uuid_str author)), (''criteria'', JList (map criterion_payload criteria))]
      | RecordEvidence i k claimed artifact content \<Rightarrow> JObj
          [(''kind'', JStr ''record_evidence''), (''evidence_id'', JStr (uuid_str i)), (''criterion_key'', JStr k),
           (''candidate_digest'', optional_string claimed), (''artifact_digest'', JStr artifact),
           (''content_hex'', JStr (bytes_hex content))]
      | RecordVerdict i k claimed decision \<Rightarrow> JObj
          [(''kind'', JStr ''record_verdict''), (''verdict_id'', JStr (uuid_str i)), (''criterion_key'', JStr k),
           (''candidate_digest'', optional_string claimed), (''decision'', JStr (decision_value decision))]
      | ChangeCandidate candidate \<Rightarrow> JObj
          [(''kind'', JStr ''change_candidate''), (''candidate_digest'', JStr candidate)])"

record proof_mutation =
  pm_client :: uuid
  pm_ticket :: uuid
  pm_expected :: int
  pm_command :: proof_command

definition proof_mutation_payload :: "proof_mutation \<Rightarrow> json" where
  "proof_mutation_payload m = JObj
     [(''ticket_id'', JStr (uuid_str (pm_ticket m))), (''expected_version'', JInt (pm_expected m)),
      (''command'', proof_command_payload (pm_command m))]"

definition authored_values :: "proof_command \<Rightarrow> string list" where
  "authored_values c = (case c of RecordEvidence i k claimed artifact content \<Rightarrow> [k, content] | _ \<Rightarrow> [])"

text \<open>\<open>execute\<close>, up to its writer: \<open>prohibited\<close> is the scan of \<open>record/prohibited_data.py\<close>.\<close>

definition proof_execute ::
  "(string list \<Rightarrow> uuid option \<Rightarrow> record_problem option) \<Rightarrow> bool \<Rightarrow> proof_mutation \<Rightarrow> proof_mutation handoff py" where
  "proof_execute prohibited configured m =
     (if \<not> configured then Inl (RuntimeError ''proof persistence is not configured'')
      else case prohibited (authored_values (pm_command m)) (Some (pm_client m)) of
        Some p \<Rightarrow> Inr (Immediate p)
      | None \<Rightarrow> Inr (Handoff m (sha256_hex (json_dumps (proof_mutation_payload m))) None))"

record proof_receipt =
  pr_command :: uuid
  pr_events :: "uuid list"
  pr_proof :: uuid
  pr_ticket :: uuid
  pr_version :: int
  pr_candidate :: string
  pr_artifact :: "string option"
  pr_satisfied :: bool
  pr_evidence :: "uuid list"
  pr_verdicts :: "uuid list"

definition proof_receipt_payload :: "proof_receipt \<Rightarrow> json" where
  "proof_receipt_payload r = JObj
     [(''artifact_digest'', optional_string (pr_artifact r)), (''candidate_digest'', JStr (pr_candidate r)),
      (''command_id'', JStr (uuid_str (pr_command r))), (''durability_state'', JStr ''durability_pending''),
      (''event_ids'', JList (map (JStr \<circ> uuid_str) (pr_events r))),
      (''invalidated_evidence_ids'', JList (map (JStr \<circ> uuid_str) (pr_evidence r))),
      (''invalidated_verdict_ids'', JList (map (JStr \<circ> uuid_str) (pr_verdicts r))),
      (''proof_id'', JStr (uuid_str (pr_proof r))), (''satisfied'', JBool (pr_satisfied r)),
      (''ticket_id'', JStr (uuid_str (pr_ticket r))), (''version'', JInt (pr_version r))]"

end
