(* ===== verification/EvidencePolicy.thy ===== *)
theory EvidencePolicy
  imports EvidenceProof
begin

text \<open>
  \<open>proof/policy.py\<close>: the policy a proof is held to, parsed from the exact bytes of a gate policy and an evidence policy, and
  identified by references and content digests. The JSON decoder is a parameter: what it does not decode, or decodes to
  a value outside the model's JSON (a float), counts as not JSON.
\<close>

record evidence_policy =
  ep_workflow :: string
  ep_gate_ref :: string
  ep_gate_digest :: string
  ep_evidence_ref :: string
  ep_evidence_digest :: string
  ep_criteria :: "criterion list"
  ep_reviewer :: string
  ep_no_self_review :: bool

definition content_digest :: "string \<Rightarrow> string" where
  "content_digest value = ''sha256:'' @ sha256_hex value"

definition verify_expected_digest :: "string \<Rightarrow> string \<Rightarrow> string option \<Rightarrow> unit py" where
  "verify_expected_digest kind actual expected =
     (case expected of
        None \<Rightarrow> Inr ()
      | Some d \<Rightarrow>
          if \<not> sha256_reference d then Inl (ValueError (''expected '' @ kind @ '' policy digest must be content addressed''))
          else raise_if (d \<noteq> actual) (ValueError (kind @ '' policy digest does not identify supplied bytes'')))"

definition mapping_from_bytes :: "(string \<Rightarrow> json option) \<Rightarrow> string \<Rightarrow> string \<Rightarrow> members py" where
  "mapping_from_bytes decode kind value =
     (case decode value of
        None \<Rightarrow> Inl (ValueError (kind @ '' policy bytes must be UTF-8 JSON''))
      | Some (JObj ms) \<Rightarrow> Inr ms
      | Some _ \<Rightarrow> Inl (TypeError (kind @ '' policy bytes must contain an object'')))"

definition mapping_string :: "members \<Rightarrow> string \<Rightarrow> string py" where
  "mapping_string ms k =
     (case map_of ms k of
        Some (JStr s) \<Rightarrow> if s = [] then Inl (ValueError (''policy '' @ k @ '' must be nonempty'')) else Inr s
      | _ \<Rightarrow> Inl (ValueError (''policy '' @ k @ '' must be nonempty'')))"

definition mapping_ref :: "members \<Rightarrow> string py" where
  "mapping_ref ms =
     bindE (mapping_string ms ''key'') (\<lambda>k.
       case map_of ms ''revision'' of
         Some (JInt r) \<Rightarrow> if r < 1 then Inl (ValueError ''policy revision must be positive'') else Inr (component_reference k r)
       | _ \<Rightarrow> Inl (ValueError ''policy revision must be positive''))"

definition mapping_criterion :: "json \<Rightarrow> criterion py" where
  "mapping_criterion v =
     (case v of
        JObj ms \<Rightarrow>
          (case (map_of ms ''candidate_dependent'', map_of ms ''requires_verdict'') of
             (Some (JBool dependent), Some (JBool verdict)) \<Rightarrow>
               bindE (mapping_string ms ''key'') (\<lambda>k. bindE (mapping_string ms ''description'') (\<lambda>d.
                 make_criterion k d dependent verdict))
           | _ \<Rightarrow> Inl (TypeError ''gate policy criterion flags must be boolean''))
      | _ \<Rightarrow> Inl (TypeError ''gate policy criterion must be an object''))"

definition validate_evidence_semantics :: "members \<Rightarrow> unit py" where
  "validate_evidence_semantics ms =
     raise_if (map (map_of ms) [''digest_algorithm'', ''content_encoding'', ''candidate_binding'', ''corruption_policy'', ''missing_policy''] \<noteq>
         map (Some \<circ> JStr) [''sha256'', ''utf-8'', ''current_digest'', ''reject'', ''reject''])
       (ValueError ''evidence policy does not preserve current immutable bytes'')"

definition literal_operator :: "json option \<Rightarrow> string py" where
  "literal_operator v =
     (if v = Some (JStr ''operator'') then Inr ''operator'' else Inl (ValueError ''protected verdict reviewer must be operator''))"

definition parse_policy_fields :: "members \<Rightarrow> members \<Rightarrow> string \<Rightarrow> string \<Rightarrow> evidence_policy py" where
  "parse_policy_fields gate evidence gate_digest evidence_digest =
     (if map_of gate ''schema'' \<noteq> Some (JStr ''ctower.gate-policy/v1'') then Inl (ValueError ''unsupported gate policy schema'')
      else if map_of evidence ''schema'' \<noteq> Some (JStr ''ctower.evidence-policy/v1'')
      then Inl (ValueError ''unsupported evidence policy schema'')
      else bindE (mapping_ref gate) (\<lambda>gate_ref. bindE (mapping_ref evidence) (\<lambda>evidence_ref.
        if map_of gate ''evidence_policy_ref'' \<noteq> Some (JStr evidence_ref)
        then Inl (ValueError ''gate policy evidence reference mismatch'')
        else bindE (validate_evidence_semantics evidence) (\<lambda>_.
          case (map_of gate ''protected_verdict'', map_of gate ''criteria'') of
            (Some (JObj protected), Some (JList raw)) \<Rightarrow>
              bindE (mapping_string gate ''workflow_ref'') (\<lambda>workflow. bindE (mapE mapping_criterion raw) (\<lambda>criteria.
              bindE (literal_operator (map_of protected ''reviewer_kind'')) (\<lambda>reviewer.
                Inr \<lparr>ep_workflow = workflow, ep_gate_ref = gate_ref, ep_gate_digest = gate_digest, ep_evidence_ref = evidence_ref,
                  ep_evidence_digest = evidence_digest, ep_criteria = criteria, ep_reviewer = reviewer,
                  ep_no_self_review = (map_of protected ''self_review'' = Some (JStr ''forbidden''))\<rparr>)))
          | _ \<Rightarrow> Inl (TypeError ''gate policy proof obligations must be objects'')))))"

definition validate_policy :: "evidence_policy \<Rightarrow> unit py" where
  "validate_policy p =
     (if \<not> list_all versioned_reference [ep_workflow p, ep_gate_ref p, ep_evidence_ref p]
      then Inl (ValueError ''proof policy references must be versioned'')
      else if \<not> list_all sha256_reference [ep_gate_digest p, ep_evidence_digest p]
      then Inl (ValueError ''proof policy digests must be content addressed'')
      else if ep_criteria p = [] \<or> \<not> distinct (map cn_key (ep_criteria p))
      then Inl (ValueError ''proof policy criteria must be nonempty and unique'')
      else raise_if (ep_reviewer p \<noteq> ''operator'' \<or> \<not> ep_no_self_review p)
        (ValueError ''proof policy must require independent operator review''))"

definition policy_from_bytes ::
  "(string \<Rightarrow> json option) \<Rightarrow> string \<Rightarrow> string \<Rightarrow> string option \<Rightarrow> string option \<Rightarrow> evidence_policy py" where
  "policy_from_bytes decode gate evidence expected_gate expected_evidence =
     bindE (verify_expected_digest ''gate'' (content_digest gate) expected_gate) (\<lambda>_.
     bindE (verify_expected_digest ''evidence'' (content_digest evidence) expected_evidence) (\<lambda>_.
     bindE (mapping_from_bytes decode ''gate'' gate) (\<lambda>gate_ms. bindE (mapping_from_bytes decode ''evidence'' evidence) (\<lambda>evidence_ms.
     bindE (parse_policy_fields gate_ms evidence_ms (content_digest gate) (content_digest evidence)) (\<lambda>p.
     bindE (validate_policy p) (\<lambda>_. Inr p))))))"

definition policy_pin :: "evidence_policy \<Rightarrow> string \<times> string \<times> string \<times> string \<times> string" where
  "policy_pin p = (ep_workflow p, ep_gate_ref p, ep_gate_digest p, ep_evidence_ref p, ep_evidence_digest p)"

section \<open>A pin identifies a policy\<close>

lemma content_digest_reference: "sha256_reference (content_digest bytes)"
  using sha256_hex_shape [of bytes] by (simp add: content_digest_def sha256_reference_def list_all_iff)

lemma parsed_digests:
  "parse_policy_fields gate evidence gd ed = Inr p \<Longrightarrow> ep_gate_digest p = gd \<and> ep_evidence_digest p = ed"
  by (auto simp: parse_policy_fields_def bindE_Inr_iff split: if_splits option.splits json.splits)

text \<open>
  C31. A proof policy is well formed and its pin identifies it. Whatever bytes are parsed, a policy that comes out has versioned
  references, digests of exactly those bytes (also the expected ones, when given), a nonempty list of criteria with
  distinct stable keys, and demands independent operator review; two policies with the same pin have the
  same criteria and every other field, unless their bytes are an explicit collision of SHA-256.
\<close>

theorem policy_pin_identifies:
  assumes "policy_from_bytes decode gate evidence eg ee = Inr p"
  shows "list_all versioned_reference [ep_workflow p, ep_gate_ref p, ep_evidence_ref p] \<and>
    ep_gate_digest p = content_digest gate \<and> ep_evidence_digest p = content_digest evidence \<and>
    (eg = None \<or> eg = Some (content_digest gate)) \<and> (ee = None \<or> ee = Some (content_digest evidence)) \<and>
    ep_criteria p \<noteq> [] \<and> distinct (map cn_key (ep_criteria p)) \<and>
    list_all (\<lambda>c. stable_key (cn_key c) \<and> cn_description c \<noteq> []) (ep_criteria p) \<and> ep_reviewer p = ''operator'' \<and> ep_no_self_review p \<and>
    (\<forall>gate' evidence' eg' ee' p'. policy_from_bytes decode gate' evidence' eg' ee' = Inr p' \<longrightarrow> policy_pin p' = policy_pin p \<longrightarrow>
       p' = p \<or> gate' \<noteq> gate \<and> sha256_hex gate' = sha256_hex gate \<or> evidence' \<noteq> evidence \<and> sha256_hex evidence' = sha256_hex evidence)"
proof -
  have fields: "\<exists>gm em. mapping_from_bytes decode ''gate'' g = Inr gm \<and> mapping_from_bytes decode ''evidence'' e = Inr em \<and>
      parse_policy_fields gm em (content_digest g) (content_digest e) = Inr q \<and> validate_policy q = Inr ()"
    if "policy_from_bytes decode g e x y = Inr q" for g e x y q
    using that by (auto simp: policy_from_bytes_def bindE_Inr_iff)
  obtain gm em where parsed: "mapping_from_bytes decode ''gate'' gate = Inr gm" "mapping_from_bytes decode ''evidence'' evidence = Inr em"
      "parse_policy_fields gm em (content_digest gate) (content_digest evidence) = Inr p" "validate_policy p = Inr ()"
    using fields [OF assms] by blast
  have keys: "list_all (\<lambda>c. stable_key (cn_key c) \<and> cn_description c \<noteq> []) (ep_criteria p)"
  proof -
    have good: "stable_key (cn_key c) \<and> cn_description c \<noteq> []" if "mapping_criterion v = Inr c" for v c
      using that by (auto simp: mapping_criterion_def make_criterion_def bindE_Inr_iff split: json.splits option.splits if_splits)
    obtain raw where "mapE mapping_criterion raw = Inr (ep_criteria p)"
      using parsed(3) by (auto simp: parse_policy_fields_def bindE_Inr_iff split: if_splits option.splits json.splits)
    then show ?thesis by (rule mapE_list_all) (rule good)
  qed
  have expected: "eg = None \<or> eg = Some (content_digest gate)" "ee = None \<or> ee = Some (content_digest evidence)"
    using assms by (auto simp: policy_from_bytes_def bindE_Inr_iff verify_expected_digest_def split: option.splits if_splits)
  have pin: "p' = p \<or> gate' \<noteq> gate \<and> sha256_hex gate' = sha256_hex gate \<or> evidence' \<noteq> evidence \<and> sha256_hex evidence' = sha256_hex evidence"
    if run: "policy_from_bytes decode gate' evidence' eg' ee' = Inr p'" and same: "policy_pin p' = policy_pin p" for gate' evidence' eg' ee' p'
  proof -
    obtain gm' em' where p': "mapping_from_bytes decode ''gate'' gate' = Inr gm'" "mapping_from_bytes decode ''evidence'' evidence' = Inr em'"
        "parse_policy_fields gm' em' (content_digest gate') (content_digest evidence') = Inr p'"
      using fields [OF run] by blast
    have "content_digest gate' = content_digest gate" "content_digest evidence' = content_digest evidence"
      using parsed_digests [OF p'(3)] parsed_digests [OF parsed(3)] same by (simp_all add: policy_pin_def)
    then show ?thesis using p' parsed(1-3) by (auto simp: content_digest_def)
  qed
  show ?thesis
    using parsed(4) parsed_digests [OF parsed(3)] keys expected pin
    by (auto simp: validate_policy_def split: if_splits)
qed

section \<open>A policy that parses\<close>

definition sample_gate :: members where
  "sample_gate =
     [(''schema'', JStr ''ctower.gate-policy/v1''), (''key'', JStr ''gates''), (''revision'', JInt 2),
      (''evidence_policy_ref'', JStr ''evidence@1''), (''workflow_ref'', JStr ''flow@1''),
      (''protected_verdict'', JObj [(''reviewer_kind'', JStr ''operator''), (''self_review'', JStr ''forbidden'')]),
      (''criteria'', JList [JObj [(''key'', JStr ''tests''), (''description'', JStr ''tests pass''), (''candidate_dependent'', JBool True),
         (''requires_verdict'', JBool True)]])]"

definition sample_evidence :: members where
  "sample_evidence =
     [(''schema'', JStr ''ctower.evidence-policy/v1''), (''key'', JStr ''evidence''), (''revision'', JInt 1),
      (''digest_algorithm'', JStr ''sha256''), (''content_encoding'', JStr ''utf-8''), (''candidate_binding'', JStr ''current_digest''),
      (''corruption_policy'', JStr ''reject''), (''missing_policy'', JStr ''reject'')]"

definition sample_decode :: "string \<Rightarrow> json option" where
  "sample_decode s = (if s = ''g'' then Some (JObj sample_gate) else if s = ''e'' then Some (JObj sample_evidence) else None)"

lemma sample_policy:
  "policy_from_bytes sample_decode ''g'' ''e'' None (Some (content_digest ''e'')) = Inr
     \<lparr>ep_workflow = ''flow@1'', ep_gate_ref = ''gates@2'', ep_gate_digest = content_digest ''g'', ep_evidence_ref = ''evidence@1'',
      ep_evidence_digest = content_digest ''e'',
      ep_criteria = [\<lparr>cn_key = ''tests'', cn_description = ''tests pass'', cn_dependent = True, cn_verdict = True\<rparr>],
      ep_reviewer = ''operator'', ep_no_self_review = True\<rparr>"
proof -
  have refs: "component_reference ''gates'' 2 = ''gates@2''" "component_reference ''evidence'' 1 = ''evidence@1''"
    "list_all versioned_reference [''flow@1'', ''gates@2'', ''evidence@1'']" "stable_key ''tests''"
    by code_simp+
  show ?thesis
    using refs content_digest_reference
    by (simp add: policy_from_bytes_def verify_expected_digest_def mapping_from_bytes_def sample_decode_def parse_policy_fields_def
        sample_gate_def sample_evidence_def mapping_ref_def mapping_string_def validate_evidence_semantics_def mapping_criterion_def
        make_criterion_def literal_operator_def validate_policy_def)
qed

lemma policy_pin_identifies_witness:
  "\<exists>p. policy_from_bytes sample_decode ''g'' ''e'' None (Some (content_digest ''e'')) = Inr p \<and> ep_criteria p \<noteq> [] \<and> ep_no_self_review p"
  using policy_pin_identifies [OF sample_policy] sample_policy by blast

end
