(* ===== verification/EvidenceTheorems.thy ===== *)
theory EvidenceTheorems
  imports EvidencePolicy Machine
begin

text \<open>
  What a run of proof decisions establishes. The trail of a run is the list of its accepted commands; satisfaction and
  authority are stated over the trail alone, so no digest or identifier comparison of the snapshot is left in the
  statements.
\<close>

section \<open>Runs and trails\<close>

type_synonym proof_entry = "proof_actor \<times> proof_command"

definition proof_step ::
  "criterion list option \<Rightarrow> proof_snapshot \<times> proof_entry list \<Rightarrow> proof_entry \<Rightarrow> proof_snapshot \<times> proof_entry list" where
  "proof_step policy st x =
     (case st of (s, trail) \<Rightarrow>
        let d = proof_decide (fst x) s (snd x) policy in
        (pd_snapshot d, if pd_accepted d then trail @ [x] else trail))"

definition proof_run :: "criterion list option \<Rightarrow> proof_entry list \<Rightarrow> proof_snapshot \<times> proof_entry list" where
  "proof_run policy xs = foldl (proof_step policy) (empty_snapshot, []) xs"

definition is_change :: "proof_entry \<Rightarrow> bool" where
  "is_change x = (case snd x of ChangeCandidate _ \<Rightarrow> True | _ \<Rightarrow> False)"

text \<open>What was accepted after the last change of the candidate, and what was before.\<close>

definition since_change :: "proof_entry list \<Rightarrow> proof_entry list" where
  "since_change trail = rev (takeWhile (\<lambda>x. \<not> is_change x) (rev trail))"

definition until_change :: "proof_entry list \<Rightarrow> proof_entry list" where
  "until_change trail = rev (dropWhile (\<lambda>x. \<not> is_change x) (rev trail))"

fun trail_evidence :: "proof_entry list \<Rightarrow> (uuid \<times> string) list" where
  "trail_evidence [] = []"
| "trail_evidence ((a, RecordEvidence i k claimed artifact content) # xs) = (i, k) # trail_evidence xs"
| "trail_evidence (_ # xs) = trail_evidence xs"

fun trail_verdicts :: "proof_entry list \<Rightarrow> (uuid \<times> string \<times> verdict_decision) list" where
  "trail_verdicts [] = []"
| "trail_verdicts ((a, RecordVerdict i k claimed d) # xs) = (i, k, d) # trail_verdicts xs"
| "trail_verdicts (_ # xs) = trail_verdicts xs"

fun trail_criteria :: "proof_entry list \<Rightarrow> criterion list" where
  "trail_criteria ((a, FreezeCriteria candidate author criteria) # xs) = criteria"
| "trail_criteria _ = []"

text \<open>Where a criterion looks for its facts: a candidate-dependent one only after the last change.\<close>

definition relevant :: "criterion \<Rightarrow> proof_entry list \<Rightarrow> proof_entry list" where
  "relevant c trail = (if cn_dependent c then since_change trail else trail)"

definition shown :: "proof_entry list \<Rightarrow> criterion \<Rightarrow> bool" where
  "shown trail c \<longleftrightarrow> cn_key c \<in> snd ` set (trail_evidence (relevant c trail))"

definition reviewed :: "proof_entry list \<Rightarrow> criterion \<Rightarrow> bool" where
  "reviewed trail c \<longleftrightarrow>
     (let ds = map (snd \<circ> snd) (filter (\<lambda>v. fst (snd v) = cn_key c) (trail_verdicts (relevant c trail)))
      in ds \<noteq> [] \<and> last ds = Passing)"

lemma trail_evidence_append [simp]: "trail_evidence (xs @ ys) = trail_evidence xs @ trail_evidence ys"
  by (induction xs rule: trail_evidence.induct) auto

lemma trail_verdicts_append [simp]: "trail_verdicts (xs @ ys) = trail_verdicts xs @ trail_verdicts ys"
  by (induction xs rule: trail_verdicts.induct) auto

lemma trail_criteria_append [simp]: "trail \<noteq> [] \<Longrightarrow> trail_criteria (trail @ [x]) = trail_criteria trail"
  by (cases trail rule: trail_criteria.cases) auto

lemma until_since: "until_change trail @ since_change trail = trail"
  unfolding until_change_def since_change_def
  by (metis rev_append rev_rev_ident takeWhile_dropWhile_id)

lemma split_change [simp]:
  "since_change [] = []" "until_change [] = []"
  "since_change (trail @ [x]) = (if is_change x then [] else since_change trail @ [x])"
  "until_change (trail @ [x]) = (if is_change x then trail @ [x] else until_change trail)"
  by (simp_all add: since_change_def until_change_def)

section \<open>The snapshot is what its trail says\<close>

text \<open>
  One table of facts, for evidence and for verdicts: \<open>old\<close> rows come from before the last change, \<open>cur\<close> rows after it; the
  dead identifiers are those of the old rows of candidate-dependent criteria.
\<close>

definition dead_ids :: "('r \<Rightarrow> uuid) \<Rightarrow> ('r \<Rightarrow> string) \<Rightarrow> string set \<Rightarrow> 'r list \<Rightarrow> uuid set" where
  "dead_ids rid rkey K rows = rid ` {r \<in> set rows. rkey r \<in> K}"

definition facts_ok ::
  "('r \<Rightarrow> uuid) \<Rightarrow> ('r \<Rightarrow> string) \<Rightarrow> ('r \<Rightarrow> string) \<Rightarrow> ('r \<Rightarrow> 'p) \<Rightarrow> string set \<Rightarrow> string option \<Rightarrow> 'r list \<Rightarrow> uuid set \<Rightarrow>
   'p list \<Rightarrow> 'p list \<Rightarrow> bool" where
  "facts_ok rid rkey rcand view K candidate rows dead before since \<longleftrightarrow>
     distinct (map rid rows) \<and>
     (\<exists>old cur. rows = old @ cur \<and> map view old = before \<and> map view cur = since \<and>
        (\<forall>r \<in> set cur. Some (rcand r) = candidate) \<and> dead = dead_ids rid rkey K old)"

lemma facts_start: "facts_ok rid rkey rcand view K candidate [] {} [] []"
  by (simp add: facts_ok_def dead_ids_def)

lemma facts_add:
  assumes "facts_ok rid rkey rcand view K candidate rows dead before since" and "rid r \<notin> rid ` set rows" and "Some (rcand r) = candidate"
  shows "facts_ok rid rkey rcand view K candidate (rows @ [r]) dead before (since @ [view r])"
proof -
  obtain old cur where "rows = old @ cur" "map view old = before" "map view cur = since"
      "\<forall>r \<in> set cur. Some (rcand r) = candidate" "dead = dead_ids rid rkey K old" "distinct (map rid rows)"
    using assms(1) by (auto simp: facts_ok_def)
  then show ?thesis unfolding facts_ok_def using assms(2,3)
    by (intro conjI exI [of _ old] exI [of _ "cur @ [r]"]) auto
qed

lemma facts_change:
  assumes "facts_ok rid rkey rcand view K candidate rows dead before since"
  shows "facts_ok rid rkey rcand view K candidate' rows (dead \<union> rid ` {r \<in> set rows. rkey r \<in> K \<and> rid r \<notin> dead}) (before @ since) []"
proof -
  obtain old cur where rows: "rows = old @ cur" "map view old = before" "map view cur = since" "dead = dead_ids rid rkey K old"
      "distinct (map rid rows)"
    using assms by (auto simp: facts_ok_def)
  have "dead \<union> rid ` {r \<in> set rows. rkey r \<in> K \<and> rid r \<notin> dead} = dead_ids rid rkey K rows"
    unfolding rows(1,4) dead_ids_def by auto
  then show ?thesis unfolding facts_ok_def using rows by (intro conjI exI [of _ rows] exI [of _ "[]"]) auto
qed

text \<open>A row is alive exactly when it is recent or its criterion does not depend on the candidate.\<close>

lemma facts_alive:
  assumes "facts_ok rid rkey rcand view K candidate rows dead before since"
  obtains old cur where "rows = old @ cur" "map view old = before" "map view cur = since"
    "\<forall>r \<in> set cur. Some (rcand r) = candidate" "\<forall>r \<in> set cur. rid r \<notin> dead"
    "\<forall>r \<in> set old. rid r \<in> dead \<longleftrightarrow> rkey r \<in> K"
proof -
  obtain old cur where rows: "rows = old @ cur" "map view old = before" "map view cur = since"
      "\<forall>r \<in> set cur. Some (rcand r) = candidate" "dead = dead_ids rid rkey K old" "distinct (map rid (old @ cur))"
    using assms by (auto simp: facts_ok_def)
  have inj: "inj_on rid (set (old @ cur))" using rows(6) by (simp only: distinct_map)
  have "\<forall>r \<in> set old. rid r \<in> dead \<longleftrightarrow> rkey r \<in> K"
    using inj unfolding rows(5) dead_ids_def inj_on_def by auto
  moreover have "\<forall>r \<in> set cur. rid r \<notin> dead" using rows(6) unfolding rows(5) dead_ids_def by auto
  ultimately show ?thesis using that rows(1-4) by blast
qed

definition evidence_view :: "evidence_fact \<Rightarrow> uuid \<times> string" where
  "evidence_view e = (ev_id e, ev_criterion e)"

definition verdict_view :: "verdict_fact \<Rightarrow> uuid \<times> string \<times> verdict_decision" where
  "verdict_view v = (vd_id v, vd_criterion v, vd_decision v)"

definition dependent_keys :: "criterion list \<Rightarrow> string set" where
  "dependent_keys cs = cn_key ` set (filter cn_dependent cs)"

definition proof_inv :: "criterion list option \<Rightarrow> proof_snapshot \<times> proof_entry list \<Rightarrow> bool" where
  "proof_inv policy st \<longleftrightarrow>
     (case st of (s, trail) \<Rightarrow>
        if trail = [] then s = empty_snapshot
        else ps_criteria s = trail_criteria trail \<and> ps_criteria s \<noteq> [] \<and> distinct (map cn_key (ps_criteria s)) \<and>
          ps_candidate s \<noteq> None \<and> (policy = None \<or> policy = Some (ps_criteria s)) \<and>
          facts_ok ev_id ev_criterion ev_candidate evidence_view (dependent_keys (ps_criteria s)) (ps_candidate s) (ps_evidence s)
            (ps_dead_evidence s) (trail_evidence (until_change trail)) (trail_evidence (since_change trail)) \<and>
          facts_ok vd_id vd_criterion vd_candidate verdict_view (dependent_keys (ps_criteria s)) (ps_candidate s) (ps_verdicts s)
            (ps_dead_verdicts s) (trail_verdicts (until_change trail)) (trail_verdicts (since_change trail)))"

lemma proof_inv_facts:
  assumes "proof_inv policy (s, trail)" and "trail \<noteq> []"
  shows "facts_ok ev_id ev_criterion ev_candidate evidence_view (dependent_keys (ps_criteria s)) (ps_candidate s) (ps_evidence s)
      (ps_dead_evidence s) (trail_evidence (until_change trail)) (trail_evidence (since_change trail))"
    and "facts_ok vd_id vd_criterion vd_candidate verdict_view (dependent_keys (ps_criteria s)) (ps_candidate s) (ps_verdicts s)
      (ps_dead_verdicts s) (trail_verdicts (until_change trail)) (trail_verdicts (since_change trail))"
    and "ps_criteria s = trail_criteria trail" and "ps_criteria s \<noteq> []" and "distinct (map cn_key (ps_criteria s))"
    and "ps_candidate s \<noteq> None" and "policy = None \<or> policy = Some (ps_criteria s)"
  using assms by (auto simp: proof_inv_def)

text \<open>When each command is accepted, and what it does then.\<close>

definition new_evidence :: "proof_actor \<Rightarrow> string \<Rightarrow> uuid \<Rightarrow> string \<Rightarrow> string \<Rightarrow> evidence_fact" where
  "new_evidence a candidate i k artifact =
     \<lparr>ev_id = i, ev_criterion = k, ev_candidate = candidate, ev_artifact = artifact, ev_producer = pa_principal a\<rparr>"

definition new_verdict :: "proof_actor \<Rightarrow> string \<Rightarrow> uuid \<Rightarrow> string \<Rightarrow> verdict_decision \<Rightarrow> verdict_fact" where
  "new_verdict a candidate i k d =
     \<lparr>vd_id = i, vd_criterion = k, vd_candidate = candidate, vd_reviewer = pa_principal a, vd_decision = d\<rparr>"

lemma evidence_accepted:
  assumes "pd_accepted (record_evidence a s i k claimed artifact content)"
  shows "\<exists>candidate. ps_candidate s = Some candidate \<and> i \<notin> ev_id ` set (ps_evidence s) \<and> k \<in> cn_key ` set (ps_criteria s) \<and>
    artifact = ''sha256:'' @ sha256_hex content \<and>
    pd_snapshot (record_evidence a s i k claimed artifact content) = s\<lparr>ps_evidence := ps_evidence s @ [new_evidence a candidate i k artifact]\<rparr>"
proof (cases "claimed_candidate s claimed")
  case None
  then show ?thesis using assms by (simp add: record_evidence_def proof_refusal_def)
next
  case (Some candidate)
  show ?thesis
  proof (cases "find (\<lambda>c. cn_key c = k) (ps_criteria s)")
    case None
    then show ?thesis using assms Some by (simp add: record_evidence_def proof_refusal_def split: if_split_asm)
  next
    case (Some c)
    then have "cn_key c = k" "k \<in> cn_key ` set (ps_criteria s)" using find_Some_set [OF Some] by auto
    then show ?thesis using assms \<open>claimed_candidate s claimed = Some candidate\<close> Some
      by (intro exI [of _ candidate])
        (auto simp: record_evidence_def proof_refusal_def proof_accepted_def new_evidence_def dest!: sym [of "Some candidate"] split: if_split_asm)
  qed
qed

lemma verdict_accepted:
  assumes "pd_accepted (record_verdict a s i k claimed d)"
  shows "\<exists>candidate. ps_candidate s = Some candidate \<and> i \<notin> vd_id ` set (ps_verdicts s) \<and>
    Some (pa_principal a) \<noteq> ps_author s \<and> pa_kind a = ProofOperator \<and>
    pd_snapshot (record_verdict a s i k claimed d) = s\<lparr>ps_verdicts := ps_verdicts s @ [new_verdict a candidate i k d]\<rparr>"
proof (cases "claimed_candidate s claimed")
  case None
  then show ?thesis using assms by (simp add: record_verdict_def proof_refusal_def split: if_split_asm)
next
  case (Some candidate)
  then show ?thesis using assms
    by (intro exI [of _ candidate])
      (auto simp: record_verdict_def proof_refusal_def proof_accepted_def new_verdict_def dest!: sym [of "Some candidate"] split: if_split_asm)
qed

lemma inv_evidence:
  assumes inv: "proof_inv policy (s, trail)" "trail \<noteq> []" and ok: "pd_accepted (record_evidence a s i k claimed artifact content)"
  shows "proof_inv policy (pd_snapshot (record_evidence a s i k claimed artifact content),
    trail @ [(a, RecordEvidence i k claimed artifact content)])"
proof -
  note facts = proof_inv_facts [OF inv]
  obtain candidate where cand: "ps_candidate s = Some candidate" and fresh: "i \<notin> ev_id ` set (ps_evidence s)"
    and new: "pd_snapshot (record_evidence a s i k claimed artifact content) = s\<lparr>ps_evidence := ps_evidence s @ [new_evidence a candidate i k artifact]\<rparr>"
    using evidence_accepted [OF ok] by blast
  show ?thesis unfolding new
    using facts(2-7) inv(2) fresh cand facts_add [OF facts(1), of "new_evidence a candidate i k artifact"]
    by (simp add: proof_inv_def is_change_def evidence_view_def new_evidence_def)
qed

lemma inv_verdict:
  assumes inv: "proof_inv policy (s, trail)" "trail \<noteq> []" and ok: "pd_accepted (record_verdict a s i k claimed d)"
  shows "proof_inv policy (pd_snapshot (record_verdict a s i k claimed d), trail @ [(a, RecordVerdict i k claimed d)])"
proof -
  note facts = proof_inv_facts [OF inv]
  obtain candidate where cand: "ps_candidate s = Some candidate" and fresh: "i \<notin> vd_id ` set (ps_verdicts s)"
    and new: "pd_snapshot (record_verdict a s i k claimed d) = s\<lparr>ps_verdicts := ps_verdicts s @ [new_verdict a candidate i k d]\<rparr>"
    using verdict_accepted [OF ok] by blast
  show ?thesis unfolding new
    using facts(1,3-7) inv(2) fresh cand facts_add [OF facts(2), of "new_verdict a candidate i k d"]
    by (simp add: proof_inv_def is_change_def verdict_view_def new_verdict_def)
qed

lemma inv_change:
  assumes inv: "proof_inv policy (s, trail)" "trail \<noteq> []" and ok: "pd_accepted (change_candidate a s d)"
  shows "proof_inv policy (pd_snapshot (change_candidate a s d), trail @ [(a, ChangeCandidate d)])"
proof -
  note facts = proof_inv_facts [OF inv]
  let ?K = "dependent_keys (ps_criteria s)"
  have new: "pd_snapshot (change_candidate a s d) = s\<lparr>ps_candidate := Some d,
      ps_dead_evidence := ps_dead_evidence s \<union> ev_id ` {e \<in> set (ps_evidence s). ev_criterion e \<in> ?K \<and> ev_id e \<notin> ps_dead_evidence s},
      ps_dead_verdicts := ps_dead_verdicts s \<union> vd_id ` {v \<in> set (ps_verdicts s). vd_criterion v \<in> ?K \<and> vd_id v \<notin> ps_dead_verdicts s}\<rparr>"
    using ok by (simp add: change_candidate_def proof_refusal_def proof_accepted_def Let_def dependent_keys_def split: if_splits)
  have parts: "trail_evidence (until_change trail) @ trail_evidence (since_change trail) = trail_evidence trail"
    "trail_verdicts (until_change trail) @ trail_verdicts (since_change trail) = trail_verdicts trail"
    by (simp_all flip: trail_evidence_append trail_verdicts_append add: until_since)
  show ?thesis unfolding new
    using facts(3-7) inv(2) facts_change [OF facts(1), of "Some d", unfolded parts] facts_change [OF facts(2), of "Some d", unfolded parts]
    by (simp add: proof_inv_def is_change_def)
qed

lemma inv_freeze:
  assumes inv: "proof_inv policy (s, [])" and ok: "pd_accepted (freeze_criteria a s d author cs policy)"
  shows "proof_inv policy (pd_snapshot (freeze_criteria a s d author cs policy), [(a, FreezeCriteria d author cs)])"
  using assms split_change(3) [of "[]" "(a, FreezeCriteria d author cs)"] split_change(4) [of "[]" "(a, FreezeCriteria d author cs)"]
  by (auto simp: freeze_criteria_def proof_refusal_def proof_accepted_def proof_inv_def empty_snapshot_def facts_start is_change_def
      split: if_splits)

lemma inv_start: "proof_inv policy (empty_snapshot, [])"
  by (simp add: proof_inv_def)

text \<open>Before the criteria are frozen nothing else is accepted; afterwards they are never frozen again.\<close>

lemma empty_accepts:
  "pd_accepted (proof_decide a empty_snapshot c policy) \<Longrightarrow> \<exists>d author cs. c = FreezeCriteria d author cs"
  by (cases c)
    (auto simp: proof_decide_def record_evidence_def record_verdict_def change_candidate_def claimed_candidate_def empty_snapshot_def
      proof_refusal_def split: option.splits if_splits)

lemma decide_cases:
  assumes "proof_inv policy (s, trail)" and "trail \<noteq> []"
  shows "proof_decide a s (RecordEvidence i k claimed artifact content) policy = record_evidence a s i k claimed artifact content"
    and "proof_decide a s (RecordVerdict i k claimed d) policy = record_verdict a s i k claimed d"
    and "proof_decide a s (ChangeCandidate candidate) policy = change_candidate a s candidate"
    and "\<not> pd_accepted (proof_decide a s (FreezeCriteria candidate author cs) policy)"
  using proof_inv_facts(4,7) [OF assms]
  by (auto simp: proof_decide_def freeze_criteria_def proof_refusal_def)

lemma decide_empty: "proof_decide a empty_snapshot (FreezeCriteria d author cs) policy = freeze_criteria a empty_snapshot d author cs policy"
  by (simp add: proof_decide_def empty_snapshot_def)

lemma decide_rejects: "\<not> pd_accepted (proof_decide a s c policy) \<Longrightarrow> pd_snapshot (proof_decide a s c policy) = s"
  by (cases c)
    (auto simp: proof_decide_def record_evidence_def record_verdict_def change_candidate_def freeze_criteria_def proof_refusal_def
      proof_accepted_def Let_def split: option.splits if_splits)

lemma step_inv:
  assumes inv: "proof_inv policy (s, trail)"
  shows "proof_inv policy (proof_step policy (s, trail) (a, c))"
proof (cases "pd_accepted (proof_decide a s c policy)")
  case False
  then show ?thesis using inv decide_rejects by (simp add: proof_step_def Let_def)
next
  case True
  show ?thesis
  proof (cases "trail = []")
    case empty: True
    then have s: "s = empty_snapshot" using inv by (simp add: proof_inv_def)
    then obtain d author cs where "c = FreezeCriteria d author cs" using True empty_accepts by blast
    then show ?thesis using True inv_freeze [of policy s a d author cs] inv empty
      by (simp add: proof_step_def Let_def s decide_empty)
  next
    case False
    show ?thesis
      using True inv_evidence [OF inv False] inv_verdict [OF inv False] inv_change [OF inv False] decide_cases [OF inv False]
      by (cases c) (simp_all add: proof_step_def Let_def)
  qed
qed

interpretation evidence_machine: guarded_machine "\<lambda>x st. proof_step policy st x" "proof_inv policy" for policy
  by unfold_locales (metis step_inv surj_pair)

lemma proof_run_inv: "proof_inv policy (proof_run policy xs)"
  unfolding proof_run_def by (rule evidence_machine.run_inv [OF inv_start])

section \<open>Satisfaction\<close>

lemma key_dependent: "distinct (map cn_key cs) \<Longrightarrow> c \<in> set cs \<Longrightarrow> cn_key c \<in> dependent_keys cs \<longleftrightarrow> cn_dependent c"
  by (auto simp: dependent_keys_def distinct_map inj_on_def)

lemma alive_rows:
  assumes ok: "facts_ok rid rkey rcand view (dependent_keys cs) candidate rows dead before since"
    and c: "distinct (map cn_key cs)" "c \<in> set cs"
  shows "map view (filter (\<lambda>r. rkey r = cn_key c \<and> rid r \<notin> dead \<and> (\<not> cn_dependent c \<or> Some (rcand r) = candidate)) rows) =
    map view (filter (\<lambda>r. rkey r = cn_key c) (if cn_dependent c then drop (length before) rows else rows))"
proof -
  obtain old cur where rows: "rows = old @ cur" "map view old = before" "\<forall>r \<in> set cur. Some (rcand r) = candidate"
      "\<forall>r \<in> set cur. rid r \<notin> dead" "\<forall>r \<in> set old. rid r \<in> dead \<longleftrightarrow> rkey r \<in> dependent_keys cs"
    using facts_alive [OF ok] by metis
  have len: "length before = length old" using rows(2) by auto
  show ?thesis
  proof (cases "cn_dependent c")
    case True
    have "filter (\<lambda>r. rkey r = cn_key c \<and> rid r \<notin> dead \<and> Some (rcand r) = candidate) old = []"
      using rows(5) key_dependent [OF c] True by (auto simp: filter_empty_conv)
    moreover have "filter (\<lambda>r. rkey r = cn_key c \<and> rid r \<notin> dead \<and> Some (rcand r) = candidate) cur = filter (\<lambda>r. rkey r = cn_key c) cur"
      using rows(3,4) by (auto intro: filter_cong)
    ultimately show ?thesis using True by (simp add: rows(1) len)
  next
    case False
    have "filter (\<lambda>r. rkey r = cn_key c \<and> rid r \<notin> dead) rows = filter (\<lambda>r. rkey r = cn_key c) rows"
      by (rule filter_cong [OF refl]) (use rows(1,4,5) key_dependent [OF c] False in auto)
    then show ?thesis using False by simp
  qed
qed

lemma view_rows:
  assumes ok: "facts_ok rid rkey rcand view K candidate rows dead (tr (until_change trail)) (tr (since_change trail))"
    and tr: "\<And>xs ys. tr (xs @ ys) = tr xs @ tr ys"
  shows "map view (if cn_dependent c then drop (length (tr (until_change trail))) rows else rows) = tr (relevant c trail)"
proof -
  obtain old cur where rows: "rows = old @ cur" "map view old = tr (until_change trail)" "map view cur = tr (since_change trail)"
    using facts_alive [OF ok] by metis
  have "length (tr (until_change trail)) = length old" using rows(2) by (metis length_map)
  moreover have "map view rows = tr trail" using rows tr [of "until_change trail" "since_change trail"] by (simp add: until_since)
  ultimately show ?thesis using rows(1,3) by (simp add: relevant_def)
qed

lemma criterion_shown:
  assumes inv: "proof_inv policy (s, trail)" "trail \<noteq> []" and c: "c \<in> set (ps_criteria s)"
  shows "has_current_evidence s c \<longleftrightarrow> shown trail c"
proof -
  note facts = proof_inv_facts [OF inv]
  let ?P = "\<lambda>e. ev_criterion e = cn_key c \<and> ev_id e \<notin> ps_dead_evidence s \<and> (\<not> cn_dependent c \<or> Some (ev_candidate e) = ps_candidate s)"
  let ?rows = "if cn_dependent c then drop (length (trail_evidence (until_change trail))) (ps_evidence s) else ps_evidence s"
  have "has_current_evidence s c \<longleftrightarrow> filter ?P (ps_evidence s) \<noteq> []"
    by (auto simp: has_current_evidence_def filter_empty_conv)
  also have "\<dots> \<longleftrightarrow> map evidence_view (filter ?P (ps_evidence s)) \<noteq> []" by simp
  also have "\<dots> \<longleftrightarrow> filter (\<lambda>e. ev_criterion e = cn_key c) ?rows \<noteq> []"
    unfolding alive_rows [OF facts(1,5) c] by simp
  also have "\<dots> \<longleftrightarrow> cn_key c \<in> snd ` set (map evidence_view ?rows)"
    by (force simp: filter_empty_conv evidence_view_def)
  finally show ?thesis
    using view_rows [OF facts(1) trail_evidence_append, of c] by (simp only: shown_def)
qed

lemma criterion_reviewed:
  assumes inv: "proof_inv policy (s, trail)" "trail \<noteq> []" and c: "c \<in> set (ps_criteria s)"
  shows "has_passing_verdict s c \<longleftrightarrow> reviewed trail c"
proof -
  note facts = proof_inv_facts [OF inv]
  let ?P = "\<lambda>v. vd_criterion v = cn_key c \<and> vd_id v \<notin> ps_dead_verdicts s \<and> (\<not> cn_dependent c \<or> Some (vd_candidate v) = ps_candidate s)"
  let ?rows = "if cn_dependent c then drop (length (trail_verdicts (until_change trail))) (ps_verdicts s) else ps_verdicts s"
  have decisions: "map vd_decision vs = map (snd \<circ> snd) (map verdict_view vs)" for vs by (simp add: verdict_view_def)
  have "map vd_decision (filter ?P (ps_verdicts s)) = map (snd \<circ> snd) (map verdict_view (filter (\<lambda>v. vd_criterion v = cn_key c) ?rows))"
    unfolding decisions alive_rows [OF facts(2,5) c] ..
  also have "map verdict_view (filter (\<lambda>v. vd_criterion v = cn_key c) ?rows) =
      filter (\<lambda>v. fst (snd v) = cn_key c) (map verdict_view ?rows)"
    by (simp add: filter_map o_def verdict_view_def)
  also have "map verdict_view ?rows = trail_verdicts (relevant c trail)"
    by (rule view_rows [OF facts(2) trail_verdicts_append])
  finally have ds: "map vd_decision (filter ?P (ps_verdicts s)) =
      map (snd \<circ> snd) (filter (\<lambda>v. fst (snd v) = cn_key c) (trail_verdicts (relevant c trail)))" .
  have "has_passing_verdict s c \<longleftrightarrow> map vd_decision (filter ?P (ps_verdicts s)) \<noteq> [] \<and> last (map vd_decision (filter ?P (ps_verdicts s))) = Passing"
    by (auto simp: has_passing_verdict_def Let_def last_map)
  then show ?thesis unfolding ds by (simp only: reviewed_def Let_def)
qed

text \<open>
  C29. A proof is satisfied exactly when its trail says so. Over any run of decisions under a policy (or none),
  whatever was refused on the way, the snapshot counts as satisfied exactly when the accepted commands begin with a freeze
  and every frozen criterion has evidence and, where it requires one, a passing verdict as its last verdict, looking only
  behind the last change of the candidate for a candidate-dependent criterion and at the whole trail for another. So
  proof of an earlier candidate never counts again, also when the candidate returns to an earlier digest.
\<close>

theorem proof_satisfied_exact:
  "is_satisfied (fst (proof_run policy xs)) policy \<longleftrightarrow>
     trail_criteria (snd (proof_run policy xs)) \<noteq> [] \<and>
     list_all (\<lambda>c. shown (snd (proof_run policy xs)) c \<and> (cn_verdict c \<longrightarrow> reviewed (snd (proof_run policy xs)) c))
       (trail_criteria (snd (proof_run policy xs)))"
proof -
  obtain s trail where run: "proof_run policy xs = (s, trail)" by (cases "proof_run policy xs")
  have inv: "proof_inv policy (s, trail)" using proof_run_inv [of policy xs] by (simp add: run)
  show ?thesis
  proof (cases "trail = []")
    case True
    then show ?thesis using inv by (simp add: run proof_inv_def is_satisfied_def empty_snapshot_def)
  next
    case False
    note facts = proof_inv_facts(3-7) [OF inv False]
    have "list_all (criterion_satisfied s) (ps_criteria s) \<longleftrightarrow>
        list_all (\<lambda>c. shown trail c \<and> (cn_verdict c \<longrightarrow> reviewed trail c)) (ps_criteria s)"
      using criterion_shown [OF inv False] criterion_reviewed [OF inv False]
      by (auto simp: list_all_iff criterion_satisfied_def)
    then show ?thesis using facts by (simp add: run is_satisfied_def)
  qed
qed

text \<open>A run that ends satisfied: frozen, shown, and approved by an operator.\<close>

definition sample_proof :: "proof_entry list" where
  "sample_proof =
     [(\<lparr>pa_principal = 1, pa_tenant = 0, pa_kind = ProofCommander\<rparr>,
       FreezeCriteria (content_digest ''c'') 1 [\<lparr>cn_key = ''tests'', cn_description = ''pass'', cn_dependent = True, cn_verdict = True\<rparr>]),
      (\<lparr>pa_principal = 1, pa_tenant = 0, pa_kind = ProofCommander\<rparr>, RecordEvidence 5 ''tests'' None (content_digest ''log'') ''log''),
      (\<lparr>pa_principal = 2, pa_tenant = 0, pa_kind = ProofOperator\<rparr>, RecordVerdict 6 ''tests'' (Some (content_digest ''c'')) Passing)]"

lemma sample_proof_trail: "snd (proof_run None sample_proof) = sample_proof"
  using content_digest_reference [of "''c''"]
  by (simp add: proof_run_def sample_proof_def proof_step_def proof_decide_def empty_snapshot_def freeze_criteria_def record_evidence_def
      record_verdict_def claimed_candidate_def proof_accepted_def content_digest_def)

lemma proof_satisfied_exact_witness: "is_satisfied (fst (proof_run None sample_proof)) None"
  unfolding proof_satisfied_exact sample_proof_trail
  by (simp add: sample_proof_def shown_def reviewed_def relevant_def since_change_def is_change_def)

section \<open>What is accepted\<close>

fun trail_author :: "proof_entry list \<Rightarrow> uuid option" where
  "trail_author ((a, FreezeCriteria candidate author criteria) # xs) = Some author"
| "trail_author _ = None"

definition candidate_after :: "string option \<Rightarrow> proof_entry \<Rightarrow> string option" where
  "candidate_after d x = (case snd x of FreezeCriteria d' author cs \<Rightarrow> Some d' | ChangeCandidate d' \<Rightarrow> Some d' | _ \<Rightarrow> d)"

definition trail_candidate :: "proof_entry list \<Rightarrow> string option" where
  "trail_candidate trail = foldl candidate_after None trail"

text \<open>The criteria evidence was accepted for, each with the candidate of that moment.\<close>

definition shown_after :: "string option \<times> (string \<times> string option) list \<Rightarrow> proof_entry \<Rightarrow> string option \<times> (string \<times> string option) list" where
  "shown_after st x =
     (candidate_after (fst st) x, case snd x of RecordEvidence i k claimed artifact content \<Rightarrow> snd st @ [(k, fst st)] | _ \<Rightarrow> snd st)"

definition trail_shown :: "proof_entry list \<Rightarrow> (string \<times> string option) list" where
  "trail_shown trail = snd (foldl shown_after (None, []) trail)"

definition allowed :: "criterion list option \<Rightarrow> proof_entry list \<Rightarrow> proof_entry \<Rightarrow> bool" where
  "allowed policy trail x \<longleftrightarrow>
     (case snd x of
        FreezeCriteria d author cs \<Rightarrow>
          trail = [] \<and> author = pa_principal (fst x) \<and> cs \<noteq> [] \<and> distinct (map cn_key cs) \<and>
          (policy = None \<or> policy = Some cs) \<and> sha256_reference d
      | RecordEvidence i k claimed artifact content \<Rightarrow>
          trail \<noteq> [] \<and> (claimed = None \<or> claimed = trail_candidate trail) \<and> k \<in> cn_key ` set (trail_criteria trail) \<and>
          artifact = ''sha256:'' @ sha256_hex content \<and> i \<notin> fst ` set (trail_evidence trail)
      | RecordVerdict i k claimed d \<Rightarrow>
          trail \<noteq> [] \<and> trail_author trail \<noteq> Some (pa_principal (fst x)) \<and> pa_kind (fst x) = ProofOperator \<and>
          (claimed = None \<or> claimed = trail_candidate trail) \<and> (k, trail_candidate trail) \<in> set (trail_shown trail) \<and>
          i \<notin> fst ` set (trail_verdicts trail)
      | ChangeCandidate d \<Rightarrow>
          trail \<noteq> [] \<and> trail_author trail = Some (pa_principal (fst x)) \<and> sha256_reference d \<and> trail_candidate trail \<noteq> Some d)"

definition proof_view :: "proof_snapshot \<times> proof_entry list \<Rightarrow> bool" where
  "proof_view st \<longleftrightarrow>
     (case st of (s, trail) \<Rightarrow>
        ps_author s = trail_author trail \<and> ps_candidate s = trail_candidate trail \<and>
        map (\<lambda>e. (ev_criterion e, Some (ev_candidate e))) (ps_evidence s) = trail_shown trail)"

lemma foldl_shown_after: "fst (foldl shown_after (None, []) trail) = trail_candidate trail"
  by (induction trail rule: rev_induct) (simp_all add: trail_candidate_def shown_after_def)

lemma trail_append:
  "trail_candidate (trail @ [x]) = candidate_after (trail_candidate trail) x"
  "trail_shown (trail @ [x]) =
     (case snd x of RecordEvidence i k claimed artifact content \<Rightarrow> trail_shown trail @ [(k, trail_candidate trail)] | _ \<Rightarrow> trail_shown trail)"
  "trail \<noteq> [] \<Longrightarrow> trail_author (trail @ [x]) = trail_author trail"
  by (simp_all add: trail_candidate_def trail_shown_def shown_after_def foldl_shown_after split: proof_command.splits)
    (cases trail rule: trail_author.cases; simp)

lemma ids_of_trail:
  assumes "proof_inv policy (s, trail)" and "trail \<noteq> []"
  shows "ev_id ` set (ps_evidence s) = fst ` set (trail_evidence trail)" and "vd_id ` set (ps_verdicts s) = fst ` set (trail_verdicts trail)"
proof -
  note facts = proof_inv_facts [OF assms]
  have "map evidence_view (ps_evidence s) = trail_evidence (until_change trail @ since_change trail)"
    using facts_alive [OF facts(1)] by (metis map_append trail_evidence_append)
  then have "map ev_id (ps_evidence s) = map fst (trail_evidence trail)"
    unfolding until_since by (metis (no_types, lifting) evidence_view_def fst_conv map_eq_conv map_map comp_apply)
  then show "ev_id ` set (ps_evidence s) = fst ` set (trail_evidence trail)" by (metis list.set_map)
  have "map verdict_view (ps_verdicts s) = trail_verdicts (until_change trail @ since_change trail)"
    using facts_alive [OF facts(2)] by (metis map_append trail_verdicts_append)
  then have "map vd_id (ps_verdicts s) = map fst (trail_verdicts trail)"
    unfolding until_since by (metis (no_types, lifting) verdict_view_def fst_conv map_eq_conv map_map comp_apply)
  then show "vd_id ` set (ps_verdicts s) = fst ` set (trail_verdicts trail)" by (metis list.set_map)
qed

lemma accepted_iff_allowed:
  assumes inv: "proof_inv policy (s, trail)" and view: "proof_view (s, trail)"
  shows "pd_accepted (proof_decide a s c policy) \<longleftrightarrow> allowed policy trail (a, c)"
proof (cases "trail = []")
  case True
  then have s: "s = empty_snapshot" using inv by (simp add: proof_inv_def)
  have freeze: "pd_accepted (freeze_criteria a empty_snapshot d author cs policy) \<longleftrightarrow> allowed policy [] (a, FreezeCriteria d author cs)" for d author cs
    by (auto simp: freeze_criteria_def allowed_def proof_refusal_def proof_accepted_def empty_snapshot_def)
  show ?thesis
    using empty_accepts [of a c policy] freeze True by (cases c) (auto simp: s allowed_def decide_empty)
next
  case False
  note facts = proof_inv_facts [OF inv False] and ids = ids_of_trail [OF inv False] and dc = decide_cases [OF inv False]
  obtain d where d: "ps_candidate s = Some d" using facts(6) by auto
  have v: "trail_author trail = ps_author s" "trail_candidate trail = Some d"
      "set (trail_shown trail) = (\<lambda>e. (ev_criterion e, Some (ev_candidate e))) ` set (ps_evidence s)"
    using view d by (auto simp: proof_view_def simp flip: list.set_map)
  show ?thesis
  proof (cases c)
    case (FreezeCriteria candidate author cs)
    then show ?thesis using dc(4) False by (simp add: allowed_def)
  next
    case (RecordEvidence i k claimed artifact content)
    have "find (\<lambda>c. cn_key c = k) (ps_criteria s) = None \<longleftrightarrow> k \<notin> cn_key ` set (ps_criteria s)" by (auto simp: find_None_iff)
    then have "pd_accepted (record_evidence a s i k claimed artifact content) \<longleftrightarrow> allowed policy trail (a, RecordEvidence i k claimed artifact content)"
      using d False by (cases claimed; cases "find (\<lambda>c. cn_key c = k) (ps_criteria s)")
        (auto simp: record_evidence_def claimed_candidate_def proof_refusal_def proof_accepted_def allowed_def v ids facts(3))
    then show ?thesis using dc(1) RecordEvidence by simp
  next
    case (RecordVerdict i k claimed decision)
    have "pd_accepted (record_verdict a s i k claimed decision) \<longleftrightarrow> allowed policy trail (a, RecordVerdict i k claimed decision)"
      using d False by (cases claimed)
        (auto simp: record_verdict_def claimed_candidate_def proof_refusal_def proof_accepted_def allowed_def v ids)
    then show ?thesis using dc(2) RecordVerdict by simp
  next
    case (ChangeCandidate candidate)
    have "pd_accepted (change_candidate a s candidate) \<longleftrightarrow> allowed policy trail (a, ChangeCandidate candidate)"
      using d False by (auto simp: change_candidate_def proof_refusal_def proof_accepted_def allowed_def v Let_def)
    then show ?thesis using dc(3) ChangeCandidate by simp
  qed
qed

lemma step_view:
  assumes inv: "proof_inv policy (s, trail)" and view: "proof_view (s, trail)"
  shows "proof_view (proof_step policy (s, trail) (a, c))"
proof (cases "pd_accepted (proof_decide a s c policy)")
  case False
  then show ?thesis using view decide_rejects by (simp add: proof_step_def Let_def)
next
  case ok: True
  show ?thesis
  proof (cases "trail = []")
    case True
    then have s: "s = empty_snapshot" using inv by (simp add: proof_inv_def)
    then obtain d author cs where "c = FreezeCriteria d author cs" using ok empty_accepts by blast
    then have "proof_step policy (s, trail) (a, c) = (pd_snapshot (freeze_criteria a empty_snapshot d author cs policy), [(a, FreezeCriteria d author cs)])"
        "pd_accepted (freeze_criteria a empty_snapshot d author cs policy)"
      using ok True by (simp_all add: proof_step_def Let_def s decide_empty)
    then show ?thesis
      by (auto simp: freeze_criteria_def proof_refusal_def proof_accepted_def proof_view_def
          empty_snapshot_def trail_candidate_def candidate_after_def trail_shown_def shown_after_def split: if_splits)
  next
    case False
    note dc = decide_cases [OF inv False] and t = trail_append(1,2) trail_append(3) [OF False]
    show ?thesis
    proof (cases c)
      case (FreezeCriteria candidate author cs)
      then show ?thesis using dc(4) ok by simp
    next
      case (RecordEvidence i k claimed artifact content)
      then show ?thesis using ok view dc(1) evidence_accepted [of a s i k claimed artifact content]
        by (auto simp: proof_step_def Let_def proof_view_def t candidate_after_def new_evidence_def)
    next
      case (RecordVerdict i k claimed decision)
      then show ?thesis using ok view dc(2) verdict_accepted [of a s i k claimed decision]
        by (auto simp: proof_step_def Let_def proof_view_def t candidate_after_def)
    next
      case (ChangeCandidate candidate)
      then show ?thesis using ok view dc(3)
        by (auto simp: proof_step_def Let_def proof_view_def t candidate_after_def change_candidate_def proof_refusal_def proof_accepted_def
            split: if_splits)
    qed
  qed
qed

definition allow_step :: "criterion list option \<Rightarrow> proof_entry list \<Rightarrow> proof_entry \<Rightarrow> proof_entry list" where
  "allow_step policy trail x = (if allowed policy trail x then trail @ [x] else trail)"

text \<open>
  C30. Proof decisions follow the trail alone. Over any run, the accepted commands are exactly those that the rules over
  the accepted commands before them allow: the criteria are frozen once, first, by the author of the candidate and as the policy has
  them; evidence is for a frozen criterion and the current candidate, under a fresh identifier, with the digest of its bytes; a
  verdict comes from an operator other than the author, for a criterion that was shown under the current digest;
  only the author changes the candidate, to another digest. The snapshot thus refines its history.
\<close>

theorem proof_accepts_exactly: "snd (proof_run policy xs) = foldl (allow_step policy) [] xs"
proof -
  have "proof_inv policy (proof_run policy xs) \<and> proof_view (proof_run policy xs) \<and> snd (proof_run policy xs) = foldl (allow_step policy) [] xs"
  proof (induction xs rule: rev_induct)
    case Nil
    show ?case by (simp add: proof_run_def inv_start) (simp add: proof_view_def empty_snapshot_def trail_candidate_def trail_shown_def)
  next
    case (snoc x xs)
    obtain s trail where run: "proof_run policy xs = (s, trail)" by (cases "proof_run policy xs")
    obtain a c where x: "x = (a, c)" by (cases x)
    have next_run: "proof_run policy (xs @ [x]) = proof_step policy (s, trail) (a, c)" using run by (simp add: proof_run_def x)
    have inv: "proof_inv policy (s, trail)" "proof_view (s, trail)" "trail = foldl (allow_step policy) [] xs" using snoc unfolding run snd_conv by blast+
    have "snd (proof_step policy (s, trail) (a, c)) = allow_step policy trail (a, c)"
      using accepted_iff_allowed [OF inv(1,2)] by (simp add: proof_step_def Let_def allow_step_def)
    then show ?case unfolding next_run using step_inv [OF inv(1)] step_view [OF inv(1,2)] inv(3) by (simp add: x)
  qed
  then show ?thesis by blast
qed

text \<open>
  A verdict needs evidence under the current digest, not evidence that still counts: after a change of the candidate and a
  change back, the old evidence is dead but a verdict is accepted on it.
\<close>

lemma verdict_on_dead_evidence:
  assumes "Some d = ps_candidate s" and "e \<in> set (ps_evidence s)" and "ev_candidate e = d" and "ps_author s \<noteq> Some (pa_principal a)"
    and "pa_kind a = ProofOperator" and "i \<notin> vd_id ` set (ps_verdicts s)" and "\<forall>e \<in> set (ps_evidence s). ev_id e \<in> ps_dead_evidence s"
  shows "pd_accepted (record_verdict a s i (ev_criterion e) None decision) \<and> \<not> has_current_evidence s c"
  using assms by (auto simp: record_verdict_def claimed_candidate_def proof_accepted_def has_current_evidence_def split: option.splits)

end
