(* ===== verification/ConsoleGrant.thy ===== *)
theory ConsoleGrant
  imports WorkCommands Base64
begin

text \<open>
  The console's pure decisions: the bounds and identities of \<open>console/models.py\<close>, the view grants, stream window and output
  chunks of \<open>console/policy.py\<close>, and the refusals of \<open>console/_authority_policy.py\<close> over the joined database row. A check
  of a Python type that the model's types already fix is omitted.
\<close>

section \<open>Models\<close>

definition within :: "int \<Rightarrow> int \<Rightarrow> int \<Rightarrow> bool" where
  "within lo hi n \<longleftrightarrow> lo \<le> n \<and> n \<le> hi"

text \<open>A first character \<open>[a-z]\<close>, then so many characters of a class: the patterns of the console's names.\<close>

definition name_shape :: "(char \<Rightarrow> bool) \<Rightarrow> nat \<Rightarrow> nat \<Rightarrow> string \<Rightarrow> bool" where
  "name_shape ok lo hi s \<longleftrightarrow>
     (case s of [] \<Rightarrow> False | c # cs \<Rightarrow> is_lower c \<and> lo \<le> length cs \<and> length cs \<le> hi \<and> list_all ok cs)"

definition console_project_key :: "string \<Rightarrow> bool" where
  "console_project_key = name_shape (\<lambda>c. is_lower c \<or> is_digit c \<or> c = CHR ''-'') 2 63"

definition crew_name_ok :: "string \<Rightarrow> bool" where
  "crew_name_ok = name_shape key_char 1 95"

definition stable_name_ok :: "string \<Rightarrow> bool" where
  "stable_name_ok = name_shape (\<lambda>c. key_char c \<or> c = CHR '':'') 1 127"

definition revision_ok :: "string \<Rightarrow> bool" where
  "revision_ok = name_shape key_char 2 127"

record console_policy =
  cp_ttl :: int
  cp_continuous :: int
  cp_poll :: int
  cp_chunk :: int
  cp_delivery :: int
  cp_delivery_seconds :: int
  cp_replay :: int
  cp_replay_seconds :: int
  cp_pending :: int
  cp_denials :: int
  cp_denial_seconds :: int
  cp_suspension :: int
  cp_revision :: string

definition policy_ceilings :: "console_policy \<Rightarrow> (string \<times> int \<times> int) list" where
  "policy_ceilings p =
     [(''grant_ttl_seconds'', cp_ttl p, 300), (''maximum_continuous_view_seconds'', cp_continuous p, 1800),
      (''revocation_poll_seconds'', cp_poll p, 4), (''decoded_chunk_bytes'', cp_chunk p, 16 * 1024),
      (''delivery_window_bytes'', cp_delivery p, 1024 * 1024), (''delivery_window_seconds'', cp_delivery_seconds p, 60),
      (''replay_window_bytes'', cp_replay p, 1024 * 1024), (''replay_window_seconds'', cp_replay_seconds p, 60),
      (''pending_bytes'', cp_pending p, 256 * 1024), (''denial_limit'', cp_denials p, 3),
      (''denial_window_seconds'', cp_denial_seconds p, 300), (''suspension_seconds'', cp_suspension p, 900)]"

definition console_policy_checked :: "console_policy \<Rightarrow> console_policy py" where
  "console_policy_checked p =
     bindE (eachE (\<lambda>(field, n, ceiling). raise_if (\<not> within 1 ceiling n)
         (ValueError (field @ '' must be between 1 and '' @ str_int ceiling))) (policy_ceilings p)) (\<lambda>_.
     bindE (raise_if (\<not> revision_ok (cp_revision p)) (ValueError ''policy_revision is outside the authored contract'')) (\<lambda>_. Inr p))"

record session_ref =
  sr_tenant :: uuid
  sr_project :: string
  sr_seat :: uuid
  sr_crew :: string
  sr_ticket :: uuid
  sr_assignment :: string
  sr_interval :: int
  sr_session :: uuid
  sr_attempt :: uuid
  sr_runner :: string
  sr_epoch :: int
  sr_adapter :: string
  sr_backend :: string
  sr_incarnation :: string

definition session_ref_checked :: "session_ref \<Rightarrow> session_ref py" where
  "session_ref_checked r =
     (let check = (\<lambda>ok field. raise_if (\<not> ok) (ValueError (field @ '' is outside the authored contract''))) in
      bindE (check (console_project_key (sr_project r)) ''project_key'') (\<lambda>_.
      bindE (check (crew_name_ok (sr_crew r)) ''crew_name'') (\<lambda>_.
      bindE (check (stable_name_ok (sr_assignment r)) ''assignment_kind'') (\<lambda>_.
      bindE (check (stable_name_ok (sr_runner r)) ''runner_id'') (\<lambda>_.
      bindE (check (stable_name_ok (sr_adapter r)) ''adapter_key'') (\<lambda>_.
      bindE (check (within 1 2147483647 (sr_interval r)) ''assignment_interval_sequence'') (\<lambda>_.
      bindE (check (within 1 9223372036854775807 (sr_epoch r)) ''runner_epoch'') (\<lambda>_.
      bindE (check (1 \<le> code_points (sr_backend r) \<and> code_points (sr_backend r) \<le> 256) ''opaque_backend_ref'') (\<lambda>_.
      bindE (check (1 \<le> code_points (sr_incarnation r) \<and> code_points (sr_incarnation r) \<le> 128) ''backend_incarnation'') (\<lambda>_.
        Inr r))))))))))"

record backend_observation =
  bo_project :: string
  bo_attempt :: uuid
  bo_runner :: string
  bo_epoch :: int
  bo_backend :: string
  bo_incarnation :: string

record output_batch =
  ob_payload :: string
  ob_cursor :: int
  ob_gap :: bool
  ob_reason :: "string option"

definition output_batch_checked :: "output_batch \<Rightarrow> output_batch py" where
  "output_batch_checked b =
     (if ob_cursor b < 0 then Inl (ValueError ''source_cursor cannot be negative'')
      else if ob_gap b \<noteq> (ob_reason b \<noteq> None) then Inl (ValueError ''gap and gap_reason must be present together'')
      else Inr b)"

record grant_facts =
  gf_actor :: actor
  gf_allowance :: uuid
  gf_ref :: session_ref
  gf_allowlisted :: bool
  gf_assignment :: bool
  gf_join :: bool
  gf_adapter :: bool
  gf_disabled :: bool
  gf_sensitivity :: string
  gf_loop :: string
  gf_observed :: backend_observation
  gf_revoked :: bool
  gf_suspended :: "datetime option"
  gf_session_current :: bool
  gf_binding_current :: bool

record view_grant =
  vg_id :: uuid
  vg_nonce :: uuid
  vg_actor :: uuid
  vg_binding :: uuid
  vg_session :: uuid
  vg_tenant :: uuid
  vg_project :: string
  vg_allowance :: uuid
  vg_ref :: session_ref
  vg_policy :: string
  vg_issuer :: string
  vg_not_before :: datetime
  vg_expires :: datetime
  vg_uses :: int
  vg_started :: datetime
  vg_renewed :: "uuid option"

definition console_reason_ok :: "string \<Rightarrow> bool" where
  "console_reason_ok reason \<longleftrightarrow> 1 \<le> code_points reason \<and> code_points reason \<le> 500"

section \<open>View grants\<close>

definition view_problem :: "string \<Rightarrow> string \<Rightarrow> int \<Rightarrow> record_problem" where
  "view_problem code detail status = problem code detail status ''Console view refused'' None"

fun first_refusal :: "(bool \<times> string \<times> string) list \<Rightarrow> record_problem option" where
  "first_refusal [] = None"
| "first_refusal ((refused, code, detail) # checks) =
     (if refused
      then Some (view_problem code detail (if code \<in> {''console-project-refused'', ''console-role-refused''} then 404 else 403))
      else first_refusal checks)"

definition actor_checks :: "grant_facts \<Rightarrow> datetime \<Rightarrow> (bool \<times> string \<times> string) list" where
  "actor_checks f now =
     [(ac_kind (gf_actor f) = Commander, ''console-role-refused'', ''Commander cannot view.''),
      (\<not> gf_session_current f \<or> \<not> gf_binding_current f, ''console-reauthentication-required'',
         ''The exact human authorization is no longer current.''),
      (sr_project (gf_ref f) \<notin> ac_projects (gf_actor f), ''console-project-refused'', ''The Actor has no exact Project grant.''),
      (case gf_suspended f of None \<Rightarrow> False | Some t \<Rightarrow> t > now, ''console-actor-suspended'',
         ''The Actor is temporarily suspended after repeated denials.'')]"

definition session_checks :: "grant_facts \<Rightarrow> (bool \<times> string \<times> string) list" where
  "session_checks f =
     [(gf_disabled f, ''console-globally-disabled'', ''Console viewing is globally disabled.''),
      (gf_revoked f, ''console-session-revoked'', ''The console session was revoked.''),
      (\<not> gf_allowlisted f, ''console-session-not-allowed'', ''The exact console session is not allowlisted.''),
      (\<not> gf_assignment f, ''console-assignment-stale'', ''The exact assignment interval is no longer current.''),
      (\<not> gf_join f, ''console-session-join-stale'', ''The recorded session no longer joins the current assignment.''),
      (gf_sensitivity f \<noteq> ''restricted'', ''console-sensitivity-refused'', ''Phase 1 admits only the RESTRICTED class.''),
      (gf_loop f \<noteq> ''standard'', ''console-loop-kind-refused'', ''Phase 1 refuses non-standard loop kinds.''),
      (\<not> gf_adapter f, ''console-adapter-unregistered'', ''The backend has no registered Adapter.'')]"

definition live_checks :: "grant_facts \<Rightarrow> (bool \<times> string \<times> string) list" where
  "live_checks f =
     (let r = gf_ref f; live = gf_observed f in
      [(bo_project live \<noteq> sr_project r, ''console-project-fence-mismatch'', ''The live tmux Project fact mismatches.''),
       (bo_attempt live \<noteq> sr_attempt r, ''console-runtime-attempt-fenced'', ''The runtime attempt was replaced.''),
       (bo_runner live \<noteq> sr_runner r, ''console-runner-fenced'', ''The runner identity was replaced.''),
       (bo_epoch live \<noteq> sr_epoch r, ''console-runner-epoch-fenced'', ''The runner epoch advanced.''),
       (bo_backend live \<noteq> sr_backend r, ''console-backend-fenced'', ''The backend reference was replaced.''),
       (bo_incarnation live \<noteq> sr_incarnation r, ''console-incarnation-fenced'', ''The backend incarnation was replaced.'')])"

definition preflight_view_grant :: "grant_facts \<Rightarrow> datetime \<Rightarrow> record_problem option" where
  "preflight_view_grant f now =
     (if ac_binding (gf_actor f) = None \<or> ac_session (gf_actor f) = None
      then Some (view_problem ''console-browser-session-required'' ''An exact human session is required.'' 403)
      else first_some [first_refusal (actor_checks f now), first_refusal (session_checks f)])"

definition authority_refusal_at :: "grant_facts \<Rightarrow> datetime \<Rightarrow> record_problem option" where
  "authority_refusal_at f now =
     (case preflight_view_grant f now of Some p \<Rightarrow> Some p | None \<Rightarrow> first_refusal (live_checks f))"

definition grant_window ::
  "grant_facts \<Rightarrow> view_grant option \<Rightarrow> uuid \<Rightarrow> uuid \<Rightarrow> console_policy \<Rightarrow> datetime \<Rightarrow> (record_problem + datetime \<times> uuid option)" where
  "grant_window f previous binding session policy now =
     (case previous of
        None \<Rightarrow> Inr (now, None)
      | Some g \<Rightarrow>
          if vg_expires g \<le> now then Inl (view_problem ''console-grant-expired'' ''An expired grant cannot be renewed.'' 401)
          else if \<not> (vg_actor g = ac_principal (gf_actor f) \<and> vg_binding g = binding \<and> vg_session g = session \<and>
               vg_allowance g = gf_allowance f \<and> vg_ref g = gf_ref f)
          then Inl (view_problem ''console-renewal-binding-mismatch'' ''Renewal bindings do not match.'' 403)
          else if vg_started g + timedelta_seconds (cp_continuous policy) \<le> now
          then Inl (view_problem ''console-continuous-view-limit'' ''The maximum continuous view interval has elapsed.'' 401)
          else Inr (vg_started g, Some (vg_id g)))"

definition decide_view_grant ::
  "grant_facts \<Rightarrow> uuid \<times> uuid \<Rightarrow> console_policy \<Rightarrow> datetime \<Rightarrow> view_grant option \<Rightarrow> (record_problem + view_grant)" where
  "decide_view_grant f ids policy now previous =
     (case authority_refusal_at f now of
        Some p \<Rightarrow> Inl p
      | None \<Rightarrow>
          (case (ac_binding (gf_actor f), ac_session (gf_actor f)) of
             (Some binding, Some session) \<Rightarrow>
               bindE (grant_window f previous binding session policy now) (\<lambda>(started, renewed).
                 Inr \<lparr>vg_id = fst ids, vg_nonce = snd ids, vg_actor = ac_principal (gf_actor f), vg_binding = binding,
                   vg_session = session, vg_tenant = ac_tenant (gf_actor f), vg_project = sr_project (gf_ref f),
                   vg_allowance = gf_allowance f, vg_ref = gf_ref f, vg_policy = cp_revision policy,
                   vg_issuer = ''ctower-control-plane'', vg_not_before = now,
                   vg_expires = min (now + timedelta_seconds (cp_ttl policy)) (started + timedelta_seconds (cp_continuous policy)),
                   vg_uses = 1, vg_started = started, vg_renewed = renewed\<rparr>)
           | _ \<Rightarrow> Inl (view_problem ''console-browser-session-required'' ''An exact human session is required.'' 403)))"

section \<open>The stream window\<close>

datatype disposition = Admitted | RateLimited | SlowConsumer

record rolling =
  rb_maximum :: int
  rb_seconds :: int
  rb_entries :: "(datetime \<times> int) list"
  rb_total :: int

definition new_rolling :: "int \<Rightarrow> int \<Rightarrow> rolling py" where
  "new_rolling maximum seconds =
     (if maximum < 1 \<or> seconds < 1 then Inl (ValueError ''rolling byte bounds must be positive'')
      else Inr \<lparr>rb_maximum = maximum, rb_seconds = seconds, rb_entries = [], rb_total = 0\<rparr>)"

fun expire_entries :: "datetime \<Rightarrow> (datetime \<times> int) list \<Rightarrow> int \<Rightarrow> (datetime \<times> int) list \<times> int" where
  "expire_entries threshold [] queued = ([], queued)"
| "expire_entries threshold ((t, n) # es) queued =
     (if t \<le> threshold then expire_entries threshold es (queued - n) else ((t, n) # es, queued))"

definition rolling_admit :: "int \<Rightarrow> datetime \<Rightarrow> rolling \<Rightarrow> (disposition \<times> rolling) py" where
  "rolling_admit n now r =
     (if n < 0 then Inl (ValueError ''stream size cannot be negative'')
      else let (es, total) = expire_entries (now - timedelta_seconds (rb_seconds r)) (rb_entries r) (rb_total r);
             r = r\<lparr>rb_entries := es, rb_total := total\<rparr> in
        if total + n > rb_maximum r then Inr (RateLimited, r)
        else Inr (Admitted, r\<lparr>rb_entries := es @ [(now, n)], rb_total := total + n\<rparr>))"

record stream_window =
  sw_delivery :: rolling
  sw_replay :: rolling
  sw_limit :: int
  sw_pending :: int
  sw_gap :: "string option"

definition new_stream_window :: "console_policy \<Rightarrow> stream_window py" where
  "new_stream_window p =
     bindE (new_rolling (cp_delivery p) (cp_delivery_seconds p)) (\<lambda>delivery.
     bindE (new_rolling (cp_replay p) (cp_replay_seconds p)) (\<lambda>replay.
       Inr \<lparr>sw_delivery = delivery, sw_replay = replay, sw_limit = cp_pending p, sw_pending = 0, sw_gap = None\<rparr>))"

definition admit_delivery :: "int \<Rightarrow> datetime \<Rightarrow> stream_window \<Rightarrow> (disposition \<times> stream_window) py" where
  "admit_delivery n now w = bindE (rolling_admit n now (sw_delivery w)) (\<lambda>(d, r). Inr (d, w\<lparr>sw_delivery := r\<rparr>))"

definition admit_replay :: "int \<Rightarrow> datetime \<Rightarrow> stream_window \<Rightarrow> (disposition \<times> stream_window) py" where
  "admit_replay n now w = bindE (rolling_admit n now (sw_replay w)) (\<lambda>(d, r). Inr (d, w\<lparr>sw_replay := r\<rparr>))"

definition mark_gap :: "string \<Rightarrow> stream_window \<Rightarrow> stream_window py" where
  "mark_gap reason w =
     (if reason = [] then Inl (ValueError ''gap reason cannot be empty'') else Inr (w\<lparr>sw_gap := Some reason\<rparr>))"

definition add_pending :: "int \<Rightarrow> stream_window \<Rightarrow> (disposition \<times> stream_window) py" where
  "add_pending n w =
     (if n < 0 then Inl (ValueError ''pending size cannot be negative'')
      else if sw_pending w + n > sw_limit w then bindE (mark_gap ''slow-consumer'' w) (\<lambda>w. Inr (SlowConsumer, w))
      else Inr (Admitted, w\<lparr>sw_pending := sw_pending w + n\<rparr>))"

definition flush_pending :: "int \<Rightarrow> stream_window \<Rightarrow> stream_window py" where
  "flush_pending n w =
     (if \<not> (0 \<le> n \<and> n \<le> sw_pending w) then Inl (ValueError ''pending flush exceeds queued bytes'')
      else Inr (w\<lparr>sw_pending := sw_pending w - n\<rparr>))"

function split_chunks :: "nat \<Rightarrow> string \<Rightarrow> string list" where
  "split_chunks n s = (if n = 0 \<or> s = [] then [] else take n s # split_chunks n (drop n s))"
  by pat_completeness auto
termination by (relation "measure (\<lambda>(n, s). length s)") auto

declare split_chunks.simps [simp del]

definition encode_console_chunks :: "string \<Rightarrow> int \<Rightarrow> string list py" where
  "encode_console_chunks payload n =
     (if n < 1 \<or> n > 16 * 1024 then Inl (ValueError ''decoded_chunk_bytes must be between 1 and 16384'')
      else Inr (map b64encode (split_chunks (nat n) payload)))"

section \<open>Authority over the joined row\<close>

record authority_row =
  au_suspended :: "datetime option"
  au_expires :: datetime
  au_not_before :: datetime
  au_used :: bool
  au_revision :: string
  au_disabled :: bool
  au_human_revoked :: bool
  au_binding_revoked :: bool
  au_human_expires :: datetime
  au_project :: string
  au_grant_revoked :: bool
  au_session_revoked :: bool
  au_assignment :: bool
  au_work_session :: bool

definition operation_problem :: "string \<Rightarrow> string \<Rightarrow> int \<Rightarrow> record_problem" where
  "operation_problem code detail status = problem code detail status ''Console operation refused'' None"

definition human_authority_stale :: "authority_row \<Rightarrow> datetime \<Rightarrow> bool" where
  "human_authority_stale r now \<longleftrightarrow> au_human_revoked r \<or> au_binding_revoked r \<or> au_human_expires r \<le> now"

definition session_authority_stale :: "authority_row \<Rightarrow> bool" where
  "session_authority_stale r \<longleftrightarrow> au_grant_revoked r \<or> au_session_revoked r \<or> \<not> au_assignment r \<or> \<not> au_work_session r"

definition grant_refusal :: "authority_row \<Rightarrow> console_policy \<Rightarrow> datetime \<Rightarrow> record_problem option" where
  "grant_refusal r policy now =
     (if (case au_suspended r of None \<Rightarrow> False | Some t \<Rightarrow> t > now)
      then Some (operation_problem ''console-actor-suspended'' ''The Actor is temporarily suspended after repeated denials.'' 403)
      else if au_expires r \<le> now then Some (operation_problem ''console-grant-expired'' ''The ConsoleViewGrant has expired.'' 401)
      else if au_not_before r > now \<or> au_used r
      then Some (operation_problem ''console-grant-unavailable'' ''No active unused grant is available.'' 401)
      else if au_revision r \<noteq> cp_revision policy
      then Some (operation_problem ''console-policy-stale'' ''The Console policy revision changed.'' 403)
      else if au_disabled r then Some (operation_problem ''console-globally-disabled'' ''Console viewing is disabled.'' 403)
      else None)"

definition human_refusal :: "authority_row \<Rightarrow> datetime \<Rightarrow> record_problem option" where
  "human_refusal r now =
     (if \<not> human_authority_stale r now then None
      else Some (operation_problem ''console-reauthentication-required'' ''The exact human authorization is no longer current.'' 401))"

definition project_refusal :: "authority_row \<Rightarrow> actor \<Rightarrow> record_problem option" where
  "project_refusal r a =
     (if ac_kind a \<noteq> Commander \<and> au_project r \<in> ac_projects a then None
      else Some (operation_problem ''console-project-refused'' ''The Project is unavailable.'' 404))"

definition session_refusal :: "authority_row \<Rightarrow> record_problem option" where
  "session_refusal r =
     (if \<not> session_authority_stale r then None
      else Some (operation_problem ''console-session-revoked'' ''The console session is revoked.'' 403))"

definition stream_claim_refusal :: "authority_row \<Rightarrow> actor \<Rightarrow> console_policy \<Rightarrow> datetime \<Rightarrow> record_problem option" where
  "stream_claim_refusal r a policy now =
     first_some [grant_refusal r policy now, human_refusal r now, project_refusal r a, session_refusal r]"

definition stream_close_reason :: "authority_row option \<Rightarrow> console_policy \<Rightarrow> datetime \<Rightarrow> string option" where
  "stream_close_reason row policy now =
     (case row of
        None \<Rightarrow> Some ''reauthentication_required''
      | Some r \<Rightarrow>
          if human_authority_stale r now then Some ''reauthentication_required''
          else if au_expires r \<le> now then Some ''expired''
          else if au_disabled r then Some ''globally_disabled''
          else if au_revision r \<noteq> cp_revision policy then Some ''fenced''
          else if session_authority_stale r then Some ''revoked''
          else None)"

record join_row =
  jr_project :: string
  jr_crew :: string
  jr_started_by :: uuid
  jr_principal :: uuid
  jr_kind :: string
  jr_disabled :: bool
  jr_released :: "datetime option"
  jr_closed :: bool

definition session_join_matches :: "join_row \<Rightarrow> session_ref \<Rightarrow> bool" where
  "session_join_matches r ref \<longleftrightarrow>
     jr_project r = sr_project ref \<and> jr_crew r = sr_crew ref \<and> jr_started_by r = sr_seat ref \<and> jr_principal r = sr_seat ref \<and>
     jr_kind r \<noteq> ''commander'' \<and> \<not> jr_disabled r \<and> jr_released r = None \<and> \<not> jr_closed r"

definition session_join_refusal :: "join_row option \<Rightarrow> session_ref \<Rightarrow> record_problem option" where
  "session_join_refusal row ref =
     (case row of
        None \<Rightarrow> Some (operation_problem ''console-session-join-stale''
          ''The recorded session does not join the exact assignment interval.'' 403)
      | Some r \<Rightarrow>
          if session_join_matches r ref then None
          else Some (operation_problem ''console-session-join-stale''
            ''The recorded session is not the current exact assignment/session join.'' 403))"

definition allow_authority_refusal :: "actor \<Rightarrow> session_ref \<Rightarrow> record_problem option" where
  "allow_authority_refusal a ref =
     (if ac_kind a \<noteq> Operator
      then Some (operation_problem ''console-allowlist-refused'' ''Console allowlisting requires operator authority.'' 403)
      else if ac_tenant a \<noteq> sr_tenant ref
      then Some (operation_problem ''console-session-unavailable'' ''The recorded session is unavailable.'' 404)
      else None)"

fun first_fence :: "(bool \<times> string) list \<Rightarrow> record_problem option" where
  "first_fence [] = None"
| "first_fence ((refused, code) # checks) =
     (if refused then Some (operation_problem code ''The live Adapter facts do not match the exact session reference.'' 403)
      else first_fence checks)"

definition observation_refusal :: "session_ref \<Rightarrow> backend_observation \<Rightarrow> record_problem option" where
  "observation_refusal r live = first_fence
     [(bo_project live \<noteq> sr_project r, ''console-project-fence-mismatch''),
      (bo_attempt live \<noteq> sr_attempt r, ''console-runtime-attempt-fenced''), (bo_runner live \<noteq> sr_runner r, ''console-runner-fenced''),
      (bo_epoch live \<noteq> sr_epoch r, ''console-runner-epoch-fenced''), (bo_backend live \<noteq> sr_backend r, ''console-backend-fenced''),
      (bo_incarnation live \<noteq> sr_incarnation r, ''console-incarnation-fenced'')]"

definition allow_request_refusal :: "actor \<Rightarrow> session_ref \<Rightarrow> backend_observation \<Rightarrow> record_problem option" where
  "allow_request_refusal a r live = (case allow_authority_refusal a r of Some p \<Rightarrow> Some p | None \<Rightarrow> observation_refusal r live)"

definition observation_from_ref :: "session_ref \<Rightarrow> backend_observation" where
  "observation_from_ref r =
     \<lparr>bo_project = sr_project r, bo_attempt = sr_attempt r, bo_runner = sr_runner r, bo_epoch = sr_epoch r, bo_backend = sr_backend r,
      bo_incarnation = sr_incarnation r\<rparr>"

end
