(* ===== verification/ConsoleTheorems.thy ===== *)
theory ConsoleTheorems
  imports ConsoleGrant
begin

text \<open>
  What the console's decisions guarantee: exactly when a view grant is given, how long a chain of renewals can last, how
  many bytes any window of time admits, and that the encoded chunks are the payload.
\<close>

section \<open>When a grant is given\<close>

lemma first_refusal_None: "first_refusal checks = None \<longleftrightarrow> (\<forall>x \<in> set checks. \<not> fst x)"
  by (induction checks rule: first_refusal.induct) auto

text \<open>Everything the durable and the live facts must say.\<close>

definition viewable :: "grant_facts \<Rightarrow> datetime \<Rightarrow> bool" where
  "viewable f now \<longleftrightarrow>
     ac_binding (gf_actor f) \<noteq> None \<and> ac_session (gf_actor f) \<noteq> None \<and> ac_kind (gf_actor f) \<noteq> Commander \<and>
     gf_session_current f \<and> gf_binding_current f \<and> sr_project (gf_ref f) \<in> ac_projects (gf_actor f) \<and>
     (case gf_suspended f of None \<Rightarrow> True | Some t \<Rightarrow> t \<le> now) \<and>
     \<not> gf_disabled f \<and> \<not> gf_revoked f \<and> gf_allowlisted f \<and> gf_assignment f \<and> gf_join f \<and>
     gf_sensitivity f = ''restricted'' \<and> gf_loop f = ''standard'' \<and> gf_adapter f \<and>
     gf_observed f = observation_from_ref (gf_ref f)"

definition same_view :: "grant_facts \<Rightarrow> view_grant \<Rightarrow> bool" where
  "same_view f g \<longleftrightarrow>
     vg_actor g = ac_principal (gf_actor f) \<and> Some (vg_binding g) = ac_binding (gf_actor f) \<and>
     Some (vg_session g) = ac_session (gf_actor f) \<and> vg_allowance g = gf_allowance f \<and> vg_ref g = gf_ref f"

definition renewable :: "grant_facts \<Rightarrow> console_policy \<Rightarrow> datetime \<Rightarrow> view_grant \<Rightarrow> bool" where
  "renewable f policy now g \<longleftrightarrow>
     now < vg_expires g \<and> same_view f g \<and> now < vg_started g + timedelta_seconds (cp_continuous policy)"

lemma authority_iff_viewable: "authority_refusal_at f now = None \<longleftrightarrow> viewable f now"
  by (auto simp: authority_refusal_at_def preflight_view_grant_def first_refusal_None actor_checks_def session_checks_def live_checks_def
      viewable_def observation_from_ref_def Let_def split: option.splits)

lemma decide_grants_iff:
  "(\<exists>g. decide_view_grant f ids policy now previous = Inr g) \<longleftrightarrow>
     viewable f now \<and> (case previous of None \<Rightarrow> True | Some g \<Rightarrow> renewable f policy now g)"
proof (cases "viewable f now")
  case False
  then have "authority_refusal_at f now \<noteq> None" using authority_iff_viewable [of f now] by simp
  then show ?thesis using False by (auto simp: decide_view_grant_def)
next
  case True
  then obtain binding session where "ac_binding (gf_actor f) = Some binding" "ac_session (gf_actor f) = Some session"
    by (auto simp: viewable_def)
  then show ?thesis using True authority_iff_viewable [of f now]
    by (auto simp: decide_view_grant_def grant_window_def renewable_def same_view_def bindE_Inr_iff split: option.splits if_splits)
qed

lemma decided_grant:
  assumes "decide_view_grant f ids policy now previous = Inr g"
  shows "same_view f g" and "vg_not_before g = now" and "vg_uses g = 1" and "vg_policy g = cp_revision policy"
    and "vg_started g = (case previous of None \<Rightarrow> now | Some p \<Rightarrow> vg_started p)"
    and "vg_expires g = min (now + timedelta_seconds (cp_ttl policy)) (vg_started g + timedelta_seconds (cp_continuous policy))"
  using assms
  by (auto simp: decide_view_grant_def grant_window_def same_view_def bindE_Inr_iff split: option.splits if_splits)

section \<open>Chains of renewals\<close>

text \<open>A mint and its renewals: each decision with the facts and the clock of its moment.\<close>

inductive view_chain :: "console_policy \<Rightarrow> view_grant list \<Rightarrow> bool" for policy where
  mint: "decide_view_grant f ids policy now None = Inr g \<Longrightarrow> view_chain policy [g]"
| renew: "view_chain policy (g # gs) \<Longrightarrow> decide_view_grant f ids policy now (Some g) = Inr g' \<Longrightarrow> view_chain policy (g' # g # gs)"

definition bounded_view :: "console_policy \<Rightarrow> view_grant \<Rightarrow> view_grant \<Rightarrow> bool" where
  "bounded_view policy first g \<longleftrightarrow>
     vg_actor g = vg_actor first \<and> vg_binding g = vg_binding first \<and> vg_session g = vg_session first \<and>
     vg_allowance g = vg_allowance first \<and> vg_ref g = vg_ref first \<and> vg_started g = vg_not_before first \<and>
     vg_expires g \<le> vg_not_before first + timedelta_seconds (cp_continuous policy) \<and>
     vg_expires g \<le> vg_not_before g + timedelta_seconds (cp_ttl policy) \<and> vg_uses g = 1"

lemma same_view_unique:
  assumes "same_view f g" and "same_view f h"
  shows "vg_actor h = vg_actor g \<and> vg_binding h = vg_binding g \<and> vg_session h = vg_session g \<and> vg_allowance h = vg_allowance g \<and>
    vg_ref h = vg_ref g"
  using assms unfolding same_view_def by (metis option.inject)

lemma chain_nonempty: "view_chain policy gs \<Longrightarrow> gs \<noteq> []"
  by (induction rule: view_chain.induct) auto

lemma bounded_renewal:
  assumes renewal: "decide_view_grant f ids policy now (Some g) = Inr g'" and same: "same_view f g" and g: "bounded_view policy first g"
  shows "bounded_view policy first g'"
proof -
  have "vg_started g' = vg_started g" "vg_uses g' = 1" "vg_expires g' \<le> vg_not_before g' + timedelta_seconds (cp_ttl policy)"
      "vg_expires g' \<le> vg_started g' + timedelta_seconds (cp_continuous policy)"
    using decided_grant(2,3,5,6) [OF renewal] by simp_all
  then show ?thesis using same_view_unique [OF same decided_grant(1) [OF renewal]] g by (simp add: bounded_view_def)
qed

lemma chain_bounded: "view_chain policy gs \<Longrightarrow> g \<in> set gs \<Longrightarrow> bounded_view policy (last gs) g"
proof (induction arbitrary: g rule: view_chain.induct)
  case (mint f ids now g0)
  then show ?case using decided_grant [OF mint(1)] by (simp add: bounded_view_def)
next
  case (renew g0 gs f ids now g')
  have "renewable f policy now g0" using decide_grants_iff [of f ids policy now "Some g0"] renew.hyps(2) by auto
  then have "same_view f g0" by (simp add: renewable_def)
  then have "bounded_view policy (last (g0 # gs)) g'"
    by (rule bounded_renewal [OF renew.hyps(2)]) (use renew.IH [of g0] in simp)
  moreover have "g = g' \<or> g \<in> set (g0 # gs)" using renew.prems by simp
  moreover have "last (g' # g0 # gs) = last (g0 # gs)" by simp
  ultimately show ?case using renew.IH [of g] by (elim disjE) simp_all
qed

text \<open>
  C32. Console viewing is exact and bounded. A grant is given exactly when every durable and live fact holds and, for a
  renewal, the previous grant is unexpired, is for the same person, session and console, and its continuous interval has
  not elapsed. So along any chain of renewals, however many there are and however often, all grants have the identity of the
  first, each lives at most the grant lifetime, and none reaches beyond the maximum continuous
  interval counted from the first.
\<close>

theorem console_view_bounded:
  "((\<exists>g. decide_view_grant f ids policy now previous = Inr g) \<longleftrightarrow>
      viewable f now \<and> (case previous of None \<Rightarrow> True | Some g \<Rightarrow> renewable f policy now g)) \<and>
   (view_chain policy gs \<longrightarrow> list_all (bounded_view policy (last gs)) gs)"
  using decide_grants_iff chain_bounded by (auto simp: list_all_iff)

text \<open>A mint at time zero and a renewal two minutes later.\<close>

definition sample_ref :: session_ref where
  "sample_ref =
     \<lparr>sr_tenant = 1, sr_project = ''demo'', sr_seat = 2, sr_crew = ''crew'', sr_ticket = 3, sr_assignment = ''current'', sr_interval = 1,
      sr_session = 4, sr_attempt = 5, sr_runner = ''runner'', sr_epoch = 1, sr_adapter = ''tmux'', sr_backend = ''b'', sr_incarnation = ''i''\<rparr>"

definition sample_facts :: grant_facts where
  "sample_facts =
     \<lparr>gf_actor = \<lparr>ac_principal = 9, ac_tenant = 1, ac_kind = Operator, ac_projects = {''demo''}, ac_scopes = {}, ac_seat = None,
        ac_binding = Some 6, ac_session = Some 7\<rparr>,
      gf_allowance = 8, gf_ref = sample_ref, gf_allowlisted = True, gf_assignment = True, gf_join = True, gf_adapter = True,
      gf_disabled = False, gf_sensitivity = ''restricted'', gf_loop = ''standard'', gf_observed = observation_from_ref sample_ref,
      gf_revoked = False, gf_suspended = None, gf_session_current = True, gf_binding_current = True\<rparr>"

definition sample_console_policy :: console_policy where
  "sample_console_policy =
     \<lparr>cp_ttl = 300, cp_continuous = 1800, cp_poll = 4, cp_chunk = 1024, cp_delivery = 1024, cp_delivery_seconds = 60, cp_replay = 1024,
      cp_replay_seconds = 60, cp_pending = 1024, cp_denials = 3, cp_denial_seconds = 300, cp_suspension = 900, cp_revision = ''p1''\<rparr>"

lemma sample_views:
  "\<exists>g g'. decide_view_grant sample_facts (10, 11) sample_console_policy 0 None = Inr g \<and>
     decide_view_grant sample_facts (12, 13) sample_console_policy (120 * second) (Some g) = Inr g' \<and>
     vg_expires g' = 420 * second"
  by (simp add: decide_view_grant_def authority_refusal_at_def preflight_view_grant_def actor_checks_def session_checks_def
      live_checks_def sample_facts_def sample_ref_def sample_console_policy_def observation_from_ref_def grant_window_def
      timedelta_seconds_def second_def Let_def)

lemma console_view_bounded_witness:
  "\<exists>g g'. vg_expires g' = 420 * second \<and> list_all (bounded_view sample_console_policy g) [g', g]"
proof -
  obtain g g' where d: "decide_view_grant sample_facts (10, 11) sample_console_policy 0 None = Inr g"
      "decide_view_grant sample_facts (12, 13) sample_console_policy (120 * second) (Some g) = Inr g'" "vg_expires g' = 420 * second"
    using sample_views by blast
  have "view_chain sample_console_policy [g', g]" using d by (blast intro: view_chain.intros)
  then have "list_all (bounded_view sample_console_policy g) [g', g]"
    using console_view_bounded [of sample_facts "(10, 11)" sample_console_policy 0 None "[g', g]"] by simp
  then show ?thesis using d(3) by blast
qed

section \<open>The rolling window\<close>

text \<open>The bytes admitted at times in \<open>(a, b]\<close>.\<close>

definition admitted_in :: "datetime \<Rightarrow> datetime \<Rightarrow> (datetime \<times> int) list \<Rightarrow> int" where
  "admitted_in a b es = sum_list (map snd (filter (\<lambda>(t, n). a < t \<and> t \<le> b) es))"

text \<open>Requests in order of time; the admitted ones are collected.\<close>

fun rolling_run :: "rolling \<Rightarrow> (datetime \<times> int) list \<Rightarrow> (datetime \<times> int) list py" where
  "rolling_run r [] = Inr []"
| "rolling_run r ((t, n) # xs) =
     bindE (rolling_admit n t r) (\<lambda>(d, r). bindE (rolling_run r xs) (\<lambda>es. Inr (if d = Admitted then (t, n) # es else es)))"

text \<open>The reference: a request is admitted when the bytes already admitted in the window that ends with it leave room.\<close>

definition greedy :: "int \<Rightarrow> int \<Rightarrow> (datetime \<times> int) list \<Rightarrow> datetime \<times> int \<Rightarrow> (datetime \<times> int) list" where
  "greedy span maximum es x =
     (if admitted_in (fst x - span) (fst x) es + snd x \<le> maximum then es @ [x] else es)"

definition in_time :: "(datetime \<times> int) list \<Rightarrow> bool" where
  "in_time es \<longleftrightarrow> sorted (map fst es) \<and> list_all (\<lambda>x. 0 \<le> snd x) es"

lemma admitted_append: "admitted_in a b (es @ fs) = admitted_in a b es + admitted_in a b fs"
  by (simp add: admitted_in_def)

lemma admitted_single: "admitted_in a b [(t, n)] = (if a < t \<and> t \<le> b then n else 0)"
  by (simp add: admitted_in_def)

lemma admitted_mono:
  assumes "list_all (\<lambda>x. 0 \<le> snd x) es" and "\<And>t n. (t, n) \<in> set es \<Longrightarrow> a < t \<Longrightarrow> t \<le> b \<Longrightarrow> a' < t \<and> t \<le> b'"
  shows "admitted_in a b es \<le> admitted_in a' b' es"
  using assms
proof (induction es)
  case (Cons x es)
  obtain t n where x: "x = (t, n)" by (cases x)
  have "admitted_in a b es \<le> admitted_in a' b' es" using Cons by auto
  moreover have "a < t \<Longrightarrow> t \<le> b \<Longrightarrow> a' < t \<and> t \<le> b'" using Cons.prems(2) [of t n] by (simp add: x)
  moreover have "0 \<le> n" using Cons.prems(1) by (simp add: x)
  ultimately show ?case by (auto simp: admitted_in_def x)
qed (simp add: admitted_in_def)

lemma expire_sorted:
  "sorted (map fst es) \<Longrightarrow>
   expire_entries thr es n = (filter (\<lambda>x. thr < fst x) es, n - sum_list (map snd (filter (\<lambda>x. fst x \<le> thr) es)))"
proof (induction thr es n rule: expire_entries.induct)
  case (2 thr t m es n)
  show ?case
  proof (cases "t \<le> thr")
    case True
    then show ?thesis using 2 by simp
  next
    case False
    then have "\<forall>x \<in> set es. thr < fst x" using 2(2) by auto
    then have "filter (\<lambda>x. thr < fst x) es = es" "filter (\<lambda>x. fst x \<le> thr) es = []" by (auto simp: filter_empty_conv filter_id_conv)
    then show ?thesis using False by simp
  qed
qed simp

text \<open>The window holds the entries later than some threshold, of which it knows the sum.\<close>

definition rolling_ok :: "rolling \<Rightarrow> (datetime \<times> int) list \<Rightarrow> datetime \<Rightarrow> bool" where
  "rolling_ok r es now \<longleftrightarrow>
     1 \<le> rb_seconds r \<and> in_time es \<and> list_all (\<lambda>x. fst x \<le> now) es \<and> rb_total r = sum_list (map snd (rb_entries r)) \<and>
     (\<exists>thr. thr \<le> now - timedelta_seconds (rb_seconds r) \<and> rb_entries r = filter (\<lambda>x. thr < fst x) es)"

lemma sum_split: "sum_list (map snd (filter P es)) + sum_list (map snd (filter (\<lambda>x. \<not> P x) es)) = (sum_list (map snd es) :: int)"
  by (induction es) auto

lemma rolling_okI:
  assumes "1 \<le> rb_seconds r" and "in_time es" and "list_all (\<lambda>x. fst x \<le> now) es" and "rb_total r = sum_list (map snd (rb_entries r))"
    and "rb_entries r = filter (\<lambda>x. now - timedelta_seconds (rb_seconds r) < fst x) es"
  shows "rolling_ok r es now"
  using assms by (auto simp: rolling_ok_def)

lemma rolling_step:
  assumes ok: "rolling_ok r es now" and t: "now \<le> t" and n: "0 \<le> n"
  shows "\<exists>d r'. rolling_admit n t r = Inr (d, r') \<and> rb_maximum r' = rb_maximum r \<and> rb_seconds r' = rb_seconds r \<and>
    (if d = Admitted then es @ [(t, n)] else es) = greedy (timedelta_seconds (rb_seconds r)) (rb_maximum r) es (t, n) \<and>
    rolling_ok r' (if d = Admitted then es @ [(t, n)] else es) t"
proof -
  let ?S = "timedelta_seconds (rb_seconds r)"
  let ?kept = "filter (\<lambda>x. t - ?S < fst x) es"
  obtain thr where thr: "thr \<le> now - ?S" "rb_entries r = filter (\<lambda>x. thr < fst x) es" "rb_total r = sum_list (map snd (rb_entries r))"
    and es: "in_time es" "list_all (\<lambda>x. fst x \<le> now) es"
    using ok by (auto simp: rolling_ok_def)
  have later: "thr \<le> t - ?S" using thr(1) t by linarith
  have "sorted (map fst (rb_entries r))" using es(1) unfolding thr(2) in_time_def by (simp add: sorted_filter)
  moreover have kept: "filter (\<lambda>x. t - ?S < fst x) (rb_entries r) = ?kept"
    unfolding thr(2) filter_filter by (rule filter_cong [OF refl]) (use later in auto)
  moreover have "rb_total r - sum_list (map snd (filter (\<lambda>x. fst x \<le> t - ?S) (rb_entries r))) = sum_list (map snd ?kept)"
    using sum_split [of "\<lambda>x. t - ?S < fst x" "rb_entries r"] unfolding thr(3) kept by (simp add: not_less)
  ultimately have expired: "expire_entries (t - ?S) (rb_entries r) (rb_total r) = (?kept, sum_list (map snd ?kept))"
    using expire_sorted by simp
  have "?kept = filter (\<lambda>(u, m). t - ?S < u \<and> u \<le> t) es"
    by (rule filter_cong [OF refl]) (use es(2) t in \<open>auto simp: list_all_iff\<close>)
  then have inside: "sum_list (map snd ?kept) = admitted_in (t - ?S) t es" unfolding admitted_in_def by simp
  let ?d = "if sum_list (map snd ?kept) + n > rb_maximum r then RateLimited else Admitted"
  let ?r = "if ?d = Admitted then r\<lparr>rb_entries := ?kept @ [(t, n)], rb_total := sum_list (map snd ?kept) + n\<rparr>
    else r\<lparr>rb_entries := ?kept, rb_total := sum_list (map snd ?kept)\<rparr>"
  have "rolling_admit n t r = Inr (?d, ?r)" using n expired by (simp add: rolling_admit_def)
  moreover have "(if ?d = Admitted then es @ [(t, n)] else es) = greedy ?S (rb_maximum r) es (t, n)"
    by (auto simp: greedy_def inside)
  moreover have "rolling_ok ?r (if ?d = Admitted then es @ [(t, n)] else es) t"
  proof -
    have all: "list_all (\<lambda>x. fst x \<le> t) es" "list_all (\<lambda>x. 0 \<le> snd x) es" "sorted (map fst es)"
      using es t by (auto simp: list_all_iff in_time_def)
    have pos: "1 \<le> rb_seconds r" using ok by (simp add: rolling_ok_def)
    then have "0 < ?S" by (simp add: timedelta_seconds_def second_def)
    then show ?thesis using all n pos
      by (intro rolling_okI) (auto simp: in_time_def sorted_append list_all_iff)
  qed
  ultimately show ?thesis by (intro exI [of _ ?d] exI [of _ ?r]) auto
qed

lemma rolling_run_greedy:
  assumes "rolling_ok r es now" and "sorted (map fst xs)" and "list_all (\<lambda>x. now \<le> fst x \<and> 0 \<le> snd x) xs"
  shows "\<exists>ys. rolling_run r xs = Inr ys \<and> es @ ys = foldl (greedy (timedelta_seconds (rb_seconds r)) (rb_maximum r)) es xs"
  using assms
proof (induction xs arbitrary: r es now)
  case (Cons x xs)
  obtain t n where x: "x = (t, n)" by (cases x)
  have tn: "now \<le> t" "0 \<le> n" using Cons.prems(3) by (simp_all add: x)
  obtain d r' where step: "rolling_admit n t r = Inr (d, r')" "rb_maximum r' = rb_maximum r" "rb_seconds r' = rb_seconds r"
      "(if d = Admitted then es @ [(t, n)] else es) = greedy (timedelta_seconds (rb_seconds r)) (rb_maximum r) es (t, n)"
      "rolling_ok r' (if d = Admitted then es @ [(t, n)] else es) t"
    using rolling_step [OF Cons.prems(1) tn] by blast
  have "list_all (\<lambda>x. t \<le> fst x \<and> 0 \<le> snd x) xs" using Cons.prems(2,3) by (auto simp: x list_all_iff)
  then obtain ys where ys: "rolling_run r' xs = Inr ys"
      "(if d = Admitted then es @ [(t, n)] else es) @ ys =
        foldl (greedy (timedelta_seconds (rb_seconds r)) (rb_maximum r)) (if d = Admitted then es @ [(t, n)] else es) xs"
    using Cons.IH [OF step(5)] Cons.prems(2) step(2,3) by auto
  have "rolling_run r (x # xs) = Inr (if d = Admitted then (t, n) # ys else ys)" using step(1) ys(1) by (simp add: x)
  moreover have "es @ (if d = Admitted then (t, n) # ys else ys) =
      foldl (greedy (timedelta_seconds (rb_seconds r)) (rb_maximum r)) es (x # xs)"
    using ys(2) by (simp add: x step(4) [symmetric] split: if_splits)
  ultimately show ?case by blast
qed simp

lemma greedy_in_time:
  "in_time es \<Longrightarrow> list_all (\<lambda>x. fst x \<le> t) es \<Longrightarrow> 0 \<le> n \<Longrightarrow> in_time (greedy span maximum es (t, n))"
  by (auto simp: greedy_def in_time_def sorted_append list_all_iff)

text \<open>No window of the span holds more than the maximum: the one that ends with its last admission holds as much.\<close>

lemma greedy_bounded:
  assumes "sorted (map fst xs)" and "list_all (\<lambda>x. 0 \<le> snd x) xs" and "0 \<le> maximum"
  shows "in_time (foldl (greedy span maximum) [] xs) \<and> set (foldl (greedy span maximum) [] xs) \<subseteq> set xs \<and>
    (\<forall>a b. b - a \<le> span \<longrightarrow> admitted_in a b (foldl (greedy span maximum) [] xs) \<le> maximum)"
  using assms
proof (induction xs rule: rev_induct)
  case (snoc x xs)
  obtain t n where x: "x = (t, n)" by (cases x)
  let ?es = "foldl (greedy span maximum) [] xs"
  have IH: "in_time ?es" "set ?es \<subseteq> set xs" "\<And>a b. b - a \<le> span \<Longrightarrow> admitted_in a b ?es \<le> maximum"
    using snoc by (auto simp: sorted_append)
  have le: "list_all (\<lambda>x. fst x \<le> t) ?es" and n: "0 \<le> n"
    using snoc.prems(1,2) IH(2) by (auto simp: sorted_append x list_all_iff)
  have "admitted_in a b (?es @ [(t, n)]) \<le> maximum"
    if room: "admitted_in (t - span) t ?es + n \<le> maximum" and ab: "b - a \<le> span" for a b
  proof (cases "a < t \<and> t \<le> b")
    case True
    have "admitted_in a b ?es \<le> admitted_in (t - span) t ?es"
      by (rule admitted_mono) (use IH(1) le True ab in \<open>auto simp: in_time_def list_all_iff\<close>)
    then show ?thesis using room True by (simp add: admitted_append admitted_single)
  next
    case False
    then show ?thesis using IH(3) [OF ab] by (auto simp: admitted_append admitted_single)
  qed
  moreover have step: "foldl (greedy span maximum) [] (xs @ [x]) =
      (if admitted_in (t - span) t ?es + n \<le> maximum then ?es @ [(t, n)] else ?es)"
    using greedy_def [of span maximum ?es x] by (simp add: x)
  moreover have "in_time (foldl (greedy span maximum) [] (xs @ [x]))"
    using greedy_in_time [OF IH(1) le n, of span maximum] by (simp add: x)
  ultimately show ?case using IH unfolding step by (auto simp: x)
qed (simp add: in_time_def admitted_in_def)

text \<open>
  C33. The console's rate limit holds over every window. A rolling counter that sees requests in the order of their
  times admits exactly those for which the bytes already admitted in the window that ends with the request leave room,
  whatever its queue has dropped before, and so over every interval of the window's length, wherever it starts, it admits at most its
  maximum.
\<close>

theorem console_rate_bounded:
  assumes "new_rolling maximum seconds = Inr r" and "sorted (map fst xs)" and "list_all (\<lambda>x. 0 \<le> snd x) xs"
  shows "\<exists>ys. rolling_run r xs = Inr ys \<and> ys = foldl (greedy (timedelta_seconds seconds) maximum) [] xs \<and> set ys \<subseteq> set xs \<and>
    (\<forall>a b. b - a \<le> timedelta_seconds seconds \<longrightarrow> admitted_in a b ys \<le> maximum)"
proof -
  have r: "1 \<le> maximum" "1 \<le> seconds" "rb_maximum r = maximum" "rb_seconds r = seconds" "rb_entries r = []" "rb_total r = 0"
    using assms(1) by (auto simp: new_rolling_def split: if_splits)
  show ?thesis
  proof (cases xs)
    case Nil
    then show ?thesis using r(1) by (simp add: admitted_in_def)
  next
    case (Cons x xs')
    have "rolling_ok r [] (fst x)" using r by (auto simp: rolling_ok_def in_time_def)
    moreover have "list_all (\<lambda>y. fst x \<le> fst y \<and> 0 \<le> snd y) xs" using assms(2,3) by (auto simp: Cons list_all_iff)
    ultimately obtain ys where "rolling_run r xs = Inr ys" "ys = foldl (greedy (timedelta_seconds seconds) maximum) [] xs"
      using rolling_run_greedy [of r "[]" "fst x" xs] assms(2) r(3,4) by auto
    then show ?thesis using greedy_bounded [OF assms(2,3), of maximum "timedelta_seconds seconds"] r(1) by auto
  qed
qed

lemma console_rate_bounded_witness:
  "\<exists>ys. rolling_run \<lparr>rb_maximum = 10, rb_seconds = 1, rb_entries = [], rb_total = 0\<rparr> [(0, 6), (0, 6), (second, 6)] = Inr ys \<and>
    ys = foldl (greedy (timedelta_seconds 1) 10) [] [(0, 6), (0, 6), (second, 6)]"
proof -
  have "new_rolling 10 1 = Inr \<lparr>rb_maximum = 10, rb_seconds = 1, rb_entries = [], rb_total = 0\<rparr>" by (simp add: new_rolling_def)
  then show ?thesis using console_rate_bounded [of 10 1 _ "[(0, 6), (0, 6), (second, 6)]"] by (fastforce simp: second_def)
qed

section \<open>Output chunks\<close>

text \<open>Every chunk decodes by itself to at most the decoded chunk size, and the decoded chunks in order are the payload.\<close>

lemma split_chunks_concat: "0 < n \<Longrightarrow> concat (split_chunks n s) = s \<and> list_all (\<lambda>c. length c \<le> n \<and> c \<noteq> []) (split_chunks n s)"
proof (induction n s rule: split_chunks.induct)
  case (1 n s)
  then show ?case by (subst (1 2) split_chunks.simps) auto
qed

lemma console_chunks_decode:
  "encode_console_chunks payload n = Inr cs \<Longrightarrow>
   \<exists>ds. map b64decode cs = map Some ds \<and> concat ds = payload \<and> list_all (\<lambda>d. int (length d) \<le> n) ds"
  using split_chunks_concat [of "nat n" payload]
  by (intro exI [of _ "split_chunks (nat n) payload"]) (auto simp: encode_console_chunks_def b64_round_trip list_all_iff split: if_splits)

end
