(* ===== verification/Uuid5.thy ===== *)
theory Uuid5
  imports Sha256 PyTime
begin

text \<open>
  \<open>uuid.uuid5\<close> of the standard library: the first sixteen bytes of SHA-1 over the namespace and the name, with the
  version and variant bits set. SHA-1 is on 32-bit words, with the padding of SHA-256.
\<close>

type_synonym sha1_state = "32 word \<times> 32 word \<times> 32 word \<times> 32 word \<times> 32 word"

definition sha1_init :: sha1_state where
  "sha1_init = (0x67452301, 0xEFCDAB89, 0x98BADCFE, 0x10325476, 0xC3D2E1F0)"

definition sha1_extend :: "32 word list \<Rightarrow> 32 word list" where
  "sha1_extend ws =
     (let t = length ws
      in ws @ [word_rotl 1 (ws ! (t - 3) XOR ws ! (t - 8) XOR ws ! (t - 14) XOR ws ! (t - 16))])"

definition sha1_mix :: "nat \<Rightarrow> 32 word \<Rightarrow> 32 word \<Rightarrow> 32 word \<Rightarrow> 32 word" where
  "sha1_mix t b c d =
     (if t < 20 then ((b AND c) OR (NOT b AND d)) + 0x5A827999
      else if t < 40 then (b XOR c XOR d) + 0x6ED9EBA1
      else if t < 60 then ((b AND c) OR (b AND d) OR (c AND d)) + 0x8F1BBCDC
      else (b XOR c XOR d) + 0xCA62C1D6)"

definition sha1_round :: "sha1_state \<Rightarrow> nat \<times> 32 word \<Rightarrow> sha1_state" where
  "sha1_round s tw =
     (case (s, tw) of ((a, b, c, d, e), (t, w)) \<Rightarrow>
        (word_rotl 5 a + sha1_mix t b c d + e + w, a, word_rotl 30 b, c, d))"

definition sha1_block :: "sha1_state \<Rightarrow> 8 word list \<Rightarrow> sha1_state" where
  "sha1_block s bs =
     (let ws = (sha1_extend ^^ 64) (map word_of_bytes (chunks 4 bs)) in
      case (s, foldl sha1_round s (zip [0..<80] ws)) of
        ((a, b, c, d, e), (a', b', c', d', e')) \<Rightarrow> (a + a', b + b', c + c', d + d', e + e'))"

definition sha1_digest :: "8 word list \<Rightarrow> 32 word list" where
  "sha1_digest bs =
     (case foldl sha1_block sha1_init (chunks 64 (sha_pad bs)) of (a, b, c, d, e) \<Rightarrow> [a, b, c, d, e])"

definition uuid5 :: "uuid \<Rightarrow> string \<Rightarrow> uuid" where
  "uuid5 namespace name =
     (let n = foldl (\<lambda>u w. push_bit 32 u OR ucast w) (0 :: uuid)
            (take 4 (sha1_digest (big_endian 16 (unat namespace) @ utf8_bytes name)));
          n = (n AND NOT (push_bit 48 0xC000)) OR push_bit 48 0x8000
      in (n AND NOT (push_bit 64 0xF000)) OR push_bit 76 5)"

definition namespace_url :: uuid where
  "namespace_url = 0x6ba7b8119dad11d180b400c04fd430c8"

end
