(* ===== verification/RecordIntegrity.thy ===== *)
theory RecordIntegrity
  imports WorkCommands Uuid5
begin

text \<open>
  \<open>record/_integrity.py\<close> and \<open>record/recovery.py\<close>: the canonical digests of anchors, inventories, installations and
  backups, the rules for expected sources, and the evaluation of an isolated restore. Values that pydantic admits by their
  declared types (strings, integers, aware datetimes, closed vocabularies) are the model's types; its patterns and
  validators are the \<open>_checked\<close> functions. A duration is an exact number of microseconds: \<open>int(total_seconds())\<close> is its
  truncation for every duration below 285 years, where the float is exact enough.
\<close>

section \<open>Digests\<close>

text \<open>\<open>canonical_digest\<close>: \<open>_canonical\<close> sorts the members of every object and keeps the rest, as \<open>json_dumps\<close> does.\<close>

definition integrity_digest :: "json \<Rightarrow> string" where
  "integrity_digest v = ''sha256:'' @ sha256_hex (json_dumps v)"

definition canonical_timestamp :: "datetime \<Rightarrow> string" where
  "canonical_timestamp t = take (length (isoformat t) - 6) (isoformat t) @ ''Z''"

definition json_digest :: "string option \<Rightarrow> json" where
  "json_digest d = (case d of None \<Rightarrow> JNull | Some s \<Rightarrow> JStr s)"

definition stable_reference :: "string \<Rightarrow> bool" where
  "stable_reference s \<longleftrightarrow>
     (case s of [] \<Rightarrow> False | c # cs \<Rightarrow> is_lower c \<and> 2 \<le> length cs \<and> length cs \<le> 255 \<and>
        list_all (\<lambda>c. key_char c \<or> c = CHR '':'' \<or> c = CHR ''/'') cs)"

definition anchor_payload :: "string option \<Rightarrow> (int \<times> string) list \<Rightarrow> json" where
  "anchor_payload previous entries = JObj
     [(''previous_anchor_sha256'', json_digest previous),
      (''entries'', JList (map (\<lambda>(p, root). JObj [(''acceptance_position'', JInt p), (''command_root'', JStr root)]) entries))]"

definition anchor_digest :: "string option \<Rightarrow> (int \<times> string) list \<Rightarrow> string py" where
  "anchor_digest previous entries =
     (if entries = [] then Inl (ValueError ''anchor requires at least one accepted command'')
      else if map fst entries \<noteq> [fst (hd entries)..fst (last entries)]
      then Inl (ValueError ''anchor positions must be contiguous and ordered'')
      else if \<exists>(p, root) \<in> set entries. p < 1 \<or> \<not> sha256_reference root
      then Inl (ValueError ''anchor entry identity is malformed'')
      else if (case previous of None \<Rightarrow> False | Some d \<Rightarrow> \<not> sha256_reference d)
      then Inl (ValueError ''previous anchor digest is malformed'')
      else Inr (integrity_digest (anchor_payload previous entries)))"

section \<open>Signed receipts\<close>

datatype verification_reason = VerifiedSignature | InvalidSignature | KeyUnavailable | WrongKeyReference

record verification =
  sv_digest :: string
  sv_signature :: string
  sv_key_ref :: string
  sv_key_version :: string
  sv_public_key :: string
  sv_signed :: datetime
  sv_verified :: bool
  sv_verified_at :: datetime
  sv_reason :: verification_reason

definition verification_checked :: "verification \<Rightarrow> verification py" where
  "verification_checked v =
     (if \<not> (sha256_reference (sv_digest v) \<and> sha256_reference (sv_public_key v) \<and> stable_reference (sv_key_ref v))
      then Inl (ValueError ''pattern'')
      else if sv_verified v \<noteq> (sv_reason v = VerifiedSignature)
      then Inl (ValueError ''signature verification result and reason disagree'')
      else if sv_verified_at v < sv_signed v then Inl (ValueError ''signature verification predates the signature'')
      else Inr v)"

text \<open>The six fields of a signed receipt that a verification is bound to.\<close>

record signed_receipt =
  sg_digest :: string
  sg_signature :: string
  sg_key_ref :: string
  sg_key_version :: string
  sg_public_key :: string
  sg_at :: datetime

definition require_signature_binding :: "verification \<Rightarrow> signed_receipt \<Rightarrow> unit py" where
  "require_signature_binding v r =
     raise_if (sv_digest v \<noteq> sg_digest r \<or> sv_signature v \<noteq> sg_signature r \<or> sv_key_ref v \<noteq> sg_key_ref r \<or>
         sv_key_version v \<noteq> sg_key_version r \<or> sv_public_key v \<noteq> sg_public_key r \<or> sv_signed v \<noteq> sg_at r)
       (ValueError ''signature verification is not bound to the recovery receipt'')"

record anchor_record =
  an_id :: uuid
  an_tenant :: uuid
  an_start :: int
  an_end :: int
  an_previous :: "string option"
  an_sha :: string
  an_signature :: string
  an_key_ref :: string
  an_key_version :: string
  an_public_key :: string
  an_object_key :: string
  an_object_version :: string
  an_at :: datetime

definition anchor_checked :: "anchor_record \<Rightarrow> anchor_record py" where
  "anchor_checked a =
     (if sha256_reference (an_sha a) \<and> sha256_reference (an_public_key a) \<and> stable_reference (an_key_ref a) \<and>
         (case an_previous a of None \<Rightarrow> True | Some d \<Rightarrow> sha256_reference d)
      then Inr a else Inl (ValueError ''pattern''))"

record installation =
  in_id :: uuid
  in_tenant :: uuid
  in_ref :: string
  in_signature :: string
  in_key_ref :: string
  in_key_version :: string
  in_public_key :: string
  in_issued :: datetime

definition installation_digest :: "installation \<Rightarrow> string" where
  "installation_digest i = integrity_digest (JObj
     [(''schema_id'', JStr ''ctower.installation-identity/v1''), (''installation_id'', JStr (uuid_str (in_id i))),
      (''tenant_id'', JStr (uuid_str (in_tenant i))), (''identity_ref'', JStr (in_ref i)),
      (''issued_at'', JStr (canonical_timestamp (in_issued i)))])"

definition installation_checked :: "installation \<Rightarrow> installation py" where
  "installation_checked i =
     (if stable_reference (in_ref i) \<and> stable_reference (in_key_ref i) \<and> sha256_reference (in_public_key i)
      then Inr i else Inl (ValueError ''pattern''))"

record backup_manifest =
  bk_id :: uuid
  bk_tenant :: uuid
  bk_repository :: string
  bk_object_version :: string
  bk_base :: string
  bk_wal_start :: string
  bk_wal_stop :: string
  bk_dump :: string
  bk_objects :: string
  bk_migrations :: string
  bk_key_ref :: string
  bk_key_version :: string
  bk_pgbackrest :: string
  bk_pg_dump :: string
  bk_started :: datetime
  bk_completed :: datetime

definition backup_payload :: "backup_manifest \<Rightarrow> json" where
  "backup_payload b = JObj
     [(''schema_id'', JStr ''ctower.backup-manifest/v1''), (''backup_id'', JStr (uuid_str (bk_id b))),
      (''tenant_id'', JStr (uuid_str (bk_tenant b))), (''repository_ref'', JStr (bk_repository b)),
      (''repository_object_version'', JStr (bk_object_version b)), (''base_backup_sha256'', JStr (bk_base b)),
      (''wal_start_lsn'', JStr (bk_wal_start b)), (''wal_stop_lsn'', JStr (bk_wal_stop b)),
      (''logical_dump_sha256'', JStr (bk_dump b)), (''object_manifest_sha256'', JStr (bk_objects b)),
      (''migration_manifest_sha256'', JStr (bk_migrations b)), (''key_reference'', JStr (bk_key_ref b)),
      (''key_version'', JStr (bk_key_version b)), (''pgbackrest_sha256'', JStr (bk_pgbackrest b)),
      (''pg_dump_sha256'', JStr (bk_pg_dump b)), (''started_at'', JStr (canonical_timestamp (bk_started b))),
      (''completed_at'', JStr (canonical_timestamp (bk_completed b)))]"

definition backup_manifest_digest :: "backup_manifest \<Rightarrow> string" where
  "backup_manifest_digest b = integrity_digest (backup_payload b)"

definition backup_checked :: "backup_manifest \<Rightarrow> backup_manifest py" where
  "backup_checked b =
     (if \<not> (stable_reference (bk_repository b) \<and> stable_reference (bk_key_ref b) \<and>
         list_all sha256_reference [bk_base b, bk_dump b, bk_objects b, bk_migrations b, bk_pgbackrest b, bk_pg_dump b])
      then Inl (ValueError ''pattern'')
      else if bk_completed b < bk_started b then Inl (ValueError ''backup completion predates its start'')
      else Inr b)"

definition backup_receipt_id :: "backup_manifest \<Rightarrow> uuid" where
  "backup_receipt_id b = uuid5 namespace_url (''ctower.backup-verification-receipt/v1:'' @ backup_manifest_digest b)"

section \<open>Expected sources\<close>

datatype source_kind = RootSupervisorJournal | EffectJournal | ProviderJournal
datatype activation = NotExercised | ActiveSource
datatype cursor_declaration = ZeroSource | TrustedCursor

definition kind_value :: "source_kind \<Rightarrow> string" where
  "kind_value k = (case k of RootSupervisorJournal \<Rightarrow> ''root_supervisor_journal'' | EffectJournal \<Rightarrow> ''effect_journal''
      | ProviderJournal \<Rightarrow> ''provider_journal'')"

definition activation_value :: "activation \<Rightarrow> string" where
  "activation_value a = (case a of NotExercised \<Rightarrow> ''not_exercised'' | ActiveSource \<Rightarrow> ''active'')"

definition cursor_value :: "cursor_declaration \<Rightarrow> string" where
  "cursor_value c = (case c of ZeroSource \<Rightarrow> ''zero_source'' | TrustedCursor \<Rightarrow> ''trusted_cursor'')"

record expected_source =
  es_source :: string
  es_kind :: source_kind
  es_activation :: activation
  es_cursor :: cursor_declaration
  es_count :: int
  es_trust_root :: "string option"
  es_trusted :: "string option"
  es_event :: "string option"

definition i1_sources :: "(string \<times> source_kind) list" where
  "i1_sources =
     [(''ctower.root-supervisor.default'', RootSupervisorJournal), (''ctower.effect.default'', EffectJournal),
      (''ctower.provider.default'', ProviderJournal)]"

definition nonempty_text :: "string option \<Rightarrow> bool" where
  "nonempty_text s \<longleftrightarrow> s \<noteq> None \<and> s \<noteq> Some []"

definition inactive_source_failures :: "string \<Rightarrow> expected_source \<Rightarrow> string list" where
  "inactive_source_failures key s =
     (if es_cursor s = ZeroSource \<and> es_count s = 0 \<and> es_trust_root s = None \<and> es_trusted s = None \<and> es_event s = None
      then [] else [''inventory-zero-source-invalid:'' @ key])"

definition active_source_failures :: "string \<Rightarrow> expected_source \<Rightarrow> string set \<Rightarrow> string list" where
  "active_source_failures key s reconciled =
     (if es_cursor s = TrustedCursor \<and> es_count s > 0 \<and> nonempty_text (es_trust_root s) \<and> nonempty_text (es_trusted s) \<and>
         nonempty_text (es_event s)
      then [] else [''inventory-active-source-invalid:'' @ key]) @
     (if key \<notin> reconciled then [''inventory-active-source-unreconciled:'' @ key] else [])"

definition source_failures :: "string \<Rightarrow> expected_source \<Rightarrow> string set \<Rightarrow> string list" where
  "source_failures key s reconciled =
     (case es_activation s of
        NotExercised \<Rightarrow> inactive_source_failures key s
      | ActiveSource \<Rightarrow> active_source_failures key s reconciled)"

text \<open>The first loop: the sources by key, the first of each key, with a failure for every other.\<close>

fun sources_by_key :: "expected_source list \<Rightarrow> (string \<times> expected_source) list \<Rightarrow> (string \<times> expected_source) list \<times> string list" where
  "sources_by_key [] by_key = (by_key, [])"
| "sources_by_key (s # ss) by_key =
     (if map_of by_key (es_source s) \<noteq> None
      then (let (by_key, fs) = sources_by_key ss by_key in (by_key, ''inventory-source-key-duplicate-or-malformed'' # fs))
      else sources_by_key ss (by_key @ [(es_source s, s)]))"

definition inventory_failures :: "expected_source list \<Rightarrow> string set \<Rightarrow> string list" where
  "inventory_failures sources reconciled =
     (let (by_key, failures) = sources_by_key sources [] in
      failures @
      (if fst ` set by_key \<noteq> fst ` set i1_sources then [''inventory-source-set-incomplete''] else []) @
      concat (map (\<lambda>(key, kind). case map_of by_key key of
          None \<Rightarrow> []
        | Some s \<Rightarrow>
            (if es_kind s \<noteq> kind then [''inventory-source-kind-mismatch:'' @ key] else []) @ source_failures key s reconciled)
        i1_sources))"

record inventory_revision =
  iv_id :: uuid
  iv_tenant :: uuid
  iv_number :: int
  iv_previous :: "string option"
  iv_sha :: string
  iv_signature :: string
  iv_key_ref :: string
  iv_key_version :: string
  iv_public_key :: string
  iv_object_key :: string
  iv_object_version :: string
  iv_created :: datetime
  iv_sources :: "expected_source list"

definition source_payload :: "expected_source \<Rightarrow> json" where
  "source_payload s = JObj
     [(''source_key'', JStr (es_source s)), (''source_kind'', JStr (kind_value (es_kind s))),
      (''activation'', JStr (activation_value (es_activation s))), (''cursor_declaration'', JStr (cursor_value (es_cursor s))),
      (''source_count'', JInt (es_count s)), (''trust_root_ref'', json_digest (es_trust_root s)),
      (''trusted_cursor'', json_digest (es_trusted s)), (''activation_event_ref'', json_digest (es_event s))]"

text \<open>The members of a dumped revision that \<open>inventory_digest\<close> keeps.\<close>

definition inventory_payload :: "inventory_revision \<Rightarrow> json" where
  "inventory_payload v = JObj
     [(''schema_id'', JStr ''ctower.expected-source-inventory/v1''), (''inventory_revision_id'', JStr (uuid_str (iv_id v))),
      (''tenant_id'', JStr (uuid_str (iv_tenant v))), (''revision_number'', JInt (iv_number v)),
      (''previous_revision_sha256'', json_digest (iv_previous v)), (''signing_key_reference'', JStr (iv_key_ref v)),
      (''signing_key_version'', JStr (iv_key_version v)), (''public_key_sha256'', JStr (iv_public_key v)),
      (''created_at'', JStr (canonical_timestamp (iv_created v))), (''sources'', JList (map source_payload (iv_sources v)))]"

definition inventory_digest :: "inventory_revision \<Rightarrow> string" where
  "inventory_digest v = integrity_digest (inventory_payload v)"

definition inventory_checked :: "inventory_revision \<Rightarrow> inventory_revision py" where
  "inventory_checked v =
     (if \<not> (sha256_reference (iv_sha v) \<and> sha256_reference (iv_public_key v) \<and> stable_reference (iv_key_ref v) \<and>
         (case iv_previous v of None \<Rightarrow> True | Some d \<Rightarrow> sha256_reference d) \<and>
         list_all (\<lambda>s. list_all (\<lambda>r. case r of None \<Rightarrow> True | Some r \<Rightarrow> stable_reference r) [es_trust_root s, es_event s]) (iv_sources v))
      then Inl (ValueError ''pattern'')
      else if inventory_digest v \<noteq> iv_sha v then Inl (ValueError ''inventory revision digest mismatch'')
      else Inr v)"

section \<open>Isolated restores\<close>

datatype restore_step =
    DatabaseRecovered | ObjectAccessRecovered | KeyAccessRecovered | ErasureReapplied | MigrationsVerified | ChainsVerified
  | AnchorsVerified | ObjectsVerified | TombstonesVerified | InventoryVerified | JournalsReconciled | SyntheticVerified

definition restore_order :: "restore_step list" where
  "restore_order =
     [DatabaseRecovered, ObjectAccessRecovered, KeyAccessRecovered, ErasureReapplied, MigrationsVerified, ChainsVerified,
      AnchorsVerified, ObjectsVerified, TombstonesVerified, InventoryVerified, JournalsReconciled, SyntheticVerified]"

definition step_value :: "restore_step \<Rightarrow> string" where
  "step_value k =
     (case k of DatabaseRecovered \<Rightarrow> ''database_recovered'' | ObjectAccessRecovered \<Rightarrow> ''object_access_recovered''
      | KeyAccessRecovered \<Rightarrow> ''key_access_recovered'' | ErasureReapplied \<Rightarrow> ''erasure_reapplied''
      | MigrationsVerified \<Rightarrow> ''migrations_verified'' | ChainsVerified \<Rightarrow> ''chains_verified''
      | AnchorsVerified \<Rightarrow> ''anchors_verified'' | ObjectsVerified \<Rightarrow> ''objects_verified''
      | TombstonesVerified \<Rightarrow> ''tombstones_verified'' | InventoryVerified \<Rightarrow> ''inventory_verified''
      | JournalsReconciled \<Rightarrow> ''journals_reconciled'' | SyntheticVerified \<Rightarrow> ''synthetic_verified'')"

record restore_check =
  rk_kind :: restore_step
  rk_pass :: bool
  rk_evidence :: string
  rk_detail :: string

record restore_finding =
  rf_key :: string
  rf_critical :: bool
  rf_reason :: string
  rf_evidence :: string
  rf_resolved :: bool

record restore_report =
  rr_run :: uuid
  rr_tenant :: uuid
  rr_installation :: uuid
  rr_backup :: uuid
  rr_inventory :: string
  rr_accepted :: int
  rr_restored :: int
  rr_accepted_rpo :: int
  rr_artifact_rpo :: int
  rr_rto :: int
  rr_started :: datetime
  rr_completed :: datetime
  rr_steps :: "restore_check list"
  rr_findings :: "restore_finding list"
  rr_eligible :: bool

definition max_artifact_rpo :: int where
  "max_artifact_rpo = 300"

definition max_restore_rto :: int where
  "max_restore_rto = 14400"

text \<open>\<open>int(delta.total_seconds())\<close>: toward zero.\<close>

definition whole_seconds :: "int \<Rightarrow> int" where
  "whole_seconds delta = (if 0 \<le> delta then delta div second else - (- delta div second))"

definition validate_restore_order :: "restore_check list \<Rightarrow> unit py" where
  "validate_restore_order checks =
     raise_if (map rk_kind checks \<noteq> restore_order) (ValueError ''restore checks must be complete and strictly ordered'')"

definition validate_restore_metrics :: "restore_report \<Rightarrow> (int \<times> int) py" where
  "validate_restore_metrics r =
     (if rr_accepted r < 0 \<or> rr_restored r < 0 then Inl (ValueError ''restore positions must be nonnegative'')
      else if rr_restored r > rr_accepted r then Inl (ValueError ''restored position cannot exceed accepted source position'')
      else let accepted_rpo = rr_accepted r - rr_restored r in
        if rr_accepted_rpo r \<noteq> accepted_rpo then Inl (ValueError ''accepted RPO must be derived from persisted positions'')
        else let measured = whole_seconds (rr_completed r - rr_started r) in
          if measured < 0 \<or> rr_rto r \<noteq> measured then Inl (ValueError ''restore RTO must be derived from report timestamps'')
          else if rr_artifact_rpo r < 0 then Inl (ValueError ''artifact RPO must be nonnegative'')
          else Inr (accepted_rpo, measured))"

definition restore_is_eligible :: "restore_report \<Rightarrow> int \<Rightarrow> int \<Rightarrow> bool" where
  "restore_is_eligible r accepted_rpo measured \<longleftrightarrow>
     (accepted_rpo = 0 \<and> rr_artifact_rpo r \<le> max_artifact_rpo \<and> measured \<le> max_restore_rto) \<and>
     list_all rk_pass (rr_steps r) \<and> rr_findings r = []"

definition report_checked :: "restore_report \<Rightarrow> restore_report py" where
  "report_checked r =
     (if \<not> (sha256_reference (rr_inventory r) \<and> list_all (sha256_reference \<circ> rk_evidence) (rr_steps r) \<and>
         list_all (sha256_reference \<circ> rf_evidence) (rr_findings r))
      then Inl (ValueError ''pattern'')
      else bindE (validate_restore_order (rr_steps r)) (\<lambda>_. bindE (validate_restore_metrics r) (\<lambda>(accepted_rpo, measured).
        if rr_eligible r \<noteq> restore_is_eligible r accepted_rpo measured
        then Inl (ValueError ''restore eligibility must be derived from report evidence'')
        else Inr r)))"

definition restore_finding_of :: "nat \<Rightarrow> string \<Rightarrow> restore_finding" where
  "restore_finding_of i failure =
     \<lparr>rf_key = ''restore.'' @ pad_left 2 (str_nat i) @ ''.'' @ failure, rf_critical = True, rf_reason = failure,
      rf_evidence = ''sha256:'' @ replicate 64 (CHR ''0''), rf_resolved = False\<rparr>"

definition inventory_receipt :: "inventory_revision \<Rightarrow> signed_receipt" where
  "inventory_receipt v =
     \<lparr>sg_digest = iv_sha v, sg_signature = iv_signature v, sg_key_ref = iv_key_ref v, sg_key_version = iv_key_version v,
      sg_public_key = iv_public_key v, sg_at = iv_created v\<rparr>"

definition require_inventory_verification :: "inventory_revision \<Rightarrow> verification \<Rightarrow> unit py" where
  "require_inventory_verification v s =
     (if inventory_digest v \<noteq> iv_sha v then Inl (ValueError ''inventory revision digest does not bind its signed contents'')
      else require_signature_binding s (inventory_receipt v))"

text \<open>What the caller states of a restore: its identifiers, positions, times and the outcome of every step.\<close>

record restore_facts =
  fa_run :: uuid
  fa_tenant :: uuid
  fa_installation :: uuid
  fa_backup :: uuid
  fa_reconciled :: "string set"
  fa_accepted :: int
  fa_restored :: int
  fa_artifact_rpo :: int
  fa_started :: datetime
  fa_completed :: datetime
  fa_checks :: "restore_check list"

definition restore_failures :: "inventory_revision \<Rightarrow> verification \<Rightarrow> restore_facts \<Rightarrow> string list" where
  "restore_failures v s f =
     inventory_failures (iv_sources v) (fa_reconciled f) @
     (if \<not> sv_verified s then [''inventory-signature-invalid''] else []) @
     (if fa_restored f \<noteq> fa_accepted f then [''accepted-record-rpo-nonzero''] else []) @
     (if fa_artifact_rpo f > max_artifact_rpo then [''artifact-rpo-exceeded''] else []) @
     (if \<exists>c \<in> set (fa_checks f). \<not> rk_pass c then [''restore-step-failed''] else [])"

definition evaluate_restore :: "inventory_revision \<Rightarrow> verification \<Rightarrow> restore_facts \<Rightarrow> restore_report py" where
  "evaluate_restore v s f =
     bindE (validate_restore_order (fa_checks f)) (\<lambda>_. bindE (require_inventory_verification v s) (\<lambda>_.
       let rto = whole_seconds (fa_completed f - fa_started f) in
       if rto < 0 then Inl (ValueError ''restore completion cannot predate its start'')
       else if fa_restored f > fa_accepted f then Inl (ValueError ''restored position cannot exceed accepted source position'')
       else let failures = restore_failures v s f @ (if rto > max_restore_rto then [''restore-rto-exceeded''] else []);
            findings = map (\<lambda>(i, failure). restore_finding_of i failure) (enumerate 1 failures) in
         report_checked
           \<lparr>rr_run = fa_run f, rr_tenant = fa_tenant f, rr_installation = fa_installation f, rr_backup = fa_backup f,
            rr_inventory = iv_sha v, rr_accepted = fa_accepted f, rr_restored = fa_restored f,
            rr_accepted_rpo = fa_accepted f - fa_restored f, rr_artifact_rpo = fa_artifact_rpo f, rr_rto = rto,
            rr_started = fa_started f, rr_completed = fa_completed f, rr_steps = fa_checks f, rr_findings = findings,
            rr_eligible = (findings = [])\<rparr>))"

end
