(* ===== verification/RecordRecovery.thy ===== *)
theory RecordRecovery
  imports RecordIntegrity Machine
begin

text \<open>
  \<open>record/_recovery_sql.py\<close>, \<open>_recovery_replay.py\<close> and \<open>postgres_recovery.py\<close>: the recovery evidence kept in tables, one
  transaction per operation. A \<open>recovery_db\<close> holds the tables the statements read and write. A statement that breaks a
  CHECK, a uniqueness or a foreign key of migrations 0021 and 0022 is a \<open>DatabaseError\<close>; any error
  leaves the tables as they were, since the connection's context rolls back. A stored digest is the text of its bytes,
  \<open>sha256:\<close> and 64 lower-case digits. The numbers are
  unbounded, where an \<open>integer\<close> column raises past 31 bits, as a restore of 68 years would. Roles and locks are not
  modelled: the operations are sequential.
\<close>

section \<open>Tables\<close>

datatype recovery_error = PyError py_exc | ReplayConflict string | DatabaseError

datatype run_status = Quarantined | FailedRun | EnabledRun

record restore_run =
  ru_id :: uuid
  ru_tenant :: uuid
  ru_installation :: uuid
  ru_backup :: uuid
  ru_inventory :: uuid
  ru_status :: run_status
  ru_accepted :: int
  ru_restored :: int
  ru_accepted_rpo :: int
  ru_artifact_rpo :: int
  ru_started :: datetime
  ru_completed :: "datetime option"
  ru_rto :: "int option"
  ru_report :: "string option"

record step_row =
  st_run :: uuid
  st_tenant :: uuid
  st_sequence :: nat
  st_check :: restore_check
  st_at :: datetime

record finding_row =
  fd_id :: uuid
  fd_run :: uuid
  fd_tenant :: uuid
  fd_finding :: restore_finding
  fd_at :: datetime

record enablement =
  en_id :: uuid
  en_run :: uuid
  en_tenant :: uuid
  en_installation :: uuid
  en_report :: string
  en_inventory :: string
  en_authority :: string
  en_at :: datetime

record accepted_row =
  ap_tenant :: uuid
  ap_position :: int
  ap_root :: string

record recovery_db =
  rd_tenants :: "uuid set"
  rd_accepted :: "accepted_row list"
  rd_backups :: "backup_manifest list"
  rd_receipts :: "(uuid \<times> backup_manifest) list"
  rd_anchors :: "anchor_record list"
  rd_installations :: "installation list"
  rd_inventories :: "inventory_revision list"
  rd_runs :: "restore_run list"
  rd_steps :: "step_row list"
  rd_findings :: "finding_row list"
  rd_resolved :: "uuid set"
  rd_enabled :: "enablement list"

section \<open>Column types and statements\<close>

definition int4 :: "int \<Rightarrow> bool" where
  "int4 n \<longleftrightarrow> - 2147483648 \<le> n \<and> n < 2147483648"

definition int8 :: "int \<Rightarrow> bool" where
  "int8 n \<longleftrightarrow> - 9223372036854775808 \<le> n \<and> n < 9223372036854775808"

definition text_between :: "nat \<Rightarrow> nat \<Rightarrow> string \<Rightarrow> bool" where
  "text_between lo hi s \<longleftrightarrow> CHR 0x00 \<notin> set s \<and> lo \<le> code_points s \<and> code_points s \<le> hi"

definition key_version_ok :: "string \<Rightarrow> bool" where
  "key_version_ok s \<longleftrightarrow> 1 \<le> length s \<and> length s \<le> 128 \<and>
     list_all (\<lambda>c. is_lower c \<or> is_digit c \<or> (65 \<le> (of_char c :: nat) \<and> (of_char c :: nat) \<le> 90) \<or> c \<in> set ''._:-'') s"

definition insert_strict :: "bool \<Rightarrow> 'r \<Rightarrow> 'r list \<Rightarrow> recovery_error + 'r list" where
  "insert_strict ok row rows = (if ok then Inr (rows @ [row]) else Inl DatabaseError)"

text \<open>\<open>ON CONFLICT DO NOTHING\<close>: checks come before the conflict, foreign keys after the insertion.\<close>

definition insert_ignore :: "bool \<Rightarrow> bool \<Rightarrow> bool \<Rightarrow> 'r \<Rightarrow> 'r list \<Rightarrow> recovery_error + 'r list" where
  "insert_ignore checks conflict keys row rows =
     (if \<not> checks then Inl DatabaseError else if conflict then Inr rows
      else if \<not> keys then Inl DatabaseError else Inr (rows @ [row]))"

definition require_exact_row :: "bool \<Rightarrow> string \<Rightarrow> recovery_error + unit" where
  "require_exact_row found label = raise_if (\<not> found) (ReplayConflict (label @ '' replay changed immutable semantics''))"

definition lift_py :: "'a py \<Rightarrow> recovery_error + 'a" where
  "lift_py m = (case m of Inl e \<Rightarrow> Inl (PyError e) | Inr x \<Rightarrow> Inr x)"

definition latest_by :: "('r \<Rightarrow> int) \<Rightarrow> 'r list \<Rightarrow> 'r option" where
  "latest_by key rows = (if rows = [] then None else Some (last (sort_key key rows)))"

definition highest_position :: "recovery_db \<Rightarrow> uuid \<Rightarrow> int" where
  "highest_position db tenant = foldr max (map ap_position (filter (\<lambda>r. ap_tenant r = tenant) (rd_accepted db))) 0"

text \<open>Seconds of an interval as \<open>EXTRACT(EPOCH FROM ...)::integer\<close>: a numeric, rounded half away from zero.\<close>

definition epoch_integer :: "int \<Rightarrow> int" where
  "epoch_integer delta =
     (if 0 \<le> delta then (delta + second div 2) div second else - ((second div 2 - delta) div second))"

text \<open>\<open>bytes.fromhex(value.removeprefix("sha256:"))\<close>, as the text of the bytes: white space between bytes is skipped.\<close>

definition hex_digit :: "char \<Rightarrow> nat option" where
  "hex_digit c =
     (let n = of_char c :: nat in
      if 48 \<le> n \<and> n \<le> 57 then Some (n - 48) else if 97 \<le> n \<and> n \<le> 102 then Some (n - 87)
      else if 65 \<le> n \<and> n \<le> 70 then Some (n - 55) else None)"

fun from_hex :: "string \<Rightarrow> string option" where
  "from_hex [] = Some []"
| "from_hex [c] = (if (of_char c :: nat) \<in> {9, 10, 11, 12, 13, 32} then Some [] else None)"
| "from_hex (c # d # cs) =
     (if (of_char c :: nat) \<in> {9, 10, 11, 12, 13, 32} then from_hex (d # cs)
      else Option.bind (hex_digit c) (\<lambda>hi. Option.bind (hex_digit d) (\<lambda>lo.
        map_option (\<lambda>t. hex_char hi # hex_char lo # t) (from_hex cs))))"

definition stored_digest :: "string \<Rightarrow> recovery_error + string" where
  "stored_digest value =
     (case from_hex (if take 7 value = ''sha256:'' then drop 7 value else value) of
        None \<Rightarrow> Inl (PyError (ValueError ''non-hexadecimal number found in fromhex() arg''))
      | Some t \<Rightarrow> Inr (''sha256:'' @ t))"

section \<open>Anchors\<close>

definition anchor_receipt :: "anchor_record \<Rightarrow> signed_receipt" where
  "anchor_receipt a =
     \<lparr>sg_digest = an_sha a, sg_signature = an_signature a, sg_key_ref = an_key_ref a, sg_key_version = an_key_version a,
      sg_public_key = an_public_key a, sg_at = an_at a\<rparr>"

definition require_anchor_predecessor :: "anchor_record \<Rightarrow> anchor_record option \<Rightarrow> unit py" where
  "require_anchor_predecessor a previous =
     (case previous of
        None \<Rightarrow> raise_if (an_start a \<noteq> 1 \<or> an_previous a \<noteq> None)
          (ValueError ''anchor genesis must start at position one without a predecessor'')
      | Some p \<Rightarrow> raise_if (an_start a \<noteq> an_end p + 1 \<or> an_previous a \<noteq> Some (an_sha p))
          (ValueError ''anchor range or predecessor is not continuous''))"

definition accepted_entries :: "accepted_row list \<Rightarrow> uuid \<Rightarrow> int \<Rightarrow> int \<Rightarrow> (int \<times> string) list" where
  "accepted_entries rows tenant lo hi =
     map (\<lambda>r. (ap_position r, ap_root r))
       (sort_key ap_position (filter (\<lambda>r. ap_tenant r = tenant \<and> lo \<le> ap_position r \<and> ap_position r \<le> hi) rows))"

definition anchor_row_ok :: "recovery_db \<Rightarrow> anchor_record \<Rightarrow> bool" where
  "anchor_row_ok db a \<longleftrightarrow>
     an_tenant a \<in> rd_tenants db \<and> 1 \<le> an_start a \<and> int8 (an_start a) \<and> an_start a \<le> an_end a \<and> int8 (an_end a) \<and>
     text_between 1 4096 (an_signature a) \<and> key_version_ok (an_key_version a) \<and> text_between 1 512 (an_object_key a) \<and>
     text_between 1 256 (an_object_version a) \<and>
     (case an_previous a of None \<Rightarrow> True
      | Some d \<Rightarrow> (\<exists>x \<in> set (rd_anchors db). an_tenant x = an_tenant a \<and> an_sha x = d)) \<and>
     (\<forall>x \<in> set (rd_anchors db). an_id x \<noteq> an_id a \<and>
        (an_tenant x = an_tenant a \<longrightarrow> an_start x \<noteq> an_start a \<and> an_end x \<noteq> an_end a \<and> an_previous x \<noteq> an_previous a \<and>
           an_sha x \<noteq> an_sha a \<and> (an_object_key x, an_object_version x) \<noteq> (an_object_key a, an_object_version a)))"

definition insert_anchor :: "anchor_record \<Rightarrow> recovery_db \<Rightarrow> recovery_error + recovery_db" where
  "insert_anchor a db =
     (if an_id a \<in> an_id ` set (rd_anchors db)
      then bindE (require_exact_row (a \<in> set (rd_anchors db)) ''anchor'') (\<lambda>_. Inr db)
      else bindE (lift_py (require_anchor_predecessor a
             (latest_by an_end (filter (\<lambda>x. an_tenant x = an_tenant a) (rd_anchors db))))) (\<lambda>_.
        let entries = accepted_entries (rd_accepted db) (an_tenant a) (an_start a) (an_end a) in
        if map fst entries \<noteq> [an_start a..an_end a]
        then Inl (PyError (ValueError ''anchor range is not exact accepted Record coverage''))
        else bindE (lift_py (anchor_digest (an_previous a) entries)) (\<lambda>d.
          if d \<noteq> an_sha a then Inl (PyError (ValueError ''anchor digest does not bind persisted accepted roots''))
          else bindE (insert_strict (anchor_row_ok db a) a (rd_anchors db)) (\<lambda>rows.
            bindE (require_exact_row (a \<in> set rows) ''anchor'') (\<lambda>_. Inr (db\<lparr>rd_anchors := rows\<rparr>))))))"

definition record_anchor :: "anchor_record \<Rightarrow> verification \<Rightarrow> recovery_db \<Rightarrow> recovery_error + recovery_db" where
  "record_anchor a v db =
     bindE (lift_py (require_signature_binding v (anchor_receipt a))) (\<lambda>_.
       if \<not> sv_verified v then Inl (PyError (ValueError ''anchor receipt failed signature verification''))
       else insert_anchor a db)"

section \<open>Backups and installations\<close>

text \<open>The text of a \<open>pg_lsn\<close>: two hexadecimal numbers of at most eight digits with a slash.\<close>

definition read_hex :: "string \<Rightarrow> nat option" where
  "read_hex s =
     (if s = [] \<or> length s > 8 then None
      else foldl (\<lambda>n c. Option.bind n (\<lambda>n. map_option (\<lambda>d. 16 * n + d) (hex_digit c))) (Some 0) s)"

definition read_lsn :: "string \<Rightarrow> nat option" where
  "read_lsn s =
     (let hi = takeWhile (\<lambda>c. c \<noteq> CHR ''/'') s; rest = dropWhile (\<lambda>c. c \<noteq> CHR ''/'') s in
      if rest = [] then None
      else Option.bind (read_hex hi) (\<lambda>h. map_option (\<lambda>l. h * 4294967296 + l) (read_hex (tl rest))))"

definition backup_row_ok :: "recovery_db \<Rightarrow> backup_manifest \<Rightarrow> bool" where
  "backup_row_ok db b \<longleftrightarrow>
     text_between 1 256 (bk_object_version b) \<and> key_version_ok (bk_key_version b) \<and> bk_started b \<le> bk_completed b \<and>
     (case (read_lsn (bk_wal_start b), read_lsn (bk_wal_stop b)) of (Some x, Some y) \<Rightarrow> x \<le> y | _ \<Rightarrow> False)"

definition backup_conflict :: "recovery_db \<Rightarrow> backup_manifest \<Rightarrow> bool" where
  "backup_conflict db b \<longleftrightarrow>
     (\<exists>x \<in> set (rd_backups db). bk_id x = bk_id b \<or>
        bk_tenant x = bk_tenant b \<and> backup_manifest_digest x = backup_manifest_digest b)"

text \<open>Equality of all compared columns, the two log positions as \<open>pg_lsn\<close>.\<close>

definition same_backup :: "backup_manifest \<Rightarrow> backup_manifest \<Rightarrow> bool" where
  "same_backup x b \<longleftrightarrow>
     backup_manifest_digest x = backup_manifest_digest b \<and> read_lsn (bk_wal_start x) = read_lsn (bk_wal_start b) \<and>
     read_lsn (bk_wal_stop x) = read_lsn (bk_wal_stop b) \<and>
     x\<lparr>bk_wal_start := [], bk_wal_stop := []\<rparr> = b\<lparr>bk_wal_start := [], bk_wal_stop := []\<rparr>"

text \<open>A receipt row is the manifest it verifies under the identifier of its digest.\<close>

definition insert_backup_receipt :: "backup_manifest \<Rightarrow> recovery_db \<Rightarrow> recovery_error + recovery_db" where
  "insert_backup_receipt b db =
     (let row = (backup_receipt_id b, b);
        key = (\<lambda>(i, x). (i, bk_id x, bk_tenant x, backup_manifest_digest x, bk_completed x));
        conflict = (\<exists>(i, x) \<in> set (rd_receipts db). i = backup_receipt_id b \<or>
          bk_id x = bk_id b \<and> backup_manifest_digest x = backup_manifest_digest b) in
      bindE (insert_ignore True conflict
          (\<exists>x \<in> set (rd_backups db). bk_id x = bk_id b \<and> bk_tenant x = bk_tenant b \<and> backup_manifest_digest x = backup_manifest_digest b)
          row (rd_receipts db)) (\<lambda>rows.
        bindE (require_exact_row (key row \<in> key ` set rows) ''backup verification receipt'') (\<lambda>_. Inr (db\<lparr>rd_receipts := rows\<rparr>))))"

definition insert_backup :: "backup_manifest \<Rightarrow> recovery_db \<Rightarrow> recovery_error + recovery_db" where
  "insert_backup b db =
     bindE (insert_ignore (backup_row_ok db b) (backup_conflict db b) (bk_tenant b \<in> rd_tenants db) b (rd_backups db)) (\<lambda>rows.
       bindE (require_exact_row (\<exists>x \<in> set rows. same_backup x b) ''backup'') (\<lambda>_.
         insert_backup_receipt b (db\<lparr>rd_backups := rows\<rparr>)))"

definition installation_receipt :: "installation \<Rightarrow> signed_receipt" where
  "installation_receipt i =
     \<lparr>sg_digest = installation_digest i, sg_signature = in_signature i, sg_key_ref = in_key_ref i,
      sg_key_version = in_key_version i, sg_public_key = in_public_key i, sg_at = in_issued i\<rparr>"

definition insert_installation :: "installation \<Rightarrow> recovery_db \<Rightarrow> recovery_error + recovery_db" where
  "insert_installation i db =
     bindE (insert_ignore (text_between 1 4096 (in_signature i) \<and> key_version_ok (in_key_version i))
         (\<exists>x \<in> set (rd_installations db). in_id x = in_id i \<or> in_tenant x = in_tenant i \<and> in_ref x = in_ref i)
         (in_tenant i \<in> rd_tenants db) i (rd_installations db)) (\<lambda>rows.
       bindE (require_exact_row (i \<in> set rows) ''installation'') (\<lambda>_. Inr (db\<lparr>rd_installations := rows\<rparr>)))"

definition record_installation :: "installation \<Rightarrow> verification \<Rightarrow> recovery_db \<Rightarrow> recovery_error + recovery_db" where
  "record_installation i v db =
     bindE (lift_py (require_signature_binding v (installation_receipt i))) (\<lambda>_.
       if \<not> sv_verified v then Inl (PyError (ValueError ''installation identity signature verification failed''))
       else insert_installation i db)"

section \<open>Inventories\<close>

definition require_inventory_predecessor :: "inventory_revision \<Rightarrow> inventory_revision option \<Rightarrow> unit py" where
  "require_inventory_predecessor v previous =
     (case previous of
        None \<Rightarrow> raise_if (iv_number v \<noteq> 1 \<or> iv_previous v \<noteq> None)
          (ValueError ''inventory genesis must be revision one without a predecessor'')
      | Some p \<Rightarrow> raise_if (iv_number v \<noteq> iv_number p + 1 \<or> iv_previous v \<noteq> Some (iv_sha p))
          (ValueError ''inventory revision or predecessor is not continuous''))"

definition require_inventory_replay :: "inventory_revision \<Rightarrow> inventory_revision list \<Rightarrow> recovery_error + unit" where
  "require_inventory_replay v rows =
     (case find (\<lambda>x. iv_id x = iv_id v) rows of
        None \<Rightarrow> require_exact_row False ''inventory''
      | Some x \<Rightarrow>
          if x\<lparr>iv_sources := []\<rparr> \<noteq> v\<lparr>iv_sources := []\<rparr> then require_exact_row False ''inventory''
          else if length (iv_sources x) \<noteq> length (iv_sources v)
          then Inl (ReplayConflict ''inventory replay changed immutable source entries'')
          else eachE (\<lambda>s. require_exact_row (s \<in> set (iv_sources x)) (''inventory source '' @ es_source s)) (iv_sources v))"

definition source_row_ok :: "expected_source \<Rightarrow> bool" where
  "source_row_ok s \<longleftrightarrow>
     stable_key (es_source s) \<and> 0 \<le> es_count s \<and> int8 (es_count s) \<and>
     (es_activation s = NotExercised \<and> es_cursor s = ZeroSource \<and> es_count s = 0 \<and> es_trust_root s = None \<and> es_trusted s = None \<and>
        es_event s = None \<or>
      es_activation s = ActiveSource \<and> es_cursor s = TrustedCursor \<and> es_count s > 0 \<and>
        list_all (\<lambda>t. case t of None \<Rightarrow> True | Some t \<Rightarrow> text_between 1 255 t) [es_trust_root s, es_trusted s, es_event s])"

definition inventory_row_ok :: "recovery_db \<Rightarrow> inventory_revision \<Rightarrow> bool" where
  "inventory_row_ok db v \<longleftrightarrow>
     iv_tenant v \<in> rd_tenants db \<and> 1 \<le> iv_number v \<and> int4 (iv_number v) \<and> text_between 1 4096 (iv_signature v) \<and>
     key_version_ok (iv_key_version v) \<and> text_between 1 512 (iv_object_key v) \<and> text_between 1 256 (iv_object_version v) \<and>
     (case iv_previous v of None \<Rightarrow> True
      | Some d \<Rightarrow> (\<exists>x \<in> set (rd_inventories db). iv_tenant x = iv_tenant v \<and> iv_sha x = d)) \<and>
     (\<forall>x \<in> set (rd_inventories db). iv_id x \<noteq> iv_id v \<and>
        (iv_tenant x = iv_tenant v \<longrightarrow>
           iv_number x \<noteq> iv_number v \<and> iv_previous x \<noteq> iv_previous v \<and> iv_sha x \<noteq> iv_sha v)) \<and>
     distinct (map es_source (iv_sources v)) \<and> list_all source_row_ok (iv_sources v)"

definition insert_inventory :: "inventory_revision \<Rightarrow> recovery_db \<Rightarrow> recovery_error + recovery_db" where
  "insert_inventory v db =
     (if iv_id v \<in> iv_id ` set (rd_inventories db)
      then bindE (require_inventory_replay v (rd_inventories db)) (\<lambda>_. Inr db)
      else bindE (lift_py (require_inventory_predecessor v
             (latest_by iv_number (filter (\<lambda>x. iv_tenant x = iv_tenant v) (rd_inventories db))))) (\<lambda>_.
        bindE (insert_strict (inventory_row_ok db v) v (rd_inventories db)) (\<lambda>rows.
          bindE (require_inventory_replay v rows) (\<lambda>_. Inr (db\<lparr>rd_inventories := rows\<rparr>)))))"

definition record_inventory :: "inventory_revision \<Rightarrow> verification \<Rightarrow> recovery_db \<Rightarrow> recovery_error + recovery_db" where
  "record_inventory v s db =
     bindE (lift_py (require_inventory_verification v s)) (\<lambda>_.
       let active = es_source ` set (filter (\<lambda>x. es_activation x = ActiveSource) (iv_sources v)) in
       if \<not> sv_verified s \<or> inventory_failures (iv_sources v) active \<noteq> []
       then Inl (PyError (ValueError ''inventory revision failed signature or source validation''))
       else insert_inventory v db)"

section \<open>Restore runs\<close>

record restore_opening =
  ro_run :: uuid
  ro_tenant :: uuid
  ro_installation :: uuid
  ro_backup :: uuid
  ro_inventory :: uuid
  ro_accepted :: int
  ro_restored :: int
  ro_artifact_rpo :: int
  ro_started :: datetime

definition opened_run :: "restore_opening \<Rightarrow> restore_run" where
  "opened_run f =
     \<lparr>ru_id = ro_run f, ru_tenant = ro_tenant f, ru_installation = ro_installation f, ru_backup = ro_backup f,
      ru_inventory = ro_inventory f, ru_status = Quarantined, ru_accepted = ro_accepted f, ru_restored = ro_restored f,
      ru_accepted_rpo = ro_accepted f - ro_restored f, ru_artifact_rpo = ro_artifact_rpo f, ru_started = ro_started f,
      ru_completed = None, ru_rto = None, ru_report = None\<rparr>"

definition run_row_ok :: "restore_run \<Rightarrow> bool" where
  "run_row_ok r \<longleftrightarrow>
     0 \<le> ru_accepted r \<and> int8 (ru_accepted r) \<and> 0 \<le> ru_restored r \<and> int8 (ru_restored r) \<and>
     0 \<le> ru_accepted_rpo r \<and> int4 (ru_accepted_rpo r) \<and> 0 \<le> ru_artifact_rpo r \<and> int4 (ru_artifact_rpo r)"

definition run_keys_ok :: "recovery_db \<Rightarrow> restore_run \<Rightarrow> bool" where
  "run_keys_ok db r \<longleftrightarrow>
     ru_tenant r \<in> rd_tenants db \<and>
     (\<exists>i \<in> set (rd_installations db). in_id i = ru_installation r \<and> in_tenant i = ru_tenant r) \<and>
     (\<exists>b \<in> set (rd_backups db). bk_id b = ru_backup r \<and> bk_tenant b = ru_tenant r) \<and>
     (\<exists>v \<in> set (rd_inventories db). iv_id v = ru_inventory r \<and> iv_tenant v = ru_tenant r)"

text \<open>The columns a begun run is compared in; the others belong to its completion.\<close>

definition opening_of :: "restore_run \<Rightarrow> restore_opening" where
  "opening_of r =
     \<lparr>ro_run = ru_id r, ro_tenant = ru_tenant r, ro_installation = ru_installation r, ro_backup = ru_backup r,
      ro_inventory = ru_inventory r, ro_accepted = ru_accepted r, ro_restored = ru_restored r,
      ro_artifact_rpo = ru_artifact_rpo r, ro_started = ru_started r\<rparr>"

definition begin_restore :: "restore_opening \<Rightarrow> recovery_db \<Rightarrow> recovery_error + recovery_db" where
  "begin_restore f db =
     (if ro_restored f > ro_accepted f
      then Inl (PyError (ValueError ''restored position cannot exceed accepted source position''))
      else if highest_position db (ro_tenant f) \<noteq> ro_accepted f
      then Inl (PyError (ValueError ''accepted source position does not match persisted Record facts''))
      else bindE (insert_ignore (run_row_ok (opened_run f)) (ro_run f \<in> ru_id ` set (rd_runs db))
               (run_keys_ok db (opened_run f)) (opened_run f) (rd_runs db)) (\<lambda>rows.
        bindE (require_exact_row (\<exists>r \<in> set rows. opening_of r = f \<and> ru_accepted_rpo r = ro_accepted f - ro_restored f) ''restore run'')
          (\<lambda>_. Inr (db\<lparr>rd_runs := rows\<rparr>))))"

definition check_payload :: "restore_check \<Rightarrow> json" where
  "check_payload c = JObj
     [(''kind'', JStr (step_value (rk_kind c))), (''outcome'', JStr (if rk_pass c then ''pass'' else ''fail'')),
      (''evidence_sha256'', JStr (rk_evidence c)), (''detail'', JStr (rk_detail c))]"

definition finding_payload :: "restore_finding \<Rightarrow> json" where
  "finding_payload f = JObj
     [(''key'', JStr (rf_key f)), (''severity'', JStr (if rf_critical f then ''critical'' else ''error'')),
      (''reason'', JStr (rf_reason f)), (''evidence_sha256'', JStr (rf_evidence f)), (''resolved'', JBool (rf_resolved f))]"

definition report_payload :: "restore_report \<Rightarrow> json" where
  "report_payload r = JObj
     [(''schema_id'', JStr ''ctower.restore-report/v1''), (''restore_run_id'', JStr (uuid_str (rr_run r))),
      (''tenant_id'', JStr (uuid_str (rr_tenant r))), (''installation_id'', JStr (uuid_str (rr_installation r))),
      (''backup_id'', JStr (uuid_str (rr_backup r))), (''inventory_revision_sha256'', JStr (rr_inventory r)),
      (''accepted_source_position'', JInt (rr_accepted r)), (''restored_acceptance_position'', JInt (rr_restored r)),
      (''accepted_rpo_seconds'', JInt (rr_accepted_rpo r)), (''artifact_rpo_seconds'', JInt (rr_artifact_rpo r)),
      (''rto_seconds'', JInt (rr_rto r)), (''started_at'', JStr (canonical_timestamp (rr_started r))),
      (''completed_at'', JStr (canonical_timestamp (rr_completed r))), (''steps'', JList (map check_payload (rr_steps r))),
      (''findings'', JList (map finding_payload (rr_findings r))), (''enablement_eligible'', JBool (rr_eligible r)),
      (''effects_enabled'', JBool False)]"

definition report_digest :: "restore_report \<Rightarrow> string" where
  "report_digest r = integrity_digest (report_payload r)"

definition step_rows :: "restore_report \<Rightarrow> step_row list" where
  "step_rows r =
     map (\<lambda>(i, c). \<lparr>st_run = rr_run r, st_tenant = rr_tenant r, st_sequence = i, st_check = c, st_at = rr_completed r\<rparr>)
       (enumerate 1 (rr_steps r))"

definition step_row_ok :: "recovery_db \<Rightarrow> step_row \<Rightarrow> bool" where
  "step_row_ok db s \<longleftrightarrow>
     1 \<le> st_sequence s \<and> st_sequence s \<le> 12 \<and> rk_kind (st_check s) = restore_order ! (st_sequence s - 1) \<and>
     text_between 1 500 (rk_detail (st_check s)) \<and>
     (\<exists>r \<in> set (rd_runs db). ru_id r = st_run s \<and> ru_tenant r = st_tenant s) \<and>
     (\<forall>x \<in> set (rd_steps db). (st_run x, st_sequence x) \<noteq> (st_run s, st_sequence s))"

definition insert_steps :: "restore_report \<Rightarrow> recovery_db \<Rightarrow> recovery_error + recovery_db" where
  "insert_steps r db =
     foldl (\<lambda>m s. bindE m (\<lambda>db. bindE (insert_strict (step_row_ok db s) s (rd_steps db)) (\<lambda>rows. Inr (db\<lparr>rd_steps := rows\<rparr>))))
       (Inr db) (step_rows r)"

definition finding_key_ok :: "string \<Rightarrow> bool" where
  "finding_key_ok s \<longleftrightarrow> (case s of [] \<Rightarrow> False | c # cs \<Rightarrow> is_lower c \<and> list_all (\<lambda>c. key_char c \<or> c = CHR '':'') cs)"

definition finding_rows :: "restore_report \<Rightarrow> finding_row list" where
  "finding_rows r =
     map (\<lambda>f. \<lparr>fd_id = uuid5 namespace_url (''ctower:'' @ uuid_str (rr_run r) @ '':'' @ rf_key f), fd_run = rr_run r,
         fd_tenant = rr_tenant r, fd_finding = f, fd_at = rr_completed r\<rparr>) (rr_findings r)"

definition finding_row_ok :: "recovery_db \<Rightarrow> finding_row \<Rightarrow> bool" where
  "finding_row_ok db f \<longleftrightarrow>
     finding_key_ok (rf_key (fd_finding f)) \<and> text_between 1 500 (rf_reason (fd_finding f)) \<and>
     (\<exists>r \<in> set (rd_runs db). ru_id r = fd_run f \<and> ru_tenant r = fd_tenant f) \<and>
     (\<forall>x \<in> set (rd_findings db). fd_id x \<noteq> fd_id f \<and> (fd_run x, rf_key (fd_finding x)) \<noteq> (fd_run f, rf_key (fd_finding f)))"

definition insert_findings :: "restore_report \<Rightarrow> recovery_db \<Rightarrow> recovery_error + recovery_db" where
  "insert_findings r db =
     foldl (\<lambda>m f. bindE m (\<lambda>db. bindE (insert_strict (finding_row_ok db f) f (rd_findings db)) (\<lambda>rows. Inr (db\<lparr>rd_findings := rows\<rparr>))))
       (Inr db) (finding_rows r)"

text \<open>The kinds of a run's passed steps, by sequence.\<close>

definition passed_steps :: "recovery_db \<Rightarrow> restore_run \<Rightarrow> restore_step list" where
  "passed_steps db run =
     map (rk_kind \<circ> st_check) (sort_key st_sequence
       (filter (\<lambda>s. st_run s = ru_id run \<and> st_tenant s = ru_tenant run \<and> rk_pass (st_check s)) (rd_steps db)))"

definition joined_inventory :: "recovery_db \<Rightarrow> restore_run \<Rightarrow> inventory_revision option" where
  "joined_inventory db run = find (\<lambda>v. iv_id v = ru_inventory run \<and> iv_tenant v = ru_tenant run) (rd_inventories db)"

definition run_matches_report :: "restore_run \<Rightarrow> restore_report \<Rightarrow> bool" where
  "run_matches_report run r \<longleftrightarrow>
     ru_id run = rr_run r \<and> ru_tenant run = rr_tenant r \<and> ru_installation run = rr_installation r \<and> ru_backup run = rr_backup r \<and>
     ru_accepted run = rr_accepted r \<and> ru_restored run = rr_restored r \<and> ru_artifact_rpo run = rr_artifact_rpo r \<and>
     ru_started run = rr_started r \<and> ru_started run \<le> rr_completed r \<and>
     epoch_integer (rr_completed r - ru_started run) = rr_rto r"

definition persisted_restore_eligible :: "recovery_db \<Rightarrow> restore_report \<Rightarrow> bool" where
  "persisted_restore_eligible db r \<longleftrightarrow>
     (\<exists>run \<in> set (rd_runs db). run_matches_report run r \<and> ru_accepted_rpo run = 0 \<and> ru_artifact_rpo run \<le> 300 \<and>
        map_option iv_sha (joined_inventory db run) = Some (rr_inventory r) \<and> 0 \<le> rr_rto r \<and> rr_rto r \<le> 14400 \<and>
        passed_steps db run = restore_order \<and> \<not> (\<exists>f \<in> set (rd_findings db). fd_run f = ru_id run))"

definition update_run :: "(restore_run \<Rightarrow> bool) \<Rightarrow> (restore_run \<Rightarrow> restore_run) \<Rightarrow> recovery_db \<Rightarrow> recovery_db" where
  "update_run P f db = db\<lparr>rd_runs := map (\<lambda>x. if P x then f x else x) (rd_runs db)\<rparr>"

definition open_for_report :: "recovery_db \<Rightarrow> restore_report \<Rightarrow> restore_run \<Rightarrow> bool" where
  "open_for_report db r run \<longleftrightarrow>
     run_matches_report run r \<and> map_option iv_sha (joined_inventory db run) = Some (rr_inventory r) \<and>
     ru_status run = Quarantined \<and> ru_completed run = None"

definition complete_restore :: "restore_report \<Rightarrow> recovery_db \<Rightarrow> recovery_error + string \<times> recovery_db" where
  "complete_restore r db =
     (let sha = report_digest r;
        existing = find (\<lambda>x. ru_id x = rr_run r \<and> ru_tenant x = rr_tenant r \<and> ru_installation x = rr_installation r) (rd_runs db) in
      case Option.bind existing ru_report of
        Some d \<Rightarrow> if d \<noteq> sha then Inl (ReplayConflict ''restore replay changed the completed report'') else Inr (sha, db)
      | None \<Rightarrow>
          bindE (insert_steps r db) (\<lambda>db. bindE (insert_findings r db) (\<lambda>db.
            let eligible = persisted_restore_eligible db r in
            if eligible \<noteq> rr_eligible r
            then Inl (PyError (ValueError ''persisted restore facts disagree with derived report eligibility''))
            else if length (filter (open_for_report db r) (rd_runs db)) \<noteq> 1
            then Inl (PyError (ValueError ''restore report does not match one open quarantined run''))
            else Inr (sha, update_run (open_for_report db r)
              (\<lambda>x. x\<lparr>ru_status := (if eligible then Quarantined else FailedRun), ru_completed := Some (rr_completed r),
                 ru_rto := Some (rr_rto r), ru_report := Some sha\<rparr>) db))))"

definition enablement_checks :: "recovery_db \<Rightarrow> enablement \<Rightarrow> bool" where
  "enablement_checks db e \<longleftrightarrow>
     stable_reference (en_authority e) \<and>
     (\<exists>r \<in> set (rd_runs db). ru_id r = en_run e \<and> ru_tenant r = en_tenant e \<and> ru_installation r = en_installation e) \<and>
     (\<forall>x \<in> set (rd_enabled db). en_id x \<noteq> en_id e \<and> en_run x \<noteq> en_run e \<and>
        (en_tenant x, en_installation x, en_report x) \<noteq> (en_tenant e, en_installation e, en_report e))"

definition enable_eligible :: "recovery_db \<Rightarrow> enablement \<Rightarrow> restore_run \<Rightarrow> bool" where
  "enable_eligible db e run \<longleftrightarrow>
     ru_id run = en_run e \<and> ru_tenant run = en_tenant e \<and> ru_installation run = en_installation e \<and> ru_status run = Quarantined \<and>
     ru_completed run \<noteq> None \<and> ru_report run = Some (en_report e) \<and> ru_accepted run = ru_restored run \<and>
     ru_accepted_rpo run = 0 \<and> ru_artifact_rpo run \<le> 300 \<and>
     (case ru_rto run of None \<Rightarrow> False | Some t \<Rightarrow> 0 \<le> t \<and> t \<le> 14400) \<and> passed_steps db run = restore_order \<and>
     \<not> (\<exists>f \<in> set (rd_findings db). fd_run f = ru_id run \<and> fd_id f \<notin> rd_resolved db)"

text \<open>\<open>e\<close> holds the arguments; its inventory column is filled from the joined row.\<close>

definition enable_restore :: "enablement \<Rightarrow> recovery_db \<Rightarrow> recovery_error + recovery_db" where
  "enable_restore e db =
     bindE (stored_digest (en_report e)) (\<lambda>d. let e = e\<lparr>en_report := d\<rparr> in
       if \<exists>x \<in> set (rd_enabled db). en_run x = en_run e \<or> en_id x = en_id e
       then bindE (require_exact_row (\<exists>x \<in> set (rd_enabled db). x\<lparr>en_inventory := []\<rparr> = e\<lparr>en_inventory := []\<rparr>)
           ''restore enablement receipt'') (\<lambda>_. Inr db)
       else case find (\<lambda>run. enable_eligible db e run \<and> joined_inventory db run \<noteq> None) (rd_runs db) of
         None \<Rightarrow> Inl (PyError (ValueError ''restore enablement denied by unresolved quarantine evidence''))
       | Some run \<Rightarrow>
           let e = e\<lparr>en_inventory := (case joined_inventory db run of None \<Rightarrow> [] | Some v \<Rightarrow> iv_sha v)\<rparr> in
           bindE (insert_strict (enablement_checks db e) e (rd_enabled db)) (\<lambda>rows.
             Inr (update_run (\<lambda>x. ru_id x = en_run e) (\<lambda>x. x\<lparr>ru_status := EnabledRun\<rparr>) (db\<lparr>rd_enabled := rows\<rparr>))))"

definition reads_enabled :: "uuid \<Rightarrow> uuid \<Rightarrow> string \<Rightarrow> recovery_db \<Rightarrow> recovery_error + bool" where
  "reads_enabled tenant installation report db =
     bindE (stored_digest report) (\<lambda>d.
       Inr (\<exists>e \<in> set (rd_enabled db). en_tenant e = tenant \<and> en_installation e = installation \<and> en_report e = d))"

end
