(* ===== verification/RecordTheorems.thy ===== *)
theory RecordTheorems
  imports RecordRecovery
begin

text \<open>
  The properties of the recovery evidence over any sequence of its operations: anchors form a chain over the accepted
  prefix that their last digest identifies, a gap in the accepted positions stops them, and a restored installation is
  read only after a complete, clean and timely restore.
\<close>

section \<open>Operations and runs\<close>

text \<open>\<open>OpAccept\<close> and \<open>OpResolve\<close> are the writers outside: the durability confirmations and the finding resolutions.\<close>

datatype recovery_op =
    OpAccept uuid int string
  | OpResolve uuid
  | OpBackup backup_manifest
  | OpAnchor anchor_record verification
  | OpInstallation installation verification
  | OpInventory inventory_revision verification
  | OpBegin restore_opening
  | OpComplete restore_report
  | OpEnable enablement

definition accept_position :: "uuid \<Rightarrow> int \<Rightarrow> string \<Rightarrow> recovery_db \<Rightarrow> recovery_error + recovery_db" where
  "accept_position tenant p root db =
     bindE (insert_strict (0 < p \<and> int8 p \<and> sha256_reference root \<and> tenant \<in> rd_tenants db \<and> p \<notin> ap_position ` set (rd_accepted db))
         \<lparr>ap_tenant = tenant, ap_position = p, ap_root = root\<rparr> (rd_accepted db)) (\<lambda>rows. Inr (db\<lparr>rd_accepted := rows\<rparr>))"

fun recovery_op_result :: "recovery_op \<Rightarrow> recovery_db \<Rightarrow> recovery_error + recovery_db" where
  "recovery_op_result (OpAccept tenant p root) db = accept_position tenant p root db"
| "recovery_op_result (OpResolve i) db = Inr (db\<lparr>rd_resolved := insert i (rd_resolved db)\<rparr>)"
| "recovery_op_result (OpBackup b) db = bindE (lift_py (backup_checked b)) (\<lambda>b. insert_backup b db)"
| "recovery_op_result (OpAnchor a v) db =
     bindE (lift_py (anchor_checked a)) (\<lambda>a. bindE (lift_py (verification_checked v)) (\<lambda>v. record_anchor a v db))"
| "recovery_op_result (OpInstallation i v) db =
     bindE (lift_py (installation_checked i)) (\<lambda>i. bindE (lift_py (verification_checked v)) (\<lambda>v. record_installation i v db))"
| "recovery_op_result (OpInventory i v) db =
     bindE (lift_py (inventory_checked i)) (\<lambda>i. bindE (lift_py (verification_checked v)) (\<lambda>v. record_inventory i v db))"
| "recovery_op_result (OpBegin f) db = begin_restore f db"
| "recovery_op_result (OpComplete r) db =
     bindE (lift_py (report_checked r)) (\<lambda>r. bindE (complete_restore r db) (\<lambda>(sha, db). Inr db))"
| "recovery_op_result (OpEnable e) db = enable_restore e db"

definition recovery_step :: "recovery_op \<Rightarrow> recovery_db \<Rightarrow> recovery_db" where
  "recovery_step c db = (case recovery_op_result c db of Inl e \<Rightarrow> db | Inr db' \<Rightarrow> db')"

definition empty_recovery :: "uuid set \<Rightarrow> recovery_db" where
  "empty_recovery tenants =
     \<lparr>rd_tenants = tenants, rd_accepted = [], rd_backups = [], rd_receipts = [], rd_anchors = [], rd_installations = [],
      rd_inventories = [], rd_runs = [], rd_steps = [], rd_findings = [], rd_resolved = {}, rd_enabled = []\<rparr>"

definition recovery_run :: "uuid set \<Rightarrow> recovery_op list \<Rightarrow> recovery_db" where
  "recovery_run tenants ops = foldl (\<lambda>db c. recovery_step c db) (empty_recovery tenants) ops"

section \<open>What an operation changes\<close>

lemma lift_py_Inr [simp]: "lift_py m = Inr x \<longleftrightarrow> m = Inr x"
  by (auto simp: lift_py_def split: sum.splits)

lemma insert_strict_Inr [simp]: "insert_strict ok row rows = Inr rows' \<longleftrightarrow> ok \<and> rows' = rows @ [row]"
  by (auto simp: insert_strict_def)

lemma insert_ignore_Inr:
  "insert_ignore checks conflict keys row rows = Inr rows' \<longleftrightarrow>
     checks \<and> (conflict \<and> rows' = rows \<or> \<not> conflict \<and> keys \<and> rows' = rows @ [row])"
  by (auto simp: insert_ignore_def)

lemma require_exact_row_Inr [simp]: "require_exact_row found label = Inr u \<longleftrightarrow> found"
  by (simp add: require_exact_row_def)

lemma accept_position_effect:
  "accept_position tenant p root db = Inr db' \<longleftrightarrow>
     0 < p \<and> int8 p \<and> sha256_reference root \<and> tenant \<in> rd_tenants db \<and> p \<notin> ap_position ` set (rd_accepted db) \<and>
     db' = db\<lparr>rd_accepted := rd_accepted db @ [\<lparr>ap_tenant = tenant, ap_position = p, ap_root = root\<rparr>]\<rparr>"
  by (auto simp: accept_position_def bindE_Inr_iff)

lemma anchor_effect:
  assumes "insert_anchor a db = Inr db'"
  shows "db' = db \<or>
    db' = db\<lparr>rd_anchors := rd_anchors db @ [a]\<rparr> \<and> anchor_row_ok db a \<and>
    require_anchor_predecessor a (latest_by an_end (filter (\<lambda>x. an_tenant x = an_tenant a) (rd_anchors db))) = Inr () \<and>
    map fst (accepted_entries (rd_accepted db) (an_tenant a) (an_start a) (an_end a)) = [an_start a..an_end a] \<and>
    anchor_digest (an_previous a) (accepted_entries (rd_accepted db) (an_tenant a) (an_start a) (an_end a)) = Inr (an_sha a)"
  using assms by (auto simp: insert_anchor_def bindE_Inr_iff Let_def split: if_splits)

lemma insert_ignore_rows: "insert_ignore checks conflict keys row rows = Inr rows' \<Longrightarrow> rows' = rows \<or> rows' = rows @ [row]"
  by (auto simp: insert_ignore_Inr)

lemma backup_effect:
  assumes "insert_backup b db = Inr db'"
  shows "\<exists>B R. db' = db\<lparr>rd_backups := B, rd_receipts := R\<rparr> \<and> (B = rd_backups db \<or> B = rd_backups db @ [b])"
proof -
  obtain B where B: "insert_backup_receipt b (db\<lparr>rd_backups := B\<rparr>) = Inr db'" "B = rd_backups db \<or> B = rd_backups db @ [b]"
    using assms insert_ignore_rows by (fastforce simp: insert_backup_def bindE_Inr_iff)
  then obtain R where "db' = db\<lparr>rd_backups := B, rd_receipts := R\<rparr>" by (auto simp: insert_backup_receipt_def bindE_Inr_iff Let_def)
  with B(2) show ?thesis by blast
qed

lemma installation_effect:
  assumes "record_installation i v db = Inr db'"
  shows "sv_verified v \<and> require_signature_binding v (installation_receipt i) = Inr () \<and>
    (\<exists>rows. db' = db\<lparr>rd_installations := rows\<rparr> \<and> (rows = rd_installations db \<or> rows = rd_installations db @ [i]))"
proof -
  have ok: "sv_verified v" "require_signature_binding v (installation_receipt i) = Inr ()" and ins: "insert_installation i db = Inr db'"
    using assms by (auto simp: record_installation_def bindE_Inr_iff split: if_splits)
  obtain rows where "db' = db\<lparr>rd_installations := rows\<rparr>" "rows = rd_installations db \<or> rows = rd_installations db @ [i]"
    using ins insert_ignore_rows by (fastforce simp: insert_installation_def bindE_Inr_iff)
  with ok show ?thesis by blast
qed

lemma inventory_effect:
  assumes "record_inventory i v db = Inr db'"
  shows "(db' = db \<or> db' = db\<lparr>rd_inventories := rd_inventories db @ [i]\<rparr> \<and> inventory_row_ok db i) \<and> sv_verified v \<and>
    require_inventory_verification i v = Inr () \<and>
    inventory_failures (iv_sources i) (es_source ` set (filter (\<lambda>x. es_activation x = ActiveSource) (iv_sources i))) = []"
  using assms by (auto simp: record_inventory_def insert_inventory_def bindE_Inr_iff Let_def split: if_splits)

lemma begin_effect:
  assumes "begin_restore f db = Inr db'"
  shows "db' = db \<or> db' = db\<lparr>rd_runs := rd_runs db @ [opened_run f]\<rparr> \<and> ro_run f \<notin> ru_id ` set (rd_runs db) \<and>
    run_row_ok (opened_run f) \<and> run_keys_ok db (opened_run f) \<and> highest_position db (ro_tenant f) = ro_accepted f"
  using assms by (auto simp: begin_restore_def bindE_Inr_iff insert_ignore_Inr split: if_splits)

lemma steps_effect: "insert_steps r db = Inr db' \<Longrightarrow> db' = db\<lparr>rd_steps := rd_steps db @ step_rows r\<rparr>"
proof -
  have "foldl (\<lambda>m s. bindE m (\<lambda>db. bindE (insert_strict (step_row_ok db s) s (rd_steps db)) (\<lambda>rows. Inr (db\<lparr>rd_steps := rows\<rparr>))))
       (m :: recovery_error + recovery_db) ss = Inr db' \<Longrightarrow> \<exists>db. m = Inr db \<and> db' = db\<lparr>rd_steps := rd_steps db @ ss\<rparr>" for m ss db'
    by (induction ss arbitrary: m) (fastforce simp: bindE_Inr_iff)+
  then show "insert_steps r db = Inr db' \<Longrightarrow> ?thesis" unfolding insert_steps_def by blast
qed

lemma findings_effect: "insert_findings r db = Inr db' \<Longrightarrow> db' = db\<lparr>rd_findings := rd_findings db @ finding_rows r\<rparr>"
proof -
  have "foldl (\<lambda>m f. bindE m (\<lambda>db. bindE (insert_strict (finding_row_ok db f) f (rd_findings db)) (\<lambda>rows. Inr (db\<lparr>rd_findings := rows\<rparr>))))
       (m :: recovery_error + recovery_db) ss = Inr db' \<Longrightarrow> \<exists>db. m = Inr db \<and> db' = db\<lparr>rd_findings := rd_findings db @ ss\<rparr>" for m ss db'
    by (induction ss arbitrary: m) (fastforce simp: bindE_Inr_iff)+
  then show "insert_findings r db = Inr db' \<Longrightarrow> ?thesis" unfolding insert_findings_def by blast
qed

definition with_report_rows :: "restore_report \<Rightarrow> recovery_db \<Rightarrow> recovery_db" where
  "with_report_rows r db = db\<lparr>rd_steps := rd_steps db @ step_rows r, rd_findings := rd_findings db @ finding_rows r\<rparr>"

definition closed_run :: "restore_report \<Rightarrow> restore_run \<Rightarrow> restore_run" where
  "closed_run r x =
     x\<lparr>ru_status := (if rr_eligible r then Quarantined else FailedRun), ru_completed := Some (rr_completed r),
       ru_rto := Some (rr_rto r), ru_report := Some (report_digest r)\<rparr>"

lemma complete_effect:
  assumes "complete_restore r db = Inr (sha, db')"
  shows "sha = report_digest r \<and>
    (db' = db \<and> (\<exists>x \<in> set (rd_runs db). ru_id x = rr_run r \<and> ru_report x \<noteq> None) \<or>
     db' = update_run (open_for_report (with_report_rows r db) r) (closed_run r) (with_report_rows r db) \<and>
     persisted_restore_eligible (with_report_rows r db) r = rr_eligible r \<and>
     length (filter (open_for_report (with_report_rows r db) r) (rd_runs db)) = 1)"
proof -
  have rows: "db2 = with_report_rows r db" if "insert_steps r db = Inr db1" "insert_findings r db1 = Inr db2" for db1 db2
    using steps_effect [OF that(1)] findings_effect [OF that(2)] by (simp add: with_report_rows_def)
  have runs: "rd_runs (with_report_rows r db) = rd_runs db" by (simp add: with_report_rows_def)
  let ?existing = "find (\<lambda>x. ru_id x = rr_run r \<and> ru_tenant x = rr_tenant r \<and> ru_installation x = rr_installation r) (rd_runs db)"
  show ?thesis
  proof (cases "Option.bind ?existing ru_report")
    case (Some d)
    then obtain x where "?existing = Some x" "ru_report x = Some d" by (auto simp: bind_eq_Some_conv)
    then have "\<exists>x \<in> set (rd_runs db). ru_id x = rr_run r \<and> ru_report x \<noteq> None" using find_Some_set by fastforce
    then show ?thesis using assms Some by (simp add: complete_restore_def Let_def split: if_splits)
  next
    case None
    then obtain db1 db2 where ins: "insert_steps r db = Inr db1" "insert_findings r db1 = Inr db2"
      using assms by (auto simp: complete_restore_def Let_def bindE_Inr_iff)
    from rows [OF ins] have db2: "insert_findings r db1 = Inr (with_report_rows r db)" using ins(2) by simp
    show ?thesis using assms None
      by (auto simp: complete_restore_def Let_def ins(1) db2 closed_run_def [abs_def] runs split: if_splits)
  qed
qed

lemma enable_effect:
  assumes "enable_restore e db = Inr db'"
  obtains "db' = db"
  | d run v where "stored_digest (en_report e) = Inr d" and "run \<in> set (rd_runs db)"
      and "enable_eligible db (e\<lparr>en_report := d\<rparr>) run" and "joined_inventory db run = Some v"
      and "enablement_checks db (e\<lparr>en_report := d, en_inventory := iv_sha v\<rparr>)"
      and "db' = update_run (\<lambda>x. ru_id x = en_run e) (\<lambda>x. x\<lparr>ru_status := EnabledRun\<rparr>)
             (db\<lparr>rd_enabled := rd_enabled db @ [e\<lparr>en_report := d, en_inventory := iv_sha v\<rparr>]\<rparr>)"
proof -
  obtain d where d: "stored_digest (en_report e) = Inr d" using assms by (auto simp: enable_restore_def bindE_Inr_iff)
  let ?P = "\<lambda>run. enable_eligible db (e\<lparr>en_report := d\<rparr>) run \<and> joined_inventory db run \<noteq> None"
  show thesis
  proof (cases "\<exists>x \<in> set (rd_enabled db). en_run x = en_run e \<or> en_id x = en_id e")
    case True
    then show thesis using assms that(1) by (auto simp: enable_restore_def d bindE_Inr_iff)
  next
    case False
    then obtain run where run: "find ?P (rd_runs db) = Some run"
      using assms by (cases "find ?P (rd_runs db)") (auto simp: enable_restore_def d)
    from find_Some_set [OF run] obtain v where v: "run \<in> set (rd_runs db)" "?P run" "joined_inventory db run = Some v" by auto
    show thesis using that(2) [OF d v(1) _ v(3)] v(2) assms False run by (simp add: enable_restore_def d v(3) bindE_Inr_iff Let_def)
  qed
qed

lemma anchors_frame:
  assumes "recovery_op_result c db = Inr db'" and "\<nexists>t p root. c = OpAccept t p root" and "\<nexists>a v. c = OpAnchor a v"
  shows "rd_accepted db' = rd_accepted db \<and> rd_anchors db' = rd_anchors db"
proof (cases c)
  case (OpComplete r)
  then show ?thesis using assms(1)
    by (auto simp: bindE_Inr_iff update_run_def with_report_rows_def dest!: complete_effect)
next
  case (OpEnable e)
  then have "enable_restore e db = Inr db'" using assms(1) by simp
  then show ?thesis by (rule enable_effect) (simp_all add: update_run_def)
qed (use assms in \<open>auto simp: bindE_Inr_iff dest!: backup_effect installation_effect inventory_effect begin_effect\<close>)

section \<open>The anchor chain\<close>

definition anchors_of :: "recovery_db \<Rightarrow> uuid \<Rightarrow> anchor_record list" where
  "anchors_of db t = filter (\<lambda>a. an_tenant a = t) (rd_anchors db)"

definition anchor_entries :: "accepted_row list \<Rightarrow> anchor_record \<Rightarrow> (int \<times> string) list" where
  "anchor_entries rows a = accepted_entries rows (an_tenant a) (an_start a) (an_end a)"

definition anchored :: "accepted_row list \<Rightarrow> anchor_record \<Rightarrow> bool" where
  "anchored rows a \<longleftrightarrow>
     an_start a \<le> an_end a \<and> map fst (anchor_entries rows a) = [an_start a..an_end a] \<and>
     anchor_digest (an_previous a) (anchor_entries rows a) = Inr (an_sha a)"

fun anchor_chain :: "int \<Rightarrow> string option \<Rightarrow> anchor_record list \<Rightarrow> bool" where
  "anchor_chain n p [] = True"
| "anchor_chain n p (a # as) \<longleftrightarrow> an_start a = n + 1 \<and> an_start a \<le> an_end a \<and> an_previous a = p \<and> anchor_chain (an_end a) (Some (an_sha a)) as"

lemma anchor_chain_append:
  "anchor_chain n p (as @ [a]) \<longleftrightarrow>
     anchor_chain n p as \<and> an_start a = (if as = [] then n else an_end (last as)) + 1 \<and> an_start a \<le> an_end a \<and>
     an_previous a = (if as = [] then p else Some (an_sha (last as)))"
  by (induction as arbitrary: n p) auto

lemma chain_sorted: "anchor_chain n p as \<Longrightarrow> sorted (map an_end as) \<and> (\<forall>a \<in> set as. n < an_end a)"
  by (induction as arbitrary: n p) fastforce+

lemma latest_chain: "anchor_chain n p as \<Longrightarrow> latest_by an_end as = (if as = [] then None else Some (last as))"
  using chain_sorted by (fastforce simp: latest_by_def sort_key_id_if_sorted)

lemma accepted_entries_add:
  assumes "map fst (accepted_entries rows t lo hi) = [lo..hi]" and "ap_position r \<notin> ap_position ` set rows"
  shows "accepted_entries (rows @ [r]) t lo hi = accepted_entries rows t lo hi"
proof -
  have "\<not> (ap_tenant r = t \<and> lo \<le> ap_position r \<and> ap_position r \<le> hi)"
  proof
    assume "ap_tenant r = t \<and> lo \<le> ap_position r \<and> ap_position r \<le> hi"
    then have "ap_position r \<in> set (map fst (accepted_entries rows t lo hi))" by (simp add: assms(1))
    then show False using assms(2) by (auto simp: accepted_entries_def)
  qed
  then have "filter (\<lambda>r. ap_tenant r = t \<and> lo \<le> ap_position r \<and> ap_position r \<le> hi) [r] = []" by simp
  then show ?thesis by (simp only: accepted_entries_def filter_append append_Nil2)
qed

definition anchors_inv :: "recovery_db \<Rightarrow> bool" where
  "anchors_inv db \<longleftrightarrow>
     distinct (map ap_position (rd_accepted db)) \<and> (\<forall>t. anchor_chain 0 None (anchors_of db t)) \<and>
     list_all (anchored (rd_accepted db)) (rd_anchors db)"

lemma anchors_inv_accept:
  assumes "anchors_inv db" and "accept_position t p root db = Inr db'"
  shows "anchors_inv db'"
proof -
  let ?row = "\<lparr>ap_tenant = t, ap_position = p, ap_root = root\<rparr>"
  have db': "db' = db\<lparr>rd_accepted := rd_accepted db @ [?row]\<rparr>" and new: "p \<notin> ap_position ` set (rd_accepted db)"
    using assms(2) by (simp_all add: accept_position_effect)
  have "anchored (rd_accepted db @ [?row]) a" if "anchored (rd_accepted db) a" for a
    using that accepted_entries_add [of "rd_accepted db" "an_tenant a" "an_start a" "an_end a" ?row] new
    by (auto simp: anchored_def anchor_entries_def)
  then show ?thesis using assms(1) new by (auto simp: anchors_inv_def db' anchors_of_def list_all_iff)
qed

lemma anchors_inv_anchor:
  assumes "anchors_inv db" and "insert_anchor a db = Inr db'"
  shows "anchors_inv db'"
  using anchor_effect [OF assms(2)]
proof (elim disjE conjE)
  assume db': "db' = db\<lparr>rd_anchors := rd_anchors db @ [a]\<rparr>"
    and pred: "require_anchor_predecessor a (latest_by an_end (filter (\<lambda>x. an_tenant x = an_tenant a) (rd_anchors db))) = Inr ()"
    and ok: "anchor_row_ok db a"
    and range: "map fst (accepted_entries (rd_accepted db) (an_tenant a) (an_start a) (an_end a)) = [an_start a..an_end a]"
    and digest: "anchor_digest (an_previous a) (accepted_entries (rd_accepted db) (an_tenant a) (an_start a) (an_end a)) = Inr (an_sha a)"
  let ?as = "anchors_of db (an_tenant a)"
  have chain: "anchor_chain 0 None ?as" and rows: "list_all (anchored (rd_accepted db)) (rd_anchors db)"
    using assms(1) by (auto simp: anchors_inv_def)
  have start: "an_start a \<le> an_end a" using ok by (simp add: anchor_row_ok_def)
  have "require_anchor_predecessor a (if ?as = [] then None else Some (last ?as)) = Inr ()"
    using pred latest_chain [OF chain] by (simp add: anchors_of_def)
  then have "anchor_chain 0 None (?as @ [a])"
    using chain start by (auto simp: anchor_chain_append require_anchor_predecessor_def split: if_splits)
  moreover have "anchors_of db' t = (if t = an_tenant a then ?as @ [a] else anchors_of db t)" for t
    by (simp add: anchors_of_def db')
  moreover have "anchored (rd_accepted db) a" using start range digest by (simp add: anchored_def anchor_entries_def)
  ultimately show ?thesis using assms(1) rows by (simp add: anchors_inv_def) (simp add: db')
qed (simp add: assms(1))

lemma anchors_inv_step: "anchors_inv db \<Longrightarrow> anchors_inv (recovery_step c db)"
proof (cases "recovery_op_result c db")
  case (Inr db')
  assume inv: "anchors_inv db"
  consider (accept) t p root where "c = OpAccept t p root" | (anchor) a v where "c = OpAnchor a v"
    | (other) "\<nexists>t p root. c = OpAccept t p root" "\<nexists>a v. c = OpAnchor a v" by blast
  then have "anchors_inv db'"
  proof cases
    case accept
    then show ?thesis using anchors_inv_accept [OF inv] Inr by simp
  next
    case anchor
    then have "insert_anchor a db = Inr db'" using Inr
      by (auto simp: bindE_Inr_iff record_anchor_def anchor_checked_def verification_checked_def split: if_splits)
    then show ?thesis by (rule anchors_inv_anchor [OF inv])
  next
    case other
    then show ?thesis using anchors_frame [OF Inr] inv by (simp add: anchors_inv_def anchors_of_def)
  qed
  then show ?thesis by (simp add: recovery_step_def Inr)
qed (simp add: recovery_step_def)

interpretation anchor_machine: guarded_machine recovery_step anchors_inv
  by unfold_locales (rule anchors_inv_step)

lemma run_anchors_inv: "anchors_inv (recovery_run tenants ops)"
  unfolding recovery_run_def
  by (rule anchor_machine.run_inv) (simp add: anchors_inv_def empty_recovery_def anchors_of_def)

section \<open>What the last anchor identifies\<close>

lemma accepted_entries_split:
  assumes "distinct (map ap_position rows)" and "lo \<le> m + 1" and "m \<le> hi"
  shows "accepted_entries rows t lo hi = accepted_entries rows t lo m @ accepted_entries rows t (m + 1) hi"
proof -
  let ?sel = "\<lambda>lo hi. sort_key ap_position (filter (\<lambda>r. ap_tenant r = t \<and> lo \<le> ap_position r \<and> ap_position r \<le> hi) rows)"
  have inj: "inj_on ap_position (set rows)" and dist: "distinct rows" using assms(1) by (simp_all add: distinct_map)
  have parts: "distinct (map ap_position (?sel lo hi))" for lo hi
    using dist inj by (auto simp: distinct_map intro: inj_on_subset)
  have "?sel lo hi = ?sel lo m @ ?sel (m + 1) hi"
  proof (rule map_sorted_distinct_set_unique [where f = ap_position])
    show "inj_on ap_position (set (?sel lo hi) \<union> set (?sel lo m @ ?sel (m + 1) hi))"
      by (rule inj_on_subset [OF inj]) auto
    show "sorted (map ap_position (?sel lo m @ ?sel (m + 1) hi))"
      by (auto simp: sorted_append)
    show "distinct (map ap_position (?sel lo m @ ?sel (m + 1) hi))"
      using parts [of lo m] parts [of "m + 1" hi] by auto
    show "set (?sel lo hi) = set (?sel lo m @ ?sel (m + 1) hi)" using assms(2,3) by auto
  qed (simp_all add: parts)
  then show ?thesis by (simp add: accepted_entries_def)
qed

lemma chain_last: "anchor_chain n p as \<Longrightarrow> a \<in> set as \<Longrightarrow> an_end a \<le> an_end (last as)"
proof (induction as arbitrary: n p)
  case (Cons x as)
  show ?case
  proof (cases "as = []")
    case False
    then have "an_end x < an_end (last as)" using chain_sorted [of "an_end x" "Some (an_sha x)" as] Cons.prems(1) by simp
    then show ?thesis using Cons False by auto
  qed (use Cons.prems in simp)
qed simp

lemma chain_end: "anchor_chain n p as \<Longrightarrow> as \<noteq> [] \<Longrightarrow> n < an_end (last as)"
  using chain_sorted by fastforce

lemma chain_entries:
  assumes "anchor_chain 0 None as" and "list_all (anchored rows) as" and "\<forall>a \<in> set as. an_tenant a = t" and "as \<noteq> []"
    and "distinct (map ap_position rows)"
  shows "accepted_entries rows t 1 (an_end (last as)) = concat (map (anchor_entries rows) as) \<and>
    map fst (accepted_entries rows t 1 (an_end (last as))) = [1..an_end (last as)]"
  using assms(1-4)
proof (induction as rule: rev_induct)
  case (snoc a as)
  have a: "anchored rows a" "an_tenant a = t" using snoc.prems(2,3) by auto
  show ?case
  proof (cases "as = []")
    case True
    then have "an_start a = 1" using snoc.prems(1) by simp
    then show ?thesis using a True by (simp add: anchor_entries_def anchored_def)
  next
    case False
    let ?m = "an_end (last as)"
    have chain: "anchor_chain 0 None as" "an_start a = ?m + 1" "an_start a \<le> an_end a"
      using snoc.prems(1) False by (auto simp: anchor_chain_append)
    have m: "0 < ?m" using chain_end [OF chain(1) False] .
    have "list_all (anchored rows) as" "\<forall>a \<in> set as. an_tenant a = t" using snoc.prems(2,3) by simp_all
    note IH = conjunct1 [OF snoc.IH [OF chain(1) this False]] conjunct2 [OF snoc.IH [OF chain(1) this False]]
    have ae: "anchor_entries rows a = accepted_entries rows t (?m + 1) (an_end a)" using a(2) chain(2) by (simp add: anchor_entries_def)
    have "accepted_entries rows t 1 (an_end a) = accepted_entries rows t 1 ?m @ anchor_entries rows a"
      using accepted_entries_split [OF assms(5), of 1 ?m "an_end a" t] m chain(2,3) ae by simp
    moreover have "map fst (anchor_entries rows a) = [?m + 1..an_end a]" using a(1) chain(2) by (simp add: anchored_def)
    moreover have "[1..an_end a] = [1..?m] @ [?m + 1..an_end a]" using m chain(2,3) by (intro upto_split2) simp_all
    ultimately show ?thesis using IH(2) by (simp add: IH(1) [symmetric])
  qed
qed simp

definition anchor_text :: "accepted_row list \<Rightarrow> anchor_record \<Rightarrow> string" where
  "anchor_text rows a = json_dumps (anchor_payload (an_previous a) (anchor_entries rows a))"

lemma anchored_sha: "anchored rows a \<Longrightarrow> an_sha a = ''sha256:'' @ sha256_hex (anchor_text rows a)"
  by (auto simp: anchored_def anchor_digest_def integrity_digest_def anchor_text_def split: if_splits)

lemma entry_canon_inj:
  "json_canon (JObj [(''acceptance_position'', JInt p), (''command_root'', JStr root)]) =
     json_canon (JObj [(''acceptance_position'', JInt q), (''command_root'', JStr root')]) \<Longrightarrow> p = q \<and> root = root'"
  using canon_obj_member [of _ _ "''acceptance_position''"] canon_obj_member [of _ _ "''command_root''"] by fastforce

lemma anchor_payload_inj:
  assumes "json_dumps (anchor_payload p es) = json_dumps (anchor_payload q fs)"
  shows "p = q \<and> es = fs"
proof -
  let ?entry = "\<lambda>(p :: int, root). JObj [(''acceptance_position'', JInt p), (''command_root'', JStr root)]"
  have canon: "json_canon (anchor_payload p es) = json_canon (anchor_payload q fs)" using assms by (simp only: json_dumps_inj)
  have "json_canon (json_digest p) = json_canon (json_digest q)"
    using canon unfolding anchor_payload_def by (rule canon_obj_member [where k = "''previous_anchor_sha256''"]) simp_all
  then have "p = q" by (simp add: json_digest_def split: option.splits)
  have "json_canon (JList (map ?entry es)) = json_canon (JList (map ?entry fs))"
    using canon unfolding anchor_payload_def by (rule canon_obj_member [where k = "''entries''"]) simp_all
  then have "map (json_canon \<circ> ?entry) es = map (json_canon \<circ> ?entry) fs" by (simp add: json_canon_items_map)
  moreover have "inj (json_canon \<circ> ?entry)"
  proof (rule injI)
    fix x y :: "int \<times> string"
    assume eq: "(json_canon \<circ> ?entry) x = (json_canon \<circ> ?entry) y"
    obtain a b c d where "x = (a, b)" "y = (c, d)" by (cases x, cases y) blast
    then show "x = y" using eq entry_canon_inj [of a b c d] by (simp only: o_apply prod.case)
  qed
  ultimately have "es = fs" by (simp only: inj_map_eq_map)
  with \<open>p = q\<close> show ?thesis by simp
qed


lemma chain_heads:
  assumes "anchor_chain 0 None as" and "list_all (anchored rows) as" and "anchor_chain 0 None bs" and "list_all (anchored rows') bs"
    and "\<forall>x \<in> anchor_text rows ` set as. \<forall>y \<in> anchor_text rows' ` set bs. sha256_hex x = sha256_hex y \<longrightarrow> x = y"
    and "as \<noteq> []" and "bs \<noteq> []" and "an_sha (last as) = an_sha (last bs)"
  shows "map (anchor_entries rows) as = map (anchor_entries rows') bs"
  using assms
proof (induction as arbitrary: bs rule: rev_induct)
  case (snoc a as)
  obtain bs' b where bs: "bs = bs' @ [b]" using snoc.prems(7) by (cases bs rule: rev_cases) auto
  have anc: "anchored rows a" "anchored rows' b" using snoc.prems(2,4) by (simp_all add: bs)
  have "sha256_hex (anchor_text rows a) = sha256_hex (anchor_text rows' b)"
    using snoc.prems(8) anchored_sha [OF anc(1)] anchored_sha [OF anc(2)] by (simp add: bs)
  then have "anchor_text rows a = anchor_text rows' b" using bspec [OF bspec [OF snoc.prems(5), of "anchor_text rows a"], of "anchor_text rows' b"] unfolding bs by force
  then have same: "an_previous a = an_previous b" "anchor_entries rows a = anchor_entries rows' b"
    using anchor_payload_inj [of "an_previous a" _ "an_previous b"] unfolding anchor_text_def by blast+
  have chain: "anchor_chain 0 None as" "an_previous a = (if as = [] then None else Some (an_sha (last as)))"
      "anchor_chain 0 None bs'" "an_previous b = (if bs' = [] then None else Some (an_sha (last bs')))"
    using snoc.prems(1,3) unfolding bs anchor_chain_append by blast+
  show ?case
  proof (cases "as = []")
    case True
    then have "bs' = []" using chain same(1) by (auto split: if_splits)
    then show ?thesis using True same(2) by (simp add: bs)
  next
    case False
    then have "bs' \<noteq> []" "an_sha (last as) = an_sha (last bs')" using chain same(1) by (auto split: if_splits)
    moreover have "list_all (anchored rows) as" "list_all (anchored rows') bs'" using snoc.prems(2,4) by (simp_all add: bs)
    moreover have "\<forall>x \<in> anchor_text rows ` set as. \<forall>y \<in> anchor_text rows' ` set bs'. sha256_hex x = sha256_hex y \<longrightarrow> x = y"
      using snoc.prems(5) by (simp add: bs)
    ultimately have "map (anchor_entries rows) as = map (anchor_entries rows') bs'"
      using chain(1,3) False by (intro snoc.IH)
    then show ?thesis using same(2) by (simp add: bs)
  qed
qed simp

definition anchor_texts :: "recovery_db \<Rightarrow> string set" where
  "anchor_texts db = anchor_text (rd_accepted db) ` set (rd_anchors db)"

text \<open>
  C34. The last anchor identifies the accepted history. After any operations, the anchors of a tenant bind every accepted
  position from one to the end of the last anchor, without a gap, to the command root stored for it; and if the last
  anchors of two databases have the same digest (one of them a restored copy, say), then both have the same end and
  the same root at every position up to it, unless two anchor texts are a collision of SHA-256.
\<close>

theorem anchor_identifies_history:
  assumes "anchors_of (recovery_run T ops) t \<noteq> []" and "anchors_of (recovery_run T' ops') t' \<noteq> []"
    and "a = last (anchors_of (recovery_run T ops) t)" and "a' = last (anchors_of (recovery_run T' ops') t')"
    and "an_sha a = an_sha a'"
    and "\<forall>x \<in> anchor_texts (recovery_run T ops). \<forall>y \<in> anchor_texts (recovery_run T' ops'). sha256_hex x = sha256_hex y \<longrightarrow> x = y"
  shows "an_end a' = an_end a \<and>
    map fst (accepted_entries (rd_accepted (recovery_run T ops)) t 1 (an_end a)) = [1..an_end a] \<and>
    accepted_entries (rd_accepted (recovery_run T' ops')) t' 1 (an_end a) =
      accepted_entries (rd_accepted (recovery_run T ops)) t 1 (an_end a)"
proof -
  have facts: "anchor_chain 0 None (anchors_of (recovery_run T ops) t)"
      "list_all (anchored (rd_accepted (recovery_run T ops))) (anchors_of (recovery_run T ops) t)"
      "\<forall>a \<in> set (anchors_of (recovery_run T ops) t). an_tenant a = t"
      "distinct (map ap_position (rd_accepted (recovery_run T ops)))" for T ops t
    using run_anchors_inv [of T ops] by (auto simp: anchors_inv_def anchors_of_def list_all_iff)
  let ?L = "accepted_entries (rd_accepted (recovery_run T ops)) t 1 (an_end a)"
  let ?R = "accepted_entries (rd_accepted (recovery_run T' ops')) t' 1 (an_end a')"
  have "anchor_text (rd_accepted db) ` set (anchors_of db t) \<subseteq> anchor_texts db" for db t by (auto simp: anchor_texts_def anchors_of_def)
  then have "map (anchor_entries (rd_accepted (recovery_run T ops))) (anchors_of (recovery_run T ops) t) =
      map (anchor_entries (rd_accepted (recovery_run T' ops'))) (anchors_of (recovery_run T' ops') t')"
    using assms by (intro chain_heads facts) blast+
  then have entries: "?R = ?L" "map fst ?L = [1..an_end a]" "map fst ?R = [1..an_end a']"
    using conjunct1 [OF chain_entries [OF facts(1-3) assms(1) facts(4)]] conjunct2 [OF chain_entries [OF facts(1-3) assms(1) facts(4)]]
      conjunct1 [OF chain_entries [OF facts(1-3) assms(2) facts(4)]] conjunct2 [OF chain_entries [OF facts(1-3) assms(2) facts(4)]]
    unfolding assms(3,4) by (simp only:)+
  then have "[1..an_end a] = [1..an_end a']" by simp
  moreover have "0 < an_end a" "0 < an_end a'" using chain_end [OF facts(1)] assms(1-4) by auto
  ultimately have "an_end a' = an_end a" by (metis last_snoc upto_rec2 int_one_le_iff_zero_less)
  then show ?thesis using entries by simp
qed

lemma accepted_step:
  "set (rd_accepted (recovery_step c db)) \<subseteq> set (rd_accepted db) \<union> {r. c = OpAccept (ap_tenant r) (ap_position r) (ap_root r)}"
proof (cases "recovery_op_result c db")
  case (Inr db')
  then have step: "recovery_step c db = db'" by (simp add: recovery_step_def)
  consider (accept) t p root where "c = OpAccept t p root" | (anchor) a v where "c = OpAnchor a v"
    | (other) "\<nexists>t p root. c = OpAccept t p root" "\<nexists>a v. c = OpAnchor a v" by blast
  then show ?thesis
  proof cases
    case accept
    then have "accept_position t p root db = Inr db'" using Inr by simp
    then show ?thesis unfolding step using accept by (auto simp: accept_position_effect)
  next
    case anchor
    then have "insert_anchor a db = Inr db'" using Inr
      by (auto simp: bindE_Inr_iff record_anchor_def anchor_checked_def verification_checked_def split: if_splits)
    then show ?thesis unfolding step using anchor_effect by fastforce
  next
    case other
    then show ?thesis unfolding step using anchors_frame [OF Inr] by simp
  qed
qed (simp add: recovery_step_def)

lemma accepted_run: "r \<in> set (rd_accepted (recovery_run T ops)) \<Longrightarrow> OpAccept (ap_tenant r) (ap_position r) (ap_root r) \<in> set ops"
proof (induction ops rule: rev_induct)
  case (snoc c ops)
  then show ?case using accepted_step [of c "recovery_run T ops"] by (auto simp: recovery_run_def)
qed (simp add: recovery_run_def empty_recovery_def)

text \<open>A position that is never accepted for a tenant ends its anchoring, whatever else is accepted and whatever anchors are offered.\<close>

lemma missing_position_stops_anchors:
  assumes "1 \<le> p" and "\<nexists>root. OpAccept t p root \<in> set ops" and "a \<in> set (anchors_of (recovery_run T ops) t)"
  shows "an_end a < p"
proof (rule ccontr)
  assume "\<not> an_end a < p"
  let ?rows = "rd_accepted (recovery_run T ops)" and ?a = "last (anchors_of (recovery_run T ops) t)"
  have facts: "anchor_chain 0 None (anchors_of (recovery_run T ops) t)" "list_all (anchored ?rows) (anchors_of (recovery_run T ops) t)"
      "\<forall>a \<in> set (anchors_of (recovery_run T ops) t). an_tenant a = t" "distinct (map ap_position ?rows)"
    using run_anchors_inv [of T ops] by (auto simp: anchors_inv_def anchors_of_def list_all_iff)
  have nonempty: "anchors_of (recovery_run T ops) t \<noteq> []" using assms(3) by auto
  have "an_end a \<le> an_end ?a" by (rule chain_last [OF facts(1) assms(3)])
  then have "p \<in> set (map fst (accepted_entries ?rows t 1 (an_end ?a)))"
    using conjunct2 [OF chain_entries [OF facts(1-3) nonempty facts(4)]] assms(1) \<open>\<not> an_end a < p\<close> by simp
  then obtain r where "r \<in> set ?rows" "ap_tenant r = t" "ap_position r = p" by (auto simp: accepted_entries_def)
  then show False using accepted_run [of r T ops] assms(2) by auto
qed

text \<open>One accepted root and its anchor.\<close>

definition sample_root :: string where
  "sample_root = ''sha256:'' @ sha256_hex ''root''"

definition sample_anchor :: anchor_record where
  "sample_anchor =
     \<lparr>an_id = 5, an_tenant = 1, an_start = 1, an_end = 1, an_previous = None,
      an_sha = integrity_digest (anchor_payload None [(1, sample_root)]), an_signature = ''sig'', an_key_ref = ''key'',
      an_key_version = ''1'', an_public_key = sample_root, an_object_key = ''k'', an_object_version = ''v'', an_at = 0\<rparr>"

definition receipt_verified :: "signed_receipt \<Rightarrow> verification" where
  "receipt_verified r =
     \<lparr>sv_digest = sg_digest r, sv_signature = sg_signature r, sv_key_ref = sg_key_ref r, sv_key_version = sg_key_version r,
      sv_public_key = sg_public_key r, sv_signed = sg_at r, sv_verified = True, sv_verified_at = sg_at r, sv_reason = VerifiedSignature\<rparr>"

definition sample_anchoring :: "recovery_op list" where
  "sample_anchoring = [OpAccept 1 1 sample_root, OpAnchor sample_anchor (receipt_verified (anchor_receipt sample_anchor))]"

lemma verified_binding: "require_signature_binding (receipt_verified r) r = Inr ()"
  by (simp add: require_signature_binding_def receipt_verified_def)

lemma integrity_reference [simp]: "sha256_reference (integrity_digest v)"
  unfolding integrity_digest_def by (rule sha256_reference_hex)

lemma sample_root_reference [simp]: "sha256_reference sample_root"
  unfolding sample_root_def by (rule sha256_reference_hex)

lemma sample_anchor_run:
  "rd_anchors (recovery_run {1} sample_anchoring) = [sample_anchor]"
proof -
  let ?row = "\<lparr>ap_tenant = 1, ap_position = 1, ap_root = sample_root\<rparr>"
  let ?db = "(empty_recovery {1})\<lparr>rd_accepted := [?row]\<rparr>"
  have accept: "recovery_step (OpAccept 1 1 sample_root) (empty_recovery {1}) = ?db"
    by (simp add: recovery_step_def accept_position_def insert_strict_def empty_recovery_def int8_def)
  have checked: "anchor_checked sample_anchor = Inr sample_anchor"
    by (simp add: anchor_checked_def sample_anchor_def stable_reference_def is_lower_def key_char_def)
  have verified: "verification_checked (receipt_verified (anchor_receipt sample_anchor)) = Inr (receipt_verified (anchor_receipt sample_anchor))"
    by (simp add: verification_checked_def receipt_verified_def anchor_receipt_def sample_anchor_def stable_reference_def is_lower_def key_char_def)
  have row_ok: "anchor_row_ok ?db sample_anchor"
    by (simp add: anchor_row_ok_def sample_anchor_def empty_recovery_def int8_def text_between_def code_points_def key_version_ok_def is_digit_def)
  have entries: "accepted_entries (rd_accepted ?db) 1 1 1 = [(1, sample_root)]" by (simp add: accepted_entries_def)
  have "insert_anchor sample_anchor ?db = Inr (?db\<lparr>rd_anchors := [sample_anchor]\<rparr>)"
    using row_ok entries
    by (simp add: insert_anchor_def empty_recovery_def latest_by_def require_anchor_predecessor_def anchor_digest_def insert_strict_def
        sample_anchor_def lift_py_def require_exact_row_def)
  then have "recovery_op_result (OpAnchor sample_anchor (receipt_verified (anchor_receipt sample_anchor))) ?db = Inr (?db\<lparr>rd_anchors := [sample_anchor]\<rparr>)"
    by (simp add: checked verified lift_py_def record_anchor_def verified_binding) (simp add: receipt_verified_def)
  then show ?thesis using accept by (simp add: recovery_run_def sample_anchoring_def recovery_step_def)
qed

lemma anchor_identifies_history_witness:
  "map fst (accepted_entries (rd_accepted (recovery_run {1} sample_anchoring)) 1 1 1) = [1..1]"
proof -
  have as: "anchors_of (recovery_run {1} sample_anchoring) 1 = [sample_anchor]"
    by (simp add: anchors_of_def sample_anchor_run) (simp add: sample_anchor_def)
  have "an_end sample_anchor = 1" by (simp add: sample_anchor_def)
  then show ?thesis
    using anchor_identifies_history [of "{1}" sample_anchoring 1 "{1}" sample_anchoring 1 sample_anchor sample_anchor]
    by (simp add: as anchor_texts_def sample_anchor_run)
qed

end
