(* ===== verification/RestoreTheorems.thy ===== *)
theory RestoreTheorems
  imports RecordTheorems
begin

text \<open>
  The isolated restore: \<open>evaluate_restore\<close> decides exactly its specification, a report can be persisted exactly when its
  duration rounds down, and reads are enabled only behind a clean report that was evaluated and persisted.
\<close>

section \<open>Inventories without failures\<close>

definition source_ready :: "string set \<Rightarrow> expected_source \<Rightarrow> bool" where
  "source_ready reconciled s \<longleftrightarrow>
     map_of i1_sources (es_source s) = Some (es_kind s) \<and>
     (case es_activation s of
        NotExercised \<Rightarrow> es_cursor s = ZeroSource \<and> es_count s = 0 \<and> es_trust_root s = None \<and> es_trusted s = None \<and> es_event s = None
      | ActiveSource \<Rightarrow> es_cursor s = TrustedCursor \<and> 0 < es_count s \<and> nonempty_text (es_trust_root s) \<and> nonempty_text (es_trusted s) \<and>
          nonempty_text (es_event s) \<and> es_source s \<in> reconciled)"

definition sources_ready :: "expected_source list \<Rightarrow> string set \<Rightarrow> bool" where
  "sources_ready ss reconciled \<longleftrightarrow>
     distinct (map es_source ss) \<and> es_source ` set ss = fst ` set i1_sources \<and> list_all (source_ready reconciled) ss"

lemma sources_by_key_clean:
  "snd (sources_by_key ss bk) = [] \<longleftrightarrow> distinct (map es_source ss) \<and> es_source ` set ss \<inter> fst ` set bk = {}"
  by (induction ss bk rule: sources_by_key.induct) (auto simp: map_of_eq_None_iff split: prod.splits)

lemma sources_by_key_all:
  "snd (sources_by_key ss bk) = [] \<Longrightarrow> fst (sources_by_key ss bk) = bk @ map (\<lambda>s. (es_source s, s)) ss"
proof (induction ss arbitrary: bk)
  case (Cons s ss)
  have "map_of bk (es_source s) = None" using Cons.prems by (auto split: prod.splits if_splits)
  then show ?case using Cons.IH [of "bk @ [(es_source s, s)]"] Cons.prems by simp
qed simp

lemma source_failures_none:
  "source_failures (es_source s) s reconciled = [] \<and> map_of i1_sources (es_source s) = Some (es_kind s) \<longleftrightarrow> source_ready reconciled s"
  by (auto simp: source_failures_def source_ready_def inactive_source_failures_def active_source_failures_def split: activation.splits)

lemma inventory_failures_none: "inventory_failures ss reconciled = [] \<longleftrightarrow> sources_ready ss reconciled"
proof (cases "distinct (map es_source ss)")
  case True
  let ?by = "map (\<lambda>s. (es_source s, s)) ss"
  have clean: "sources_by_key ss [] = (?by, [])"
    using sources_by_key_clean [of ss "[]"] sources_by_key_all [of ss "[]"] True by (simp add: prod_eq_iff)
  have lookup: "map_of ?by k = Some s \<longleftrightarrow> s \<in> set ss \<and> es_source s = k" for k s
    using True by (auto simp: map_of_eq_Some_iff o_def)
  have kinds: "distinct (map fst i1_sources)" by (simp add: i1_sources_def)
  have "(\<forall>(k, kind) \<in> set i1_sources. case map_of ?by k of None \<Rightarrow> True
        | Some s \<Rightarrow> es_kind s = kind \<and> source_failures k s reconciled = []) \<longleftrightarrow> list_all (source_ready reconciled) ss"
    if keys: "es_source ` set ss = fst ` set i1_sources"
  proof -
    have "(\<forall>(k, kind) \<in> set i1_sources. case map_of ?by k of None \<Rightarrow> True
        | Some s \<Rightarrow> es_kind s = kind \<and> source_failures k s reconciled = []) \<longleftrightarrow>
        (\<forall>s \<in> set ss. map_of i1_sources (es_source s) = Some (es_kind s) \<and> source_failures (es_source s) s reconciled = [])"
      (is "?L \<longleftrightarrow> ?R")
    proof
      assume L: ?L
      show ?R
      proof
        fix s assume s: "s \<in> set ss"
        then obtain kind where k: "(es_source s, kind) \<in> set i1_sources" using keys by force
        then have "es_kind s = kind \<and> source_failures (es_source s) s reconciled = []"
          using bspec [OF L k] lookup [of "es_source s" s] s by simp
        then show "map_of i1_sources (es_source s) = Some (es_kind s) \<and> source_failures (es_source s) s reconciled = []"
          using k kinds by (simp add: map_of_eq_Some_iff)
      qed
    next
      assume R: ?R
      show ?L using R lookup by (auto split: option.split simp: map_of_eq_Some_iff [OF kinds] dest: eq_key_imp_eq_value [OF kinds])
    qed
    then show ?thesis using source_failures_none by (auto simp: list_all_iff)
  qed
  moreover have "concat (map (\<lambda>(key, kind). case map_of ?by key of None \<Rightarrow> []
        | Some s \<Rightarrow> (if es_kind s \<noteq> kind then [''inventory-source-kind-mismatch:'' @ key] else []) @ source_failures key s reconciled)
        i1_sources) = [] \<longleftrightarrow>
      (\<forall>(k, kind) \<in> set i1_sources. case map_of ?by k of None \<Rightarrow> True
        | Some s \<Rightarrow> es_kind s = kind \<and> source_failures k s reconciled = [])"
    unfolding concat_eq_Nil_conv set_map ball_simps by (intro ball_cong refl) (simp split: option.split prod.split)
  ultimately show ?thesis using True by (simp add: inventory_failures_def clean sources_ready_def image_image)
next
  case False
  then have "snd (sources_by_key ss []) \<noteq> []" using sources_by_key_clean [of ss "[]"] by simp
  then show ?thesis using False by (simp add: inventory_failures_def sources_ready_def split_beta Let_def)
qed

section \<open>Evaluation\<close>

lemma zero_reference: "sha256_reference (''sha256:'' @ replicate 64 (CHR ''0''))"
  by (simp add: sha256_reference_def is_hex_lower_def is_digit_def list_all_iff)

lemma whole_seconds_nonneg: "0 \<le> whole_seconds d \<longleftrightarrow> - second < d"
  by (auto simp: whole_seconds_def second_def)

lemma whole_seconds_le: "0 \<le> n \<Longrightarrow> whole_seconds d \<le> n \<longleftrightarrow> d < (n + 1) * second"
  by (auto simp: whole_seconds_def second_def)

lemma restore_failures_none:
  "restore_failures v s f = [] \<longleftrightarrow>
     sources_ready (iv_sources v) (fa_reconciled f) \<and> sv_verified s \<and> fa_restored f = fa_accepted f \<and>
     fa_artifact_rpo f \<le> max_artifact_rpo \<and> list_all rk_pass (fa_checks f)"
  by (auto simp: restore_failures_def inventory_failures_none list_all_iff)

definition evaluated_report :: "inventory_revision \<Rightarrow> verification \<Rightarrow> restore_facts \<Rightarrow> restore_report" where
  "evaluated_report v s f =
     (let rto = whole_seconds (fa_completed f - fa_started f);
          failures = restore_failures v s f @ (if rto > max_restore_rto then [''restore-rto-exceeded''] else []);
          findings = map (\<lambda>(i, failure). restore_finding_of i failure) (enumerate 1 failures) in
       \<lparr>rr_run = fa_run f, rr_tenant = fa_tenant f, rr_installation = fa_installation f, rr_backup = fa_backup f,
        rr_inventory = iv_sha v, rr_accepted = fa_accepted f, rr_restored = fa_restored f,
        rr_accepted_rpo = fa_accepted f - fa_restored f, rr_artifact_rpo = fa_artifact_rpo f, rr_rto = rto,
        rr_started = fa_started f, rr_completed = fa_completed f, rr_steps = fa_checks f, rr_findings = findings,
        rr_eligible = (findings = [])\<rparr>)"

lemma enumerate_Nil [simp]: "enumerate n xs = [] \<longleftrightarrow> xs = []"
  by (cases xs) auto

lemma evaluated_eligible:
  "rr_eligible (evaluated_report v s f) \<longleftrightarrow>
     sources_ready (iv_sources v) (fa_reconciled f) \<and> sv_verified s \<and> fa_restored f = fa_accepted f \<and> fa_artifact_rpo f \<le> 300 \<and>
     list_all rk_pass (fa_checks f) \<and> fa_completed f - fa_started f < 14401 * second"
proof -
  have "rr_eligible (evaluated_report v s f) \<longleftrightarrow>
      restore_failures v s f = [] \<and> whole_seconds (fa_completed f - fa_started f) \<le> max_restore_rto"
    by (simp add: evaluated_report_def Let_def not_less)
  then show ?thesis by (simp add: restore_failures_none max_restore_rto_def max_artifact_rpo_def whole_seconds_le)
qed

lemma evaluated_checked:
  assumes "sha256_reference (iv_sha v)" and "list_all (sha256_reference \<circ> rk_evidence) (fa_checks f)"
    and "map rk_kind (fa_checks f) = restore_order" and "fa_restored f \<le> fa_accepted f" and "- second < fa_completed f - fa_started f"
  shows "report_checked (evaluated_report v s f) =
    (if fa_restored f < 0 then Inl (ValueError ''restore positions must be nonnegative'')
     else if fa_artifact_rpo f < 0 then Inl (ValueError ''artifact RPO must be nonnegative'')
     else Inr (evaluated_report v s f))"
proof -
  let ?r = "evaluated_report v s f"
  have fields: "rr_inventory ?r = iv_sha v" "rr_steps ?r = fa_checks f" "rr_accepted ?r = fa_accepted f" "rr_restored ?r = fa_restored f"
      "rr_accepted_rpo ?r = fa_accepted f - fa_restored f" "rr_artifact_rpo ?r = fa_artifact_rpo f"
      "rr_rto ?r = whole_seconds (fa_completed f - fa_started f)" "rr_started ?r = fa_started f" "rr_completed ?r = fa_completed f"
      "rr_findings ?r = [] \<longleftrightarrow> rr_eligible ?r"
    by (simp_all add: evaluated_report_def Let_def)
  have zeros: "list_all (sha256_reference \<circ> rf_evidence) (rr_findings ?r)"
    by (auto simp: evaluated_report_def Let_def restore_finding_of_def list_all_iff zero_reference [simplified])
  have eligible: "rr_eligible ?r \<longleftrightarrow> restore_is_eligible ?r (fa_accepted f - fa_restored f) (whole_seconds (fa_completed f - fa_started f))"
    unfolding restore_is_eligible_def fields evaluated_eligible
    by (auto simp: max_restore_rto_def max_artifact_rpo_def whole_seconds_le)
  have "\<not> whole_seconds (fa_completed f - fa_started f) < 0" using iffD2 [OF whole_seconds_nonneg assms(5)] by simp
  then show ?thesis using assms(1-4) zeros eligible
    by (simp add: report_checked_def validate_restore_order_def validate_restore_metrics_def fields raise_if_def Let_def)
qed

text \<open>
  C38. The evaluation of a restore decides exactly its specification. It yields a report exactly when the checks are the
  twelve steps in order, the verification is of this inventory, whose digest binds it, the positions are in order, and the
  completion is not a full second before the start; the report is eligible exactly when the
  inventory declares each of the three journals rightly and reconciled, the signature verified, nothing accepted was lost, the
  artifacts are at most five minutes old, every step passed, and the restore took at most four hours and a fraction of a second; and an
  ineligible report names a finding. The report's own validation never disagrees.
\<close>

theorem evaluate_restore_exact:
  assumes "sha256_reference (iv_sha v)" and "list_all (sha256_reference \<circ> rk_evidence) (fa_checks f)"
  shows "((\<exists>r. evaluate_restore v s f = Inr r) \<longleftrightarrow>
      map rk_kind (fa_checks f) = restore_order \<and> inventory_digest v = iv_sha v \<and> require_signature_binding s (inventory_receipt v) = Inr () \<and>
      0 \<le> fa_restored f \<and> fa_restored f \<le> fa_accepted f \<and> 0 \<le> fa_artifact_rpo f \<and> fa_started f - second < fa_completed f) \<and>
    (\<forall>r. evaluate_restore v s f = Inr r \<longrightarrow>
      (rr_eligible r \<longleftrightarrow>
        sources_ready (iv_sources v) (fa_reconciled f) \<and> sv_verified s \<and> fa_restored f = fa_accepted f \<and> fa_artifact_rpo f \<le> 300 \<and>
        list_all rk_pass (fa_checks f) \<and> fa_completed f - fa_started f < 14401 * second) \<and>
      (rr_findings r = [] \<longleftrightarrow> rr_eligible r) \<and> report_checked r = Inr r)"
proof -
  have eval: "evaluate_restore v s f =
      bindE (validate_restore_order (fa_checks f)) (\<lambda>_. bindE (require_inventory_verification v s) (\<lambda>_.
        if whole_seconds (fa_completed f - fa_started f) < 0 then Inl (ValueError ''restore completion cannot predate its start'')
        else if fa_restored f > fa_accepted f then Inl (ValueError ''restored position cannot exceed accepted source position'')
        else report_checked (evaluated_report v s f)))"
    by (simp add: evaluate_restore_def evaluated_report_def Let_def)
  have neg: "whole_seconds d < 0 \<longleftrightarrow> \<not> - second < d" for d using whole_seconds_nonneg [of d] by linarith
  have yields: "evaluate_restore v s f = Inr r \<longleftrightarrow>
      (map rk_kind (fa_checks f) = restore_order \<and> inventory_digest v = iv_sha v \<and> require_signature_binding s (inventory_receipt v) = Inr () \<and>
       0 \<le> fa_restored f \<and> fa_restored f \<le> fa_accepted f \<and> 0 \<le> fa_artifact_rpo f \<and> fa_started f - second < fa_completed f) \<and>
      r = evaluated_report v s f" for r
    unfolding eval bindE_Inr_iff validate_restore_order_def require_inventory_verification_def neg
    using evaluated_checked [OF assms] by (auto split: if_splits)
  have "rr_findings (evaluated_report v s f) = [] \<longleftrightarrow> rr_eligible (evaluated_report v s f)" by (simp add: evaluated_report_def Let_def)
  moreover have "report_checked (evaluated_report v s f) = Inr (evaluated_report v s f)"
    if "map rk_kind (fa_checks f) = restore_order" "0 \<le> fa_restored f" "fa_restored f \<le> fa_accepted f" "0 \<le> fa_artifact_rpo f"
      "fa_started f - second < fa_completed f"
    using evaluated_checked [OF assms that(1,3)] that by simp
  ultimately show ?thesis using yields evaluated_eligible by auto
qed

section \<open>Completion\<close>

lemma checked_report:
  assumes "report_checked r = Inr r'"
  shows "r' = r \<and> map rk_kind (rr_steps r) = restore_order \<and> 0 \<le> rr_restored r \<and> rr_restored r \<le> rr_accepted r \<and>
    rr_accepted_rpo r = rr_accepted r - rr_restored r \<and> rr_rto r = whole_seconds (rr_completed r - rr_started r) \<and> 0 \<le> rr_rto r \<and>
    0 \<le> rr_artifact_rpo r \<and>
    (rr_eligible r \<longleftrightarrow> rr_restored r = rr_accepted r \<and> rr_artifact_rpo r \<le> 300 \<and> rr_rto r \<le> 14400 \<and>
       list_all rk_pass (rr_steps r) \<and> rr_findings r = [])"
  using assms
  by (auto simp: report_checked_def bindE_Inr_iff validate_restore_order_def validate_restore_metrics_def restore_is_eligible_def
      max_artifact_rpo_def max_restore_rto_def Let_def split: if_splits)

lemma passed_report_steps:
  assumes "\<forall>x \<in> set (rd_steps db). st_run x \<noteq> rr_run r" and "ru_id run = rr_run r" and "ru_tenant run = rr_tenant r"
  shows "passed_steps (with_report_rows r db) run = map rk_kind (filter rk_pass (rr_steps r))"
proof -
  let ?row = "\<lambda>(i, c). \<lparr>st_run = rr_run r, st_tenant = rr_tenant r, st_sequence = i, st_check = c, st_at = rr_completed r\<rparr>"
  let ?P = "\<lambda>s. st_run s = ru_id run \<and> st_tenant s = ru_tenant run \<and> rk_pass (st_check s)"
  have old: "filter ?P (rd_steps db) = []" using assms by (auto simp: filter_empty_conv)
  have rows: "sorted (map st_sequence (filter ?P (map ?row (enumerate n cs))))" "\<forall>s \<in> set (filter ?P (map ?row (enumerate n cs))). n \<le> st_sequence s"
      "map (rk_kind \<circ> st_check) (filter ?P (map ?row (enumerate n cs))) = map rk_kind (filter rk_pass cs)" for n cs
  proof (induction cs arbitrary: n)
    case (Cons c cs)
    { case 1 then show ?case using Cons.IH [of "Suc n"] assms(2,3) by auto
    next
      case 2 then show ?case using Cons.IH [of "Suc n"] assms(2,3) by auto
    next
      case 3 then show ?case using Cons.IH [of "Suc n"] assms(2,3) by auto
    }
  qed simp_all
  have "filter ?P (rd_steps (with_report_rows r db)) = filter ?P (step_rows r)" using old by (simp add: with_report_rows_def)
  then show ?thesis
    unfolding passed_steps_def step_rows_def using rows(1,3) [of 1 "rr_steps r"] by (simp add: sort_key_id_if_sorted)
qed

lemma epoch_whole:
  assumes "0 \<le> d"
  shows "epoch_integer d = whole_seconds d \<longleftrightarrow> d mod second < 500000"
proof -
  let ?m = "d mod 1000000"
  have m: "0 \<le> ?m" "?m < 1000000" by simp_all
  have "d + 500000 = (?m + 500000) + d div 1000000 * 1000000" using mod_div_mult_eq [of d 1000000] by linarith
  moreover have "((?m + 500000) + d div 1000000 * 1000000) div 1000000 = d div 1000000 + (?m + 500000) div 1000000"
    by (rule div_mult_self1) simp
  ultimately have split: "(d + 500000) div 1000000 = d div 1000000 + (?m + 500000) div 1000000" by (simp only:)
  have "(?m + 500000) div 1000000 = (if ?m < 500000 then 0 else 1)"
    using m by (simp add: div_pos_pos_trivial div_pos_geq)
  then show ?thesis using assms split by (simp add: epoch_integer_def whole_seconds_def second_def)
qed

lemma all_pass_order: "map rk_kind cs = restore_order \<Longrightarrow> map rk_kind (filter rk_pass cs) = restore_order \<longleftrightarrow> list_all rk_pass cs"
proof
  assume "map rk_kind cs = restore_order" "map rk_kind (filter rk_pass cs) = restore_order"
  then have "length (filter rk_pass cs) = length cs" by (metis length_map)
  then show "list_all rk_pass cs" using length_filter_less [of _ cs rk_pass] by (fastforce simp: list_all_iff)
next
  assume "map rk_kind cs = restore_order" "list_all rk_pass cs"
  then show "map rk_kind (filter rk_pass cs) = restore_order" by (simp add: list_all_iff filter_True)
qed

lemma filter_only: "distinct xs \<Longrightarrow> x \<in> set xs \<Longrightarrow> filter (\<lambda>y. y = x) xs = [x]"
  by (induction xs) (auto simp: filter_empty_conv)

text \<open>A run is open for a report: it was begun with its facts, and nothing was stored for it.\<close>

definition awaits_report :: "recovery_db \<Rightarrow> restore_report \<Rightarrow> restore_run \<Rightarrow> bool" where
  "awaits_report db r run \<longleftrightarrow>
     run \<in> set (rd_runs db) \<and> distinct (map ru_id (rd_runs db)) \<and> ru_id run = rr_run r \<and> ru_tenant run = rr_tenant r \<and>
     ru_installation run = rr_installation r \<and> ru_backup run = rr_backup r \<and> ru_accepted run = rr_accepted r \<and>
     ru_restored run = rr_restored r \<and> ru_accepted_rpo run = rr_accepted r - rr_restored r \<and> ru_artifact_rpo run = rr_artifact_rpo r \<and>
     ru_started run = rr_started r \<and> ru_status run = Quarantined \<and> ru_completed run = None \<and> ru_report run = None \<and>
     map_option iv_sha (joined_inventory db run) = Some (rr_inventory r) \<and>
     (\<forall>x \<in> set (rd_steps db). st_run x \<noteq> rr_run r) \<and> (\<forall>x \<in> set (rd_findings db). fd_run x \<noteq> rr_run r)"

text \<open>
  C39. A restore can be completed exactly when its duration rounds down. For a valid report of a run that awaits it, whose rows
  can be stored, completion succeeds exactly when the completion is not before the start and the fraction of a second
  in the duration is below one half: the report truncates the duration, the database rounds it, and both must
  agree. Other restores, however clean, are refused and can never be enabled.
\<close>

theorem restore_completes_exactly:
  assumes "report_checked r = Inr r" and "awaits_report db r run"
    and "bindE (insert_steps r db) (insert_findings r) = Inr db1"
  shows "(\<exists>x. complete_restore r db = Inr x) \<longleftrightarrow>
    rr_started r \<le> rr_completed r \<and> (rr_completed r - rr_started r) mod second < 500000"
proof -
  let ?d = "rr_completed r - rr_started r"
  note R = checked_report [OF assms(1)]
  have run: "run \<in> set (rd_runs db)" "distinct (map ru_id (rd_runs db))" "ru_id run = rr_run r" "ru_tenant run = rr_tenant r"
      "ru_installation run = rr_installation r"
      "map_option iv_sha (joined_inventory db run) = Some (rr_inventory r)" "ru_status run = Quarantined" "ru_completed run = None"
      "ru_report run = None" "ru_accepted_rpo run = rr_accepted r - rr_restored r" "ru_artifact_rpo run = rr_artifact_rpo r"
      "\<forall>x \<in> set (rd_steps db). st_run x \<noteq> rr_run r" "\<forall>x \<in> set (rd_findings db). fd_run x \<noteq> rr_run r"
    using assms(2) by (simp_all add: awaits_report_def)
  have only: "x = run" if "x \<in> set (rd_runs db)" "ru_id x = rr_run r" for x
    using that run(1-3) by (metis distinct_map inj_onD)
  obtain db0 where steps: "insert_steps r db = Inr db0" "insert_findings r db0 = Inr db1" using assms(3) by (auto simp: bindE_Inr_iff)
  have db1: "db1 = with_report_rows r db"
    using steps_effect [OF steps(1)] findings_effect [OF steps(2)] by (simp add: with_report_rows_def)
  have tables: "rd_runs db1 = rd_runs db" "joined_inventory db1 = joined_inventory db"
    by (simp_all add: db1 with_report_rows_def joined_inventory_def fun_eq_iff)
  have M: "run_matches_report run r \<longleftrightarrow> rr_started r \<le> rr_completed r \<and> ?d mod second < 500000"
    using assms(2) R epoch_whole [of ?d] by (auto simp: awaits_report_def run_matches_report_def)
  have found: "(\<exists>f \<in> set (rd_findings db1). fd_run f = ru_id run) \<longleftrightarrow> rr_findings r \<noteq> []"
    using run(3,13) by (cases "rr_findings r") (auto simp: db1 with_report_rows_def finding_rows_def)
  have passed: "passed_steps db1 run = restore_order \<longleftrightarrow> list_all rk_pass (rr_steps r)"
    unfolding db1 passed_report_steps [OF run(12,3,4)] using R by (simp add: all_pass_order)
  have "persisted_restore_eligible db1 r \<longleftrightarrow> run_matches_report run r \<and> rr_eligible r"
  proof -
    have "persisted_restore_eligible db1 r \<longleftrightarrow> run_matches_report run r \<and> ru_accepted_rpo run = 0 \<and> ru_artifact_rpo run \<le> 300 \<and>
        0 \<le> rr_rto r \<and> rr_rto r \<le> 14400 \<and> passed_steps db1 run = restore_order \<and> rr_findings r = []"
      unfolding persisted_restore_eligible_def tables using only run(1,6) found
      by (auto simp: run_matches_report_def)
    then show ?thesis using passed R run(10,11) by auto
  qed
  moreover have "length (filter (open_for_report db1 r) (rd_runs db)) = (if run_matches_report run r then 1 else 0)"
  proof -
    have "open_for_report db1 r x \<longleftrightarrow> x = run \<and> run_matches_report run r" if "x \<in> set (rd_runs db)" for x
      using only [OF that] run(6-8) by (auto simp: open_for_report_def tables run_matches_report_def)
    then have "filter (open_for_report db1 r) (rd_runs db) = filter (\<lambda>x. x = run \<and> run_matches_report run r) (rd_runs db)"
      by (rule filter_cong [OF refl])
    moreover have "length (filter (\<lambda>x. x = run) (rd_runs db)) = 1"
      using filter_only [OF _ run(1)] run(2) by (simp add: distinct_map)
    ultimately show ?thesis by simp
  qed
  moreover have "Option.bind (find (\<lambda>x. ru_id x = rr_run r \<and> ru_tenant x = rr_tenant r \<and> ru_installation x = rr_installation r) (rd_runs db)) ru_report = None"
    (is "Option.bind ?f _ = None")
  proof (cases ?f)
    case (Some x)
    then show ?thesis using only [of x] run(9) find_Some_set [OF Some] by auto
  qed simp
  ultimately have "(\<exists>x. complete_restore r db = Inr x) \<longleftrightarrow> run_matches_report run r"
    by (auto simp: complete_restore_def Let_def steps tables)
  then show ?thesis by (simp only: M)
qed

section \<open>Where every row comes from\<close>

definition active_keys :: "inventory_revision \<Rightarrow> string set" where
  "active_keys i = es_source ` set (filter (\<lambda>x. es_activation x = ActiveSource) (iv_sources i))"

definition installation_from :: "recovery_op list \<Rightarrow> installation \<Rightarrow> bool" where
  "installation_from ops i \<longleftrightarrow>
     (\<exists>v. OpInstallation i v \<in> set ops \<and> sv_verified v \<and> require_signature_binding v (installation_receipt i) = Inr ())"

definition inventory_from :: "recovery_op list \<Rightarrow> inventory_revision \<Rightarrow> bool" where
  "inventory_from ops i \<longleftrightarrow>
     (\<exists>v. OpInventory i v \<in> set ops \<and> sv_verified v \<and> require_signature_binding v (inventory_receipt i) = Inr () \<and>
        inventory_digest i = iv_sha i \<and> sources_ready (iv_sources i) (active_keys i))"

definition report_from :: "recovery_op list \<Rightarrow> recovery_db \<Rightarrow> restore_run \<Rightarrow> restore_report \<Rightarrow> bool" where
  "report_from ops db run r \<longleftrightarrow>
     OpComplete r \<in> set ops \<and> report_checked r = Inr r \<and> ru_report run = Some (report_digest r) \<and> run_matches_report run r \<and>
     map_option iv_sha (joined_inventory db run) = Some (rr_inventory r) \<and> (ru_status run = FailedRun \<longleftrightarrow> \<not> rr_eligible r)"

definition run_from :: "recovery_op list \<Rightarrow> recovery_db \<Rightarrow> restore_run \<Rightarrow> bool" where
  "run_from ops db run \<longleftrightarrow>
     OpBegin (opening_of run) \<in> set ops \<and> run_keys_ok db run \<and>
     (if ru_report run = None then ru_status run = Quarantined \<and> ru_completed run = None else Ex (report_from ops db run))"

definition enablement_from :: "recovery_op list \<Rightarrow> recovery_db \<Rightarrow> enablement \<Rightarrow> bool" where
  "enablement_from ops db e \<longleftrightarrow>
     (\<exists>e'. OpEnable e' \<in> set ops \<and> en_run e' = en_run e \<and> en_authority e' = en_authority e) \<and>
     (\<exists>run \<in> set (rd_runs db). ru_id run = en_run e \<and> ru_tenant run = en_tenant e \<and> ru_installation run = en_installation e \<and>
        ru_report run = Some (en_report e) \<and> ru_status run = EnabledRun)"

definition restore_inv :: "recovery_op list \<Rightarrow> recovery_db \<Rightarrow> bool" where
  "restore_inv ops db \<longleftrightarrow>
     list_all (installation_from ops) (rd_installations db) \<and> list_all (\<lambda>b. OpBackup b \<in> set ops) (rd_backups db) \<and>
     list_all (inventory_from ops) (rd_inventories db) \<and> distinct (map ru_id (rd_runs db)) \<and>
     list_all (run_from ops db) (rd_runs db) \<and> list_all (enablement_from ops db) (rd_enabled db)"

lemma from_mono:
  "installation_from ops i \<Longrightarrow> installation_from (ops @ [c]) i" "inventory_from ops v \<Longrightarrow> inventory_from (ops @ [c]) v"
  "enablement_from ops db e \<Longrightarrow> enablement_from (ops @ [c]) db e"
  by (auto simp: installation_from_def inventory_from_def enablement_from_def)

text \<open>The tables a run refers to only grow.\<close>

definition keys_grow :: "recovery_db \<Rightarrow> recovery_db \<Rightarrow> bool" where
  "keys_grow db db' \<longleftrightarrow>
     rd_tenants db' = rd_tenants db \<and> set (rd_installations db) \<subseteq> set (rd_installations db') \<and>
     set (rd_backups db) \<subseteq> set (rd_backups db') \<and> (\<exists>vs. rd_inventories db' = rd_inventories db @ vs)"

lemma find_grown_Some: "find P xs = Some x \<Longrightarrow> find P (xs @ ys) = Some x"
  by (induction xs) (auto split: if_splits)

lemma run_from_mono:
  assumes "run_from ops db run" and "keys_grow db db'"
  shows "run_from (ops @ [c]) db' run"
proof -
  obtain vs where vs: "rd_inventories db' = rd_inventories db @ vs" using assms(2) by (auto simp: keys_grow_def)
  have "joined_inventory db' run = joined_inventory db run" if "joined_inventory db run \<noteq> None"
    using that by (auto simp: joined_inventory_def vs find_grown_Some)
  then have "report_from (ops @ [c]) db' run r" if "report_from ops db run r" for r
    using that by (auto simp: report_from_def)
  moreover have "run_keys_ok db' run" using assms by (auto simp: run_from_def run_keys_ok_def keys_grow_def vs)
  ultimately show ?thesis using assms(1) by (fastforce simp: run_from_def)
qed

lemma keys_step:
  assumes "recovery_op_result c db = Inr db'" and "\<nexists>f. c = OpBegin f" and "\<nexists>r. c = OpComplete r" and "\<nexists>e. c = OpEnable e"
  shows "keys_grow db db' \<and> rd_runs db' = rd_runs db \<and> rd_enabled db' = rd_enabled db \<and>
    (\<forall>i \<in> set (rd_installations db'). i \<in> set (rd_installations db) \<or> installation_from [c] i) \<and>
    (\<forall>b \<in> set (rd_backups db'). b \<in> set (rd_backups db) \<or> c = OpBackup b) \<and>
    (\<forall>i \<in> set (rd_inventories db'). i \<in> set (rd_inventories db) \<or> inventory_from [c] i)"
proof (cases c)
  case (OpInstallation i v)
  then have "record_installation i v db = Inr db'"
    using assms(1) by (auto simp: bindE_Inr_iff installation_checked_def verification_checked_def split: if_splits)
  from installation_effect [OF this] show ?thesis by (auto simp: keys_grow_def installation_from_def OpInstallation)
next
  case (OpInventory i v)
  then have "record_inventory i v db = Inr db'"
    using assms(1) by (auto simp: bindE_Inr_iff inventory_checked_def verification_checked_def split: if_splits)
  note effect = inventory_effect [OF this]
  have "inventory_from [c] i" using effect
    by (auto simp: inventory_from_def OpInventory require_inventory_verification_def inventory_failures_none active_keys_def split: if_splits)
  then show ?thesis using effect by (auto simp: keys_grow_def)
next
  case (OpBackup b)
  then have "insert_backup b db = Inr db'" using assms(1) by (auto simp: bindE_Inr_iff backup_checked_def split: if_splits)
  from backup_effect [OF this] show ?thesis by (auto simp: keys_grow_def OpBackup)
next
  case (OpAnchor a v)
  then have "insert_anchor a db = Inr db'" using assms(1)
    by (auto simp: bindE_Inr_iff record_anchor_def anchor_checked_def verification_checked_def split: if_splits)
  from anchor_effect [OF this] show ?thesis by (auto simp: keys_grow_def)
qed (use assms in \<open>auto simp: keys_grow_def accept_position_effect\<close>)

lemma inv_keys:
  assumes "restore_inv ops db" and "recovery_op_result c db = Inr db'" and "\<nexists>f. c = OpBegin f" and "\<nexists>r. c = OpComplete r" and "\<nexists>e. c = OpEnable e"
  shows "restore_inv (ops @ [c]) db'"
proof -
  note step = keys_step [OF assms(2-5)]
  have "installation_from [c] i \<Longrightarrow> installation_from (ops @ [c]) i" "inventory_from [c] v \<Longrightarrow> inventory_from (ops @ [c]) v" for i v
    by (auto simp: installation_from_def inventory_from_def)
  moreover have "enablement_from (ops @ [c]) db' e" if "enablement_from ops db e" for e
    using that step by (auto simp: enablement_from_def)
  ultimately show ?thesis
    using assms(1) step from_mono run_from_mono [of ops db _ db' c] by (auto simp: restore_inv_def list_all_iff)
qed

lemma keys_grow_refl [simp]: "keys_grow db db"
  by (simp add: keys_grow_def)

lemma inv_same: "restore_inv ops db \<Longrightarrow> restore_inv (ops @ [c]) db"
  using from_mono run_from_mono [of ops db _ db c] by (auto simp: restore_inv_def list_all_iff)

lemma inv_begin:
  assumes "restore_inv ops db" and "begin_restore f db = Inr db'"
  shows "restore_inv (ops @ [OpBegin f]) db'"
  using begin_effect [OF assms(2)]
proof (elim disjE conjE)
  assume db': "db' = db\<lparr>rd_runs := rd_runs db @ [opened_run f]\<rparr>" and new: "ro_run f \<notin> ru_id ` set (rd_runs db)"
    and keys: "run_keys_ok db (opened_run f)"
  have grow: "keys_grow db db'" by (simp add: db' keys_grow_def)
  have "run_from (ops @ [OpBegin f]) db' (opened_run f)"
    using keys by (simp add: run_from_def opened_run_def opening_of_def run_keys_ok_def db')
  moreover have "enablement_from (ops @ [OpBegin f]) db' e" if "enablement_from ops db e" for e
    using that by (auto simp: enablement_from_def db')
  moreover have "ru_id (opened_run f) = ro_run f" by (simp add: opened_run_def)
  ultimately show ?thesis
    using assms(1) from_mono(1,2) run_from_mono [OF _ grow, of ops _ "OpBegin f"] new by (auto simp: restore_inv_def list_all_iff db')
qed (simp add: inv_same [OF assms(1)])

lemma closed_run_fields [simp]:
  "ru_id (closed_run r x) = ru_id x" "ru_inventory (closed_run r x) = ru_inventory x" "ru_tenant (closed_run r x) = ru_tenant x" "ru_installation (closed_run r x) = ru_installation x"
  "opening_of (closed_run r x) = opening_of x" "run_keys_ok db (closed_run r x) = run_keys_ok db x"
  "run_matches_report (closed_run r x) r' = run_matches_report x r'" "joined_inventory db (closed_run r x) = joined_inventory db x"
  "ru_report (closed_run r x) = Some (report_digest r)" "ru_status (closed_run r x) = (if rr_eligible r then Quarantined else FailedRun)"
  by (simp_all add: closed_run_def opening_of_def run_keys_ok_def run_matches_report_def joined_inventory_def)

lemma restore_invI:
  assumes "restore_inv ops db" and "rd_installations db' = rd_installations db" and "rd_backups db' = rd_backups db"
    and "rd_inventories db' = rd_inventories db" and "map ru_id (rd_runs db') = map ru_id (rd_runs db)"
    and "\<forall>x \<in> set (rd_runs db'). run_from (ops @ [c]) db' x" and "\<forall>e \<in> set (rd_enabled db'). enablement_from (ops @ [c]) db' e"
  shows "restore_inv (ops @ [c]) db'"
  unfolding restore_inv_def assms(2-5) using assms(1,6,7) from_mono(1,2) by (auto simp: restore_inv_def list_all_iff)

lemma inv_complete:
  assumes "restore_inv ops db" and "report_checked r = Inr r" and "complete_restore r db = Inr (sha, db')"
  shows "restore_inv (ops @ [OpComplete r]) db'"
  using conjunct2 [OF complete_effect [OF assms(3)]]
proof (elim disjE conjE)
  let ?open = "open_for_report (with_report_rows r db) r"
  assume db': "db' = update_run ?open (closed_run r) (with_report_rows r db)"
  have tables: "rd_runs db' = map (\<lambda>x. if ?open x then closed_run r x else x) (rd_runs db)" "rd_enabled db' = rd_enabled db"
      "rd_installations db' = rd_installations db" "rd_backups db' = rd_backups db" "rd_inventories db' = rd_inventories db"
      "joined_inventory db' x = joined_inventory db x" "run_keys_ok db' x = run_keys_ok db x" for x
    by (simp_all add: db' update_run_def with_report_rows_def joined_inventory_def run_keys_ok_def)
  have grow: "keys_grow db db'" by (simp add: db' update_run_def with_report_rows_def keys_grow_def)
  have run: "run_from (ops @ [OpComplete r]) db' (if ?open x then closed_run r x else x)" if "run_from ops db x" for x
  proof (cases "?open x")
    case True
    then have "report_from (ops @ [OpComplete r]) db' (closed_run r x) r"
      using assms(2) by (simp add: report_from_def open_for_report_def tables joined_inventory_def with_report_rows_def)
    then have "Ex (report_from (ops @ [OpComplete r]) db' (closed_run r x))" ..
    then show ?thesis using that True by (simp add: run_from_def tables)
  qed (simp add: run_from_mono [OF that grow])
  have enabled: "enablement_from (ops @ [OpComplete r]) db' e" if "enablement_from ops db e" for e
  proof -
    have "\<not> ?open x" if "ru_status x = EnabledRun" for x using that by (simp add: open_for_report_def)
    then show ?thesis using that unfolding enablement_from_def tables by fastforce
  qed
  have from_db: "\<forall>x \<in> set (rd_runs db). run_from ops db x" "\<forall>e \<in> set (rd_enabled db). enablement_from ops db e"
    using assms(1) by (simp_all add: restore_inv_def list_all_iff)
  show ?thesis
  proof (rule restore_invI [OF assms(1)])
    show "map ru_id (rd_runs db') = map ru_id (rd_runs db)" by (simp add: tables)
    show "\<forall>x \<in> set (rd_runs db'). run_from (ops @ [OpComplete r]) db' x"
      using run from_db(1) unfolding tables(1) set_map by blast
    show "\<forall>e \<in> set (rd_enabled db'). enablement_from (ops @ [OpComplete r]) db' e" using enabled from_db(2) by (simp add: tables)
  qed (simp_all add: tables)
qed (simp add: inv_same [OF assms(1)])

lemma inv_enable:
  assumes "restore_inv ops db" and "enable_restore e db = Inr db'"
  shows "restore_inv (ops @ [OpEnable e]) db'"
  using assms(2)
proof (cases rule: enable_effect)
  case (2 d run v)
  let ?e = "e\<lparr>en_report := d, en_inventory := iv_sha v\<rparr>" and ?on = "\<lambda>x. if ru_id x = en_run e then x\<lparr>ru_status := EnabledRun\<rparr> else x"
  have tables: "rd_runs db' = map ?on (rd_runs db)" "rd_enabled db' = rd_enabled db @ [?e]"
      "rd_installations db' = rd_installations db" "rd_backups db' = rd_backups db" "rd_inventories db' = rd_inventories db"
    by (simp_all add: 2(6) update_run_def)
  have grow: "keys_grow db db'" by (simp add: 2(6) update_run_def keys_grow_def)
  have ids: "ru_id run = en_run e" "ru_tenant run = en_tenant e" "ru_installation run = en_installation e" "ru_status run = Quarantined"
      "ru_report run = Some d" using 2(3) by (auto simp: enable_eligible_def)
  have only: "x = run" if "x \<in> set (rd_runs db)" "ru_id x = en_run e" for x
  proof -
    have "inj_on ru_id (set (rd_runs db))" using assms(1) by (simp add: restore_inv_def distinct_map)
    then show ?thesis using that 2(2) ids(1) by (metis inj_onD)
  qed
  have status: "run_from ops' db'' (x\<lparr>ru_status := EnabledRun\<rparr>)" if "run_from ops' db'' x" "ru_status x = Quarantined" "ru_report x \<noteq> None" for x ops' db''
  proof -
    have "Ex (report_from ops' db'' x)" using that(1,3) by (simp add: run_from_def)
    then obtain r where "report_from ops' db'' x r" ..
    then have "report_from ops' db'' (x\<lparr>ru_status := EnabledRun\<rparr>) r"
      using that(2) by (auto simp: report_from_def run_matches_report_def joined_inventory_def)
    then have "Ex (report_from ops' db'' (x\<lparr>ru_status := EnabledRun\<rparr>))" ..
    then show ?thesis using that by (simp add: run_from_def opening_of_def run_keys_ok_def)
  qed
  have run: "run_from (ops @ [OpEnable e]) db' (?on x)" if "x \<in> set (rd_runs db)" "run_from ops db x" for x
    using status [OF run_from_mono [OF that(2) grow]] run_from_mono [OF that(2) grow] only [OF that(1)] ids(4,5) by auto
  have "enablement_from (ops @ [OpEnable e]) db' ?e"
    unfolding enablement_from_def tables using 2(2) ids by (intro conjI exI [of _ e] bexI [of _ "?on run"]) auto
  moreover have "enablement_from (ops @ [OpEnable e]) db' e0" if e0: "enablement_from ops db e0" for e0
  proof -
    obtain x where x: "x \<in> set (rd_runs db)" "ru_id x = en_run e0" "ru_tenant x = en_tenant e0" "ru_installation x = en_installation e0"
        "ru_report x = Some (en_report e0)" "ru_status x = EnabledRun" using e0 by (auto simp: enablement_from_def)
    then have "?on x \<in> set (rd_runs db')" by (simp add: tables)
    then show ?thesis using e0 x unfolding enablement_from_def by (intro conjI bexI [of _ "?on x"]) auto
  qed
  moreover have "\<forall>x \<in> set (rd_runs db). run_from ops db x" "\<forall>e \<in> set (rd_enabled db). enablement_from ops db e"
    using assms(1) by (simp_all add: restore_inv_def list_all_iff)
  moreover have "\<forall>x \<in> set (rd_runs db'). run_from (ops @ [OpEnable e]) db' x"
    using run calculation(3) unfolding tables(1) set_map by blast
  ultimately show ?thesis by (intro restore_invI [OF assms(1)]) (auto simp: tables)
qed (simp add: inv_same [OF assms(1)])

lemma restore_inv_run: "restore_inv ops (recovery_run T ops)"
proof (induction ops rule: rev_induct)
  case Nil
  show ?case by (simp add: restore_inv_def recovery_run_def empty_recovery_def)
next
  case (snoc c ops)
  let ?db = "recovery_run T ops"
  have next_db: "recovery_run T (ops @ [c]) = recovery_step c ?db" by (simp add: recovery_run_def)
  show ?case
  proof (cases "recovery_op_result c ?db")
    case (Inl e)
    then show ?thesis using inv_same [OF snoc.IH] by (simp add: next_db recovery_step_def)
  next
    case (Inr db')
    have "restore_inv (ops @ [c]) db'"
    proof (cases c)
      case (OpBegin f)
      then show ?thesis using inv_begin [OF snoc.IH] Inr by simp
    next
      case (OpComplete r)
      then obtain sha where "report_checked r = Inr r" "complete_restore r ?db = Inr (sha, db')"
        using Inr by (auto simp: bindE_Inr_iff dest: checked_report)
      then show ?thesis using inv_complete [OF snoc.IH] OpComplete by blast
    next
      case (OpEnable e)
      then show ?thesis using inv_enable [OF snoc.IH] Inr by simp
    qed (rule inv_keys [OF snoc.IH Inr]; simp)+
    then show ?thesis by (simp add: next_db recovery_step_def Inr)
  qed
qed

section \<open>Reads\<close>

text \<open>
  C40. A restored installation is read only behind a proven restore. If, after any operations, reads are enabled for a tenant's installation
  under a report digest, then a valid report with exactly that digest was completed for them: all twelve steps passed in
  order, no finding, nothing accepted was lost, artifacts at most five minutes old, four hours at most; its run was begun for
  the same positions; the installation and the inventory it names were recorded with verified signatures, the inventory
  declaring its journals rightly; its backup was recorded; and an authority enabled that very run.
\<close>

theorem restore_reads_proven:
  assumes "reads_enabled t i sha (recovery_run T ops) = Inr True"
  shows "\<exists>r. OpComplete r \<in> set ops \<and> stored_digest sha = Inr (report_digest r) \<and> report_checked r = Inr r \<and> rr_tenant r = t \<and>
    rr_installation r = i \<and> map rk_kind (rr_steps r) = restore_order \<and> list_all rk_pass (rr_steps r) \<and> rr_findings r = [] \<and>
    rr_restored r = rr_accepted r \<and> rr_artifact_rpo r \<le> 300 \<and> rr_rto r \<le> 14400 \<and>
    (\<exists>f. OpBegin f \<in> set ops \<and> ro_run f = rr_run r \<and> ro_tenant f = t \<and> ro_accepted f = rr_accepted r \<and> ro_restored f = rr_restored r) \<and>
    (\<exists>n. installation_from ops n \<and> in_id n = i \<and> in_tenant n = t) \<and>
    (\<exists>v. inventory_from ops v \<and> iv_tenant v = t \<and> iv_sha v = rr_inventory r) \<and>
    (\<exists>b. OpBackup b \<in> set ops \<and> bk_id b = rr_backup r \<and> bk_tenant b = t) \<and>
    (\<exists>e. OpEnable e \<in> set ops \<and> en_run e = rr_run r)"
proof -
  let ?db = "recovery_run T ops"
  have inv: "list_all (installation_from ops) (rd_installations ?db)" "list_all (\<lambda>b. OpBackup b \<in> set ops) (rd_backups ?db)"
      "list_all (inventory_from ops) (rd_inventories ?db)" "list_all (run_from ops ?db) (rd_runs ?db)"
      "list_all (enablement_from ops ?db) (rd_enabled ?db)"
    using restore_inv_run [of ops T] by (simp_all add: restore_inv_def)
  obtain e where e: "stored_digest sha = Inr (en_report e)" "e \<in> set (rd_enabled ?db)" "en_tenant e = t" "en_installation e = i"
    using assms by (auto simp: reads_enabled_def bindE_Inr_iff)
  then have "enablement_from ops ?db e" using inv(5) by (simp add: list_all_iff)
  then obtain run e' where run: "OpEnable e' \<in> set ops" "en_run e' = en_run e" "run \<in> set (rd_runs ?db)" "ru_id run = en_run e"
      "ru_tenant run = t" "ru_installation run = i" "ru_report run = Some (en_report e)" "ru_status run = EnabledRun"
    using e(3,4) by (auto simp: enablement_from_def)
  have from_run: "run_from ops ?db run" using inv(4) run(3) by (simp add: list_all_iff)
  then have "Ex (report_from ops ?db run)" using run(7) by (simp add: run_from_def)
  then obtain r where r: "report_from ops ?db run r" ..
  obtain v where v: "joined_inventory ?db run = Some v" "iv_sha v = rr_inventory r" using r by (auto simp: report_from_def)
  have "v \<in> set (rd_inventories ?db) \<and> iv_tenant v = t"
    using v(1) run(5) by (auto simp: joined_inventory_def dest: find_Some_set)
  then have inventory: "inventory_from ops v" "iv_tenant v = t" using inv(3) by (auto simp: list_all_iff)
  have keys: "run_keys_ok ?db run" "OpBegin (opening_of run) \<in> set ops" using from_run by (simp_all add: run_from_def)
  have match: "run_matches_report run r" and eligible: "rr_eligible r" and checked: "report_checked r = Inr r"
      and report: "OpComplete r \<in> set ops" "en_report e = report_digest r"
    using r run(7,8) by (auto simp: report_from_def)
  have ids: "rr_run r = en_run e" "rr_tenant r = t" "rr_installation r = i" "ru_backup run = rr_backup r"
      "ru_accepted run = rr_accepted r" "ru_restored run = rr_restored r" using match run(4-6) by (auto simp: run_matches_report_def)
  have "\<exists>n. installation_from ops n \<and> in_id n = i \<and> in_tenant n = t" "\<exists>b. OpBackup b \<in> set ops \<and> bk_id b = rr_backup r \<and> bk_tenant b = t"
    using keys(1) inv(1,2) run(5,6) ids(4) by (auto simp: run_keys_ok_def list_all_iff)
  moreover have "\<exists>f. OpBegin f \<in> set ops \<and> ro_run f = rr_run r \<and> ro_tenant f = t \<and> ro_accepted f = rr_accepted r \<and> ro_restored f = rr_restored r"
    using keys(2) run(4,5) ids by (intro exI [of _ "opening_of run"]) (simp add: opening_of_def)
  moreover have "\<exists>e. OpEnable e \<in> set ops \<and> en_run e = rr_run r" using run(1,2) ids(1) by auto
  moreover have "\<exists>v. inventory_from ops v \<and> iv_tenant v = t \<and> iv_sha v = rr_inventory r" using inventory v(2) by blast
  ultimately show ?thesis using checked_report [OF checked] eligible checked report e(1) ids(2,3) by (intro exI [of _ r]) simp
qed

section \<open>A restore from end to end\<close>

definition sample_source :: "string \<Rightarrow> source_kind \<Rightarrow> expected_source" where
  "sample_source k kind =
     \<lparr>es_source = k, es_kind = kind, es_activation = NotExercised, es_cursor = ZeroSource, es_count = 0, es_trust_root = None,
      es_trusted = None, es_event = None\<rparr>"

definition unsigned_inventory :: inventory_revision where
  "unsigned_inventory =
     \<lparr>iv_id = 3, iv_tenant = 1, iv_number = 1, iv_previous = None, iv_sha = [], iv_signature = ''sig'', iv_key_ref = ''key'',
      iv_key_version = ''1'', iv_public_key = sample_root, iv_object_key = ''k'', iv_object_version = ''v'', iv_created = 0,
      iv_sources = map (\<lambda>(k, kind). sample_source k kind) i1_sources\<rparr>"

definition sample_inventory :: inventory_revision where
  "sample_inventory = unsigned_inventory\<lparr>iv_sha := inventory_digest unsigned_inventory\<rparr>"

definition sample_restore :: "datetime \<Rightarrow> restore_facts" where
  "sample_restore completed =
     \<lparr>fa_run = 7, fa_tenant = 1, fa_installation = 4, fa_backup = 5, fa_reconciled = {}, fa_accepted = 0, fa_restored = 0,
      fa_artifact_rpo = 60, fa_started = 0, fa_completed = completed,
      fa_checks = map (\<lambda>k. \<lparr>rk_kind = k, rk_pass = True, rk_evidence = sample_root, rk_detail = ''ok''\<rparr>) restore_order\<rparr>"

lemma sample_inventory_digest: "inventory_digest sample_inventory = iv_sha sample_inventory"
  by (simp add: sample_inventory_def inventory_digest_def inventory_payload_def)

lemma sample_sources: "sources_ready (iv_sources sample_inventory) R"
  by (simp add: sample_inventory_def unsigned_inventory_def sources_ready_def source_ready_def sample_source_def i1_sources_def)

lemma evaluate_restore_exact_witness:
  "\<exists>r. evaluate_restore sample_inventory (receipt_verified (inventory_receipt sample_inventory)) (sample_restore (3600 * second)) = Inr r \<and>
     rr_eligible r"
proof -
  let ?f = "sample_restore (3600 * second)" and ?s = "receipt_verified (inventory_receipt sample_inventory)"
  have sha: "sha256_reference (iv_sha sample_inventory)" by (simp add: sample_inventory_def inventory_digest_def)
  have evidence: "list_all (sha256_reference \<circ> rk_evidence) (fa_checks ?f)" by (simp add: sample_restore_def list_all_iff)
  have "map rk_kind (fa_checks ?f) = restore_order" "list_all rk_pass (fa_checks ?f)" by (simp_all add: sample_restore_def o_def list_all_iff)
  then show ?thesis
    using evaluate_restore_exact [OF sha evidence, of ?s] sample_inventory_digest sample_sources
    by (auto simp: verified_binding) (simp_all add: sample_restore_def second_def receipt_verified_def)
qed

lemma insert_steps_ok:
  assumes "map rk_kind (rr_steps r) = restore_order" and "list_all (text_between 1 500 \<circ> rk_detail) (rr_steps r)"
    and "\<forall>x \<in> set (rd_steps db). st_run x \<noteq> rr_run r" and "\<exists>x \<in> set (rd_runs db). ru_id x = rr_run r \<and> ru_tenant x = rr_tenant r"
  shows "insert_steps r db = Inr (db\<lparr>rd_steps := rd_steps db @ step_rows r\<rparr>)"
proof -
  let ?row = "\<lambda>(i, c). \<lparr>st_run = rr_run r, st_tenant = rr_tenant r, st_sequence = i, st_check = c, st_at = rr_completed r\<rparr>"
  let ?ins = "\<lambda>m s. bindE m (\<lambda>db. bindE (insert_strict (step_row_ok db s) s (rd_steps db)) (\<lambda>rows. Inr (db\<lparr>rd_steps := rows\<rparr>)))"
  have "foldl ?ins (Inr db) (map ?row (enumerate (Suc n) cs)) = Inr (db\<lparr>rd_steps := rd_steps db @ map ?row (enumerate (Suc n) cs)\<rparr>)"
    if "map rk_kind cs = drop n restore_order" "list_all (text_between 1 500 \<circ> rk_detail) cs"
      "\<forall>x \<in> set (rd_steps db). st_run x = rr_run r \<longrightarrow> st_sequence x \<le> n"
      "\<exists>x \<in> set (rd_runs db). ru_id x = rr_run r \<and> ru_tenant x = rr_tenant r" for cs n db
    using that
  proof (induction cs arbitrary: n db)
    case (Cons c cs)
    have n: "n < 12" using Cons.prems(1) by (cases "n < 12") (auto simp: restore_order_def)
    have "length restore_order = 12" by (simp add: restore_order_def)
    then have "drop n restore_order = restore_order ! n # drop (Suc n) restore_order" using n by (simp add: Cons_nth_drop_Suc)
    then have kinds: "rk_kind c = restore_order ! n" "map rk_kind cs = drop (Suc n) restore_order" using Cons.prems(1) by simp_all
    have ok: "step_row_ok db (?row (Suc n, c))" using Cons.prems(2-4) n kinds(1) by (fastforce simp: step_row_ok_def)
    let ?db = "db\<lparr>rd_steps := rd_steps db @ [?row (Suc n, c)]\<rparr>"
    have "list_all (text_between 1 500 \<circ> rk_detail) cs" using Cons.prems(2) by (simp add: o_def)
    moreover have "\<forall>x \<in> set (rd_steps ?db). st_run x = rr_run r \<longrightarrow> st_sequence x \<le> Suc n"
      using Cons.prems(3) by (auto intro: le_SucI)
    moreover have "\<exists>x \<in> set (rd_runs ?db). ru_id x = rr_run r \<and> ru_tenant x = rr_tenant r" using Cons.prems(4) by simp
    ultimately have "foldl ?ins (Inr ?db) (map ?row (enumerate (Suc (Suc n)) cs)) =
        Inr (?db\<lparr>rd_steps := rd_steps ?db @ map ?row (enumerate (Suc (Suc n)) cs)\<rparr>)"
      by (rule Cons.IH [OF kinds(2)])
    then show ?case using ok by (simp add: insert_strict_def)
  qed simp
  from this [of "rr_steps r" 0 db] show ?thesis using assms by (simp add: insert_steps_def step_rows_def)
qed

definition sample_report :: "datetime \<Rightarrow> restore_report" where
  "sample_report completed =
     evaluated_report sample_inventory (receipt_verified (inventory_receipt sample_inventory)) (sample_restore completed)"

lemma sample_evaluation:
  assumes "0 \<le> completed"
  shows "evaluate_restore sample_inventory (receipt_verified (inventory_receipt sample_inventory)) (sample_restore completed) =
    report_checked (sample_report completed)"
    and "report_checked (sample_report completed) = Inr (sample_report completed)"
proof -
  let ?s = "receipt_verified (inventory_receipt sample_inventory)"
  have kinds: "map rk_kind (fa_checks (sample_restore completed)) = restore_order" by (simp add: sample_restore_def o_def)
  have nonneg: "\<not> whole_seconds (completed - 0) < 0" using assms iffD2 [OF whole_seconds_nonneg, of completed] by (simp add: second_def)
  show "evaluate_restore sample_inventory ?s (sample_restore completed) = report_checked (sample_report completed)"
    using kinds nonneg sample_inventory_digest
    by (simp add: evaluate_restore_def validate_restore_order_def require_inventory_verification_def verified_binding sample_report_def
        evaluated_report_def Let_def) (simp add: sample_restore_def)
  show "report_checked (sample_report completed) = Inr (sample_report completed)"
    unfolding sample_report_def
    by (subst evaluated_checked) (use assms kinds in \<open>simp_all add: sample_restore_def list_all_iff second_def sample_inventory_def inventory_digest_def\<close>)
qed

definition sample_opening :: restore_opening where
  "sample_opening =
     \<lparr>ro_run = 7, ro_tenant = 1, ro_installation = 4, ro_backup = 5, ro_inventory = 3, ro_accepted = 0, ro_restored = 0,
      ro_artifact_rpo = 60, ro_started = 0\<rparr>"

definition sample_open :: "recovery_db \<Rightarrow> bool" where
  "sample_open db \<longleftrightarrow>
     rd_tenants db = {1} \<and> rd_inventories db = [sample_inventory] \<and> rd_runs db = [opened_run sample_opening] \<and> rd_steps db = [] \<and>
     rd_findings db = [] \<and> rd_resolved db = {} \<and> rd_enabled db = []"

lemma sample_report_fields:
  "rr_run (sample_report c) = 7" "rr_tenant (sample_report c) = 1" "rr_installation (sample_report c) = 4" "rr_backup (sample_report c) = 5"
  "rr_accepted (sample_report c) = 0" "rr_restored (sample_report c) = 0" "rr_artifact_rpo (sample_report c) = 60"
  "rr_started (sample_report c) = 0" "rr_completed (sample_report c) = c" "rr_inventory (sample_report c) = iv_sha sample_inventory"
  "rr_steps (sample_report c) = map (\<lambda>k. \<lparr>rk_kind = k, rk_pass = True, rk_evidence = sample_root, rk_detail = ''ok''\<rparr>) restore_order"
  by (simp_all add: sample_report_def evaluated_report_def sample_restore_def Let_def)

lemma sample_report_eligible: "c < 14401 * second \<Longrightarrow> rr_eligible (sample_report c)"
  unfolding sample_report_def evaluated_eligible
  using sample_sources by (simp add: sample_restore_def list_all_iff receipt_verified_def)

lemma sample_awaits:
  assumes "sample_open db"
  shows "awaits_report db (sample_report c) (opened_run sample_opening)"
  using assms by (simp add: awaits_report_def sample_open_def sample_report_fields opened_run_def sample_opening_def joined_inventory_def)
    (simp add: sample_inventory_def unsigned_inventory_def)

lemma sample_rows:
  assumes "sample_open db" and "0 \<le> c" and "c < 14401 * second"
  shows "bindE (insert_steps (sample_report c) db) (insert_findings (sample_report c)) = Inr (with_report_rows (sample_report c) db)"
proof -
  have "rr_findings (sample_report c) = []"
    using checked_report [OF sample_evaluation(2) [OF assms(2)]] sample_report_eligible [OF assms(3)] by blast
  moreover have "insert_steps (sample_report c) db = Inr (db\<lparr>rd_steps := rd_steps db @ step_rows (sample_report c)\<rparr>)"
    using assms(1) by (intro insert_steps_ok)
      (simp_all add: sample_report_fields sample_open_def opened_run_def sample_opening_def o_def list_all_iff text_between_def code_points_def)
  ultimately show ?thesis by (simp add: insert_findings_def finding_rows_def with_report_rows_def)
qed

lemma restore_completes_exactly_witness:
  "\<exists>db. (\<exists>x. complete_restore (sample_report 3600000000) db = Inr x) \<and>
     \<not> (\<exists>x. complete_restore (sample_report 3600500000) db = Inr x)"
proof -
  let ?db = "(empty_recovery {1})\<lparr>rd_inventories := [sample_inventory], rd_runs := [opened_run sample_opening]\<rparr>"
  have "sample_open ?db" by (simp add: sample_open_def empty_recovery_def)
  then have exact: "(\<exists>x. complete_restore (sample_report c) ?db = Inr x) \<longleftrightarrow> c mod second < 500000" if "0 \<le> c" "c < 14401 * second" for c
    using restore_completes_exactly [OF sample_evaluation(2) [OF that(1)] sample_awaits sample_rows [OF _ that]] that
    by (simp add: sample_report_fields)
  show ?thesis using exact [of 3600000000] exact [of 3600500000] by (intro exI [of _ ?db]) (simp add: second_def)
qed

lemma from_hex_lower: "even (length s) \<Longrightarrow> list_all is_hex_lower s \<Longrightarrow> from_hex s = Some s"
proof (induction s rule: from_hex.induct)
  case (3 c d cs)
  have digit: "hex_digit x = Some n \<Longrightarrow> is_hex_lower x \<Longrightarrow> hex_char n = x" "is_hex_lower x \<Longrightarrow> hex_digit x \<noteq> None"
      "is_hex_lower x \<Longrightarrow> (of_char x :: nat) \<notin> {9, 10, 11, 12, 13, 32}" for x n
    by (auto simp: hex_digit_def is_hex_lower_def is_digit_def hex_char_def Let_def split: if_splits)
  have hex: "is_hex_lower c" "is_hex_lower d" using 3(4) by simp_all
  then obtain hi lo where "hex_digit c = Some hi" "hex_digit d = Some lo" using digit(2) by blast
  then have "from_hex cs = Some cs" using 3(2) [OF digit(3) [OF hex(1)]] 3(3,4) by simp
  with hex show ?case using digit [of c] digit [of d] by (cases "hex_digit c"; cases "hex_digit d") auto
qed simp_all

lemma stored_integrity [simp]: "stored_digest (integrity_digest v) = Inr (integrity_digest v)"
  using sha256_hex_shape [of "json_dumps v"] by (simp add: stored_digest_def integrity_digest_def from_hex_lower)


definition sample_installation :: installation where
  "sample_installation =
     \<lparr>in_id = 4, in_tenant = 1, in_ref = ''main'', in_signature = ''sig'', in_key_ref = ''key'', in_key_version = ''1'',
      in_public_key = sample_root, in_issued = 0\<rparr>"

definition sample_backup :: backup_manifest where
  "sample_backup =
     \<lparr>bk_id = 5, bk_tenant = 1, bk_repository = ''repo'', bk_object_version = ''v'', bk_base = sample_root, bk_wal_start = ''0/0'',
      bk_wal_stop = ''0/A'', bk_dump = sample_root, bk_objects = sample_root, bk_migrations = sample_root, bk_key_ref = ''key'',
      bk_key_version = ''1'', bk_pgbackrest = sample_root, bk_pg_dump = sample_root, bk_started = 0, bk_completed = 0\<rparr>"

definition sample_enablement :: "restore_report \<Rightarrow> enablement" where
  "sample_enablement r =
     \<lparr>en_id = 9, en_run = 7, en_tenant = 1, en_installation = 4, en_report = report_digest r, en_inventory = [],
      en_authority = ''operator'', en_at = 0\<rparr>"

definition sample_recovery :: "recovery_op list" where
  "sample_recovery =
     [OpInstallation sample_installation (receipt_verified (installation_receipt sample_installation)), OpBackup sample_backup,
      OpInventory sample_inventory (receipt_verified (inventory_receipt sample_inventory)), OpBegin sample_opening]"

lemmas pattern_simps = stable_reference_def is_lower_def is_digit_def key_char_def text_between_def code_points_def key_version_ok_def

lemma sample_verification:
  assumes "sha256_reference (sg_digest r)" and "sha256_reference (sg_public_key r)" and "stable_reference (sg_key_ref r)"
  shows "verification_checked (receipt_verified r) = Inr (receipt_verified r)"
  using assms by (simp add: verification_checked_def receipt_verified_def)

lemma sample_key: "stable_reference ''key''"
  by (simp add: pattern_simps)

lemma sample_step_installation:
  "recovery_step (OpInstallation sample_installation (receipt_verified (installation_receipt sample_installation))) (empty_recovery {1}) =
     (empty_recovery {1})\<lparr>rd_installations := [sample_installation]\<rparr>"
proof -
  have checked: "installation_checked sample_installation = Inr sample_installation"
    by (simp add: installation_checked_def sample_installation_def pattern_simps)
  have verified: "verification_checked (receipt_verified (installation_receipt sample_installation)) = Inr (receipt_verified (installation_receipt sample_installation))"
    by (rule sample_verification) (simp_all add: installation_receipt_def installation_digest_def sample_installation_def sample_key)
  have "insert_installation sample_installation (empty_recovery {1}) = Inr ((empty_recovery {1})\<lparr>rd_installations := [sample_installation]\<rparr>)"
    by (simp add: insert_installation_def insert_ignore_def empty_recovery_def sample_installation_def pattern_simps require_exact_row_def)
  then show ?thesis
    by (simp add: recovery_step_def checked verified lift_py_def record_installation_def verified_binding) (simp add: receipt_verified_def)
qed

lemma sample_step_backup:
  assumes "rd_tenants db = {1}" and "rd_backups db = []" and "rd_receipts db = []"
  shows "recovery_step (OpBackup sample_backup) db = db\<lparr>rd_backups := [sample_backup], rd_receipts := [(backup_receipt_id sample_backup, sample_backup)]\<rparr>"
proof -
  have checked: "backup_checked sample_backup = Inr sample_backup"
    by (simp add: backup_checked_def sample_backup_def pattern_simps)
  have "read_lsn ''0/0'' = Some 0" "read_lsn ''0/A'' = Some 10" by (simp_all add: read_lsn_def read_hex_def hex_digit_def)
  then have "backup_row_ok db sample_backup" by (simp add: backup_row_ok_def sample_backup_def pattern_simps)
  moreover have "bk_tenant sample_backup = 1" by (simp add: sample_backup_def)
  ultimately have "insert_backup sample_backup db = Inr (db\<lparr>rd_backups := [sample_backup], rd_receipts := [(backup_receipt_id sample_backup, sample_backup)]\<rparr>)"
    using assms by (simp add: insert_backup_def insert_ignore_def backup_conflict_def same_backup_def require_exact_row_def insert_backup_receipt_def)
  then show ?thesis by (simp add: recovery_step_def checked lift_py_def)
qed

lemma sample_step_inventory:
  assumes "rd_tenants db = {1}" and "rd_inventories db = []"
  shows "recovery_step (OpInventory sample_inventory (receipt_verified (inventory_receipt sample_inventory))) db =
    db\<lparr>rd_inventories := [sample_inventory]\<rparr>"
proof -
  let ?s = "receipt_verified (inventory_receipt sample_inventory)"
  have fields: "iv_tenant sample_inventory = 1" "iv_number sample_inventory = 1" "iv_previous sample_inventory = None"
      "iv_signature sample_inventory = ''sig''" "iv_key_ref sample_inventory = ''key''" "iv_key_version sample_inventory = ''1''"
      "iv_public_key sample_inventory = sample_root" "iv_object_key sample_inventory = ''k''" "iv_object_version sample_inventory = ''v''"
      "iv_sources sample_inventory = map (\<lambda>(k, kind). sample_source k kind) i1_sources"
    by (simp_all add: sample_inventory_def unsigned_inventory_def)
  have sha: "sha256_reference (iv_sha sample_inventory)" by (simp add: sample_inventory_def inventory_digest_def)
  have sources: "list_all source_row_ok (iv_sources sample_inventory)" "distinct (map es_source (iv_sources sample_inventory))"
      "list_all (\<lambda>s. es_trust_root s = None \<and> es_event s = None) (iv_sources sample_inventory)"
    by (simp_all add: fields i1_sources_def sample_source_def source_row_ok_def int8_def stable_key_def is_lower_def is_digit_def key_char_def)
  have checked: "inventory_checked sample_inventory = Inr sample_inventory"
    using sha sources(3) sample_inventory_digest by (auto simp: inventory_checked_def fields sample_key list_all_iff)
  have verified: "verification_checked ?s = Inr ?s"
    by (rule sample_verification) (simp_all add: inventory_receipt_def sha fields sample_key)
  have "inventory_row_ok db sample_inventory"
    using assms sources(1,2) by (simp add: inventory_row_ok_def fields(1-9) int4_def pattern_simps)
  then have "insert_inventory sample_inventory db = Inr (db\<lparr>rd_inventories := [sample_inventory]\<rparr>)"
    using assms
    by (simp add: insert_inventory_def latest_by_def require_inventory_predecessor_def fields(2,3) insert_strict_def lift_py_def
        require_inventory_replay_def) (simp add: fields i1_sources_def require_exact_row_def)
  moreover have "sv_verified ?s" by (simp add: receipt_verified_def)
  ultimately show ?thesis
    using sample_inventory_digest sample_sources
    by (simp add: recovery_step_def checked verified lift_py_def record_inventory_def require_inventory_verification_def verified_binding
        inventory_failures_none)
qed

lemma sample_open_run:
  "sample_open (recovery_run {1} sample_recovery) \<and> rd_installations (recovery_run {1} sample_recovery) = [sample_installation]"
proof -
  let ?db1 = "(empty_recovery {1})\<lparr>rd_installations := [sample_installation]\<rparr>"
  let ?db2 = "?db1\<lparr>rd_backups := [sample_backup], rd_receipts := [(backup_receipt_id sample_backup, sample_backup)]\<rparr>"
  let ?db3 = "?db2\<lparr>rd_inventories := [sample_inventory]\<rparr>"
  have inventory: "iv_id sample_inventory = 3" "iv_tenant sample_inventory = 1" by (simp_all add: sample_inventory_def unsigned_inventory_def)
  have "begin_restore sample_opening ?db3 = Inr (?db3\<lparr>rd_runs := [opened_run sample_opening]\<rparr>)"
    by (simp add: begin_restore_def sample_opening_def highest_position_def empty_recovery_def insert_ignore_def opened_run_def run_row_ok_def
        int4_def int8_def run_keys_ok_def inventory require_exact_row_def opening_of_def)
      (simp add: sample_installation_def sample_backup_def)
  then have "recovery_step (OpBegin sample_opening) ?db3 = ?db3\<lparr>rd_runs := [opened_run sample_opening]\<rparr>" by (simp add: recovery_step_def)
  moreover have "recovery_step (OpBackup sample_backup) ?db1 = ?db2" by (rule sample_step_backup) (simp_all add: empty_recovery_def)
  moreover have "recovery_step (OpInventory sample_inventory (receipt_verified (inventory_receipt sample_inventory))) ?db2 = ?db3"
    by (rule sample_step_inventory) (simp_all add: empty_recovery_def)
  ultimately have "recovery_run {1} sample_recovery = ?db3\<lparr>rd_runs := [opened_run sample_opening]\<rparr>"
    by (simp add: recovery_run_def sample_recovery_def sample_step_installation)
  then show ?thesis by (simp add: sample_open_def empty_recovery_def)
qed

lemma sample_completed:
  assumes "sample_open db" and "r = sample_report (3600 * second)"
  shows "complete_restore r db = Inr (report_digest r, update_run (\<lambda>x. True) (closed_run r) (with_report_rows r db))"
proof -
  have c: "0 \<le> 3600 * second" "3600 * second < 14401 * second" by (simp_all add: second_def)
  have "\<exists>x. complete_restore r db = Inr x"
    unfolding assms(2)
    using restore_completes_exactly [OF sample_evaluation(2) [OF c(1)] sample_awaits [OF assms(1)] sample_rows [OF assms(1) c]] c(1)
    by (simp add: sample_report_fields second_def)
  then obtain sha db' where fin: "complete_restore r db = Inr (sha, db')" by auto
  have "ru_report (opened_run sample_opening) = None" by (simp add: opened_run_def)
  then have "db' = update_run (open_for_report (with_report_rows r db) r) (closed_run r) (with_report_rows r db)"
      "length (filter (open_for_report (with_report_rows r db) r) (rd_runs db)) = 1" "sha = report_digest r"
    using complete_effect [OF fin] assms(1) by (auto simp: sample_open_def)
  moreover have "rd_runs (with_report_rows r db) = [opened_run sample_opening]" using assms(1) by (simp add: sample_open_def with_report_rows_def)
  ultimately show ?thesis using fin assms(1) by (simp add: update_run_def sample_open_def split: if_splits)
qed

lemma restore_reads_proven_witness:
  "\<exists>r. OpComplete r \<in> set (sample_recovery @ [OpComplete (sample_report (3600 * second)), OpEnable (sample_enablement (sample_report (3600 * second)))]) \<and>
     list_all rk_pass (rr_steps r)"
proof -
  let ?r = "sample_report (3600 * second)"
  let ?e = "sample_enablement ?r"
  let ?db = "recovery_run {1} sample_recovery"
  let ?db5 = "update_run (\<lambda>x. True) (closed_run ?r) (with_report_rows ?r ?db)"
  have c: "0 \<le> 3600 * second" "3600 * second < 14401 * second" by (simp_all add: second_def)
  have open_db: "sample_open ?db" using sample_open_run by blast
  have eligible: "rr_eligible ?r" by (rule sample_report_eligible [OF c(2)])
  have checked: "report_checked ?r = Inr ?r" by (rule sample_evaluation(2) [OF c(1)])
  have clean: "rr_findings ?r = []" "rr_rto ?r \<le> 14400" "0 \<le> rr_rto ?r" using checked_report [OF checked] eligible by blast+
  have complete: "recovery_step (OpComplete ?r) ?db = ?db5"
    by (simp add: recovery_step_def checked lift_py_def sample_completed [OF open_db refl])
  let ?run = "closed_run ?r (opened_run sample_opening)"
  have runs: "rd_runs ?db5 = [?run]" "rd_enabled ?db5 = []" "rd_findings ?db5 = []" "joined_inventory ?db5 = joined_inventory ?db"
    using open_db clean(1)
    by (simp_all add: update_run_def sample_open_def with_report_rows_def finding_rows_def joined_inventory_def fun_eq_iff)
  have joined: "joined_inventory ?db5 ?run = Some sample_inventory"
    using open_db unfolding runs(4) by (simp add: joined_inventory_def sample_open_def opened_run_def sample_opening_def)
      (simp add: sample_inventory_def unsigned_inventory_def)
  have "passed_steps ?db5 ?run = passed_steps (with_report_rows ?r ?db) (opened_run sample_opening)"
    by (simp add: passed_steps_def update_run_def)
  also have "\<dots> = restore_order"
    using open_db by (subst passed_report_steps) (simp_all add: sample_open_def sample_report_fields opened_run_def sample_opening_def o_def)
  finally have passed: "passed_steps ?db5 ?run = restore_order" .
  have en: "en_run ?e = 7" "en_tenant ?e = 1" "en_installation ?e = 4" "en_report ?e = report_digest ?r" "en_authority ?e = ''operator''"
    by (simp_all add: sample_enablement_def)
  have can: "enable_eligible ?db5 ?e ?run"
    using passed runs(3) eligible clean by (simp add: enable_eligible_def en closed_run_def opened_run_def sample_opening_def)
  let ?e' = "?e\<lparr>en_inventory := iv_sha sample_inventory\<rparr>"
  have "enablement_checks ?db5 ?e'"
    by (simp add: enablement_checks_def runs en opened_run_def sample_opening_def pattern_simps)
  moreover have "stored_digest (report_digest ?r) = Inr (report_digest ?r)" by (simp add: report_digest_def)
  moreover have same: "?e\<lparr>en_report := report_digest ?r\<rparr> = ?e" "?e\<lparr>en_report := report_digest ?r, en_inventory := x\<rparr> = ?e\<lparr>en_inventory := x\<rparr>" for x
    by (simp_all add: sample_enablement_def)
  ultimately have "enable_restore ?e ?db5 = Inr (update_run (\<lambda>x. ru_id x = 7) (\<lambda>x. x\<lparr>ru_status := EnabledRun\<rparr>) (?db5\<lparr>rd_enabled := [?e']\<rparr>))"
    using can joined by (simp add: enable_restore_def runs en(1,4) insert_strict_def Let_def same)
  then have "rd_enabled (recovery_run {1} (sample_recovery @ [OpComplete ?r, OpEnable ?e])) = [?e']"
    using complete by (simp add: recovery_run_def) (simp add: recovery_step_def update_run_def)
  then have "reads_enabled 1 4 (report_digest ?r) (recovery_run {1} (sample_recovery @ [OpComplete ?r, OpEnable ?e])) = Inr True"
    using \<open>stored_digest (report_digest ?r) = Inr (report_digest ?r)\<close> by (simp add: reads_enabled_def en)
  from restore_reads_proven [OF this] show ?thesis by blast
qed

end
