(* ===== verification/Durability.thy ===== *)
theory Durability
  imports RecordRecovery
begin

text \<open>
  \<open>record/_durability_evidence.py\<close>, \<open>_durability_sql.py\<close> and \<open>_durability_confirmation_sql.py\<close>: when a committed command counts as
  accepted. The primary's three tables (acknowledgements, finalizations, confirmations) and the identity sequence of
  acceptance positions are the state; what a connection to the standby shows, and how each commit on the primary fares, are
  inputs of one reconciliation, in the order the code asks for them. An identity default is drawn by every executed INSERT,
  also one that ends in DO NOTHING or is rolled back, as PostgreSQL documents for \<open>nextval\<close>. Observations are not modelled.
\<close>

section \<open>Evidence\<close>

record command_snapshot =
  cs_tenant :: uuid
  cs_principal :: uuid
  cs_command :: uuid
  cs_request :: string
  cs_root :: string

record durability_policy =
  dp_ref :: string
  dp_mode :: string
  dp_application :: string
  dp_identity :: string
  dp_deadline :: int
  dp_retry :: int

record standby_identity =
  sy_application :: string
  sy_cluster :: string
  sy_system :: int
  sy_timeline :: int
  sy_lsn :: string
  sy_recovery :: bool

text \<open>A \<open>Receipt\<close> and a \<open>Finalization\<close> have the same fields.\<close>

record durability_receipt =
  dr_tenant :: uuid
  dr_principal :: uuid
  dr_command :: uuid
  dr_request :: string
  dr_root :: string
  dr_position :: int
  dr_policy :: string
  dr_application :: string
  dr_identity :: string
  dr_system :: int
  dr_timeline :: int
  dr_lsn :: string

definition lsn_position :: "string \<Rightarrow> nat py" where
  "lsn_position s = (case read_lsn s of None \<Rightarrow> Inl (ValueError ''lsn'') | Some n \<Rightarrow> Inr n)"

text \<open>The tuple of comparisons is built in full before \<open>all\<close> reads it, so a malformed position raises in any case.\<close>

definition receipt_matches :: "durability_receipt \<Rightarrow> command_snapshot \<Rightarrow> durability_policy \<Rightarrow> standby_identity \<Rightarrow> bool py" where
  "receipt_matches r s p y =
     bindE (lsn_position (sy_lsn y)) (\<lambda>seen. bindE (lsn_position (dr_lsn r)) (\<lambda>needed.
       Inr (dr_tenant r = cs_tenant s \<and> dr_principal r = cs_principal s \<and> dr_command r = cs_command s \<and> dr_request r = cs_request s \<and>
         dr_root r = cs_root s \<and> dr_policy r = dp_ref p \<and> dr_application r = sy_application y \<and> dr_identity r = sy_cluster y \<and>
         dr_system r = sy_system y \<and> dr_timeline r = sy_timeline y \<and> needed \<le> seen)))"

definition finalization_matches_snapshot :: "durability_receipt \<Rightarrow> command_snapshot \<Rightarrow> bool" where
  "finalization_matches_snapshot f s \<longleftrightarrow>
     dr_tenant f = cs_tenant s \<and> dr_principal f = cs_principal s \<and> dr_command f = cs_command s \<and> dr_request f = cs_request s \<and>
     dr_root f = cs_root s"

definition finalization_matches_receipt :: "durability_receipt \<Rightarrow> durability_receipt \<Rightarrow> bool" where
  "finalization_matches_receipt f r \<longleftrightarrow>
     dr_tenant f = dr_tenant r \<and> dr_principal f = dr_principal r \<and> dr_command f = dr_command r \<and> dr_request f = dr_request r \<and>
     dr_root f = dr_root r \<and> dr_position f = dr_position r \<and> dr_policy f = dr_policy r \<and> dr_application f = dr_application r \<and>
     dr_identity f = dr_identity r \<and> dr_system f = dr_system r \<and> dr_timeline f = dr_timeline r \<and> dr_lsn f = dr_lsn r"

definition same_standby :: "standby_identity \<Rightarrow> standby_identity \<Rightarrow> bool" where
  "same_standby x y \<longleftrightarrow>
     sy_application x = sy_application y \<and> sy_cluster x = sy_cluster y \<and> sy_system x = sy_system y \<and> sy_timeline x = sy_timeline y \<and>
     sy_recovery x \<and> sy_recovery y"

section \<open>The primary\<close>

record durability_db =
  dd_next :: int
  dd_acks :: "durability_receipt list"
  dd_finals :: "durability_receipt list"
  dd_confirmed :: "durability_receipt list"

definition receipt_key :: "durability_receipt \<Rightarrow> uuid \<times> uuid \<times> uuid" where
  "receipt_key r = (dr_tenant r, dr_principal r, dr_command r)"

definition snapshot_key :: "command_snapshot \<Rightarrow> uuid \<times> uuid \<times> uuid" where
  "snapshot_key s = (cs_tenant s, cs_principal s, cs_command s)"

definition receipt_of :: "durability_receipt list \<Rightarrow> uuid \<times> uuid \<times> uuid \<Rightarrow> durability_receipt option" where
  "receipt_of rows k = find (\<lambda>r. receipt_key r = k) rows"

text \<open>
  How a commit on the primary fares: done, refused (with or without its statement executed; a CHECK is one reason), or done
  but reported as failed.
\<close>

datatype commit_fate = CommitDone | CommitRefused bool | CommitUnknown

definition fate_error :: "commit_fate \<Rightarrow> bool" where
  "fate_error c = (c \<noteq> CommitDone)"

definition fate_applied :: "commit_fate \<Rightarrow> bool" where
  "fate_applied c = (case c of CommitRefused _ \<Rightarrow> False | _ \<Rightarrow> True)"

definition fate_executed :: "commit_fate \<Rightarrow> bool" where
  "fate_executed c = (case c of CommitRefused b \<Rightarrow> b | _ \<Rightarrow> True)"

definition append_acknowledgement ::
  "command_snapshot \<Rightarrow> durability_policy \<Rightarrow> standby_identity \<Rightarrow> commit_fate \<Rightarrow> durability_db \<Rightarrow> durability_db" where
  "append_acknowledgement s p y fate db =
     (let row = \<lparr>dr_tenant = cs_tenant s, dr_principal = cs_principal s, dr_command = cs_command s, dr_request = cs_request s,
            dr_root = cs_root s, dr_position = dd_next db, dr_policy = dp_ref p, dr_application = sy_application y,
            dr_identity = sy_cluster y, dr_system = sy_system y, dr_timeline = sy_timeline y, dr_lsn = sy_lsn y\<rparr>;
          db = (if fate_executed fate then db\<lparr>dd_next := dd_next db + 1\<rparr> else db) in
      if fate_applied fate \<and> receipt_of (dd_acks db) (snapshot_key s) = None then db\<lparr>dd_acks := dd_acks db @ [row]\<rparr> else db)"

text \<open>The finalization refers to an equal acknowledgement and its position is unique: a violation is an error, passed over.\<close>

definition insert_finalization :: "command_snapshot \<Rightarrow> durability_receipt \<Rightarrow> commit_fate \<Rightarrow> durability_db \<Rightarrow> durability_db" where
  "insert_finalization s r fate db =
     (let row = r\<lparr>dr_tenant := cs_tenant s, dr_principal := cs_principal s, dr_command := cs_command s\<rparr> in
      if fate_applied fate \<and> receipt_of (dd_finals db) (snapshot_key s) = None \<and>
         row \<in> set (dd_acks db) \<and> dr_position row \<notin> dr_position ` set (dd_finals db)
      then db\<lparr>dd_finals := dd_finals db @ [row]\<rparr> else db)"

text \<open>The insert and the read back; a confirmation refers to an equal finalization.\<close>

definition store_confirmation :: "durability_receipt \<Rightarrow> commit_fate \<Rightarrow> durability_db \<Rightarrow> bool \<times> durability_db" where
  "store_confirmation f fate db =
     (let known = receipt_of (dd_confirmed db) (receipt_key f) \<noteq> None;
          valid = known \<or> f \<in> set (dd_finals db);
          db = (if fate_applied fate \<and> \<not> known \<and> valid then db\<lparr>dd_confirmed := dd_confirmed db @ [f]\<rparr> else db) in
      (\<not> fate_error fate \<and> valid \<and> receipt_of (dd_confirmed db) (receipt_key f) = Some f, db))"

section \<open>Decisions\<close>

record durability_decision =
  dn_command :: uuid
  dn_accepted :: bool
  dn_reason :: string
  dn_policy :: string
  dn_root :: string
  dn_position :: "int option"
  dn_retry :: int

definition decision_checked :: "durability_decision \<Rightarrow> durability_decision py" where
  "decision_checked d =
     (if dn_accepted d \<and> dn_position d = None then Inl (ValueError ''accepted durability requires an acceptance position'')
      else if \<not> dn_accepted d \<and> dn_position d \<noteq> None then Inl (ValueError ''pending durability cannot carry an acceptance position'')
      else if \<not> sha256_reference (dn_root d) then Inl (ValueError ''command root must be one SHA-256 digest'')
      else if (case dn_position d of None \<Rightarrow> False | Some p \<Rightarrow> p < 1) then Inl (ValueError ''acceptance position must be positive'')
      else if \<not> (1 \<le> dn_retry d \<and> dn_retry d \<le> 60) then Inl (ValueError ''durability retry interval must be between 1 and 60 seconds'')
      else Inr d)"

text \<open>A root is kept as the text \<open>digest\<close> gives it.\<close>

definition pending_decision :: "command_snapshot \<Rightarrow> durability_policy \<Rightarrow> string \<Rightarrow> durability_decision py" where
  "pending_decision s p reason = decision_checked
     \<lparr>dn_command = cs_command s, dn_accepted = False, dn_reason = reason, dn_policy = dp_ref p, dn_root = cs_root s,
      dn_position = None, dn_retry = dp_retry p\<rparr>"

definition accepted_decision :: "command_snapshot \<Rightarrow> durability_receipt \<Rightarrow> durability_decision py" where
  "accepted_decision s f = decision_checked
     \<lparr>dn_command = cs_command s, dn_accepted = True, dn_reason = ''standby_receipt_proven'', dn_policy = dr_policy f, dn_root = cs_root s,
      dn_position = Some (dr_position f), dn_retry = 1\<rparr>"

text \<open>What one connection to the standby shows; \<open>None\<close> in its place is a connection or a query that fails.\<close>

record standby_view =
  vw_identity :: standby_identity
  vw_snapshot :: "record_problem + command_snapshot"
  vw_receipt :: "durability_receipt option"
  vw_final :: "durability_receipt option"

record reconcile_inputs =
  ri_snapshot :: "record_problem + command_snapshot"
  ri_policy :: durability_policy
  ri_copy :: "(string \<times> int \<times> int) option"
  ri_configured :: bool
  ri_settings :: "string option option"
  ri_prove :: "standby_view option"
  ri_receipt :: "standby_view option"
  ri_final :: "standby_view option"
  ri_append :: commit_fate
  ri_commit :: commit_fate
  ri_store :: commit_fate

definition named_copy :: "(string \<times> int \<times> int) option \<Rightarrow> durability_receipt \<Rightarrow> bool" where
  "named_copy copy r \<longleftrightarrow>
     (case copy of None \<Rightarrow> False
      | Some (cluster, system, timeline) \<Rightarrow> cluster = dr_identity r \<and> system = dr_system r \<and> timeline \<ge> dr_timeline r)"

text \<open>\<open>"".join(text.split()).casefold()\<close> on ASCII.\<close>

definition squeezed :: "string \<Rightarrow> string" where
  "squeezed s =
     map (\<lambda>c. let n = of_char c :: nat in if 65 \<le> n \<and> n \<le> 90 then char_of (n + 32) else c)
       (filter (\<lambda>c. let n = of_char c :: nat in \<not> (9 \<le> n \<and> n \<le> 13 \<or> 28 \<le> n \<and> n \<le> 32)) s)"

definition folded :: "string \<Rightarrow> string" where
  "folded s = map (\<lambda>c. let n = of_char c :: nat in if 65 \<le> n \<and> n \<le> 90 then char_of (n + 32) else c) s"

text \<open>\<open>_target_matches\<close>; \<open>None\<close> is a database error. The setting is a row's text, if there is a row.\<close>

definition target_matches :: "durability_policy \<Rightarrow> standby_identity \<Rightarrow> string option option \<Rightarrow> bool option" where
  "target_matches p y settings =
     (if \<not> sy_recovery y \<or> sy_application y \<noteq> dp_application p \<or> sy_cluster y \<noteq> dp_identity p then Some False
      else case settings of
        None \<Rightarrow> None
      | Some None \<Rightarrow> Some False
      | Some (Some text) \<Rightarrow> Some (squeezed text = folded (''first1('' @ dp_application p @ '')'')))"

definition prove_standby_copy ::
  "durability_policy \<Rightarrow> command_snapshot \<Rightarrow> string option option \<Rightarrow> standby_view option \<Rightarrow> string + standby_identity" where
  "prove_standby_copy p s settings view =
     (case view of
        None \<Rightarrow> Inl ''standby_not_ready''
      | Some v \<Rightarrow>
          (case target_matches p (vw_identity v) settings of
             None \<Rightarrow> Inl ''standby_not_ready''
           | Some False \<Rightarrow> Inl ''target_mismatch''
           | Some True \<Rightarrow>
               (case vw_snapshot v of
                  Inl _ \<Rightarrow> Inl ''replay_missing''
                | Inr replica \<Rightarrow>
                    if cs_request s = cs_request replica \<and> cs_root s = cs_root replica then Inr (vw_identity v)
                    else Inl ''integrity_mismatch'')))"

definition replicate_receipt ::
  "command_snapshot \<Rightarrow> durability_policy \<Rightarrow> standby_identity \<Rightarrow> reconcile_inputs \<Rightarrow> durability_db \<Rightarrow>
     (string + durability_receipt) py \<times> durability_db" where
  "replicate_receipt s p y i db =
     (let db = append_acknowledgement s p y (ri_append i) db in
      (if fate_error (ri_append i) then Inr (Inl ''commit_ambiguous'')
       else case ri_receipt i of
         None \<Rightarrow> Inr (Inl ''receipt_pending'')
       | Some v \<Rightarrow>
           (case vw_receipt v of
              None \<Rightarrow> Inr (Inl ''receipt_pending'')
            | Some r \<Rightarrow>
                if \<not> same_standby (vw_identity v) y then Inr (Inl ''receipt_pending'')
                else bindE (receipt_matches r s p y) (\<lambda>ok. Inr (if ok then Inr r else Inl ''receipt_pending''))), db))"

definition exact_replayed_finalization ::
  "command_snapshot \<Rightarrow> durability_receipt \<Rightarrow> durability_policy \<Rightarrow> standby_identity \<Rightarrow> standby_view option \<Rightarrow>
     durability_receipt option py" where
  "exact_replayed_finalization s r p y view =
     (case view of
        None \<Rightarrow> Inr None
      | Some v \<Rightarrow>
          bindE (case vw_receipt v of None \<Rightarrow> Inr False | Some rr \<Rightarrow> receipt_matches rr s p y) (\<lambda>matched.
            Inr (case (vw_receipt v, vw_final v) of
              (Some rr, Some f) \<Rightarrow>
                if same_standby (vw_identity v) y \<and> matched \<and> finalization_matches_snapshot f s \<and> finalization_matches_receipt f rr \<and>
                   finalization_matches_receipt f r
                then Some f else None
            | _ \<Rightarrow> None)))"

definition finalize_acceptance ::
  "command_snapshot \<Rightarrow> durability_receipt \<Rightarrow> durability_policy \<Rightarrow> standby_identity \<Rightarrow> reconcile_inputs \<Rightarrow> durability_db \<Rightarrow>
     durability_receipt option py \<times> durability_db" where
  "finalize_acceptance s r p y i db =
     (let db = insert_finalization s r (ri_commit i) db in
      case exact_replayed_finalization s r p y (ri_final i) of
        Inl e \<Rightarrow> (Inl e, db)
      | Inr None \<Rightarrow> (Inr None, db)
      | Inr (Some f) \<Rightarrow> (let (ok, db) = store_confirmation f (ri_store i) db in (Inr (if ok then Some f else None), db)))"

type_synonym durability_outcome = "record_problem + durability_decision"

definition reconcile_unfinalized ::
  "command_snapshot \<Rightarrow> reconcile_inputs \<Rightarrow> durability_db \<Rightarrow> durability_outcome py \<times> durability_db" where
  "reconcile_unfinalized s i db =
     (let p = ri_policy i; pending = (\<lambda>reason. bindE (pending_decision s p reason) (\<lambda>d. Inr (Inr d))) in
      if dp_mode p = ''pending_only'' then (pending ''policy_pending_only'', db)
      else if \<not> ri_configured i then (pending ''standby_unconfigured'', db)
      else case prove_standby_copy p s (ri_settings i) (ri_prove i) of
        Inl reason \<Rightarrow> (pending reason, db)
      | Inr y \<Rightarrow>
          (case replicate_receipt s p y i db of
             (Inl e, db) \<Rightarrow> (Inl e, db)
           | (Inr (Inl reason), db) \<Rightarrow> (pending reason, db)
           | (Inr (Inr r), db) \<Rightarrow>
               (case finalize_acceptance s r p y i db of
                  (Inl e, db) \<Rightarrow> (Inl e, db)
                | (Inr None, db) \<Rightarrow> (pending ''commit_ambiguous'', db)
                | (Inr (Some f), db) \<Rightarrow> (bindE (accepted_decision s f) (\<lambda>d. Inr (Inr d)), db))))"

definition confirm_replayed_finalization ::
  "command_snapshot \<Rightarrow> durability_receipt \<Rightarrow> durability_receipt \<Rightarrow> standby_view option \<Rightarrow> commit_fate \<Rightarrow> durability_db \<Rightarrow>
     bool py \<times> durability_db" where
  "confirm_replayed_finalization s r f view fate db =
     (case view of
        None \<Rightarrow> (Inr False, db)
      | Some v \<Rightarrow>
          (case vw_receipt v of
             None \<Rightarrow> (Inr False, db)
           | Some rr \<Rightarrow>
               if vw_final v \<noteq> Some f then (Inr False, db)
               else
                 let p = \<lparr>dp_ref = dr_policy r, dp_mode = ''cutover_rpo0'', dp_application = dr_application r,
                          dp_identity = dr_identity r, dp_deadline = 100, dp_retry = 1\<rparr> in
                 (case receipt_matches rr s p (vw_identity v) of
                    Inl e \<Rightarrow> (Inl e, db)
                  | Inr ok \<Rightarrow>
                      if \<not> ok \<or> \<not> finalization_matches_receipt f r then (Inr False, db)
                      else let (stored, db) = store_confirmation f fate db in (Inr stored, db))))"

definition finalization_problem :: "command_snapshot \<Rightarrow> record_problem" where
  "finalization_problem s = problem ''durability-integrity''
     ''Finalized acceptance evidence does not match the command and complete receipt.'' 503 ''Durability integrity unavailable''
     (Some (cs_command s))"

definition finalized_outcome ::
  "command_snapshot \<Rightarrow> durability_receipt option \<Rightarrow> durability_receipt \<Rightarrow> reconcile_inputs \<Rightarrow> durability_db \<Rightarrow>
     durability_outcome py \<times> durability_db" where
  "finalized_outcome s receipt f i db =
     (case receipt of
        None \<Rightarrow> (Inr (Inl (finalization_problem s)), db)
      | Some r \<Rightarrow>
          if \<not> finalization_matches_snapshot f s \<or> \<not> finalization_matches_receipt f r then (Inr (Inl (finalization_problem s)), db)
          else if receipt_of (dd_confirmed db) (snapshot_key s) = Some f \<or> named_copy (ri_copy i) r
          then (bindE (accepted_decision s f) (\<lambda>d. Inr (Inr d)), db)
          else let (confirmed, db) =
              (if ri_configured i then confirm_replayed_finalization s r f (ri_final i) (ri_store i) db else (Inr False, db)) in
            (bindE confirmed (\<lambda>ok. bindE (if ok then accepted_decision s f else pending_decision s (ri_policy i) ''commit_ambiguous'')
               (\<lambda>d. Inr (Inr d))), db))"

definition reconcile_durability :: "reconcile_inputs \<Rightarrow> durability_db \<Rightarrow> durability_outcome py \<times> durability_db" where
  "reconcile_durability i db =
     (case ri_snapshot i of
        Inl p \<Rightarrow> (Inr (Inl p), db)
      | Inr s \<Rightarrow>
          (case receipt_of (dd_finals db) (snapshot_key s) of
             Some f \<Rightarrow> finalized_outcome s (receipt_of (dd_acks db) (snapshot_key s)) f i db
           | None \<Rightarrow> reconcile_unfinalized s i db))"

end
