(* ===== verification/DurabilityTheorems.thy ===== *)
theory DurabilityTheorems
  imports Durability RecordTheorems
begin

text \<open>
  What acceptance rests on, over any sequence of reconciliations: the tables only grow and refer to each other, so an accepted
  command keeps one position that no other command gets; and a position drawn and not stored is lost, which stops the anchors.
\<close>

section \<open>What a reconciliation changes\<close>

definition durability_step :: "reconcile_inputs \<Rightarrow> durability_db \<Rightarrow> durability_db" where
  "durability_step i db = snd (reconcile_durability i db)"

definition durability_run :: "reconcile_inputs list \<Rightarrow> durability_db \<Rightarrow> durability_db" where
  "durability_run is db = foldl (\<lambda>db i. durability_step i db) db is"

definition empty_durability :: durability_db where
  "empty_durability = \<lparr>dd_next = 1, dd_acks = [], dd_finals = [], dd_confirmed = []\<rparr>"

definition keyed :: "durability_receipt list \<Rightarrow> bool" where
  "keyed rows \<longleftrightarrow> distinct (map receipt_key rows)"

definition durability_inv :: "durability_db \<Rightarrow> bool" where
  "durability_inv db \<longleftrightarrow>
     keyed (dd_acks db) \<and> keyed (dd_finals db) \<and> keyed (dd_confirmed db) \<and> distinct (map dr_position (dd_acks db)) \<and>
     (\<forall>r \<in> set (dd_acks db). 1 \<le> dr_position r \<and> dr_position r < dd_next db) \<and> 1 \<le> dd_next db \<and>
     set (dd_finals db) \<subseteq> set (dd_acks db) \<and> set (dd_confirmed db) \<subseteq> set (dd_finals db)"

text \<open>The tables grow at their ends, and new acknowledgements take positions drawn from the sequence.\<close>

definition later :: "durability_db \<Rightarrow> durability_db \<Rightarrow> bool" where
  "later db db' \<longleftrightarrow>
     dd_next db \<le> dd_next db' \<and>
     (\<exists>rows. dd_acks db' = dd_acks db @ rows \<and> (\<forall>r \<in> set rows. dd_next db \<le> dr_position r)) \<and>
     (\<exists>rows. dd_finals db' = dd_finals db @ rows) \<and> (\<exists>rows. dd_confirmed db' = dd_confirmed db @ rows)"

lemma later_refl [simp, intro]: "later db db"
  by (simp add: later_def)

lemma later_trans [trans]: "later a b \<Longrightarrow> later b c \<Longrightarrow> later a c"
  unfolding later_def by fastforce

lemma receipt_of_Some: "receipt_of rows k = Some r \<Longrightarrow> r \<in> set rows \<and> receipt_key r = k"
  unfolding receipt_of_def by (rule find_Some_set)

lemma receipt_of_None: "receipt_of rows k = None \<longleftrightarrow> k \<notin> receipt_key ` set rows"
  by (auto simp: receipt_of_def find_None_iff)

lemma keyed_unique: "keyed rows \<Longrightarrow> r \<in> set rows \<Longrightarrow> r' \<in> set rows \<Longrightarrow> receipt_key r = receipt_key r' \<Longrightarrow> r = r'"
  unfolding keyed_def distinct_map by (blast dest: inj_onD)

lemma ack_row_fits:
  assumes "durability_inv db" and "receipt_key row \<notin> receipt_key ` set (dd_acks db)" and "dr_position row = dd_next db"
    and "n = dd_next db + 1"
  shows "durability_inv (db\<lparr>dd_next := n, dd_acks := dd_acks db @ [row]\<rparr>)"
proof -
  have "dd_next db \<notin> dr_position ` set (dd_acks db)" using assms(1) unfolding durability_inv_def by fastforce
  then show ?thesis using assms unfolding durability_inv_def keyed_def by force
qed

lemma sequence_drawn: "durability_inv db \<Longrightarrow> durability_inv (db\<lparr>dd_next := dd_next db + 1\<rparr>)"
  unfolding durability_inv_def by force

lemma append_effect:
  assumes "durability_inv db"
  shows "durability_inv (append_acknowledgement s p y fate db) \<and> later db (append_acknowledgement s p y fate db)"
proof -
  let ?row = "\<lparr>dr_tenant = cs_tenant s, dr_principal = cs_principal s, dr_command = cs_command s, dr_request = cs_request s,
            dr_root = cs_root s, dr_position = dd_next db, dr_policy = dp_ref p, dr_application = sy_application y,
            dr_identity = sy_cluster y, dr_system = sy_system y, dr_timeline = sy_timeline y, dr_lsn = sy_lsn y\<rparr>"
  let ?n = "dd_next db + 1"
  consider (same) "append_acknowledgement s p y fate db = db" | (drawn) "append_acknowledgement s p y fate db = db\<lparr>dd_next := ?n\<rparr>"
    | (row) "append_acknowledgement s p y fate db = db\<lparr>dd_next := ?n, dd_acks := dd_acks db @ [?row]\<rparr>"
        "receipt_of (dd_acks db) (snapshot_key s) = None"
    unfolding append_acknowledgement_def Let_def fate_executed_def fate_applied_def by (cases fate) (force split: if_splits)+
  then show ?thesis
  proof cases
    case row
    have "receipt_key ?row \<notin> receipt_key ` set (dd_acks db)" using row(2) by (simp add: receipt_of_None receipt_key_def snapshot_key_def)
    then have "durability_inv (db\<lparr>dd_next := ?n, dd_acks := dd_acks db @ [?row]\<rparr>)" by (intro ack_row_fits [OF assms]) simp_all
    then show ?thesis by (simp add: row(1) later_def)
  qed (use assms in \<open>simp_all add: sequence_drawn later_def\<close>)
qed

lemma insert_finalization_effect:
  assumes "durability_inv db"
  shows "durability_inv (insert_finalization s r fate db) \<and> later db (insert_finalization s r fate db)"
  using assms unfolding insert_finalization_def durability_inv_def later_def Let_def keyed_def
  by (auto simp: receipt_of_None receipt_key_def snapshot_key_def)

lemma store_effect:
  assumes "durability_inv db" and "store_confirmation f fate db = (ok, db')"
  shows "durability_inv db' \<and> later db db' \<and> (ok \<longrightarrow> f \<in> set (dd_confirmed db'))"
proof -
  have "ok \<longrightarrow> f \<in> set (dd_confirmed db')"
    using assms(2) by (auto simp: store_confirmation_def Let_def dest: receipt_of_Some)
  moreover have "durability_inv db' \<and> later db db'"
    using assms unfolding store_confirmation_def durability_inv_def later_def Let_def keyed_def
    by (auto simp: receipt_of_None split: if_splits)
  ultimately show ?thesis by simp
qed

lemma replicate_effect:
  assumes "durability_inv db" and "replicate_receipt s p y i db = (res, db')"
  shows "durability_inv db' \<and> later db db'"
  using assms(2) append_effect [OF assms(1)] by (auto simp: replicate_receipt_def Let_def)

lemma replayed_finalization:
  "exact_replayed_finalization s r p y view = Inr (Some f) \<Longrightarrow> finalization_matches_snapshot f s \<and> finalization_matches_receipt f r"
  by (auto simp: exact_replayed_finalization_def bindE_Inr_iff split: option.splits if_splits)

lemma finalize_effect:
  assumes "durability_inv db" and "finalize_acceptance s r p y i db = (res, db')"
  shows "durability_inv db' \<and> later db db' \<and>
    (\<forall>f. res = Inr (Some f) \<longrightarrow> finalization_matches_snapshot f s \<and> f \<in> set (dd_confirmed db'))"
proof -
  let ?db = "insert_finalization s r (ri_commit i) db"
  have one: "durability_inv ?db" "later db ?db" using insert_finalization_effect [OF assms(1)] by simp_all
  show ?thesis
  proof (cases "exact_replayed_finalization s r p y (ri_final i)")
    case (Inl e)
    then show ?thesis using assms(2) one by (auto simp: finalize_acceptance_def Let_def)
  next
    case (Inr found)
    show ?thesis
    proof (cases found)
      case None
      then show ?thesis using Inr assms(2) one by (auto simp: finalize_acceptance_def Let_def)
    next
      case (Some f)
      obtain ok db2 where st: "store_confirmation f (ri_store i) ?db = (ok, db2)" by fastforce
      have "res = Inr (if ok then Some f else None)" "db' = db2"
        using assms(2) Inr Some st by (auto simp: finalize_acceptance_def Let_def)
      moreover note store_effect [OF one(1) st] replayed_finalization [of s r p y "ri_final i" f]
      ultimately show ?thesis using Inr Some one(2) later_trans by auto
    qed
  qed
qed

lemma confirm_effect:
  assumes "durability_inv db" and "confirm_replayed_finalization s r f view fate db = (res, db')"
  shows "durability_inv db' \<and> later db db' \<and> (res = Inr True \<longrightarrow> f \<in> set (dd_confirmed db'))"
proof -
  have "(db' = db \<and> res \<noteq> Inr True) \<or> (\<exists>ok. store_confirmation f fate db = (ok, db') \<and> res = Inr ok)"
    using assms(2) by (auto simp: confirm_replayed_finalization_def Let_def split: option.splits if_splits sum.splits prod.splits)
  then show ?thesis using store_effect [OF assms(1)] assms(1) by auto
qed

section \<open>What a reconciliation answers\<close>

lemma pending_not_accepted: "pending_decision s p reason = Inr d \<Longrightarrow> \<not> dn_accepted d"
  by (auto simp: pending_decision_def decision_checked_def split: if_splits)

lemma accepted_shape: "accepted_decision s f = Inr d \<Longrightarrow> dn_accepted d \<and> dn_position d = Some (dr_position f) \<and> dn_command d = cs_command s \<and> dn_root d = cs_root s"
  by (auto simp: accepted_decision_def decision_checked_def split: if_splits)

definition acceptance_proven :: "reconcile_inputs \<Rightarrow> durability_decision \<Rightarrow> durability_db \<Rightarrow> bool" where
  "acceptance_proven i d db \<longleftrightarrow>
     (\<exists>s f. ri_snapshot i = Inr s \<and> f \<in> set (dd_finals db) \<and> finalization_matches_snapshot f s \<and>
        dn_position d = Some (dr_position f) \<and> dn_command d = cs_command s \<and> dn_root d = cs_root s \<and>
        (f \<in> set (dd_confirmed db) \<or> named_copy (ri_copy i) f))"

lemma named_copy_matching: "finalization_matches_receipt f r \<Longrightarrow> named_copy copy r \<Longrightarrow> named_copy copy f"
  by (auto simp: finalization_matches_receipt_def named_copy_def split: option.splits)

lemma finalized_effect:
  assumes "durability_inv db" and "f \<in> set (dd_finals db)" and "ri_snapshot i = Inr s"
    and "finalized_outcome s receipt f i db = (res, db')"
  shows "durability_inv db' \<and> later db db' \<and> (\<forall>d. res = Inr (Inr d) \<and> dn_accepted d \<longrightarrow> acceptance_proven i d db')"
proof (cases "\<exists>r. receipt = Some r \<and> finalization_matches_snapshot f s \<and> finalization_matches_receipt f r")
  case False
  then show ?thesis using assms by (auto simp: finalized_outcome_def split: option.splits if_splits)
next
  case True
  then obtain r where r: "receipt = Some r" "finalization_matches_snapshot f s" "finalization_matches_receipt f r" by blast
  let ?now = "receipt_of (dd_confirmed db) (snapshot_key s) = Some f \<or> named_copy (ri_copy i) r"
  show ?thesis
  proof (cases ?now)
    case True
    then have "f \<in> set (dd_confirmed db) \<or> named_copy (ri_copy i) f"
      using receipt_of_Some named_copy_matching [OF r(3)] by blast
    then show ?thesis using True r assms
      by (auto simp: finalized_outcome_def bindE_Inr_iff acceptance_proven_def dest!: accepted_shape)
  next
    case False
    obtain confirmed db2 where c: "(if ri_configured i then confirm_replayed_finalization s r f (ri_final i) (ri_store i) db else (Inr False, db)) = (confirmed, db2)"
      by fastforce
    have eff: "durability_inv db2 \<and> later db db2 \<and> (confirmed = Inr True \<longrightarrow> f \<in> set (dd_confirmed db2))"
      using c confirm_effect [OF assms(1)] assms(1) by (auto split: if_splits)
    then have "f \<in> set (dd_finals db2)" using assms(2) by (auto simp: later_def)
    moreover have "res = bindE confirmed (\<lambda>ok. bindE (if ok then accepted_decision s f else pending_decision s (ri_policy i) ''commit_ambiguous'')
               (\<lambda>d. Inr (Inr d)))" "db' = db2"
      using assms(4) False r c by (auto simp: finalized_outcome_def)
    ultimately show ?thesis using eff r(2) assms(3)
      by (auto simp: bindE_Inr_iff acceptance_proven_def dest!: accepted_shape pending_not_accepted split: if_splits)
  qed
qed

lemma unfinalized_effect:
  assumes "durability_inv db" and "ri_snapshot i = Inr s" and "reconcile_unfinalized s i db = (res, db')"
  shows "durability_inv db' \<and> later db db' \<and> (\<forall>d. res = Inr (Inr d) \<and> dn_accepted d \<longrightarrow> acceptance_proven i d db')"
proof -
  let ?p = "ri_policy i"
  consider (early) reason where "res = bindE (pending_decision s ?p reason) (\<lambda>d. Inr (Inr d))" "db' = db"
    | (replica) y e where "replicate_receipt s ?p y i db = (Inl e, db')" "res = Inl e"
    | (waiting) y reason where "replicate_receipt s ?p y i db = (Inr (Inl reason), db')"
        "res = bindE (pending_decision s ?p reason) (\<lambda>d. Inr (Inr d))"
    | (final) y r db1 out where "replicate_receipt s ?p y i db = (Inr (Inr r), db1)" "finalize_acceptance s r ?p y i db1 = (out, db')"
        "res = bindE out (\<lambda>f. bindE (case f of None \<Rightarrow> pending_decision s ?p ''commit_ambiguous'' | Some f \<Rightarrow> accepted_decision s f) (\<lambda>d. Inr (Inr d)))"
    using assms(3) unfolding reconcile_unfinalized_def Let_def
    by (auto split: if_splits sum.splits prod.splits option.splits)
  then show ?thesis
  proof cases
    case final
    have "durability_inv db1" "later db db1" using replicate_effect [OF assms(1) final(1)] by simp_all
    moreover note finalize_effect [OF this(1) final(2)]
    ultimately have "durability_inv db'" "later db db'"
        "\<forall>f. out = Inr (Some f) \<longrightarrow> finalization_matches_snapshot f s \<and> f \<in> set (dd_confirmed db')"
      using later_trans by blast+
    moreover from this(1) have "set (dd_confirmed db') \<subseteq> set (dd_finals db')" by (simp add: durability_inv_def)
    ultimately show ?thesis using assms(2) final(3)
      by (fastforce simp: bindE_Inr_iff acceptance_proven_def dest!: accepted_shape pending_not_accepted split: option.splits)
  qed (use assms replicate_effect [OF assms(1)] in \<open>auto simp: bindE_Inr_iff dest!: pending_not_accepted\<close>)
qed

lemma reconcile_effect:
  assumes "durability_inv db" and "reconcile_durability i db = (res, db')"
  shows "durability_inv db' \<and> later db db' \<and> (\<forall>d. res = Inr (Inr d) \<and> dn_accepted d \<longrightarrow> acceptance_proven i d db')"
proof (cases "ri_snapshot i")
  case (Inl p)
  then show ?thesis using assms by (auto simp: reconcile_durability_def)
next
  case (Inr s)
  show ?thesis
  proof (cases "receipt_of (dd_finals db) (snapshot_key s)")
    case None
    then show ?thesis using unfinalized_effect [OF assms(1) Inr] assms(2) by (simp add: reconcile_durability_def Inr)
  next
    case (Some f)
    then have "f \<in> set (dd_finals db)" "finalized_outcome s (receipt_of (dd_acks db) (snapshot_key s)) f i db = (res, db')"
      using receipt_of_Some [OF Some] assms(2) by (simp_all add: reconcile_durability_def Inr)
    then show ?thesis by (rule finalized_effect [OF assms(1) _ Inr])
  qed
qed

lemma durability_step_inv: "durability_inv db \<Longrightarrow> durability_inv (durability_step i db)"
  using reconcile_effect [of db i] by (simp add: durability_step_def prod_eq_iff)

interpretation durability_machine: guarded_machine durability_step durability_inv
  by unfold_locales (rule durability_step_inv)

lemma durability_run_inv: "durability_inv (durability_run is empty_durability)"
  unfolding durability_run_def
  by (rule durability_machine.run_inv) (simp add: durability_inv_def empty_durability_def keyed_def)

lemma durability_run_append [simp]: "durability_run (is @ js) db = durability_run js (durability_run is db)"
  by (simp add: durability_run_def)

lemma durability_run_Cons [simp]: "durability_run (i # js) db = durability_run js (durability_step i db)"
  by (simp add: durability_run_def)

lemma durability_run_Nil [simp]: "durability_run [] db = db"
  by (simp add: durability_run_def)

lemma run_later: "durability_inv db \<Longrightarrow> durability_inv (durability_run js db) \<and> later db (durability_run js db)"
proof (induction js arbitrary: db)
  case (Cons j js)
  have "durability_inv (durability_step j db)" "later db (durability_step j db)"
    using reconcile_effect [OF Cons.prems, of j] by (simp_all add: durability_step_def prod_eq_iff)
  then show ?case using Cons.IH [of "durability_step j db"] later_trans by auto
qed simp

section \<open>Positions\<close>

lemma proven_key: "finalization_matches_snapshot f s \<Longrightarrow> receipt_key f = snapshot_key s \<and> dr_root f = cs_root s"
  by (simp add: finalization_matches_snapshot_def receipt_key_def snapshot_key_def)

lemma later_finals: "later db db' \<Longrightarrow> f \<in> set (dd_finals db) \<Longrightarrow> f \<in> set (dd_finals db')"
  by (auto simp: later_def)

lemma same_position:
  assumes "durability_inv db" and "f \<in> set (dd_finals db)" and "f' \<in> set (dd_finals db)"
  shows "receipt_key f = receipt_key f' \<longleftrightarrow> dr_position f = dr_position f'"
proof
  assume "receipt_key f = receipt_key f'"
  then show "dr_position f = dr_position f'" using keyed_unique [of "dd_finals db" f f'] assms by (simp add: durability_inv_def)
next
  have "f \<in> set (dd_acks db)" "f' \<in> set (dd_acks db)" "inj_on dr_position (set (dd_acks db))"
    using assms by (auto simp: durability_inv_def distinct_map)
  moreover assume "dr_position f = dr_position f'"
  ultimately show "receipt_key f = receipt_key f'" by (auto dest: inj_onD)
qed

text \<open>
  C35. An acceptance is proven and names one command. After any reconciliations, an accepted decision rests on a stored
  finalization of that command and root, which is confirmed or, when the connection is to a promoted copy (its cluster name and
  system identifier are those of the finalization and its timeline is not older), just held by that copy; when the connection
  is to no such copy, it is confirmed. And of two accepted decisions, however far apart, the positions are the same exactly
  when the commands are, and then the roots are the same too.
\<close>

theorem accepted_positions_name_commands:
  assumes "ri_snapshot i = Inr s" and "ri_snapshot k = Inr s'"
    and "fst (reconcile_durability i (durability_run is empty_durability)) = Inr (Inr d)" and "dn_accepted d"
    and "fst (reconcile_durability k (durability_run (is @ i # js) empty_durability)) = Inr (Inr d')" and "dn_accepted d'"
  shows "acceptance_proven i d (durability_run (is @ [i]) empty_durability) \<and>
    (ri_copy i = None \<longrightarrow> (\<exists>f \<in> set (dd_confirmed (durability_run (is @ [i]) empty_durability)).
       finalization_matches_snapshot f s \<and> dn_position d = Some (dr_position f))) \<and>
    (dn_position d = dn_position d' \<longleftrightarrow> snapshot_key s = snapshot_key s') \<and>
    (snapshot_key s = snapshot_key s' \<longrightarrow> dn_root d = dn_root d')"
proof -
  let ?db1 = "durability_run (is @ [i]) empty_durability" and ?db2 = "durability_run (is @ i # js @ [k]) empty_durability"
  have one: "acceptance_proven i d ?db1"
    using reconcile_effect [OF durability_run_inv [of "is"], of i] assms(3,4) by (simp add: durability_step_def prod_eq_iff)
  have two: "acceptance_proven k d' ?db2"
    using reconcile_effect [OF durability_run_inv [of "is @ i # js"], of k] assms(5,6) by (simp add: durability_step_def prod_eq_iff)
  have later: "later ?db1 ?db2" using run_later [OF durability_run_inv [of "is @ [i]"], of "js @ [k]"] by simp
  obtain f where f: "f \<in> set (dd_finals ?db1)" "finalization_matches_snapshot f s" "dn_position d = Some (dr_position f)" "dn_root d = cs_root s"
    using one assms(1) by (auto simp: acceptance_proven_def)
  obtain f' where f': "f' \<in> set (dd_finals ?db2)" "finalization_matches_snapshot f' s'" "dn_position d' = Some (dr_position f')" "dn_root d' = cs_root s'"
    using two assms(2) by (auto simp: acceptance_proven_def)
  have fin: "f \<in> set (dd_finals ?db2)" by (rule later_finals [OF later f(1)])
  have "receipt_key f = receipt_key f' \<longleftrightarrow> dr_position f = dr_position f'"
    by (rule same_position [OF durability_run_inv fin f'(1)])
  moreover have "f = f'" if "receipt_key f = receipt_key f'"
    using keyed_unique [OF _ fin f'(1) that] durability_run_inv [of "is @ i # js @ [k]"] by (simp only: durability_inv_def)
  moreover have "ri_copy i = None \<longrightarrow> (\<exists>f \<in> set (dd_confirmed ?db1).
      finalization_matches_snapshot f s \<and> dn_position d = Some (dr_position f))"
    using one assms(1) by (auto simp: acceptance_proven_def named_copy_def)
  ultimately show ?thesis using one f f' proven_key [OF f(2)] proven_key [OF f'(2)] by auto
qed

text \<open>A reconciliation that finds its acknowledgement stored draws a position that nothing takes.\<close>

lemma retry_draws:
  assumes "ri_snapshot i = Inr s" and "receipt_of (dd_finals db) (snapshot_key s) = None" and "receipt_of (dd_acks db) (snapshot_key s) \<noteq> None"
    and "dp_mode (ri_policy i) \<noteq> ''pending_only''" and "ri_configured i"
    and "prove_standby_copy (ri_policy i) s (ri_settings i) (ri_prove i) = Inr y" and "fate_executed (ri_append i)"
  shows "dd_acks (durability_step i db) = dd_acks db \<and> dd_next (durability_step i db) = dd_next db + 1"
proof -
  let ?db = "db\<lparr>dd_next := dd_next db + 1\<rparr>" and ?p = "ri_policy i"
  have append: "append_acknowledgement s ?p y (ri_append i) db = ?db"
    using assms(3,7) by (auto simp: append_acknowledgement_def Let_def)
  then have replica: "snd (replicate_receipt s ?p y i db) = ?db" by (simp add: replicate_receipt_def)
  have final: "dd_acks (snd (finalize_acceptance s r ?p y i ?db)) = dd_acks db \<and> dd_next (snd (finalize_acceptance s r ?p y i ?db)) = dd_next db + 1" for r
    by (auto simp: finalize_acceptance_def insert_finalization_def store_confirmation_def Let_def split: sum.splits option.splits)
  obtain res where rep: "replicate_receipt s ?p y i db = (res, ?db)" using replica by (cases "replicate_receipt s ?p y i db") simp
  have "dd_acks (snd (reconcile_unfinalized s i db)) = dd_acks db \<and> dd_next (snd (reconcile_unfinalized s i db)) = dd_next db + 1"
  proof (cases res)
    case (Inr out)
    show ?thesis
    proof (cases out)
      case (Inr r)
      obtain fres db2 where fin: "finalize_acceptance s r ?p y i ?db = (fres, db2)" by fastforce
      then show ?thesis using final [of r] \<open>res = Inr out\<close> Inr assms(4-6)
        by (simp add: reconcile_unfinalized_def Let_def rep split: sum.splits option.splits)
    qed (use \<open>res = Inr out\<close> assms(4-6) in \<open>simp add: reconcile_unfinalized_def Let_def rep\<close>)
  qed (use assms(4-6) in \<open>simp add: reconcile_unfinalized_def Let_def rep\<close>)
  then show ?thesis using assms(1,2) by (simp add: durability_step_def reconcile_durability_def)
qed

text \<open>
  C36. One retry ends anchoring. When a command whose acknowledgement is already stored (its receipt was not yet replayed, or the
  commit was reported as failed) is reconciled again, the position the sequence then gives is never the position of an
  accepted decision, of any tenant; and since anchors are built from confirmed acknowledgements, no anchor of any tenant
  ever reaches it, whatever is accepted and anchored afterwards.
\<close>

theorem retry_stops_anchors:
  assumes "db = durability_run is empty_durability" and "ri_snapshot i = Inr s" and "receipt_of (dd_finals db) (snapshot_key s) = None"
    and "receipt_of (dd_acks db) (snapshot_key s) \<noteq> None"
    and "dp_mode (ri_policy i) \<noteq> ''pending_only''" and "ri_configured i"
    and "prove_standby_copy (ri_policy i) s (ri_settings i) (ri_prove i) = Inr y" and "fate_executed (ri_append i)"
    and "after = durability_run (is @ i # js) empty_durability"
    and "\<forall>p root. OpAccept t p root \<in> set ops \<longrightarrow> (\<exists>f \<in> set (dd_confirmed after). dr_tenant f = t \<and> dr_position f = p \<and> dr_root f = root)"
  shows "dd_next db \<notin> dr_position ` set (dd_acks after) \<and> (\<forall>a \<in> set (anchors_of (recovery_run T ops) t). an_end a < dd_next db)"
proof -
  have inv: "durability_inv db" "durability_inv after" using durability_run_inv assms(1,9) by blast+
  have drawn: "dd_acks (durability_step i db) = dd_acks db" "dd_next (durability_step i db) = dd_next db + 1"
    using retry_draws [OF assms(2-8)] by simp_all
  have "later (durability_step i db) after"
    using run_later [OF durability_step_inv [OF inv(1)], of js i] by (simp add: assms(1,9))
  then obtain rows where rows: "dd_acks after = dd_acks db @ rows" "\<forall>r \<in> set rows. dd_next db + 1 \<le> dr_position r"
    using drawn by (auto simp: later_def)
  have "\<forall>r \<in> set (dd_acks db). dr_position r < dd_next db" "1 \<le> dd_next db" using inv(1) by (auto simp: durability_inv_def)
  then have free: "dd_next db \<notin> dr_position ` set (dd_acks after)" using rows by force
  have "set (dd_confirmed after) \<subseteq> set (dd_acks after)" using inv(2) by (auto simp: durability_inv_def)
  then have "\<nexists>root. OpAccept t (dd_next db) root \<in> set ops" using free assms(10) by force
  then show ?thesis using free missing_position_stops_anchors [OF \<open>1 \<le> dd_next db\<close>] by blast
qed

section \<open>An honest standby\<close>

text \<open>What the standby, seen as \<open>y\<close>, shows when it has replayed the primary as it is in \<open>db\<close>.\<close>

definition replayed_view :: "standby_identity \<Rightarrow> command_snapshot \<Rightarrow> durability_db \<Rightarrow> standby_view" where
  "replayed_view y s db =
     \<lparr>vw_identity = y, vw_snapshot = Inr s, vw_receipt = receipt_of (dd_acks db) (snapshot_key s),
      vw_final = receipt_of (dd_finals db) (snapshot_key s)\<rparr>"

text \<open>
  One attempt whose statements and commits all succeed, against one standby that has replayed each of them: \<open>y\<close> as the
  proof saw it, at the replay position \<open>l\<close> when the receipt was read back and at \<open>l'\<close> when the finalization was. Both
  positions are free: a standby that replays the acknowledgement and the finalization has advanced.
\<close>

definition honest_attempt ::
  "reconcile_inputs \<Rightarrow> command_snapshot \<Rightarrow> standby_identity \<Rightarrow> string \<Rightarrow> string \<Rightarrow> durability_db \<Rightarrow> bool" where
  "honest_attempt i s y l l' db \<longleftrightarrow>
     (let acked = append_acknowledgement s (ri_policy i) y CommitDone db;
          r = the (receipt_of (dd_acks acked) (snapshot_key s));
          final = insert_finalization s r CommitDone acked in
      ri_snapshot i = Inr s \<and> ri_configured i \<and> dp_mode (ri_policy i) \<noteq> ''pending_only'' \<and>
      prove_standby_copy (ri_policy i) s (ri_settings i) (ri_prove i) = Inr y \<and>
      ri_append i = CommitDone \<and> ri_commit i = CommitDone \<and> ri_store i = CommitDone \<and>
      ri_receipt i = Some (replayed_view (y\<lparr>sy_lsn := l\<rparr>) s acked) \<and>
      ri_final i = Some (replayed_view (y\<lparr>sy_lsn := l'\<rparr>) s final))"

lemma proven_recovery: "prove_standby_copy p s settings view = Inr y \<Longrightarrow> sy_recovery y"
  by (auto simp: prove_standby_copy_def target_matches_def split: option.splits bool.splits sum.splits if_splits)

lemma receipt_of_append: "receipt_of (rows @ [r]) k = (case receipt_of rows k of Some r \<Rightarrow> Some r | None \<Rightarrow> if receipt_key r = k then Some r else None)"
  by (induction rows) (simp_all add: receipt_of_def)

text \<open>
  C37. A command reaches acceptance. On a database where the command has neither acknowledgement nor finalization, an attempt
  against a standby that is the configured one and replays what the primary commits ends accepted, at the next position
  of the sequence, with the acknowledgement, the finalization and the confirmation stored; the replay positions the standby
  has advanced to when the receipt and the finalization are read back may be any.
\<close>

theorem honest_attempt_accepted:
  assumes "db = durability_run is empty_durability" and "honest_attempt i s y l l' db"
    and "receipt_of (dd_acks db) (snapshot_key s) = None" and "receipt_of (dd_finals db) (snapshot_key s) = None"
    and "read_lsn (sy_lsn y) \<noteq> None" and "sha256_reference (cs_root s)"
  shows "\<exists>d f. fst (reconcile_durability i db) = Inr (Inr d) \<and> dn_accepted d \<and> dn_position d = Some (dd_next db) \<and>
    receipt_key f = snapshot_key s \<and> dr_position f = dd_next db \<and>
    dd_acks (durability_step i db) = dd_acks db @ [f] \<and> dd_finals (durability_step i db) = dd_finals db @ [f] \<and>
    dd_confirmed (durability_step i db) = dd_confirmed db @ [f]"
proof -
  let ?p = "ri_policy i"
  let ?f = "\<lparr>dr_tenant = cs_tenant s, dr_principal = cs_principal s, dr_command = cs_command s, dr_request = cs_request s,
            dr_root = cs_root s, dr_position = dd_next db, dr_policy = dp_ref ?p, dr_application = sy_application y,
            dr_identity = sy_cluster y, dr_system = sy_system y, dr_timeline = sy_timeline y, dr_lsn = sy_lsn y\<rparr>"
  let ?db1 = "db\<lparr>dd_next := dd_next db + 1, dd_acks := dd_acks db @ [?f]\<rparr>"
  let ?db2 = "?db1\<lparr>dd_finals := dd_finals db @ [?f]\<rparr>" let ?db3 = "?db2\<lparr>dd_confirmed := dd_confirmed db @ [?f]\<rparr>"
  have inv: "durability_inv db" using assms(1) durability_run_inv by simp
  have key: "receipt_key ?f = snapshot_key s" by (simp add: receipt_key_def snapshot_key_def)
  obtain n where n: "read_lsn (sy_lsn y) = Some n" using assms(5) by blast
  have one: "append_acknowledgement s ?p y CommitDone db = ?db1"
    using assms(3) by (simp add: append_acknowledgement_def Let_def fate_executed_def fate_applied_def)
  have ack: "receipt_of (dd_acks ?db1) (snapshot_key s) = Some ?f" using assms(3) key by (simp add: receipt_of_append)
  have "set (dd_finals db) \<subseteq> set (dd_acks db)" "\<forall>r \<in> set (dd_acks db). dr_position r < dd_next db" "1 \<le> dd_next db"
    using inv by (simp_all add: durability_inv_def)
  then have free: "dd_next db \<notin> dr_position ` set (dd_finals db)" by fastforce
  have two: "insert_finalization s ?f CommitDone ?db1 = ?db2"
    using assms(4) free by (simp add: insert_finalization_def Let_def fate_applied_def)
  have final: "receipt_of (dd_finals ?db2) (snapshot_key s) = Some ?f" using assms(4) key by (simp add: receipt_of_append)
  have "receipt_of (dd_confirmed db) (snapshot_key s) = None"
    using inv assms(4) by (auto simp: receipt_of_None durability_inv_def)
  then have three: "store_confirmation ?f CommitDone ?db2 = (True, ?db3)"
    using key by (simp add: store_confirmation_def Let_def fate_applied_def fate_error_def receipt_of_append)
  have inputs: "ri_snapshot i = Inr s" "ri_configured i" "dp_mode ?p \<noteq> ''pending_only''"
      "prove_standby_copy ?p s (ri_settings i) (ri_prove i) = Inr y"
      "ri_append i = CommitDone" "ri_commit i = CommitDone" "ri_store i = CommitDone"
      "ri_receipt i = Some (replayed_view (y\<lparr>sy_lsn := l\<rparr>) s ?db1)" "ri_final i = Some (replayed_view (y\<lparr>sy_lsn := l'\<rparr>) s ?db2)"
    using assms(2) unfolding honest_attempt_def one Let_def ack option.sel two by blast+
  have matches: "receipt_matches ?f s ?p y = Inr True" by (simp add: receipt_matches_def lsn_position_def n)
  have same: "same_standby (y\<lparr>sy_lsn := x\<rparr>) y" for x using proven_recovery [OF inputs(4)] by (simp add: same_standby_def)
  have rep: "replicate_receipt s ?p y i db = (Inr (Inr ?f), ?db1)"
    using ack by (simp add: replicate_receipt_def Let_def inputs(5,8) one fate_error_def replayed_view_def same matches)
  have "exact_replayed_finalization s ?f ?p y (ri_final i) = Inr (Some ?f)"
    using ack final by (simp add: exact_replayed_finalization_def inputs(9) replayed_view_def same matches
        finalization_matches_snapshot_def finalization_matches_receipt_def)
  then have fin: "finalize_acceptance s ?f ?p y i ?db1 = (Inr (Some ?f), ?db3)"
    by (simp only: finalize_acceptance_def Let_def inputs(6,7) two three sum.case option.case prod.case if_True)
  obtain d where d: "accepted_decision s ?f = Inr d"
    using assms(6) \<open>1 \<le> dd_next db\<close> by (simp add: accepted_decision_def decision_checked_def)
  have "reconcile_durability i db = (Inr (Inr d), ?db3)"
    using inputs(1-4) assms(4)
    by (simp add: reconcile_durability_def reconcile_unfinalized_def Let_def rep fin d)
  then show ?thesis using accepted_shape [OF d] key
    by (intro exI [of _ d] exI [of _ ?f]) (simp add: durability_step_def)
qed

section \<open>One command\<close>

definition sample_command :: command_snapshot where
  "sample_command = \<lparr>cs_tenant = 1, cs_principal = 2, cs_command = 3, cs_request = ''request'', cs_root = sample_root\<rparr>"

definition sample_durability :: durability_policy where
  "sample_durability =
     \<lparr>dp_ref = ''policy@1'', dp_mode = ''cutover_rpo0'', dp_application = ''ctower_i1_ack'', dp_identity = ''copy'', dp_deadline = 100, dp_retry = 1\<rparr>"

definition sample_standby :: standby_identity where
  "sample_standby =
     \<lparr>sy_application = ''ctower_i1_ack'', sy_cluster = ''copy'', sy_system = 7, sy_timeline = 1, sy_lsn = ''0/1'', sy_recovery = True\<rparr>"

definition sample_receipt :: durability_receipt where
  "sample_receipt =
     \<lparr>dr_tenant = 1, dr_principal = 2, dr_command = 3, dr_request = ''request'', dr_root = sample_root, dr_position = 1,
      dr_policy = ''policy@1'', dr_application = ''ctower_i1_ack'', dr_identity = ''copy'', dr_system = 7, dr_timeline = 1, dr_lsn = ''0/1''\<rparr>"

text \<open>The standby advances from one observation to the next.\<close>

definition sample_view :: "string \<Rightarrow> durability_receipt option \<Rightarrow> durability_receipt option \<Rightarrow> standby_view option" where
  "sample_view l r f = Some \<lparr>vw_identity = sample_standby\<lparr>sy_lsn := l\<rparr>, vw_snapshot = Inr sample_command, vw_receipt = r, vw_final = f\<rparr>"

definition sample_inputs :: "standby_view option \<Rightarrow> reconcile_inputs" where
  "sample_inputs seen =
     \<lparr>ri_snapshot = Inr sample_command, ri_policy = sample_durability, ri_copy = None, ri_configured = True,
      ri_settings = Some (Some ''FIRST 1 (ctower_i1_ack)''), ri_prove = sample_view ''0/1'' None None, ri_receipt = seen,
      ri_final = sample_view ''0/3'' (Some sample_receipt) (Some sample_receipt),
      ri_append = CommitDone, ri_commit = CommitDone, ri_store = CommitDone\<rparr>"

definition early_attempt :: reconcile_inputs where
  "early_attempt = sample_inputs (sample_view ''0/1'' None None)"

definition full_attempt :: reconcile_inputs where
  "full_attempt = sample_inputs (sample_view ''0/2'' (Some sample_receipt) None)"

lemmas sample_fields = sample_inputs_def sample_view_def sample_command_def sample_durability_def sample_standby_def sample_receipt_def

lemma sample_setting: "squeezed ''FIRST 1 (ctower_i1_ack)'' = folded (''first1('' @ ''ctower_i1_ack'' @ '')'')"
  by code_simp

lemma sample_proven:
  "prove_standby_copy sample_durability sample_command (Some (Some ''FIRST 1 (ctower_i1_ack)'')) (sample_view ''0/1'' None None) = Inr sample_standby"
  using sample_setting by (simp add: prove_standby_copy_def target_matches_def sample_fields)

lemma sample_lsn: "read_lsn ''0/1'' = Some 1"
  by (simp add: read_lsn_def read_hex_def hex_digit_def)

lemma sample_matches: "receipt_matches sample_receipt sample_command sample_durability sample_standby = Inr True"
  by (simp add: receipt_matches_def lsn_position_def sample_fields sample_lsn)

lemma sample_accepted:
  "accepted_decision sample_command sample_receipt = Inr
     \<lparr>dn_command = 3, dn_accepted = True, dn_reason = ''standby_receipt_proven'', dn_policy = ''policy@1'', dn_root = sample_root,
      dn_position = Some 1, dn_retry = 1\<rparr>"
  by (simp add: accepted_decision_def decision_checked_def sample_command_def sample_receipt_def)

lemma sample_append:
  "append_acknowledgement sample_command sample_durability sample_standby CommitDone db =
     (if receipt_of (dd_acks db) (snapshot_key sample_command) = None
      then db\<lparr>dd_next := dd_next db + 1, dd_acks := dd_acks db @ [sample_receipt\<lparr>dr_position := dd_next db\<rparr>]\<rparr>
      else db\<lparr>dd_next := dd_next db + 1\<rparr>)"
  by (simp add: append_acknowledgement_def Let_def fate_executed_def fate_applied_def sample_fields)

lemma sample_command_key: "receipt_key sample_receipt = snapshot_key sample_command"
  by (simp add: receipt_key_def snapshot_key_def sample_fields)

lemma sample_once: "receipt_of [sample_receipt] (snapshot_key sample_command) = Some sample_receipt"
  by (simp add: receipt_of_def sample_command_key)

lemma early_step:
  "receipt_of (dd_finals db) (snapshot_key sample_command) = None \<Longrightarrow>
     durability_step early_attempt db = append_acknowledgement sample_command sample_durability sample_standby CommitDone db"
  using sample_proven
  by (simp add: durability_step_def reconcile_durability_def reconcile_unfinalized_def early_attempt_def sample_inputs_def Let_def
      replicate_receipt_def fate_error_def sample_durability_def) (simp add: sample_view_def)

lemma sample_row: "sample_receipt\<lparr>dr_position := 1\<rparr> = sample_receipt"
  by (simp add: sample_receipt_def)

lemma early_run: "durability_run [early_attempt] empty_durability = empty_durability\<lparr>dd_next := 2, dd_acks := [sample_receipt]\<rparr>"
  by (simp add: early_step empty_durability_def receipt_of_def sample_append sample_row)

lemma early_again:
  "durability_run [early_attempt, early_attempt] empty_durability = empty_durability\<lparr>dd_next := 3, dd_acks := [sample_receipt]\<rparr>"
proof -
  let ?one = "empty_durability\<lparr>dd_next := 2, dd_acks := [sample_receipt]\<rparr>"
  have "durability_step early_attempt ?one = append_acknowledgement sample_command sample_durability sample_standby CommitDone ?one"
    by (rule early_step) (simp add: empty_durability_def receipt_of_def)
  then show ?thesis using early_run by (simp add: sample_append sample_once)
qed

lemma full_step:
  assumes "dd_acks db = [sample_receipt] \<or> dd_acks db = [] \<and> dd_next db = 1" and "dd_finals db = []" and "dd_confirmed db = []"
  shows "fst (reconcile_durability full_attempt db) = bindE (accepted_decision sample_command sample_receipt) (\<lambda>d. Inr (Inr d)) \<and>
    durability_step full_attempt db =
      db\<lparr>dd_next := dd_next db + 1, dd_acks := [sample_receipt], dd_finals := [sample_receipt], dd_confirmed := [sample_receipt]\<rparr>"
proof -
  let ?db1 = "db\<lparr>dd_next := dd_next db + 1, dd_acks := [sample_receipt]\<rparr>"
  let ?db2 = "?db1\<lparr>dd_finals := [sample_receipt]\<rparr>" let ?db3 = "?db2\<lparr>dd_confirmed := [sample_receipt]\<rparr>"
  have one: "append_acknowledgement sample_command sample_durability sample_standby CommitDone db = ?db1"
    using assms(1) sample_once by (auto simp: sample_append sample_row) (simp add: receipt_of_def sample_row)
  have row: "sample_receipt\<lparr>dr_tenant := cs_tenant sample_command, dr_principal := cs_principal sample_command, dr_command := cs_command sample_command\<rparr> = sample_receipt"
    by (simp add: sample_fields)
  have two: "insert_finalization sample_command sample_receipt CommitDone ?db1 = ?db2"
    using assms(2) by (simp add: insert_finalization_def Let_def fate_applied_def row receipt_of_def)
  have three: "store_confirmation sample_receipt CommitDone ?db2 = (True, ?db3)"
    using assms(3) sample_once sample_command_key by (simp add: store_confirmation_def Let_def fate_applied_def fate_error_def receipt_of_def)
  have same: "same_standby (sample_standby\<lparr>sy_lsn := l\<rparr>) sample_standby" for l by (simp add: same_standby_def sample_standby_def)
  have rep: "replicate_receipt sample_command sample_durability sample_standby full_attempt db = (Inr (Inr sample_receipt), ?db1)"
    using one same sample_matches by (simp add: replicate_receipt_def full_attempt_def sample_inputs_def fate_error_def sample_view_def Let_def)
  have "exact_replayed_finalization sample_command sample_receipt sample_durability sample_standby (sample_view ''0/3'' (Some sample_receipt) (Some sample_receipt)) =
      Inr (Some sample_receipt)"
    using same sample_matches by (simp add: exact_replayed_finalization_def sample_view_def) (simp add: finalization_matches_snapshot_def
        finalization_matches_receipt_def sample_fields)
  then have fin: "finalize_acceptance sample_command sample_receipt sample_durability sample_standby full_attempt ?db1 = (Inr (Some sample_receipt), ?db3)"
    by (simp add: finalize_acceptance_def full_attempt_def sample_inputs_def two three)
  have "reconcile_durability full_attempt db = (bindE (accepted_decision sample_command sample_receipt) (\<lambda>d. Inr (Inr d)), ?db3)"
    using assms(2) sample_proven rep fin
    by (simp add: reconcile_durability_def reconcile_unfinalized_def full_attempt_def sample_inputs_def receipt_of_def Let_def)
      (simp add: sample_durability_def)
  then show ?thesis by (simp add: durability_step_def)
qed

definition full_durability :: durability_db where
  "full_durability = \<lparr>dd_next = 2, dd_acks = [sample_receipt], dd_finals = [sample_receipt], dd_confirmed = [sample_receipt]\<rparr>"

lemma full_run:
  "durability_run [full_attempt] empty_durability = full_durability"
  "durability_run [early_attempt, early_attempt, full_attempt] empty_durability = full_durability\<lparr>dd_next := 4\<rparr>"
proof -
  show "durability_run [full_attempt] empty_durability = full_durability"
    using full_step [of empty_durability] by (simp add: empty_durability_def full_durability_def)
  have "durability_run [early_attempt, early_attempt, full_attempt] empty_durability =
      durability_step full_attempt (durability_run [early_attempt, early_attempt] empty_durability)" by simp
  then show "durability_run [early_attempt, early_attempt, full_attempt] empty_durability = full_durability\<lparr>dd_next := 4\<rparr>"
    unfolding early_again using full_step [of "empty_durability\<lparr>dd_next := 3, dd_acks := [sample_receipt]\<rparr>"]
    by (simp add: empty_durability_def full_durability_def)
qed

lemma full_answer: "fst (reconcile_durability full_attempt empty_durability) = bindE (accepted_decision sample_command sample_receipt) (\<lambda>d. Inr (Inr d))"
  using full_step [of empty_durability] by (simp add: empty_durability_def)

lemma full_again:
  "fst (reconcile_durability full_attempt full_durability) = bindE (accepted_decision sample_command sample_receipt) (\<lambda>d. Inr (Inr d))"
  by (simp add: reconcile_durability_def full_attempt_def sample_inputs_def full_durability_def sample_once finalized_outcome_def)
    (simp add: finalization_matches_snapshot_def finalization_matches_receipt_def sample_fields)

lemma full_input: "ri_snapshot full_attempt = Inr sample_command"
  by (simp add: full_attempt_def sample_inputs_def)

lemma accepted_positions_name_commands_witness:
  "acceptance_proven full_attempt
     \<lparr>dn_command = 3, dn_accepted = True, dn_reason = ''standby_receipt_proven'', dn_policy = ''policy@1'', dn_root = sample_root,
      dn_position = Some 1, dn_retry = 1\<rparr> (durability_run [full_attempt] empty_durability)"
  using accepted_positions_name_commands [of full_attempt sample_command full_attempt sample_command "[]" _ "[]", OF full_input full_input]
    full_answer full_again full_run(1)
  by (simp add: sample_accepted)

lemma early_input: "ri_snapshot early_attempt = Inr sample_command"
  by (simp add: early_attempt_def sample_inputs_def)

lemma retry_stops_anchors_witness:
  "(2 :: int) \<notin> dr_position ` set (dd_acks (durability_run [early_attempt, early_attempt, full_attempt] empty_durability)) \<and>
   anchors_of (recovery_run {1} sample_anchoring) 1 = [sample_anchor] \<and> an_end sample_anchor < 2"
proof -
  let ?db = "durability_run [early_attempt] empty_durability"
  have as: "anchors_of (recovery_run {1} sample_anchoring) 1 = [sample_anchor]"
    by (simp add: anchors_of_def sample_anchor_run) (simp add: sample_anchor_def)
  have "dd_next ?db \<notin> dr_position ` set (dd_acks (durability_run [early_attempt, early_attempt, full_attempt] empty_durability)) \<and>
    (\<forall>a \<in> set (anchors_of (recovery_run {1} sample_anchoring) 1). an_end a < dd_next ?db)"
  proof (rule retry_stops_anchors [OF refl early_input])
    show "receipt_of (dd_finals ?db) (snapshot_key sample_command) = None" unfolding early_run by (simp add: empty_durability_def receipt_of_def)
    show "receipt_of (dd_acks ?db) (snapshot_key sample_command) \<noteq> None" unfolding early_run by (simp add: sample_once)
    show "prove_standby_copy (ri_policy early_attempt) sample_command (ri_settings early_attempt) (ri_prove early_attempt) = Inr sample_standby"
      using sample_proven by (simp add: early_attempt_def sample_inputs_def)
    show "durability_run [early_attempt, early_attempt, full_attempt] empty_durability =
        durability_run ([early_attempt] @ early_attempt # [full_attempt]) empty_durability" by (simp only: append.simps)
    show "\<forall>p root. OpAccept 1 p root \<in> set sample_anchoring \<longrightarrow>
        (\<exists>f \<in> set (dd_confirmed (durability_run [early_attempt, early_attempt, full_attempt] empty_durability)).
           dr_tenant f = 1 \<and> dr_position f = p \<and> dr_root f = root)"
      unfolding full_run(2) by (simp add: full_durability_def sample_anchoring_def) (simp add: sample_receipt_def)
  qed (simp_all add: early_attempt_def sample_inputs_def sample_durability_def fate_executed_def)
  then show ?thesis using as early_run by simp
qed

lemma honest_attempt_accepted_witness:
  "\<exists>d f. fst (reconcile_durability full_attempt empty_durability) = Inr (Inr d) \<and> dn_accepted d \<and> dn_position d = Some 1 \<and>
    receipt_key f = snapshot_key sample_command \<and> dd_confirmed (durability_step full_attempt empty_durability) = [f]"
proof -
  let ?ack = "empty_durability\<lparr>dd_next := 2, dd_acks := [sample_receipt]\<rparr>"
  have one: "append_acknowledgement sample_command sample_durability sample_standby CommitDone empty_durability = ?ack"
    by (simp add: sample_append empty_durability_def receipt_of_def sample_row)
  have two: "insert_finalization sample_command sample_receipt CommitDone ?ack = ?ack\<lparr>dd_finals := [sample_receipt]\<rparr>"
    by (simp add: insert_finalization_def empty_durability_def receipt_of_def fate_applied_def Let_def) (simp add: sample_fields)
  have policy: "ri_policy full_attempt = sample_durability" by (simp add: full_attempt_def sample_inputs_def)
  have views: "sample_view l (Some sample_receipt) None = Some (replayed_view (sample_standby\<lparr>sy_lsn := l\<rparr>) sample_command ?ack)"
      "sample_view l (Some sample_receipt) (Some sample_receipt) =
        Some (replayed_view (sample_standby\<lparr>sy_lsn := l\<rparr>) sample_command (?ack\<lparr>dd_finals := [sample_receipt]\<rparr>))" for l
    using sample_once by (simp_all add: sample_view_def replayed_view_def) (simp add: empty_durability_def receipt_of_def)
  have honest: "honest_attempt full_attempt sample_command sample_standby ''0/2'' ''0/3'' empty_durability"
    using sample_proven one two views sample_once
    by (simp add: honest_attempt_def policy Let_def) (simp add: full_attempt_def sample_inputs_def sample_durability_def)
  have "\<exists>d f. fst (reconcile_durability full_attempt empty_durability) = Inr (Inr d) \<and> dn_accepted d \<and> dn_position d = Some (dd_next empty_durability) \<and>
    receipt_key f = snapshot_key sample_command \<and> dr_position f = dd_next empty_durability \<and>
    dd_acks (durability_step full_attempt empty_durability) = dd_acks empty_durability @ [f] \<and>
    dd_finals (durability_step full_attempt empty_durability) = dd_finals empty_durability @ [f] \<and>
    dd_confirmed (durability_step full_attempt empty_durability) = dd_confirmed empty_durability @ [f]"
  proof (rule honest_attempt_accepted [OF _ honest])
    show "read_lsn (sy_lsn sample_standby) \<noteq> None" by (simp add: sample_standby_def sample_lsn)
    show "sha256_reference (cs_root sample_command)" by (simp add: sample_command_def)
    show "empty_durability = durability_run [] empty_durability" by simp
  qed (simp_all add: empty_durability_def receipt_of_def)
  then show ?thesis by (auto simp: empty_durability_def)
qed

end
