(* ===== verification/Spec2Isabelle.thy ===== *)
theory Spec2Isabelle
  imports WorkflowEval WorkflowSource Scheduling WorkTheorems SeamMeter SeamRegistry SeamFake SpoolPolicy SpoolTamper SpoolInterface EvidenceTheorems ConsoleTheorems RestoreTheorems DurabilityTheorems
begin

text \<open>
  A verification library of ctower, a control plane for software work done by agents: of the kernel
  (\<open>packages/ctower-kernel\<close>) the workflow engine, the Work module, Proof, the Console authority and the recovery and durability
  of the Record; the harness-adapter seam that runners implement (\<open>packages/ctower-runner-sdk\<close>); and the command
  spool of the command line client (\<open>apps/ctowerctl\<close>).

  \<^bold>\<open>How the parts interact.\<close> A \<^emph>\<open>workflow definition\<close> is authored as YAML, checked in three gates and
  rendered into the strict document of a \<^emph>\<open>workflow graph\<close>, which the \<^emph>\<open>evaluator\<close> uses to decide which
  transition a ticket may take. \<^emph>\<open>Work\<close> is the transactional module that changes tickets: one command
  is authorised, reserved under its key, checked against the ticket's version, applied by the handler of
  its action to the tables, and committed as one event with its stored outcome, or refused. \<^emph>\<open>Proof\<close> decides when the
  criteria of a ticket are shown and approved. A committed command is \<^emph>\<open>accepted\<close> once the named standby has replayed
  its acknowledgement and finalization; accepted commands get positions, which signed \<^emph>\<open>anchors\<close> bind, and a
  restored installation is read only after an isolated \<^emph>\<open>restore\<close> against them. An operator views a terminal
  through a \<^emph>\<open>console grant\<close>. A runner executes work through the \<^emph>\<open>seam\<close>: a harness manifest is registered, an attempt is
  pinned to it, a guard decision clears the exact plan, a credential pool leases an entry, the binding spawns, observes,
  collects, writes back and tears down, and a ledger meters what happened. A client that is offline keeps commands in its
  \<^emph>\<open>spool\<close>, an encrypted hash chain of record files, and replays them in order later.

  \<^bold>\<open>Theories.\<close>
  \<^item> \<open>Prelude\<close>: the lemma collections, errors (\<open>'a py\<close>: a Python exception or a value), lists and maps.
    \<open>PyJson\<close>: JSON values, their canonical text and its injectivity, \<open>repr\<close> of strings; \<open>PyJsonRead\<close> reads that text back.
    \<open>Sha256\<close>: SHA-256 on 32-bit words; \<open>Base64\<close>; \<open>Uuid5\<close>: SHA-1 and name-based UUIDs. \<open>PyTime\<close>: ISO dates of microseconds
    since the epoch. \<open>Reach\<close>: reachability of relations. \<open>Machine\<close>: the locale \<open>guarded_machine\<close>, an invariant kept by
    every step and hence by every run.
  \<^item> \<open>WorkflowGraph\<close>, \<open>WorkflowEval\<close>: \<open>workflow/_graph.py\<close> and \<open>workflow/interface.py\<close>.
    \<open>WorkflowDefinition\<close>: \<open>workflow/_definition_model.py\<close>, \<open>_definition_plan.py\<close> (gates 2 and 3).
    \<open>WorkflowSource\<close>: \<open>_definition_source.py\<close> (gate 1), \<open>_definition_export.py\<close>.
  \<^item> \<open>Scheduling\<close>: \<open>work/_scheduling.py\<close>. \<open>WorkCommands\<close>: the commands and early refusals of \<open>work/interface.py\<close> with the
    facts of \<open>record/\<close> it needs. \<open>WorkStore\<close>: the handlers \<open>_assignments\<close>, \<open>_review_dispatch\<close>, \<open>_intents\<close>, \<open>_blockers\<close>,
    \<open>_priority\<close>, \<open>_relations\<close>. \<open>WorkChecks\<close>: the constraints of the tables they write, from migrations 0002, 0007, 0011
    and 0049. \<open>WorkExecute\<close>: the transaction of \<open>work/_postgres_sql.py\<close>, \<open>work/_event_sql.py\<close> and
    \<open>record/_commands.py\<close>. \<open>WorkInvariants\<close>, \<open>WorkProofs\<close>: every handler keeps the invariants of the store.
    \<open>WorkTheorems\<close>: the properties of whole transactions and runs.
  \<^item> \<open>EvidenceProof\<close>: \<open>proof/interface.py\<close>. \<open>EvidencePolicy\<close>: \<open>proof/policy.py\<close>. \<open>EvidenceTheorems\<close>: satisfaction and
    acceptance over the trail of accepted commands.
  \<^item> \<open>ConsoleGrant\<close>: \<open>console/models.py\<close>, \<open>policy.py\<close>, \<open>_authority_policy.py\<close>. \<open>ConsoleTheorems\<close>: bounds of grants and streams.
  \<^item> \<open>RecordIntegrity\<close>: \<open>record/_integrity.py\<close>, \<open>recovery.py\<close>. \<open>RecordRecovery\<close>: \<open>record/_recovery_sql.py\<close>, \<open>_recovery_replay.py\<close>,
    \<open>postgres_recovery.py\<close> with migrations 0021 and 0022. \<open>RecordTheorems\<close>: the chain of anchors. \<open>RestoreTheorems\<close>: restores.
    \<open>Durability\<close>: \<open>record/_durability_evidence.py\<close>, \<open>_durability_sql.py\<close>, \<open>_durability_confirmation_sql.py\<close>.
    \<open>DurabilityTheorems\<close>: acceptance and its positions, composed with the anchors.
  \<^item> \<open>Seam\<close>: \<open>refusals.py\<close>, \<open>attempt.py\<close>, \<open>facts.py\<close>, \<open>survey.py\<close>, \<open>spec.py\<close>. \<open>SeamPolicy\<close>: \<open>policy.py\<close>. \<open>SeamGuard\<close>: \<open>guard.py\<close>.
    \<open>SeamMeter\<close>: \<open>ledger.py\<close>, \<open>credits.py\<close>. \<open>SeamPool\<close>: \<open>credentials.py\<close>, \<open>rotation.py\<close>. \<open>SeamRegistry\<close>: \<open>registry.py\<close>.
    \<open>SeamFake\<close>: \<open>fake.py\<close> with the two Protocols it implements as the locales \<open>credential_pool\<close> and
    \<open>harness_binding\<close>.
  \<^item> The spool (\<open>apps/ctowerctl/src/ctowerctl/spool/\<close>), its code: \<open>SpoolRedaction\<close> (\<open>_redaction.py\<close>, \<open>_refusals.py\<close>), \<open>SpoolModels\<close>
    (\<open>_models.py\<close>), \<open>SpoolChain\<close> (\<open>_chain.py\<close>), \<open>SpoolStore\<close> (\<open>_store.py\<close>), \<open>SpoolRecovery\<close> (\<open>_recovery.py\<close>), \<open>SpoolReplay\<close>
    (\<open>_replay.py\<close>, \<open>_retention.py\<close>, \<open>_corruption.py\<close>), \<open>SpoolCrypto\<close> (\<open>_crypto.py\<close>, \<open>_identity.py\<close>), \<open>SpoolKeyring\<close> (\<open>_keyring.py\<close>),
    \<open>SpoolInterface\<close> (\<open>interface.py\<close>). Its proofs: \<open>SpoolLog\<close> and \<open>SpoolSettle\<close> (the logical log and its settling), \<open>SpoolDisk\<close> (the
    abstraction of the disk), \<open>SpoolCrash\<close> (recovery from any disk that holds a log), \<open>SpoolExtend\<close>, \<open>SpoolAtomic\<close>, \<open>SpoolChange\<close>
    (each change as an append with its settling, cut anywhere), \<open>SpoolTheorems\<close>, \<open>SpoolPolicy\<close>, \<open>SpoolTamper\<close>, \<open>SpoolFormat\<close>.

  \<^bold>\<open>Interfaces.\<close> \<open>guarded_machine\<close> is interpreted on the Work transaction, the registry, the ledger, the proof decisions, the
  recovery operations and the reconciliation of acceptance; \<open>credential_pool\<close> and \<open>harness_binding\<close> on the fake; \<open>search\<close>
  (\<open>Reach\<close>) on the two worklist loops.

  \<^bold>\<open>What is shown.\<close> Parsers return only well-formed values and their digests identify them up to an explicit
  collision (C1, C2, C19, C31); the evaluator and the gates decide exactly their specifications (C3--C8); scheduling is a
  deterministic partition without starvation (C9, C10); a Work transaction is authorised, atomic
  (it raises exactly when it breaks a constraint of the tables), idempotent and keeps the invariants of the store, its lifecycle is a state machine and acyclicity is exact
  (C11--C17); the seam's authority is exact, grants are used once, spend and re-reads are counted exactly, and the
  fake obeys its contracts (C18--C23); the spool's chain is tamper-evident, its changes are atomic under crashes, replay
  is ordered, its records are sound, and one history of dispositions blocks recovery (C24--C28); a proof is satisfied, and its
  commands accepted, exactly by the rules over the accepted trail (C29, C30); console views and their rates
  are bounded (C32, C33); the last anchor identifies the accepted history, accepted positions name commands, an honest
  standby leads to acceptance, and one retry ends anchoring (C34--C37); restores are evaluated exactly, completed exactly
  when their duration rounds down, and read only when proven (C38--C40).

  \<^bold>\<open>Conventions.\<close> A Python \<open>str\<close> is its UTF-8 bytes as a \<open>string\<close>, so \<open>len(s.encode())\<close> is \<open>length\<close>; a \<open>datetime\<close> is the integer of
  microseconds since the epoch in UTC; a \<open>UUID\<close> a 128-bit word; a Literal is the string it is at run time; an \<open>int\<close>
  is unbounded; a dict is its items in insertion order; a raised exception is a value of the left sum. A SQL table
  is the list of its rows and a statement a function on it. A clock read several times in one call is its
  sequence of readings. Digest texts are ASCII, so \<open>ensure_ascii\<close> makes no difference to them.

  \<^bold>\<open>Termination and bounds.\<close> No definition of the program uses fuel. The worklist loops (\<open>reach_loop\<close>, \<open>cte_loop\<close>) are total
  functions whose measure is the finite set of stages or tickets still unseen; blank stripping shortens its input.

  \<^bold>\<open>Parameters.\<close> The YAML reader, the JSON-schema validators, the JSON decoder, AES-GCM and HKDF, the keyring's backend, the scan for
  prohibited data, the Record gates for project scope and durability, the guard and the receipt sink, the server
  a replay asks, what the standby shows and how a commit fares, the identifiers and nonces that are minted
  and the clocks are arguments of the definitions that use them; theorems hold for every value of them unless a
  hypothesis says otherwise.

  \<^bold>\<open>Not modelled.\<close> For Work, the references to tenants, row locks, the outbox, telemetry and the hash chain of events. For the Record, roles, locks and concurrent transactions, the durability observations and health
  reads, sessions, intake and the migration ledgers. For the spool, its lock, modes and mounts, the normalisation of its
  origin, the bounds of its configuration, the cache of opened records, crashes inside a compaction, crashes between the renames by which recovery
  moves abandoned files away, and floats in payloads. The SQL writers behind workflow start, advance and close, Proof and Console; requests, proposals and rulings;
  projections, catalog, migration, runtime, the HTTP and command line applications and the real runner bindings are
  persistence and I/O around these cores. Unicode decimal digits outside ASCII in \<open>int(text)\<close> are refused by the model.
\<close>

end
